(* ===== verification/Prelude.thy ===== *)
theory Prelude
  imports Main "HOL-Library.Word" "HOL-Library.Monad_Syntax"
begin

text \<open>
  Shared vocabulary of the development: the machine integer types the C code uses, the option
  monad in which a run that trips an \<open>assert\<close> or leaves the bounds of an array is the value
  \<open>None\<close>, checked array reads and writes, and the generic list and word lemmas that the
  component theories rest on.
\<close>

unbundle bit_operations_syntax

type_synonym u8 = "8 word"
type_synonym u16 = "16 word"
type_synonym u32 = "32 word"
type_synonym u64 = "64 word"

named_theorems c_simps \<open>unfolding rules for the fault monad and the checked array accesses\<close>

subsection \<open>Faults: assertions and array bounds\<close>

definition c_assert :: "bool \<Rightarrow> unit option" where
  "c_assert b = (if b then Some () else None)"

definition arr_get :: "'a list \<Rightarrow> nat \<Rightarrow> 'a option" where
  "arr_get xs i = (if i < length xs then Some (xs ! i) else None)"

definition arr_set :: "'a list \<Rightarrow> nat \<Rightarrow> 'a \<Rightarrow> 'a list option" where
  "arr_set xs i v = (if i < length xs then Some (xs[i := v]) else None)"

lemma c_assert_bind [c_simps]:
  "(c_assert b \<bind> f) = (if b then f () else None)"
  by (simp add: c_assert_def)

lemma arr_get_bind [c_simps]:
  "(arr_get xs i \<bind> f) = (if i < length xs then f (xs ! i) else None)"
  by (simp add: arr_get_def)

lemma arr_set_bind [c_simps]:
  "(arr_set xs i v \<bind> f) = (if i < length xs then f (xs[i := v]) else None)"
  by (simp add: arr_set_def)

lemma arr_get_Some [simp]: "i < length xs \<Longrightarrow> arr_get xs i = Some (xs ! i)"
  by (simp add: arr_get_def)

lemma arr_set_Some [simp]: "i < length xs \<Longrightarrow> arr_set xs i v = Some (xs[i := v])"
  by (simp add: arr_set_def)

lemma bind_eq_SomeE:
  assumes "(m \<bind> f) = Some y"
  obtains x where "m = Some x" and "f x = Some y"
  using assms by (cases m) auto

subsection \<open>Lists\<close>

lemma in_set_update_keep: "x \<in> set xs \<Longrightarrow> x \<noteq> xs ! i \<Longrightarrow> x \<in> set (xs[i := y])"
  by (metis in_set_conv_nth length_list_update nth_list_update_neq)

lemma in_set_updateD: "x \<in> set (xs[i := y]) \<Longrightarrow> x = y \<or> x \<in> set xs"
  using set_update_subset_insert [of xs i y] by blast

subsection \<open>Words\<close>

lemma xor_cancel_left [simp]: "(a :: 'a :: len word) XOR (a XOR b) = b"
  by (simp flip: xor.assoc)

lemma xor_cancel_right [simp]: "((b :: 'a :: len word) XOR a) XOR a = b"
  by (simp add: xor.assoc)

lemma xor_swap: "((a :: 'a :: len word) XOR b) XOR (c XOR d) = (a XOR c) XOR (b XOR d)"
  by (simp add: ac_simps)

lemma xor_eq_0_iff: "(a :: 'a :: len word) XOR b = 0 \<longleftrightarrow> a = b"
  by (metis xor_cancel_left xor.right_neutral xor_self_eq)

end
