(* ===== verification/Crc.thy ===== *)
theory Crc
  imports Prelude
begin

text \<open>
  Mode S checksum and error correction, translated from \<^verbatim>\<open>src/crc.c\<close>. The two lookup tables
  and the two error-correction tables, which the C code keeps in static variables, are the
  fields of the record \<^verbatim>\<open>crc_globals\<close>. A run that trips an \<open>assert\<close> or indexes a table or a
  message out of its bounds is \<open>None\<close>.
\<close>

subsection \<open>Data: struct errorinfo and the static tables\<close>

definition MODES_MAX_BITERRORS :: nat where
  "MODES_MAX_BITERRORS = 2"

definition MODES_GENERATOR_POLY :: u32 where
  "MODES_GENERATOR_POLY = 0xfff409"

record errorinfo =
  syndrome :: u32
  errors :: int
  ebit :: "int list"

text \<open>A static object, so all its fields start as zero.\<close>

definition NO_ERRORS :: errorinfo where
  "NO_ERRORS = \<lparr>syndrome = 0, errors = 0, ebit = replicate MODES_MAX_BITERRORS 0\<rparr>"

record crc_globals =
  crc_table :: "u32 list"
  single_bit_syndrome :: "u32 list"
  bitErrorTable_short :: "errorinfo list option"
  bitErrorTable_long :: "errorinfo list option"

definition crc_globals_start :: crc_globals where
  "crc_globals_start = \<lparr>crc_table = replicate 256 0, single_bit_syndrome = replicate 112 0,
     bitErrorTable_short = None, bitErrorTable_long = None\<rparr>"

subsection \<open>modesChecksum and the lookup tables\<close>

definition crc_step :: "u32 list \<Rightarrow> u32 \<Rightarrow> u8 \<Rightarrow> u32" where
  "crc_step tbl rem m =
     (let i = ucast m XOR drop_bit 16 (rem AND 0xff0000) :: u32
      in (push_bit 8 rem XOR tbl ! unat i) AND 0xffffff)"

definition modesChecksum :: "u32 list \<Rightarrow> u8 list \<Rightarrow> nat \<Rightarrow> u32 option" where
  "modesChecksum tbl message bits =
     (let n = bits div 8
      in if bits mod 8 \<noteq> 0 \<or> n < 3 \<or> length message < n then None
         else let rem = foldl (crc_step tbl) 0 (take (n - 3) message)
              in Some (rem XOR push_bit 16 (ucast (message ! (n - 3)))
                           XOR push_bit 8 (ucast (message ! (n - 2)))
                           XOR ucast (message ! (n - 1))))"

definition crc_shift :: "u32 \<Rightarrow> u32" where
  "crc_shift c = (if c AND 0x800000 \<noteq> 0 then push_bit 1 c XOR MODES_GENERATOR_POLY
                  else push_bit 1 c)"

definition crc_entry :: "nat \<Rightarrow> u32" where
  "crc_entry i = (crc_shift ^^ 8) (push_bit 16 (of_nat i)) AND 0x00ffffff"

text \<open>\<open>msg[i/8] ^= 1 << (7 - (i & 7))\<close> on an all-zero message of 14 bytes.\<close>

definition flip_msg_bit :: "nat \<Rightarrow> u8 list \<Rightarrow> u8 list" where
  "flip_msg_bit i msg = msg[i div 8 := msg ! (i div 8) XOR push_bit (7 - i mod 8) 1]"

definition initLookupTables :: "crc_globals \<Rightarrow> crc_globals option" where
  "initLookupTables g =
     (let tbl = map crc_entry [0..<256];
          msg = replicate (112 div 8) 0
      in do {
        sbs \<leftarrow> those (map (\<lambda>i. modesChecksum tbl (flip_msg_bit i msg) 112) [0..<112]);
        Some (g\<lparr>crc_table := tbl, single_bit_syndrome := sbs\<rparr>) })"

subsection \<open>Building the error-correction tables\<close>

definition syndrome_compare :: "errorinfo \<Rightarrow> errorinfo \<Rightarrow> int" where
  "syndrome_compare ex ey = sint (syndrome ex) - sint (syndrome ey)"

fun combinations_loop :: "nat \<Rightarrow> int \<Rightarrow> int \<Rightarrow> int \<Rightarrow> int" where
  "combinations_loop 0 i n result = result"
| "combinations_loop (Suc f) i n result = combinations_loop f (i + 1) (n - 1) (result * n div i)"

definition combinations :: "int \<Rightarrow> int \<Rightarrow> int" where
  "combinations n k =
     (if k = 0 \<or> k = n then 1
      else if k > n then 0
      else combinations_loop (nat k) 1 n 1)"

definition add_error :: "u32 list \<Rightarrow> nat \<Rightarrow> nat \<Rightarrow> errorinfo \<Rightarrow> nat \<Rightarrow> errorinfo" where
  "add_error sbs offset i base error_bit =
     base\<lparr>syndrome := syndrome base XOR sbs ! (i + offset),
          errors := int error_bit + 1,
          ebit := (ebit base)[error_bit := int i]\<rparr>"

text \<open>
  The table is written in order, so the part filled so far is a list and \<open>n\<close> its length. An
  iteration of the loop at \<open>i\<close> is followed by the same loop from \<open>i + 1\<close>.
\<close>

function prepareSubtable ::
  "u32 list \<Rightarrow> nat \<Rightarrow> nat \<Rightarrow> nat \<Rightarrow> nat \<Rightarrow> errorinfo list \<Rightarrow> nat \<Rightarrow> errorinfo \<Rightarrow> nat
     \<Rightarrow> errorinfo list option" where
  "prepareSubtable sbs maxsize offset endbit max_errors table startbit base_entry error_bit =
     (if error_bit \<ge> max_errors \<or> startbit \<ge> endbit then Some table
      else if length table \<ge> maxsize \<or> length sbs \<le> startbit + offset
              \<or> length (ebit base_entry) \<le> error_bit then None
      else let e = add_error sbs offset startbit base_entry error_bit
           in do {
             t \<leftarrow> prepareSubtable sbs maxsize offset endbit max_errors (table @ [e])
                    (startbit + 1) e (error_bit + 1);
             prepareSubtable sbs maxsize offset endbit max_errors t
               (startbit + 1) base_entry error_bit })"
  by pat_completeness auto
termination
  by (relation "measure (\<lambda>(_, _, _, endbit, _, _, startbit, _, _). endbit - startbit)") auto

declare prepareSubtable.simps [simp del]

text \<open>C's \<open>bsearch\<close>: the interval \<open>[l, u)\<close> is halved at \<open>(l + u) / 2\<close>.\<close>

function bsearch :: "errorinfo \<Rightarrow> errorinfo list \<Rightarrow> nat \<Rightarrow> nat \<Rightarrow> nat option" where
  "bsearch key table l u =
     (if l < u then
        let idx = (l + u) div 2; c = syndrome_compare key (table ! idx)
        in if c < 0 then bsearch key table l idx
           else if c > 0 then bsearch key table (idx + 1) u
           else Some idx
      else None)"
  by pat_completeness auto
termination
  by (relation "measure (\<lambda>(_, _, l, u). u - l)") auto

declare bsearch.simps [simp del]

text \<open>The key structure \<open>ei\<close> of a search: only its syndrome is ever read.\<close>

definition search_key :: "u32 \<Rightarrow> errorinfo" where
  "search_key s = NO_ERRORS\<lparr>syndrome := s\<rparr>"

definition flag_entry :: "u32 \<Rightarrow> errorinfo list \<Rightarrow> errorinfo list \<times> int" where
  "flag_entry s table =
     (case bsearch (search_key s) table 0 (length table) of
        None \<Rightarrow> (table, 0)
      | Some k \<Rightarrow> if errors (table ! k) \<noteq> -1
                  then (table[k := (table ! k)\<lparr>errors := -1\<rparr>], 1)
                  else (table, 0))"

function flagCollisions ::
  "u32 list \<Rightarrow> nat \<Rightarrow> nat \<Rightarrow> nat \<Rightarrow> nat \<Rightarrow> errorinfo list \<Rightarrow> nat \<Rightarrow> u32 \<Rightarrow> nat
     \<Rightarrow> errorinfo list \<times> int" where
  "flagCollisions sbs offset endbit first_error last_error table startbit base_syndrome error_bit =
     (if error_bit > last_error \<or> startbit \<ge> endbit then (table, 0)
      else let s = base_syndrome XOR sbs ! (startbit + offset);
               (t1, c1) = (if error_bit \<ge> first_error then flag_entry s table else (table, 0));
               (t2, c2) = flagCollisions sbs offset endbit first_error last_error t1
                            (startbit + 1) s (error_bit + 1);
               (t3, c3) = flagCollisions sbs offset endbit first_error last_error t2
                            (startbit + 1) base_syndrome error_bit
           in (t3, c1 + c2 + c3))"
  by pat_completeness auto
termination
  by (relation "measure (\<lambda>(_, _, endbit, _, _, _, startbit, _, _). endbit - startbit)") auto

declare flagCollisions.simps [simp del]

text \<open>
  Removing ambiguous syndromes from the sorted table. \<open>skip_equal\<close> is the inner loop
  \<open>while (i < usedsize && table[i+1].syndrome == table[i].syndrome) ++i;\<close> whose last test may
  read \<open>table[usedsize]\<close>, past the end of the allocation: that read is \<open>None\<close>. The
  compaction writes \<open>table[j]\<close> with \<open>j \<le> i\<close>, behind every later read, so the entries
  kept so far are a list of their own.
\<close>

function skip_equal :: "errorinfo list \<Rightarrow> nat \<Rightarrow> nat option" where
  "skip_equal table i =
     (if i < length table then
        if i + 1 < length table then
          if syndrome (table ! (i + 1)) = syndrome (table ! i) then skip_equal table (i + 1)
          else Some i
        else None
      else Some i)"
  by pat_completeness auto
termination
  by (relation "measure (\<lambda>(table, i). length table - i)") auto

declare skip_equal.simps [simp del]

lemma skip_equal_ge: "skip_equal table i = Some k \<Longrightarrow> i \<le> k"
proof (induction table i rule: skip_equal.induct)
  case (1 table i)
  then show ?case
    by (subst (asm) (2) skip_equal.simps) (auto split: if_splits)
qed

function drop_collisions :: "errorinfo list \<Rightarrow> nat \<Rightarrow> errorinfo list \<Rightarrow> errorinfo list option" where
  "drop_collisions table i kept =
     (if i < length table then
        if i + 1 < length table \<and> syndrome (table ! (i + 1)) = syndrome (table ! i) then
          case skip_equal table i of
            None \<Rightarrow> None
          | Some k \<Rightarrow> drop_collisions table (k + 1) kept
        else drop_collisions table (i + 1) (kept @ [table ! i])
      else Some kept)"
  by pat_completeness auto
termination
  by (relation "measure (\<lambda>(table, i, _). length table - i)") (auto dest: skip_equal_ge)

declare drop_collisions.simps [simp del]

definition base_entry :: errorinfo where
  "base_entry = \<lparr>syndrome = 0, errors = 0, ebit = replicate MODES_MAX_BITERRORS (-1)\<rparr>"

definition prepareErrorTable ::
  "u32 list \<Rightarrow> nat \<Rightarrow> nat \<Rightarrow> nat \<Rightarrow> errorinfo list option option" where
  "prepareErrorTable sbs bits max_correct max_detect =
     (if \<not> bits \<le> 112 \<or> \<not> max_correct \<le> MODES_MAX_BITERRORS \<or> \<not> max_correct \<le> max_detect then None
      else if max_correct = 0 then Some None
      else
        let maxsize = nat (\<Sum>i \<leftarrow> [1..<max_correct + 1]. combinations (int bits) (int i))
        in do {
          filled \<leftarrow> prepareSubtable sbs maxsize (112 - bits) bits max_correct [] 0 base_entry 0;
          table \<leftarrow> drop_collisions (sort_key (\<lambda>e. sint (syndrome e)) filled) 0 [];
          if max_detect > max_correct then
            let (t, flagged) = flagCollisions sbs (112 - bits) bits (max_correct + 1) max_detect
                                 table 0 0 1
            in Some (Some (if flagged > 0 then filter (\<lambda>e. errors e \<noteq> -1) t else t))
          else Some (Some table) })"

definition MODES_SHORT_MSG_BITS :: nat where
  "MODES_SHORT_MSG_BITS = 56"

definition MODES_LONG_MSG_BITS :: nat where
  "MODES_LONG_MSG_BITS = 112"

definition modesChecksumInit :: "int \<Rightarrow> crc_globals \<Rightarrow> crc_globals option" where
  "modesChecksumInit fixBits g0 = do {
     g \<leftarrow> initLookupTables g0;
     if fixBits = 0 then
       Some (g\<lparr>bitErrorTable_short := None, bitErrorTable_long := None\<rparr>)
     else do {
       let (max_correct, max_detect) = (if fixBits = 1 then (1, 1) else (2, 4));
       ts \<leftarrow> prepareErrorTable (single_bit_syndrome g) MODES_SHORT_MSG_BITS max_correct max_detect;
       tl \<leftarrow> prepareErrorTable (single_bit_syndrome g) MODES_LONG_MSG_BITS max_correct max_detect;
       Some (g\<lparr>bitErrorTable_short := ts, bitErrorTable_long := tl\<rparr>) } }"

subsection \<open>Diagnosing and fixing a message\<close>

text \<open>The inner option is the C pointer: \<open>None\<close> is \<open>NULL\<close>.\<close>

definition modesChecksumDiagnose :: "crc_globals \<Rightarrow> u32 \<Rightarrow> nat \<Rightarrow> errorinfo option option" where
  "modesChecksumDiagnose g s bitlen =
     (if s = 0 then Some (Some NO_ERRORS)
      else if bitlen \<noteq> 56 \<and> bitlen \<noteq> 112 then None
      else case (if bitlen = 56 then bitErrorTable_short g else bitErrorTable_long g) of
             None \<Rightarrow> Some None
           | Some table \<Rightarrow>
               Some (map_option (\<lambda>k. table ! k) (bsearch (search_key s) table 0 (length table))))"

fun fix_bits :: "int list \<Rightarrow> u8 list \<Rightarrow> u8 list option" where
  "fix_bits [] msg = Some msg"
| "fix_bits (b # bs) msg =
     (if b < 0 \<or> length msg \<le> nat b div 8 then None else fix_bits bs (flip_msg_bit (nat b) msg))"

definition modesChecksumFix :: "u8 list \<Rightarrow> errorinfo option \<Rightarrow> u8 list option" where
  "modesChecksumFix msg info =
     (case info of
        None \<Rightarrow> Some msg
      | Some ei \<Rightarrow> if int (length (ebit ei)) < errors ei then None
                   else fix_bits (take (nat (errors ei)) (ebit ei)) msg)"

subsection \<open>The checksum as polynomial arithmetic over GF(2)\<close>

text \<open>
  \<open>xtime\<close> multiplies a 24-bit remainder by \<open>x\<close> modulo the generator polynomial; the
  reference checksum feeds the bits of a message, most significant first, to a Horner scheme.
\<close>

definition xtime :: "u32 \<Rightarrow> u32" where
  "xtime r = crc_shift r AND 0xffffff"

definition byte_bits :: "u8 \<Rightarrow> bool list" where
  "byte_bits b = map (bit b) [7, 6, 5, 4, 3, 2, 1, 0]"

definition msg_bits :: "u8 list \<Rightarrow> bool list" where
  "msg_bits msg = concat (map byte_bits msg)"

definition poly_step :: "u32 \<Rightarrow> bool \<Rightarrow> u32" where
  "poly_step r b = xtime r XOR of_bool b"

definition poly_rem :: "bool list \<Rightarrow> u32" where
  "poly_rem bs = foldl poly_step 0 bs"

lemma mask24: "(0xffffff :: u32) = mask 24"
  by (simp add: mask_numeral)

lemma and_bit23: "(c :: u32) AND 0x800000 \<noteq> 0 \<longleftrightarrow> bit c 23"
  using and_exp_eq_0_iff_not_bit [of c 23] by simp

lemma crc_shift_alt:
  "crc_shift c = push_bit 1 c XOR (if bit c 23 then MODES_GENERATOR_POLY else 0)"
  by (simp only: crc_shift_def and_bit23) (simp del: push_bit_Suc)

lemma bit_crc_shift [bit_simps]:
  "bit (crc_shift c) k \<longleftrightarrow>
     k < 32 \<and> ((1 \<le> k \<and> bit c (k - 1)) \<noteq> (bit c 23 \<and> bit MODES_GENERATOR_POLY k))"
proof (cases "k < 32")
  case True
  then show ?thesis
    by (simp only: crc_shift_alt bit_xor_iff bit_push_bit_iff possible_bit_word if_split) auto
next
  case False
  then show ?thesis by (simp add: bit_word.rep_eq)
qed

lemma crc_shift_xor: "crc_shift (a XOR b) = crc_shift a XOR crc_shift b"
  by (rule bit_word_eqI) (auto simp: bit_simps)

lemma crc_shift_mask: "crc_shift (a AND 0xffffff) AND 0xffffff = crc_shift a AND 0xffffff"
  unfolding mask24 by (rule bit_word_eqI) (auto simp: bit_simps)

lemma xtime_mask [simp]: "xtime r AND 0xffffff = xtime r"
  by (simp add: xtime_def and.assoc)

lemma xtime_and_mask [simp]: "xtime (r AND 0xffffff) = xtime r"
  by (simp add: xtime_def crc_shift_mask)

lemma xtime_0 [simp]: "xtime 0 = 0"
  by (simp add: xtime_def crc_shift_alt)

lemma and_xor_distrib_word: "((a :: 'a :: len word) XOR b) AND c = (a AND c) XOR (b AND c)"
  by (rule bit_word_eqI) (auto simp: bit_simps)

lemma xtime_xor: "xtime (a XOR b) = xtime a XOR xtime b"
  by (simp add: xtime_def crc_shift_xor and_xor_distrib_word)

lemma funpow_xtime_xor: "(xtime ^^ n) (a XOR b) = (xtime ^^ n) a XOR (xtime ^^ n) b"
  by (induction n) (simp_all add: xtime_xor)

lemma funpow_xtime_0 [simp]: "(xtime ^^ n) 0 = 0"
  by (induction n) simp_all

lemma funpow_crc_shift_mask:
  "(crc_shift ^^ n) c AND 0xffffff = (xtime ^^ n) (c AND 0xffffff)"
proof (induction n)
  case (Suc n)
  have "(crc_shift ^^ Suc n) c AND 0xffffff = xtime ((crc_shift ^^ n) c AND 0xffffff)"
    by (simp add: xtime_def crc_shift_mask)
  with Suc show ?case by simp
qed simp

text \<open>A shift that does not reach bit 24 is a plain shift.\<close>

lemma xtime_small:
  assumes "\<And>k. 23 \<le> k \<Longrightarrow> \<not> bit r k"
  shows "xtime r = push_bit 1 r"
proof -
  have "k < 23" if "bit r k" for k using assms that by (meson not_le)
  then show ?thesis
    unfolding xtime_def mask24
    by (intro bit_word_eqI) (fastforce simp: bit_simps simp del: push_bit_Suc)
qed

lemma funpow_xtime_small:
  assumes "\<And>k. 24 \<le> k + n \<Longrightarrow> \<not> bit r k"
  shows "(xtime ^^ n) r = push_bit n r"
  using assms
proof (induction n)
  case (Suc n)
  then have "(xtime ^^ Suc n) r = xtime (push_bit n r)" by simp
  also have "\<dots> = push_bit 1 (push_bit n r)"
    by (rule xtime_small) (use Suc.prems in \<open>auto simp: bit_simps\<close>)
  finally show ?case by (simp add: push_bit_push_bit)
qed simp

text \<open>The byte table as \<open>initLookupTables\<close> fills it.\<close>

definition std_crc_table :: "u32 list" where
  "std_crc_table = map crc_entry [0..<256]"

lemma std_crc_table_nth: "i < 256 \<Longrightarrow> std_crc_table ! i = crc_entry i"
  by (simp add: std_crc_table_def del: upt_conv_Cons upt_rec_numeral)

lemma crc_step_xtime:
  assumes "rem AND 0xffffff = rem"
  shows "crc_step std_crc_table rem m = (xtime ^^ 8) (rem XOR push_bit 16 (ucast m))"
proof -
  define i where "i = (ucast m XOR drop_bit 16 (rem AND 0xff0000) :: u32)"
  have m16: "(0xff0000 :: u32) = push_bit 16 (mask 8)" by (simp add: mask_numeral)
  have "\<not> bit i k" if "8 \<le> k" for k
    using that bit_imp_le_length [of m k] by (auto simp: i_def m16 bit_simps)
  then have i_lt: "bit i k \<Longrightarrow> k < 8" for k by (meson not_le)
  then have "i = take_bit 8 i" by (intro bit_word_eqI) (auto simp: bit_simps)
  then have i256: "unat i < 256"
    by (metis take_bit_nat_less_exp unsigned_take_bit_eq num_double numeral_times_numeral
        power_numeral Num.pow.simps Num.sqr.simps)
  have entry: "std_crc_table ! unat i = (xtime ^^ 8) (push_bit 16 i)"
  proof -
    have "std_crc_table ! unat i = (xtime ^^ 8) (push_bit 16 i AND 0xffffff)"
      using i256 by (simp add: std_crc_table_nth crc_entry_def funpow_crc_shift_mask)
    also have "push_bit 16 i AND 0xffffff = push_bit 16 i"
      unfolding mask24 using i_lt by (intro bit_word_eqI) (fastforce simp: bit_simps)
    finally show ?thesis .
  qed
  have split: "rem XOR push_bit 16 (ucast m) = (rem AND mask 16) XOR push_bit 16 i"
  proof (rule bit_word_eqI)
    fix k assume "k < LENGTH(32)"
    have "bit rem k \<longleftrightarrow> bit (rem AND mask 24) k"
      using assms by (simp only: mask24)
    then show "bit (rem XOR push_bit 16 (ucast m)) k = bit ((rem AND mask 16) XOR push_bit 16 i) k"
      by (auto simp: i_def m16 bit_simps)
  qed
  have low: "(xtime ^^ 8) (rem AND mask 16) = push_bit 8 (rem AND mask 16)"
    by (rule funpow_xtime_small) (auto simp: bit_simps)
  have "(xtime ^^ 8) (rem XOR push_bit 16 (ucast m))
      = push_bit 8 (rem AND mask 16) XOR (xtime ^^ 8) (push_bit 16 i)"
    by (simp add: split funpow_xtime_xor low)
  also have "\<dots> = (push_bit 8 rem XOR (xtime ^^ 8) (push_bit 16 i)) AND 0xffffff"
  proof -
    have a: "push_bit 8 rem AND mask 24 = push_bit 8 (rem AND mask 16)"
      by (rule bit_word_eqI) (auto simp: bit_simps)
    have b: "(xtime ^^ 8) z AND mask 24 = (xtime ^^ 8) z" for z
      unfolding mask24 [symmetric] by (simp add: numeral_eq_Suc)
    show ?thesis by (simp only: mask24 and_xor_distrib_word a b)
  qed
  finally show ?thesis
    by (simp only: crc_step_def Let_def i_def [symmetric] entry)
qed

text \<open>Feeding the eight bits of a byte is eight steps of \<open>xtime\<close> and the byte added in.\<close>

lemma poly_step_xor: "poly_step (a XOR b) c = poly_step a c XOR xtime b"
  by (simp add: poly_step_def xtime_xor ac_simps)

lemma foldl_poly_xor:
  "foldl poly_step (a XOR b) bs = foldl poly_step a bs XOR (xtime ^^ length bs) b"
proof (induction bs arbitrary: a b)
  case (Cons c bs)
  then show ?case by (simp add: poly_step_xor funpow_swap1)
qed simp

lemma foldl_poly_from: "foldl poly_step r bs = poly_rem bs XOR (xtime ^^ length bs) r"
  using foldl_poly_xor [of 0 r bs] by (simp add: poly_rem_def)

lemma poly_rem_append: "poly_rem (as @ bs) = poly_rem bs XOR (xtime ^^ length bs) (poly_rem as)"
proof -
  have "poly_rem (as @ bs) = foldl poly_step (poly_rem as) bs" by (simp add: poly_rem_def)
  then show ?thesis by (simp add: foldl_poly_from)
qed

lemma length_byte_bits [simp]: "length (byte_bits b) = 8"
  by (simp add: byte_bits_def)

lemma length_msg_bits [simp]: "length (msg_bits m) = 8 * length m"
  by (induction m) (simp_all add: msg_bits_def)

lemma msg_bits_append: "msg_bits (a @ b) = msg_bits a @ msg_bits b"
  by (simp add: msg_bits_def)

lemma poly_rem_snoc: "poly_rem (bs @ [b]) = xtime (poly_rem bs) XOR of_bool b"
  by (simp add: poly_rem_def poly_step_def)

text \<open>Up to 24 bits nothing is reduced: the remainder is the number the bits spell.\<close>

lemma bit_poly_rem_short:
  "length bs \<le> 24 \<Longrightarrow> bit (poly_rem bs) k \<longleftrightarrow> k < length bs \<and> rev bs ! k"
proof (induction bs arbitrary: k rule: rev_induct)
  case Nil
  then show ?case by (simp add: poly_rem_def)
next
  case (snoc b bs)
  then have IH: "bit (poly_rem bs) k \<longleftrightarrow> k < length bs \<and> rev bs ! k" for k by simp
  have "xtime (poly_rem bs) = push_bit 1 (poly_rem bs)"
    by (rule xtime_small) (use snoc.prems IH in auto)
  then have "bit (poly_rem (bs @ [b])) k
      \<longleftrightarrow> k < 32 \<and> (1 \<le> k \<and> bit (poly_rem bs) (k - 1)) \<noteq> (k = 0 \<and> b)"
    unfolding poly_rem_snoc
    by (auto simp: bit_simps simp del: push_bit_Suc push_bit_of_1 dest: bit_imp_le_length)
  then show ?case using snoc.prems by (cases k) (auto simp: IH)
qed

lemma nth_rev_byte_bits: "k < 8 \<Longrightarrow> rev (byte_bits b) ! k = bit b k"
  by (auto simp: byte_bits_def less_Suc_eq numeral_eq_Suc)

lemma poly_rem_byte: "poly_rem (byte_bits b) = ucast b"
proof (rule bit_word_eqI)
  fix k assume "k < LENGTH(32)"
  have "bit b k \<Longrightarrow> k < 8" using bit_imp_le_length [of b k] by simp
  then show "bit (poly_rem (byte_bits b)) k = bit (ucast b :: u32) k"
    by (auto simp: bit_poly_rem_short nth_rev_byte_bits bit_simps)
qed

lemma funpow_xtime_ucast: "n \<le> 16 \<Longrightarrow> (xtime ^^ n) (ucast (b :: u8)) = push_bit n (ucast b)"
  by (rule funpow_xtime_small) (auto simp: bit_simps dest: bit_imp_le_length)

lemma funpow_xtime_mask: "0 < n \<Longrightarrow> (xtime ^^ n) r AND 0xffffff = (xtime ^^ n) r"
  by (cases n) simp_all

lemma foldl_crc_step:
  "foldl (crc_step std_crc_table) 0 ms = (xtime ^^ 24) (poly_rem (msg_bits ms))"
proof (induction ms rule: rev_induct)
  case Nil
  then show ?case by (simp add: msg_bits_def poly_rem_def)
next
  case (snoc m ms)
  let ?P = "poly_rem (msg_bits ms)"
  have "foldl (crc_step std_crc_table) 0 (ms @ [m])
      = (xtime ^^ 8) ((xtime ^^ 24) ?P XOR push_bit 16 (ucast m))"
    by (simp add: snoc crc_step_xtime funpow_xtime_mask)
  also have "push_bit 16 (ucast m) = (xtime ^^ 16) (ucast m)"
    by (simp add: funpow_xtime_ucast)
  also have "(xtime ^^ 8) ((xtime ^^ 24) ?P XOR (xtime ^^ 16) (ucast m))
      = (xtime ^^ 24) ((xtime ^^ 8) ?P XOR ucast m)"
    by (simp add: funpow_xtime_xor flip: funpow_add [unfolded o_def, THEN fun_cong])
  also have "(xtime ^^ 8) ?P XOR ucast m = poly_rem (msg_bits (ms @ [m]))"
    by (simp add: msg_bits_append poly_rem_append poly_rem_byte ac_simps msg_bits_def)
  finally show ?case .
qed

text \<open>
  The table-driven checksum of a message is the remainder of its bits: for any message of at
  least three bytes the code's run succeeds and returns exactly that polynomial remainder.
\<close>

lemma modesChecksum_poly_rem:
  assumes "3 \<le> n" and "n \<le> length msg"
  shows "modesChecksum std_crc_table msg (8 * n) = Some (poly_rem (msg_bits (take n msg)))"
proof -
  obtain k where k: "n = k + 3" using assms(1) by (metis add.commute le_Suc_ex)
  let ?a = "msg ! k" and ?b = "msg ! (k + 1)" and ?c = "msg ! (k + 2)"
  have tk: "take n msg = take k msg @ [?a, ?b, ?c]"
    using assms(2) by (simp add: k numeral_eq_Suc take_Suc_conv_app_nth)
  have "poly_rem (msg_bits [?a, ?b, ?c])
      = push_bit 16 (ucast ?a) XOR push_bit 8 (ucast ?b) XOR ucast ?c"
    by (simp add: msg_bits_def poly_rem_append poly_rem_byte funpow_xtime_ucast funpow_xtime_xor
        ac_simps flip: funpow_add [unfolded o_def, THEN fun_cong])
  then have "poly_rem (msg_bits (take n msg))
      = (xtime ^^ 24) (poly_rem (msg_bits (take k msg)))
        XOR push_bit 16 (ucast ?a) XOR push_bit 8 (ucast ?b) XOR ucast ?c"
    by (simp only: tk msg_bits_append poly_rem_append) (simp add: ac_simps)
  then show ?thesis
    using assms(2)
    by (simp add: modesChecksum_def Let_def k foldl_crc_step ac_simps)
qed

lemma poly_rem_map2_xor:
  "length as = length bs \<Longrightarrow>
     foldl poly_step (r XOR s) (map2 (\<noteq>) as bs) = foldl poly_step r as XOR foldl poly_step s bs"
proof (induction as bs arbitrary: r s rule: list_induct2)
  case (Cons a as b bs)
  have "poly_step (r XOR s) (a \<noteq> b) = poly_step r a XOR poly_step s b"
    by (cases a; cases b) (simp_all add: poly_step_def xtime_xor ac_simps)
  then show ?case using Cons by simp
qed simp

lemma byte_bits_xor: "byte_bits (a XOR b) = map2 (\<noteq>) (byte_bits a) (byte_bits b)"
  by (simp add: byte_bits_def bit_xor_iff)

lemma msg_bits_xor:
  "length a = length b \<Longrightarrow> msg_bits (map2 (XOR) a b) = map2 (\<noteq>) (msg_bits a) (msg_bits b)"
  by (induction a b rule: list_induct2) (simp_all add: msg_bits_def byte_bits_xor)

text \<open>The syndrome of a single wrong bit depends on its distance from the end of the message.\<close>

definition bit_syndrome :: "nat \<Rightarrow> u32" where
  "bit_syndrome d = (xtime ^^ d) 1"

lemma poly_rem_flip:
  assumes "i < length bs"
  shows "poly_rem (bs[i := \<not> bs ! i]) = poly_rem bs XOR bit_syndrome (length bs - 1 - i)"
proof -
  have flip: "poly_step r (\<not> b) = poly_step r b XOR 1" for r b
    by (cases b) (simp_all add: poly_step_def)
  have "poly_rem (bs[i := \<not> bs ! i]) = foldl poly_step (poly_step (poly_rem (take i bs)) (\<not> bs ! i)) (drop (Suc i) bs)"
    using assms by (simp add: upd_conv_take_nth_drop poly_rem_def)
  also have "\<dots> = foldl poly_step (poly_step (poly_rem (take i bs)) (bs ! i)) (drop (Suc i) bs)
      XOR bit_syndrome (length bs - 1 - i)"
    by (simp add: flip foldl_poly_xor bit_syndrome_def)
  also have "foldl poly_step (poly_step (poly_rem (take i bs)) (bs ! i)) (drop (Suc i) bs)
      = poly_rem bs"
    using assms by (subst (4) id_take_nth_drop [of i bs]) (simp_all add: poly_rem_def)
  finally show ?thesis .
qed

lemma length_flip_msg_bit [simp]: "length (flip_msg_bit i msg) = length msg"
  by (simp add: flip_msg_bit_def)

lemma byte_bits_flip:
  assumes "j < 8"
  shows "byte_bits (b XOR push_bit (7 - j) 1) = (byte_bits b)[j := \<not> byte_bits b ! j]"
proof -
  consider "j = 0" | "j = 1" | "j = 2" | "j = 3" | "j = 4" | "j = 5" | "j = 6" | "j = 7"
    using assms by linarith
  then show ?thesis
    by cases (simp_all add: byte_bits_def bit_xor_iff bit_push_bit_iff del: push_bit_of_1 push_bit_Suc)
qed

lemma concat_nth_update:
  assumes "\<forall>x \<in> set xss. length x = k" and "m < length xss" and "j < k"
  shows "concat (xss[m := (xss ! m)[j := v]]) = (concat xss)[k * m + j := v]"
    and "concat xss ! (k * m + j) = xss ! m ! j"
  using assms
proof (induction xss arbitrary: m)
  case (Cons x xss)
  {
    case 1
    then show ?case using Cons.IH(1) [of "m - 1"]
      by (cases m) (auto simp: list_update_append algebra_simps)
  next
    case 2
    then show ?case using Cons.IH(2) [of "m - 1"]
      by (cases m) (auto simp: nth_append algebra_simps)
  }
qed simp_all

lemma msg_bits_flip:
  assumes "i < 8 * length msg"
  shows "msg_bits (flip_msg_bit i msg) = (msg_bits msg)[i := \<not> msg_bits msg ! i]"
proof -
  let ?m = "i div 8" and ?j = "i mod 8"
  have m: "?m < length msg" using assms by simp
  have i: "8 * ?m + ?j = i" by simp
  let ?xss = "map byte_bits msg"
  have len: "\<forall>x \<in> set ?xss. length x = 8" by simp
  have "map byte_bits (flip_msg_bit i msg) = ?xss[?m := (?xss ! ?m)[?j := \<not> ?xss ! ?m ! ?j]]"
    using m by (simp add: flip_msg_bit_def map_update byte_bits_flip del: push_bit_of_1)
  then show ?thesis
    using concat_nth_update [OF len, of ?m ?j] m
    by (simp add: msg_bits_def i)
qed

lemma poly_rem_msg_flip:
  assumes "i < 8 * length msg"
  shows "poly_rem (msg_bits (flip_msg_bit i msg))
       = poly_rem (msg_bits msg) XOR bit_syndrome (8 * length msg - 1 - i)"
  using poly_rem_flip [of i "msg_bits msg"] assms by (simp add: msg_bits_flip)
end
