(* ===== verification/CrcTables.thy ===== *)
theory CrcTables
  imports Crc
begin

text \<open>
  The error-correction tables of \<^verbatim>\<open>src/crc.c\<close>: what \<open>initLookupTables\<close>, \<open>prepareSubtable\<close>,
  the removal of ambiguous and flagged syndromes and \<open>bsearch\<close> compute, and what follows for
  \<open>modesChecksumDiagnose\<close> and \<open>modesChecksumFix\<close>.
\<close>

subsection \<open>What the tables hold\<close>

definition std_syndromes :: "u32 list" where
  "std_syndromes = map (\<lambda>i. bit_syndrome (111 - i)) [0..<112]"

lemma length_std_syndromes [simp]: "length std_syndromes = 112"
  by (simp add: std_syndromes_def)

lemma std_syndromes_nth: "i < 112 \<Longrightarrow> std_syndromes ! i = bit_syndrome (111 - i)"
  by (simp add: std_syndromes_def del: upt_conv_Cons upt_rec_numeral)

lemma poly_rem_zero: "poly_rem (msg_bits (replicate n 0)) = 0"
proof (induction n)
  case (Suc n)
  have "msg_bits (replicate (Suc n) 0) = byte_bits 0 @ msg_bits (replicate n 0)"
    by (simp add: msg_bits_def)
  then show ?case by (simp add: Suc poly_rem_append poly_rem_byte)
qed (simp add: msg_bits_def poly_rem_def)

lemma those_map_Some: "(\<And>x. x \<in> set xs \<Longrightarrow> f x = Some (g x)) \<Longrightarrow> those (map f xs) = Some (map g xs)"
  by (induction xs) simp_all

lemma single_bit_checksum:
  assumes "i < 112"
  shows "modesChecksum std_crc_table (flip_msg_bit i (replicate 14 0)) 112 = Some (bit_syndrome (111 - i))"
  using modesChecksum_poly_rem [of 14 "flip_msg_bit i (replicate 14 0)"] assms
    poly_rem_msg_flip [of i "replicate 14 0"]
  by (simp add: poly_rem_zero)

lemma initLookupTables_eq:
  "initLookupTables g = Some (g\<lparr>crc_table := std_crc_table, single_bit_syndrome := std_syndromes\<rparr>)"
proof -
  have "those (map (\<lambda>i. modesChecksum std_crc_table (flip_msg_bit i (replicate 14 0)) 112) [0..<112])
      = Some std_syndromes"
    unfolding std_syndromes_def by (rule those_map_Some) (simp add: single_bit_checksum)
  then show ?thesis
    by (simp add: initLookupTables_def Let_def flip: std_crc_table_def del: upt_conv_Cons upt_rec_numeral)
qed

text \<open>An entry describes an error pattern: increasing bit positions whose syndromes add up to its own.\<close>

definition pattern_syndrome :: "nat \<Rightarrow> nat list \<Rightarrow> u32" where
  "pattern_syndrome bits ps = foldr (\<lambda>p s. bit_syndrome (bits - 1 - p) XOR s) ps 0"

definition describes :: "nat \<Rightarrow> errorinfo \<Rightarrow> nat list \<Rightarrow> bool" where
  "describes bits e ps \<longleftrightarrow>
     errors e = int (length ps) \<and> length (ebit e) = MODES_MAX_BITERRORS \<and>
     length ps \<le> MODES_MAX_BITERRORS \<and> take (length ps) (ebit e) = map int ps \<and>
     sorted_wrt (<) ps \<and> (\<forall>p \<in> set ps. p < bits) \<and> syndrome e = pattern_syndrome bits ps"

definition entry_ok :: "nat \<Rightarrow> nat \<Rightarrow> errorinfo \<Rightarrow> bool" where
  "entry_ok bits m e \<longleftrightarrow> (\<exists>ps. describes bits e ps \<and> 1 \<le> length ps \<and> length ps \<le> m)"

lemma foldr_xor_start:
  "foldr (\<lambda>p s. f p XOR s) ps (a :: u32) = foldr (\<lambda>p s. f p XOR s) ps 0 XOR a"
  by (induction ps) (simp_all add: ac_simps)

lemma pattern_syndrome_snoc:
  "pattern_syndrome bits (ps @ [p]) = pattern_syndrome bits ps XOR bit_syndrome (bits - 1 - p)"
  using foldr_xor_start [of "\<lambda>p. bit_syndrome (bits - 1 - p)" ps "bit_syndrome (bits - 1 - p)"]
  by (simp add: pattern_syndrome_def)

lemma describes_base: "describes bits base_entry []"
  by (simp add: describes_def base_entry_def pattern_syndrome_def)

lemma describes_add_error:
  assumes "describes bits e ps" and "\<forall>p \<in> set ps. p < i" and "i < bits" and "bits \<le> 112"
    and "length ps < MODES_MAX_BITERRORS"
  shows "describes bits (add_error std_syndromes (112 - bits) i e (length ps)) (ps @ [i])"
proof -
  have "i + (112 - bits) < 112" and "111 - (i + (112 - bits)) = bits - 1 - i"
    using assms(3,4) by auto
  then have "std_syndromes ! (i + (112 - bits)) = bit_syndrome (bits - 1 - i)"
    by (simp only: std_syndromes_nth)
  then show ?thesis
    using assms
    by (auto simp: describes_def add_error_def pattern_syndrome_snoc sorted_wrt_append
        take_Suc_conv_app_nth)
qed

lemma prepareSubtable_entries:
  assumes "prepareSubtable std_syndromes maxsize (112 - bits) bits m table i base eb = Some t"
    and "describes bits base ps" and "length ps = eb" and "\<forall>p \<in> set ps. p < i"
    and "bits \<le> 112" and "m \<le> MODES_MAX_BITERRORS" and "\<forall>e \<in> set table. entry_ok bits m e"
  shows "\<forall>e \<in> set t. entry_ok bits m e"
  using assms
proof (induction "bits - i" arbitrary: t table i base eb ps rule: less_induct)
  case less
  let ?e = "add_error std_syndromes (112 - bits) i base eb"
  show ?case
  proof (cases "eb \<ge> m \<or> i \<ge> bits")
    case True
    then show ?thesis using less.prems by (subst (asm) prepareSubtable.simps) (auto split: if_splits)
  next
    case False
    with less.prems(1) obtain t1 where
      t1: "prepareSubtable std_syndromes maxsize (112 - bits) bits m (table @ [?e]) (i + 1) ?e (eb + 1) = Some t1"
      and t: "prepareSubtable std_syndromes maxsize (112 - bits) bits m t1 (i + 1) base eb = Some t"
      by (subst (asm) prepareSubtable.simps) (auto simp: Let_def split: if_splits elim!: bind_eq_SomeE)
    have d: "describes bits ?e (ps @ [i])"
      using describes_add_error [OF less.prems(2)] less.prems False by auto
    then have "entry_ok bits m ?e" using False less.prems by (auto simp: entry_ok_def)
    then have "\<forall>x \<in> set t1. entry_ok bits m x"
      using less.hyps [OF _ t1 d] False less.prems by force
    then show ?thesis
      using less.hyps [OF _ t less.prems(2)] False less.prems by force
  qed
qed

subsection \<open>The size of the tables\<close>

lemma combinations_loop_binomial:
  "j + f \<le> N \<Longrightarrow>
     combinations_loop f (int (Suc j)) (int N - int j) (int (N choose j)) = int (N choose (j + f))"
proof (induction f arbitrary: j)
  case (Suc f)
  have "(N choose j) * (N - j) = (N choose Suc j) * Suc j"
    using binomial_absorb_comp [of N j] binomial_absorption [of j N] by (metis mult.commute)
  then have "int (N choose j) * (int N - int j) = int (N choose Suc j) * int (Suc j)"
    using Suc.prems by (metis of_nat_diff of_nat_mult add_leD1)
  then have "int (N choose j) * (int N - int j) div int (Suc j) = int (N choose Suc j)"
    by simp
  then show ?case using Suc.IH [of "Suc j"] Suc.prems by (simp add: algebra_simps)
qed simp

lemma combinations_binomial: "combinations (int n) (int k) = int (n choose k)"
  using combinations_loop_binomial [of 0 k n]
  by (auto simp: combinations_def binomial_eq_0)

text \<open>How many entries one call adds: the non-empty error patterns of at most \<open>r\<close> bits out of \<open>k\<close>.\<close>

definition patterns :: "nat \<Rightarrow> nat \<Rightarrow> nat" where
  "patterns r k = (\<Sum>j = 1..r. k choose j)"

lemma patterns_0 [simp]: "patterns 0 k = 0"
  by (simp add: patterns_def)

lemma patterns_none [simp]: "patterns r 0 = 0"
  by (simp add: patterns_def)

lemma patterns_Suc_Suc: "patterns (Suc r) (Suc k) = 1 + patterns r k + patterns (Suc r) k"
proof -
  have "patterns (Suc r) n = (\<Sum>j = 0..r. n choose Suc j)" for n
    by (simp only: patterns_def One_nat_def sum.atLeast_Suc_atMost_Suc_shift o_def)
  moreover have "(\<Sum>j = 0..r. k choose j) = 1 + patterns r k"
    by (simp add: patterns_def sum.atLeast_Suc_atMost)
  ultimately show ?thesis by (simp add: sum.distrib)
qed

lemma add_error_ebit [simp]: "length (ebit (add_error sbs off i b eb)) = length (ebit b)"
  by (simp add: add_error_def)

lemma prepareSubtable_length:
  assumes "length table + patterns (m - eb) (bits - i) \<le> maxsize"
    and "length (ebit base) = MODES_MAX_BITERRORS" and "m \<le> MODES_MAX_BITERRORS" and "bits \<le> 112"
  shows "\<exists>t. prepareSubtable std_syndromes maxsize (112 - bits) bits m table i base eb = Some t
           \<and> length t = length table + patterns (m - eb) (bits - i)"
  using assms
proof (induction "bits - i" arbitrary: table i base eb rule: less_induct)
  case less
  let ?e = "add_error std_syndromes (112 - bits) i base eb"
  show ?case
  proof (cases "eb \<ge> m \<or> i \<ge> bits")
    case True
    then show ?thesis by (subst prepareSubtable.simps) auto
  next
    case False
    define r where "r = m - eb - 1"
    define k where "k = bits - i - 1"
    have r: "m - eb = Suc r" "m - (eb + 1) = r" "m - Suc eb = r"
      and k: "bits - i = Suc k" "bits - (i + 1) = k" "bits - Suc i = k"
      using False by (auto simp: r_def k_def)
    from less.prems(1) have room: "length table + (1 + patterns r k + patterns (Suc r) k) \<le> maxsize"
      by (simp only: r k patterns_Suc_Suc)
    have "\<exists>t. prepareSubtable std_syndromes maxsize (112 - bits) bits m (table @ [?e]) (i + 1) ?e (eb + 1) = Some t
        \<and> length t = length (table @ [?e]) + patterns (m - (eb + 1)) (bits - (i + 1))"
      by (rule less.hyps) (use less.prems room k r in auto)
    then obtain t1 where t1: "prepareSubtable std_syndromes maxsize (112 - bits) bits m (table @ [?e]) (i + 1) ?e (eb + 1) = Some t1"
      and l1: "length t1 = length table + 1 + patterns r k" by (auto simp: r k)
    have "\<exists>t. prepareSubtable std_syndromes maxsize (112 - bits) bits m t1 (i + 1) base eb = Some t
        \<and> length t = length t1 + patterns (m - eb) (bits - (i + 1))"
      by (rule less.hyps) (use less.prems room k r l1 in auto)
    then obtain t where "prepareSubtable std_syndromes maxsize (112 - bits) bits m t1 (i + 1) base eb = Some t"
      and "length t = length table + patterns (m - eb) (bits - i)"
      using l1 by (auto simp: r k patterns_Suc_Suc)
    then show ?thesis
      using False less.prems room t1 by (subst prepareSubtable.simps) (auto simp: Let_def)
  qed
qed

lemma maxsize_patterns:
  "nat (\<Sum>i \<leftarrow> [1..<m + 1]. combinations (int bits) (int i)) = patterns m bits"
  by (simp add: combinations_binomial patterns_def sum_list_distinct_conv_sum_set atLeastLessThanSuc_atLeastAtMost
      flip: of_nat_sum del: upt_Suc)

subsection \<open>Binary search\<close>

lemma sint_eq_iff: "sint (a :: u32) = sint b \<longleftrightarrow> a = b"
  by (rule word_eq_iff_signed [symmetric])

lemma bsearch_sound:
  "bsearch key t l u = Some k \<Longrightarrow> l \<le> k \<and> k < u \<and> syndrome (t ! k) = syndrome key"
proof (induction key t l u rule: bsearch.induct)
  case (1 key t l u)
  from "1.prems" have "l < u" by (subst (asm) bsearch.simps) (simp split: if_splits)
  define idx where "idx = (l + u) div 2"
  have "l \<le> idx" "idx < u" using \<open>l < u\<close> by (auto simp: idx_def)
  moreover have "syndrome_compare key (t ! idx) = 0 \<longleftrightarrow> syndrome (t ! idx) = syndrome key"
    by (auto simp: syndrome_compare_def sint_eq_iff)
  ultimately show ?case
    using "1.prems" "1.IH"(1) [OF \<open>l < u\<close> refl refl] "1.IH"(2) [OF \<open>l < u\<close> refl refl] \<open>l < u\<close>
    by (subst (asm) bsearch.simps [of key t l u]) (fastforce simp: Let_def idx_def split: if_splits)
qed

abbreviation strictly_sorted :: "errorinfo list \<Rightarrow> bool" where
  "strictly_sorted t \<equiv> sorted_wrt (\<lambda>a b. sint (syndrome a) < sint (syndrome b)) t"

lemma bsearch_complete:
  assumes "strictly_sorted t" and "l \<le> k" and "k < u" and "u \<le> length t"
    and "syndrome (t ! k) = syndrome key"
  shows "bsearch key t l u = Some k"
  using assms
proof (induction key t l u rule: bsearch.induct)
  case (1 key t l u)
  then have "l < u" by simp
  define idx where "idx = (l + u) div 2"
  have idx: "l \<le> idx" "idx < u" using \<open>l < u\<close> by (auto simp: idx_def)
  have lt: "a < b \<Longrightarrow> b < length t \<Longrightarrow> sint (syndrome (t ! a)) < sint (syndrome (t ! b))" for a b
    by (rule sorted_wrt_nth_less [OF "1.prems"(1)])
  let ?c = "syndrome_compare key (t ! idx)"
  have c: "?c = sint (syndrome (t ! k)) - sint (syndrome (t ! idx))"
    by (simp add: syndrome_compare_def "1.prems")
  consider "k < idx" | "k = idx" | "idx < k" by linarith
  then show ?case
  proof cases
    case 1
    then have "?c < 0" using lt [of k idx] idx "1.prems" by (simp add: c)
    then show ?thesis
      using "1.IH"(1) [OF \<open>l < u\<close> refl refl] "1.prems" 1 idx \<open>l < u\<close>
      by (subst bsearch.simps) (simp add: Let_def flip: idx_def)
  next
    case 2
    then have "?c = 0" by (simp add: c)
    then show ?thesis
      using 2 \<open>l < u\<close> by (subst bsearch.simps) (simp add: Let_def flip: idx_def)
  next
    case 3
    then have "?c > 0" using lt [of idx k] idx "1.prems" by (simp add: c)
    then show ?thesis
      using "1.IH"(2) [OF \<open>l < u\<close> refl refl] "1.prems" 3 idx \<open>l < u\<close>
      by (subst bsearch.simps) (simp add: Let_def flip: idx_def)
  qed
qed

subsection \<open>Dropping ambiguous syndromes\<close>

definition same_syndrome :: "errorinfo list \<Rightarrow> nat \<Rightarrow> nat \<Rightarrow> bool" where
  "same_syndrome t i k \<longleftrightarrow> (\<forall>j. i \<le> j \<and> j \<le> k \<longrightarrow> syndrome (t ! j) = syndrome (t ! i))"

lemma same_syndrome_step:
  assumes "same_syndrome t (i + 1) k" and "syndrome (t ! (i + 1)) = syndrome (t ! i)"
  shows "same_syndrome t i k"
  unfolding same_syndrome_def
proof (intro allI impI)
  fix j assume j: "i \<le> j \<and> j \<le> k"
  show "syndrome (t ! j) = syndrome (t ! i)"
  proof (cases "j = i")
    case False
    with j assms show ?thesis unfolding same_syndrome_def by (metis Suc_eq_plus1 Suc_leI le_neq_implies_less)
  qed simp
qed

lemma same_syndrome_refl: "same_syndrome t i i"
  unfolding same_syndrome_def by (metis le_antisym)

lemma skip_equal_Some:
  "skip_equal t i = Some k \<Longrightarrow> i < length t \<Longrightarrow>
     i \<le> k \<and> k + 1 < length t \<and> syndrome (t ! (k + 1)) \<noteq> syndrome (t ! k) \<and> same_syndrome t i k"
proof (induction t i rule: skip_equal.induct)
  case (1 t i)
  show ?case
  proof (cases "i + 1 < length t \<and> syndrome (t ! (i + 1)) = syndrome (t ! i)")
    case True
    with "1.prems" have "skip_equal t (i + 1) = Some k"
      by (simp add: skip_equal.simps [of t i])
    with True "1.IH" "1.prems"(2) show ?thesis
      by (auto intro: same_syndrome_step)
  next
    case False
    with "1.prems" have "k = i \<and> i + 1 < length t \<and> syndrome (t ! (i + 1)) \<noteq> syndrome (t ! i)"
      by (simp add: skip_equal.simps [of t i] split: if_splits)
    then show ?thesis by (simp add: same_syndrome_refl)
  qed
qed

text \<open>
  On a sorted table the pass keeps exactly the entries whose syndrome no other entry has. The
  boundary condition says that no earlier entry shares a syndrome with the part still to do.
\<close>

definition unambiguous :: "errorinfo list \<Rightarrow> errorinfo \<Rightarrow> bool" where
  "unambiguous t e \<longleftrightarrow> length (filter (\<lambda>x. syndrome x = syndrome e) t) = 1"

abbreviation sorted_table :: "errorinfo list \<Rightarrow> bool" where
  "sorted_table t \<equiv> sorted (map (\<lambda>e. sint (syndrome e)) t)"

abbreviation boundary :: "errorinfo list \<Rightarrow> nat \<Rightarrow> bool" where
  "boundary t i \<equiv> \<forall>a b. a < i \<and> i \<le> b \<and> b < length t \<longrightarrow> syndrome (t ! a) \<noteq> syndrome (t ! b)"

lemma boundary_next:
  assumes "sorted_table t" and "k + 1 < length t" and "syndrome (t ! (k + 1)) \<noteq> syndrome (t ! k)"
  shows "boundary t (k + 1)"
proof (intro allI impI notI)
  fix a b assume ab: "a < k + 1 \<and> k + 1 \<le> b \<and> b < length t" and eq: "syndrome (t ! a) = syndrome (t ! b)"
  have le: "i \<le> j \<Longrightarrow> j < length t \<Longrightarrow> sint (syndrome (t ! i)) \<le> sint (syndrome (t ! j))" for i j
    using assms(1) sorted_nth_mono [of "map (\<lambda>e. sint (syndrome e)) t" i j] by simp
  from le [of a k] le [of k "k + 1"] le [of "k + 1" b] ab eq assms(2)
  have "sint (syndrome (t ! k)) = sint (syndrome (t ! (k + 1)))" by simp
  with assms(3) show False by (simp add: sint_eq_iff)
qed

lemma unambiguous_alone:
  assumes "i < length t" and "\<forall>j < length t. j \<noteq> i \<longrightarrow> syndrome (t ! j) \<noteq> syndrome (t ! i)"
  shows "unambiguous t (t ! i)"
proof -
  have "{j. j < length t \<and> syndrome (t ! j) = syndrome (t ! i)} = {i}"
    using assms by auto
  then show ?thesis by (simp add: unambiguous_def length_filter_conv_card)
qed

lemma ambiguous_pair:
  assumes "i < length t" and "j < length t" and "i \<noteq> j" and "syndrome (t ! j) = syndrome (t ! i)"
  shows "\<not> unambiguous t (t ! i)"
proof
  assume "unambiguous t (t ! i)"
  then have "card {k. k < length t \<and> syndrome (t ! k) = syndrome (t ! i)} = 1"
    by (simp add: unambiguous_def length_filter_conv_card)
  moreover have "card {i, j} \<le> card {k. k < length t \<and> syndrome (t ! k) = syndrome (t ! i)}"
    by (rule card_mono) (use assms in auto)
  ultimately show False using assms(3) by simp
qed

lemma filter_unambiguous_skip:
  assumes "k < length t" and "i < k" and "same_syndrome t i k"
  shows "filter (unambiguous t) (drop i t) = filter (unambiguous t) (drop (k + 1) t)"
proof -
  have "\<not> unambiguous t (t ! j)" if "i \<le> j" "j \<le> k" for j
  proof -
    have same: "syndrome (t ! m) = syndrome (t ! i)" if "i \<le> m \<and> m \<le> k" for m
      using assms(3) that unfolding same_syndrome_def by blast
    have lt: "i < length t" "j < length t" "i \<noteq> k" using assms(1,2) that by linarith+
    show ?thesis
    proof (cases "j = i")
      case True
      show ?thesis unfolding True
        by (rule ambiguous_pair [OF lt(1) assms(1) lt(3)], rule same) (use assms(2) in linarith)
    next
      case False
      show ?thesis
        by (rule ambiguous_pair [OF lt(2,1) False], rule same [symmetric]) (use that in linarith)
    qed
  qed
  then have "filter (unambiguous t) (take (k + 1 - i) (drop i t)) = []"
    using assms(1) by (auto simp: filter_empty_conv in_set_conv_nth)
  moreover have "drop i t = take (k + 1 - i) (drop i t) @ drop (k + 1) t"
    using assms(2) append_take_drop_id [of "k + 1 - i" "drop i t"] by simp
  ultimately show ?thesis by (metis append_Nil filter_append)
qed

lemma drop_collisions_Some:
  assumes "drop_collisions t i kept = Some r" and "sorted_table t" and "boundary t i"
  shows "r = kept @ filter (unambiguous t) (drop i t)"
  using assms
proof (induction t i kept rule: drop_collisions.induct)
  case (1 t i kept)
  consider (stop) "\<not> i < length t"
    | (dup) "i < length t" "i + 1 < length t" "syndrome (t ! (i + 1)) = syndrome (t ! i)"
    | (keep) "i < length t" "\<not> (i + 1 < length t \<and> syndrome (t ! (i + 1)) = syndrome (t ! i))"
    by blast
  then show ?case
  proof cases
    case stop
    with "1.prems" show ?thesis by (simp add: drop_collisions.simps [of t i])
  next
    case dup
    with "1.prems" obtain k where k: "skip_equal t i = Some k" and r: "drop_collisions t (k + 1) kept = Some r"
      by (simp add: drop_collisions.simps [of t i] split: option.splits)
    from skip_equal_Some [OF k dup(1)] have sk: "i \<le> k" "k + 1 < length t"
      "syndrome (t ! (k + 1)) \<noteq> syndrome (t ! k)"
      "same_syndrome t i k" by auto
    from sk(3) dup(3) sk(1) have "i < k" by (cases "i = k") auto
    from "1.IH"(1) [OF dup(1) _ k r "1.prems"(2) boundary_next [OF "1.prems"(2) sk(2,3)]] dup
    have "r = kept @ filter (unambiguous t) (drop (k + 1) t)" by blast
    with filter_unambiguous_skip [OF _ \<open>i < k\<close> sk(4)] sk(2) show ?thesis by simp
  next
    case keep
    with "1.prems"(1) have r: "drop_collisions t (i + 1) (kept @ [t ! i]) = Some r"
      by (simp only: drop_collisions.simps [of t i] if_True if_False)
    have b: "boundary t (i + 1)"
    proof (cases "i + 1 < length t")
      case True
      then show ?thesis using boundary_next [OF "1.prems"(2) True] keep(2) by blast
    qed auto
    have "unambiguous t (t ! i)"
    proof (rule unambiguous_alone [OF keep(1)], intro allI impI)
      fix j assume "j < length t" "j \<noteq> i"
      then show "syndrome (t ! j) \<noteq> syndrome (t ! i)"
        using "1.prems"(3) b keep(1) by (cases "j < i") (auto, metis Suc_leI linorder_neqE_nat lessI)
    qed
    then show ?thesis
      using "1.IH"(2) [OF keep(1) _ r "1.prems"(2) b] keep
      by (simp flip: Cons_nth_drop_Suc)
  qed
qed

lemma drop_collisions_distinct:
  "i \<le> length t \<Longrightarrow> distinct (map syndrome t) \<Longrightarrow> drop_collisions t i kept = Some (kept @ drop i t)"
proof (induction t i kept rule: drop_collisions.induct)
  case (1 t i kept)
  show ?case
  proof (cases "i < length t")
    case True
    then have "\<not> (i + 1 < length t \<and> syndrome (t ! (i + 1)) = syndrome (t ! i))"
      using "1.prems"(2) nth_eq_iff_index_eq [of "map syndrome t" "i + 1" i] by auto
    then show ?thesis
      using "1.IH"(2) [OF True] "1.prems" True
      by (subst drop_collisions.simps) (auto simp flip: Cons_nth_drop_Suc)
  next
    case False
    then show ?thesis using "1.prems" by (subst drop_collisions.simps) simp
  qed
qed

lemma strictly_sortedI: "sorted_table t \<Longrightarrow> distinct (map syndrome t) \<Longrightarrow> strictly_sorted t"
  by (auto simp: sorted_wrt_iff_nth_less sorted_iff_nth_mono_less distinct_conv_nth order_less_le sint_eq_iff)

lemma distinct_map_filterI:
  "(\<And>a b. a < b \<Longrightarrow> b < length t \<Longrightarrow> P (t ! a) \<Longrightarrow> P (t ! b) \<Longrightarrow> f (t ! a) \<noteq> f (t ! b)) \<Longrightarrow>
     distinct (map f (filter P t))"
proof (induction t)
  case (Cons x t)
  have "distinct (map f (filter P t))"
    by (rule Cons.IH) (use Cons.prems [of "Suc a" "Suc b" for a b] in auto)
  moreover have "f x \<noteq> f y" if "P x" "y \<in> set t" "P y" for y
    using that Cons.prems [of 0 "Suc b" for b] by (auto simp: in_set_conv_nth)
  ultimately show ?case by auto
qed simp

lemma distinct_unambiguous: "distinct (map syndrome (filter (unambiguous t) t))"
  by (rule distinct_map_filterI) (metis ambiguous_pair order.strict_trans less_irrefl)

subsection \<open>Flagging collisions\<close>

text \<open>Flagging only ever sets \<open>errors\<close> to \<open>-1\<close>, and a zero count means nothing was changed.\<close>

definition flagged_from :: "errorinfo \<Rightarrow> errorinfo \<Rightarrow> bool" where
  "flagged_from x y \<longleftrightarrow> y = x \<or> y = x\<lparr>errors := -1\<rparr>"

definition flag_result :: "errorinfo list \<Rightarrow> errorinfo list \<times> int \<Rightarrow> bool" where
  "flag_result t r \<longleftrightarrow> list_all2 flagged_from t (fst r) \<and> 0 \<le> snd r \<and> (snd r = 0 \<longrightarrow> fst r = t)"

lemma flagged_from_trans: "flagged_from x y \<Longrightarrow> flagged_from y z \<Longrightarrow> flagged_from x z"
  by (auto simp: flagged_from_def)

lemma flag_result_refl: "flag_result t (t, 0)"
  by (simp add: flag_result_def flagged_from_def list_all2_refl)

lemma flag_result_trans:
  "flag_result t (t1, c1) \<Longrightarrow> flag_result t1 (t2, c2) \<Longrightarrow> flag_result t (t2, c1 + c2)"
  by (auto simp: flag_result_def intro: list_all2_trans [OF flagged_from_trans])

lemma flag_entry_result: "flag_result t (flag_entry s t)"
  by (auto simp: flag_entry_def flag_result_def flagged_from_def list_all2_conv_all_nth nth_list_update
      split: option.splits dest!: bsearch_sound)

lemma flagCollisions_result: "flag_result t (flagCollisions sbs off endbit f l t i base eb)"
proof (induction sbs off endbit f l t i base eb rule: flagCollisions.induct)
  case (1 sbs off endbit f l t i base eb)
  show ?case
  proof (cases "eb > l \<or> i \<ge> endbit")
    case True
    then show ?thesis by (subst flagCollisions.simps) (simp add: flag_result_refl)
  next
    case False
    define s where "s = base XOR sbs ! (i + off)"
    obtain t1 c1 where r1: "(if eb \<ge> f then flag_entry s t else (t, 0)) = (t1, c1)"
      by (rule prod.exhaust)
    obtain t2 c2 where r2: "flagCollisions sbs off endbit f l t1 (i + 1) s (eb + 1) = (t2, c2)"
      by (rule prod.exhaust)
    obtain t3 c3 where r3: "flagCollisions sbs off endbit f l t2 (i + 1) base eb = (t3, c3)"
      by (rule prod.exhaust)
    have "flag_result t (t1, c1)"
      using flag_entry_result [of t s] flag_result_refl [of t] r1 by (auto split: if_splits)
    moreover have "flag_result t1 (t2, c2)"
      using "1.IH"(1) [OF False s_def r1 [symmetric] refl] r2 by simp
    moreover have "flag_result t2 (t3, c3)"
      using "1.IH"(2) [OF False s_def r1 [symmetric] refl r2 [symmetric] refl] r3 by simp
    ultimately have "flag_result t (t3, c1 + c2 + c3)" by (blast intro: flag_result_trans)
    then show ?thesis
      by (subst flagCollisions.simps)
        (simp only: Let_def s_def [symmetric] r1 r2 r3 case_prod_conv False if_False)
  qed
qed

definition keep_unflagged :: "errorinfo list \<times> int \<Rightarrow> errorinfo list" where
  "keep_unflagged r = (if snd r > 0 then filter (\<lambda>e. errors e \<noteq> -1) (fst r) else fst r)"

lemma keep_unflagged_subset:
  assumes "flag_result t r"
  shows "set (keep_unflagged r) \<subseteq> set t"
proof (cases "snd r > 0")
  case True
  have "e \<in> set t" if "e \<in> set (fst r)" "errors e \<noteq> -1" for e
    using that assms by (fastforce simp: flag_result_def flagged_from_def list_all2_conv_all_nth in_set_conv_nth)
  with True show ?thesis by (auto simp: keep_unflagged_def)
next
  case False
  with assms show ?thesis by (auto simp: keep_unflagged_def flag_result_def)
qed

lemma keep_unflagged_sorted:
  assumes "flag_result t r" and "strictly_sorted t"
  shows "strictly_sorted (keep_unflagged r)"
proof -
  have "map syndrome (fst r) = map syndrome t"
    using assms(1) by (auto simp: flag_result_def flagged_from_def list_all2_conv_all_nth list_eq_iff_nth_eq)
  then have "sorted_wrt (\<lambda>a b. sint a < sint b) (map syndrome (fst r))"
    using assms(2) by (simp only: sorted_wrt_map)
  then show ?thesis by (simp add: keep_unflagged_def sorted_wrt_map sorted_wrt_filter)
qed

subsection \<open>The finished tables\<close>

definition table_ok :: "nat \<Rightarrow> nat \<Rightarrow> errorinfo list \<Rightarrow> bool" where
  "table_ok bits m t \<longleftrightarrow> strictly_sorted t \<and> (\<forall>e \<in> set t. entry_ok bits m e)"

lemma prepareErrorTable_ok:
  assumes "prepareErrorTable std_syndromes bits m d = Some (Some t)"
  shows "table_ok bits m t"
proof -
  from assms have b: "bits \<le> 112" "m \<le> MODES_MAX_BITERRORS"
    by (auto simp: prepareErrorTable_def split: if_splits)
  from assms obtain filled tab where
    filled: "prepareSubtable std_syndromes (nat (\<Sum>i \<leftarrow> [1..<m + 1]. combinations (int bits) (int i)))
               (112 - bits) bits m [] 0 base_entry 0 = Some filled"
    and tab: "drop_collisions (sort_key (\<lambda>e. sint (syndrome e)) filled) 0 [] = Some tab"
    and t: "t = (if m < d then keep_unflagged (flagCollisions std_syndromes (112 - bits) bits (m + 1) d tab 0 0 1)
                 else tab)"
    by (auto simp: prepareErrorTable_def Let_def keep_unflagged_def case_prod_beta
        split: if_splits elim!: bind_eq_SomeE)
  let ?s = "sort_key (\<lambda>e. sint (syndrome e)) filled"
  have tab_eq: "tab = filter (unambiguous ?s) ?s"
    using drop_collisions_Some [OF tab] by simp
  have "sorted_table tab"
    unfolding tab_eq by (rule sorted_filter) simp
  then have sorted: "strictly_sorted tab"
    by (rule strictly_sortedI) (simp add: tab_eq distinct_unambiguous)
  have "\<forall>e \<in> set filled. entry_ok bits m e"
    using prepareSubtable_entries [OF filled describes_base] b by simp
  then have ok: "\<forall>e \<in> set tab. entry_ok bits m e" by (simp add: tab_eq)
  show ?thesis
    using sorted ok keep_unflagged_sorted [OF flagCollisions_result sorted]
    by (auto simp: t table_ok_def dest: subsetD [OF keep_unflagged_subset [OF flagCollisions_result]])
qed

lemma modesChecksumInit_tables:
  assumes "modesChecksumInit fixBits g0 = Some g"
  shows "crc_table g = std_crc_table" and "single_bit_syndrome g = std_syndromes"
    and "bitErrorTable_short g = Some t \<Longrightarrow> table_ok 56 2 t"
    and "bitErrorTable_long g = Some t \<Longrightarrow> table_ok 112 2 t"
proof -
  have weaken: "table_ok bits (Suc 0) t \<Longrightarrow> table_ok bits 2 t" for bits t
    by (fastforce simp: table_ok_def entry_ok_def)
  note defs = modesChecksumInit_def initLookupTables_eq MODES_SHORT_MSG_BITS_def MODES_LONG_MSG_BITS_def
  show "crc_table g = std_crc_table" "single_bit_syndrome g = std_syndromes"
    using assms by (auto simp: defs Let_def split: if_splits elim!: bind_eq_SomeE)
  show "bitErrorTable_short g = Some t \<Longrightarrow> table_ok 56 2 t"
    using assms by (auto simp: defs Let_def split: if_splits elim!: bind_eq_SomeE
        dest!: prepareErrorTable_ok dest: weaken)
  show "bitErrorTable_long g = Some t \<Longrightarrow> table_ok 112 2 t"
    using assms by (auto simp: defs Let_def split: if_splits elim!: bind_eq_SomeE
        dest!: prepareErrorTable_ok dest: weaken)
qed

subsection \<open>Fixing a message\<close>

lemma nth_msg_bits_flip:
  "i < 8 * length msg \<Longrightarrow> j < 8 * length msg \<Longrightarrow>
     msg_bits (flip_msg_bit i msg) ! j = (msg_bits msg ! j \<noteq> (j = i))"
  by (simp add: msg_bits_flip nth_list_update)

lemma fix_bits_spec:
  assumes "\<forall>p \<in> set ps. p < 8 * length msg" and "distinct ps"
  shows "\<exists>msg'. fix_bits (map int ps) msg = Some msg' \<and> length msg' = length msg \<and>
           poly_rem (msg_bits msg') = poly_rem (msg_bits msg) XOR pattern_syndrome (8 * length msg) ps \<and>
           (\<forall>j < 8 * length msg. msg_bits msg' ! j = (msg_bits msg ! j \<noteq> (j \<in> set ps)))"
  using assms
proof (induction ps arbitrary: msg)
  case Nil
  then show ?case by (simp add: pattern_syndrome_def)
next
  case (Cons p ps)
  then have p: "p < 8 * length msg" "p div 8 < length msg" "p \<notin> set ps" by auto
  obtain msg' where m: "fix_bits (map int ps) (flip_msg_bit p msg) = Some msg'" "length msg' = length msg"
    "poly_rem (msg_bits msg') = poly_rem (msg_bits (flip_msg_bit p msg)) XOR pattern_syndrome (8 * length msg) ps"
    "\<forall>j < 8 * length msg. msg_bits msg' ! j = (msg_bits (flip_msg_bit p msg) ! j \<noteq> (j \<in> set ps))"
    using Cons.IH [of "flip_msg_bit p msg"] Cons.prems by auto
  have "fix_bits (map int (p # ps)) msg = Some msg'" using m(1) p(2) by simp
  moreover have "poly_rem (msg_bits msg') = poly_rem (msg_bits msg) XOR pattern_syndrome (8 * length msg) (p # ps)"
    using m(3) p(1) by (simp add: poly_rem_msg_flip pattern_syndrome_def ac_simps)
  moreover have "\<forall>j < 8 * length msg. msg_bits msg' ! j = (msg_bits msg ! j \<noteq> (j \<in> set (p # ps)))"
    using m(4) p(1,3) by (auto simp: nth_msg_bits_flip)
  ultimately show ?case using m(2) by blast
qed

text \<open>The bit positions in which two messages of \<open>bits\<close> bits differ.\<close>

definition diff_bits :: "nat \<Rightarrow> u8 list \<Rightarrow> u8 list \<Rightarrow> nat set" where
  "diff_bits bits a b = {j. j < bits \<and> msg_bits a ! j \<noteq> msg_bits b ! j}"

lemma modesChecksumFix_describes:
  assumes "describes (8 * length msg) e ps"
  shows "\<exists>msg'. modesChecksumFix msg (Some e) = Some msg' \<and> length msg' = length msg \<and>
           poly_rem (msg_bits msg') = poly_rem (msg_bits msg) XOR syndrome e \<and>
           diff_bits (8 * length msg) msg msg' = set ps"
proof -
  from assms have "distinct ps" by (simp add: describes_def strict_sorted_iff)
  with fix_bits_spec [of ps msg] assms obtain msg' where
    m: "fix_bits (map int ps) msg = Some msg'" "length msg' = length msg"
      "poly_rem (msg_bits msg') = poly_rem (msg_bits msg) XOR pattern_syndrome (8 * length msg) ps"
      "\<forall>j < 8 * length msg. msg_bits msg' ! j = (msg_bits msg ! j \<noteq> (j \<in> set ps))"
    by (auto simp: describes_def)
  then have "modesChecksumFix msg (Some e) = Some msg'"
    using assms by (simp add: modesChecksumFix_def describes_def)
  moreover have "diff_bits (8 * length msg) msg msg' = set ps"
    using m(4) assms by (auto simp: diff_bits_def describes_def)
  ultimately show ?thesis using m assms by (auto simp: describes_def)
qed

subsection \<open>Diagnosis, end to end\<close>

lemma diagnose_sound:
  assumes "modesChecksumInit fixBits g0 = Some g"
    and "modesChecksumDiagnose g s bits = Some (Some ei)"
  shows "(s = 0 \<and> ei = NO_ERRORS) \<or> (\<exists>ps. describes bits ei ps \<and> 1 \<le> length ps \<and> syndrome ei = s)"
proof (cases "s = 0")
  case True
  with assms(2) show ?thesis by (simp add: modesChecksumDiagnose_def)
next
  case False
  with assms(2) obtain t k where t: "(if bits = 56 then bitErrorTable_short g else bitErrorTable_long g) = Some t"
    and k: "bsearch (search_key s) t 0 (length t) = Some k" and ei: "ei = t ! k" and b: "bits = 56 \<or> bits = 112"
    by (auto simp: modesChecksumDiagnose_def split: if_splits option.splits)
  from t b have "table_ok bits 2 t"
    using modesChecksumInit_tables(3,4) [OF assms(1)] by (auto split: if_splits)
  with bsearch_sound [OF k] ei show ?thesis
    by (fastforce simp: table_ok_def entry_ok_def search_key_def)
qed

lemma describes_no_errors: "describes bits NO_ERRORS []"
  by (simp add: describes_def NO_ERRORS_def pattern_syndrome_def)

lemma checksum_poly_rem:
  assumes "modesChecksumInit fixBits g0 = Some g" and "bits = 56 \<or> bits = 112" and "length msg = bits div 8"
  shows "modesChecksum (crc_table g) msg bits = Some (poly_rem (msg_bits msg))"
  using modesChecksum_poly_rem [of "bits div 8" msg] assms modesChecksumInit_tables(1) [OF assms(1)] by auto

lemma flip_msg_bit_append: "p div 8 < length msg \<Longrightarrow> flip_msg_bit p (msg @ rest) = flip_msg_bit p msg @ rest"
  by (simp add: flip_msg_bit_def nth_append list_update_append)

lemma fix_bits_append:
  "\<forall>p \<in> set ps. p < 8 * length msg \<Longrightarrow>
     fix_bits (map int ps) (msg @ rest) = map_option (\<lambda>m. m @ rest) (fix_bits (map int ps) msg)"
proof (induction ps arbitrary: msg)
  case (Cons p ps)
  then have "p div 8 < length msg" by auto
  then show ?case using Cons.IH [of "flip_msg_bit p msg"] Cons.prems by (simp add: flip_msg_bit_append)
qed simp

text \<open>A correction in a buffer that is longer than the message leaves the rest of it alone.\<close>

lemma diagnose_fix:
  assumes "modesChecksumInit fixBits g0 = Some g"
    and "bits = 56 \<or> bits = 112" and "length msg = bits div 8"
    and "modesChecksum (crc_table g) msg bits = Some s"
    and "modesChecksumDiagnose g s bits = Some (Some ei)"
  shows "\<exists>msg'. (\<forall>rest. modesChecksumFix (msg @ rest) (Some ei) = Some (msg' @ rest)) \<and>
           length msg' = length msg \<and> modesChecksum (crc_table g) msg' bits = Some 0 \<and>
           int (card (diff_bits bits msg msg')) = errors ei \<and> errors ei \<le> 2"
proof -
  have bits: "bits = 8 * length msg" using assms(2,3) by auto
  obtain ps where d: "describes bits ei ps" and s: "syndrome ei = s"
    using diagnose_sound [OF assms(1,5)] describes_no_errors [of bits]
    by (auto simp: NO_ERRORS_def)
  have rem: "poly_rem (msg_bits msg) = s"
    using checksum_poly_rem [OF assms(1,2,3)] assms(4) by simp
  obtain msg' where m: "modesChecksumFix msg (Some ei) = Some msg'" "length msg' = length msg"
      "poly_rem (msg_bits msg') = poly_rem (msg_bits msg) XOR syndrome ei"
      "diff_bits bits msg msg' = set ps"
    using modesChecksumFix_describes [of msg ei ps] d by (auto simp: bits)
  have "modesChecksum (crc_table g) msg' bits = Some 0"
    using checksum_poly_rem [OF assms(1,2), of msg'] assms(3) m by (simp add: rem s)
  moreover have "card (set ps) = length ps"
    using d by (auto simp: describes_def strict_sorted_iff distinct_card)
  moreover have "modesChecksumFix (msg @ rest) (Some ei) = Some (msg' @ rest)" for rest
    using fix_bits_append [of ps msg rest] m(1) d
    by (auto simp: describes_def modesChecksumFix_def bits split: if_splits)
  ultimately show ?thesis
    using m d by (auto simp: describes_def MODES_MAX_BITERRORS_def)
qed

subsection \<open>Single-bit errors\<close>

lemma xtime_inj24:
  assumes "xtime a = xtime b" and "a AND 0xffffff = a" and "b AND 0xffffff = b"
  shows "a = b"
proof -
  have "xtime r = 0 \<longrightarrow> r = 0" if r: "r AND mask 24 = r" for r
  proof
    assume 0: "xtime r = 0"
    have bits: "bit r k \<Longrightarrow> k < 24" for k using r by (metis bit_and_iff bit_mask_iff)
    have x: "\<not> bit (xtime r) k" for k by (simp add: 0)
    have "\<not> bit r 23"
      using x [of 0] by (auto simp: xtime_def mask24 bit_simps MODES_GENERATOR_POLY_def)
    then have "\<not> bit r k" for k
      using x [of "Suc k"] bits [of k] by (cases "k = 23") (auto simp: xtime_def mask24 bit_simps)
    then show "r = 0" by (simp add: bit_eq_iff)
  qed
  from this [of "a XOR b"] assms show ?thesis
    by (simp add: xtime_xor and_xor_distrib_word xor_eq_0_iff flip: mask24)
qed

lemma bit_syndrome_mask: "bit_syndrome d AND 0xffffff = bit_syndrome d"
  by (cases d) (simp_all add: bit_syndrome_def)

lemma bit_syndrome_period: "bit_syndrome a = bit_syndrome (a + d) \<Longrightarrow> bit_syndrome d = 1"
proof (induction a)
  case (Suc a)
  then have "xtime (bit_syndrome a) = xtime (bit_syndrome (a + d))"
    by (simp add: bit_syndrome_def)
  then have "bit_syndrome a = bit_syndrome (a + d)"
    by (rule xtime_inj24) (simp_all add: bit_syndrome_mask)
  then show ?case by (rule Suc.IH)
qed (simp add: bit_syndrome_def)

text \<open>The order of \<open>x\<close> modulo the generator is larger than a message is long.\<close>

fun no_period :: "nat \<Rightarrow> u32 \<Rightarrow> bool" where
  "no_period 0 r = True"
| "no_period (Suc n) r = (let r' = xtime r in r' \<noteq> 1 \<and> no_period n r')"

lemma no_periodD: "no_period n r \<Longrightarrow> 1 \<le> d \<Longrightarrow> d \<le> n \<Longrightarrow> (xtime ^^ d) r \<noteq> 1"
proof (induction n arbitrary: r d)
  case (Suc n)
  show ?case
  proof (cases "d = 1")
    case False
    then obtain d' where d': "d = Suc d'" "1 \<le> d'" "d' \<le> n" using Suc.prems by (cases d) auto
    then have "(xtime ^^ d') (xtime r) \<noteq> 1" using Suc by (simp add: Let_def)
    then show ?thesis by (simp add: d' funpow_swap1)
  qed (use Suc.prems in \<open>simp add: Let_def\<close>)
qed simp

lemma no_period_111: "no_period 111 1"
  by code_simp

lemma bit_syndrome_neq_1: "1 \<le> d \<Longrightarrow> d \<le> 111 \<Longrightarrow> bit_syndrome d \<noteq> 1"
  unfolding bit_syndrome_def by (rule no_periodD [OF no_period_111])

lemma bit_syndrome_less: "a < b \<Longrightarrow> b < 112 \<Longrightarrow> bit_syndrome a \<noteq> bit_syndrome b"
  using bit_syndrome_period [of a "b - a"] bit_syndrome_neq_1 [of "b - a"] by auto

lemma bit_syndrome_inj: "bit_syndrome a = bit_syndrome b \<Longrightarrow> a < 112 \<Longrightarrow> b < 112 \<Longrightarrow> a = b"
  using bit_syndrome_less [of a b] bit_syndrome_less [of b a] by (metis linorder_neqE_nat)

lemma bit_syndrome_nonzero: "bit_syndrome d \<noteq> 0"
proof
  assume "bit_syndrome d = 0"
  then have "bit_syndrome d = bit_syndrome (d + 1)" by (simp add: bit_syndrome_def)
  then have "bit_syndrome 1 = 1" by (rule bit_syndrome_period)
  then show False using bit_syndrome_neq_1 [of 1] by simp
qed

lemma prepareSubtable_single:
  assumes "bits \<le> 112" and "length table + (bits - i) \<le> maxsize" and "length (ebit base) = MODES_MAX_BITERRORS"
  shows "prepareSubtable std_syndromes maxsize (112 - bits) bits 1 table i base 0
       = Some (table @ map (\<lambda>j. add_error std_syndromes (112 - bits) j base 0) [i..<bits])"
  using assms
proof (induction "bits - i" arbitrary: i table rule: less_induct)
  case less
  show ?case
  proof (cases "i \<ge> bits")
    case True
    then show ?thesis by (subst prepareSubtable.simps) simp
  next
    case False
    let ?e = "add_error std_syndromes (112 - bits) i base 0"
    have inner: "prepareSubtable std_syndromes maxsize (112 - bits) bits 1 t (i + 1) ?e (0 + 1) = Some t" for t
      by (subst prepareSubtable.simps) simp
    have "prepareSubtable std_syndromes maxsize (112 - bits) bits 1 (table @ [?e]) (i + 1) base 0
        = Some ((table @ [?e]) @ map (\<lambda>j. add_error std_syndromes (112 - bits) j base 0) [i + 1..<bits])"
      by (rule less.hyps) (use less.prems False in auto)
    moreover have "[i..<bits] = i # [i + 1..<bits]" using False by (simp add: upt_conv_Cons)
    ultimately show ?thesis
      using False less.prems inner
      by (subst prepareSubtable.simps) (auto simp: Let_def MODES_MAX_BITERRORS_def)
  qed
qed

definition single_error :: "nat \<Rightarrow> nat \<Rightarrow> errorinfo" where
  "single_error bits i = add_error std_syndromes (112 - bits) i base_entry 0"

lemma describes_single_error: "i < bits \<Longrightarrow> bits \<le> 112 \<Longrightarrow> describes bits (single_error bits i) [i]"
  using describes_add_error [OF describes_base, of i bits]
  by (simp add: single_error_def MODES_MAX_BITERRORS_def)

lemma single_error_syndrome:
  "i < bits \<Longrightarrow> bits \<le> 112 \<Longrightarrow> syndrome (single_error bits i) = bit_syndrome (bits - 1 - i)"
  using describes_single_error [of i bits] by (simp add: describes_def pattern_syndrome_def)

lemma prepareErrorTable_single:
  assumes "bits \<le> 112" and "0 < bits"
  shows "prepareErrorTable std_syndromes bits 1 1
       = Some (Some (sort_key (\<lambda>e. sint (syndrome e)) (map (single_error bits) [0..<bits])))"
proof -
  let ?t = "map (single_error bits) [0..<bits]"
  have size: "nat (combinations (int bits) 1) = bits"
    using combinations_binomial [of bits 1] by simp
  have fill: "prepareSubtable std_syndromes bits (112 - bits) bits (Suc 0) [] 0 base_entry 0 = Some ?t"
    using prepareSubtable_single [of bits "[]" 0 bits base_entry] assms(1)
    by (simp add: base_entry_def single_error_def [abs_def])
  have "inj_on (\<lambda>i. syndrome (single_error bits i)) {0..<bits}"
  proof (rule inj_onI)
    fix a b assume "a \<in> {0..<bits}" "b \<in> {0..<bits}"
      and "syndrome (single_error bits a) = syndrome (single_error bits b)"
    then show "a = b"
      using bit_syndrome_inj [of "bits - 1 - a" "bits - 1 - b"] assms(1)
      by (simp add: single_error_syndrome) linarith
  qed
  then have "distinct (map (\<lambda>i. syndrome (single_error bits i)) [0..<bits])"
    by (simp add: distinct_map)
  then have d: "distinct (map syndrome ?t)" by (simp only: map_map o_def)
  then have "distinct (map syndrome (sort_key (\<lambda>e. sint (syndrome e)) ?t))"
    unfolding distinct_map [of syndrome] by simp
  then have "drop_collisions (sort_key (\<lambda>e. sint (syndrome e)) ?t) 0 []
      = Some (sort_key (\<lambda>e. sint (syndrome e)) ?t)"
    using drop_collisions_distinct [of 0] by simp
  then show ?thesis
    using assms(1) by (simp add: prepareErrorTable_def Let_def size fill MODES_MAX_BITERRORS_def)
qed

lemma modesChecksumInit_single:
  "modesChecksumInit 1 g0 = Some (g0\<lparr>crc_table := std_crc_table, single_bit_syndrome := std_syndromes,
     bitErrorTable_short := Some (sort_key (\<lambda>e. sint (syndrome e)) (map (single_error 56) [0..<56])),
     bitErrorTable_long := Some (sort_key (\<lambda>e. sint (syndrome e)) (map (single_error 112) [0..<112]))\<rparr>)"
  using prepareErrorTable_single [of 56] prepareErrorTable_single [of 112]
  by (simp add: modesChecksumInit_def initLookupTables_eq MODES_SHORT_MSG_BITS_def MODES_LONG_MSG_BITS_def
      del: upt_rec_numeral upt_conv_Cons)

lemma diagnose_single:
  assumes "modesChecksumInit 1 g0 = Some g" and "bits = 56 \<or> bits = 112" and "i < bits"
  shows "modesChecksumDiagnose g (bit_syndrome (bits - 1 - i)) bits = Some (Some (single_error bits i))"
proof -
  define t where "t = sort_key (\<lambda>e. sint (syndrome e)) (map (single_error bits) [0..<bits])"
  have tab: "(if bits = 56 then bitErrorTable_short g else bitErrorTable_long g) = Some t"
    using assms(1,2) by (auto simp: modesChecksumInit_single t_def simp del: upt_rec_numeral upt_conv_Cons)
  have ok: "strictly_sorted t"
    using prepareErrorTable_ok [of bits 1 1 t] prepareErrorTable_single [of bits] assms(2)
    by (auto simp: t_def table_ok_def simp del: upt_rec_numeral upt_conv_Cons)
  have "single_error bits i \<in> set t"
    using assms(3) by (simp add: t_def)
  then obtain k where k: "k < length t" "t ! k = single_error bits i"
    by (auto simp: in_set_conv_nth)
  have b112: "bits \<le> 112" using assms(2) by auto
  have syn: "syndrome (t ! k) = bit_syndrome (bits - 1 - i)"
    using k(2) single_error_syndrome [OF assms(3) b112] by simp
  have "bsearch (search_key (bit_syndrome (bits - 1 - i))) t 0 (length t) = Some k"
    by (rule bsearch_complete [OF ok]) (use k syn in \<open>simp_all add: search_key_def\<close>)
  then show ?thesis
    using tab assms(2) k(2) bit_syndrome_nonzero by (auto simp: modesChecksumDiagnose_def)
qed

subsection \<open>Properties\<close>

text \<open>
  C1. The table-driven checksum is the CRC: after \<open>initLookupTables\<close>, for every message of at
  least three bytes, \<open>modesChecksum\<close> returns the remainder of the message's bits, read as a
  polynomial over GF(2), modulo the Mode S generator polynomial.
\<close>

theorem modesChecksum_is_remainder:
  assumes "initLookupTables g0 = Some g" and "3 \<le> n" and "n \<le> length msg"
  shows "modesChecksum (crc_table g) msg (8 * n) = Some (poly_rem (msg_bits (take n msg)))"
proof -
  have "crc_table g = std_crc_table" using assms(1) by (auto simp: initLookupTables_eq)
  then show ?thesis using modesChecksum_poly_rem [OF assms(2,3)] by simp
qed

definition df17_example :: "u8 list" where
  "df17_example = [0x8D, 0x48, 0x40, 0xD6, 0x20, 0x2C, 0xC3, 0x71, 0xC3, 0x2C, 0xE0, 0x57, 0x60, 0x98]"

lemma df17_example_rem: "poly_rem (msg_bits df17_example) = 0"
  by code_simp

lemma length_df17_example [simp]: "length df17_example = 14"
  by (simp add: df17_example_def)

theorem modesChecksum_is_remainder_witness:
  "\<exists>g. initLookupTables crc_globals_start = Some g \<and>
       modesChecksum (crc_table g) df17_example 112 = Some 0"
proof -
  obtain g where g: "initLookupTables crc_globals_start = Some g" by (simp add: initLookupTables_eq)
  with modesChecksum_is_remainder [of crc_globals_start g 14 df17_example] show ?thesis
    by (simp add: df17_example_rem)
qed

text \<open>
  The checksum is linear: the checksum of the bytewise exclusive or of two messages of the
  same length is the exclusive or of their checksums. This is what makes the syndrome of a
  damaged message depend on the damage alone.
\<close>

theorem modesChecksum_linear:
  assumes "initLookupTables g0 = Some g" and "length a = n" and "length b = n" and "3 \<le> n"
  shows "modesChecksum (crc_table g) (map2 (XOR) a b) (8 * n)
       = Some (the (modesChecksum (crc_table g) a (8 * n)) XOR the (modesChecksum (crc_table g) b (8 * n)))"
proof -
  have "poly_rem (msg_bits (map2 (XOR) a b)) = poly_rem (msg_bits a) XOR poly_rem (msg_bits b)"
    using poly_rem_map2_xor [of "msg_bits a" "msg_bits b" 0 0] assms(2,3)
    by (simp add: msg_bits_xor poly_rem_def)
  moreover have "crc_table g = std_crc_table" using assms(1) by (auto simp: initLookupTables_eq)
  ultimately show ?thesis
    using modesChecksum_poly_rem [of n a] modesChecksum_poly_rem [of n b]
      modesChecksum_poly_rem [of n "map2 (XOR) a b"] assms(2-4) by simp
qed

theorem modesChecksum_linear_witness:
  "\<exists>g. initLookupTables crc_globals_start = Some g \<and>
       modesChecksum (crc_table g) (map2 (XOR) [1, 2, 3, 4] [5, 6, 7, 8]) 32
         = Some (the (modesChecksum (crc_table g) [1, 2, 3, 4] 32) XOR
                 the (modesChecksum (crc_table g) [5, 6, 7, 8] 32))"
proof -
  obtain g where g: "initLookupTables crc_globals_start = Some g" by (simp add: initLookupTables_eq)
  with modesChecksum_linear [OF g, of "[1, 2, 3, 4]" 4 "[5, 6, 7, 8]"] show ?thesis by auto
qed

text \<open>
  C2. A correction is always a correction: whatever number of bits the tables were built for,
  when \<open>modesChecksumDiagnose\<close> finds an error descriptor for the syndrome of a message, then
  \<open>modesChecksumFix\<close> stays within the message, changes exactly as many bits as the
  descriptor says (two at most), and the fixed message has checksum zero.
\<close>

theorem modesChecksumFix_sound:
  assumes "modesChecksumInit fixBits g0 = Some g"
    and "bits = 56 \<or> bits = 112" and "length msg = bits div 8"
    and "modesChecksum (crc_table g) msg bits = Some s"
    and "modesChecksumDiagnose g s bits = Some (Some ei)"
  shows "\<exists>msg'. modesChecksumFix msg (Some ei) = Some msg' \<and> length msg' = length msg \<and>
           modesChecksum (crc_table g) msg' bits = Some 0 \<and>
           int (card (diff_bits bits msg msg')) = errors ei \<and> errors ei \<le> 2"
  using diagnose_fix [OF assms] by (metis append_Nil2)

text \<open>
  C3. With one-bit correction every single-bit error is corrected: if a message has checksum
  zero and any one of its bits is flipped, then the checksum, the diagnosis and the fix of the
  damaged message give back the original message.
\<close>

theorem single_bit_error_corrected:
  assumes "modesChecksumInit 1 g0 = Some g"
    and "bits = 56 \<or> bits = 112" and "length msg = bits div 8"
    and "modesChecksum (crc_table g) msg bits = Some 0" and "i < bits"
  shows "\<exists>s ei. modesChecksum (crc_table g) (flip_msg_bit i msg) bits = Some s \<and>
           modesChecksumDiagnose g s bits = Some (Some ei) \<and>
           modesChecksumFix (flip_msg_bit i msg) (Some ei) = Some msg"
proof -
  have bits: "bits = 8 * length msg" "bits \<le> 112" using assms(2,3) by auto
  have "poly_rem (msg_bits msg) = 0"
    using checksum_poly_rem [OF assms(1,2,3)] assms(4) by simp
  then have "poly_rem (msg_bits (flip_msg_bit i msg)) = bit_syndrome (bits - 1 - i)"
    using poly_rem_msg_flip [of i msg] assms(5) by (simp add: bits(1))
  then have s: "modesChecksum (crc_table g) (flip_msg_bit i msg) bits = Some (bit_syndrome (bits - 1 - i))"
    using checksum_poly_rem [OF assms(1,2), of "flip_msg_bit i msg"] assms(3) by simp
  have "modesChecksumFix (flip_msg_bit i msg) (Some (single_error bits i)) = fix_bits [int i] (flip_msg_bit i msg)"
    using describes_single_error [OF assms(5) bits(2)]
    by (simp add: modesChecksumFix_def describes_def MODES_MAX_BITERRORS_def)
  also have "\<dots> = Some (flip_msg_bit i (flip_msg_bit i msg))"
    using assms(5) bits(1) by auto
  also have "flip_msg_bit i (flip_msg_bit i msg) = msg"
  proof -
    have "i div 8 < length msg" using assms(5) bits(1) by auto
    then show ?thesis by (simp add: flip_msg_bit_def del: push_bit_of_1)
  qed
  finally show ?thesis
    using s diagnose_single [OF assms(1,2,5)] by blast
qed

theorem single_bit_error_corrected_witness:
  "\<exists>g s ei. modesChecksumInit 1 crc_globals_start = Some g \<and>
     modesChecksum (crc_table g) (flip_msg_bit 40 df17_example) 112 = Some s \<and>
     modesChecksumDiagnose g s 112 = Some (Some ei) \<and>
     modesChecksumFix (flip_msg_bit 40 df17_example) (Some ei) = Some df17_example"
proof -
  obtain g where g: "modesChecksumInit 1 crc_globals_start = Some g" by (simp add: modesChecksumInit_single)
  have "modesChecksum (crc_table g) df17_example 112 = Some 0"
    using checksum_poly_rem [OF g, of 112 df17_example] by (simp add: df17_example_rem)
  with single_bit_error_corrected [OF g, of 112 df17_example 40] g show ?thesis by auto
qed

theorem modesChecksumFix_sound_witness:
  "\<exists>g s ei msg'. modesChecksumInit 1 crc_globals_start = Some g \<and>
     modesChecksum (crc_table g) (flip_msg_bit 7 (replicate 7 0)) 56 = Some s \<and>
     modesChecksumDiagnose g s 56 = Some (Some ei) \<and>
     modesChecksumFix (flip_msg_bit 7 (replicate 7 0)) (Some ei) = Some msg' \<and>
     modesChecksum (crc_table g) msg' 56 = Some 0"
proof -
  let ?m = "flip_msg_bit 7 (replicate 7 0)"
  obtain g where g: "modesChecksumInit 1 crc_globals_start = Some g" by (simp add: modesChecksumInit_single)
  have s: "modesChecksum (crc_table g) ?m 56 = Some (bit_syndrome (56 - 1 - 7))"
    using checksum_poly_rem [OF g, of 56 ?m] poly_rem_msg_flip [of 7 "replicate 7 0"]
    by (simp add: poly_rem_zero)
  have d: "modesChecksumDiagnose g (bit_syndrome (56 - 1 - 7)) 56 = Some (Some (single_error 56 7))"
    by (rule diagnose_single [OF g]) simp_all
  from modesChecksumFix_sound [OF g, of 56 ?m, OF _ _ s d] g s d show ?thesis by fastforce
qed

text \<open>
  The pass that removes ambiguous syndromes: on a table sorted by syndrome, when it stays
  within the table it returns exactly the entries whose syndrome no other entry has, in order.
\<close>

theorem drop_collisions_keeps_unambiguous:
  assumes "sorted (map (\<lambda>e. sint (syndrome e)) t)" and "drop_collisions t 0 [] = Some r"
  shows "r = filter (unambiguous t) t \<and> distinct (map syndrome r)"
  using drop_collisions_Some [OF assms(2,1)] distinct_unambiguous by simp

theorem drop_collisions_keeps_unambiguous_witness:
  "\<exists>r. drop_collisions (map search_key [1, 2, 2, 3]) 0 [] = Some r \<and>
       r = filter (unambiguous (map search_key [1, 2, 2, 3])) (map search_key [1, 2, 2, 3]) \<and>
       map syndrome r = [1, 3]"
proof -
  let ?t = "map search_key [1, 2, 2, 3]"
  have r: "drop_collisions ?t 0 [] = Some (map search_key [1, 3])"
    by (simp add: drop_collisions.simps skip_equal.simps search_key_def)
  have "sorted (map (\<lambda>e. sint (syndrome e)) ?t)"
    by (simp add: search_key_def)
  from drop_collisions_keeps_unambiguous [OF this r] r show ?thesis
    by (intro exI [of _ "map search_key [1, 3]"]) (simp add: search_key_def unambiguous_def)
qed

lemma skip_equal_None:
  "skip_equal t i = None \<Longrightarrow> i + 1 < length t \<Longrightarrow> syndrome (t ! (i + 1)) = syndrome (t ! i) \<Longrightarrow>
     syndrome (t ! (length t - 1)) = syndrome (t ! (length t - 2))"
proof (induction t i rule: skip_equal.induct)
  case (1 t i)
  show ?case
  proof (cases "i + 2 < length t")
    case True
    have "skip_equal t (i + 1) = None"
      using "1.prems" by (simp add: skip_equal.simps [of t i])
    moreover from this have "syndrome (t ! (i + 1 + 1)) = syndrome (t ! (i + 1))"
      using True by (simp add: skip_equal.simps [of t "Suc i"] split: if_splits)
    ultimately show ?thesis using "1.IH" "1.prems" True by auto
  next
    case False
    then have "length t = i + 2" using "1.prems"(2) by simp
    then show ?thesis using "1.prems"(3) by simp
  qed
qed

lemma drop_collisions_None:
  "drop_collisions t i kept = None \<Longrightarrow>
     2 \<le> length t \<and> syndrome (t ! (length t - 1)) = syndrome (t ! (length t - 2))"
proof (induction t i kept rule: drop_collisions.induct)
  case (1 t i kept)
  show ?case
  proof (cases "i + 1 < length t \<and> syndrome (t ! (i + 1)) = syndrome (t ! i)")
    case True
    show ?thesis
    proof (cases "skip_equal t i")
      case None
      with True skip_equal_None [OF None] show ?thesis by simp
    next
      case (Some k)
      then show ?thesis using "1.prems" "1.IH"(1) [OF _ True Some] True
        by (simp add: drop_collisions.simps [of t i])
    qed
  next
    case False
    then show ?thesis using "1.prems" "1.IH"(2) by (simp add: drop_collisions.simps [of t i] split: if_splits)
  qed
qed

text \<open>
  C16. The same pass reads past its table: it compares the entry one past the end exactly when
  the last two entries of the sorted table share a syndrome (the inner loop tests
  \<open>i < usedsize\<close> where it reads \<open>table[i+1]\<close>).
\<close>

theorem drop_collisions_overrun:
  assumes "sorted (map (\<lambda>e. sint (syndrome e)) t)"
  shows "drop_collisions t 0 [] = None \<longleftrightarrow>
           2 \<le> length t \<and> syndrome (t ! (length t - 1)) = syndrome (t ! (length t - 2))"
proof
  assume last2: "2 \<le> length t \<and> syndrome (t ! (length t - 1)) = syndrome (t ! (length t - 2))"
  have "False" if r: "drop_collisions t i kept = Some r" and i: "i \<le> length t - 2" for i kept r
    using r i last2
  proof (induction t i kept rule: drop_collisions.induct)
    case (1 t i kept)
    show ?case
    proof (cases "i + 1 < length t \<and> syndrome (t ! (i + 1)) = syndrome (t ! i)")
      case True
      then obtain k where k: "skip_equal t i = Some k" and d: "drop_collisions t (k + 1) kept = Some r"
        using "1.prems"(1) by (auto simp: drop_collisions.simps [of t i] split: option.splits)
      have sk: "k + 1 < length t" "syndrome (t ! (k + 1)) \<noteq> syndrome (t ! k)"
        using skip_equal_Some [OF k] True by auto
      have "k + 1 \<noteq> length t - 1"
      proof
        assume "k + 1 = length t - 1"
        moreover from this have "k = length t - 2" by simp
        ultimately show False using sk(2) "1.prems"(3) by simp
      qed
      then have "k + 1 \<le> length t - 2" using sk(1) by linarith
      then show ?thesis using "1.IH"(1) [OF _ True k d] "1.prems" True by auto
    next
      case False
      have "i < length t" using "1.prems"(2,3) by linarith
      moreover from False "1.prems"(2,3) have "i + 1 \<le> length t - 2"
        by (cases "i = length t - 2") (auto simp: numeral_2_eq_2 Suc_diff_Suc)
      ultimately show ?thesis using "1.IH"(2) False "1.prems"
        by (simp add: drop_collisions.simps [of t i] split: if_splits)
    qed
  qed
  then show "drop_collisions t 0 [] = None" by (cases "drop_collisions t 0 []") auto
qed (rule drop_collisions_None)

theorem drop_collisions_overrun_witness:
  "drop_collisions (map search_key [1, 2, 2]) 0 [] = None"
proof -
  have "sorted (map (\<lambda>e. sint (syndrome e)) (map search_key [1, 2, 2]))"
    by (simp add: search_key_def)
  from drop_collisions_overrun [OF this] show ?thesis by (simp add: search_key_def)
qed
end
