(* ===== verification/IcaoFilter.thy ===== *)
theory IcaoFilter
  imports Prelude
begin

text \<open>
  The filter of recently seen ICAO addresses, translated from \<^verbatim>\<open>src/icao_filter.c\<close>: two
  open-addressed hash tables with linear probing of which one is active for insertion, both
  are searched, and the older one is cleared when they are switched. The static variable
  \<^verbatim>\<open>next_flip\<close> of \<open>icaoFilterExpire\<close> is a field of the state; the clock \<open>mstime()\<close>
  is an argument.
\<close>

subsection \<open>State and operations\<close>

definition ICAO_FILTER_SIZE :: nat where
  "ICAO_FILTER_SIZE = 4096"

definition MODES_ICAO_FILTER_TTL :: u64 where
  "MODES_ICAO_FILTER_TTL = 60000"

definition EMPTY :: u32 where
  "EMPTY = 0xFFFFFFFF"

datatype table_id = FilterA | FilterB

record icao_filter =
  icao_filter_a :: "u32 list"
  icao_filter_b :: "u32 list"
  icao_filter_active :: table_id
  next_flip :: u64

definition icaoHash :: "u32 \<Rightarrow> u32" where
  "icaoHash a =
     (let hash = 0;
          hash = hash + (a AND 0xff);
          hash = hash + push_bit 10 hash;
          hash = hash XOR drop_bit 6 hash;
          hash = hash + (drop_bit 8 a AND 0xff);
          hash = hash + push_bit 10 hash;
          hash = hash XOR drop_bit 6 hash;
          hash = hash + (drop_bit 16 a AND 0xff);
          hash = hash + push_bit 10 hash;
          hash = hash XOR drop_bit 6 hash;
          hash = hash + push_bit 3 hash;
          hash = hash XOR drop_bit 11 hash;
          hash = hash + push_bit 15 hash
      in hash AND (of_nat ICAO_FILTER_SIZE - 1))"

definition icaoFilterInit :: icao_filter where
  "icaoFilterInit = \<lparr>icao_filter_a = replicate ICAO_FILTER_SIZE EMPTY,
     icao_filter_b = replicate ICAO_FILTER_SIZE EMPTY, icao_filter_active = FilterA, next_flip = 0\<rparr>"

text \<open>
  The probing loop of \<open>icaoFilterAdd\<close> and \<open>icaoFilterTest\<close>. It ends at a slot that is empty or
  holds the address, or when it is back at its first slot; the flag says that it came round.
  The accesses to the tables are checked, here and in the operations.
\<close>

partial_function (option) probe :: "u32 list \<Rightarrow> u32 \<Rightarrow> u32 \<Rightarrow> u32 \<Rightarrow> (u32 \<times> bool) option" where
  "probe tbl addr h0 h =
     arr_get tbl (unat h) \<bind> (\<lambda>v.
       if v \<noteq> EMPTY \<and> v \<noteq> addr then
         let h' = (h + 1) AND (of_nat ICAO_FILTER_SIZE - 1)
         in if h' = h0 then Some (h', True) else probe tbl addr h0 h'
       else Some (h, False))"

definition active_table :: "icao_filter \<Rightarrow> u32 list" where
  "active_table f = (case icao_filter_active f of FilterA \<Rightarrow> icao_filter_a f | FilterB \<Rightarrow> icao_filter_b f)"

definition set_active_table :: "u32 list \<Rightarrow> icao_filter \<Rightarrow> icao_filter" where
  "set_active_table t f =
     (case icao_filter_active f of
        FilterA \<Rightarrow> f\<lparr>icao_filter_a := t\<rparr> | FilterB \<Rightarrow> f\<lparr>icao_filter_b := t\<rparr>)"

definition icaoFilterAdd :: "u32 \<Rightarrow> icao_filter \<Rightarrow> icao_filter option" where
  "icaoFilterAdd addr f = do {
     let h0 = icaoHash addr;
     (h, full) \<leftarrow> probe (active_table f) addr h0 h0;
     if full then Some f
     else do {
       v \<leftarrow> arr_get (active_table f) (unat h);
       if v = EMPTY then do {
         tbl \<leftarrow> arr_set (active_table f) (unat h) addr;
         Some (set_active_table tbl f) }
       else Some f } }"

definition icaoFilterTest :: "u32 \<Rightarrow> icao_filter \<Rightarrow> bool option" where
  "icaoFilterTest addr f = do {
     let h0 = icaoHash addr;
     (h, _) \<leftarrow> probe (icao_filter_a f) addr h0 h0;
     v \<leftarrow> arr_get (icao_filter_a f) (unat h);
     if v = addr then Some True
     else do {
       (h, _) \<leftarrow> probe (icao_filter_b f) addr h0 h0;
       v \<leftarrow> arr_get (icao_filter_b f) (unat h);
       if v = addr then Some True
       else Some False } }"

definition icaoFilterExpire :: "u64 \<Rightarrow> icao_filter \<Rightarrow> icao_filter" where
  "icaoFilterExpire now f =
     (if now \<ge> next_flip f then
        (case icao_filter_active f of
           FilterA \<Rightarrow> f\<lparr>icao_filter_b := replicate ICAO_FILTER_SIZE EMPTY, icao_filter_active := FilterB,
                        next_flip := now + MODES_ICAO_FILTER_TTL\<rparr>
         | FilterB \<Rightarrow> f\<lparr>icao_filter_a := replicate ICAO_FILTER_SIZE EMPTY, icao_filter_active := FilterA,
                        next_flip := now + MODES_ICAO_FILTER_TTL\<rparr>)
      else f)"

subsection \<open>Probing\<close>

lemma size_minus_1: "of_nat ICAO_FILTER_SIZE - 1 = (mask 12 :: u32)"
  by (simp add: ICAO_FILTER_SIZE_def mask_numeral)

lemma unat_and_mask: "unat ((h :: u32) AND (of_nat ICAO_FILTER_SIZE - 1)) = unat h mod ICAO_FILTER_SIZE"
  unfolding size_minus_1 take_bit_eq_mask [symmetric]
  by (simp only: unsigned_take_bit_eq) (simp add: take_bit_eq_mod ICAO_FILTER_SIZE_def)

lemma icaoHash_less: "unat (icaoHash a) < ICAO_FILTER_SIZE"
  unfolding icaoHash_def Let_def unat_and_mask by (simp add: ICAO_FILTER_SIZE_def)

lemma unat_next_slot:
  "unat h < ICAO_FILTER_SIZE \<Longrightarrow>
     unat ((h + 1 :: u32) AND (of_nat ICAO_FILTER_SIZE - 1)) = (unat h + 1) mod ICAO_FILTER_SIZE"
  unfolding unat_and_mask by (simp add: unat_word_ariths ICAO_FILTER_SIZE_def)

text \<open>The \<open>k\<close>-th slot on the probing path of an address, and whether the path may stop there.\<close>

definition slot :: "u32 \<Rightarrow> nat \<Rightarrow> nat" where
  "slot addr k = (unat (icaoHash addr) + k) mod ICAO_FILTER_SIZE"

definition stops :: "u32 list \<Rightarrow> u32 \<Rightarrow> nat \<Rightarrow> bool" where
  "stops tbl addr k \<longleftrightarrow> tbl ! slot addr k = EMPTY \<or> tbl ! slot addr k = addr"

lemma slot_less [simp]: "slot addr k < ICAO_FILTER_SIZE"
  by (simp add: slot_def ICAO_FILTER_SIZE_def)

lemma slot_inj: "slot addr j = slot addr k \<Longrightarrow> j < ICAO_FILTER_SIZE \<Longrightarrow> k < ICAO_FILTER_SIZE \<Longrightarrow> j = k"
proof (induction j k rule: linorder_wlog)
  case (le j k)
  then have "ICAO_FILTER_SIZE dvd k - j"
    using mod_eq_dvd_iff_nat [of "unat (icaoHash addr) + j" "unat (icaoHash addr) + k" ICAO_FILTER_SIZE]
    by (simp add: slot_def eq_commute)
  with le show ?case by (metis diff_is_0_eq dvd_imp_le le_antisym less_imp_diff_less not_le zero_less_iff_neq_zero)
qed auto

lemma slot_surj: "i < ICAO_FILTER_SIZE \<Longrightarrow> \<exists>k < ICAO_FILTER_SIZE. i = slot addr k"
proof -
  assume i: "i < ICAO_FILTER_SIZE"
  let ?h = "unat (icaoHash addr)"
  have h: "?h < ICAO_FILTER_SIZE" by (rule icaoHash_less)
  show ?thesis
  proof (cases "?h \<le> i")
    case True
    then show ?thesis using i by (intro exI [of _ "i - ?h"]) (simp add: slot_def)
  next
    case False
    then have "slot addr (i + ICAO_FILTER_SIZE - ?h) = (i + ICAO_FILTER_SIZE) mod ICAO_FILTER_SIZE"
      using h by (simp add: slot_def)
    then show ?thesis using i h False by (intro exI [of _ "i + ICAO_FILTER_SIZE - ?h"]) auto
  qed
qed

lemma probe_from:
  assumes "unat h = slot addr k" and "k < ICAO_FILTER_SIZE" and "\<forall>j < k. \<not> stops tbl addr j"
    and len: "length tbl = ICAO_FILTER_SIZE"
  shows "(\<exists>j < ICAO_FILTER_SIZE. stops tbl addr j \<and> (\<forall>i < j. \<not> stops tbl addr i) \<and>
            (\<exists>h'. unat h' = slot addr j \<and> probe tbl addr (icaoHash addr) h = Some (h', False)))
       \<or> ((\<forall>j < ICAO_FILTER_SIZE. \<not> stops tbl addr j) \<and>
            probe tbl addr (icaoHash addr) h = Some (icaoHash addr, True))"
  using assms(1-3)
proof (induction "ICAO_FILTER_SIZE - k" arbitrary: h k rule: less_induct)
  case less
  have get: "arr_get tbl (unat h) = Some (tbl ! slot addr k)" using less.prems(1) by (simp add: len)
  show ?case
  proof (cases "stops tbl addr k")
    case True
    then have "probe tbl addr (icaoHash addr) h = Some (h, False)"
      by (subst probe.simps) (auto simp: stops_def get)
    with True less.prems show ?thesis by blast
  next
    case False
    let ?h = "(h + 1) AND (of_nat ICAO_FILTER_SIZE - 1)"
    have h: "unat h < ICAO_FILTER_SIZE" using less.prems(1) by simp
    have next_slot: "unat ?h = slot addr (k + 1)"
      by (simp only: unat_next_slot [OF h] less.prems(1)) (simp add: slot_def mod_Suc_eq)
    have start: "unat (icaoHash addr) = slot addr 0"
      using icaoHash_less by (simp add: slot_def)
    have nostop: "\<forall>j < k + 1. \<not> stops tbl addr j"
      using False less.prems(3) by (auto simp: less_Suc_eq)
    have step: "probe tbl addr (icaoHash addr) h =
        (if ?h = icaoHash addr then Some (?h, True) else probe tbl addr (icaoHash addr) ?h)"
      using False by (subst probe.simps) (simp add: stops_def Let_def get)
    show ?thesis
    proof (cases "k + 1 < ICAO_FILTER_SIZE")
      case True
      have "?h \<noteq> icaoHash addr"
        using next_slot start slot_inj [of addr "k + 1" 0] True by (metis add_is_0 gr_zeroI less_zeroE one_neq_zero)
      then have "probe tbl addr (icaoHash addr) h = probe tbl addr (icaoHash addr) ?h"
        by (simp only: step if_False)
      moreover have "ICAO_FILTER_SIZE - (k + 1) < ICAO_FILTER_SIZE - k" using True by linarith
      ultimately show ?thesis
        using less.hyps [OF _ next_slot True nostop] by (simp only:)
    next
      case False
      with less.prems(2) have "k + 1 = ICAO_FILTER_SIZE" by simp
      have "unat ?h = unat (icaoHash addr)"
        unfolding next_slot \<open>k + 1 = ICAO_FILTER_SIZE\<close> using icaoHash_less by (simp add: slot_def)
      then have "?h = icaoHash addr" by (rule word_unat_eq_iff [THEN iffD2])
      then have "probe tbl addr (icaoHash addr) h = Some (icaoHash addr, True)"
        by (simp only: step simp_thms if_True)
      with nostop show ?thesis unfolding \<open>k + 1 = ICAO_FILTER_SIZE\<close> by blast
    qed
  qed
qed

lemma probe_cases:
  assumes "length tbl = ICAO_FILTER_SIZE"
  obtains (stop) j h where "j < ICAO_FILTER_SIZE" "stops tbl addr j" "\<forall>i < j. \<not> stops tbl addr i"
      "unat h = slot addr j" "probe tbl addr (icaoHash addr) (icaoHash addr) = Some (h, False)"
  | (round) "\<forall>j < ICAO_FILTER_SIZE. \<not> stops tbl addr j"
      "probe tbl addr (icaoHash addr) (icaoHash addr) = Some (icaoHash addr, True)"
proof -
  have "unat (icaoHash addr) = slot addr 0" using icaoHash_less by (simp add: slot_def)
  from probe_from [OF this _ _ assms] that show thesis by (auto simp: ICAO_FILTER_SIZE_def)
qed

subsection \<open>The invariant of a table\<close>

text \<open>
  Every stored address can be reached from its home slot: no slot before it on its probing path
  is empty. Nothing is ever removed from a single slot, so insertions keep this.
\<close>

definition reachable_from_home :: "u32 list \<Rightarrow> bool" where
  "reachable_from_home t \<longleftrightarrow>
     (\<forall>a k. k < ICAO_FILTER_SIZE \<and> a \<noteq> EMPTY \<and> t ! slot a k = a \<longrightarrow> (\<forall>j < k. t ! slot a j \<noteq> EMPTY))"

definition table_inv :: "u32 list \<Rightarrow> bool" where
  "table_inv t \<longleftrightarrow> length t = ICAO_FILTER_SIZE \<and> reachable_from_home t"

definition filter_inv :: "icao_filter \<Rightarrow> bool" where
  "filter_inv f \<longleftrightarrow> table_inv (icao_filter_a f) \<and> table_inv (icao_filter_b f)"

lemma table_inv_empty: "table_inv (replicate ICAO_FILTER_SIZE EMPTY)"
  by (simp add: table_inv_def reachable_from_home_def)

lemma filter_inv_Init: "filter_inv icaoFilterInit"
  by (simp add: filter_inv_def icaoFilterInit_def table_inv_empty)

text \<open>A probe of a sound table stops at the address exactly when the address is stored.\<close>

lemma probe_finds:
  assumes "table_inv t" and "a \<noteq> EMPTY"
  shows "\<exists>h full. probe t a (icaoHash a) (icaoHash a) = Some (h, full) \<and> unat h < ICAO_FILTER_SIZE
           \<and> (t ! unat h = a \<longleftrightarrow> a \<in> set t)
           \<and> (\<not> full \<longrightarrow> t ! unat h = EMPTY \<or> t ! unat h = a) \<and> (full \<longrightarrow> a \<notin> set t \<and> EMPTY \<notin> set t)"
proof -
  have len: "length t = ICAO_FILTER_SIZE" using assms(1) by (simp add: table_inv_def)
  have stored: "\<exists>k < ICAO_FILTER_SIZE. t ! slot a k = x" if "x \<in> set t" for x
    using that len slot_surj [of _ a] by (metis in_set_conv_nth)
  show ?thesis
  proof (rule probe_cases [OF len, of a])
    fix j h assume j: "j < ICAO_FILTER_SIZE" "stops t a j" "\<forall>i < j. \<not> stops t a i" "unat h = slot a j"
      and p: "probe t a (icaoHash a) (icaoHash a) = Some (h, False)"
    have "t ! slot a j = a" if "a \<in> set t"
    proof -
      from stored [OF that] obtain k where k: "k < ICAO_FILTER_SIZE" "t ! slot a k = a" by blast
      then have "j \<le> k" using j(3) by (metis stops_def not_le)
      then show ?thesis
        using k j(2) assms by (cases "j = k") (auto simp: table_inv_def reachable_from_home_def stops_def)
    qed
    moreover have "a \<in> set t" if "t ! slot a j = a"
      using that len slot_less [of a j] by (metis nth_mem)
    ultimately show ?thesis using p j by (auto simp: stops_def)
  next
    assume all: "\<forall>j < ICAO_FILTER_SIZE. \<not> stops t a j"
      and p: "probe t a (icaoHash a) (icaoHash a) = Some (icaoHash a, True)"
    then have "a \<notin> set t" and "EMPTY \<notin> set t" using stored by (auto simp: stops_def)
    moreover have "t ! unat (icaoHash a) \<noteq> a"
      using \<open>a \<notin> set t\<close> len icaoHash_less [of a] by (metis nth_mem)
    ultimately show ?thesis using p icaoHash_less by blast
  qed
qed

lemma table_inv_insert:
  assumes "table_inv t" and "a \<noteq> EMPTY" and "a \<notin> set t"
    and "probe t a (icaoHash a) (icaoHash a) = Some (h, False)"
  shows "table_inv (t[unat h := a])" and "set (t[unat h := a]) - {EMPTY} = insert a (set t - {EMPTY})"
    and "t ! unat h = EMPTY"
proof -
  have len: "length t = ICAO_FILTER_SIZE" using assms(1) by (simp add: table_inv_def)
  obtain j where j: "j < ICAO_FILTER_SIZE" "stops t a j" "\<forall>i < j. \<not> stops t a i" "unat h = slot a j"
    by (rule probe_cases [OF len, of a]) (use assms(4) in auto)
  have h: "unat h < length t" using j(4) len by simp
  then have "t ! unat h \<noteq> a" using assms(3) nth_mem by blast
  then show e: "t ! unat h = EMPTY" using j(2,4) by (simp add: stops_def)
  have "\<forall>i < k. t[unat h := a] ! slot b i \<noteq> EMPTY"
    if k: "k < ICAO_FILTER_SIZE" "b \<noteq> EMPTY" "t[unat h := a] ! slot b k = b" for b k
  proof (intro allI impI)
    fix i assume "i < k"
    show "t[unat h := a] ! slot b i \<noteq> EMPTY"
    proof (cases "slot b k = unat h")
      case True
      with k(3) h have "b = a" by simp
      then have "k = j" using True j(1,4) k(1) slot_inj by metis
      then show ?thesis using j(3) \<open>i < k\<close> \<open>b = a\<close> assms(2) h
        by (cases "unat h = slot a i") (auto simp: stops_def)
    next
      case False
      then have "t ! slot b k = b" using k(3) by simp
      then have "t ! slot b i \<noteq> EMPTY"
        using assms(1) k \<open>i < k\<close> by (auto simp: table_inv_def reachable_from_home_def)
      then show ?thesis using assms(2) h by (cases "unat h = slot b i") simp_all
    qed
  qed
  then show "table_inv (t[unat h := a])"
    unfolding table_inv_def reachable_from_home_def using len by (intro conjI allI impI) (simp, blast)
  show "set (t[unat h := a]) - {EMPTY} = insert a (set t - {EMPTY})"
  proof -
    have "x \<in> set (t[unat h := a])" if "x \<in> set t" "x \<noteq> EMPTY" for x
      using that e by (simp add: in_set_update_keep)
    moreover have "a \<in> set (t[unat h := a])" using h by (rule set_update_memI)
    ultimately show ?thesis
      using assms(2) set_update_subset_insert [of t "unat h" a] by blast
  qed
qed

subsection \<open>The abstract filter: two generations of addresses\<close>

definition generation :: "u32 list \<Rightarrow> u32 set" where
  "generation t = set t - {EMPTY}"

definition members :: "icao_filter \<Rightarrow> u32 set" where
  "members f = generation (icao_filter_a f) \<union> generation (icao_filter_b f)"

lemma generation_empty [simp]: "generation (replicate n EMPTY) = {}"
  by (auto simp: generation_def)

lemma active_table_simps [simp]:
  "active_table (set_active_table t f) = t"
  "next_flip (set_active_table t f) = next_flip f"
  "icao_filter_active (set_active_table t f) = icao_filter_active f"
  by (simp_all add: active_table_def set_active_table_def split: table_id.split)

lemma filter_inv_active: "filter_inv f \<Longrightarrow> table_inv (active_table f)"
  by (simp add: filter_inv_def active_table_def split: table_id.split)

lemma filter_inv_set_active: "filter_inv f \<Longrightarrow> table_inv t \<Longrightarrow> filter_inv (set_active_table t f)"
  by (simp add: filter_inv_def set_active_table_def split: table_id.split)

lemma members_set_active:
  "generation t = insert a (generation (active_table f)) \<Longrightarrow>
     members (set_active_table t f) = insert a (members f)"
  by (auto simp: members_def set_active_table_def active_table_def split: table_id.splits)

lemma icaoFilterTest_members:
  assumes "filter_inv f" and "a \<noteq> EMPTY"
  shows "icaoFilterTest a f = Some (a \<in> members f)"
proof -
  have len: "length (icao_filter_a f) = ICAO_FILTER_SIZE" "length (icao_filter_b f) = ICAO_FILTER_SIZE"
    using assms(1) by (simp_all add: filter_inv_def table_inv_def)
  obtain h full where a: "probe (icao_filter_a f) a (icaoHash a) (icaoHash a) = Some (h, full)" "unat h < ICAO_FILTER_SIZE"
      "icao_filter_a f ! unat h = a \<longleftrightarrow> a \<in> set (icao_filter_a f)"
    using probe_finds [of "icao_filter_a f" a] assms by (auto simp: filter_inv_def)
  obtain h' full' where b: "probe (icao_filter_b f) a (icaoHash a) (icaoHash a) = Some (h', full')" "unat h' < ICAO_FILTER_SIZE"
      "icao_filter_b f ! unat h' = a \<longleftrightarrow> a \<in> set (icao_filter_b f)"
    using probe_finds [of "icao_filter_b f" a] assms by (auto simp: filter_inv_def)
  show ?thesis
    using a b assms(2) by (auto simp: icaoFilterTest_def members_def generation_def c_simps len)
qed

definition has_room :: "u32 \<Rightarrow> icao_filter \<Rightarrow> bool" where
  "has_room a f \<longleftrightarrow> EMPTY \<in> set (active_table f) \<or> a \<in> set (active_table f)"

lemma icaoFilterAdd_cases:
  assumes "filter_inv f" and "a \<noteq> EMPTY"
  shows "\<exists>f'. icaoFilterAdd a f = Some f' \<and> filter_inv f' \<and> next_flip f' = next_flip f \<and>
           icao_filter_active f' = icao_filter_active f \<and>
           (has_room a f \<longrightarrow> members f' = insert a (members f) \<and> a \<in> generation (active_table f')) \<and>
           (\<not> has_room a f \<longrightarrow> f' = f) \<and> generation (active_table f) \<subseteq> generation (active_table f')"
proof -
  let ?t = "active_table f"
  have inv: "table_inv ?t" using assms(1) by (rule filter_inv_active)
  obtain h full where p: "probe ?t a (icaoHash a) (icaoHash a) = Some (h, full)" "unat h < ICAO_FILTER_SIZE"
      "?t ! unat h = a \<longleftrightarrow> a \<in> set ?t" "\<not> full \<longrightarrow> ?t ! unat h = EMPTY \<or> ?t ! unat h = a"
      "full \<longrightarrow> a \<notin> set ?t \<and> EMPTY \<notin> set ?t"
    using probe_finds [OF inv assms(2)] by blast
  have h: "unat h < length ?t" using p(2) inv by (simp add: table_inv_def)
  have subset: "generation ?t \<subseteq> members f"
    by (auto simp: members_def active_table_def split: table_id.splits)
  show ?thesis
  proof (cases "full \<or> a \<in> set ?t")
    case True
    then have "icaoFilterAdd a f = Some f"
      using p assms(2) h by (auto simp: icaoFilterAdd_def Let_def c_simps)
    moreover have "a \<in> generation ?t" if "has_room a f"
      using True p(5) that assms(2) by (auto simp: has_room_def generation_def)
    ultimately show ?thesis using assms(1) subset by (auto simp: insert_absorb)
  next
    case False
    with p have p': "probe ?t a (icaoHash a) (icaoHash a) = Some (h, False)" "a \<notin> set ?t" by auto
    note ins = table_inv_insert [OF inv assms(2) p'(2,1)]
    have g: "generation (?t[unat h := a]) = insert a (generation ?t)"
      using ins(2) by (simp add: generation_def)
    have "icaoFilterAdd a f = Some (set_active_table (?t[unat h := a]) f)"
      using p' ins(3) h by (simp add: icaoFilterAdd_def Let_def c_simps)
    moreover have "has_room a f"
      using ins(3) p(2) inv nth_mem [of "unat h" ?t] by (auto simp: has_room_def table_inv_def)
    ultimately show ?thesis
      using filter_inv_set_active [OF assms(1) ins(1)] members_set_active [OF g] g by auto
  qed
qed

lemma filter_inv_Expire: "filter_inv f \<Longrightarrow> filter_inv (icaoFilterExpire now f)"
  by (simp add: icaoFilterExpire_def filter_inv_def table_inv_empty split: table_id.split)

subsection \<open>The interface the decoder relies on\<close>

text \<open>
  What message scoring and tracking may assume of a filter of addresses: a test always answers,
  an addition always succeeds, and afterwards the address is known if there was room for it.
\<close>

locale address_filter =
  fixes inv :: "'s \<Rightarrow> bool"
    and mem :: "'s \<Rightarrow> 'a set"
    and valid :: "'a \<Rightarrow> bool"
    and add :: "'a \<Rightarrow> 's \<Rightarrow> 's option"
    and test :: "'a \<Rightarrow> 's \<Rightarrow> bool option"
    and room :: "'a \<Rightarrow> 's \<Rightarrow> bool"
  assumes test_mem: "inv s \<Longrightarrow> valid a \<Longrightarrow> test a s = Some (a \<in> mem s)"
    and add_total: "inv s \<Longrightarrow> valid a \<Longrightarrow> \<exists>s'. add a s = Some s' \<and> inv s'"
    and add_room: "inv s \<Longrightarrow> valid a \<Longrightarrow> room a s \<Longrightarrow> add a s = Some s' \<Longrightarrow> mem s' = insert a (mem s)"
    and add_full: "inv s \<Longrightarrow> valid a \<Longrightarrow> \<not> room a s \<Longrightarrow> add a s = Some s' \<Longrightarrow> s' = s"
begin

lemma add_inv: "inv s \<Longrightarrow> valid a \<Longrightarrow> add a s = Some s' \<Longrightarrow> inv s'"
  using add_total [of s a] by auto

lemma test_after_add:
  "inv s \<Longrightarrow> valid a \<Longrightarrow> room a s \<Longrightarrow> add a s = Some s' \<Longrightarrow> test a s' = Some True"
  using add_inv [of s a s'] add_room [of s a s'] by (simp add: test_mem)

lemma test_other_after_add:
  assumes "inv s" and "valid a" and "valid b" and "b \<noteq> a" and "add a s = Some s'"
  shows "test b s' = test b s"
  using assms add_inv [of s a s'] add_room [of s a s'] add_full [of s a s']
  by (cases "room a s") (auto simp: test_mem)

lemma test_monotone:
  assumes "inv s" and "valid a" and "valid b" and "add a s = Some s'" and "test b s = Some True"
  shows "test b s' = Some True"
  using assms add_inv [of s a s'] add_room [of s a s'] add_full [of s a s']
  by (cases "room a s") (auto simp: test_mem)

end

interpretation icao: address_filter filter_inv members "\<lambda>a. a \<noteq> EMPTY" icaoFilterAdd icaoFilterTest has_room
proof unfold_locales
  fix f :: icao_filter and a :: u32
  assume f: "filter_inv f" "a \<noteq> EMPTY"
  show "icaoFilterTest a f = Some (a \<in> members f)" by (rule icaoFilterTest_members [OF f])
  show "\<exists>f'. icaoFilterAdd a f = Some f' \<and> filter_inv f'"
    using icaoFilterAdd_cases [OF f] by blast
  show "members f' = insert a (members f)" if "has_room a f" "icaoFilterAdd a f = Some f'" for f'
    using icaoFilterAdd_cases [OF f] that by auto
  show "f' = f" if "\<not> has_room a f" "icaoFilterAdd a f = Some f'" for f'
    using icaoFilterAdd_cases [OF f] that by auto
qed

subsection \<open>Runs of the filter\<close>

text \<open>A lookup leaves the filter alone; its answer is dropped.\<close>

datatype filter_op = AddOp u32 | ExpireOp u64 | TestOp u32

fun filter_step :: "filter_op \<Rightarrow> icao_filter \<Rightarrow> icao_filter option" where
  "filter_step (AddOp a) f = icaoFilterAdd a f"
| "filter_step (ExpireOp now) f = Some (icaoFilterExpire now f)"
| "filter_step (TestOp a) f = map_option (\<lambda>_. f) (icaoFilterTest a f)"

fun filter_run :: "filter_op list \<Rightarrow> icao_filter \<Rightarrow> icao_filter option" where
  "filter_run [] f = Some f"
| "filter_run (x # xs) f = filter_step x f \<bind> filter_run xs"

definition valid_op :: "filter_op \<Rightarrow> bool" where
  "valid_op x \<longleftrightarrow> (case x of AddOp a \<Rightarrow> a \<noteq> EMPTY | ExpireOp now \<Rightarrow> True | TestOp a \<Rightarrow> a \<noteq> EMPTY)"

lemma filter_step_inv:
  "filter_inv f \<Longrightarrow> valid_op x \<Longrightarrow> \<exists>f'. filter_step x f = Some f' \<and> filter_inv f'"
  by (cases x) (auto simp: valid_op_def filter_inv_Expire icao.test_mem dest: icao.add_total)

lemma filter_run_inv:
  "filter_inv f \<Longrightarrow> \<forall>x \<in> set xs. valid_op x \<Longrightarrow> \<exists>f'. filter_run xs f = Some f' \<and> filter_inv f'"
proof (induction xs arbitrary: f)
  case (Cons x xs)
  then obtain f1 where "filter_step x f = Some f1" "filter_inv f1"
    using filter_step_inv [of f x] by auto
  then show ?case using Cons by simp
qed simp

text \<open>What keeps an address known until a deadline: it is in the active table, or no flip is due.\<close>

definition retained :: "u32 \<Rightarrow> u64 \<Rightarrow> icao_filter \<Rightarrow> bool" where
  "retained a deadline f \<longleftrightarrow>
     a \<in> generation (active_table f) \<or> (a \<in> members f \<and> deadline \<le> next_flip f)"

lemma retained_members: "retained a d f \<Longrightarrow> a \<in> members f"
  by (auto simp: retained_def members_def active_table_def split: table_id.splits)

lemma retained_Add:
  assumes "filter_inv f" and "b \<noteq> EMPTY" and "icaoFilterAdd b f = Some f'" and "retained a d f"
  shows "retained a d f'"
  using icaoFilterAdd_cases [OF assms(1,2)] assms(3,4)
  by (cases "has_room b f") (auto simp: retained_def)

lemma retained_Expire:
  assumes "filter_inv f" and "retained a d f" and "now < d" and "d \<le> now + MODES_ICAO_FILTER_TTL"
  shows "retained a d (icaoFilterExpire now f)"
proof (cases "next_flip f \<le> now")
  case True
  with assms(2,3) have "a \<in> generation (active_table f)" by (auto simp: retained_def)
  then show ?thesis
    using True assms(4)
    by (auto simp: icaoFilterExpire_def retained_def members_def active_table_def split: table_id.splits)
next
  case False
  then show ?thesis using assms(2) by (simp add: icaoFilterExpire_def)
qed

lemma retained_run:
  assumes "filter_inv f" and "\<forall>x \<in> set xs. valid_op x" and "retained a d f"
    and "\<forall>now. ExpireOp now \<in> set xs \<longrightarrow> now < d \<and> d \<le> now + MODES_ICAO_FILTER_TTL"
    and "filter_run xs f = Some f'"
  shows "retained a d f'"
  using assms
proof (induction xs arbitrary: f)
  case (Cons x xs)
  from Cons.prems obtain f1 where f1: "filter_step x f = Some f1" "filter_inv f1" "filter_run xs f1 = Some f'"
    using filter_step_inv [of f x] by auto
  have "retained a d f1"
    using f1(1) Cons.prems by (cases x) (auto simp: valid_op_def intro: retained_Add retained_Expire)
  then show ?case using Cons.IH [OF f1(2)] Cons.prems f1(3) by auto
qed simp

subsection \<open>Properties\<close>

text \<open>
  Refinement of the two hash tables to a set: in a sound filter, \<open>icaoFilterTest\<close> ends and
  answers whether the address is in one of the two tables, and so an address just added (when
  there was room) is found, and the answer for every other address is unchanged.
\<close>

theorem icaoFilter_add_then_test:
  assumes "filter_inv f" and "a \<noteq> EMPTY" and "has_room a f"
  shows "\<exists>f'. icaoFilterAdd a f = Some f' \<and> filter_inv f' \<and> icaoFilterTest a f' = Some True \<and>
           (\<forall>b. icaoFilterTest b f' = (if b = a then Some True else icaoFilterTest b f) \<or> b = EMPTY)"
proof -
  obtain f' where f': "icaoFilterAdd a f = Some f'" "filter_inv f'"
    using icao.add_total [OF assms(1,2)] by blast
  then show ?thesis
    using icao.test_after_add [OF assms f'(1)] icao.test_other_after_add [OF assms(1,2) _ _ f'(1)]
    by auto
qed

theorem icaoFilter_add_then_test_witness:
  "filter_inv icaoFilterInit \<and>
   (\<exists>f'. icaoFilterAdd 0x4840D6 icaoFilterInit = Some f' \<and> icaoFilterTest 0x4840D6 f' = Some True)"
proof -
  have "has_room 0x4840D6 icaoFilterInit"
    by (simp add: has_room_def icaoFilterInit_def active_table_def ICAO_FILTER_SIZE_def)
  from icaoFilter_add_then_test [OF filter_inv_Init _ this] show ?thesis
    using filter_inv_Init by (auto simp: EMPTY_def)
qed

text \<open>
  C17. From the initial state, every sequence of additions, lookups and expiries ends: the probing
  loops terminate even when a table is full, no access leaves a table, and the invariant is kept that
  every stored address is reachable from its home slot.
\<close>

theorem icaoFilter_run_total:
  assumes "\<forall>x \<in> set xs. valid_op x"
  shows "\<exists>f. filter_run xs icaoFilterInit = Some f \<and> filter_inv f"
  by (rule filter_run_inv [OF filter_inv_Init assms])

theorem icaoFilter_run_total_witness:
  "\<exists>f. filter_run [AddOp 1, ExpireOp 5, TestOp 3, AddOp 2, ExpireOp 60005] icaoFilterInit = Some f \<and> filter_inv f"
  by (rule icaoFilter_run_total) (simp add: valid_op_def EMPTY_def)

text \<open>
  C18. An address stays known for the whole time to live: after it was added at time \<open>t\<close>,
  any sequence of additions of other addresses, of lookups and of expiries at times between \<open>t\<close> and
  \<open>t + 60000\<close> milliseconds (exclusive) leaves it known.
\<close>

theorem icaoFilter_retains_for_ttl:
  assumes "filter_inv f" and "a \<noteq> EMPTY" and "has_room a f" and "icaoFilterAdd a f = Some f1"
    and "\<forall>x \<in> set xs. valid_op x" and "unat t + 120000 < 2 ^ 64"
    and "\<forall>now. ExpireOp now \<in> set xs \<longrightarrow> t \<le> now \<and> now < t + MODES_ICAO_FILTER_TTL"
  shows "\<exists>f2. filter_run xs f1 = Some f2 \<and> icaoFilterTest a f2 = Some True"
proof -
  have inv1: "filter_inv f1" by (rule icao.add_inv [OF assms(1,2,4)])
  obtain f2 where f2: "filter_run xs f1 = Some f2" "filter_inv f2"
    using filter_run_inv [OF inv1 assms(5)] by blast
  have times: "now < t + MODES_ICAO_FILTER_TTL \<and> t + MODES_ICAO_FILTER_TTL \<le> now + MODES_ICAO_FILTER_TTL"
    if "ExpireOp now \<in> set xs" for now
  proof -
    have "t \<le> now" "now < t + MODES_ICAO_FILTER_TTL" using assms(7) that by auto
    moreover have "t + MODES_ICAO_FILTER_TTL \<le> now + MODES_ICAO_FILTER_TTL"
      using \<open>t \<le> now\<close> \<open>now < t + MODES_ICAO_FILTER_TTL\<close> assms(6)
      by (simp add: MODES_ICAO_FILTER_TTL_def word_le_nat_alt word_less_nat_alt unat_word_ariths)
    ultimately show ?thesis by simp
  qed
  have "a \<in> generation (active_table f1)"
    using icaoFilterAdd_cases [OF assms(1,2)] assms(3,4) by auto
  then have "retained a (t + MODES_ICAO_FILTER_TTL) f1" by (simp add: retained_def)
  then have "retained a (t + MODES_ICAO_FILTER_TTL) f2"
    using retained_run [OF inv1 assms(5) _ _ f2(1)] times by blast
  then show ?thesis
    using f2 icao.test_mem [OF f2(2) assms(2)] retained_members by auto
qed

theorem icaoFilter_retains_for_ttl_witness:
  "\<exists>f1 f2. icaoFilterAdd 7 icaoFilterInit = Some f1 \<and>
     filter_run [ExpireOp 1000, AddOp 8, ExpireOp 60999] f1 = Some f2 \<and> icaoFilterTest 7 f2 = Some True"
proof -
  have room: "has_room 7 icaoFilterInit"
    by (simp add: has_room_def icaoFilterInit_def active_table_def ICAO_FILTER_SIZE_def)
  have n: "(7 :: u32) \<noteq> EMPTY" by (simp add: EMPTY_def)
  obtain f1 where f1: "icaoFilterAdd 7 icaoFilterInit = Some f1"
    using icao.add_total [OF filter_inv_Init n] by blast
  have "\<exists>f2. filter_run [ExpireOp 1000, AddOp 8, ExpireOp 60999] f1 = Some f2 \<and> icaoFilterTest 7 f2 = Some True"
    by (rule icaoFilter_retains_for_ttl [OF filter_inv_Init n room f1, where t = 1000])
      (simp_all add: valid_op_def EMPTY_def MODES_ICAO_FILTER_TTL_def)
  with f1 show ?thesis by blast
qed

lemma icaoFilterAdd_shape:
  "icaoFilterAdd a f = Some f' \<Longrightarrow> f' = f \<or>
     (\<exists>h :: u32. f' = set_active_table ((active_table f)[unat h := a]) f \<and> active_table f ! unat h = EMPTY)"
  by (auto simp: icaoFilterAdd_def Let_def c_simps elim!: bind_eq_SomeE split: if_splits)

lemma filter_run_append: "filter_run (xs @ ys) g = filter_run xs g \<bind> filter_run ys"
proof (induction xs arbitrary: g)
  case (Cons x xs)
  then show ?case by (cases "filter_step x g") simp_all
qed simp

lemma adds_members:
  assumes "filter_inv f" and "\<forall>b \<in> set bs. b \<noteq> EMPTY \<and> b \<noteq> a"
    and "filter_run (map AddOp bs) f = Some f'"
  shows "filter_inv f' \<and> next_flip f' = next_flip f \<and> icao_filter_active f' = icao_filter_active f \<and>
           (a \<in> generation (active_table f') \<longleftrightarrow> a \<in> generation (active_table f)) \<and>
           (a \<in> members f' \<longrightarrow> a \<in> members f)"
  using assms
proof (induction bs arbitrary: f)
  case (Cons b bs)
  then obtain f1 where f1: "icaoFilterAdd b f = Some f1" "filter_run (map AddOp bs) f1 = Some f'"
    by (auto elim!: bind_eq_SomeE)
  have b: "b \<noteq> EMPTY" "b \<noteq> a" using Cons.prems(2) by auto
  from icaoFilterAdd_cases [OF Cons.prems(1) b(1)] f1(1)
  have c: "filter_inv f1" "next_flip f1 = next_flip f" "icao_filter_active f1 = icao_filter_active f"
    "members f1 = members f \<or> members f1 = insert b (members f)" by auto
  have other: "a \<in> generation (active_table f1) \<longleftrightarrow> a \<in> generation (active_table f)"
    using icaoFilterAdd_shape [OF f1(1)] b
    by (auto simp: generation_def dest: in_set_updateD intro: in_set_update_keep)
  show ?case using Cons.IH [OF c(1) _ f1(2)] Cons.prems(2) c other b by auto
qed simp

text \<open>
  An address that is not added again is forgotten: after two expiries that both flip the
  tables, with only other addresses added in between, the test is negative.
\<close>

theorem icaoFilter_forgets:
  assumes "filter_inv f" and "a \<noteq> EMPTY" and "next_flip f \<le> n1"
    and "\<forall>b \<in> set bs. b \<noteq> EMPTY \<and> b \<noteq> a"
    and "filter_run (ExpireOp n1 # map AddOp bs @ [ExpireOp n2]) f = Some f'"
    and "n1 + MODES_ICAO_FILTER_TTL \<le> n2"
  shows "icaoFilterTest a f' = Some False"
proof -
  let ?f1 = "icaoFilterExpire n1 f"
  from assms(5) obtain f2 where f2: "filter_run (map AddOp bs) ?f1 = Some f2" and f': "f' = icaoFilterExpire n2 f2"
    by (auto simp: filter_run_append elim!: bind_eq_SomeE)
  have inv1: "filter_inv ?f1" by (rule filter_inv_Expire [OF assms(1)])
  from adds_members [OF inv1 assms(4) f2]
  have c: "filter_inv f2" "next_flip f2 = n1 + MODES_ICAO_FILTER_TTL"
    "a \<in> generation (active_table f2) \<longleftrightarrow> a \<in> generation (active_table ?f1)"
    using assms(3) by (auto simp: icaoFilterExpire_def split: table_id.splits)
  have "a \<notin> generation (active_table ?f1)"
    using assms(3) by (auto simp: icaoFilterExpire_def active_table_def split: table_id.splits)
  then have "a \<notin> members f'"
    using c assms(6) by (auto simp: f' icaoFilterExpire_def members_def active_table_def split: table_id.splits)
  then show ?thesis
    using icao.test_mem [OF _ assms(2), of f'] filter_inv_Expire [OF c(1)] by (simp add: f')
qed

theorem icaoFilter_forgets_witness:
  "\<exists>f'. filter_run (ExpireOp 5 # map AddOp [9] @ [ExpireOp 60005]) icaoFilterInit = Some f' \<and>
        icaoFilterTest 7 f' = Some False"
proof -
  have "\<exists>f'. filter_run (ExpireOp 5 # map AddOp [9] @ [ExpireOp 60005]) icaoFilterInit = Some f' \<and> filter_inv f'"
    by (rule filter_run_inv [OF filter_inv_Init]) (simp add: valid_op_def EMPTY_def)
  then obtain f' where f': "filter_run (ExpireOp 5 # map AddOp [9] @ [ExpireOp 60005]) icaoFilterInit = Some f'"
    by blast
  have "icaoFilterTest 7 f' = Some False"
    by (rule icaoFilter_forgets [OF filter_inv_Init _ _ _ f'])
      (simp_all add: EMPTY_def icaoFilterInit_def MODES_ICAO_FILTER_TTL_def)
  with f' show ?thesis by blast
qed
end
