(* ===== verification/Types.thy ===== *)
theory Types
  imports Prelude Complex_Main
begin

text \<open>
  The data model of \<^verbatim>\<open>src/dump1090.h\<close>: its enumerations as datatypes and \<^verbatim>\<open>struct modesMessage\<close>
  as a record, with its nested structures as records of their own and the fields that come
  straight from the message bits grouped as \<^verbatim>\<open>mm_raw\<close>. One-bit fields are booleans,
  \<^verbatim>\<open>unsigned\<close> fields are 32-bit words, \<^verbatim>\<open>int\<close> fields are integers. A value of type \<^verbatim>\<open>float\<close>
  or \<^verbatim>\<open>double\<close> is the rational number it stands for.
\<close>

subsection \<open>Enumerations\<close>

datatype datasource_t =
    SOURCE_INVALID | SOURCE_MODE_AC | SOURCE_MLAT | SOURCE_MODE_S | SOURCE_MODE_S_CHECKED
  | SOURCE_TISB | SOURCE_ADSR | SOURCE_ADSB

text \<open>The numeric value of an enumerator; sources are compared by it.\<close>

fun source_rank :: "datasource_t \<Rightarrow> nat" where
  "source_rank SOURCE_INVALID = 0"
| "source_rank SOURCE_MODE_AC = 1"
| "source_rank SOURCE_MLAT = 2"
| "source_rank SOURCE_MODE_S = 3"
| "source_rank SOURCE_MODE_S_CHECKED = 4"
| "source_rank SOURCE_TISB = 5"
| "source_rank SOURCE_ADSR = 6"
| "source_rank SOURCE_ADSB = 7"

lemma source_rank_inj: "source_rank a = source_rank b \<Longrightarrow> a = b"
  by (cases a; cases b) simp_all

instantiation datasource_t :: linorder
begin

definition less_eq_datasource_t :: "datasource_t \<Rightarrow> datasource_t \<Rightarrow> bool" where
  "less_eq_datasource_t a b = (source_rank a \<le> source_rank b)"

definition less_datasource_t :: "datasource_t \<Rightarrow> datasource_t \<Rightarrow> bool" where
  "less_datasource_t a b = (source_rank a < source_rank b)"

instance
  by standard (auto simp: less_eq_datasource_t_def less_datasource_t_def intro: source_rank_inj)

end

datatype addrtype_t =
    ADDR_ADSB_ICAO | ADDR_ADSB_ICAO_NT | ADDR_ADSR_ICAO | ADDR_TISB_ICAO
  | ADDR_ADSB_OTHER | ADDR_ADSR_OTHER | ADDR_TISB_TRACKFILE | ADDR_TISB_OTHER
  | ADDR_MODE_A | ADDR_UNKNOWN

fun addrtype_rank :: "addrtype_t \<Rightarrow> nat" where
  "addrtype_rank ADDR_ADSB_ICAO = 0"
| "addrtype_rank ADDR_ADSB_ICAO_NT = 1"
| "addrtype_rank ADDR_ADSR_ICAO = 2"
| "addrtype_rank ADDR_TISB_ICAO = 3"
| "addrtype_rank ADDR_ADSB_OTHER = 4"
| "addrtype_rank ADDR_ADSR_OTHER = 5"
| "addrtype_rank ADDR_TISB_TRACKFILE = 6"
| "addrtype_rank ADDR_TISB_OTHER = 7"
| "addrtype_rank ADDR_MODE_A = 8"
| "addrtype_rank ADDR_UNKNOWN = 9"

datatype altitude_unit_t = UNIT_FEET | UNIT_METERS

datatype airground_t = AG_INVALID | AG_GROUND | AG_AIRBORNE | AG_UNCERTAIN

datatype sil_type_t = SIL_INVALID | SIL_UNKNOWN | SIL_PER_SAMPLE | SIL_PER_HOUR

datatype cpr_type_t = CPR_SURFACE | CPR_AIRBORNE | CPR_COARSE

datatype heading_type_t =
    HEADING_INVALID | HEADING_GROUND_TRACK | HEADING_TRUE | HEADING_MAGNETIC
  | HEADING_MAGNETIC_OR_TRUE | HEADING_TRACK_OR_HEADING

datatype commb_format_t =
    COMMB_UNKNOWN | COMMB_AMBIGUOUS | COMMB_NOT_DECODED | COMMB_EMPTY_RESPONSE
  | COMMB_DATALINK_CAPS | COMMB_GICB_CAPS | COMMB_AIRCRAFT_IDENT | COMMB_ACAS_RA
  | COMMB_VERTICAL_INTENT | COMMB_TRACK_TURN | COMMB_HEADING_SPEED | COMMB_MRAR
  | COMMB_AIRBORNE_POSITION

datatype emergency_t =
    EMERGENCY_NONE | EMERGENCY_GENERAL | EMERGENCY_LIFEGUARD | EMERGENCY_MINFUEL
  | EMERGENCY_NORDO | EMERGENCY_UNLAWFUL | EMERGENCY_DOWNED | EMERGENCY_RESERVED

datatype nav_altitude_source_t =
    NAV_ALT_INVALID | NAV_ALT_UNKNOWN | NAV_ALT_AIRCRAFT | NAV_ALT_MCP | NAV_ALT_FMS

datatype mrar_source_t =
    MRAR_SOURCE_INVALID | MRAR_SOURCE_INS | MRAR_SOURCE_GNSS | MRAR_SOURCE_DMEDME
  | MRAR_SOURCE_VORDME | MRAR_SOURCE_RESERVED

datatype hazard_t = HAZARD_NIL | HAZARD_LIGHT | HAZARD_MODERATE | HAZARD_SEVERE

text \<open>The flags of \<^verbatim>\<open>nav_modes_t\<close> are combined bitwise.\<close>

definition NAV_MODE_AUTOPILOT :: u32 where "NAV_MODE_AUTOPILOT = 1"
definition NAV_MODE_VNAV :: u32 where "NAV_MODE_VNAV = 2"
definition NAV_MODE_ALT_HOLD :: u32 where "NAV_MODE_ALT_HOLD = 4"
definition NAV_MODE_APPROACH :: u32 where "NAV_MODE_APPROACH = 8"
definition NAV_MODE_LNAV :: u32 where "NAV_MODE_LNAV = 16"
definition NAV_MODE_TCAS :: u32 where "NAV_MODE_TCAS = 32"

definition INVALID_ALTITUDE :: int where "INVALID_ALTITUDE = -9999"

definition MODES_NON_ICAO_ADDRESS :: u32 where "MODES_NON_ICAO_ADDRESS = push_bit 24 1"

definition MODES_LONG_MSG_BYTES :: nat where "MODES_LONG_MSG_BYTES = 14"

subsection \<open>struct modesMessage\<close>

record mm_raw =
  IID :: u32
  AA :: u32
  AC :: u32
  CA :: u32
  CC :: u32
  CF :: u32
  DR :: u32
  FS :: u32
  ID :: u32
  KE :: u32
  ND :: u32
  RI :: u32
  SL :: u32
  UM :: u32
  VS :: u32
  MB :: "u8 list"
  MD :: "u8 list"
  ME :: "u8 list"
  MV :: "u8 list"

record mm_gs =
  gs_v0 :: rat
  gs_v2 :: rat
  gs_selected :: rat

record mm_accuracy =
  nic_a_valid :: bool
  nic_b_valid :: bool
  nic_c_valid :: bool
  nic_baro_valid :: bool
  nac_p_valid :: bool
  nac_v_valid :: bool
  gva_valid :: bool
  sda_valid :: bool
  nic_a :: u32
  nic_b :: u32
  nic_c :: u32
  nic_baro :: u32
  nac_p :: u32
  nac_v :: u32
  sil :: u32
  sil_type :: sil_type_t
  gva :: u32
  sda :: u32

record mm_opstatus =
  op_valid :: bool
  op_version :: u32
  om_acas_ra :: u32
  om_ident :: u32
  om_atc :: u32
  om_saf :: u32
  cc_acas :: u32
  cc_cdti :: u32
  cc_1090_in :: u32
  cc_arv :: u32
  cc_ts :: u32
  cc_tc :: u32
  cc_uat_in :: u32
  cc_poa :: u32
  cc_b2_low :: u32
  cc_lw_valid :: u32
  op_tah :: heading_type_t
  op_hrd :: heading_type_t
  cc_lw :: u32
  cc_antenna_offset :: u32

record mm_nav =
  nav_heading_valid :: bool
  fms_altitude_valid :: bool
  mcp_altitude_valid :: bool
  qnh_valid :: bool
  nav_modes_valid :: bool
  nav_heading :: rat
  nav_heading_type :: heading_type_t
  fms_altitude :: u32
  mcp_altitude :: u32
  qnh :: rat
  altitude_source :: nav_altitude_source_t
  nav_modes :: u32

record modesMessage =
  msg :: "u8 list"
  verbatim :: "u8 list"
  msgbits :: int
  msgtype :: int
  crc :: u32
  correctedbits :: int
  addr :: u32
  addrtype :: addrtype_t
  timestampMsg :: u64
  sysTimestampMsg :: u64
  remote :: bool
  signalLevel :: rat
  score :: int
  reliable :: bool
  source :: datasource_t
  raw :: mm_raw
  altitude_baro_valid :: bool
  altitude_geom_valid :: bool
  track_valid :: bool
  track_rate_valid :: bool
  heading_valid :: bool
  roll_valid :: bool
  gs_valid :: bool
  ias_valid :: bool
  tas_valid :: bool
  mach_valid :: bool
  baro_rate_valid :: bool
  geom_rate_valid :: bool
  squawk_valid :: bool
  callsign_valid :: bool
  cpr_valid :: bool
  cpr_odd :: bool
  cpr_decoded :: bool
  cpr_relative :: bool
  category_valid :: bool
  geom_delta_valid :: bool
  from_mlat :: bool
  from_tisb :: bool
  spi_valid :: bool
  spi :: bool
  alert_valid :: bool
  alert :: bool
  emergency_valid :: bool
  metype :: u32
  mesub :: u32
  commb_format :: commb_format_t
  altitude_baro :: int
  altitude_baro_unit :: altitude_unit_t
  altitude_geom :: int
  altitude_geom_unit :: altitude_unit_t
  geom_delta :: int
  heading :: rat
  heading_type :: heading_type_t
  track_rate :: rat
  roll :: rat
  gs :: mm_gs
  ias :: u32
  tas :: u32
  mach :: rat
  baro_rate :: int
  geom_rate :: int
  squawk :: u32
  callsign :: "u8 list"
  category :: u32
  emergency :: emergency_t
  cpr_type :: cpr_type_t
  cpr_lat :: u32
  cpr_lon :: u32
  cpr_nucp :: u32
  airground :: airground_t
  decoded_lat :: rat
  decoded_lon :: rat
  decoded_nic :: u32
  decoded_rc :: u32
  accuracy :: mm_accuracy
  opstatus :: mm_opstatus
  nav :: mm_nav
  mrar_source_valid :: bool
  wind_valid :: bool
  temperature_valid :: bool
  pressure_valid :: bool
  turbulence_valid :: bool
  humidity_valid :: bool
  mrar_source :: mrar_source_t
  wind_speed :: rat
  wind_dir :: rat
  temperature :: rat
  pressure :: rat
  turbulence :: hazard_t
  humidity :: rat

text \<open>A message all of whose bytes are zero: \<^verbatim>\<open>static struct modesMessage zeroMessage\<close>.\<close>

definition zero_raw :: mm_raw where
  "zero_raw = \<lparr>IID = 0, AA = 0, AC = 0, CA = 0, CC = 0, CF = 0, DR = 0, FS = 0, ID = 0, KE = 0, ND = 0,
     RI = 0, SL = 0, UM = 0, VS = 0, MB = replicate 7 0, MD = replicate 10 0, ME = replicate 7 0,
     MV = replicate 7 0\<rparr>"

definition zero_accuracy :: mm_accuracy where
  "zero_accuracy = \<lparr>nic_a_valid = False, nic_b_valid = False, nic_c_valid = False,
     nic_baro_valid = False, nac_p_valid = False, nac_v_valid = False, gva_valid = False,
     sda_valid = False, nic_a = 0, nic_b = 0, nic_c = 0, nic_baro = 0, nac_p = 0, nac_v = 0, sil = 0,
     sil_type = SIL_INVALID, gva = 0, sda = 0\<rparr>"

definition zero_opstatus :: mm_opstatus where
  "zero_opstatus = \<lparr>op_valid = False, op_version = 0, om_acas_ra = 0, om_ident = 0, om_atc = 0, om_saf = 0,
     cc_acas = 0, cc_cdti = 0, cc_1090_in = 0, cc_arv = 0, cc_ts = 0, cc_tc = 0, cc_uat_in = 0, cc_poa = 0,
     cc_b2_low = 0, cc_lw_valid = 0, op_tah = HEADING_INVALID, op_hrd = HEADING_INVALID, cc_lw = 0,
     cc_antenna_offset = 0\<rparr>"

definition zero_nav :: mm_nav where
  "zero_nav = \<lparr>nav_heading_valid = False, fms_altitude_valid = False, mcp_altitude_valid = False,
     qnh_valid = False, nav_modes_valid = False, nav_heading = 0, nav_heading_type = HEADING_INVALID,
     fms_altitude = 0, mcp_altitude = 0, qnh = 0, altitude_source = NAV_ALT_INVALID, nav_modes = 0\<rparr>"

definition zeroMessage :: modesMessage where
  "zeroMessage = \<lparr>msg = replicate MODES_LONG_MSG_BYTES 0, verbatim = replicate MODES_LONG_MSG_BYTES 0,
     msgbits = 0, msgtype = 0, crc = 0, correctedbits = 0, addr = 0, addrtype = ADDR_ADSB_ICAO,
     timestampMsg = 0, sysTimestampMsg = 0, remote = False, signalLevel = 0, score = 0, reliable = False,
     source = SOURCE_INVALID, raw = zero_raw, altitude_baro_valid = False, altitude_geom_valid = False,
     track_valid = False, track_rate_valid = False, heading_valid = False, roll_valid = False,
     gs_valid = False, ias_valid = False, tas_valid = False, mach_valid = False, baro_rate_valid = False,
     geom_rate_valid = False, squawk_valid = False, callsign_valid = False, cpr_valid = False,
     cpr_odd = False, cpr_decoded = False, cpr_relative = False, category_valid = False,
     geom_delta_valid = False, from_mlat = False, from_tisb = False, spi_valid = False, spi = False,
     alert_valid = False, alert = False, emergency_valid = False, metype = 0, mesub = 0,
     commb_format = COMMB_UNKNOWN, altitude_baro = 0, altitude_baro_unit = UNIT_FEET, altitude_geom = 0,
     altitude_geom_unit = UNIT_FEET, geom_delta = 0, heading = 0, heading_type = HEADING_INVALID,
     track_rate = 0, roll = 0, gs = \<lparr>gs_v0 = 0, gs_v2 = 0, gs_selected = 0\<rparr>, ias = 0, tas = 0, mach = 0,
     baro_rate = 0, geom_rate = 0, squawk = 0, callsign = replicate 9 0, category = 0,
     emergency = EMERGENCY_NONE, cpr_type = CPR_SURFACE, cpr_lat = 0, cpr_lon = 0, cpr_nucp = 0,
     airground = AG_INVALID, decoded_lat = 0, decoded_lon = 0, decoded_nic = 0, decoded_rc = 0,
     accuracy = zero_accuracy, opstatus = zero_opstatus, nav = zero_nav, mrar_source_valid = False,
     wind_valid = False, temperature_valid = False, pressure_valid = False, turbulence_valid = False,
     humidity_valid = False, mrar_source = MRAR_SOURCE_INVALID, wind_speed = 0, wind_dir = 0,
     temperature = 0, pressure = 0, turbulence = HAZARD_NIL, humidity = 0\<rparr>"

end
