(* ===== verification/Fp.thy ===== *)
theory Fp
  imports Prelude Complex_Main "HOL-Library.Log_Nat"
begin

text \<open>
  IEEE 754 binary floating point as the C code uses it: a \<^verbatim>\<open>float\<close> or \<^verbatim>\<open>double\<close> is the rational it
  stands for, every arithmetic operation is the exact operation followed by rounding to nearest,
  ties to even (\<open>f32\<close>, \<open>f64\<close>), and a cast is a rounding. The range of the exponent is not
  bounded: infinities, NaNs, subnormal numbers and the sign of zero are outside the model. The
  lemmas are the three facts the components need: a representable number rounds to itself,
  rounding is monotone, and rounding stays within half a unit in the last place.
\<close>

definition ilog2 :: "rat \<Rightarrow> int" where
  "ilog2 x = (let (n, d) = quotient_of x; e = bitlen n - bitlen d
     in if 2 powi e \<le> x then e else e - 1)"

definition round_even :: "rat \<Rightarrow> int" where
  "round_even x = (let f = \<lfloor>x\<rfloor>; r = x - of_int f
     in if r < 1 / 2 then f else if r > 1 / 2 then f + 1 else if even f then f else f + 1)"

definition ulp :: "nat \<Rightarrow> rat \<Rightarrow> rat" where
  "ulp p x = 2 powi (ilog2 \<bar>x\<bar> + 1 - int p)"

definition fround :: "nat \<Rightarrow> rat \<Rightarrow> rat" where
  "fround p x = (if x = 0 then 0 else of_int (round_even (x / ulp p x)) * ulp p x)"

definition f32 :: "rat \<Rightarrow> rat" where "f32 = fround 24"
definition f64 :: "rat \<Rightarrow> rat" where "f64 = fround 53"

definition fits :: "nat \<Rightarrow> rat \<Rightarrow> bool" where
  "fits p x \<longleftrightarrow> (\<exists>m k. x = of_int m * 2 powi k \<and> \<bar>m\<bar> < 2 ^ p)"

subsection \<open>The exponent\<close>

lemma ilog2_bounds:
  assumes "0 < x"
  shows "2 powi ilog2 x \<le> x" "x < 2 powi (ilog2 x + 1)"
proof -
  obtain n d where q: "quotient_of x = (n, d)" by force
  have d: "0 < d" and x: "x = of_int n / of_int d"
    using quotient_of_denom_pos [OF q] quotient_of_div [OF q] by auto
  have n: "0 < n" using assms x d by (simp add: zero_less_divide_iff)
  have bn: "2 ^ nat (bitlen n - 1) \<le> n" "n < 2 ^ nat (bitlen n)" and
    bd: "2 ^ nat (bitlen d - 1) \<le> d" "d < 2 ^ nat (bitlen d)"
    using bitlen_bounds [OF n] bitlen_bounds [OF d] by auto
  have pos: "bitlen n > 0" "bitlen d > 0" using n d by (simp_all add: bitlen_eq_zero_iff bitlen_nonneg order.strict_iff_order)
  have P: "of_int (2 ^ nat k) = (2 powi k :: rat)" if "0 \<le> k" for k
    using that by (simp add: power_int_def)
  have N: "2 powi (bitlen n - 1) \<le> (of_int n :: rat)" "(of_int n :: rat) < 2 powi bitlen n"
    using bn pos P [of "bitlen n - 1"] P [of "bitlen n"] by (metis of_int_le_iff of_int_less_iff
        diff_ge_0_iff_ge int_one_le_iff_zero_less less_imp_le)+
  have D: "2 powi (bitlen d - 1) \<le> (of_int d :: rat)" "(of_int d :: rat) < 2 powi bitlen d"
    using bd pos P [of "bitlen d - 1"] P [of "bitlen d"] by (metis of_int_le_iff of_int_less_iff
        diff_ge_0_iff_ge int_one_le_iff_zero_less less_imp_le)+
  define e where "e = bitlen n - bitlen d"
  have up: "x < 2 powi (e + 1)"
  proof -
    have "x < 2 powi bitlen n / 2 powi (bitlen d - 1)"
      unfolding x using N(2) D(1) d n by (intro frac_less) auto
    also have "\<dots> = 2 powi (e + 1)" by (simp add: e_def algebra_simps flip: power_int_diff)
    finally show ?thesis .
  qed
  have lo: "2 powi (e - 1) \<le> x"
  proof -
    have "2 powi (e - 1) = 2 powi (bitlen n - 1) / (2 powi bitlen d :: rat)"
      by (simp add: e_def algebra_simps flip: power_int_diff)
    also have "\<dots> \<le> x"
      unfolding x using N(1) D(2) d n by (intro frac_le) auto
    finally show ?thesis .
  qed
  have i: "ilog2 x = (if 2 powi e \<le> x then e else e - 1)"
    by (simp add: ilog2_def q e_def)
  show "2 powi ilog2 x \<le> x" "x < 2 powi (ilog2 x + 1)"
    using up lo by (auto simp: i)
qed

lemma ilog2_mono: "0 < x \<Longrightarrow> x \<le> y \<Longrightarrow> ilog2 x \<le> ilog2 y"
proof (rule ccontr)
  assume x: "0 < x" "x \<le> y" and "\<not> ilog2 x \<le> ilog2 y"
  then have "ilog2 y + 1 \<le> ilog2 x" by simp
  then have "(2 :: rat) powi (ilog2 y + 1) \<le> 2 powi ilog2 x" by (intro power_int_increasing) auto
  then show False using ilog2_bounds [of x] ilog2_bounds [of y] x by linarith
qed

subsection \<open>Rounding\<close>

lemma round_even_of_int [simp]: "round_even (of_int n) = n"
  by (simp add: round_even_def)

lemma round_even_mono: "x \<le> y \<Longrightarrow> round_even x \<le> round_even y"
proof -
  assume xy: "x \<le> y"
  have f: "\<lfloor>x\<rfloor> \<le> \<lfloor>y\<rfloor>" using xy by (rule floor_mono)
  show ?thesis
  proof (cases "\<lfloor>x\<rfloor> = \<lfloor>y\<rfloor>")
    case True
    then show ?thesis using xy by (auto simp: round_even_def Let_def)
  next
    case False
    then have "\<lfloor>x\<rfloor> + 1 \<le> \<lfloor>y\<rfloor>" using f by simp
    then show ?thesis by (auto simp: round_even_def Let_def)
  qed
qed

lemma round_even_error: "\<bar>of_int (round_even x) - x\<bar> \<le> 1 / 2"
  unfolding round_even_def Let_def by (auto simp: abs_if; linarith)

lemma round_even_minus: "round_even (- x) = - round_even x"
proof (cases "x = of_int \<lfloor>x\<rfloor>")
  case True
  then show ?thesis by (metis of_int_minus round_even_of_int)
next
  case False
  then have "\<lfloor>- x\<rfloor> = - \<lfloor>x\<rfloor> - 1"
    by (simp add: floor_minus ceiling_altdef)
  then show ?thesis
    using False unfolding round_even_def Let_def by (auto; linarith)
qed

lemma ulp_pos [simp]: "0 < ulp p x"
  by (simp add: ulp_def)

lemma ulp_nonzero [simp]: "ulp p x \<noteq> 0"
  by (rule less_imp_neq [OF ulp_pos, symmetric])

lemma fround_0 [simp]: "fround p 0 = 0"
  by (simp add: fround_def)

lemma fround_minus: "fround p (- x) = - fround p x"
  by (simp add: fround_def ulp_def round_even_minus)

lemma fround_error: "\<bar>fround p x - x\<bar> \<le> ulp p x / 2"
proof (cases "x = 0")
  case False
  have "fround p x - x = (of_int (round_even (x / ulp p x)) - x / ulp p x) * ulp p x"
    using False by (simp add: fround_def algebra_simps)
  then show ?thesis
    using mult_right_mono [OF round_even_error [of "x / ulp p x"], of "ulp p x"]
    by (simp add: abs_mult less_imp_le)
qed (simp add: less_imp_le)

lemma fround_exact:
  assumes "fits p x"
  shows "fround p x = x"
proof (cases "x = 0")
  case False
  obtain m k where x: "x = of_int m * 2 powi k" and m: "\<bar>m\<bar> < 2 ^ p"
    using assms by (auto simp: fits_def)
  let ?e = "ilog2 \<bar>x\<bar>"
  have "(2 :: rat) powi ?e \<le> \<bar>x\<bar>" using ilog2_bounds(1) [of "\<bar>x\<bar>"] False by simp
  also have "\<bar>x\<bar> = of_int \<bar>m\<bar> * 2 powi k" by (simp add: x abs_mult)
  also have "\<dots> < of_int (2 ^ p) * 2 powi k" using m by (intro mult_strict_right_mono) (simp_all only: of_int_less_iff, simp)
  also have "\<dots> = 2 powi (int p + k)" by (simp add: power_int_add)
  finally have "(2 :: rat) powi ?e < 2 powi (int p + k)" .
  then have "?e < int p + k"
    by (meson leI leD one_le_numeral power_int_increasing)
  then have z: "0 \<le> k - (?e + 1 - int p)" by simp
  have "x / ulp p x = of_int m * 2 powi (k - (?e + 1 - int p))"
    unfolding ulp_def by (simp add: x power_int_diff)
  also have "\<dots> = of_int (m * 2 ^ nat (k - (?e + 1 - int p)))"
    using z by (simp add: power_int_def)
  finally have "of_int (round_even (x / ulp p x)) = x / ulp p x"
    by (metis round_even_of_int)
  then show ?thesis using False by (simp add: fround_def)
qed simp

lemma fround_pos_bounds:
  assumes "0 < x" "1 \<le> p"
  shows "2 powi ilog2 x \<le> fround p x" "fround p x \<le> 2 powi (ilog2 x + 1)"
proof -
  let ?e = "ilog2 x"
  have u: "ulp p x = 2 powi (?e + 1 - int p)" using assms by (simp add: ulp_def)
  have lo: "2 powi ?e = of_int (2 ^ (p - 1)) * ulp p x"
    unfolding u using assms(2) by (simp add: of_nat_diff power_int_diff power_int_add flip: power_int_of_nat)
  have hi: "2 powi (?e + 1) = of_int (2 ^ p) * ulp p x"
    unfolding u by (simp add: power_int_diff power_int_add)
  have "of_int (2 ^ (p - 1)) \<le> x / ulp p x" "x / ulp p x \<le> of_int (2 ^ p)"
    using ilog2_bounds [OF assms(1)] lo hi by (simp_all add: pos_le_divide_eq pos_divide_le_eq)
  then have "2 ^ (p - 1) \<le> round_even (x / ulp p x)" "round_even (x / ulp p x) \<le> 2 ^ p"
    by (metis round_even_mono round_even_of_int)+
  then have r: "of_int (2 ^ (p - 1)) \<le> (of_int (round_even (x / ulp p x)) :: rat)"
    "(of_int (round_even (x / ulp p x)) :: rat) \<le> of_int (2 ^ p)"
    by (simp_all only: of_int_le_iff)
  have f: "fround p x = of_int (round_even (x / ulp p x)) * ulp p x"
    using assms(1) by (simp add: fround_def)
  show "2 powi ?e \<le> fround p x" "fround p x \<le> 2 powi (?e + 1)"
    unfolding lo hi f by (rule mult_right_mono [OF r(1)], simp add: less_imp_le)
      (rule mult_right_mono [OF r(2)], simp add: less_imp_le)
qed

lemma fround_nonneg: "0 \<le> x \<Longrightarrow> 0 \<le> fround p x"
  using round_even_mono [of 0 "x / ulp p x"] round_even_of_int [of 0]
  by (simp add: fround_def less_imp_le)

lemma fround_mono_pos:
  assumes "0 < x" "x \<le> y" "1 \<le> p"
  shows "fround p x \<le> fround p y"
proof (cases "ilog2 x = ilog2 y")
  case True
  then have "ulp p x = ulp p y" using assms by (simp add: ulp_def)
  moreover have "round_even (x / ulp p y) \<le> round_even (y / ulp p y)"
    using assms by (intro round_even_mono divide_right_mono) (simp_all add: less_imp_le)
  ultimately show ?thesis using assms by (simp add: fround_def mult_right_mono less_imp_le)
next
  case False
  then have "ilog2 x + 1 \<le> ilog2 y" using ilog2_mono [of x y] assms by simp
  then have "(2 :: rat) powi (ilog2 x + 1) \<le> 2 powi ilog2 y" by (intro power_int_increasing) auto
  then show ?thesis using fround_pos_bounds [of x p] fround_pos_bounds [of y p] assms by simp
qed

lemma fround_mono:
  assumes "x \<le> y" "1 \<le> p"
  shows "fround p x \<le> fround p y"
proof -
  consider "0 < x" | "x \<le> 0" "0 \<le> y" | "y < 0" using assms by linarith
  then show ?thesis
  proof cases
    case 1
    then show ?thesis using fround_mono_pos assms by blast
  next
    case 2
    then show ?thesis
      using fround_nonneg [of y p] fround_nonneg [of "- x" p] by (simp add: fround_minus)
  next
    case 3
    then show ?thesis
      using fround_mono_pos [of "- y" "- x" p] assms by (simp add: fround_minus)
  qed
qed

text \<open>What the components use.\<close>

lemma f64_exact: "fits 53 x \<Longrightarrow> f64 x = x"
  by (simp add: f64_def fround_exact)

lemma f32_exact: "fits 24 x \<Longrightarrow> f32 x = x"
  by (simp add: f32_def fround_exact)

lemma f64_0 [simp]: "f64 0 = 0" and f32_0 [simp]: "f32 0 = 0"
  by (simp_all add: f64_def f32_def)

lemma f64_mono: "x \<le> y \<Longrightarrow> f64 x \<le> f64 y"
  by (simp add: f64_def fround_mono)

lemma f32_mono: "x \<le> y \<Longrightarrow> f32 x \<le> f32 y"
  by (simp add: f32_def fround_mono)

lemma fits_of_int: "\<bar>m\<bar> < 2 ^ p \<Longrightarrow> fits p (of_int m)"
  unfolding fits_def by (rule exI [of _ m], rule exI [of _ 0]) simp

lemma fits_scaled: "\<bar>m\<bar> < 2 ^ p \<Longrightarrow> fits p (of_int m / 2 ^ k)"
  unfolding fits_def by (rule exI [of _ m], rule exI [of _ "- int k"]) (simp add: power_int_minus field_simps)

lemma f64_of_int: "\<bar>m\<bar> < 2 ^ 53 \<Longrightarrow> f64 (of_int m) = of_int m"
  by (simp add: f64_exact fits_of_int)

lemma f64_numeral: "numeral k < (2 ^ 53 :: int) \<Longrightarrow> f64 (numeral k) = numeral k"
  using f64_of_int [of "numeral k"] by simp

lemma f64_le: "x \<le> c \<Longrightarrow> f64 c = c \<Longrightarrow> f64 x \<le> c"
  using f64_mono [of x c] by simp

lemma f64_ge: "c \<le> x \<Longrightarrow> f64 c = c \<Longrightarrow> c \<le> f64 x"
  using f64_mono [of c x] by simp

end
