(* ===== verification/Bits.thy ===== *)
theory Bits
  imports Prelude
begin

text \<open>
  The bit-field extraction of \<^verbatim>\<open>src/mode_s.h\<close>. Bits are numbered from 1, the most significant bit
  of the first byte. \<open>getbits_checked\<close> is the function with its assertions and array bounds,
  \<open>getbits\<close> the value it computes where they hold; the decoders call it at constant positions
  inside buffers of fixed length, where the two agree (\<open>getbits_checked_eq\<close>).
\<close>

definition byte :: "u8 list \<Rightarrow> nat \<Rightarrow> u32" where
  "byte data i = ucast (data ! i)"

definition getbit :: "u8 list \<Rightarrow> nat \<Rightarrow> bool" where
  "getbit data bitnum =
     (let bi = bitnum - 1; by' = bi div 8; mask = push_bit (7 - bi mod 8) 1
      in byte data by' AND mask \<noteq> 0)"

definition getbits :: "u8 list \<Rightarrow> nat \<Rightarrow> nat \<Rightarrow> u32" where
  "getbits data firstbit lastbit =
     (let fbi = firstbit - 1; lbi = lastbit - 1;
          fby = fbi div 8; lby = lbi div 8; nby = (lby - fby) + 1;
          shift = 7 - lbi mod 8; topmask = drop_bit (fbi mod 8) 0xFF;
          top = byte data fby AND topmask
      in if nby = 5 then
           push_bit (32 - shift) top OR push_bit (24 - shift) (byte data (fby + 1))
           OR push_bit (16 - shift) (byte data (fby + 2)) OR push_bit (8 - shift) (byte data (fby + 3))
           OR drop_bit shift (byte data (fby + 4))
         else if nby = 4 then
           push_bit (24 - shift) top OR push_bit (16 - shift) (byte data (fby + 1))
           OR push_bit (8 - shift) (byte data (fby + 2)) OR drop_bit shift (byte data (fby + 3))
         else if nby = 3 then
           push_bit (16 - shift) top OR push_bit (8 - shift) (byte data (fby + 1))
           OR drop_bit shift (byte data (fby + 2))
         else if nby = 2 then
           push_bit (8 - shift) top OR drop_bit shift (byte data (fby + 1))
         else if nby = 1 then drop_bit shift top
         else 0)"

definition getbits_checked :: "u8 list \<Rightarrow> nat \<Rightarrow> nat \<Rightarrow> u32 option" where
  "getbits_checked data firstbit lastbit = do {
     c_assert (firstbit - 1 \<le> lastbit - 1);
     c_assert (lastbit - firstbit + 1 \<le> 32);
     c_assert ((lastbit - 1) div 8 - (firstbit - 1) div 8 + 1 \<le> 5);
     c_assert ((lastbit - 1) div 8 < length data);
     Some (getbits data firstbit lastbit) }"

lemma getbits_checked_eq:
  assumes "1 \<le> f" "f \<le> l" "l < f + 32" "l \<le> 8 * length data"
  shows "getbits_checked data f l = Some (getbits data f l)"
proof -
  have "(l - 1) div 8 - (f - 1) div 8 + 1 \<le> 5" "(l - 1) div 8 < length data"
    using assms by (auto; linarith)+
  moreover have "f - 1 \<le> l - 1" "l - f + 1 \<le> 32" using assms by linarith+
  ultimately show ?thesis by (simp add: getbits_checked_def c_simps)
qed

definition msg_bit :: "u8 list \<Rightarrow> nat \<Rightarrow> bool" where
  "msg_bit data i = bit (data ! ((i - 1) div 8)) (7 - (i - 1) mod 8)"

lemma bit_byte: "bit (byte data i) n \<longleftrightarrow> bit (data ! i) n"
  by (auto simp: byte_def bit_ucast_iff dest: bit_imp_le_length)

lemma bit_u8_less: "bit (b :: u8) n \<Longrightarrow> n < 8"
  using bit_imp_le_length [of b n] by simp

lemma getbit_msg_bit: "getbit data i = msg_bit data i"
proof -
  have "byte data j AND push_bit k 1 \<noteq> 0 \<longleftrightarrow> bit (data ! j) k" if "k < 32" for j k
    using that by (simp add: push_bit_of_1 and_exp_eq_0_iff_not_bit bit_byte)
  then show ?thesis by (simp add: getbit_def msg_bit_def Let_def)
qed

lemma bit_push_part:
  assumes "1 \<le> i" "s \<le> 7" "n + s = 8 * q + j" "j < 8"
  shows "bit (push_bit (8 * i - s) (w :: u32)) n \<longleftrightarrow> n < 32 \<and> i \<le> q \<and> bit w (8 * (q - i) + j)"
proof -
  have "8 * i - s \<le> n \<longleftrightarrow> i \<le> q" using assms by linarith
  moreover have "i \<le> q \<Longrightarrow> n - (8 * i - s) = 8 * (q - i) + j" using assms by linarith
  ultimately show ?thesis by (auto simp: bit_push_bit_iff)
qed

lemma bit_byte_part: "j < 8 \<Longrightarrow> bit (byte data k) (8 * (q - i) + j) \<longleftrightarrow> q \<le> i \<and> bit (data ! k) j"
  using bit_u8_less [of "data ! k" "8 * (q - i) + j"] by (auto simp: bit_byte)

lemma bit_top_part:
  "j < 8 \<Longrightarrow> a < 8 \<Longrightarrow> bit (byte data k AND drop_bit a 0xFF) (8 * (q - i) + j)
     \<longleftrightarrow> q \<le> i \<and> j + a < 8 \<and> bit (data ! k) j"
proof -
  assume j: "j < 8" "a < 8"
  have ff: "bit (0xFF :: u32) n \<longleftrightarrow> n < 8" for n
  proof -
    have "bit (mask 8 :: u32) n \<longleftrightarrow> n < 8" by (auto simp: bit_mask_iff)
    then show ?thesis by (simp add: mask_eq_exp_minus_1)
  qed
  have "bit (drop_bit a (0xFF :: u32)) n \<longleftrightarrow> n + a < 8" for n
    unfolding bit_drop_bit_eq o_def ff by linarith
  then show ?thesis unfolding bit_and_iff bit_byte_part [OF j(1)] using j by (cases "q \<le> i"; simp; blast)
qed

theorem bit_getbits:
  assumes f: "1 \<le> f" "f \<le> l" "l < f + 32"
  shows "bit (getbits data f l) n \<longleftrightarrow> n \<le> l - f \<and> msg_bit data (l - n)"
proof -
  define a s q j where "a = (f - 1) mod 8" and "s = 7 - (l - 1) mod 8"
    and "q = (n + s) div 8" and "j = (n + s) mod 8"
  define fby lby where "fby = (f - 1) div 8" and "lby = (l - 1) div 8"
  have r: "a < 8" "s \<le> 7" "j < 8" "n + s = 8 * q + j"
    by (auto simp: a_def s_def q_def j_def)
  have fl: "f - 1 = 8 * fby + a" "l - 1 = 8 * lby + (7 - s)"
    by (auto simp: fby_def lby_def a_def s_def)
  have le: "fby \<le> lby" "lby \<le> fby + 4"
    using f unfolding fby_def lby_def by linarith+
  define d where "d = lby - fby"
  have d: "lby = fby + d" "d \<le> 4" using le by (auto simp: d_def)
  have nr: "n \<le> l - f \<longleftrightarrow> q < d \<or> q = d \<and> j + a < 8"
    using f r fl d by linarith
  have n32: "n \<le> l - f \<Longrightarrow> n < 32" using f by linarith
  have mb: "msg_bit data (l - n) = bit (data ! (lby - q)) j" if "n \<le> l - f"
  proof -
    have "q \<le> d" using that nr by auto
    then have e: "l - n - 1 = 8 * (lby - q) + (7 - j)" using that f r fl d by linarith
    have "(8 * (lby - q) + (7 - j)) div 8 = lby - q" "(8 * (lby - q) + (7 - j)) mod 8 = 7 - j"
      by simp_all
    then show ?thesis unfolding msg_bit_def e using r by simp
  qed
  have dr: "bit (drop_bit s w) n \<longleftrightarrow> bit w (8 * (q - 0) + j)" for w :: u32
    using r by (simp add: bit_drop_bit_eq add.commute)
  have psh: "bit (push_bit (8 - s) w) n \<longleftrightarrow> n < 32 \<and> 1 \<le> q \<and> bit w (8 * (q - 1) + j)"
    "bit (push_bit (16 - s) w) n \<longleftrightarrow> n < 32 \<and> 2 \<le> q \<and> bit w (8 * (q - 2) + j)"
    "bit (push_bit (24 - s) w) n \<longleftrightarrow> n < 32 \<and> 3 \<le> q \<and> bit w (8 * (q - 3) + j)"
    "bit (push_bit (32 - s) w) n \<longleftrightarrow> n < 32 \<and> 4 \<le> q \<and> bit w (8 * (q - 4) + j)" for w :: u32
    using bit_push_part [OF _ r(2,4,3), of 1 w] bit_push_part [OF _ r(2,4,3), of 2 w]
      bit_push_part [OF _ r(2,4,3), of 3 w] bit_push_part [OF _ r(2,4,3), of 4 w] by simp_all
  have nby: "d + 1 = 5 \<longleftrightarrow> d = 4" "d + 1 = 4 \<longleftrightarrow> d = 3" "d + 1 = 3 \<longleftrightarrow> d = 2"
    "d + 1 = 2 \<longleftrightarrow> d = 1" "d + 1 = 1 \<longleftrightarrow> d = 0" by auto
  let ?top = "byte data fby AND drop_bit a 0xFF"
  have G: "getbits data f l =
      (if d = 4 then
           push_bit (32 - s) ?top OR push_bit (24 - s) (byte data (fby + 1))
           OR push_bit (16 - s) (byte data (fby + 2)) OR push_bit (8 - s) (byte data (fby + 3))
           OR drop_bit s (byte data (fby + 4))
         else if d = 3 then
           push_bit (24 - s) ?top OR push_bit (16 - s) (byte data (fby + 1))
           OR push_bit (8 - s) (byte data (fby + 2)) OR drop_bit s (byte data (fby + 3))
         else if d = 2 then
           push_bit (16 - s) ?top OR push_bit (8 - s) (byte data (fby + 1))
           OR drop_bit s (byte data (fby + 2))
         else if d = 1 then
           push_bit (8 - s) ?top OR drop_bit s (byte data (fby + 1))
         else if d = 0 then drop_bit s ?top
         else 0)"
    unfolding getbits_def Let_def fby_def [symmetric] lby_def [symmetric] a_def [symmetric]
      s_def [symmetric] d_def [symmetric] nby ..
  note parts = bit_or_iff psh dr bit_byte_part [OF r(3)] bit_top_part [OF r(3,1)]
  consider "d = 0" | "d = 1" | "d = 2" | "d = 3" | "d = 4" using d by linarith
  then have "bit (getbits data f l) n \<longleftrightarrow> (q < d \<or> q = d \<and> j + a < 8) \<and> n < 32 \<and> bit (data ! (lby - q)) j"
  proof cases
    case 1
    have "bit (getbits data f l) n = bit (drop_bit s ?top) n" using 1 by (simp add: G)
    then show ?thesis unfolding parts using 1 r d by auto
  next
    case 2
    have "bit (getbits data f l) n = bit (push_bit (8 - s) ?top OR drop_bit s (byte data (fby + 1))) n"
      using 2 by (simp add: G)
    then show ?thesis unfolding parts using 2 r d by (cases "q = 0"; cases "q = 1"; simp)
  next
    case 3
    have "bit (getbits data f l) n = bit (push_bit (16 - s) ?top OR push_bit (8 - s) (byte data (fby + 1))
           OR drop_bit s (byte data (fby + 2))) n" using 3 by (simp add: G)
    then show ?thesis unfolding parts using 3 r d by (cases "q = 0"; cases "q = 1"; cases "q = 2"; simp)
  next
    case 4
    have "bit (getbits data f l) n = bit (push_bit (24 - s) ?top OR push_bit (16 - s) (byte data (fby + 1))
           OR push_bit (8 - s) (byte data (fby + 2)) OR drop_bit s (byte data (fby + 3))) n"
      using 4 by (simp add: G)
    then show ?thesis unfolding parts using 4 r d
      by (cases "q = 0"; cases "q = 1"; cases "q = 2"; cases "q = 3"; simp)
  next
    case 5
    have "bit (getbits data f l) n = bit (push_bit (32 - s) ?top OR push_bit (24 - s) (byte data (fby + 1))
           OR push_bit (16 - s) (byte data (fby + 2)) OR push_bit (8 - s) (byte data (fby + 3))
           OR drop_bit s (byte data (fby + 4))) n" using 5 by (simp add: G)
    moreover have "q = 0 \<or> q = 1 \<or> q = 2 \<or> q = 3 \<or> q = 4 \<or> 5 \<le> q" by linarith
    ultimately show ?thesis unfolding parts using 5 r d(1)
      by (elim disjE; simp add: ac_simps)
  qed
  then show ?thesis using nr mb n32 by auto
qed

lemma unat_getbits_less:
  assumes "1 \<le> f" "f \<le> l" "l < f + 32"
  shows "unat (getbits data f l) < 2 ^ (l - f + 1)"
proof -
  have "take_bit (l - f + 1) (getbits data f l) = getbits data f l"
    by (rule bit_word_eqI) (auto simp: bit_take_bit_iff bit_getbits [OF assms])
  then have "unat (getbits data f l) = take_bit (l - f + 1) (unat (getbits data f l))"
    by (metis unsigned_take_bit_eq)
  then show ?thesis using take_bit_nat_less_exp [of "l - f + 1" "unat (getbits data f l)"] by simp
qed

lemma uint_getbits_less:
  "1 \<le> f \<Longrightarrow> f \<le> l \<Longrightarrow> l < f + 32 \<Longrightarrow> uint (getbits data f l) < 2 ^ (l - f + 1)"
proof -
  assume a: "1 \<le> f" "f \<le> l" "l < f + 32"
  have "nat (uint (getbits data f l)) < 2 ^ (l - f + 1)"
    using unat_getbits_less [OF a] by simp
  then show ?thesis by (simp only: nat_less_numeral_power_cancel_iff)
qed

lemma getbits_zero_iff:
  assumes "1 \<le> f" "f \<le> l" "l < f + 32"
  shows "getbits data f l = 0 \<longleftrightarrow> (\<forall>i. f \<le> i \<and> i \<le> l \<longrightarrow> \<not> msg_bit data i)"
proof -
  have "getbits data f l = 0 \<longleftrightarrow> (\<forall>n. \<not> (n \<le> l - f \<and> msg_bit data (l - n)))"
    by (auto simp flip: bit_getbits [OF assms] intro: bit_word_eqI)
  also have "\<dots> \<longleftrightarrow> (\<forall>i. f \<le> i \<and> i \<le> l \<longrightarrow> \<not> msg_bit data i)"
  proof (intro iffI allI impI)
    fix i assume A: "\<forall>n. \<not> (n \<le> l - f \<and> msg_bit data (l - n))" and i: "f \<le> i \<and> i \<le> l"
    have "l - i \<le> l - f" "l - (l - i) = i" using i by auto
    then show "\<not> msg_bit data i" using A by metis
  next
    fix n assume A: "\<forall>i. f \<le> i \<and> i \<le> l \<longrightarrow> \<not> msg_bit data i"
    show "\<not> (n \<le> l - f \<and> msg_bit data (l - n))" using A assms by auto
  qed
  finally show ?thesis .
qed

text \<open>
  \<open>getbits\<close> inside a buffer trips none of its assertions and returns the addressed bits of
  the message, the last one as its least significant bit, with nothing above the field.
\<close>

theorem getbits_correct:
  assumes "1 \<le> f" "f \<le> l" "l < f + 32" "l \<le> 8 * length data"
  shows "\<exists>w. getbits_checked data f l = Some w \<and>
    (\<forall>n. bit w n \<longleftrightarrow> n \<le> l - f \<and> msg_bit data (l - n)) \<and> unat w < 2 ^ (l - f + 1)"
  using getbits_checked_eq [OF assms] bit_getbits [OF assms(1-3)] unat_getbits_less [OF assms(1-3)] by blast

theorem getbits_correct_witness:
  "\<exists>w. getbits_checked [0x8D, 0x48, 0x40, 0xD6, 0x20] 9 32 = Some w \<and>
    (\<forall>n. bit w n \<longleftrightarrow> n \<le> 32 - 9 \<and> msg_bit [0x8D, 0x48, 0x40, 0xD6, 0x20] (32 - n)) \<and> unat w < 2 ^ (32 - 9 + 1)"
  using getbits_correct [of 9 32 "[0x8D, 0x48, 0x40, 0xD6, 0x20]"] by simp

end
