(* ===== verification/CommB.thy ===== *)
theory CommB
  imports Types Fp Bits
begin

text \<open>
  Comm-B replies: \<^verbatim>\<open>src/comm_b.c\<close>. The register that was interrogated is not part of the reply, so
  every decoder scores how well the 56-bit message field fits its format, and the message is
  decoded by the single best one. A decoder returns its score and the message, changed only when
  its \<open>store\<close> argument is set; an early \<open>return 0\<close> is \<open>None\<close> inside a decoder. The C library's
  functions are the record \<open>libm\<close>.
\<close>

record libm =
  m_sqrtf :: "rat \<Rightarrow> rat"
  m_tan :: "rat \<Rightarrow> rat"
  m_atan2 :: "rat \<Rightarrow> rat \<Rightarrow> rat"

text \<open>\<^verbatim>\<open>M_PI\<close> is the double nearest to pi.\<close>

definition M_PI :: rat where
  "M_PI = 884279719003555 / 281474976710656"

definition ais_charset :: "u8 list" where
  "ais_charset = map of_nat ([64..<96] @ [32..<64])"

definition accept_if :: "bool \<Rightarrow> unit option" where
  "accept_if b = (if b then Some () else None)"

lemma accept_if_bind [c_simps]: "(accept_if b \<bind> f) = (if b then f () else None)"
  by (simp add: accept_if_def)

definition if_do :: "bool \<Rightarrow> ('a \<Rightarrow> 'a) \<Rightarrow> 'a \<Rightarrow> 'a" where
  "if_do b f x = (if b then f x else x)"

definition MB_of :: "modesMessage \<Rightarrow> u8 list" where
  "MB_of mm = MB (raw mm)"

type_synonym decoder = "modesMessage \<Rightarrow> bool \<Rightarrow> int \<times> modesMessage"

definition decodeEmptyResponse :: decoder where
  "decodeEmptyResponse mm store =
     (let mb = MB_of mm in
      if mb ! 0 \<notin> {0x00, 0x40, 0x50, 0x60} then (0, mm)
      else if \<not> list_all (\<lambda>i. mb ! i = 0) [1..<7] then (0, mm)
      else (56, if_do store (\<lambda>mm. mm\<lparr>commb_format := COMMB_EMPTY_RESPONSE\<rparr>) mm))"

definition decodeBDS10 :: decoder where
  "decodeBDS10 mm store =
     (let m = MB_of mm in
      if m ! 0 \<noteq> 0x10 then (0, mm)
      else if getbits m 10 14 \<noteq> 0 then (0, mm)
      else (56, if_do store (\<lambda>mm. mm\<lparr>commb_format := COMMB_DATALINK_CAPS\<rparr>) mm))"

definition bds17_unlikely :: "u8 list \<Rightarrow> int" where
  "bds17_unlikely m =
     (if getbit m 7 then 1 else -2)
     + (if getbit m 10 then -2 else 0) + (if getbit m 11 then -2 else 0) + (if getbit m 12 then -2 else 0)
     + (if getbit m 13 then -1 else 0) + (if getbit m 14 then -1 else 0)
     + (if getbit m 20 then -2 else 0) + (if getbit m 21 then -2 else 0) + (if getbit m 22 then -2 else 0)"

definition bds17_es :: "u8 list \<Rightarrow> int" where
  "bds17_es m =
     (if getbit m 1 \<and> getbit m 2 \<and> getbit m 3 \<and> getbit m 4 \<and> getbit m 5
      then 5 + (if getbit m 6 then 1 else 0)
      else if \<not> getbit m 1 \<and> \<not> getbit m 2 \<and> \<not> getbit m 3 \<and> \<not> getbit m 4 \<and> \<not> getbit m 5 \<and> \<not> getbit m 6 then 1
      else if \<not> getbit m 1 \<and> \<not> getbit m 2 \<and> getbit m 3 \<and> getbit m 4 \<and> getbit m 5 then 3
      else -12)"

definition bds17_track :: "u8 list \<Rightarrow> int" where
  "bds17_track m =
     (if getbit m 16 \<and> getbit m 24 then 2 + (if getbit m 9 then 1 else 0)
      else if \<not> getbit m 16 \<and> \<not> getbit m 24 \<and> \<not> getbit m 9 then 1
      else -6)"

definition decodeBDS17 :: decoder where
  "decodeBDS17 mm store =
     (let m = MB_of mm in
      if getbits m 25 56 \<noteq> 0 then (0, mm)
      else (bds17_unlikely m + bds17_es m + bds17_track m,
            if_do store (\<lambda>mm. mm\<lparr>commb_format := COMMB_GICB_CAPS\<rparr>) mm))"

definition ident_chars :: "u8 list \<Rightarrow> u8 list" where
  "ident_chars m = map (\<lambda>i. ais_charset ! unat (getbits m (9 + 6 * i) (14 + 6 * i))) [0..<8]"

definition upper_case :: "u8 \<Rightarrow> bool" where "upper_case c \<longleftrightarrow> 0x41 \<le> c \<and> c \<le> 0x5A"
definition decimal_digit :: "u8 \<Rightarrow> bool" where "decimal_digit c \<longleftrightarrow> 0x30 \<le> c \<and> c \<le> 0x39"

fun bds20_score :: "u8 list \<Rightarrow> int \<times> bool \<Rightarrow> (int \<times> bool) option" where
  "bds20_score [] (sc, valid) = Some (sc, valid)"
| "bds20_score (c # cs) (sc, valid) =
     (if upper_case c \<or> decimal_digit c \<or> c = 0x20 then bds20_score cs (sc + 6, valid)
      else if c = 0x40 then bds20_score cs (sc, False)
      else None)"

definition bds20_parse :: "u8 list \<Rightarrow> (u8 list \<times> bool \<times> int) option" where
  "bds20_parse m = do {
     accept_if (m ! 0 = 0x20);
     (sc, valid) \<leftarrow> bds20_score (ident_chars m) (8, True);
     Some (ident_chars m @ [0], valid, sc) }"

definition decodeBDS20 :: decoder where
  "decodeBDS20 mm store =
     (case bds20_parse (MB_of mm) of None \<Rightarrow> (0, mm)
      | Some (ident, valid, sc) \<Rightarrow> (sc, if_do store (\<lambda>mm.
          if_do valid (\<lambda>mm. mm\<lparr>callsign := ident, callsign_valid := True\<rparr>)
            (mm\<lparr>commb_format := COMMB_AIRCRAFT_IDENT\<rparr>)) mm))"

definition decodeBDS30 :: decoder where
  "decodeBDS30 mm store =
     (if MB_of mm ! 0 \<noteq> 0x30 then (0, mm)
      else (56, if_do store (\<lambda>mm. mm\<lparr>commb_format := COMMB_ACAS_RA\<rparr>) mm))"

subsection \<open>BDS 4,0: selected vertical intention\<close>

definition bds40_altitude :: "bool \<Rightarrow> u32 \<Rightarrow> (u32 \<times> int) option" where
  "bds40_altitude valid raw_alt =
     (if valid \<and> raw_alt \<noteq> 0 then
        let alt = raw_alt * 16 in if 1000 \<le> alt \<and> alt \<le> 50000 then Some (alt, 13) else None
      else if \<not> valid \<and> raw_alt = 0 then Some (0, 1)
      else None)"

definition bds40_baro :: "bool \<Rightarrow> u32 \<Rightarrow> (rat \<times> int) option" where
  "bds40_baro valid baro_raw =
     (if valid \<and> baro_raw \<noteq> 0 then
        let setting = f32 (f64 (800 + f64 (of_int (uint baro_raw) * f64 (1 / 10)))) in
        if 900 \<le> setting \<and> setting \<le> 1100 then Some (setting, 13) else None
      else if \<not> valid \<and> baro_raw = 0 then Some (0, 1)
      else None)"

definition bds40_small :: "bool \<Rightarrow> u32 \<Rightarrow> int \<Rightarrow> int option" where
  "bds40_small valid value points =
     (if valid then Some points else if value = 0 then Some 1 else None)"

definition bds40_uneven :: "bool \<Rightarrow> u32 \<Rightarrow> int" where
  "bds40_uneven valid alt =
     (if valid then
        let remainder = alt mod 500 in
        if \<not> (remainder < 16 \<or> remainder > 484) then -4 else 0
      else 0)"

definition bds40_modes :: "u32 \<Rightarrow> u32" where
  "bds40_modes mode_raw =
     (if mode_raw AND 4 \<noteq> 0 then NAV_MODE_VNAV else 0)
     OR (if mode_raw AND 2 \<noteq> 0 then NAV_MODE_ALT_HOLD else 0)
     OR (if mode_raw AND 1 \<noteq> 0 then NAV_MODE_APPROACH else 0)"

definition bds40_source :: "u32 \<Rightarrow> nav_altitude_source_t" where
  "bds40_source s =
     (if s = 0 then NAV_ALT_UNKNOWN else if s = 1 then NAV_ALT_AIRCRAFT else if s = 2 then NAV_ALT_MCP
      else if s = 3 then NAV_ALT_FMS else NAV_ALT_INVALID)"

record bds40 =
  b40_mcp :: "u32 option"
  b40_fms :: "u32 option"
  b40_baro :: "rat option"
  b40_modes :: "u32 option"
  b40_source :: "u32 option"

definition some_if :: "bool \<Rightarrow> 'a \<Rightarrow> 'a option" where
  "some_if b x = (if b then Some x else None)"

definition bds40_parse :: "u8 list \<Rightarrow> (bds40 \<times> int) option" where
  "bds40_parse m =
     (let mcp_valid = getbit m 1; mcp_raw = getbits m 2 13;
          fms_valid = getbit m 14; fms_raw = getbits m 15 26;
          baro_valid = getbit m 27; baro_raw = getbits m 28 39;
          reserved_1 = getbits m 40 47;
          mode_valid = getbit m 48; mode_raw = getbits m 49 51;
          reserved_2 = getbits m 52 53;
          source_valid = getbit m 54; source_raw = getbits m 55 56
      in do {
        accept_if (mcp_valid \<or> fms_valid \<or> baro_valid \<or> mode_valid \<or> source_valid);
        (mcp_alt, s1) \<leftarrow> bds40_altitude mcp_valid mcp_raw;
        (fms_alt, s2) \<leftarrow> bds40_altitude fms_valid fms_raw;
        (baro_setting, s3) \<leftarrow> bds40_baro baro_valid baro_raw;
        accept_if (reserved_1 = 0);
        s4 \<leftarrow> bds40_small mode_valid mode_raw 4;
        accept_if (reserved_2 = 0);
        s5 \<leftarrow> bds40_small source_valid source_raw 3;
        Some (\<lparr>b40_mcp = some_if mcp_valid mcp_alt, b40_fms = some_if fms_valid fms_alt,
               b40_baro = some_if baro_valid baro_setting, b40_modes = some_if mode_valid mode_raw,
               b40_source = some_if source_valid source_raw\<rparr>,
             s1 + s2 + s3 + s4 + s5
             + (if mcp_valid \<and> fms_valid \<and> mcp_alt \<noteq> fms_alt then -4 else 0)
             + bds40_uneven mcp_valid mcp_alt + bds40_uneven fms_valid fms_alt) })"

definition set_some :: "'a option \<Rightarrow> ('a \<Rightarrow> 'b \<Rightarrow> 'b) \<Rightarrow> 'b \<Rightarrow> 'b" where
  "set_some v f x = (case v of None \<Rightarrow> x | Some a \<Rightarrow> f a x)"

definition bds40_store :: "bds40 \<Rightarrow> modesMessage \<Rightarrow> modesMessage" where
  "bds40_store b mm =
     (let n = nav mm;
          n = set_some (b40_mcp b) (\<lambda>alt n. n\<lparr>mcp_altitude_valid := True, mcp_altitude := alt\<rparr>) n;
          n = set_some (b40_fms b) (\<lambda>alt n. n\<lparr>fms_altitude_valid := True, fms_altitude := alt\<rparr>) n;
          n = set_some (b40_baro b) (\<lambda>p n. n\<lparr>qnh_valid := True, qnh := p\<rparr>) n;
          n = set_some (b40_modes b) (\<lambda>r n. n\<lparr>nav_modes_valid := True, nav_modes := bds40_modes r\<rparr>) n;
          src = (case b40_source b of Some r \<Rightarrow> bds40_source r | None \<Rightarrow> NAV_ALT_INVALID)
      in mm\<lparr>commb_format := COMMB_VERTICAL_INTENT, nav := n\<lparr>altitude_source := src\<rparr>\<rparr>)"

definition decodeBDS40 :: decoder where
  "decodeBDS40 mm store =
     (case bds40_parse (MB_of mm) of None \<Rightarrow> (0, mm)
      | Some (b, sc) \<Rightarrow> (sc, if_do store (bds40_store b) mm))"

subsection \<open>BDS 5,0: track and turn\<close>

definition in_range :: "rat \<Rightarrow> rat \<Rightarrow> rat \<Rightarrow> bool" where
  "in_range lo hi x \<longleftrightarrow> lo \<le> x \<and> x \<le> hi"

definition bds50_roll :: "bool \<Rightarrow> u32 \<Rightarrow> rat" where
  "bds50_roll sign r =
     (let roll = f32 (f64 (f64 (of_int (uint r) * 45) / 256)) in
      if sign then f32 (f64 (roll - 90)) else roll)"

definition turn_angle :: "bool \<Rightarrow> u32 \<Rightarrow> rat" where
  "turn_angle sign r =
     (let a = f32 (f64 (f64 (of_int (uint r) * 90) / 512)) in
      if sign then f32 (f64 (a + 180)) else a)"

definition bds50_track_rate :: "bool \<Rightarrow> u32 \<Rightarrow> rat" where
  "bds50_track_rate sign r =
     (let tr = f32 (f64 (f64 (of_int (uint r) * 8) / 256)) in
      if sign then f32 (tr - 16) else tr)"

definition bds50_rate_field :: "bool \<Rightarrow> bool \<Rightarrow> u32 \<Rightarrow> (rat \<times> int) option" where
  "bds50_rate_field valid sign r =
     (if valid then
        let tr = bds50_track_rate sign r in if in_range (-10) 10 tr then Some (tr, 11) else None
      else if r = 0 \<and> \<not> sign then Some (0, 1) else None)"

definition bds50_speed :: "u32 \<Rightarrow> u32 option" where
  "bds50_speed sraw =
     (if sraw \<noteq> 0 then let s = sraw * 2 in if 50 \<le> s \<and> s \<le> 700 then Some s else None else None)"

definition bds50_inconsistent_speed :: "bool \<Rightarrow> bool \<Rightarrow> int" where
  "bds50_inconsistent_speed v_gs v_tas =
     (if v_gs \<and> v_tas then
        let delta = \<bar>(of_bool v_gs :: int) - of_bool v_tas\<bar> in if delta > 150 then -6 else 0
      else 0)"

definition bds50_turn_mismatch :: "libm \<Rightarrow> rat \<Rightarrow> u32 \<Rightarrow> rat \<Rightarrow> bool" where
  "bds50_turn_mismatch L roll_deg tas_kt rate =
     (let rad = f64 (f64 (roll_deg * M_PI) / 180);
          turn_rate = f64 (f64 (68625 * m_tan L rad) / f64 (of_int (uint (tas_kt * 20)) * M_PI));
          delta = \<bar>f64 (turn_rate - rate)\<bar>
      in delta > 2)"

record bds50 =
  b50_roll :: rat
  b50_track :: rat
  b50_gs :: u32
  b50_track_rate :: "rat option"
  b50_tas :: u32

definition bds50_parse :: "libm \<Rightarrow> u8 list \<Rightarrow> (bds50 \<times> int) option" where
  "bds50_parse L m =
     (let v_roll = getbit m 1; roll_sign = getbit m 2; roll_raw = getbits m 3 11;
          v_track = getbit m 12; track_sign = getbit m 13; track_raw = getbits m 14 23;
          v_gs = getbit m 24; gs_raw = getbits m 25 34;
          v_rate = getbit m 35; rate_sign = getbit m 36; rate_raw = getbits m 37 45;
          v_tas = getbit m 46; tas_raw = getbits m 47 56;
          roll_deg = bds50_roll roll_sign roll_raw;
          track_deg = turn_angle track_sign track_raw
      in do {
        accept_if (v_roll \<and> v_track \<and> v_gs \<and> v_tas);
        accept_if (-40 \<le> roll_deg \<and> roll_deg < 40);
        gs_kt \<leftarrow> bds50_speed gs_raw;
        (rate, s4) \<leftarrow> bds50_rate_field v_rate rate_sign rate_raw;
        tas_kt \<leftarrow> bds50_speed tas_raw;
        Some (\<lparr>b50_roll = roll_deg, b50_track = track_deg, b50_gs = gs_kt,
               b50_track_rate = some_if v_rate rate, b50_tas = tas_kt\<rparr>,
             11 + 12 + 11 + s4 + 11 + bds50_inconsistent_speed v_gs v_tas
             + (if v_roll \<and> v_tas \<and> tas_kt > 0 \<and> v_rate \<and> bds50_turn_mismatch L roll_deg tas_kt rate
                then -6 else 0)) })"

definition bds50_store :: "bds50 \<Rightarrow> modesMessage \<Rightarrow> modesMessage" where
  "bds50_store b mm =
     (let v = of_int (uint (b50_gs b));
          mm = mm\<lparr>commb_format := COMMB_TRACK_TURN, roll_valid := True, roll := b50_roll b,
                 heading_valid := True, heading := b50_track b, heading_type := HEADING_GROUND_TRACK,
                 gs_valid := True, gs := \<lparr>gs_v0 = v, gs_v2 = v, gs_selected = v\<rparr>\<rparr>;
          mm = set_some (b50_track_rate b) (\<lambda>r mm. mm\<lparr>track_rate_valid := True, track_rate := r\<rparr>) mm
      in mm\<lparr>tas_valid := True, tas := b50_tas b\<rparr>)"

definition decodeBDS50 :: "libm \<Rightarrow> decoder" where
  "decodeBDS50 L mm store =
     (case bds50_parse L (MB_of mm) of None \<Rightarrow> (0, mm)
      | Some (b, sc) \<Rightarrow> (sc, if_do store (bds50_store b) mm))"

subsection \<open>BDS 6,0: heading and speed\<close>

definition bds60_ias :: "u32 \<Rightarrow> u32 option" where
  "bds60_ias r = (if r \<noteq> 0 then if 50 \<le> r \<and> r \<le> 700 then Some r else None else None)"

definition bds60_mach :: "u32 \<Rightarrow> rat option" where
  "bds60_mach r =
     (if r \<noteq> 0 then
        let mach_no = f32 (f64 (f64 (of_int (uint r) * f64 (2048 / 1000)) / 512)) in
        if in_range (f64 (1 / 10)) (f64 (9 / 10)) mach_no then Some mach_no else None
      else None)"

definition bds60_rate :: "bool \<Rightarrow> bool \<Rightarrow> u32 \<Rightarrow> (int \<times> int) option" where
  "bds60_rate valid sign r =
     (if valid then
        let rate = uint (r * 32); rate = (if sign then rate - 16384 else rate) in
        if -6000 \<le> rate \<and> rate \<le> 6000 then Some (rate, 11) else None
      else if r = 0 then Some (0, 1) else None)"

record bds60 =
  b60_heading :: rat
  b60_ias :: u32
  b60_mach :: rat
  b60_baro_rate :: "int option"
  b60_inertial_rate :: "int option"

definition bds60_parse :: "u8 list \<Rightarrow> (bds60 \<times> int) option" where
  "bds60_parse m =
     (let v_heading = getbit m 1; heading_sign = getbit m 2; heading_raw = getbits m 3 12;
          v_ias = getbit m 13; ias_raw = getbits m 14 23;
          v_mach = getbit m 24; mach_raw = getbits m 25 34;
          v_baro = getbit m 35; baro_sign = getbit m 36; baro_raw = getbits m 37 45;
          v_inertial = getbit m 46; inertial_sign = getbit m 47; inertial_raw = getbits m 48 56
      in do {
        accept_if (v_heading \<and> v_ias \<and> v_mach \<and> (v_baro \<or> v_inertial));
        ias_kt \<leftarrow> bds60_ias ias_raw;
        mach_no \<leftarrow> bds60_mach mach_raw;
        (baro, s4) \<leftarrow> bds60_rate v_baro baro_sign baro_raw;
        (inertial, s5) \<leftarrow> bds60_rate v_inertial inertial_sign inertial_raw;
        Some (\<lparr>b60_heading = turn_angle heading_sign heading_raw, b60_ias = ias_kt, b60_mach = mach_no,
               b60_baro_rate = some_if v_baro baro, b60_inertial_rate = some_if v_inertial inertial\<rparr>,
             12 + 11 + 11 + s4 + s5
             + (if v_baro \<and> v_inertial then if \<bar>baro - inertial\<bar> > 2000 then -12 else 0 else 0)) })"

definition bds60_store :: "bds60 \<Rightarrow> modesMessage \<Rightarrow> modesMessage" where
  "bds60_store b mm =
     (let mm = mm\<lparr>commb_format := COMMB_HEADING_SPEED,
                 heading_valid := True, heading := b60_heading b, heading_type := HEADING_MAGNETIC,
                 ias_valid := True, ias := b60_ias b, mach_valid := True, mach := b60_mach b\<rparr>;
          mm = set_some (b60_baro_rate b) (\<lambda>r mm. mm\<lparr>baro_rate_valid := True, baro_rate := r\<rparr>) mm
      in set_some (b60_inertial_rate b) (\<lambda>r mm. mm\<lparr>geom_rate_valid := True, geom_rate := r\<rparr>) mm)"

definition decodeBDS60 :: decoder where
  "decodeBDS60 mm store =
     (case bds60_parse (MB_of mm) of None \<Rightarrow> (0, mm)
      | Some (b, sc) \<Rightarrow> (sc, if_do store (bds60_store b) mm))"

subsection \<open>BDS 4,4: meteorological routine air report\<close>

definition mrar_source_of :: "u32 \<Rightarrow> mrar_source_t" where
  "mrar_source_of s =
     (if s = 0 then MRAR_SOURCE_INVALID else if s = 1 then MRAR_SOURCE_INS else if s = 2 then MRAR_SOURCE_GNSS
      else if s = 3 then MRAR_SOURCE_DMEDME else if s = 4 then MRAR_SOURCE_VORDME else MRAR_SOURCE_RESERVED)"

definition hazard_of :: "u32 \<Rightarrow> hazard_t" where
  "hazard_of h = (if h = 0 then HAZARD_NIL else if h = 1 then HAZARD_LIGHT
     else if h = 2 then HAZARD_MODERATE else HAZARD_SEVERE)"

definition bds44_sat :: "bool \<Rightarrow> u32 \<Rightarrow> rat" where
  "bds44_sat sign r =
     (let sat = f32 (f64 (of_int (uint r) * f64 (1 / 4))) in if sign then f32 (sat - 128) else sat)"

record bds44 =
  b44_source :: u32
  b44_wind_speed :: rat
  b44_wind_dir :: rat
  b44_temperature :: rat
  b44_pressure :: "rat option"
  b44_turbulence :: "u32 option"
  b44_humidity :: "rat option"

definition bds44_wind :: "u32 \<Rightarrow> (rat \<times> int) option" where
  "bds44_wind windspeed_raw =
     (let speed = f32 (of_int (uint windspeed_raw)) in
      if windspeed_raw = 0 then Some (speed, 2) else if speed \<le> 250 then Some (speed, 19) else None)"

definition bds44_temperature :: "bool \<Rightarrow> u32 \<Rightarrow> (rat \<times> int) option" where
  "bds44_temperature sign r =
     (let sat = bds44_sat sign r in
      if sat = 0 then Some (sat, 2) else if in_range (-80) 60 sat then Some (sat, 11) else None)"

definition bds44_pressure :: "bool \<Rightarrow> u32 \<Rightarrow> (rat \<times> int) option" where
  "bds44_pressure valid r =
     (if valid then let asp = f32 (of_int (uint r)) in if in_range 25 1100 asp then Some (asp, 12) else None
      else Some (0, 1))"

definition bds44_parse :: "u8 list \<Rightarrow> (bds44 \<times> int) option" where
  "bds44_parse m =
     (let src = getbits m 1 4;
          v_wind = getbit m 5; windspeed_raw = getbits m 6 14; winddir_raw = getbits m 15 23;
          v_sat = getbit m 24; sat_sign = getbit m 25; sat_raw = getbits m 26 34;
          v_asp = getbit m 35; asp_raw = getbits m 36 46;
          v_turb = getbit m 47; turb_raw = getbits m 48 49;
          v_hum = getbit m 50; hum_raw = getbits m 51 56;
          dir = f32 (f64 (of_int (uint winddir_raw) * f64 (180 / 256)));
          hum = f32 (f64 (of_int (uint hum_raw) * f64 (100 / 64)))
      in do {
        accept_if (\<not> (src = 0 \<or> src \<ge> 5));
        accept_if (v_wind \<and> v_sat);
        accept_if (\<not> (\<not> v_asp \<and> asp_raw \<noteq> 0));
        accept_if (\<not> (\<not> v_turb \<and> turb_raw \<noteq> 0));
        accept_if (\<not> (\<not> v_hum \<and> hum_raw \<noteq> 0));
        (speed, s1) \<leftarrow> bds44_wind windspeed_raw;
        (sat, s2) \<leftarrow> bds44_temperature sat_sign sat_raw;
        (asp, s3) \<leftarrow> bds44_pressure v_asp asp_raw;
        let sc = s1 + s2 + s3 + (if v_turb then 3 else 1) + (if v_hum then 7 else 1);
        Some (\<lparr>b44_source = src, b44_wind_speed = speed, b44_wind_dir = dir, b44_temperature = sat,
               b44_pressure = some_if v_asp asp, b44_turbulence = some_if v_turb turb_raw,
               b44_humidity = some_if v_hum hum\<rparr>,
             if src = 3 \<and> v_wind \<and> v_sat \<and> sc > 0 then 1 else sc) })"

definition bds44_store :: "bds44 \<Rightarrow> modesMessage \<Rightarrow> modesMessage" where
  "bds44_store b mm =
     (let mm = mm\<lparr>commb_format := COMMB_MRAR,
                 mrar_source_valid := True, mrar_source := mrar_source_of (b44_source b),
                 wind_valid := True, wind_speed := b44_wind_speed b, wind_dir := b44_wind_dir b,
                 temperature_valid := True, temperature := b44_temperature b\<rparr>;
          mm = set_some (b44_pressure b) (\<lambda>p mm. mm\<lparr>pressure_valid := True, pressure := p\<rparr>) mm;
          mm = set_some (b44_turbulence b) (\<lambda>t mm. mm\<lparr>turbulence_valid := True, turbulence := hazard_of t\<rparr>) mm
      in set_some (b44_humidity b) (\<lambda>h mm. mm\<lparr>humidity_valid := True, humidity := h\<rparr>) mm)"

definition decodeBDS44 :: decoder where
  "decodeBDS44 mm store =
     (case bds44_parse (MB_of mm) of None \<Rightarrow> (0, mm)
      | Some (b, sc) \<Rightarrow> (sc, if_do store (bds44_store b) mm))"

subsection \<open>BDS 0,5: recognised, not decoded\<close>

definition ac13_of_ac12 :: "u32 \<Rightarrow> u32" where
  "ac13_of_ac12 ac12 = push_bit 1 (ac12 AND 0x0FC0) OR (ac12 AND 0x003F)"

definition bds05_recognised :: "modesMessage \<Rightarrow> bool" where
  "bds05_recognised mm =
     (let m = MB_of mm; typecode = getbits m 1 5; ac12 = getbits m 9 20;
          lat = getbits m 23 39; lon = getbits m 40 56 in
      msgtype mm = 20 \<and> \<not> (typecode < 9 \<or> typecode > 18) \<and> \<not> getbit m 21 \<and> ac12 \<noteq> 0 \<and>
      AC (raw mm) = ac13_of_ac12 ac12 \<and> \<not> (lat = 0 \<or> lon = 0))"

definition decodeBDS05 :: decoder where
  "decodeBDS05 mm store =
     (if \<not> bds05_recognised mm then (0, mm)
      else (100, if_do store (\<lambda>mm. mm\<lparr>commb_format := COMMB_AIRBORNE_POSITION\<rparr>) mm))"

subsection \<open>Selecting the decoder\<close>

definition comm_b_decoders :: "libm \<Rightarrow> decoder list" where
  "comm_b_decoders L = [decodeEmptyResponse, decodeBDS10, decodeBDS20, decodeBDS30, decodeBDS17,
     decodeBDS40, decodeBDS50 L, decodeBDS60, decodeBDS44, decodeBDS05]"

fun select_decoder :: "decoder list \<Rightarrow> modesMessage \<Rightarrow> int \<times> decoder option \<times> bool \<Rightarrow> int \<times> decoder option \<times> bool" where
  "select_decoder [] mm (bestScore, bestDecoder, ambiguous) = (bestScore, bestDecoder, ambiguous)"
| "select_decoder (d # ds) mm (bestScore, bestDecoder, ambiguous) =
     (let sc = fst (d mm False) in
      if sc > bestScore then select_decoder ds mm (sc, Some d, False)
      else if sc = bestScore then select_decoder ds mm (bestScore, bestDecoder, True)
      else select_decoder ds mm (bestScore, bestDecoder, ambiguous))"

definition decodeCommB :: "libm \<Rightarrow> modesMessage \<Rightarrow> modesMessage" where
  "decodeCommB L mm =
     (if DR (raw mm) \<noteq> 0 \<or> UM (raw mm) \<noteq> 0 \<or> correctedbits mm > 0
      then mm\<lparr>commb_format := COMMB_NOT_DECODED\<rparr>
      else case select_decoder (comm_b_decoders L) mm (0, None, False) of
        (_, Some d, ambiguous) \<Rightarrow>
          if ambiguous then mm\<lparr>commb_format := COMMB_AMBIGUOUS\<rparr> else snd (d mm True)
      | (_, None, _) \<Rightarrow> mm\<lparr>commb_format := COMMB_UNKNOWN\<rparr>)"

subsection \<open>The selection is the unique best score\<close>

definition scores_at :: "modesMessage \<Rightarrow> int \<Rightarrow> decoder \<Rightarrow> bool" where
  "scores_at mm b d \<longleftrightarrow> fst (d mm False) = b"

definition best_score :: "decoder list \<Rightarrow> modesMessage \<Rightarrow> int" where
  "best_score ds mm = foldr (\<lambda>d b. max (fst (d mm False)) b) ds 0"

definition decodeCommB_spec :: "libm \<Rightarrow> modesMessage \<Rightarrow> modesMessage" where
  "decodeCommB_spec L mm =
     (let best = best_score (comm_b_decoders L) mm in
      if best = 0 then mm\<lparr>commb_format := COMMB_UNKNOWN\<rparr>
      else case filter (scores_at mm best) (comm_b_decoders L) of
        [d] \<Rightarrow> snd (d mm True)
      | _ \<Rightarrow> mm\<lparr>commb_format := COMMB_AMBIGUOUS\<rparr>)"

lemma best_score_append: "best_score (xs @ [d]) mm = max (best_score xs mm) (fst (d mm False))"
  by (induction xs) (auto simp: best_score_def)

lemma best_score_upper: "d \<in> set ds \<Longrightarrow> fst (d mm False) \<le> best_score ds mm"
  by (induction ds) (auto simp: best_score_def)

lemma best_score_nonneg: "0 \<le> best_score ds mm"
  by (induction ds) (auto simp: best_score_def)

definition selected :: "decoder list \<Rightarrow> modesMessage \<Rightarrow> int \<times> decoder option \<times> bool \<Rightarrow> bool" where
  "selected ds mm s \<longleftrightarrow> (case s of (b, best, amb) \<Rightarrow> b = best_score ds mm \<and>
     (if b = 0 then best = None
      else \<exists>d rest. filter (scores_at mm b) ds = d # rest \<and> best = Some d \<and> amb = (rest \<noteq> [])))"

lemma select_decoder_selected:
  "selected pre mm s \<Longrightarrow> selected (pre @ ds) mm (select_decoder ds mm s)"
proof (induction ds arbitrary: pre s)
  case (Cons d ds)
  obtain b best amb where s: "s = (b, best, amb)" by (cases s) auto
  let ?sc = "fst (d mm False)"
  have b: "b = best_score pre mm" "0 \<le> b"
    using Cons.prems best_score_nonneg by (auto simp: selected_def s)
  have none: "filter (scores_at mm ?sc) pre = []" if "?sc > b"
    using that b(1) best_score_upper [of _ pre mm] by (force simp: filter_empty_conv scores_at_def)
  have step: "selected (pre @ [d]) mm
      (if ?sc > b then (?sc, Some d, False) else if ?sc = b then (b, best, True) else (b, best, amb))"
    using Cons.prems b none
    by (auto simp: selected_def s best_score_append scores_at_def split: if_splits)
  show ?case
    using Cons.IH [OF step] by (simp add: s Let_def split: if_splits)
next
  case Nil
  then show ?case by (cases s) simp
qed

lemma decodeCommB_eq_spec:
  assumes "DR (raw mm) = 0" "UM (raw mm) = 0" "correctedbits mm \<le> 0"
  shows "decodeCommB L mm = decodeCommB_spec L mm"
proof -
  let ?ds = "comm_b_decoders L"
  obtain b best amb where r: "select_decoder ?ds mm (0, None, False) = (b, best, amb)"
    by (cases "select_decoder ?ds mm (0, None, False)") auto
  have "selected [] mm (0, None, False)" by (simp add: selected_def best_score_def)
  from select_decoder_selected [OF this, of ?ds]
  have sel: "selected ?ds mm (b, best, amb)" by (simp add: r)
  show ?thesis
  proof (cases "b = 0")
    case True
    then show ?thesis
      using sel assms by (simp add: decodeCommB_def decodeCommB_spec_def r selected_def)
  next
    case False
    then obtain d rest where "filter (scores_at mm b) ?ds = d # rest" "best = Some d" "amb = (rest \<noteq> [])"
      "b = best_score ?ds mm"
      using sel by (auto simp: selected_def)
    then show ?thesis
      using False assms by (cases rest) (simp_all add: decodeCommB_def decodeCommB_spec_def r Let_def)
  qed
qed

text \<open>
  C20. A Comm-B reply without DR, UM or corrected bits is decoded by the one decoder that scores
  strictly best: with no positive score the format is unknown, with two decoders at the top it is
  ambiguous and nothing is decoded. Any other reply is marked as not decoded and left alone.
\<close>

theorem decodeCommB_selects_unique_best:
  "decodeCommB L mm =
     (if DR (raw mm) = 0 \<and> UM (raw mm) = 0 \<and> correctedbits mm \<le> 0 then decodeCommB_spec L mm
      else mm\<lparr>commb_format := COMMB_NOT_DECODED\<rparr>)"
  using decodeCommB_eq_spec [of mm L] by (auto simp: decodeCommB_def)

subsection \<open>What is decoded is plausible\<close>

lemma turn_angle_exact:
  assumes "uint r < 1024"
  shows "turn_angle sign r = (of_int (uint r) * 45 + (if sign then 180 * 256 else 0)) / 256"
proof -
  define n where "n = uint r"
  have n: "0 \<le> n" "n < 1024" using assms by (simp_all add: n_def)
  have a: "f64 (of_int n * 90) = of_int (n * 90)"
    using f64_of_int [of "n * 90"] n by simp
  have e: "of_int (n * 90) / 512 = (of_int (n * 45) / 2 ^ 8 :: rat)" by simp
  have b: "f64 (of_int (n * 45) / 2 ^ 8) = of_int (n * 45) / 2 ^ 8" "f32 (of_int (n * 45) / 2 ^ 8) = of_int (n * 45) / 2 ^ 8"
    using n by (intro f64_exact f32_exact fits_scaled; simp)+
  have e': "of_int (n * 45) / 2 ^ 8 + 180 = (of_int (n * 45 + 46080) / 2 ^ 8 :: rat)" by (simp add: field_simps)
  have c: "f64 (of_int (n * 45 + 46080) / 2 ^ 8) = of_int (n * 45 + 46080) / 2 ^ 8"
    "f32 (of_int (n * 45 + 46080) / 2 ^ 8) = of_int (n * 45 + 46080) / 2 ^ 8"
    using n by (intro f64_exact f32_exact fits_scaled; simp)+
  show ?thesis
    unfolding turn_angle_def Let_def n_def [symmetric] a e b e' c by simp
qed

lemma turn_angle_range: "uint r < 1024 \<Longrightarrow> 0 \<le> turn_angle sign r \<and> turn_angle sign r < 360"
proof -
  assume r: "uint r < 1024"
  have "uint r \<le> 1023" using r by simp
  then have "(of_int (uint r) :: rat) \<le> of_int 1023" by (simp only: of_int_le_iff)
  moreover have "0 \<le> (of_int (uint r) :: rat)" by (simp only: of_int_0_le_iff) simp
  ultimately show ?thesis by (simp add: turn_angle_exact [OF r])
qed

lemma speed_range: "bds50_speed r = Some s \<Longrightarrow> 50 \<le> s \<and> s \<le> 700"
  by (auto simp: bds50_speed_def Let_def split: if_splits)

lemma ias_range: "bds60_ias r = Some s \<Longrightarrow> 50 \<le> s \<and> s \<le> 700"
  by (auto simp: bds60_ias_def split: if_splits)

lemma mach_range: "bds60_mach r = Some s \<Longrightarrow> f64 (1 / 10) \<le> s \<and> s \<le> f64 (9 / 10)"
  by (auto simp: bds60_mach_def Let_def in_range_def split: if_splits)

lemma altitude_range: "bds40_altitude v r = Some (a, sc) \<Longrightarrow> v \<Longrightarrow> 1000 \<le> a \<and> a \<le> 50000"
  by (auto simp: bds40_altitude_def Let_def split: if_splits)

definition plausible :: "modesMessage \<Rightarrow> bool" where
  "plausible mm = (case commb_format mm of
     COMMB_TRACK_TURN \<Rightarrow>
       -40 \<le> roll mm \<and> roll mm < 40 \<and> 0 \<le> heading mm \<and> heading mm < 360 \<and>
       50 \<le> gs_selected (gs mm) \<and> gs_selected (gs mm) \<le> 700 \<and> 50 \<le> tas mm \<and> tas mm \<le> 700
   | COMMB_HEADING_SPEED \<Rightarrow>
       0 \<le> heading mm \<and> heading mm < 360 \<and> 50 \<le> ias mm \<and> ias mm \<le> 700 \<and>
       f64 (1 / 10) \<le> mach mm \<and> mach mm \<le> f64 (9 / 10)
   | COMMB_MRAR \<Rightarrow> wind_valid mm \<and> wind_speed mm \<le> 250 \<and> -80 \<le> temperature mm \<and> temperature mm \<le> 60
   | COMMB_AIRCRAFT_IDENT \<Rightarrow> MB_of mm ! 0 = 0x20
   | _ \<Rightarrow> True)"

lemma accept_if_Some [simp]: "accept_if b = Some u \<longleftrightarrow> b"
  by (simp add: accept_if_def)

lemma uint_mono_iff: "(a :: u32) \<le> b \<longleftrightarrow> uint a \<le> uint b"
  by (rule word_le_def)

lemma speed_rat: "50 \<le> s \<and> s \<le> (700 :: u32) \<Longrightarrow> 50 \<le> (of_int (uint s) :: rat) \<and> (of_int (uint s) :: rat) \<le> 700"
proof -
  assume "50 \<le> s \<and> s \<le> (700 :: u32)"
  then have "50 \<le> uint s" "uint s \<le> 700" by (simp_all add: uint_mono_iff)
  then have "of_int 50 \<le> (of_int (uint s) :: rat)" "(of_int (uint s) :: rat) \<le> of_int 700"
    by (simp_all only: of_int_le_iff)
  then show ?thesis by simp
qed

lemmas parse_Some = bind_eq_Some_conv Let_def split_paired_Ex prod.case accept_if_Some

lemma bds50_parse_range:
  assumes "bds50_parse L m = Some (b, sc)"
  shows "-40 \<le> b50_roll b" "b50_roll b < 40" "0 \<le> b50_track b" "b50_track b < 360"
    "50 \<le> b50_gs b \<and> b50_gs b \<le> 700" "50 \<le> b50_tas b \<and> b50_tas b \<le> 700"
proof -
  have "uint (getbits m 14 23) < 1024" using uint_getbits_less [of 14 23] by simp
  note t = turn_angle_range [OF this]
  obtain gs_kt tas_kt rate where s: "bds50_speed (getbits m 25 34) = Some gs_kt" "bds50_speed (getbits m 47 56) = Some tas_kt"
    and b: "b = \<lparr>b50_roll = bds50_roll (getbit m 2) (getbits m 3 11),
      b50_track = turn_angle (getbit m 13) (getbits m 14 23), b50_gs = gs_kt, b50_track_rate = rate, b50_tas = tas_kt\<rparr>"
    and r: "-40 \<le> bds50_roll (getbit m 2) (getbits m 3 11)" "bds50_roll (getbit m 2) (getbits m 3 11) < 40"
    using assms unfolding bds50_parse_def parse_Some option.inject prod.inject
    by (elim exE conjE) (rule that, (assumption | erule sym)+)
  show "-40 \<le> b50_roll b" "b50_roll b < 40" "0 \<le> b50_track b" "b50_track b < 360"
    "50 \<le> b50_gs b \<and> b50_gs b \<le> 700" "50 \<le> b50_tas b \<and> b50_tas b \<le> 700"
    unfolding b bds50.select_convs using t r speed_range [OF s(1)] speed_range [OF s(2)] by blast+
qed

lemma bds60_parse_range:
  assumes "bds60_parse m = Some (b, sc)"
  shows "0 \<le> b60_heading b" "b60_heading b < 360" "50 \<le> b60_ias b \<and> b60_ias b \<le> 700"
    "f64 (1 / 10) \<le> b60_mach b" "b60_mach b \<le> f64 (9 / 10)"
proof -
  have "uint (getbits m 3 12) < 1024" using uint_getbits_less [of 3 12] by simp
  note t = turn_angle_range [OF this]
  obtain ias_kt mach_no br ir where s: "bds60_ias (getbits m 14 23) = Some ias_kt" "bds60_mach (getbits m 25 34) = Some mach_no"
    and b: "b = \<lparr>b60_heading = turn_angle (getbit m 2) (getbits m 3 12), b60_ias = ias_kt, b60_mach = mach_no,
      b60_baro_rate = br, b60_inertial_rate = ir\<rparr>"
    using assms unfolding bds60_parse_def parse_Some option.inject prod.inject
    by (elim exE conjE) (rule that, (assumption | erule sym)+)
  show "0 \<le> b60_heading b" "b60_heading b < 360" "50 \<le> b60_ias b \<and> b60_ias b \<le> 700"
    "f64 (1 / 10) \<le> b60_mach b" "b60_mach b \<le> f64 (9 / 10)"
    unfolding b bds60.select_convs using t ias_range [OF s(1)] mach_range [OF s(2)] by blast+
qed

lemma bds44_parse_range:
  assumes "bds44_parse m = Some (b, sc)"
  shows "b44_wind_speed b \<le> 250" "-80 \<le> b44_temperature b" "b44_temperature b \<le> 60"
proof -
  obtain speed dir sat p tu h s1 s2 where w: "bds44_wind (getbits m 6 14) = Some (speed, s1)"
    and t: "bds44_temperature (getbit m 25) (getbits m 26 34) = Some (sat, s2)"
    and b: "b = \<lparr>b44_source = getbits m 1 4, b44_wind_speed = speed, b44_wind_dir = dir, b44_temperature = sat,
               b44_pressure = p, b44_turbulence = tu, b44_humidity = h\<rparr>"
    using assms unfolding bds44_parse_def parse_Some option.inject prod.inject
    by (elim exE conjE) (rule that, (assumption | erule sym)+)
  show "b44_wind_speed b \<le> 250"
    unfolding b using w by (auto simp: bds44_wind_def Let_def split: if_splits)
  show "-80 \<le> b44_temperature b" "b44_temperature b \<le> 60"
    unfolding b using t by (auto simp: bds44_temperature_def Let_def in_range_def split: if_splits)
qed

lemma bds50_store_fields:
  "commb_format (bds50_store b mm) = COMMB_TRACK_TURN" "roll (bds50_store b mm) = b50_roll b"
  "heading (bds50_store b mm) = b50_track b" "gs_selected (gs (bds50_store b mm)) = of_int (uint (b50_gs b))"
  "tas (bds50_store b mm) = b50_tas b"
  by (cases "b50_track_rate b"; simp add: bds50_store_def Let_def set_some_def)+

lemma bds60_store_fields:
  "commb_format (bds60_store b mm) = COMMB_HEADING_SPEED" "heading (bds60_store b mm) = b60_heading b"
  "ias (bds60_store b mm) = b60_ias b" "mach (bds60_store b mm) = b60_mach b"
  by (cases "b60_baro_rate b"; cases "b60_inertial_rate b"; simp add: bds60_store_def Let_def set_some_def)+

lemma bds44_store_fields:
  "commb_format (bds44_store b mm) = COMMB_MRAR" "wind_valid (bds44_store b mm)"
  "wind_speed (bds44_store b mm) = b44_wind_speed b" "temperature (bds44_store b mm) = b44_temperature b"
  by (cases "b44_pressure b"; cases "b44_turbulence b"; cases "b44_humidity b";
      simp add: bds44_store_def Let_def set_some_def)+

lemma bds40_store_fields: "commb_format (bds40_store b mm) = COMMB_VERTICAL_INTENT"
  by (simp add: bds40_store_def Let_def)

lemma plausible_BDS50: "0 < fst (decodeBDS50 L mm False) \<Longrightarrow> plausible (snd (decodeBDS50 L mm True))"
proof (cases "bds50_parse L (MB_of mm)")
  case (Some x)
  then obtain b sc where p: "bds50_parse L (MB_of mm) = Some (b, sc)" by (cases x) auto
  note r = bds50_parse_range [OF p]
  show ?thesis
    using r speed_rat [OF r(5)]
    by (simp add: decodeBDS50_def p if_do_def plausible_def bds50_store_fields)
qed (simp add: decodeBDS50_def)

lemma plausible_BDS60: "0 < fst (decodeBDS60 mm False) \<Longrightarrow> plausible (snd (decodeBDS60 mm True))"
proof (cases "bds60_parse (MB_of mm)")
  case (Some x)
  then obtain b sc where p: "bds60_parse (MB_of mm) = Some (b, sc)" by (cases x) auto
  show ?thesis
    using bds60_parse_range [OF p]
    by (simp add: decodeBDS60_def p if_do_def plausible_def bds60_store_fields)
qed (simp add: decodeBDS60_def)

lemma plausible_BDS44: "0 < fst (decodeBDS44 mm False) \<Longrightarrow> plausible (snd (decodeBDS44 mm True))"
proof (cases "bds44_parse (MB_of mm)")
  case (Some x)
  then obtain b sc where p: "bds44_parse (MB_of mm) = Some (b, sc)" by (cases x) auto
  show ?thesis
    using bds44_parse_range [OF p]
    by (simp add: decodeBDS44_def p if_do_def plausible_def bds44_store_fields)
qed (simp add: decodeBDS44_def)

lemma plausible_BDS40: "0 < fst (decodeBDS40 mm False) \<Longrightarrow> plausible (snd (decodeBDS40 mm True))"
  by (cases "bds40_parse (MB_of mm)")
    (auto simp: decodeBDS40_def if_do_def plausible_def bds40_store_fields split: prod.splits)

lemma MB_of_update [simp]:
  "MB_of (mm\<lparr>commb_format := f\<rparr>) = MB_of mm" "MB_of (mm\<lparr>callsign := c\<rparr>) = MB_of mm"
  "MB_of (mm\<lparr>callsign_valid := v\<rparr>) = MB_of mm"
  by (simp_all add: MB_of_def)

lemma plausible_BDS20: "0 < fst (decodeBDS20 mm False) \<Longrightarrow> plausible (snd (decodeBDS20 mm True))"
proof (cases "bds20_parse (MB_of mm)")
  case (Some x)
  then obtain ident valid sc where p: "bds20_parse (MB_of mm) = Some (ident, valid, sc)" by (cases x) auto
  have "MB_of mm ! 0 = 0x20" using p by (simp add: bds20_parse_def c_simps split: if_splits)
  then show ?thesis
    by (cases valid) (simp_all add: decodeBDS20_def p if_do_def plausible_def)
qed (simp add: decodeBDS20_def)

lemma plausible_decoders:
  assumes "d \<in> set (comm_b_decoders L)" "0 < fst (d mm False)"
  shows "plausible (snd (d mm True))"
proof -
  have fmt: "plausible (mm\<lparr>commb_format := f\<rparr>)"
    if "f \<in> {COMMB_EMPTY_RESPONSE, COMMB_DATALINK_CAPS, COMMB_ACAS_RA, COMMB_GICB_CAPS, COMMB_AIRBORNE_POSITION}" for f
    using that by (auto simp: plausible_def)
  have "0 < fst (decodeEmptyResponse mm False) \<Longrightarrow> plausible (snd (decodeEmptyResponse mm True))"
    by (cases "MB_of mm ! 0 \<notin> {0x00, 0x40, 0x50, 0x60}"; cases "list_all (\<lambda>i. MB_of mm ! i = 0) [1..<7]")
      (simp_all only: decodeEmptyResponse_def Let_def if_True if_False if_do_def not_True_eq_False not_False_eq_True
        fst_conv snd_conv less_irrefl fmt insertI1)
  moreover have "0 < fst (decodeBDS10 mm False) \<Longrightarrow> plausible (snd (decodeBDS10 mm True))"
    "0 < fst (decodeBDS30 mm False) \<Longrightarrow> plausible (snd (decodeBDS30 mm True))"
    "0 < fst (decodeBDS05 mm False) \<Longrightarrow> plausible (snd (decodeBDS05 mm True))"
    by (simp_all add: decodeBDS10_def decodeBDS30_def decodeBDS05_def if_do_def Let_def fmt
        split: if_splits del: upt_conv_Cons upt_rec_numeral)
  moreover have "0 < fst (decodeBDS17 mm False) \<Longrightarrow> plausible (snd (decodeBDS17 mm True))"
    by (cases "getbits (MB_of mm) 25 56 = 0") (simp_all add: decodeBDS17_def if_do_def Let_def fmt)
  ultimately have rest: ?thesis if "d \<in> {decodeEmptyResponse, decodeBDS10, decodeBDS30, decodeBDS17, decodeBDS05}"
    using assms(2) that by blast
  have "d \<in> {decodeEmptyResponse, decodeBDS10, decodeBDS30, decodeBDS17, decodeBDS05} \<or>
      d = decodeBDS20 \<or> d = decodeBDS40 \<or> d = decodeBDS50 L \<or> d = decodeBDS60 \<or> d = decodeBDS44"
    using assms(1) by (simp add: comm_b_decoders_def) blast
  then show ?thesis
    using rest assms(2) plausible_BDS20 plausible_BDS40 plausible_BDS50 plausible_BDS60 plausible_BDS44
    by (elim disjE) simp_all
qed

text \<open>
  Whatever a Comm-B reply is decoded as, the values stored are physically plausible: a track
  and turn report has a roll angle within 40 degrees and speeds of 50 to 700 kt, a heading and
  speed report a Mach number of 0.1 to 0.9, every angle lies in [0, 360), a meteorological report
  has a temperature of -80 to 60 degrees and at most 250 kt of wind.
\<close>

theorem decodeCommB_plausible:
  "plausible (decodeCommB L mm)"
proof (cases "DR (raw mm) = 0 \<and> UM (raw mm) = 0 \<and> correctedbits mm \<le> 0")
  case True
  let ?best = "best_score (comm_b_decoders L) mm"
  let ?ds = "filter (scores_at mm ?best) (comm_b_decoders L)"
  have eq: "decodeCommB L mm = decodeCommB_spec L mm" using True decodeCommB_eq_spec by blast
  show ?thesis
  proof (cases "?best \<noteq> 0 \<and> length ?ds = 1")
    case True
    then obtain d where d: "?ds = [d]" by (cases ?ds) auto
    then have "d \<in> set ?ds" by simp
    then have "d \<in> set (comm_b_decoders L)" "0 < fst (d mm False)"
      using True best_score_nonneg [of "comm_b_decoders L" mm] by (auto simp: scores_at_def)
    then show ?thesis
      using plausible_decoders True d by (simp add: eq decodeCommB_spec_def)
  next
    case False
    then show ?thesis
      by (auto simp: eq decodeCommB_spec_def Let_def plausible_def split: list.splits)
  qed
qed (auto simp: decodeCommB_def plausible_def)

text \<open>
  The consistency check of \<open>decodeBDS50\<close> between ground speed and true airspeed compares the two
  validity bits instead of the two speeds, so it never lowers a score: a report of 700 kt ground
  speed at 50 kt airspeed scores as high as a consistent one.
\<close>

theorem bds50_speed_check_dead:
  "bds50_inconsistent_speed v_gs v_tas = 0 \<and>
   (case bds50_parse L [0x80, 0x10, 0x01, 0x57, 0x80, 0x04, 0x19] of
      None \<Rightarrow> False
    | Some (b, sc) \<Rightarrow> b50_gs b = 700 \<and> b50_tas b = 50 \<and> sc = 11 + 12 + 11 + 1 + 11)"
proof
  show "bds50_inconsistent_speed v_gs v_tas = 0"
    by (simp add: bds50_inconsistent_speed_def)
  show "case bds50_parse L [0x80, 0x10, 0x01, 0x57, 0x80, 0x04, 0x19] of
      None \<Rightarrow> False
    | Some (b, sc) \<Rightarrow> b50_gs b = 700 \<and> b50_tas b = 50 \<and> sc = 11 + 12 + 11 + 1 + 11"
    by code_simp
qed

end
