(* ===== verification/ModeAC.thy ===== *)
theory ModeAC
  imports Types
begin

text \<open>
  Mode A/C replies: \<^verbatim>\<open>src/mode_ac.c\<close> and the index conversions of \<^verbatim>\<open>src/track.h\<close>. The two tables
  \<open>modeAToCTable\<close> and \<open>modeCToATable\<close> are the state of this component, filled once by
  \<open>modeACInit\<close>, whose \<open>assert\<close> is a branch to \<open>None\<close>. The theorems show that the assertion never
  fires, that the tables are inverse to each other, and which altitudes have a Mode C code.
\<close>

definition modeAToIndex :: "u32 \<Rightarrow> u32" where
  "modeAToIndex modeA = (modeA AND 0x0007) OR drop_bit 1 (modeA AND 0x0070)
     OR drop_bit 2 (modeA AND 0x0700) OR drop_bit 3 (modeA AND 0x7000)"

definition indexToModeA :: "u32 \<Rightarrow> u32" where
  "indexToModeA index = (index AND 0x7) OR push_bit 1 (index AND 0x38)
     OR push_bit 2 (index AND 0x1C0) OR push_bit 3 (index AND 0xE00)"

definition xor_if :: "u32 \<Rightarrow> u32 \<Rightarrow> u32 \<Rightarrow> u32 \<Rightarrow> u32" where
  "xor_if ModeA m v acc = (if ModeA AND m \<noteq> 0 then acc XOR v else acc)"

definition one_hundreds :: "u32 \<Rightarrow> u32" where
  "one_hundreds ModeA =
     (let x = xor_if ModeA 0x0040 0x001 (xor_if ModeA 0x0020 0x003 (xor_if ModeA 0x0010 0x007 0))
      in if x AND 5 = 5 then x XOR 2 else x)"

definition five_hundreds :: "u32 \<Rightarrow> u32" where
  "five_hundreds ModeA =
     xor_if ModeA 0x0400 0x001 (xor_if ModeA 0x0200 0x003 (xor_if ModeA 0x0100 0x007
      (xor_if ModeA 0x4000 0x00F (xor_if ModeA 0x2000 0x01F (xor_if ModeA 0x1000 0x03F
       (xor_if ModeA 0x0004 0x07F (xor_if ModeA 0x0002 0x0FF 0)))))))"

definition internalModeAToModeC :: "u32 \<Rightarrow> int" where
  "internalModeAToModeC ModeA =
     (if ModeA AND 0xFFFF8889 \<noteq> 0 \<or> ModeA AND 0x000000F0 = 0 then INVALID_ALTITUDE
      else let OneHundreds = one_hundreds ModeA in
        if OneHundreds > 5 then INVALID_ALTITUDE
        else let FiveHundreds = five_hundreds ModeA;
                 OneHundreds = (if FiveHundreds AND 1 \<noteq> 0 then 6 - OneHundreds else OneHundreds)
             in sint (FiveHundreds * 5 + OneHundreds - 13))"

record mode_ac_tables =
  modeAToCTable :: "int list"
  modeCToATable :: "u32 list"

definition mode_ac_start :: mode_ac_tables where
  "mode_ac_start = \<lparr>modeAToCTable = replicate 4096 0, modeCToATable = replicate 4096 0\<rparr>"

definition modeACInit_step :: "nat \<Rightarrow> mode_ac_tables \<Rightarrow> mode_ac_tables option" where
  "modeACInit_step i t =
     (let modeA = indexToModeA (of_nat i);
          modeC = internalModeAToModeC modeA;
          t = t\<lparr>modeAToCTable := (modeAToCTable t)[i := modeC]\<rparr>;
          modeC = modeC + 13
      in if modeC \<ge> 0 \<and> modeC < 4096
         then do { c_assert (modeCToATable t ! nat modeC = 0);
                   Some (t\<lparr>modeCToATable := (modeCToATable t)[nat modeC := modeA]\<rparr>) }
         else Some t)"

fun modeACInit_loop :: "nat list \<Rightarrow> mode_ac_tables \<Rightarrow> mode_ac_tables option" where
  "modeACInit_loop [] t = Some t"
| "modeACInit_loop (i # is) t = do { t \<leftarrow> modeACInit_step i t; modeACInit_loop is t }"

definition modeACInit :: "mode_ac_tables \<Rightarrow> mode_ac_tables option" where
  "modeACInit t = modeACInit_loop [0..<4096] t"

definition modeAToModeC :: "mode_ac_tables \<Rightarrow> u32 \<Rightarrow> int" where
  "modeAToModeC t modeA =
     (let i = modeAToIndex modeA in
      if i \<ge> 4096 then INVALID_ALTITUDE else modeAToCTable t ! unat i)"

definition modeCToModeA :: "mode_ac_tables \<Rightarrow> int \<Rightarrow> u32" where
  "modeCToModeA t modeC =
     (let modeC = modeC + 13 in
      if modeC < 0 \<or> modeC \<ge> 4096 then 0 else modeCToATable t ! nat modeC)"

definition decodeModeAMessage :: "mode_ac_tables \<Rightarrow> modesMessage \<Rightarrow> u32 \<Rightarrow> modesMessage" where
  "decodeModeAMessage t mm ModeA =
     (let hi = ucast (drop_bit 8 ModeA) :: u8;
          lo = ucast ModeA :: u8;
          mm = mm\<lparr>source := SOURCE_MODE_AC, addrtype := ADDR_MODE_A, msgtype := 32, msgbits := 16,
                 msg := (msg mm)[0 := hi, 1 := lo], verbatim := (verbatim mm)[0 := hi, 1 := lo],
                 addr := (ModeA AND 0x0000FF7F) OR MODES_NON_ICAO_ADDRESS,
                 squawk := ModeA AND 0x7777, squawk_valid := True,
                 spi := (ModeA AND 0x0080 \<noteq> 0), spi_valid := True\<rparr>;
          mm = (if \<not> spi mm then
                  let modeC = modeAToModeC t ModeA in
                  if modeC \<noteq> INVALID_ALTITUDE
                  then mm\<lparr>altitude_baro := modeC * 100, altitude_baro_unit := UNIT_FEET,
                          altitude_baro_valid := True\<rparr>
                  else mm
                else mm)
      in mm\<lparr>correctedbits := 0\<rparr>)"


subsection \<open>The reference encoding: a Gillham (reflected Gray) code\<close>

definition gray :: "u32 \<Rightarrow> u32" where
  "gray x = x XOR drop_bit 1 x"

definition put_bit :: "u32 \<Rightarrow> nat \<Rightarrow> u32 \<Rightarrow> u32" where
  "put_bit g n m = (if bit g n then m else 0)"

definition gillham_bits :: "u32 \<Rightarrow> u32 \<Rightarrow> u32" where
  "gillham_bits h g = put_bit h 2 0x10 OR put_bit h 1 0x20 OR put_bit h 0 0x40
         OR put_bit g 7 0x2 OR put_bit g 6 0x4 OR put_bit g 5 0x1000 OR put_bit g 4 0x2000
         OR put_bit g 3 0x4000 OR put_bit g 2 0x100 OR put_bit g 1 0x200 OR put_bit g 0 0x400"

definition digit :: "int \<Rightarrow> u32" where
  "digit r = (if r = 5 then 7 else word_of_int r)"

definition gillham :: "int \<Rightarrow> u32" where
  "gillham c =
     (let F = (c + 12) div 5; r = (c + 12) mod 5 + 1;
          r = (if odd F then 6 - r else r)
      in gillham_bits (gray (digit r)) (gray (word_of_int F)))"

lemma and_exp_nonzero: "(a :: u32) AND 2 ^ n \<noteq> 0 \<longleftrightarrow> bit a n" if "n < 32"
  using that by (simp add: and_exp_eq_0_iff_not_bit)

lemma bit_and_flags:
  "(a :: u32) AND 0x0002 \<noteq> 0 \<longleftrightarrow> bit a 1" "a AND 0x0004 \<noteq> 0 \<longleftrightarrow> bit a 2"
  "a AND 0x0010 \<noteq> 0 \<longleftrightarrow> bit a 4" "a AND 0x0020 \<noteq> 0 \<longleftrightarrow> bit a 5" "a AND 0x0040 \<noteq> 0 \<longleftrightarrow> bit a 6"
  "a AND 0x0100 \<noteq> 0 \<longleftrightarrow> bit a 8" "a AND 0x0200 \<noteq> 0 \<longleftrightarrow> bit a 9" "a AND 0x0400 \<noteq> 0 \<longleftrightarrow> bit a 10"
  "a AND 0x1000 \<noteq> 0 \<longleftrightarrow> bit a 12" "a AND 0x2000 \<noteq> 0 \<longleftrightarrow> bit a 13" "a AND 0x4000 \<noteq> 0 \<longleftrightarrow> bit a 14"
  using and_exp_nonzero [of 1 a] and_exp_nonzero [of 2 a] and_exp_nonzero [of 4 a]
    and_exp_nonzero [of 5 a] and_exp_nonzero [of 6 a] and_exp_nonzero [of 8 a]
    and_exp_nonzero [of 9 a] and_exp_nonzero [of 10 a] and_exp_nonzero [of 12 a]
    and_exp_nonzero [of 13 a] and_exp_nonzero [of 14 a] by simp_all

lemma bit_five_hundreds:
  "bit (five_hundreds a) n \<longleftrightarrow>
     ((((((((bit a 1 \<and> n < 8) \<noteq> (bit a 2 \<and> n < 7)) \<noteq> (bit a 12 \<and> n < 6)) \<noteq> (bit a 13 \<and> n < 5))
       \<noteq> (bit a 14 \<and> n < 4)) \<noteq> (bit a 8 \<and> n < 3)) \<noteq> (bit a 9 \<and> n < 2)) \<noteq> (bit a 10 \<and> n < 1))"
proof -
  have m: "bit (mask j :: u32) n \<longleftrightarrow> n < j" if "j \<le> 32" for j
    using that by (auto simp: bit_mask_iff)
  have q: "bit (0xFF :: u32) n \<longleftrightarrow> n < 8" "bit (0x7F :: u32) n \<longleftrightarrow> n < 7" "bit (0x3F :: u32) n \<longleftrightarrow> n < 6"
    "bit (0x1F :: u32) n \<longleftrightarrow> n < 5" "bit (0xF :: u32) n \<longleftrightarrow> n < 4" "bit (7 :: u32) n \<longleftrightarrow> n < 3"
    "bit (3 :: u32) n \<longleftrightarrow> n < 2" "bit (1 :: u32) n \<longleftrightarrow> n < 1"
    using m [of 8] m [of 7] m [of 6] m [of 5] m [of 4] m [of 3] m [of 2] m [of 1]
    by (simp_all add: mask_eq_exp_minus_1)
  have x: "bit (xor_if a f v acc) n \<longleftrightarrow> (bit acc n \<noteq> (a AND f \<noteq> 0 \<and> bit v n))" for f v acc
    by (auto simp: xor_if_def bit_xor_iff)
  show ?thesis
    unfolding five_hundreds_def x bit_and_flags q by (simp only: bit_0_eq bot_apply bot_bool_def simp_thms)
qed

lemma bit_gray: "bit (gray x) n \<longleftrightarrow> bit x n \<noteq> bit x (Suc n)"
  by (auto simp: gray_def bit_xor_iff bit_drop_bit_eq)

lemma bit_gillham:
  "bit (put_bit h 2 0x10 OR put_bit h 1 0x20 OR put_bit h 0 0x40
         OR put_bit g 7 0x2 OR put_bit g 6 0x4 OR put_bit g 5 0x1000 OR put_bit g 4 0x2000
         OR put_bit g 3 0x4000 OR put_bit g 2 0x100 OR put_bit g 1 0x200 OR put_bit g 0 0x400) n \<longleftrightarrow>
   (n = 4 \<and> bit h 2 \<or> n = 5 \<and> bit h 1 \<or> n = 6 \<and> bit h 0 \<or> n = 1 \<and> bit g 7 \<or> n = 2 \<and> bit g 6
    \<or> n = 12 \<and> bit g 5 \<or> n = 13 \<and> bit g 4 \<or> n = 14 \<and> bit g 3 \<or> n = 8 \<and> bit g 2 \<or> n = 9 \<and> bit g 1
    \<or> n = 10 \<and> bit g 0)"
proof -
  have p: "bit (put_bit x k (2 ^ j)) n \<longleftrightarrow> n = j \<and> bit x k" if "j < 32" for x k j
    using that by (auto simp: put_bit_def bit_exp_iff)
  have q: "bit (put_bit x k 0x10) n \<longleftrightarrow> n = 4 \<and> bit x k" "bit (put_bit x k 0x20) n \<longleftrightarrow> n = 5 \<and> bit x k"
    "bit (put_bit x k 0x40) n \<longleftrightarrow> n = 6 \<and> bit x k" "bit (put_bit x k 0x2) n \<longleftrightarrow> n = 1 \<and> bit x k"
    "bit (put_bit x k 0x4) n \<longleftrightarrow> n = 2 \<and> bit x k" "bit (put_bit x k 0x1000) n \<longleftrightarrow> n = 12 \<and> bit x k"
    "bit (put_bit x k 0x2000) n \<longleftrightarrow> n = 13 \<and> bit x k" "bit (put_bit x k 0x4000) n \<longleftrightarrow> n = 14 \<and> bit x k"
    "bit (put_bit x k 0x100) n \<longleftrightarrow> n = 8 \<and> bit x k" "bit (put_bit x k 0x200) n \<longleftrightarrow> n = 9 \<and> bit x k"
    "bit (put_bit x k 0x400) n \<longleftrightarrow> n = 10 \<and> bit x k" for x k
    using p [of 4 x k] p [of 5 x k] p [of 6 x k] p [of 1 x k] p [of 2 x k] p [of 12 x k]
      p [of 13 x k] p [of 14 x k] p [of 8 x k] p [of 9 x k] p [of 10 x k] by simp_all
  show ?thesis
    unfolding bit_or_iff q by blast
qed

lemmas bit_gillham_bits = bit_gillham [folded gillham_bits_def]

lemma unat_less_exp: "unat (x :: 'a :: len word) < 2 ^ k" if "x < 2 ^ k"
proof -
  have "unat (2 ^ k :: 'a word) = 2 ^ k mod 2 ^ LENGTH('a)"
    using unsigned_of_nat [of "2 ^ k", where ?'b = 'a and ?'a = nat] by (simp add: take_bit_eq_mod)
  then have "unat (2 ^ k :: 'a word) \<le> 2 ^ k" by simp
  then show ?thesis using unat_mono [OF that] by linarith
qed

lemma high_bits_zero: "\<not> bit (x :: 'a :: len word) n" if "x < 2 ^ k" and "k \<le> n"
proof
  assume b: "bit x n"
  have "unat x < 2 ^ n"
    using unat_less_exp [OF that(1)] that(2) by (metis less_le_trans one_le_numeral power_increasing)
  moreover have "bit (unat x) n" using b by (simp add: bit_unsigned_iff bit_imp_le_length)
  ultimately show False by (simp add: bit_iff_odd)
qed

lemma less_8_cases: "(n :: nat) < 8 \<longleftrightarrow> n \<in> {0, 1, 2, 3, 4, 5, 6, 7}"
  unfolding insert_iff empty_iff by presburger

lemma five_hundreds_gillham: "F < 256 \<Longrightarrow> five_hundreds (gillham_bits h (gray F)) = F"
proof (rule bit_word_eqI)
  fix n assume F: "F < 256"
  have z: "\<not> bit F 8" "8 \<le> n \<Longrightarrow> \<not> bit F n"
    using high_bits_zero [of F 8] F by auto
  show "bit (five_hundreds (gillham_bits h (gray F))) n = bit F n"
  proof (cases "n < 8")
    case True
    then show ?thesis
      unfolding less_8_cases insert_iff empty_iff bit_five_hundreds bit_gillham_bits bit_gray
      using z(1) by (elim disjE; simp add: numeral_2_eq_2 [symmetric]; satx)
  next
    case False
    then show ?thesis using z(2) by (simp add: bit_five_hundreds)
  qed
qed


lemma one_to_five: "1 \<le> (r :: int) \<Longrightarrow> r \<le> 5 \<Longrightarrow> r = 1 \<or> r = 2 \<or> r = 3 \<or> r = 4 \<or> r = 5"
  by auto

lemma one_hundreds_bits:
  "one_hundreds a =
     (if bit a 4 then if bit a 5 then if bit a 6 then 7 else 4 else if bit a 6 then 6 else 5
      else if bit a 5 then if bit a 6 then 2 else 3 else if bit a 6 then 1 else 0)"
  unfolding one_hundreds_def xor_if_def bit_and_flags by (simp add: Let_def)

lemma one_hundreds_gillham:
  assumes "1 \<le> r" "r \<le> 5"
  shows "one_hundreds (gillham_bits (gray (digit r)) g) = word_of_int r"
  unfolding one_hundreds_bits bit_gillham_bits bit_gray
  using one_to_five [OF assms] by (elim disjE) (simp_all add: digit_def)

lemma bit_u32_below: "(\<forall>n \<in> set [0..<32]. bit (c :: u32) n = P n) \<Longrightarrow> bit c n \<longleftrightarrow> n < 32 \<and> P n"
  using bit_imp_le_length [of c n] by (cases "n < 32") auto

lemma bit_illegal: "bit (0xFFFF8889 :: u32) n \<longleftrightarrow> n < 32 \<and> (n = 0 \<or> n = 3 \<or> n = 7 \<or> n = 11 \<or> 15 \<le> n)"
  by (rule bit_u32_below) code_simp

lemma legal_bits: "(a :: u32) AND 0xFFFF8889 = 0 \<longleftrightarrow>
    (\<forall>n. bit a n \<longrightarrow> n \<in> {1, 2, 4, 5, 6, 8, 9, 10, 12, 13, 14})" (is "?l \<longleftrightarrow> ?r")
proof
  assume l: ?l
  show ?r
  proof (intro allI impI)
    fix n assume b: "bit a n"
    have "\<not> bit (0xFFFF8889 :: u32) n" using b l by (metis bit_0_eq bit_and_iff bot_apply bot_bool_def)
    moreover have "n < 32" using bit_imp_le_length [OF b] by simp
    ultimately show "n \<in> {1, 2, 4, 5, 6, 8, 9, 10, 12, 13, 14}" unfolding bit_illegal insert_iff empty_iff by presburger
  qed
next
  assume ?r
  then show ?l by (intro bit_word_eqI) (auto simp: bit_and_iff bit_illegal)
qed

lemma bit_F0: "bit (0xF0 :: u32) n \<longleftrightarrow> n < 32 \<and> (n = 4 \<or> n = 5 \<or> n = 6 \<or> n = 7)"
  by (rule bit_u32_below) code_simp

lemma u32_zero_iff: "(a :: u32) = 0 \<longleftrightarrow> (\<forall>n. \<not> bit a n)"
  by (auto intro: bit_word_eqI)

lemma no_c_bits: "(a :: u32) AND 0xF0 = 0 \<longleftrightarrow> (\<forall>n \<in> {4, 5, 6, 7}. \<not> bit a n)"
proof
  assume "a AND 0xF0 = 0"
  then have "\<forall>n. \<not> (bit a n \<and> n < 32 \<and> (n = 4 \<or> n = 5 \<or> n = 6 \<or> n = 7))"
    unfolding u32_zero_iff bit_and_iff bit_F0 .
  from spec [OF this, of 4] spec [OF this, of 5] spec [OF this, of 6] spec [OF this, of 7]
  show "\<forall>n \<in> {4, 5, 6, 7}. \<not> bit a n" by simp
next
  assume "\<forall>n \<in> {4, 5, 6, 7}. \<not> bit a n"
  then show "a AND 0xF0 = 0"
    unfolding u32_zero_iff bit_and_iff bit_F0 by auto
qed

lemma sint_word_of_int_u32: "- (2 ^ 31) \<le> k \<Longrightarrow> k < 2 ^ 31 \<Longrightarrow> sint (word_of_int k :: u32) = k"
  by (simp add: signed_of_int signed_take_bit_int_eq_self)

lemma word_mod_2_word_of_int: "(word_of_int f :: u32) mod 2 = 1 \<longleftrightarrow> f mod 2 = 1" if "0 \<le> f" "f < 256"
proof -
  have "uint ((word_of_int f :: u32) mod 2) = f mod 2"
    using that by (simp add: uint_mod uint_word_of_int)
  then show ?thesis by (metis uint_1_eq word_uint_eq_iff)
qed

lemma word_of_int_less_u32: "0 \<le> k \<Longrightarrow> k < 2 ^ 32 \<Longrightarrow> (word_of_int k :: u32) < word_of_int m \<longleftrightarrow> k < m mod 2 ^ 32"
  by (simp add: word_less_def uint_word_of_int)

lemma internal_gillham:
  assumes f: "0 \<le> f" "f < 256" and r: "1 \<le> r" "r \<le> 5"
  shows "internalModeAToModeC (gillham_bits (gray (digit r)) (gray (word_of_int f))) =
           5 * f + (if odd f then 6 - r else r) - 13"
proof -
  let ?a = "gillham_bits (gray (digit r)) (gray (word_of_int f))"
  have F: "(word_of_int f :: u32) < 256"
    using word_of_int_less_u32 [of f 256] f by simp
  have "?a AND 0xFFFF8889 = 0"
    unfolding legal_bits bit_gillham_bits by auto
  moreover have "?a AND 0xF0 \<noteq> 0"
    unfolding no_c_bits bit_gillham_bits bit_gray
    using one_to_five [OF r] by (elim disjE) (simp_all add: digit_def)
  moreover have "\<not> (word_of_int r :: u32) > 5"
    using word_of_int_less_u32 [of 5 r] r by simp
  moreover have "(word_of_int f :: u32) AND 1 \<noteq> 0 \<longleftrightarrow> odd f"
    using word_mod_2_word_of_int [OF f] by (simp add: and_one_eq odd_iff_mod_2_eq_one) 
  ultimately show ?thesis
    unfolding internalModeAToModeC_def
    using sint_word_of_int_u32 [of "5 * f + (if odd f then 6 - r else r) - 13"] f r
    by (auto simp: Let_def five_hundreds_gillham [OF F] one_hundreds_gillham [OF r] algebra_simps)
qed

lemma internal_cases:
  assumes "internalModeAToModeC a \<noteq> INVALID_ALTITUDE"
  obtains f r where "0 \<le> f" "f < 256" "1 \<le> r" "r \<le> 5"
    "a = gillham_bits (gray (digit r)) (gray (word_of_int f))"
proof -
  let ?F = "five_hundreds a"
  define f where "f = uint ?F"
  have l: "a AND 0xFFFF8889 = 0" "a AND 0xF0 \<noteq> 0" and le: "\<not> one_hundreds a > 5"
    using assms by (auto simp: internalModeAToModeC_def Let_def split: if_splits)
  have hi: "\<not> bit ?F n" if "8 \<le> n" for n
    using that by (simp add: bit_five_hundreds)
  have "take_bit 8 ?F = ?F"
    using hi by (intro bit_word_eqI) (auto simp: bit_take_bit_iff, meson not_less)
  then have "uint ?F = take_bit 8 (uint ?F)"
    by (metis unsigned_take_bit_eq)
  then have "uint ?F < 256"
    using take_bit_int_less_exp [of 8 "uint ?F"] by simp
  then have f: "0 \<le> f" "f < 256" and F: "word_of_int f = ?F"
    by (simp_all add: f_def word_less_def)
  have c: "bit a 4 \<or> bit a 5 \<or> bit a 6"
    using l unfolding no_c_bits legal_bits by auto
  define r where "r = uint (one_hundreds a)"
  have r: "1 \<le> r" "r \<le> 5"
    using c le by (auto simp: r_def one_hundreds_bits split: if_splits)
  have h: "bit (gray (digit r)) 2 = bit a 4" "bit (gray (digit r)) 1 = bit a 5"
    "bit (gray (digit r)) 0 = bit a 6"
    using c le by (auto simp: r_def one_hundreds_bits digit_def bit_gray split: if_splits)
  have g: "bit (gray ?F) 7 = bit a 1" "bit (gray ?F) 6 = bit a 2" "bit (gray ?F) 5 = bit a 12"
    "bit (gray ?F) 4 = bit a 13" "bit (gray ?F) 3 = bit a 14" "bit (gray ?F) 2 = bit a 8"
    "bit (gray ?F) 1 = bit a 9" "bit (gray ?F) 0 = bit a 10"
    unfolding bit_gray bit_five_hundreds by (simp; satx)+
  have "a = gillham_bits (gray (digit r)) (gray ?F)"
  proof (rule bit_word_eqI)
    fix n
    show "bit a n = bit (gillham_bits (gray (digit r)) (gray ?F)) n"
    proof (cases "n \<in> {1, 2, 4, 5, 6, 8, 9, 10, 12, 13, 14}")
      case True
      then show ?thesis
        unfolding bit_gillham_bits h g insert_iff empty_iff by (elim disjE) simp_all
    next
      case False
      then have "\<not> bit a n" using l(1) unfolding legal_bits by blast
      then show ?thesis
        using False unfolding bit_gillham_bits h g insert_iff empty_iff by simp
    qed
  qed
  then show thesis using that [of f r] f r F by simp
qed

lemma gillham_eq:
  assumes "0 \<le> f" "f < 256" "1 \<le> r" "r \<le> 5"
  shows "gillham (5 * f + (if odd f then 6 - r else r) - 13) = gillham_bits (gray (digit r)) (gray (word_of_int f))"
proof -
  define r' where "r' = (if odd f then 6 - r else r)"
  have r': "1 \<le> r'" "r' \<le> 5" and r: "(if odd f then 6 - r' else r') = r" using assms by (auto simp: r'_def)
  have d: "(5 * f + r' - 13 + 12) div 5 = f" "(5 * f + r' - 13 + 12) mod 5 + 1 = r'"
    using r' by presburger+
  show ?thesis
    unfolding gillham_def r'_def [symmetric] Let_def d r ..
qed

text \<open>Altitudes with a code run from -1200 to 126700 ft; \<open>gillham\<close> and the decoder are inverse on them.\<close>

lemma internal_inverse:
  assumes "-12 \<le> c" "c \<le> 1267"
  shows "internalModeAToModeC (gillham c) = c"
proof -
  define f where "f = (c + 12) div 5"
  define r' where "r' = (c + 12) mod 5 + 1"
  define r where "r = (if odd f then 6 - r' else r')"
  have f: "0 \<le> f" "f < 256" using assms by (auto simp: f_def)
  have r: "1 \<le> r" "r \<le> 5" by (auto simp: r_def r'_def)
  have "c = 5 * f + r' - 13" by (simp add: f_def r'_def)
  also have "r' = (if odd f then 6 - r else r)" by (simp add: r_def)
  finally have c: "c = 5 * f + (if odd f then 6 - r else r) - 13" .
  show ?thesis
    unfolding c gillham_eq [OF f r] by (rule internal_gillham [OF f r])
qed

lemma internal_range:
  assumes "internalModeAToModeC a \<noteq> INVALID_ALTITUDE"
  shows "-12 \<le> internalModeAToModeC a \<and> internalModeAToModeC a \<le> 1267 \<and> gillham (internalModeAToModeC a) = a"
proof -
  from internal_cases [OF assms] obtain f r where
    fr: "0 \<le> f" "f < 256" "1 \<le> r" "r \<le> 5" and a: "a = gillham_bits (gray (digit r)) (gray (word_of_int f))" .
  show ?thesis
    unfolding a internal_gillham [OF fr] gillham_eq [OF fr] using fr by auto
qed

lemma gillham_legal: "-12 \<le> c \<Longrightarrow> c \<le> 1267 \<Longrightarrow> gillham c AND 0xFFFF8889 = 0"
  unfolding gillham_def Let_def legal_bits bit_gillham_bits by auto

lemma bit_index_const: "bit (7 :: u32) n \<longleftrightarrow> n < 32 \<and> n < 3" "bit (0x70 :: u32) n \<longleftrightarrow> n < 32 \<and> (4 \<le> n \<and> n < 7)"
  "bit (0x700 :: u32) n \<longleftrightarrow> n < 32 \<and> (8 \<le> n \<and> n < 11)" "bit (0x7000 :: u32) n \<longleftrightarrow> n < 32 \<and> (12 \<le> n \<and> n < 15)"
  "bit (0x38 :: u32) n \<longleftrightarrow> n < 32 \<and> (3 \<le> n \<and> n < 6)" "bit (0x1C0 :: u32) n \<longleftrightarrow> n < 32 \<and> (6 \<le> n \<and> n < 9)"
  "bit (0xE00 :: u32) n \<longleftrightarrow> n < 32 \<and> (9 \<le> n \<and> n < 12)"
  "bit (0x7777 :: u32) n \<longleftrightarrow> n < 32 \<and> (n < 15 \<and> n mod 4 < 3)"
  "bit (0xFFF :: u32) n \<longleftrightarrow> n < 32 \<and> n < 12"
  by (rule bit_u32_below, code_simp)+

lemma less_15_cases: "(n :: nat) < 15 \<longleftrightarrow> n \<in> {0, 1, 2, 3, 4, 5, 6, 7, 8, 9, 10, 11, 12, 13, 14}"
  unfolding insert_iff empty_iff by presburger

lemma bit_index:
  "bit (modeAToIndex a) n \<longleftrightarrow> (n < 3 \<and> bit a n \<or> 3 \<le> n \<and> n < 6 \<and> bit a (n + 1)
     \<or> 6 \<le> n \<and> n < 9 \<and> bit a (n + 2) \<or> 9 \<le> n \<and> n < 12 \<and> bit a (n + 3))"
  unfolding modeAToIndex_def bit_or_iff bit_and_iff bit_drop_bit_eq o_def bit_index_const
  by (cases "n < 15"; (unfold less_15_cases insert_iff empty_iff, elim disjE)?; simp)

lemma bit_unindex:
  "bit (indexToModeA i) n \<longleftrightarrow> (n < 3 \<and> bit i n \<or> 4 \<le> n \<and> n < 7 \<and> bit i (n - 1)
     \<or> 8 \<le> n \<and> n < 11 \<and> bit i (n - 2) \<or> 12 \<le> n \<and> n < 15 \<and> bit i (n - 3))"
  unfolding indexToModeA_def bit_or_iff bit_and_iff bit_push_bit_iff bit_index_const
  by (cases "n < 15"; (unfold less_15_cases insert_iff empty_iff, elim disjE)?; simp?; linarith?)

lemma index_of_modeA: "modeAToIndex (indexToModeA i) = i AND 0xFFF"
proof (rule bit_word_eqI)
  fix n
  show "bit (modeAToIndex (indexToModeA i)) n = bit (i AND 0xFFF) n"
    unfolding bit_and_iff bit_index_const bit_index bit_unindex
    by (cases "n < 15"; (unfold less_15_cases insert_iff empty_iff, elim disjE)?; simp)
qed

lemma modeA_of_index: "indexToModeA (modeAToIndex a) = a AND 0x7777"
proof (rule bit_word_eqI)
  fix n
  show "bit (indexToModeA (modeAToIndex a)) n = bit (a AND 0x7777) n"
    unfolding bit_and_iff bit_index_const bit_index bit_unindex
    by (cases "n < 15"; (unfold less_15_cases insert_iff empty_iff, elim disjE)?; simp)
qed

subsection \<open>The tables\<close>

definition coded :: "nat \<Rightarrow> bool" where
  "coded m \<longleftrightarrow> 1 \<le> m \<and> m \<le> 1280"

definition tables_upto :: "nat \<Rightarrow> mode_ac_tables \<Rightarrow> bool" where
  "tables_upto k t \<longleftrightarrow> length (modeAToCTable t) = 4096 \<and> length (modeCToATable t) = 4096 \<and>
     (\<forall>i < k. modeAToCTable t ! i = internalModeAToModeC (indexToModeA (of_nat i))) \<and>
     (\<forall>m < 4096. modeCToATable t ! m =
        (if coded m \<and> unat (modeAToIndex (gillham (int m - 13))) < k then gillham (int m - 13) else 0))"

lemma tables_uptoD:
  assumes "tables_upto k t"
  shows "length (modeAToCTable t) = 4096" "length (modeCToATable t) = 4096"
    "i < k \<Longrightarrow> modeAToCTable t ! i = internalModeAToModeC (indexToModeA (of_nat i))"
    "m < 4096 \<Longrightarrow> modeCToATable t ! m =
        (if coded m \<and> unat (modeAToIndex (gillham (int m - 13))) < k then gillham (int m - 13) else 0)"
  using assms by (simp_all add: tables_upto_def)

lemma of_nat_AND_FFF: "i < 4096 \<Longrightarrow> (of_nat i :: u32) AND 0xFFF = of_nat i"
proof -
  assume i: "i < 4096"
  have "(of_nat i :: u32) AND mask 12 = take_bit 12 (of_nat i)"
    by (simp add: take_bit_eq_mask)
  also have "\<dots> = of_nat (take_bit 12 i)" by (rule take_bit_of_nat)
  also have "take_bit 12 i = i" using i by (simp add: take_bit_nat_eq_self)
  finally show ?thesis by (simp add: mask_eq_exp_minus_1)
qed

lemma unat_index_of_modeA: "i < 4096 \<Longrightarrow> unat (modeAToIndex (indexToModeA (of_nat i))) = i"
  by (simp add: index_of_modeA of_nat_AND_FFF unat_of_nat take_bit_nat_eq_self)

lemma gillham_indexed:
  assumes "coded m"
  shows "indexToModeA (modeAToIndex (gillham (int m - 13))) = gillham (int m - 13)"
proof -
  have m: "-12 \<le> int m - 13" "int m - 13 \<le> 1267" using assms by (auto simp: coded_def)
  show ?thesis
    unfolding modeA_of_index
  proof (rule bit_word_eqI)
    fix n
    have "bit (gillham (int m - 13)) n \<Longrightarrow> n \<in> {1, 2, 4, 5, 6, 8, 9, 10, 12, 13, 14}"
      using gillham_legal [OF m] unfolding legal_bits by blast
    then show "bit (gillham (int m - 13) AND 0x7777) n = bit (gillham (int m - 13)) n"
      unfolding bit_and_iff bit_index_const insert_iff empty_iff by auto
  qed
qed

lemma modeACInit_step_upto:
  assumes t: "tables_upto k t" and k: "k < 4096"
  shows "\<exists>t'. modeACInit_step k t = Some t' \<and> tables_upto (Suc k) t'"
proof -
  let ?a = "indexToModeA (of_nat k) :: u32"
  let ?c = "internalModeAToModeC ?a"
  note D = tables_uptoD [OF t]
  have idx: "unat (modeAToIndex ?a) = k" using k by (rule unat_index_of_modeA)
  have same: "unat (modeAToIndex (gillham (int m - 13))) = k \<longleftrightarrow> gillham (int m - 13) = ?a"
    if "coded m" for m
  proof
    assume u: "unat (modeAToIndex (gillham (int m - 13))) = k"
    then have "modeAToIndex (gillham (int m - 13)) = modeAToIndex ?a"
      using idx by (simp add: word_unat_eq_iff)
    also have "\<dots> = of_nat k" using k by (simp add: index_of_modeA of_nat_AND_FFF)
    finally show "gillham (int m - 13) = ?a" using gillham_indexed [OF that] by simp
  qed (use idx in simp)
  have A: "\<forall>i < Suc k. (modeAToCTable t)[k := ?c] ! i = internalModeAToModeC (indexToModeA (of_nat i))"
    using D(1,3) k by (auto simp: nth_list_update less_Suc_eq)
  show ?thesis
  proof (cases "?c = INVALID_ALTITUDE")
    case True
    have no: "\<not> (coded m \<and> unat (modeAToIndex (gillham (int m - 13))) = k)" for m
      using same [of m] internal_inverse [of "int m - 13"] True
      by (auto simp: coded_def INVALID_ALTITUDE_def)
    have "\<forall>m < 4096. modeCToATable t ! m =
        (if coded m \<and> unat (modeAToIndex (gillham (int m - 13))) < Suc k then gillham (int m - 13) else 0)"
      using D(4) no by (metis less_Suc_eq)
    then show ?thesis
      using True A D(1,2) by (simp add: modeACInit_step_def Let_def INVALID_ALTITUDE_def tables_upto_def)
  next
    case False
    note c = internal_range [OF False]
    define m where "m = nat (?c + 13)"
    have m: "coded m" "m < 4096" "int m - 13 = ?c" using c by (auto simp: m_def coded_def)
    have ga: "gillham (int m - 13) = ?a" using c m(3) by simp
    have free: "modeCToATable t ! m = 0"
      using D(4) [OF m(2)] ga idx by simp
    have only: "coded m' \<and> unat (modeAToIndex (gillham (int m' - 13))) = k \<longleftrightarrow> m' = m" for m'
    proof
      assume m': "coded m' \<and> unat (modeAToIndex (gillham (int m' - 13))) = k"
      then have "gillham (int m' - 13) = gillham (int m - 13)" using same ga by metis
      moreover have "-12 \<le> int m' - 13" "int m' - 13 \<le> 1267" "-12 \<le> int m - 13" "int m - 13 \<le> 1267"
        using m' m(1) by (auto simp: coded_def)
      ultimately have "int m' - 13 = int m - 13" by (metis internal_inverse)
      then show "m' = m" by simp
    qed (use m(1) ga idx in auto)
    have "\<forall>m' < 4096. (modeCToATable t)[m := ?a] ! m' =
        (if coded m' \<and> unat (modeAToIndex (gillham (int m' - 13))) < Suc k then gillham (int m' - 13) else 0)"
    proof (intro allI impI)
      fix m' :: nat assume m': "m' < 4096"
      show "(modeCToATable t)[m := ?a] ! m' =
        (if coded m' \<and> unat (modeAToIndex (gillham (int m' - 13))) < Suc k then gillham (int m' - 13) else 0)"
      proof (cases "m' = m")
        case True
        then show ?thesis using m' D(2) m(1) ga idx by simp
      next
        case False
        then show ?thesis using m' D(4) [OF m'] only [of m'] by (simp add: less_Suc_eq) blast
      qed
    qed
    then show ?thesis
      using c free A D(1,2) m by (simp add: modeACInit_step_def Let_def c_simps tables_upto_def flip: m_def)
  qed
qed

lemma modeACInit_loop_upto:
  "tables_upto k t \<Longrightarrow> k + n \<le> 4096 \<Longrightarrow>
   \<exists>t'. modeACInit_loop [k..<k + n] t = Some t' \<and> tables_upto (k + n) t'"
proof (induction n arbitrary: k t)
  case (Suc n)
  obtain t1 where t1: "modeACInit_step k t = Some t1" "tables_upto (Suc k) t1"
    using modeACInit_step_upto [of k t] Suc.prems by auto
  show ?case
    using Suc.IH [OF t1(2)] Suc.prems t1(1) by (simp add: upt_conv_Cons del: upt_Suc)
qed simp

lemma tables_start: "tables_upto 0 mode_ac_start"
  by (simp add: tables_upto_def mode_ac_start_def)

lemma modeACInit_Some:
  obtains t where "modeACInit mode_ac_start = Some t" "tables_upto 4096 t"
  using modeACInit_loop_upto [OF tables_start, of 4096] that unfolding modeACInit_def by auto

lemma modeACInit_upto: "modeACInit mode_ac_start = Some t \<Longrightarrow> tables_upto 4096 t"
  using modeACInit_Some by (metis option.inject)

lemma modeAToIndex_less: "unat (modeAToIndex a) < 4096"
proof -
  have "modeAToIndex a = modeAToIndex a AND 0xFFF"
    by (rule bit_word_eqI) (unfold bit_and_iff bit_index_const bit_index, auto)
  then have "modeAToIndex a = take_bit 12 (modeAToIndex a)"
    by (simp add: take_bit_eq_mask mask_eq_exp_minus_1)
  then have "unat (modeAToIndex a) = take_bit 12 (unat (modeAToIndex a))"
    by (metis unsigned_take_bit_eq)
  then show ?thesis using take_bit_nat_less_exp [of 12 "unat (modeAToIndex a)"] by simp
qed

lemma modeAToModeC_eq:
  assumes "tables_upto 4096 t"
  shows "modeAToModeC t a = internalModeAToModeC (a AND 0x7777)"
proof -
  have "\<not> modeAToIndex a \<ge> 4096" using modeAToIndex_less [of a] by (simp add: word_le_nat_alt)
  then show ?thesis
    using tables_uptoD(3) [OF assms modeAToIndex_less [of a]]
    by (simp add: modeAToModeC_def Let_def modeA_of_index)
qed

lemma modeCToModeA_eq:
  assumes "tables_upto 4096 t"
  shows "modeCToModeA t c = (if -12 \<le> c \<and> c \<le> 1267 then gillham c else 0)"
  using tables_uptoD(4) [OF assms, of "nat (c + 13)"] modeAToIndex_less [of "gillham c"]
  by (auto simp: modeCToModeA_def Let_def coded_def)

lemma internal_masked_0: "internalModeAToModeC 0 = INVALID_ALTITUDE"
  by (simp add: internalModeAToModeC_def)

text \<open>
  \<open>modeACInit\<close> always completes: no two Mode A codes decode to the same altitude, so its
  assertion never fires; afterwards the table lookup of \<open>modeAToModeC\<close> gives, for every
  argument, what \<open>internalModeAToModeC\<close> computes from the twelve code bits.
\<close>

theorem modeACInit_correct:
  "\<exists>t. modeACInit mode_ac_start = Some t \<and>
     (\<forall>modeA. modeAToModeC t modeA = internalModeAToModeC (modeA AND 0x7777))"
  using modeACInit_Some modeAToModeC_eq by metis

text \<open>
  C19. The two tables are inverse to each other: every altitude from -1200 ft to 126700 ft has a
  Mode A code that decodes to it, every other altitude has none (0, which decodes to no altitude),
  and a Mode A code that decodes to an altitude is the code of that altitude.
\<close>

theorem modeAC_roundtrip:
  "case modeACInit mode_ac_start of
     None \<Rightarrow> False
   | Some t \<Rightarrow>
       modeAToModeC t (modeCToModeA t c) = (if -12 \<le> c \<and> c \<le> 1267 then c else INVALID_ALTITUDE) \<and>
       (modeAToModeC t modeA = INVALID_ALTITUDE \<or>
        modeCToModeA t (modeAToModeC t modeA) = modeA AND 0x7777)"
proof -
  obtain t where t: "modeACInit mode_ac_start = Some t" and u: "tables_upto 4096 t"
    by (rule modeACInit_Some)
  have g: "gillham c AND 0x7777 = gillham c" if "-12 \<le> c" "c \<le> 1267"
  proof -
    have "coded (nat (c + 13))" using that unfolding coded_def by arith
    from gillham_indexed [OF this] show ?thesis using that by (simp add: modeA_of_index)
  qed
  have A: "modeAToModeC t (modeCToModeA t c) = (if -12 \<le> c \<and> c \<le> 1267 then c else INVALID_ALTITUDE)"
    by (auto simp: modeAToModeC_eq [OF u] modeCToModeA_eq [OF u] g internal_inverse internal_masked_0)
  have B: "modeCToModeA t (modeAToModeC t modeA) = modeA AND 0x7777"
    if "modeAToModeC t modeA \<noteq> INVALID_ALTITUDE"
    using internal_range [of "modeA AND 0x7777"] that
    by (simp add: modeAToModeC_eq [OF u] modeCToModeA_eq [OF u])
  show ?thesis using A B by (simp add: t) blast
qed

text \<open>
  \<open>decodeModeAMessage\<close> on any reply: the squawk is the twelve code bits and the address
  carries the non-ICAO flag; an altitude is reported exactly when the reply has no SPI pulse and
  its code is a Mode C code, and it is then a hundred times the decoded value.
\<close>

theorem decodeModeAMessage_correct:
  "case modeACInit mode_ac_start of
     None \<Rightarrow> False
   | Some t \<Rightarrow>
       (let mm' = decodeModeAMessage t zeroMessage ModeA; c = internalModeAToModeC (ModeA AND 0x7777) in
        squawk_valid mm' \<and> squawk mm' = ModeA AND 0x7777 \<and> spi mm' = bit ModeA 7 \<and>
        bit (addr mm') 24 \<and>
        (altitude_baro_valid mm' = (\<not> bit ModeA 7 \<and> -12 \<le> c \<and> c \<le> 1267)) \<and>
        altitude_baro mm' = (if altitude_baro_valid mm' then 100 * c else 0))"
proof -
  obtain t where t: "modeACInit mode_ac_start = Some t" and u: "tables_upto 4096 t"
    by (rule modeACInit_Some)
  let ?c = "internalModeAToModeC (ModeA AND 0x7777)"
  have valid: "?c = INVALID_ALTITUDE \<longleftrightarrow> \<not> (-12 \<le> ?c \<and> ?c \<le> 1267)"
    using internal_range [of "ModeA AND 0x7777"] by (auto simp: INVALID_ALTITUDE_def)
  have spi: "ModeA AND 0x80 \<noteq> 0 \<longleftrightarrow> bit ModeA 7"
    using and_exp_nonzero [of 7 ModeA] by simp
  have flag: "bit ((ModeA AND 0xFF7F) OR MODES_NON_ICAO_ADDRESS) 24"
    by (simp add: MODES_NON_ICAO_ADDRESS_def bit_or_iff bit_push_bit_iff)
  show ?thesis
    using valid spi flag
    by (auto simp: t decodeModeAMessage_def Let_def modeAToModeC_eq [OF u] zeroMessage_def)
qed

end
