(* ===== verification/ModeSFields.thy ===== *)
theory ModeSFields
  imports CommB ModeAC
begin

text \<open>
  The coded fields of Mode S messages: identity, altitude and ground movement, from the first part
  of \<^verbatim>\<open>src/mode_s.c\<close>. The Mode A/C tables are an argument of the altitude decoders.
\<close>

definition modesMessageLenByType :: "u32 \<Rightarrow> int" where
  "modesMessageLenByType type = (if type AND 0x10 \<noteq> 0 then 112 else 56)"

definition or_if :: "u32 \<Rightarrow> u32 \<Rightarrow> u32 \<Rightarrow> u32 \<Rightarrow> u32" where
  "or_if field m v acc = (if field AND m \<noteq> 0 then acc OR v else acc)"

definition decodeID13Field :: "u32 \<Rightarrow> u32" where
  "decodeID13Field ID13Field =
     or_if ID13Field 0x0001 0x0004 (or_if ID13Field 0x0002 0x0400 (or_if ID13Field 0x0004 0x0002
      (or_if ID13Field 0x0008 0x0200 (or_if ID13Field 0x0010 0x0001 (or_if ID13Field 0x0020 0x0100
       (or_if ID13Field 0x0080 0x4000 (or_if ID13Field 0x0100 0x0040 (or_if ID13Field 0x0200 0x2000
        (or_if ID13Field 0x0400 0x0020 (or_if ID13Field 0x0800 0x1000 (or_if ID13Field 0x1000 0x0010 0)))))))))))"

definition gillham_altitude :: "mode_ac_tables \<Rightarrow> u32 \<Rightarrow> int" where
  "gillham_altitude t field =
     (let n = modeAToModeC t (decodeID13Field field) in
      if n < -12 then INVALID_ALTITUDE else 100 * n)"

definition decodeAC13Field :: "mode_ac_tables \<Rightarrow> u32 \<Rightarrow> int \<times> altitude_unit_t" where
  "decodeAC13Field t AC13Field =
     (let m_bit = AC13Field AND 0x0040; q_bit = AC13Field AND 0x0010 in
      if m_bit = 0 then
        (if q_bit \<noteq> 0 then
           let n = drop_bit 2 (AC13Field AND 0x1F80) OR drop_bit 1 (AC13Field AND 0x0020)
                 OR (AC13Field AND 0x000F)
           in uint n * 25 - 1000
         else gillham_altitude t AC13Field, UNIT_FEET)
      else (INVALID_ALTITUDE, UNIT_METERS))"

definition decodeAC12Field :: "mode_ac_tables \<Rightarrow> u32 \<Rightarrow> int \<times> altitude_unit_t" where
  "decodeAC12Field t AC12Field =
     (let q_bit = AC12Field AND 0x10 in
      (if q_bit \<noteq> 0 then
         let n = drop_bit 1 (AC12Field AND 0x0FE0) OR (AC12Field AND 0x000F) in uint n * 25 - 1000
       else
         let n = push_bit 1 (AC12Field AND 0x0FC0) OR (AC12Field AND 0x003F)
         in gillham_altitude t n,
       UNIT_FEET))"

definition mid :: "u32 \<Rightarrow> u32 \<Rightarrow> rat" where
  "mid movement base = f64 (of_int (uint (movement - base)) + 1 / 2)"

definition decodeMovementFieldV2 :: "u32 \<Rightarrow> rat" where
  "decodeMovementFieldV2 movement =
     (if movement \<ge> 125 then 0
      else if movement = 124 then 180
      else if movement \<ge> 109 then f32 (f64 (100 + f64 (mid movement 109 * 5)))
      else if movement \<ge> 94 then f32 (f64 (70 + f64 (mid movement 94 * 2)))
      else if movement \<ge> 39 then f32 (f64 (15 + f64 (mid movement 39 * 1)))
      else if movement \<ge> 13 then f32 (f64 (2 + f64 (mid movement 13 * (1 / 2))))
      else if movement \<ge> 9 then f32 (f64 (1 + f64 (mid movement 9 * (1 / 4))))
      else if movement \<ge> 3 then f32 (f64 (1 / 8 + f64 (f64 (mid movement 3 * (7 / 8)) / 6)))
      else if movement \<ge> 2 then 1 / 16
      else 0)"

definition decodeMovementFieldV0 :: "u32 \<Rightarrow> rat" where
  "decodeMovementFieldV0 movement =
     (if movement \<ge> 125 then 0
      else if movement = 124 then 180
      else if movement \<ge> 109 then f32 (f64 (100 + f64 (mid movement 109 * 5)))
      else if movement \<ge> 94 then f32 (f64 (70 + f64 (mid movement 94 * 2)))
      else if movement \<ge> 39 then f32 (f64 (15 + f64 (mid movement 39 * 1)))
      else if movement \<ge> 13 then f32 (f64 (2 + f64 (mid movement 13 * (1 / 2))))
      else if movement \<ge> 9 then f32 (f64 (1 + f64 (mid movement 9 * (1 / 4))))
      else if movement \<ge> 2 then f32 (f64 (1 / 8 + f64 (mid movement 2 * (1 / 8))))
      else 0)"

subsection \<open>Identity\<close>

lemma bit_or_if: "bit (or_if x (2 ^ k) (2 ^ j) acc) n \<longleftrightarrow> bit acc n \<or> n = j \<and> bit x k"
  if "k < 32" "j < 32"
  using that by (auto simp: or_if_def and_exp_nonzero bit_or_iff bit_exp_iff)

lemma bit_decodeID13:
  "bit (decodeID13Field x) n \<longleftrightarrow>
     n = 4 \<and> bit x 12 \<or> n = 12 \<and> bit x 11 \<or> n = 5 \<and> bit x 10 \<or> n = 13 \<and> bit x 9 \<or> n = 6 \<and> bit x 8
     \<or> n = 14 \<and> bit x 7 \<or> n = 8 \<and> bit x 5 \<or> n = 0 \<and> bit x 4 \<or> n = 9 \<and> bit x 3 \<or> n = 1 \<and> bit x 2
     \<or> n = 10 \<and> bit x 1 \<or> n = 2 \<and> bit x 0"
proof -
  note b = bit_or_if
  have q: "bit (or_if x 0x1000 0x0010 a) n \<longleftrightarrow> bit a n \<or> n = 4 \<and> bit x 12"
    "bit (or_if x 0x0800 0x1000 a) n \<longleftrightarrow> bit a n \<or> n = 12 \<and> bit x 11"
    "bit (or_if x 0x0400 0x0020 a) n \<longleftrightarrow> bit a n \<or> n = 5 \<and> bit x 10"
    "bit (or_if x 0x0200 0x2000 a) n \<longleftrightarrow> bit a n \<or> n = 13 \<and> bit x 9"
    "bit (or_if x 0x0100 0x0040 a) n \<longleftrightarrow> bit a n \<or> n = 6 \<and> bit x 8"
    "bit (or_if x 0x0080 0x4000 a) n \<longleftrightarrow> bit a n \<or> n = 14 \<and> bit x 7"
    "bit (or_if x 0x0020 0x0100 a) n \<longleftrightarrow> bit a n \<or> n = 8 \<and> bit x 5"
    "bit (or_if x 0x0010 0x0001 a) n \<longleftrightarrow> bit a n \<or> n = 0 \<and> bit x 4"
    "bit (or_if x 0x0008 0x0200 a) n \<longleftrightarrow> bit a n \<or> n = 9 \<and> bit x 3"
    "bit (or_if x 0x0004 0x0002 a) n \<longleftrightarrow> bit a n \<or> n = 1 \<and> bit x 2"
    "bit (or_if x 0x0002 0x0400 a) n \<longleftrightarrow> bit a n \<or> n = 10 \<and> bit x 1"
    "bit (or_if x 0x0001 0x0004 a) n \<longleftrightarrow> bit a n \<or> n = 2 \<and> bit x 0" for a
    using b [of 12 4 x a n] b [of 11 12 x a n] b [of 10 5 x a n] b [of 9 13 x a n] b [of 8 6 x a n]
      b [of 7 14 x a n] b [of 5 8 x a n] b [of 4 0 x a n] b [of 3 9 x a n] b [of 2 1 x a n]
      b [of 1 10 x a n] b [of 0 2 x a n] by simp_all
  show ?thesis
    unfolding decodeID13Field_def q by (simp only: bit_0_eq bot_apply bot_bool_def simp_thms disj_assoc)
qed

lemma bit_id13_mask: "bit (0x1FBF :: u32) n \<longleftrightarrow> n < 32 \<and> (n < 13 \<and> n \<noteq> 6)"
  by (rule bit_u32_below) code_simp

text \<open>
  The identity decoder loses nothing: two 13-bit fields give the same squawk exactly when
  they agree on all bits but the unused X bit, and the squawk has only the twelve code bits.
\<close>

theorem decodeID13Field_injective:
  "(decodeID13Field a = decodeID13Field b) = (a AND 0x1FBF = b AND 0x1FBF) \<and>
   decodeID13Field a AND 0x7777 = decodeID13Field a"
proof
  have eq: "x AND 0x1FBF = y AND 0x1FBF \<longleftrightarrow>
      (\<forall>k \<in> set [0, 1, 2, 3, 4, 5, 7, 8, 9, 10, 11, 12]. bit x k = bit y k)" for x y :: u32
  proof
    assume "x AND 0x1FBF = y AND 0x1FBF"
    then have all: "(bit x n \<and> n < 32 \<and> n < 13 \<and> n \<noteq> 6) = (bit y n \<and> n < 32 \<and> n < 13 \<and> n \<noteq> 6)" for n
      using bit_and_iff bit_id13_mask by metis
    show "\<forall>k \<in> set [0, 1, 2, 3, 4, 5, 7, 8, 9, 10, 11, 12]. bit x k = bit y k"
      using all [of 0] all [of 1] all [of 2] all [of 3] all [of 4] all [of 5] all [of 7] all [of 8]
        all [of 9] all [of 10] all [of 11] all [of 12] by simp
  next
    assume r: "\<forall>k \<in> set [0, 1, 2, 3, 4, 5, 7, 8, 9, 10, 11, 12]. bit x k = bit y k"
    show "x AND 0x1FBF = y AND 0x1FBF"
    proof (rule bit_word_eqI)
      fix n
      have "(n :: nat) < 13 \<and> n \<noteq> 6 \<Longrightarrow> n \<in> set [0, 1, 2, 3, 4, 5, 7, 8, 9, 10, 11, 12]" by (simp; presburger)
      then show "bit (x AND 0x1FBF) n = bit (y AND 0x1FBF) n"
        using r unfolding bit_and_iff bit_id13_mask by blast
    qed
  qed
  show "(decodeID13Field a = decodeID13Field b) = (a AND 0x1FBF = b AND 0x1FBF)"
  proof
    assume "decodeID13Field a = decodeID13Field b"
    then have all: "bit (decodeID13Field a) n = bit (decodeID13Field b) n" for n by simp
    show "a AND 0x1FBF = b AND 0x1FBF"
      unfolding eq
      using all [of 4, unfolded bit_decodeID13] all [of 12, unfolded bit_decodeID13]
        all [of 5, unfolded bit_decodeID13] all [of 13, unfolded bit_decodeID13]
        all [of 6, unfolded bit_decodeID13] all [of 14, unfolded bit_decodeID13]
        all [of 8, unfolded bit_decodeID13] all [of 0, unfolded bit_decodeID13]
        all [of 9, unfolded bit_decodeID13] all [of 1, unfolded bit_decodeID13]
        all [of 10, unfolded bit_decodeID13] all [of 2, unfolded bit_decodeID13] by simp
  next
    assume "a AND 0x1FBF = b AND 0x1FBF"
    then show "decodeID13Field a = decodeID13Field b"
      unfolding eq by (intro bit_word_eqI) (simp add: bit_decodeID13)
  qed
  show "decodeID13Field a AND 0x7777 = decodeID13Field a"
  proof (rule bit_word_eqI)
    fix n
    show "bit (decodeID13Field a AND 0x7777) n = bit (decodeID13Field a) n"
      unfolding bit_and_iff bit_decodeID13 bit_index_const by auto
  qed
qed

subsection \<open>Altitude\<close>

lemma bit_ac_const:
  "bit (0x1F80 :: u32) n \<longleftrightarrow> n < 32 \<and> (7 \<le> n \<and> n < 13)" "bit (0x20 :: u32) n \<longleftrightarrow> n < 32 \<and> n = 5"
  "bit (0xF :: u32) n \<longleftrightarrow> n < 32 \<and> n < 4" "bit (0xFE0 :: u32) n \<longleftrightarrow> n < 32 \<and> (5 \<le> n \<and> n < 12)"
  "bit (0xFC0 :: u32) n \<longleftrightarrow> n < 32 \<and> (6 \<le> n \<and> n < 12)" "bit (0x3F :: u32) n \<longleftrightarrow> n < 32 \<and> n < 6"
  by (rule bit_u32_below, code_simp)+

lemma bit_ac13_of_ac12: "bit (ac13_of_ac12 x) n \<longleftrightarrow> n < 6 \<and> bit x n \<or> 7 \<le> n \<and> n < 13 \<and> bit x (n - 1)"
  unfolding ac13_of_ac12_def bit_or_iff bit_and_iff bit_push_bit_iff bit_ac_const by auto

definition n11_of_ac13 :: "u32 \<Rightarrow> u32" where
  "n11_of_ac13 f = drop_bit 2 (f AND 0x1F80) OR drop_bit 1 (f AND 0x0020) OR (f AND 0x000F)"

lemma bit_n11: "bit (n11_of_ac13 f) n \<longleftrightarrow>
    5 \<le> n \<and> n < 11 \<and> bit f (n + 2) \<or> n = 4 \<and> bit f 5 \<or> n < 4 \<and> bit f n"
  unfolding n11_of_ac13_def bit_or_iff bit_and_iff bit_drop_bit_eq o_def bit_ac_const
  by (cases "n < 11"; cases "n = 4"; cases "n < 4"; auto simp: add.commute)

lemma n11_of_ac12: "drop_bit 1 (f AND 0x0FE0) OR (f AND 0x000F) = n11_of_ac13 (ac13_of_ac12 f)"
proof (rule bit_word_eqI)
  fix n
  have l: "bit (drop_bit 1 (f AND 0x0FE0) OR (f AND 0x000F)) n \<longleftrightarrow> 4 \<le> n \<and> n < 11 \<and> bit f (n + 1) \<or> n < 4 \<and> bit f n"
    unfolding bit_or_iff bit_and_iff bit_drop_bit_eq o_def bit_ac_const by (auto simp: add.commute)
  show "bit (drop_bit 1 (f AND 0x0FE0) OR (f AND 0x000F)) n = bit (n11_of_ac13 (ac13_of_ac12 f)) n"
    unfolding l bit_n11 bit_ac13_of_ac12
    by (cases "n < 4"; cases "n = 4"; cases "n < 11"; auto)
qed

lemma uint_less_expI: "(\<And>n. k \<le> n \<Longrightarrow> \<not> bit (w :: 'a :: len word) n) \<Longrightarrow> uint w < 2 ^ k"
proof -
  assume hi: "\<And>n. k \<le> n \<Longrightarrow> \<not> bit w n"
  have "take_bit k w = w"
    by (rule bit_word_eqI) (use hi in \<open>auto simp: bit_take_bit_iff not_less [symmetric]\<close>)
  then have "uint w = take_bit k (uint w)" by (metis unsigned_take_bit_eq)
  then show ?thesis using take_bit_int_less_exp [of k "uint w"] by simp
qed

lemma n11_range: "0 \<le> uint (n11_of_ac13 f)" "uint (n11_of_ac13 f) \<le> 2047"
  using uint_less_expI [of 11 "n11_of_ac13 f"] by (auto simp: bit_n11)

text \<open>
  The two altitude decoders agree: decoding a 12-bit extended-squitter altitude is decoding
  the 13-bit surveillance altitude with a clear M bit inserted.
\<close>

theorem decodeAC12Field_eq_AC13:
  "decodeAC12Field t f = decodeAC13Field t (ac13_of_ac12 f)"
proof -
  have z: "w AND 2 ^ k \<noteq> 0 \<longleftrightarrow> bit w k" if "k < 32" for k and w :: u32
    using that by (rule and_exp_nonzero)
  have m: "ac13_of_ac12 f AND 0x40 = 0"
    using z [of 6 "ac13_of_ac12 f"] by (simp add: bit_ac13_of_ac12)
  have q: "ac13_of_ac12 f AND 0x10 \<noteq> 0 \<longleftrightarrow> f AND 0x10 \<noteq> 0"
    using z [of 4 "ac13_of_ac12 f"] z [of 4 f] by (simp add: bit_ac13_of_ac12)
  show ?thesis
    unfolding decodeAC12Field_def decodeAC13Field_def Let_def m q n11_of_ac12
    by (simp add: ac13_of_ac12_def n11_of_ac13_def)
qed

text \<open>
  Every altitude decoded from a 13-bit field is a multiple of 25 ft from -1200 ft to 126700 ft,
  or it is reported as invalid; the invalid marker itself is never a decoded altitude.
\<close>

theorem decodeAC13Field_bounds:
  "case modeACInit mode_ac_start of
     None \<Rightarrow> False
   | Some t \<Rightarrow> (case decodeAC13Field t f of (alt, unit) \<Rightarrow>
       alt = INVALID_ALTITUDE \<or> unit = UNIT_FEET \<and> 25 dvd alt \<and> -1200 \<le> alt \<and> alt \<le> 126700)"
proof -
  obtain t where t: "modeACInit mode_ac_start = Some t" and u: "tables_upto 4096 t"
    by (rule modeACInit_Some)
  let ?c = "internalModeAToModeC (decodeID13Field f AND 0x7777)"
  have g: "gillham_altitude t f = INVALID_ALTITUDE \<or>
      25 dvd gillham_altitude t f \<and> -1200 \<le> gillham_altitude t f \<and> gillham_altitude t f \<le> 126700"
  proof (cases "?c = INVALID_ALTITUDE")
    case True
    then show ?thesis by (simp add: gillham_altitude_def modeAToModeC_eq [OF u] INVALID_ALTITUDE_def)
  next
    case False
    have "gillham_altitude t f = 100 * ?c"
      using internal_range [OF False] by (simp add: gillham_altitude_def modeAToModeC_eq [OF u])
    moreover have "25 dvd 100 * ?c" by (rule dvd_mult2) simp
    ultimately show ?thesis using internal_range [OF False] by simp
  qed
  have q: "25 dvd uint (n11_of_ac13 f) * 25 - 1000" by (rule dvd_diff) simp_all
  show ?thesis
    using g q n11_range [of f]
    unfolding t option.case decodeAC13Field_def Let_def n11_of_ac13_def [symmetric] by auto
qed

subsection \<open>Ground movement\<close>

text \<open>The two scales over the rationals: every step of the computation is exact, but for the division by 6.\<close>

definition scale_high :: "int \<Rightarrow> rat" where
  "scale_high k =
     (if k \<ge> 124 then 180
      else if k \<ge> 109 then 100 + (of_int k - 109 + 1 / 2) * 5
      else if k \<ge> 94 then 70 + (of_int k - 94 + 1 / 2) * 2
      else if k \<ge> 39 then 15 + (of_int k - 39 + 1 / 2)
      else if k \<ge> 13 then 2 + (of_int k - 13 + 1 / 2) / 2
      else 1 + (of_int k - 9 + 1 / 2) / 4)"

definition scale_low_v0 :: "int \<Rightarrow> rat" where
  "scale_low_v0 k = (if k \<ge> 2 then 1 / 8 + (of_int k - 2 + 1 / 2) / 8 else 0)"

definition scale_low_v2 :: "int \<Rightarrow> rat" where
  "scale_low_v2 k =
     (if k \<ge> 3 then f32 (f64 (1 / 8 + f64 ((of_int k - 3 + 1 / 2) * (7 / 8) / 6)))
      else if k = 2 then 1 / 16 else 0)"

lemma f_dyadic: "\<bar>m\<bar> < 2 ^ 24 \<Longrightarrow> f64 (of_int m / 2 ^ j) = of_int m / 2 ^ j \<and> f32 (of_int m / 2 ^ j) = of_int m / 2 ^ j"
  by (intro conjI f64_exact f32_exact fits_scaled) simp_all

lemma f_halves: "x = of_int m / 2 ^ j \<Longrightarrow> \<bar>m\<bar> < 2 ^ 24 \<Longrightarrow> f64 x = x \<and> f32 x = x"
  using f_dyadic by blast

lemma mid_eq: "uint b \<le> uint m \<Longrightarrow> uint m < 125 \<Longrightarrow> mid m b = of_int (uint m) - of_int (uint b) + 1 / 2"
proof -
  assume b: "uint b \<le> uint m" "uint m < 125"
  have u: "uint (m - b) = uint m - uint b"
    using b by (simp add: uint_sub_if')
  have b0: "0 \<le> uint b" by simp
  have r: "\<bar>2 * (uint m - uint b) + 1\<bar> \<le> 249"
  proof -
    define x y where "x = uint m" and "y = uint b"
    have "0 \<le> y" "y \<le> x" "x < 125" using b b0 by (simp_all add: x_def y_def)
    then show ?thesis unfolding x_def [symmetric] y_def [symmetric] by (simp add: abs_if)
  qed
  have "f64 (of_int (2 * (uint m - uint b) + 1) / 2 ^ 1) = of_int (2 * (uint m - uint b) + 1) / 2 ^ 1"
    by (intro f64_exact fits_scaled le_less_trans [OF r]) simp
  then show ?thesis by (simp only: mid_def u) (simp add: field_simps)
qed

lemma step_exact:
  assumes "x = of_int i / 2 ^ j" "\<bar>i\<bar> < 2 ^ 24" "a + x = of_int i' / 2 ^ j'" "\<bar>i'\<bar> < 2 ^ 24"
  shows "f32 (f64 (a + f64 x)) = a + x"
  using f_halves [OF assms(1,2)] f_halves [OF assms(3,4)] by simp

lemma movement_high:
  assumes m: "9 \<le> m" "m < (125 :: u32)"
  shows "decodeMovementFieldV0 m = scale_high (uint m)" "decodeMovementFieldV2 m = scale_high (uint m)"
proof -
  define k where "k = uint m"
  have k: "9 \<le> k" "k < 125" using m by (simp_all add: k_def word_le_def word_less_def)
  have le: "numeral b \<le> m \<longleftrightarrow> uint (numeral b :: u32) \<le> k" for b by (simp add: k_def word_le_def)
  have is124: "m = 124 \<longleftrightarrow> k = 124" by (simp add: k_def word_uint_eq_iff)
  have md: "mid m b = of_int k - of_int (uint b) + 1 / 2" if "uint b \<le> k" for b
    using mid_eq [of b m] that k by (simp add: k_def)
  have md': "uint b \<le> k \<Longrightarrow> mid m b = of_int k - of_int (uint b) + 1 / 2" for b by (rule md)
  have e5: "f32 (f64 (100 + f64 (mid m 109 * 5))) = 100 + (of_int k - 109 + 1 / 2) * 5" if "109 \<le> k"
    unfolding md' [of 109, simplified, OF that] using that k step_exact [of "(of_int k - 109 + 1 / 2) * 5" "10 * k - 1085" 1 100 "10 * k - 885" 1]
    by (simp add: field_simps abs_if)
  have e2: "f32 (f64 (70 + f64 (mid m 94 * 2))) = 70 + (of_int k - 94 + 1 / 2) * 2" if "94 \<le> k"
    unfolding md' [of 94, simplified, OF that] using that k step_exact [of "(of_int k - 94 + 1 / 2) * 2" "2 * k - 187" 0 70 "2 * k - 117" 0]
    by (simp add: field_simps abs_if)
  have e1: "f32 (f64 (15 + f64 (mid m 39 * 1))) = 15 + (of_int k - 39 + 1 / 2)" if "39 \<le> k"
    unfolding md' [of 39, simplified, OF that] using that k step_exact [of "of_int k - 39 + 1 / 2" "2 * k - 77" 1 15 "2 * k - 47" 1]
    by (simp add: field_simps abs_if)
  have eh: "f32 (f64 (2 + f64 (mid m 13 * (1 / 2)))) = 2 + (of_int k - 13 + 1 / 2) / 2" if "13 \<le> k"
    unfolding md' [of 13, simplified, OF that] using that k step_exact [of "(of_int k - 13 + 1 / 2) / 2" "2 * k - 25" 2 2 "2 * k - 17" 2]
    by (simp add: field_simps abs_if)
  have eq: "f32 (f64 (1 + f64 (mid m 9 * (1 / 4)))) = 1 + (of_int k - 9 + 1 / 2) / 4"
    unfolding md' [of 9, simplified, OF k(1)] using k step_exact [of "(of_int k - 9 + 1 / 2) / 4" "2 * k - 17" 3 1 "2 * k - 9" 3]
    by (simp add: field_simps abs_if)
  have n125: "\<not> 125 \<le> m" using m by simp
  show "decodeMovementFieldV0 m = scale_high (uint m)"
    unfolding decodeMovementFieldV0_def scale_high_def k_def [symmetric] is124
    using k n125 le e5 e2 e1 eh eq by simp
  show "decodeMovementFieldV2 m = scale_high (uint m)"
    unfolding decodeMovementFieldV2_def scale_high_def k_def [symmetric] is124
    using k n125 le e5 e2 e1 eh eq by simp
qed

lemma movement_low:
  assumes "m < (9 :: u32)"
  shows "decodeMovementFieldV0 m = scale_low_v0 (uint m)" "decodeMovementFieldV2 m = scale_low_v2 (uint m)"
proof -
  define k where "k = uint m"
  have k: "0 \<le> k" "k < 9" using assms by (simp_all add: k_def word_less_def)
  have lt: "\<not> numeral b \<le> m" if "9 \<le> uint (numeral b :: u32)" for b
    using that k by (simp add: k_def word_le_def)
  have neq: "m \<noteq> 124" using k by (auto simp: k_def)
  have le: "numeral b \<le> m \<longleftrightarrow> uint (numeral b :: u32) \<le> k" for b by (simp add: k_def word_le_def)
  have md: "uint b \<le> k \<Longrightarrow> mid m b = of_int k - of_int (uint b) + 1 / 2" for b
    using mid_eq [of b m] k by (simp add: k_def)
  have e8: "f32 (f64 (1 / 8 + f64 (mid m 2 * (1 / 8)))) = 1 / 8 + (of_int k - 2 + 1 / 2) / 8" if "2 \<le> k"
    unfolding md [of 2, simplified, OF that]
    using that k step_exact [of "(of_int k - 2 + 1 / 2) / 8" "2 * k - 3" 4 "1 / 8" "2 * k - 1" 4]
    by (simp add: field_simps abs_if)
  show "decodeMovementFieldV0 m = scale_low_v0 (uint m)"
    unfolding decodeMovementFieldV0_def scale_low_v0_def k_def [symmetric]
    using k neq le e8 by simp
  have e6: "f64 (mid m 3 * (7 / 8)) = (of_int k - 3 + 1 / 2) * (7 / 8)" if "3 \<le> k"
    unfolding md [of 3, simplified, OF that]
    using f_halves [of "(of_int k - 3 + 1 / 2) * (7 / 8)" "7 * (2 * k - 5)" 4] that k by (simp add: field_simps abs_if)
  show "decodeMovementFieldV2 m = scale_low_v2 (uint m)"
  proof (cases "3 \<le> k")
    case True
    have "f64 (f64 (mid m 3 * (7 / 8)) / 6) = f64 ((of_int k - 3 + 1 / 2) * (7 / 8) / 6)"
      by (simp only: e6 [OF True])
    then show ?thesis
      unfolding decodeMovementFieldV2_def scale_low_v2_def k_def [symmetric] using True k neq le by simp
  next
    case False
    then show ?thesis
      unfolding decodeMovementFieldV2_def scale_low_v2_def k_def [symmetric] using k neq le by auto
  qed
qed

definition scale :: "(int \<Rightarrow> rat) \<Rightarrow> int \<Rightarrow> rat" where
  "scale low k = (if 9 \<le> k then scale_high k else low k)"

lemma scale_high_step: "9 \<le> k \<Longrightarrow> scale_high k \<le> scale_high (k + 1)"
proof -
  assume k: "9 \<le> k"
  consider "k \<in> {12, 38, 93, 108, 123}" | "9 \<le> k \<and> k < 12 \<or> 13 \<le> k \<and> k < 38 \<or> 39 \<le> k \<and> k < 93
    \<or> 94 \<le> k \<and> k < 108 \<or> 109 \<le> k \<and> k < 123 \<or> 124 \<le> k"
    using k by force
  then show ?thesis
    by cases (auto simp: scale_high_def field_simps)
qed

lemma scale_low_v0_step: "0 \<le> k \<Longrightarrow> k < 9 \<Longrightarrow> scale scale_low_v0 k \<le> scale scale_low_v0 (k + 1)"
proof -
  assume "0 \<le> k" "k < 9"
  then have "k \<in> {0, 1, 2, 3, 4, 5, 6, 7, 8}" by (simp; presburger)
  then show ?thesis by (auto simp: scale_def scale_low_v0_def scale_high_def)
qed

lemma scale_low_v2_step: "0 \<le> k \<Longrightarrow> k < 9 \<Longrightarrow> scale scale_low_v2 k \<le> scale scale_low_v2 (k + 1)"
proof -
  have one: "f64 1 = 1" "f32 1 = 1" "f64 (1 / 16) = 1 / 16" "f32 (1 / 16) = 1 / 16"
    using f_halves [of 1 1 0] f_halves [of "1 / 16" 1 4] by simp_all
  assume k: "0 \<le> k" "k < 9"
  then have "k \<in> {0, 1, 2, 3, 4, 5, 6, 7, 8}" by (simp; presburger)
  then consider "k \<in> {0, 1}" | "k = 2" | "k \<in> {3, 4, 5, 6, 7}" | "k = 8" by auto
  then show ?thesis
  proof cases
    case 1
    then show ?thesis by (auto simp: scale_def scale_low_v2_def)
  next
    case 2
    have "1 / 16 \<le> f32 (f64 (1 / 8 + f64 ((of_int 3 - 3 + 1 / 2) * (7 / 8) / 6)))"
      using f32_mono [OF f64_mono [of "1 / 16" "1 / 8 + f64 ((of_int 3 - 3 + 1 / 2) * (7 / 8) / 6)"]]
        f64_ge [of "1 / 16" "(of_int 3 - 3 + 1 / 2) * (7 / 8) / 6"] one by simp
    then show ?thesis using 2 by (simp add: scale_def scale_low_v2_def)
  next
    case 3
    then have "scale_low_v2 k \<le> scale_low_v2 (k + 1)"
      by (auto simp: scale_low_v2_def intro!: f32_mono f64_mono add_mono divide_right_mono mult_right_mono)
    then show ?thesis using 3 by (auto simp: scale_def)
  next
    case 4
    have "f64 ((of_int 8 - 3 + 1 / 2) * (7 / 8) / 6) \<le> 7 / 8"
      using f64_mono [of "(of_int 8 - 3 + 1 / 2) * (7 / 8) / 6" "7 / 8"] f_halves [of "7 / 8" 7 3] by simp
    then have "f32 (f64 (1 / 8 + f64 ((of_int 8 - 3 + 1 / 2) * (7 / 8) / 6))) \<le> 1"
      using f32_mono [OF f64_mono [of "1 / 8 + f64 ((of_int 8 - 3 + 1 / 2) * (7 / 8) / 6)" 1]] one by simp
    then show ?thesis using 4 by (simp add: scale_def scale_low_v2_def scale_high_def)
  qed
qed

lemma step_mono:
  assumes "\<And>k :: int. 0 \<le> k \<Longrightarrow> f k \<le> (f (k + 1) :: rat)" "0 \<le> i" "i \<le> j"
  shows "f i \<le> f j"
  using assms(3)
proof (induction j rule: int_ge_induct)
  case (step j)
  then show ?case using assms(1) [of j] assms(2) by linarith
qed simp

lemma scale_step: "0 \<le> k \<Longrightarrow> scale scale_low_v0 k \<le> scale scale_low_v0 (k + 1)"
  "0 \<le> k \<Longrightarrow> scale scale_low_v2 k \<le> scale scale_low_v2 (k + 1)"
  using scale_low_v0_step [of k] scale_low_v2_step [of k] scale_high_step [of k]
  by (cases "k < 9"; simp add: scale_def)+

lemma movement_scale:
  assumes "m < (125 :: u32)"
  shows "decodeMovementFieldV0 m = scale scale_low_v0 (uint m)" "decodeMovementFieldV2 m = scale scale_low_v2 (uint m)"
proof -
  have "9 \<le> m \<longleftrightarrow> 9 \<le> uint m" by (simp add: word_le_def)
  then show "decodeMovementFieldV0 m = scale scale_low_v0 (uint m)" "decodeMovementFieldV2 m = scale scale_low_v2 (uint m)"
    using movement_high [of m] movement_low [of m] assms by (cases "9 \<le> m"; simp add: scale_def not_le)+
qed

text \<open>
  The ground speed of a surface position never falls when the movement code rises, in both
  versions of the encoding: the six segments of different width, one of them computed with
  rounding, fit together.
\<close>

theorem decodeMovementField_monotone:
  assumes "m \<le> n" "n \<le> 124"
  shows "decodeMovementFieldV0 m \<le> decodeMovementFieldV0 n \<and> decodeMovementFieldV2 m \<le> decodeMovementFieldV2 n"
proof -
  have "m < 125" "n < 125" using assms by (simp_all add: word_le_def word_less_def)
  moreover have "0 \<le> uint m" "uint m \<le> uint n" using assms(1) by (simp_all add: word_le_def)
  ultimately show ?thesis
    using step_mono [of "scale scale_low_v0", OF scale_step(1)] step_mono [of "scale scale_low_v2", OF scale_step(2)]
    by (simp add: movement_scale)
qed

theorem decodeMovementField_monotone_witness:
  "decodeMovementFieldV0 8 \<le> decodeMovementFieldV0 109 \<and> decodeMovementFieldV2 8 \<le> decodeMovementFieldV2 109"
  by (rule decodeMovementField_monotone) simp_all

end
