(* ===== verification/Squitter.thy ===== *)
theory Squitter
  imports ModeSFields
begin

text \<open>
  Extended squitters: the decoders of the 56-bit ME field of DF17 and DF18 messages in
  \<^verbatim>\<open>src/mode_s.c\<close>. Each one takes the message with its ME field already copied and returns the
  updated message. The C library's \<open>sqrtf\<close> and \<open>atan2\<close> come from the record \<open>libm\<close>, the Mode
  A/C tables are an argument, and the statistics counter \<open>cpr_filtered\<close> is returned as the number
  of increments.
\<close>

definition flag :: "bool \<Rightarrow> u32" where
  "flag b = of_bool b"

definition ident_char_ok :: "u8 \<Rightarrow> bool" where
  "ident_char_ok c \<longleftrightarrow> upper_case c \<or> decimal_digit c \<or> c = 0x20"

definition decodeESIdentAndCategory :: "modesMessage \<Rightarrow> modesMessage" where
  "decodeESIdentAndCategory mm =
     (let me = ME (raw mm); sub = getbits me 6 8; chars = ident_chars me in
      mm\<lparr>mesub := sub, callsign := chars @ [0], callsign_valid := list_all ident_char_ok chars,
         category := push_bit 4 (0x0E - metype mm) OR sub, category_valid := True\<rparr>)"

definition setIMF :: "modesMessage \<Rightarrow> modesMessage" where
  "setIMF mm =
     mm\<lparr>addr := addr mm OR MODES_NON_ICAO_ADDRESS,
        addrtype := (case addrtype mm of
            ADDR_ADSB_ICAO \<Rightarrow> ADDR_ADSB_OTHER
          | ADDR_ADSB_ICAO_NT \<Rightarrow> ADDR_ADSB_OTHER
          | ADDR_TISB_ICAO \<Rightarrow> ADDR_TISB_TRACKFILE
          | ADDR_ADSR_ICAO \<Rightarrow> ADDR_ADSR_OTHER
          | a \<Rightarrow> a)\<rparr>"

subsection \<open>Airborne velocity\<close>

definition signed_component :: "u32 \<Rightarrow> bool \<Rightarrow> bool \<Rightarrow> int" where
  "signed_component r negative supersonic =
     sint ((r - 1) * (if negative then -1 else 1) * (if supersonic then 4 else 1))"

definition velocity_ground :: "libm \<Rightarrow> modesMessage \<Rightarrow> modesMessage" where
  "velocity_ground L mm =
     (let me = ME (raw mm); ew_raw = getbits me 15 24; ns_raw = getbits me 26 35 in
      if ew_raw \<noteq> 0 \<and> ns_raw \<noteq> 0 then
        let ew_vel = signed_component ew_raw (getbit me 14) (mesub mm = 2);
            ns_vel = signed_component ns_raw (getbit me 25) (mesub mm = 2);
            v = m_sqrtf L (f32 (f64 (of_int (ns_vel * ns_vel + ew_vel * ew_vel) + 1 / 2)));
            mm = mm\<lparr>gs := \<lparr>gs_v0 = v, gs_v2 = v, gs_selected = v\<rparr>, gs_valid := True\<rparr>
        in if v > 0 then
             let ground_track = f32 (f64 (f64 (m_atan2 L (of_int ew_vel) (of_int ns_vel) * 180) / M_PI));
                 ground_track = (if ground_track < 0 then f32 (ground_track + 360) else ground_track)
             in mm\<lparr>heading := ground_track, heading_type := HEADING_GROUND_TRACK, heading_valid := True\<rparr>
           else mm
      else mm)"

definition velocity_air :: "modesMessage \<Rightarrow> modesMessage" where
  "velocity_air mm =
     (let me = ME (raw mm);
          mm = if_do (getbit me 14) (\<lambda>mm. mm\<lparr>heading_valid := True,
                 heading := f32 (f64 (f64 (of_int (uint (getbits me 15 24)) * 360) / 1024)),
                 heading_type := HEADING_MAGNETIC_OR_TRUE\<rparr>) mm;
          airspeed = getbits me 26 35
      in if airspeed \<noteq> 0 then
           let speed = (airspeed - 1) * (if mesub mm = 4 then 4 else 1) in
           if getbit me 25 then mm\<lparr>tas_valid := True, tas := speed\<rparr>
           else mm\<lparr>ias_valid := True, ias := speed\<rparr>
         else mm)"

definition vertical_rate :: "modesMessage \<Rightarrow> modesMessage" where
  "vertical_rate mm =
     (let me = ME (raw mm); vert_rate = getbits me 38 46 in
      if vert_rate \<noteq> 0 then
        let rate = sint ((vert_rate - 1) * (if getbit me 37 then -64 else 64)) in
        if getbit me 36 then mm\<lparr>baro_rate := rate, baro_rate_valid := True\<rparr>
        else mm\<lparr>geom_rate := rate, geom_rate_valid := True\<rparr>
      else mm)"

definition geometric_delta :: "modesMessage \<Rightarrow> modesMessage" where
  "geometric_delta mm =
     (let me = ME (raw mm); raw_delta = getbits me 50 56 in
      if raw_delta \<noteq> 0 then
        mm\<lparr>geom_delta_valid := True,
           geom_delta := sint ((raw_delta - 1) * (if getbit me 49 then -25 else 25))\<rparr>
      else mm)"

definition decodeESAirborneVelocity :: "libm \<Rightarrow> bool \<Rightarrow> modesMessage \<Rightarrow> modesMessage" where
  "decodeESAirborneVelocity L check_imf mm =
     (let me = ME (raw mm); sub = getbits me 6 8; mm = mm\<lparr>mesub := sub\<rparr> in
      if sub < 1 \<or> sub > 4 then mm
      else
        let mm = if_do (check_imf \<and> getbit me 9) setIMF mm;
            mm = mm\<lparr>accuracy := (accuracy mm)\<lparr>nac_v_valid := True, nac_v := getbits me 11 13\<rparr>\<rparr>;
            mm = (if sub = 1 \<or> sub = 2 then velocity_ground L mm else velocity_air mm)
        in geometric_delta (vertical_rate mm))"

subsection \<open>Positions\<close>

definition decodeESSurfacePosition :: "bool \<Rightarrow> modesMessage \<Rightarrow> modesMessage" where
  "decodeESSurfacePosition check_imf mm =
     (let me = ME (raw mm); movement = getbits me 6 12;
          mm = mm\<lparr>airground := AG_GROUND, cpr_valid := True, cpr_type := CPR_SURFACE\<rparr>;
          mm = if_do (movement > 0 \<and> movement < 125) (\<lambda>mm.
                 let v0 = decodeMovementFieldV0 movement in
                 mm\<lparr>gs_valid := True,
                    gs := \<lparr>gs_v0 = v0, gs_v2 = decodeMovementFieldV2 movement, gs_selected = v0\<rparr>\<rparr>) mm;
          mm = if_do (getbit me 13) (\<lambda>mm. mm\<lparr>heading_valid := True,
                 heading := f32 (f64 (f64 (of_int (uint (getbits me 14 20)) * 360) / 128)),
                 heading_type := HEADING_TRACK_OR_HEADING\<rparr>) mm;
          mm = if_do (check_imf \<and> getbit me 21) setIMF mm
      in mm\<lparr>cpr_odd := getbit me 22, cpr_lat := getbits me 23 39, cpr_lon := getbits me 40 56\<rparr>)"

definition surveillance_status :: "u32 \<Rightarrow> modesMessage \<Rightarrow> modesMessage" where
  "surveillance_status s mm =
     (if s = 0 then mm\<lparr>alert_valid := True, spi_valid := True, alert := False, spi := False\<rparr>
      else if s = 1 \<or> s = 2 then mm\<lparr>alert_valid := True, alert := True\<rparr>
      else if s = 3 then mm\<lparr>alert_valid := True, spi_valid := True, alert := False, spi := True\<rparr>
      else mm)"

definition airborne_cpr :: "u32 \<Rightarrow> modesMessage \<Rightarrow> modesMessage \<times> nat" where
  "airborne_cpr AC12Field mm =
     (let me = ME (raw mm) in
      if metype mm = 0 then (mm, 0)
      else
        let mm = mm\<lparr>cpr_lat := getbits me 23 39, cpr_lon := getbits me 40 56\<rparr> in
        if AC12Field = 0 \<and> cpr_lon mm = 0 \<and> cpr_lat mm AND 0x0fff = 0 \<and> metype mm = 15 then (mm, 1)
        else (mm\<lparr>cpr_valid := True, cpr_type := CPR_AIRBORNE, cpr_odd := getbit me 22\<rparr>, 0))"

definition airborne_altitude :: "mode_ac_tables \<Rightarrow> u32 \<Rightarrow> modesMessage \<Rightarrow> modesMessage" where
  "airborne_altitude t AC12Field mm =
     (if AC12Field \<noteq> 0 \<and> airground mm \<noteq> AG_GROUND then
        let (alt, unit) = decodeAC12Field t AC12Field in
        if alt \<noteq> INVALID_ALTITUDE then
          let mm = if_do (airground mm = AG_INVALID) (\<lambda>mm. mm\<lparr>airground := AG_UNCERTAIN\<rparr>) mm in
          if metype mm = 20 \<or> metype mm = 21 \<or> metype mm = 22
          then mm\<lparr>altitude_geom := alt, altitude_geom_unit := unit, altitude_geom_valid := True\<rparr>
          else mm\<lparr>altitude_baro := alt, altitude_baro_unit := unit, altitude_baro_valid := True\<rparr>
        else mm
      else mm)"

definition decodeESAirbornePosition :: "mode_ac_tables \<Rightarrow> bool \<Rightarrow> modesMessage \<Rightarrow> modesMessage \<times> nat" where
  "decodeESAirbornePosition t check_imf mm =
     (let me = ME (raw mm);
          mm = surveillance_status (getbits me 6 7) mm;
          mm = (if check_imf then if_do (getbit me 8) setIMF mm
                else mm\<lparr>accuracy := (accuracy mm)\<lparr>nic_b_valid := True, nic_b := flag (getbit me 8)\<rparr>\<rparr>);
          AC12Field = getbits me 9 20;
          (mm, filtered) = airborne_cpr AC12Field mm
      in (airborne_altitude t AC12Field mm, filtered))"

subsection \<open>Status messages\<close>

definition decodeESTestMessage :: "modesMessage \<Rightarrow> modesMessage" where
  "decodeESTestMessage mm =
     (let me = ME (raw mm); sub = getbits me 6 8; mm = mm\<lparr>mesub := sub\<rparr> in
      if sub = 7 then
        let ID13Field = getbits me 9 21 in
        if_do (ID13Field \<noteq> 0) (\<lambda>mm. mm\<lparr>squawk_valid := True, squawk := decodeID13Field ID13Field\<rparr>) mm
      else mm)"

definition emergency_of :: "u32 \<Rightarrow> emergency_t" where
  "emergency_of e =
     (if e = 0 then EMERGENCY_NONE else if e = 1 then EMERGENCY_GENERAL else if e = 2 then EMERGENCY_LIFEGUARD
      else if e = 3 then EMERGENCY_MINFUEL else if e = 4 then EMERGENCY_NORDO
      else if e = 5 then EMERGENCY_UNLAWFUL else if e = 6 then EMERGENCY_DOWNED else EMERGENCY_RESERVED)"

definition decodeESAircraftStatus :: "bool \<Rightarrow> modesMessage \<Rightarrow> modesMessage" where
  "decodeESAircraftStatus check_imf mm =
     (let me = ME (raw mm); sub = getbits me 6 8; mm = mm\<lparr>mesub := sub\<rparr> in
      if sub = 1 then
        let mm = mm\<lparr>emergency_valid := True, emergency := emergency_of (getbits me 9 11)\<rparr>;
            ID13Field = getbits me 12 24;
            mm = if_do (ID13Field \<noteq> 0) (\<lambda>mm. mm\<lparr>squawk_valid := True, squawk := decodeID13Field ID13Field\<rparr>) mm
        in if_do (check_imf \<and> getbit me 56) setIMF mm
      else mm)"

subsection \<open>Target state and status\<close>

definition tss1_source :: "u32 \<Rightarrow> mm_nav \<Rightarrow> mm_nav" where
  "tss1_source s n =
     (if s = 1 then n\<lparr>altitude_source := NAV_ALT_MCP\<rparr>
      else if s = 2 then n\<lparr>altitude_source := NAV_ALT_AIRCRAFT\<rparr>
      else if s = 3 then n\<lparr>altitude_source := NAV_ALT_FMS\<rparr>
      else n)"

definition add_mode :: "u32 \<Rightarrow> mm_nav \<Rightarrow> mm_nav" where
  "add_mode m n = n\<lparr>nav_modes := nav_modes n OR m\<rparr>"

definition tss1_vertical_mode :: "u32 \<Rightarrow> mm_nav \<Rightarrow> mm_nav" where
  "tss1_vertical_mode v n =
     (if v = 1 then
        add_mode (if altitude_source n = NAV_ALT_FMS then NAV_MODE_VNAV else NAV_MODE_AUTOPILOT)
          (n\<lparr>nav_modes_valid := True\<rparr>)
      else if v = 2 then
        add_mode (if altitude_source n = NAV_ALT_FMS then NAV_MODE_VNAV
                  else if altitude_source n = NAV_ALT_AIRCRAFT then NAV_MODE_ALT_HOLD
                  else NAV_MODE_AUTOPILOT)
          (n\<lparr>nav_modes_valid := True\<rparr>)
      else n)"

definition tss1_altitude :: "u32 \<Rightarrow> u32" where
  "tss1_altitude r = - 1000 + 100 * r"

definition tss1_target :: "u32 \<Rightarrow> mm_nav \<Rightarrow> mm_nav" where
  "tss1_target alt n =
     (case altitude_source n of
        NAV_ALT_MCP \<Rightarrow> n\<lparr>mcp_altitude_valid := True, mcp_altitude := alt\<rparr>
      | NAV_ALT_FMS \<Rightarrow> n\<lparr>fms_altitude_valid := True, fms_altitude := alt\<rparr>
      | _ \<Rightarrow> n)"

definition tss1_heading :: "u8 list \<Rightarrow> u32 \<Rightarrow> mm_nav \<Rightarrow> mm_nav" where
  "tss1_heading me h_source n =
     (if h_source \<noteq> 0 then
        n\<lparr>nav_heading_valid := True, nav_heading := f32 (of_int (uint (getbits me 28 36))),
          nav_heading_type := (if getbit me 37 then HEADING_GROUND_TRACK else HEADING_MAGNETIC_OR_TRUE)\<rparr>
      else n)"

definition tss1_horizontal_mode :: "u32 \<Rightarrow> u32 \<Rightarrow> mm_nav \<Rightarrow> mm_nav" where
  "tss1_horizontal_mode h_mode h_source n =
     (if h_mode = 1 \<or> h_mode = 2 then
        add_mode (if h_source = 3 then NAV_MODE_LNAV else NAV_MODE_AUTOPILOT) (n\<lparr>nav_modes_valid := True\<rparr>)
      else n)"

definition tss1_tcas :: "u32 \<Rightarrow> mm_nav \<Rightarrow> mm_nav" where
  "tss1_tcas s n =
     (if s = 1 then n\<lparr>nav_modes_valid := True\<rparr>
      else if s = 2 \<or> s = 3 then add_mode NAV_MODE_TCAS (n\<lparr>nav_modes_valid := True\<rparr>)
      else if s = 0 then add_mode NAV_MODE_TCAS n
      else n)"

definition tss_accuracy :: "u8 list \<Rightarrow> mm_accuracy \<Rightarrow> mm_accuracy" where
  "tss_accuracy me a =
     a\<lparr>nac_p_valid := True, nac_p := getbits me 40 43, nic_baro_valid := True, nic_baro := flag (getbit me 44),
       sil := getbits me 45 46, sil_type := SIL_UNKNOWN\<rparr>"

definition target_status_v1 :: "modesMessage \<Rightarrow> modesMessage" where
  "target_status_v1 mm =
     (let me = ME (raw mm);
          n = tss1_source (getbits me 8 9) (nav mm);
          n = tss1_vertical_mode (getbits me 14 15) n;
          n = tss1_target (tss1_altitude (getbits me 16 25)) n;
          h_source = getbits me 26 27;
          n = tss1_heading me h_source n;
          n = tss1_horizontal_mode (getbits me 38 39) h_source n;
          n = tss1_tcas (getbits me 52 53) n
      in mm\<lparr>nav := n, accuracy := tss_accuracy me (accuracy mm),
            emergency_valid := True, emergency := emergency_of (getbits me 54 56)\<rparr>)"

definition mode_if :: "bool \<Rightarrow> u32 \<Rightarrow> u32" where
  "mode_if b m = (if b then m else 0)"

definition tss2_modes :: "u8 list \<Rightarrow> u32" where
  "tss2_modes me =
     mode_if (getbit me 48) NAV_MODE_AUTOPILOT OR mode_if (getbit me 49) NAV_MODE_VNAV
     OR mode_if (getbit me 50) NAV_MODE_ALT_HOLD OR mode_if (getbit me 52) NAV_MODE_APPROACH
     OR mode_if (getbit me 53) NAV_MODE_TCAS OR mode_if (getbit me 54) NAV_MODE_LNAV"

definition tss2_altitude :: "bool \<Rightarrow> u32 \<Rightarrow> mm_nav \<Rightarrow> mm_nav" where
  "tss2_altitude is_fms alt_bits n =
     (if alt_bits \<noteq> 0 then
        if is_fms then n\<lparr>fms_altitude_valid := True, fms_altitude := (alt_bits - 1) * 32\<rparr>
        else n\<lparr>mcp_altitude_valid := True, mcp_altitude := (alt_bits - 1) * 32\<rparr>
      else n)"

definition target_status_v2 :: "modesMessage \<Rightarrow> modesMessage" where
  "target_status_v2 mm =
     (let me = ME (raw mm);
          n = tss2_altitude (getbit me 9) (getbits me 10 20) (nav mm);
          baro_bits = getbits me 21 29;
          n = if_do (baro_bits \<noteq> 0) (\<lambda>n. n\<lparr>qnh_valid := True,
                qnh := f32 (f64 (800 + f64 (of_int (uint (baro_bits - 1)) * f64 (8 / 10))))\<rparr>) n;
          n = if_do (getbit me 30) (\<lambda>n. n\<lparr>nav_heading_valid := True,
                nav_heading := f32 (f64 (f64 (of_int (uint (getbits me 31 39)) * 180) / 256)),
                nav_heading_type := HEADING_MAGNETIC_OR_TRUE\<rparr>) n;
          n = if_do (getbit me 47) (\<lambda>n. n\<lparr>nav_modes_valid := True, nav_modes := tss2_modes me\<rparr>) n
      in mm\<lparr>nav := n, accuracy := tss_accuracy me (accuracy mm)\<rparr>)"

definition decodeESTargetStatus :: "bool \<Rightarrow> modesMessage \<Rightarrow> modesMessage" where
  "decodeESTargetStatus check_imf mm =
     (let me = ME (raw mm); sub = getbits me 6 7; mm = mm\<lparr>mesub := sub\<rparr>;
          mm = if_do (check_imf \<and> getbit me 51) setIMF mm
      in if sub = 0 \<and> \<not> getbit me 11 then target_status_v1 mm
         else if sub = 1 then target_status_v2 mm
         else mm)"

subsection \<open>Operational status\<close>

definition opstatus_v0 :: "u8 list \<Rightarrow> u32 \<Rightarrow> mm_opstatus \<Rightarrow> mm_opstatus" where
  "opstatus_v0 me sub op =
     (if sub = 0 \<and> getbits me 9 10 = 0
      then op\<lparr>cc_acas := flag (\<not> getbit me 12), cc_cdti := flag (getbit me 13)\<rparr>
      else op)"

definition opstatus_v1 :: "u8 list \<Rightarrow> u32 \<Rightarrow> mm_opstatus \<Rightarrow> mm_opstatus" where
  "opstatus_v1 me sub op =
     (let op = (if getbits me 25 26 = 0 then
                  op\<lparr>om_acas_ra := flag (getbit me 27), om_ident := flag (getbit me 28), om_atc := flag (getbit me 29)\<rparr>
                else op);
          op = (if sub = 0 \<and> getbits me 9 10 = 0 \<and> getbits me 13 14 = 0 then
                  op\<lparr>cc_acas := flag (\<not> getbit me 11), cc_cdti := flag (getbit me 12), cc_arv := flag (getbit me 15),
                     cc_ts := flag (getbit me 16), cc_tc := getbits me 17 18\<rparr>
                else if sub = 1 \<and> getbits me 9 10 = 0 \<and> getbits me 13 14 = 0 then
                  op\<lparr>cc_poa := flag (getbit me 11), cc_cdti := flag (getbit me 12), cc_b2_low := flag (getbit me 15),
                     cc_lw_valid := 1, cc_lw := getbits me 21 24\<rparr>
                else op);
          op = op\<lparr>op_hrd := (if getbit me 54 then HEADING_MAGNETIC else HEADING_TRUE)\<rparr>
      in if sub = 0 then op
         else op\<lparr>op_tah := (if getbit me 53 then op_hrd op else HEADING_GROUND_TRACK)\<rparr>)"

definition opstatus_v1_accuracy :: "u8 list \<Rightarrow> u32 \<Rightarrow> mm_accuracy \<Rightarrow> mm_accuracy" where
  "opstatus_v1_accuracy me sub a =
     (let a = a\<lparr>nic_a_valid := True, nic_a := flag (getbit me 44), nac_p_valid := True, nac_p := getbits me 45 48,
                sil_type := SIL_UNKNOWN, sil := getbits me 51 52\<rparr>
      in if sub = 0 then a\<lparr>nic_baro_valid := True, nic_baro := flag (getbit me 53)\<rparr> else a)"

definition opstatus_v2 :: "u8 list \<Rightarrow> u32 \<Rightarrow> mm_opstatus \<Rightarrow> mm_opstatus" where
  "opstatus_v2 me sub op =
     (let op = (if getbits me 25 26 = 0 then
                  op\<lparr>om_acas_ra := flag (getbit me 27), om_ident := flag (getbit me 28),
                     om_atc := flag (getbit me 29), om_saf := flag (getbit me 30)\<rparr>
                else op);
          op = (if sub = 0 \<and> getbits me 9 10 = 0 then
                  op\<lparr>cc_acas := flag (getbit me 11), cc_1090_in := flag (getbit me 12), cc_arv := flag (getbit me 15),
                     cc_ts := flag (getbit me 16), cc_tc := getbits me 17 18, cc_uat_in := flag (getbit me 19)\<rparr>
                else if sub = 1 \<and> getbits me 9 10 = 0 then
                  op\<lparr>cc_poa := flag (getbit me 11), cc_1090_in := flag (getbit me 12), cc_b2_low := flag (getbit me 15),
                     cc_uat_in := flag (getbit me 16), cc_lw_valid := 1, cc_lw := getbits me 21 24,
                     cc_antenna_offset := getbits me 33 40\<rparr>
                else op);
          op = op\<lparr>op_hrd := (if getbit me 54 then HEADING_MAGNETIC else HEADING_TRUE)\<rparr>
      in if sub = 0 then op
         else op\<lparr>op_tah := (if getbit me 53 then op_hrd op else HEADING_GROUND_TRACK)\<rparr>)"

definition opstatus_v2_accuracy :: "u8 list \<Rightarrow> u32 \<Rightarrow> mm_accuracy \<Rightarrow> mm_accuracy" where
  "opstatus_v2_accuracy me sub a =
     (let a = (if getbits me 25 26 = 0 then a\<lparr>sda_valid := True, sda := getbits me 31 32\<rparr> else a);
          a = (if sub = 1 \<and> getbits me 9 10 = 0 then
                 a\<lparr>nac_v_valid := True, nac_v := getbits me 17 19, nic_c_valid := True, nic_c := flag (getbit me 20)\<rparr>
               else a);
          a = a\<lparr>nic_a_valid := True, nic_a := flag (getbit me 44), nac_p_valid := True, nac_p := getbits me 45 48,
                sil := getbits me 51 52, sil_type := (if getbit me 55 then SIL_PER_SAMPLE else SIL_PER_HOUR)\<rparr>
      in if sub = 0 then
           a\<lparr>gva_valid := True, gva := getbits me 49 50, nic_baro_valid := True, nic_baro := flag (getbit me 53)\<rparr>
         else a)"

definition decodeESOperationalStatus :: "bool \<Rightarrow> modesMessage \<Rightarrow> modesMessage" where
  "decodeESOperationalStatus check_imf mm =
     (let me = ME (raw mm); sub = getbits me 6 8; mm = mm\<lparr>mesub := sub\<rparr>;
          mm = if_do (check_imf \<and> getbit me 56) setIMF mm
      in if sub = 0 \<or> sub = 1 then
           let version = getbits me 41 43;
               op = (opstatus mm)\<lparr>op_valid := True, op_version := version\<rparr>
           in if version = 0 then mm\<lparr>opstatus := opstatus_v0 me sub op\<rparr>
              else if version = 1 then
                mm\<lparr>opstatus := opstatus_v1 me sub op, accuracy := opstatus_v1_accuracy me sub (accuracy mm)\<rparr>
              else if version = 2 then
                mm\<lparr>opstatus := opstatus_v2 me sub op, accuracy := opstatus_v2_accuracy me sub (accuracy mm)\<rparr>
              else mm\<lparr>opstatus := op\<rparr>
         else mm)"

subsection \<open>Dispatch\<close>

text \<open>
  The control field of a DF18 message: the address type and source it stands for and whether the
  message carries an IMF bit (\<open>Some check_imf\<close>), or that nothing more is decoded (\<open>None\<close>).
\<close>

definition non_icao :: "modesMessage \<Rightarrow> modesMessage" where
  "non_icao mm = mm\<lparr>addr := addr mm OR MODES_NON_ICAO_ADDRESS\<rparr>"

definition control_field :: "modesMessage \<Rightarrow> modesMessage \<times> bool option" where
  "control_field mm =
     (let cf = CF (raw mm) in
      if cf = 0 then (mm\<lparr>addrtype := ADDR_ADSB_ICAO_NT\<rparr>, Some False)
      else if cf = 1 then (non_icao (mm\<lparr>addrtype := ADDR_ADSB_OTHER\<rparr>), Some False)
      else if cf = 2 then (mm\<lparr>source := SOURCE_TISB, addrtype := ADDR_TISB_ICAO\<rparr>, Some True)
      else if cf = 3 then
        (if_do (getbit (ME (raw mm)) 1) setIMF (mm\<lparr>source := SOURCE_TISB, addrtype := ADDR_TISB_ICAO\<rparr>), None)
      else if cf = 5 then (non_icao (mm\<lparr>addrtype := ADDR_TISB_OTHER, source := SOURCE_TISB\<rparr>), Some False)
      else if cf = 6 then (mm\<lparr>addrtype := ADDR_ADSR_ICAO, source := SOURCE_ADSR\<rparr>, Some True)
      else (non_icao (mm\<lparr>addrtype := ADDR_UNKNOWN\<rparr>), None))"

definition decode_metype :: "libm \<Rightarrow> mode_ac_tables \<Rightarrow> bool \<Rightarrow> modesMessage \<Rightarrow> modesMessage \<times> nat" where
  "decode_metype L t check_imf mm =
     (let ty = metype mm in
      if ty \<in> {1, 2, 3, 4} then (decodeESIdentAndCategory mm, 0)
      else if ty = 19 then (decodeESAirborneVelocity L check_imf mm, 0)
      else if ty \<in> {5, 6, 7, 8} then (decodeESSurfacePosition check_imf mm, 0)
      else if ty = 0 \<or> 9 \<le> ty \<and> ty \<le> 18 \<or> 20 \<le> ty \<and> ty \<le> 22 then decodeESAirbornePosition t check_imf mm
      else if ty = 23 then (decodeESTestMessage mm, 0)
      else if ty = 24 then (mm, 0)
      else if ty = 28 then (decodeESAircraftStatus check_imf mm, 0)
      else if ty = 29 then (decodeESTargetStatus check_imf mm, 0)
      else if ty = 30 then (mm, 0)
      else if ty = 31 then (decodeESOperationalStatus check_imf mm, 0)
      else (mm\<lparr>reliable := False\<rparr>, 0))"

definition decodeExtendedSquitter :: "libm \<Rightarrow> mode_ac_tables \<Rightarrow> modesMessage \<Rightarrow> modesMessage \<times> nat" where
  "decodeExtendedSquitter L t mm =
     (let mm = mm\<lparr>metype := getbits (ME (raw mm)) 1 5\<rparr>;
          (mm, go) = (if msgtype mm = 18 then control_field mm else (mm, Some False))
      in case go of
           None \<Rightarrow> (mm, 0)
         | Some check_imf \<Rightarrow> decode_metype L t check_imf mm)"

subsection \<open>Addresses\<close>

lemma addr_unchanged [simp]:
  "addr (velocity_ground L mm) = addr mm" "addrtype (velocity_ground L mm) = addrtype mm"
  "addr (velocity_air mm) = addr mm" "addrtype (velocity_air mm) = addrtype mm"
  "addr (vertical_rate mm) = addr mm" "addrtype (vertical_rate mm) = addrtype mm"
  "addr (geometric_delta mm) = addr mm" "addrtype (geometric_delta mm) = addrtype mm"
  "addr (surveillance_status u mm) = addr mm" "addrtype (surveillance_status u mm) = addrtype mm"
  "addr (fst (airborne_cpr u mm)) = addr mm" "addrtype (fst (airborne_cpr u mm)) = addrtype mm"
  "addr (airborne_altitude t u mm) = addr mm" "addrtype (airborne_altitude t u mm) = addrtype mm"
  "addr (decodeESTestMessage mm) = addr mm" "addrtype (decodeESTestMessage mm) = addrtype mm"
  "addr (decodeESIdentAndCategory mm) = addr mm" "addrtype (decodeESIdentAndCategory mm) = addrtype mm"
  "addr (target_status_v1 mm) = addr mm" "addrtype (target_status_v1 mm) = addrtype mm"
  "addr (target_status_v2 mm) = addr mm" "addrtype (target_status_v2 mm) = addrtype mm"
  by (simp_all add: velocity_ground_def velocity_air_def vertical_rate_def geometric_delta_def surveillance_status_def
      airborne_cpr_def airborne_altitude_def decodeESTestMessage_def decodeESIdentAndCategory_def
      target_status_v1_def target_status_v2_def Let_def if_do_def split: prod.split)

text \<open>
  \<open>imf_step\<close>: a decoder leaves the address and its type alone, or marks a non-ICAO address.
\<close>

definition same_address :: "modesMessage \<Rightarrow> modesMessage \<Rightarrow> bool" where
  "same_address a b \<longleftrightarrow> addr a = addr b \<and> addrtype a = addrtype b"

definition imf_step :: "bool \<Rightarrow> modesMessage \<Rightarrow> modesMessage \<Rightarrow> bool" where
  "imf_step check_imf mm mm' \<longleftrightarrow> same_address mm' mm \<or> check_imf \<and> same_address mm' (setIMF mm)"

lemma setIMF_cong: "same_address a b \<Longrightarrow> same_address (setIMF a) (setIMF b)"
  by (simp add: same_address_def setIMF_def)

lemma imf_stepI:
  assumes "addr mm' = addr (if_do (check_imf \<and> b) setIMF mm1)"
    "addrtype mm' = addrtype (if_do (check_imf \<and> b) setIMF mm1)" "addr mm1 = addr mm" "addrtype mm1 = addrtype mm"
  shows "imf_step check_imf mm mm'"
  using assms setIMF_cong [of mm1 mm] by (auto simp: imf_step_def same_address_def if_do_def split: if_splits)

lemma imf_velocity: "imf_step check_imf mm (decodeESAirborneVelocity L check_imf mm)"
proof (cases "getbits (ME (raw mm)) 6 8 < 1 \<or> getbits (ME (raw mm)) 6 8 > 4")
  case True
  then show ?thesis by (auto simp: decodeESAirborneVelocity_def Let_def imf_step_def same_address_def)
next
  case False
  show ?thesis
    by (rule imf_stepI [where b = "getbit (ME (raw mm)) 9" and ?mm1.0 = "mm\<lparr>mesub := getbits (ME (raw mm)) 6 8\<rparr>"])
      (use False in \<open>simp_all add: decodeESAirborneVelocity_def Let_def\<close>)
qed

lemma imf_surface: "imf_step check_imf mm (decodeESSurfacePosition check_imf mm)"
  by (auto simp: decodeESSurfacePosition_def Let_def if_do_def imf_step_def same_address_def setIMF_def)

lemma imf_airborne: "imf_step check_imf mm (fst (decodeESAirbornePosition t check_imf mm))"
proof -
  let ?me = "ME (raw mm)"
  let ?m1 = "surveillance_status (getbits ?me 6 7) mm"
  let ?m2 = "if check_imf then if_do (getbit ?me 8) setIMF ?m1
                else ?m1\<lparr>accuracy := (accuracy ?m1)\<lparr>nic_b_valid := True, nic_b := flag (getbit ?me 8)\<rparr>\<rparr>"
  have "fst (decodeESAirbornePosition t check_imf mm) =
      airborne_altitude t (getbits ?me 9 20) (fst (airborne_cpr (getbits ?me 9 20) ?m2))"
    by (simp add: decodeESAirbornePosition_def Let_def split_beta)
  then show ?thesis
    by (intro imf_stepI [where b = "getbit ?me 8" and ?mm1.0 = ?m1]) (simp_all add: if_do_def)
qed

lemma imf_status: "imf_step check_imf mm (decodeESAircraftStatus check_imf mm)"
  by (auto simp: decodeESAircraftStatus_def Let_def if_do_def imf_step_def same_address_def setIMF_def)

lemma imf_target: "imf_step check_imf mm (decodeESTargetStatus check_imf mm)"
  by (rule imf_stepI [where b = "getbit (ME (raw mm)) 51" and ?mm1.0 = "mm\<lparr>mesub := getbits (ME (raw mm)) 6 7\<rparr>"])
    (simp_all add: decodeESTargetStatus_def Let_def)

lemma imf_opstatus: "imf_step check_imf mm (decodeESOperationalStatus check_imf mm)"
  by (rule imf_stepI [where b = "getbit (ME (raw mm)) 56" and ?mm1.0 = "mm\<lparr>mesub := getbits (ME (raw mm)) 6 8\<rparr>"])
    (simp_all add: decodeESOperationalStatus_def Let_def)

lemma imf_metype: "imf_step check_imf mm (fst (decode_metype L t check_imf mm))"
proof -
  have id: "imf_step check_imf mm x" if "addr x = addr mm" "addrtype x = addrtype mm" for x
    using that by (simp add: imf_step_def same_address_def)
  show ?thesis
    unfolding decode_metype_def Let_def
    by (auto intro: id imf_velocity imf_surface imf_airborne imf_status imf_target imf_opstatus)
qed

definition non_icao_type :: "addrtype_t \<Rightarrow> bool" where
  "non_icao_type a \<longleftrightarrow> a \<in> {ADDR_ADSB_OTHER, ADDR_ADSR_OTHER, ADDR_TISB_TRACKFILE, ADDR_TISB_OTHER, ADDR_UNKNOWN}"

definition address_consistent :: "modesMessage \<Rightarrow> bool" where
  "address_consistent mm \<longleftrightarrow> bit (addr mm) 24 = non_icao_type (addrtype mm)"

lemma bit_non_icao: "bit (a OR MODES_NON_ICAO_ADDRESS) 24"
  by (simp add: MODES_NON_ICAO_ADDRESS_def bit_or_iff bit_push_bit_iff)

text \<open>
  C21. Address consistency: an extended squitter whose announced address is a plain 24-bit one ends
  with the non-ICAO flag set in its address exactly when its address type is one of the non-ICAO
  types, whatever its control field, message type and IMF bit.
\<close>

theorem decodeExtendedSquitter_address_consistent:
  assumes "\<not> bit (addr mm) 24" "msgtype mm = 18 \<or> addrtype mm = ADDR_ADSB_ICAO"
  shows "address_consistent (fst (decodeExtendedSquitter L t mm))"
proof -
  let ?m = "mm\<lparr>metype := getbits (ME (raw mm)) 1 5\<rparr>"
  have keep: "address_consistent (fst (decode_metype L t ci m))"
    if "address_consistent m" "ci \<Longrightarrow> addrtype m \<in> {ADDR_TISB_ICAO, ADDR_ADSR_ICAO}" for ci m
    using imf_metype [of ci m L t] that bit_non_icao
    by (auto simp: imf_step_def same_address_def address_consistent_def setIMF_def non_icao_type_def)
  show ?thesis
  proof (cases "msgtype mm = 18")
    case True
    obtain m go where c: "control_field ?m = (m, go)" by (cases "control_field ?m") auto
    have m: "address_consistent m \<and> (go = Some True \<longrightarrow> addrtype m \<in> {ADDR_TISB_ICAO, ADDR_ADSR_ICAO})"
      using c assms(1) bit_non_icao
      by (auto simp: control_field_def Let_def address_consistent_def non_icao_type_def non_icao_def if_do_def
          setIMF_def split: if_splits)
    show ?thesis
      using m keep [of m] True c by (cases go) (auto simp: decodeExtendedSquitter_def)
  next
    case False
    have "address_consistent ?m"
      using False assms by (auto simp: address_consistent_def non_icao_type_def)
    then show ?thesis using False keep [of ?m False] by (simp add: decodeExtendedSquitter_def)
  qed
qed

theorem decodeExtendedSquitter_address_consistent_witness:
  "\<forall>L t. address_consistent (fst (decodeExtendedSquitter L t
     (zeroMessage\<lparr>msgtype := 18, addr := 0x484412, raw := zero_raw\<lparr>CF := 2, ME := [0x99, 0x80, 0, 0, 0, 0, 0]\<rparr>\<rparr>)))"
proof (intro allI)
  fix L t
  have "\<not> bit (0x484412 :: u32) 24" by code_simp
  then show "address_consistent (fst (decodeExtendedSquitter L t
     (zeroMessage\<lparr>msgtype := 18, addr := 0x484412, raw := zero_raw\<lparr>CF := 2, ME := [0x99, 0x80, 0, 0, 0, 0, 0]\<rparr>\<rparr>)))"
    by (intro decodeExtendedSquitter_address_consistent) simp_all
qed

subsection \<open>Arithmetic of the fields\<close>

lemma sint_small: "- (2 ^ 31) \<le> k \<Longrightarrow> k < 2 ^ 31 \<Longrightarrow> w = word_of_int k \<Longrightarrow> sint (w :: u32) = k"
  using sint_word_of_int_u32 by simp

lemma scaled_field:
  assumes "r \<noteq> (0 :: u32)" "uint r < 1024" "\<bar>c\<bar> \<le> 256"
  shows "sint ((r - 1) * word_of_int c) = (uint r - 1) * c"
proof (rule sint_small)
  have "0 < uint r" using assms(1) by (simp add: word_neq_0_conv word_less_def)
  then have r: "0 \<le> uint r - 1" "uint r - 1 \<le> 1022" using assms(2) by simp_all
  have "\<bar>(uint r - 1) * c\<bar> \<le> 1022 * 256"
    unfolding abs_mult using r assms(3) by (intro mult_mono) simp_all
  then show "- (2 ^ 31) \<le> (uint r - 1) * c" "(uint r - 1) * c < 2 ^ 31" by simp_all
  show "(r - 1) * word_of_int c = word_of_int ((uint r - 1) * c)" by simp
qed

lemma signed_component_eq:
  assumes "r \<noteq> 0" "uint r < 1024"
  shows "signed_component r negative supersonic =
    (uint r - 1) * ((if negative then -1 else 1) * (if supersonic then 4 else 1))"
proof -
  have "signed_component r negative supersonic =
      sint ((r - 1) * word_of_int ((if negative then -1 else 1) * (if supersonic then 4 else 1)))"
    by (simp add: signed_component_def)
  also have "\<dots> = (uint r - 1) * ((if negative then -1 else 1) * (if supersonic then 4 else 1))"
    by (rule scaled_field [OF assms]) simp
  finally show ?thesis .
qed

text \<open>
  The velocity fields do not wrap: although the code multiplies unsigned fields by negative
  scale factors, the vertical rate and the difference between geometric and barometric altitude
  are the signed values the message encodes, and a zero field leaves the message unchanged.
\<close>

theorem velocity_fields_exact:
  "(let me = ME (raw mm); r = getbits me 38 46; d = getbits me 50 56;
        rate = (uint r - 1) * (if getbit me 37 then -64 else 64);
        delta = (uint d - 1) * (if getbit me 49 then -25 else 25)
    in vertical_rate mm =
         (if r = 0 then mm
          else if getbit me 36 then mm\<lparr>baro_rate := rate, baro_rate_valid := True\<rparr>
          else mm\<lparr>geom_rate := rate, geom_rate_valid := True\<rparr>) \<and>
       geometric_delta mm =
         (if d = 0 then mm else mm\<lparr>geom_delta_valid := True, geom_delta := delta\<rparr>))"
proof -
  let ?me = "ME (raw mm)"
  have r: "uint (getbits ?me 38 46) < 1024" "uint (getbits ?me 50 56) < 1024"
    using uint_getbits_less [of 38 46 ?me] uint_getbits_less [of 50 56 ?me] by simp_all
  have rate: "sint ((getbits ?me 38 46 - 1) * (if n then -64 else 64)) = (uint (getbits ?me 38 46) - 1) * (if n then -64 else 64)"
    if "getbits ?me 38 46 \<noteq> 0" for n
    using scaled_field [OF that r(1), of "-64"] scaled_field [OF that r(1), of 64] by (cases n) simp_all
  have delta: "sint ((getbits ?me 50 56 - 1) * (if n then -25 else 25)) = (uint (getbits ?me 50 56) - 1) * (if n then -25 else 25)"
    if "getbits ?me 50 56 \<noteq> 0" for n
    using scaled_field [OF that r(2), of "-25"] scaled_field [OF that r(2), of 25] by (cases n) simp_all
  show ?thesis
    unfolding Let_def vertical_rate_def geometric_delta_def by (simp add: rate delta)
qed

text \<open>
  A version 1 target altitude below sea level is stored as a huge unsigned number: the field
  encodes -1000 ft to 101300 ft in steps of 100 ft, and the ten codes below 0 ft wrap around.
\<close>

theorem tss1_altitude_wraps:
  "uint (tss1_altitude (getbits me 16 25)) =
     100 * uint (getbits me 16 25) - 1000 + (if uint (getbits me 16 25) < 10 then 2 ^ 32 else 0)"
proof -
  define k where "k = uint (getbits me 16 25)"
  have k: "0 \<le> k" "k < 1024" using uint_getbits_less [of 16 25 me] by (simp_all add: k_def)
  have "getbits me 16 25 = word_of_int k" by (simp add: k_def)
  then have "tss1_altitude (getbits me 16 25) = word_of_int (100 * k - 1000)"
    by (simp add: tss1_altitude_def)
  then have u: "uint (tss1_altitude (getbits me 16 25)) = (100 * k - 1000) mod 2 ^ 32"
    by (simp only: uint_word_of_int) simp
  show ?thesis
  proof (cases "k < 10")
    case True
    have "(100 * k - 1000) mod 2 ^ 32 = (100 * k - 1000 + 2 ^ 32) mod 2 ^ 32"
      by (rule mod_add_self2 [symmetric])
    also have "\<dots> = 100 * k - 1000 + 2 ^ 32" using k True by (intro mod_pos_pos_trivial) simp_all
    finally show ?thesis using True u by (simp flip: k_def)
  next
    case False
    then show ?thesis using u k by (simp flip: k_def)
  qed
qed

end
