(* ===== verification/ModeS.thy ===== *)
theory ModeS
  imports CrcTables IcaoFilter Squitter
begin

text \<open>
  Mode S messages as a whole: error correction, scoring and decoding in \<^verbatim>\<open>src/mode_s.c\<close>. The
  configuration the code reads from \<^verbatim>\<open>Modes\<close>, the CRC tables, the Mode A/C tables and the C
  library are the record \<open>mode_s_env\<close>; the ICAO filter is threaded through. A run that trips an
  assertion or leaves an array is \<open>None\<close>. The buffer \<open>correctMessage\<close> writes to starts with
  arbitrary contents, as the C code does not initialise it.
\<close>

datatype score_rank =
    SR_NOT_SET | SR_ALL_ZEROS | SR_UNKNOWN_DF | SR_UNCORRECTABLE | SR_UNKNOWN_THRESHOLD
  | SR_UNRELIABLE_UNKNOWN | SR_DF11_IID_1ERROR_UNKNOWN | SR_DF11_ACQ_1ERROR_UNKNOWN
  | SR_DF11_IID_UNKNOWN | SR_DF18_2ERROR_UNKNOWN | SR_DF17_2ERROR_UNKNOWN | SR_ACCEPT_THRESHOLD
  | SR_UNRELIABLE_KNOWN | SR_DF18_2ERROR_KNOWN | SR_DF17_2ERROR_KNOWN | SR_DF18_1ERROR_UNKNOWN
  | SR_DF17_1ERROR_UNKNOWN | SR_DF11_ACQ_UNKNOWN | SR_DF11_IID_1ERROR_KNOWN | SR_DF11_ACQ_1ERROR_KNOWN
  | SR_DF11_IID_KNOWN | SR_DF18_1ERROR_KNOWN | SR_DF17_1ERROR_KNOWN | SR_DF11_ACQ_KNOWN
  | SR_DF18_UNKNOWN | SR_DF17_UNKNOWN | SR_DF18_KNOWN | SR_DF17_KNOWN

definition score_ranks :: "score_rank list" where
  "score_ranks =
     [SR_NOT_SET, SR_ALL_ZEROS, SR_UNKNOWN_DF, SR_UNCORRECTABLE, SR_UNKNOWN_THRESHOLD,
      SR_UNRELIABLE_UNKNOWN, SR_DF11_IID_1ERROR_UNKNOWN, SR_DF11_ACQ_1ERROR_UNKNOWN,
      SR_DF11_IID_UNKNOWN, SR_DF18_2ERROR_UNKNOWN, SR_DF17_2ERROR_UNKNOWN, SR_ACCEPT_THRESHOLD,
      SR_UNRELIABLE_KNOWN, SR_DF18_2ERROR_KNOWN, SR_DF17_2ERROR_KNOWN, SR_DF18_1ERROR_UNKNOWN,
      SR_DF17_1ERROR_UNKNOWN, SR_DF11_ACQ_UNKNOWN, SR_DF11_IID_1ERROR_KNOWN, SR_DF11_ACQ_1ERROR_KNOWN,
      SR_DF11_IID_KNOWN, SR_DF18_1ERROR_KNOWN, SR_DF17_1ERROR_KNOWN, SR_DF11_ACQ_KNOWN,
      SR_DF18_UNKNOWN, SR_DF17_UNKNOWN, SR_DF18_KNOWN, SR_DF17_KNOWN]"

definition score_value :: "score_rank \<Rightarrow> int" where
  "score_value r = int (length (takeWhile (\<lambda>x. x \<noteq> r) score_ranks))"

record mode_s_env =
  e_crc :: crc_globals
  e_nfix_crc :: nat
  e_fix_df :: bool
  e_enable_df24 :: bool
  e_ac :: mode_ac_tables
  e_libm :: libm

definition ICAO_FILTER_ADSB_NT :: u32 where
  "ICAO_FILTER_ADSB_NT = push_bit 25 1"

definition MAGIC_MLAT_TIMESTAMP :: u64 where
  "MAGIC_MLAT_TIMESTAMP = 0xFF004D4C4154"

definition UNCHECKED_SYNDROME :: u32 where
  "UNCHECKED_SYNDROME = 0xFFFFFFFF"

subsection \<open>Correcting a message\<close>

definition isLongPIMessage :: "u8 list \<Rightarrow> bool" where
  "isLongPIMessage m = (let df = getbits m 1 5 in df = 17 \<or> df = 18)"

definition isShortPIMessage :: "u8 list \<Rightarrow> bool" where
  "isShortPIMessage m = (let df = getbits m 1 5 in df = 11)"

definition df_correctable_short :: "u32 list" where
  "df_correctable_short = [0x00000800, 0x08008e08, 0x08008e08]"

definition df_correctable_long :: "u32 list" where
  "df_correctable_long = [0x00060000, 0x066f0006, 0x6fff066f]"

text \<open>The syndrome, whether the message has a correct checksum as it is, and the correction.\<close>

type_synonym check = "u32 \<times> bool \<times> errorinfo option"

definition check_long :: "mode_s_env \<Rightarrow> nat \<Rightarrow> u8 list \<Rightarrow> check option" where
  "check_long env fix_df_bits inp = do {
     m \<leftarrow> arr_get df_correctable_long fix_df_bits;
     if m AND push_bit (unat (getbits inp 1 5)) 1 \<noteq> 0 then do {
       s \<leftarrow> modesChecksum (crc_table (e_crc env)) inp MODES_LONG_MSG_BITS;
       if isLongPIMessage inp \<and> s = 0 then Some (s, True, None)
       else do { ei \<leftarrow> modesChecksumDiagnose (e_crc env) s MODES_LONG_MSG_BITS; Some (s, False, ei) } }
     else Some (UNCHECKED_SYNDROME, False, None) }"

definition check_short :: "mode_s_env \<Rightarrow> nat \<Rightarrow> u8 list \<Rightarrow> check option" where
  "check_short env fix_df_bits inp = do {
     m \<leftarrow> arr_get df_correctable_short fix_df_bits;
     if m AND push_bit (unat (getbits inp 1 5)) 1 \<noteq> 0 then do {
       s \<leftarrow> modesChecksum (crc_table (e_crc env)) inp MODES_SHORT_MSG_BITS;
       if isShortPIMessage inp \<and> s AND 0xFFFF80 = 0 then Some (s, True, None)
       else do { ei \<leftarrow> modesChecksumDiagnose (e_crc env) s MODES_SHORT_MSG_BITS; Some (s, False, ei) } }
     else Some (UNCHECKED_SYNDROME, False, None) }"

definition ei_errors :: "errorinfo option \<Rightarrow> int" where
  "ei_errors ei = (case ei of None \<Rightarrow> 999 | Some e \<Rightarrow> errors e)"

definition copy_short :: "u8 list \<Rightarrow> u8 list \<Rightarrow> u8 list" where
  "copy_short inp out = take 7 inp @ drop 7 out"

definition try_long :: "u8 list \<Rightarrow> errorinfo option \<Rightarrow> (bool \<times> u8 list) option" where
  "try_long inp ei = do { out \<leftarrow> modesChecksumFix (take 14 inp) ei; Some (isLongPIMessage out, out) }"

definition try_short :: "u8 list \<Rightarrow> u8 list \<Rightarrow> errorinfo option \<Rightarrow> (bool \<times> u8 list) option" where
  "try_short inp out ei = do { out \<leftarrow> modesChecksumFix (copy_short inp out) ei; Some (isShortPIMessage out, out) }"

text \<open>The corrections applied, the corrected message, the short and the long syndrome.\<close>

type_synonym corrected = "int \<times> u8 list \<times> u32 \<times> u32"

definition apply_corrections :: "u8 list \<Rightarrow> u8 list \<Rightarrow> check \<Rightarrow> check \<Rightarrow> corrected option" where
  "apply_corrections inp out short long =
     (case (short, long) of ((ss, _, sei), (sl, _, lei)) \<Rightarrow>
        let le = ei_errors lei; se = ei_errors sei in do {
          (ok, out) \<leftarrow> (if lei \<noteq> None \<and> le \<le> se then try_long inp lei else Some (False, out));
          if ok then Some (le, out, ss, sl) else do {
          (ok, out) \<leftarrow> (if sei \<noteq> None \<and> se = 1 then try_short inp out sei else Some (False, out));
          if ok then Some (se, out, ss, sl) else do {
          (ok, out) \<leftarrow> (if lei \<noteq> None \<and> le > se then try_long inp lei else Some (False, out));
          if ok then Some (le, out, ss, sl) else Some (-1, take 14 inp, ss, sl) } } })"

definition correctMessage :: "mode_s_env \<Rightarrow> u8 list \<Rightarrow> u8 list \<Rightarrow> corrected option" where
  "correctMessage env inp out =
     (let fix_df_bits = (if e_fix_df env then e_nfix_crc env else 0) in do {
        long \<leftarrow> check_long env fix_df_bits inp;
        if fst (snd long) then Some (0, take 14 inp, UNCHECKED_SYNDROME, fst long)
        else do {
          short \<leftarrow> check_short env fix_df_bits inp;
          if fst (snd short) then Some (0, copy_short inp out, fst short, fst long)
          else apply_corrections inp out short long } })"

subsection \<open>Scoring\<close>

definition short_syndrome_of :: "mode_s_env \<Rightarrow> u8 list \<Rightarrow> u32 \<Rightarrow> u32 option" where
  "short_syndrome_of env m s =
     (if s = UNCHECKED_SYNDROME then modesChecksum (crc_table (e_crc env)) m MODES_SHORT_MSG_BITS else Some s)"

definition long_syndrome_of :: "mode_s_env \<Rightarrow> u8 list \<Rightarrow> u32 \<Rightarrow> u32 option" where
  "long_syndrome_of env m s =
     (if s = UNCHECKED_SYNDROME then modesChecksum (crc_table (e_crc env)) m MODES_LONG_MSG_BITS else Some s)"

definition unreliable :: "bool \<Rightarrow> score_rank" where
  "unreliable recent = (if recent then SR_UNRELIABLE_KNOWN else SR_UNRELIABLE_UNKNOWN)"

definition score_df11 :: "int \<Rightarrow> bool \<Rightarrow> bool \<Rightarrow> score_rank" where
  "score_df11 corrections iid_zero recent =
     (if corrections = 0 then
        if iid_zero then if recent then SR_DF11_ACQ_KNOWN else SR_DF11_ACQ_UNKNOWN
        else if recent then SR_DF11_IID_KNOWN else SR_DF11_IID_UNKNOWN
      else if corrections = 1 then
        if iid_zero then if recent then SR_DF11_ACQ_1ERROR_KNOWN else SR_DF11_ACQ_1ERROR_UNKNOWN
        else if recent then SR_DF11_IID_1ERROR_KNOWN else SR_DF11_IID_1ERROR_UNKNOWN
      else SR_UNCORRECTABLE)"

definition score_df17 :: "int \<Rightarrow> bool \<Rightarrow> score_rank" where
  "score_df17 corrections recent =
     (if corrections = 0 then if recent then SR_DF17_KNOWN else SR_DF17_UNKNOWN
      else if corrections = 1 then if recent then SR_DF17_1ERROR_KNOWN else SR_DF17_1ERROR_UNKNOWN
      else if corrections = 2 then if recent then SR_DF17_2ERROR_KNOWN else SR_DF17_2ERROR_UNKNOWN
      else SR_UNCORRECTABLE)"

definition score_df18 :: "int \<Rightarrow> bool \<Rightarrow> score_rank" where
  "score_df18 corrections recent =
     (if corrections = 0 then if recent then SR_DF18_KNOWN else SR_DF18_UNKNOWN
      else if corrections = 1 then if recent then SR_DF18_1ERROR_KNOWN else SR_DF18_1ERROR_UNKNOWN
      else if corrections = 2 then if recent then SR_DF18_2ERROR_KNOWN else SR_DF18_2ERROR_UNKNOWN
      else SR_UNCORRECTABLE)"

definition score_corrected :: "mode_s_env \<Rightarrow> icao_filter \<Rightarrow> corrected \<Rightarrow> score_rank option" where
  "score_corrected env f c =
     (case c of (corrections, m, ss, sl) \<Rightarrow>
        let df = getbits m 1 5 in
        if df \<in> {0, 4, 5} then do {
          s \<leftarrow> short_syndrome_of env m ss; recent \<leftarrow> icaoFilterTest s f; Some (unreliable recent) }
        else if df \<in> {16, 20, 21} then do {
          s \<leftarrow> long_syndrome_of env m sl; recent \<leftarrow> icaoFilterTest s f; Some (unreliable recent) }
        else if df \<ge> 24 then
          (if \<not> e_enable_df24 env then Some SR_UNCORRECTABLE
           else do { s \<leftarrow> long_syndrome_of env m sl; recent \<leftarrow> icaoFilterTest s f; Some (unreliable recent) })
        else if df = 11 then do {
          s \<leftarrow> short_syndrome_of env m ss;
          recent \<leftarrow> icaoFilterTest (getbits m 9 32) f;
          Some (score_df11 corrections (s AND 0x7F = 0) recent) }
        else if df = 17 then do {
          recent \<leftarrow> icaoFilterTest (getbits m 9 32) f; Some (score_df17 corrections recent) }
        else if df = 18 then do {
          recent \<leftarrow> icaoFilterTest (getbits m 9 32 OR ICAO_FILTER_ADSB_NT) f; Some (score_df18 corrections recent) }
        else Some SR_UNKNOWN_DF)"

definition scoreModesMessage :: "mode_s_env \<Rightarrow> icao_filter \<Rightarrow> u8 list \<Rightarrow> u8 list \<Rightarrow> score_rank option" where
  "scoreModesMessage env f uncorrected junk =
     (if take 7 uncorrected = replicate 7 0 then Some SR_ALL_ZEROS
      else do { c \<leftarrow> correctMessage env uncorrected junk; score_corrected env f c })"

subsection \<open>Decoding\<close>

text \<open>The fields of \<^verbatim>\<open>struct modesMessage\<close> that are bits of the message.\<close>

definition set_raw :: "(mm_raw \<Rightarrow> mm_raw) \<Rightarrow> modesMessage \<Rightarrow> modesMessage" where
  "set_raw g mm = mm\<lparr>raw := g (raw mm)\<rparr>"

text \<open>What the CRC says about the source; \<open>None\<close> is \<open>return -2\<close>.\<close>

definition crc_fields :: "modesMessage \<Rightarrow> modesMessage option" where
  "crc_fields mm =
     (let ty = msgtype mm in
      if ty \<in> {0, 4, 5, 16, 20, 21} then Some (mm\<lparr>source := SOURCE_MODE_S, addr := crc mm, reliable := False\<rparr>)
      else if ty = 11 then
        let mm = set_raw (\<lambda>r. r\<lparr>IID := crc mm AND 0x7f\<rparr>) mm in
        Some (mm\<lparr>source := SOURCE_MODE_S_CHECKED, reliable := (IID (raw mm) = 0 \<and> correctedbits mm = 0)\<rparr>)
      else if ty = 17 \<or> ty = 18 then Some (mm\<lparr>source := SOURCE_ADSB, reliable := (correctedbits mm = 0)\<rparr>)
      else if ty \<ge> 24 then Some (mm\<lparr>msgtype := 24, source := SOURCE_MODE_S, addr := crc mm, reliable := False\<rparr>)
      else None)"

definition decode_AA :: "u8 list \<Rightarrow> modesMessage \<Rightarrow> modesMessage" where
  "decode_AA m mm =
     (if msgtype mm \<in> {11, 17, 18} then
        let aa = getbits m 9 32 in set_raw (\<lambda>r. r\<lparr>AA := aa\<rparr>) (mm\<lparr>addr := aa\<rparr>)
      else mm)"

definition decode_AC :: "mode_ac_tables \<Rightarrow> u8 list \<Rightarrow> modesMessage \<Rightarrow> modesMessage" where
  "decode_AC t m mm =
     (if msgtype mm \<in> {0, 4, 16, 20} then
        let ac = getbits m 20 32; mm = set_raw (\<lambda>r. r\<lparr>AC := ac\<rparr>) mm in
        if ac \<noteq> 0 then
          let (alt, unit) = decodeAC13Field t ac; mm = mm\<lparr>altitude_baro := alt, altitude_baro_unit := unit\<rparr> in
          if alt \<noteq> INVALID_ALTITUDE then mm\<lparr>altitude_baro_valid := True\<rparr> else mm
        else mm
      else mm)"

definition decode_CA :: "u8 list \<Rightarrow> modesMessage \<Rightarrow> modesMessage" where
  "decode_CA m mm =
     (if msgtype mm \<in> {11, 17} then
        let ca = getbits m 6 8; mm = set_raw (\<lambda>r. r\<lparr>CA := ca\<rparr>) mm in
        if ca \<in> {0, 6, 7} then mm\<lparr>airground := AG_UNCERTAIN\<rparr>
        else if ca = 4 then mm\<lparr>airground := AG_GROUND\<rparr>
        else if ca = 5 then mm\<lparr>airground := AG_AIRBORNE\<rparr>
        else mm
      else mm)"

definition decode_CC_CF_DR :: "u8 list \<Rightarrow> modesMessage \<Rightarrow> modesMessage" where
  "decode_CC_CF_DR m mm =
     (let mm = if_do (msgtype mm = 0) (set_raw (\<lambda>r. r\<lparr>CC := flag (getbit m 7)\<rparr>)) mm;
          mm = if_do (msgtype mm = 18) (set_raw (\<lambda>r. r\<lparr>CF := getbits m 6 8\<rparr>)) mm
      in if_do (msgtype mm \<in> {4, 5, 20, 21}) (set_raw (\<lambda>r. r\<lparr>DR := getbits m 9 13\<rparr>)) mm)"

definition flight_status :: "u32 \<Rightarrow> modesMessage \<Rightarrow> modesMessage" where
  "flight_status fs mm =
     (if fs = 0 then mm\<lparr>airground := AG_UNCERTAIN\<rparr>
      else if fs = 1 then mm\<lparr>airground := AG_GROUND\<rparr>
      else if fs = 2 then mm\<lparr>airground := AG_UNCERTAIN, alert := True\<rparr>
      else if fs = 3 then mm\<lparr>airground := AG_GROUND, alert := True\<rparr>
      else if fs = 4 then mm\<lparr>airground := AG_UNCERTAIN, alert := True, spi := True\<rparr>
      else if fs = 5 then mm\<lparr>airground := AG_UNCERTAIN, spi := True\<rparr>
      else mm\<lparr>spi_valid := False, alert_valid := False\<rparr>)"

definition decode_FS :: "u8 list \<Rightarrow> modesMessage \<Rightarrow> modesMessage" where
  "decode_FS m mm =
     (if msgtype mm \<in> {4, 5, 20, 21} then
        let fs = getbits m 6 8 in
        flight_status fs ((set_raw (\<lambda>r. r\<lparr>FS := fs\<rparr>) mm)\<lparr>alert_valid := True, spi_valid := True\<rparr>)
      else mm)"

definition decode_ID_KE :: "u8 list \<Rightarrow> modesMessage \<Rightarrow> modesMessage" where
  "decode_ID_KE m mm =
     (let mm = if_do (msgtype mm \<in> {5, 21}) (\<lambda>mm.
            let ident = getbits m 20 32; mm = set_raw (\<lambda>r. r\<lparr>ID := ident\<rparr>) mm in
            if_do (ident \<noteq> 0) (\<lambda>mm. mm\<lparr>squawk := decodeID13Field ident, squawk_valid := True\<rparr>) mm) mm
      in if_do (msgtype mm = 24) (set_raw (\<lambda>r. r\<lparr>KE := flag (getbit m 4)\<rparr>)) mm)"

definition decode_MB_MD :: "libm \<Rightarrow> u8 list \<Rightarrow> modesMessage \<Rightarrow> modesMessage" where
  "decode_MB_MD L m mm =
     (let mm = if_do (msgtype mm \<in> {20, 21}) (\<lambda>mm.
            decodeCommB L (set_raw (\<lambda>r. r\<lparr>MB := take 7 (drop 4 m)\<rparr>) mm)) mm
      in if_do (msgtype mm = 24) (set_raw (\<lambda>r. r\<lparr>MD := take 10 (drop 1 m)\<rparr>)) mm)"

definition decode_ME :: "libm \<Rightarrow> mode_ac_tables \<Rightarrow> u8 list \<Rightarrow> modesMessage \<Rightarrow> modesMessage \<times> nat" where
  "decode_ME L t m mm =
     (if msgtype mm \<in> {17, 18} then decodeExtendedSquitter L t (set_raw (\<lambda>r. r\<lparr>ME := take 7 (drop 4 m)\<rparr>) mm)
      else (mm, 0))"

definition decode_tail :: "u8 list \<Rightarrow> modesMessage \<Rightarrow> modesMessage" where
  "decode_tail m mm =
     (let mm = if_do (msgtype mm = 16) (set_raw (\<lambda>r. r\<lparr>MV := take 7 (drop 4 m)\<rparr>)) mm;
          mm = if_do (msgtype mm = 24) (set_raw (\<lambda>r. r\<lparr>ND := getbits m 5 8\<rparr>)) mm;
          mm = if_do (msgtype mm \<in> {0, 16}) (set_raw (\<lambda>r. r\<lparr>RI := getbits m 14 17\<rparr>)) mm;
          mm = if_do (msgtype mm \<in> {0, 16}) (set_raw (\<lambda>r. r\<lparr>SL := getbits m 9 11\<rparr>)) mm;
          mm = if_do (msgtype mm \<in> {4, 5, 20, 21}) (set_raw (\<lambda>r. r\<lparr>UM := getbits m 14 19\<rparr>)) mm
      in if_do (msgtype mm \<in> {0, 16}) (\<lambda>mm.
           let vs = getbit m 6; mm = set_raw (\<lambda>r. r\<lparr>VS := flag vs\<rparr>) mm in
           mm\<lparr>airground := (if vs then AG_GROUND else AG_UNCERTAIN)\<rparr>) mm)"

definition decode_bulk :: "libm \<Rightarrow> mode_ac_tables \<Rightarrow> u8 list \<Rightarrow> modesMessage \<Rightarrow> modesMessage \<times> nat" where
  "decode_bulk L t m mm =
     (let mm = decode_MB_MD L m (decode_ID_KE m (decode_FS m (decode_CC_CF_DR m (decode_CA m
                 (decode_AC t m (decode_AA m mm))))));
          (mm, filtered) = decode_ME L t m mm
      in (decode_tail m mm, filtered))"

definition remember_address :: "modesMessage \<Rightarrow> icao_filter \<Rightarrow> icao_filter option" where
  "remember_address mm f = do {
     f \<leftarrow> (if correctedbits mm = 0 \<and> (msgtype mm = 17 \<or> msgtype mm = 11 \<and> IID (raw mm) = 0)
           then icaoFilterAdd (addr mm) f else Some f);
     if correctedbits mm = 0 \<and> msgtype mm = 18 then icaoFilterAdd (addr mm OR ICAO_FILTER_ADSB_NT) f
     else Some f }"

definition frame_fields :: "mode_s_env \<Rightarrow> corrected \<Rightarrow> modesMessage \<Rightarrow> modesMessage option" where
  "frame_fields env c mm =
     (case c of (corrections, m, ss, sl) \<Rightarrow>
        let ty = getbits m 1 5 in do {
          s \<leftarrow> (if ty AND 16 \<noteq> 0 then long_syndrome_of env m sl else short_syndrome_of env m ss);
          Some (mm\<lparr>msg := m, msgtype := uint ty, msgbits := modesMessageLenByType ty, crc := s,
                   correctedbits := (if corrections > 0 then corrections else 0), addr := 0\<rparr>) })"

text \<open>
  The return code with the message, the filter and the number of positions filtered out. The
  argument \<open>junk\<close> is the uninitialised buffer of \<open>scoreModesMessage\<close>; \<open>correctMessage\<close> writes
  to \<^verbatim>\<open>mm->msg\<close>.
\<close>

definition decodeModesMessage ::
    "mode_s_env \<Rightarrow> u8 list \<Rightarrow> icao_filter \<Rightarrow> modesMessage \<Rightarrow> u8 list \<Rightarrow> (int \<times> modesMessage \<times> icao_filter \<times> nat) option" where
  "decodeModesMessage env junk f mm inp = do {
     sc \<leftarrow> (if score mm = score_value SR_NOT_SET
           then map_option score_value (scoreModesMessage env f inp junk) else Some (score mm));
     let mm = mm\<lparr>score := sc\<rparr>;
     if sc < score_value SR_UNKNOWN_THRESHOLD then Some (-1, mm, f, 0)
     else if sc < score_value SR_ACCEPT_THRESHOLD then Some (-2, mm, f, 0)
     else do {
       let mm = mm\<lparr>verbatim := take 14 inp\<rparr>;
       c \<leftarrow> correctMessage env inp (msg mm);
       mm \<leftarrow> frame_fields env c mm;
       case crc_fields mm of
         None \<Rightarrow> Some (-2, mm, f, 0)
       | Some mm \<Rightarrow> do {
           let (mm, filtered) = decode_bulk (e_libm env) (e_ac env) (msg mm) mm;
           f \<leftarrow> remember_address mm f;
           let mm = if_do (remote mm \<and> timestampMsg mm = MAGIC_MLAT_TIMESTAMP) (\<lambda>mm. mm\<lparr>source := SOURCE_MLAT\<rparr>) mm;
           Some (0, mm, f, filtered) } } }"

end
