(* ===== verification/Fifo.thy ===== *)
theory Fifo
  imports Prelude Complex_Main "HOL-Library.Multiset"
begin

text \<open>
  The queue of sample buffers between the radio thread and the demodulator, translated from
  \<^verbatim>\<open>src/fifo.c\<close>. The buffers live in a heap and are linked through their \<^verbatim>\<open>next\<close> field; a
  dereference of \<^verbatim>\<open>NULL\<close> or of freed memory and a failed assertion are \<open>None\<close>. Every operation runs
  under the mutex, so it is one step; a wait on a condition variable lets the other threads
  change the state, which is an argument: the list of what each wait returns and what happened
  meanwhile. A list that is too short means the call has not returned yet, also \<open>None\<close>. Lengths
  are \<open>nat\<close>: the code compares them, and subtracts only behind an assertion.
\<close>

type_synonym ptr = nat

record mag_buf =
  data :: "u16 list"
  totalLength :: nat
  validLength :: nat
  overlap :: nat
  sampleTimestamp :: u64
  sysTimestamp :: u64
  flags :: u32
  mean_level :: rat
  mean_power :: rat
  dropped :: nat
  next_buf :: "ptr option"

definition MAGBUF_DISCONTINUOUS :: u32 where
  "MAGBUF_DISCONTINUOUS = 1"

datatype condition = NotEmptyCond | EmptyCond | FreeCond

datatype wake = Signal condition | Broadcast condition

text \<open>\<open>sent\<close> records the wake-ups; \<open>brk\<close> is the next address the allocator hands out.\<close>

record fifo =
  heap :: "ptr \<Rightarrow> mag_buf option"
  brk :: ptr
  fifo_head :: "ptr option"
  fifo_tail :: "ptr option"
  fifo_freelist :: "ptr option"
  fifo_halted :: bool
  overlap_length :: nat
  overlap_buffer :: "u16 list option"
  sent :: "wake list"

definition fifo_start :: fifo where
  "fifo_start = \<lparr>heap = \<lambda>_. None, brk = 0, fifo_head = None, fifo_tail = None, fifo_freelist = None,
     fifo_halted = False, overlap_length = 0, overlap_buffer = None, sent = []\<rparr>"

definition update_buf :: "ptr \<Rightarrow> (mag_buf \<Rightarrow> mag_buf) \<Rightarrow> fifo \<Rightarrow> fifo option" where
  "update_buf p g s = (case heap s p of None \<Rightarrow> None | Some b \<Rightarrow> Some (s\<lparr>heap := (heap s)(p := Some (g b))\<rparr>))"

definition wake :: "wake \<Rightarrow> fifo \<Rightarrow> fifo" where
  "wake w s = s\<lparr>sent := sent s @ [w]\<rparr>"

subsection \<open>Creation and destruction\<close>

definition new_buf :: "nat \<Rightarrow> ptr option \<Rightarrow> mag_buf" where
  "new_buf len nxt = \<lparr>data = replicate len 0, totalLength = len, validLength = 0, overlap = 0, sampleTimestamp = 0,
     sysTimestamp = 0, flags = 0, mean_level = 0, mean_power = 0, dropped = 0, next_buf = nxt\<rparr>"

definition free_overlap :: "fifo \<Rightarrow> fifo" where
  "free_overlap s = s\<lparr>overlap_buffer := None\<rparr>"

partial_function (option) free_buffer_list :: "ptr option \<Rightarrow> (ptr \<Rightarrow> mag_buf option) \<Rightarrow> (ptr \<Rightarrow> mag_buf option) option" where
  "free_buffer_list head h =
     (case head of None \<Rightarrow> Some h
      | Some p \<Rightarrow> (case h p of None \<Rightarrow> None | Some b \<Rightarrow> free_buffer_list (next_buf b) (h(p := None))))"

definition fifo_destroy :: "fifo \<Rightarrow> fifo option" where
  "fifo_destroy s = do {
     h \<leftarrow> free_buffer_list (fifo_head s) (heap s);
     h \<leftarrow> free_buffer_list (fifo_freelist s) h;
     Some (free_overlap (s\<lparr>heap := h, fifo_head := None, fifo_tail := None, fifo_freelist := None\<rparr>)) }"

text \<open>\<open>grant k\<close> is whether the \<open>k\<close>-th call of \<^verbatim>\<open>calloc\<close> succeeds; a partial allocation is given back.\<close>

definition push_new :: "nat \<Rightarrow> fifo \<Rightarrow> fifo" where
  "push_new len s = s\<lparr>heap := (heap s)(brk s := Some (new_buf len (fifo_freelist s))),
     fifo_freelist := Some (brk s), brk := brk s + 1\<rparr>"

fun create_buffers :: "(nat \<Rightarrow> bool) \<Rightarrow> nat \<Rightarrow> nat \<Rightarrow> nat \<Rightarrow> fifo \<Rightarrow> bool \<times> fifo" where
  "create_buffers grant len 0 k s = (True, s)"
| "create_buffers grant len (Suc n) k s =
     (if \<not> grant k \<or> \<not> grant (k + 1) then (False, s)
      else create_buffers grant len n (k + 2) (push_new len s))"

definition fifo_create :: "(nat \<Rightarrow> bool) \<Rightarrow> nat \<Rightarrow> nat \<Rightarrow> nat \<Rightarrow> fifo \<Rightarrow> (bool \<times> fifo) option" where
  "fifo_create grant buffer_count buffer_size ov s =
     (if \<not> grant 0 then map_option (Pair False) (fifo_destroy (s\<lparr>overlap_buffer := None\<rparr>))
      else
        let s = s\<lparr>overlap_buffer := Some (replicate ov 0), overlap_length := ov\<rparr>;
            (ok, s) = create_buffers grant buffer_size buffer_count 1 s
        in if ok then Some (True, s) else map_option (Pair False) (fifo_destroy s))"

subsection \<open>Waiting\<close>

text \<open>The error code of a wait is whether it failed or timed out.\<close>

type_synonym waits = "(bool \<times> (fifo \<Rightarrow> fifo)) list"

text \<open>
  \<^verbatim>\<open>while (P) { if (!timeout_ms) goto done; if (pthread_cond_timedwait(...)) goto done; }\<close>; the
  result says whether the loop was left by its condition.
\<close>

fun wait_while :: "(fifo \<Rightarrow> bool) \<Rightarrow> bool \<Rightarrow> waits \<Rightarrow> fifo \<Rightarrow> (bool \<times> fifo) option" where
  "wait_while P blocking [] s = (if \<not> P s then Some (True, s) else if \<not> blocking then Some (False, s) else None)"
| "wait_while P blocking ((err, others) # ws) s =
     (if \<not> P s then Some (True, s)
      else if \<not> blocking \<or> err then Some (False, if blocking then others s else s)
      else wait_while P blocking ws (others s))"

subsection \<open>The operations\<close>

text \<open>\<^verbatim>\<open>fifo_drain\<close> ignores the result of its waits.\<close>

fun fifo_drain :: "(fifo \<Rightarrow> fifo) list \<Rightarrow> fifo \<Rightarrow> fifo option" where
  "fifo_drain [] s = (if fifo_head s \<noteq> None \<and> \<not> fifo_halted s then None else Some s)"
| "fifo_drain (others # ws) s =
     (if fifo_head s \<noteq> None \<and> \<not> fifo_halted s then fifo_drain ws (others s) else Some s)"

definition push_free :: "ptr \<Rightarrow> fifo \<Rightarrow> fifo option" where
  "push_free p s = do {
     s \<leftarrow> update_buf p (\<lambda>b. b\<lparr>next_buf := fifo_freelist s\<rparr>) s;
     Some (s\<lparr>fifo_freelist := Some p\<rparr>) }"

partial_function (option) drain_to_freelist :: "fifo \<Rightarrow> fifo option" where
  "drain_to_freelist s =
     (case fifo_head s of None \<Rightarrow> Some s
      | Some p \<Rightarrow> (case heap s p of None \<Rightarrow> None
          | Some b \<Rightarrow> push_free p (s\<lparr>fifo_head := next_buf b\<rparr>) \<bind> drain_to_freelist))"

definition fifo_halt :: "fifo \<Rightarrow> fifo option" where
  "fifo_halt s = do {
     s \<leftarrow> drain_to_freelist s;
     Some (wake (Broadcast FreeCond) (wake (Broadcast EmptyCond) (wake (Broadcast NotEmptyCond)
             (s\<lparr>fifo_tail := None, fifo_halted := True\<rparr>)))) }"

definition reset_buf :: "nat \<Rightarrow> mag_buf \<Rightarrow> mag_buf" where
  "reset_buf ov b = b\<lparr>overlap := ov, validLength := ov, sampleTimestamp := 0, sysTimestamp := 0, flags := 0, next_buf := None\<rparr>"

definition fifo_acquire :: "bool \<Rightarrow> waits \<Rightarrow> fifo \<Rightarrow> (ptr option \<times> fifo) option" where
  "fifo_acquire blocking ws s = do {
     (go, s) \<leftarrow> wait_while (\<lambda>s. \<not> fifo_halted s \<and> fifo_freelist s = None) blocking ws s;
     if go \<and> \<not> fifo_halted s then do {
       p \<leftarrow> fifo_freelist s;
       b \<leftarrow> heap s p;
       s \<leftarrow> update_buf p (reset_buf (overlap_length s)) (s\<lparr>fifo_freelist := next_buf b\<rparr>);
       Some (Some p, s) }
     else Some (None, s) }"

definition fill_overlap :: "nat \<Rightarrow> u16 list \<Rightarrow> mag_buf \<Rightarrow> mag_buf" where
  "fill_overlap ov saved b =
     b\<lparr>data := (if flags b AND MAGBUF_DISCONTINUOUS \<noteq> 0 then replicate ov 0 else take ov saved) @ drop ov (data b)\<rparr>"

definition saved_tail :: "nat \<Rightarrow> mag_buf \<Rightarrow> u16 list" where
  "saved_tail ov b = take ov (drop (validLength b - ov) (data b))"

definition fifo_enqueue :: "ptr \<Rightarrow> fifo \<Rightarrow> fifo option" where
  "fifo_enqueue p s = do {
     b \<leftarrow> heap s p;
     c_assert (validLength b \<le> totalLength b);
     c_assert (validLength b \<ge> overlap_length s);
     c_assert (validLength b \<le> length (data b));
     if fifo_halted s then push_free p s
     else do {
       saved \<leftarrow> overlap_buffer s;
       c_assert (overlap_length s \<le> length saved);
       let b = fill_overlap (overlap_length s) saved b;
       s \<leftarrow> update_buf p (\<lambda>_. b\<lparr>next_buf := None\<rparr>) (s\<lparr>overlap_buffer := Some (saved_tail (overlap_length s) b)\<rparr>);
       if fifo_head s = None
       then Some (wake (Signal NotEmptyCond) (s\<lparr>fifo_head := Some p, fifo_tail := Some p\<rparr>))
       else do {
         t \<leftarrow> fifo_tail s;
         s \<leftarrow> update_buf t (\<lambda>b. b\<lparr>next_buf := Some p\<rparr>) s;
         Some (s\<lparr>fifo_tail := Some p\<rparr>) } } }"

definition fifo_dequeue :: "bool \<Rightarrow> waits \<Rightarrow> fifo \<Rightarrow> (ptr option \<times> fifo) option" where
  "fifo_dequeue blocking ws s = do {
     (go, s) \<leftarrow> wait_while (\<lambda>s. fifo_head s = None \<and> \<not> fifo_halted s) blocking ws s;
     if go \<and> \<not> fifo_halted s then do {
       p \<leftarrow> fifo_head s;
       b \<leftarrow> heap s p;
       s \<leftarrow> update_buf p (\<lambda>b. b\<lparr>next_buf := None\<rparr>) (s\<lparr>fifo_head := next_buf b\<rparr>);
       Some (Some p, if fifo_head s = None then wake (Broadcast EmptyCond) (s\<lparr>fifo_tail := None\<rparr>) else s) }
     else Some (None, s) }"

definition fifo_release :: "ptr \<Rightarrow> fifo \<Rightarrow> fifo option" where
  "fifo_release p s = push_free p (if fifo_freelist s = None then wake (Signal FreeCond) s else s)"

subsection \<open>Linked lists in the heap\<close>

fun chain :: "(ptr \<Rightarrow> mag_buf option) \<Rightarrow> ptr option \<Rightarrow> ptr list \<Rightarrow> bool" where
  "chain h p [] \<longleftrightarrow> p = None"
| "chain h p (a # as) \<longleftrightarrow> p = Some a \<and> (\<exists>b. h a = Some b \<and> chain h (next_buf b) as)"

lemma chain_unique: "chain h p as \<Longrightarrow> chain h p bs \<Longrightarrow> as = bs"
proof (induction as arbitrary: p bs)
  case Nil
  then show ?case by (cases bs) auto
next
  case (Cons a as)
  then show ?case by (cases bs) auto
qed

lemma chain_None [simp]: "chain h None as \<longleftrightarrow> as = []"
  by (cases as) auto

lemma chain_Some: "chain h (Some p) as \<Longrightarrow> \<exists>bs b. as = p # bs \<and> h p = Some b \<and> chain h (next_buf b) bs"
  by (cases as) auto

lemma chain_frame [simp]: "a \<notin> set as \<Longrightarrow> chain (h(a := x)) p as = chain h p as"
  by (induction as arbitrary: p) auto

lemma chain_allocated: "chain h p as \<Longrightarrow> a \<in> set as \<Longrightarrow> \<exists>b. h a = Some b"
  by (induction as arbitrary: p) auto

lemma chain_append:
  assumes "chain h p as" "as \<noteq> []" "distinct as" "a \<notin> set as" "h (last as) = Some b" "h a = Some c" "next_buf c = None"
  shows "chain (h(last as := Some (b\<lparr>next_buf := Some a\<rparr>))) p (as @ [a])"
  using assms
proof (induction as arbitrary: p)
  case (Cons x xs)
  then show ?case by (cases "xs = []") auto
qed simp

text \<open>
  A state represents the queue \<open>q\<close> and the free list \<open>f\<close>.
\<close>

definition buffers_ok :: "fifo \<Rightarrow> bool" where
  "buffers_ok s \<longleftrightarrow> (\<forall>p b. heap s p = Some b \<longrightarrow> length (data b) = totalLength b \<and> overlap_length s \<le> totalLength b) \<and>
     (\<exists>saved. overlap_buffer s = Some saved \<and> length saved = overlap_length s)"

definition represents :: "fifo \<Rightarrow> ptr list \<Rightarrow> ptr list \<Rightarrow> bool" where
  "represents s q f \<longleftrightarrow> chain (heap s) (fifo_head s) q \<and> chain (heap s) (fifo_freelist s) f \<and> distinct (q @ f) \<and>
     fifo_tail s = (if q = [] then None else Some (last q)) \<and> buffers_ok s"

lemma representsD:
  assumes "represents s q f"
  shows "chain (heap s) (fifo_head s) q" "chain (heap s) (fifo_freelist s) f" "distinct (q @ f)"
    "fifo_tail s = (if q = [] then None else Some (last q))" "buffers_ok s"
  using assms by (simp_all add: represents_def)

lemma represents_allocated: "represents s q f \<Longrightarrow> p \<in> set q \<union> set f \<Longrightarrow> \<exists>b. heap s p = Some b"
  using chain_allocated by (auto simp: represents_def)

lemma buffers_ok_heap:
  "buffers_ok s \<Longrightarrow> length (data b) = totalLength b \<and> overlap_length s \<le> totalLength b \<Longrightarrow>
     buffers_ok (s\<lparr>heap := (heap s)(p := Some b)\<rparr>)"
  by (simp add: buffers_ok_def)

lemma buffers_ok_at: "buffers_ok s \<Longrightarrow> heap s p = Some b \<Longrightarrow> length (data b) = totalLength b \<and> overlap_length s \<le> totalLength b"
  by (simp add: buffers_ok_def)

lemma buffers_ok_cong:
  "heap s' = heap s \<Longrightarrow> overlap_length s' = overlap_length s \<Longrightarrow> overlap_buffer s' = overlap_buffer s \<Longrightarrow> buffers_ok s' = buffers_ok s"
  by (simp add: buffers_ok_def)

text \<open>What the list operations leave alone: the samples and everything else in a buffer but its link.\<close>

definition unlinked :: "(ptr \<Rightarrow> mag_buf option) \<Rightarrow> ptr \<Rightarrow> mag_buf option" where
  "unlinked h p = map_option (\<lambda>b. b\<lparr>next_buf := None\<rparr>) (h p)"

lemma unlinked_update [simp]:
  "h p = Some b \<Longrightarrow> unlinked (h(p := Some (b\<lparr>next_buf := x\<rparr>))) = unlinked h"
  by (auto simp: unlinked_def fun_eq_iff)

lemma push_free_represents:
  assumes "represents s q f" "p \<notin> set q \<union> set f" "heap s p = Some b"
  shows "\<exists>s'. push_free p s = Some s' \<and> represents s' q (p # f) \<and> fifo_halted s' = fifo_halted s \<and> sent s' = sent s \<and>
    unlinked (heap s') = unlinked (heap s) \<and> overlap_buffer s' = overlap_buffer s \<and> overlap_length s' = overlap_length s"
proof -
  let ?h = "(heap s)(p := Some (b\<lparr>next_buf := fifo_freelist s\<rparr>))"
  have "push_free p s = Some (s\<lparr>heap := ?h, fifo_freelist := Some p\<rparr>)"
    using assms(3) by (simp add: push_free_def update_buf_def)
  moreover have "represents (s\<lparr>heap := ?h, fifo_freelist := Some p\<rparr>) q (p # f)"
    using representsD [OF assms(1)] assms(2,3) buffers_ok_at [of s p b]
    by (auto simp: represents_def buffers_ok_def)
  ultimately show ?thesis using assms(3) by simp
qed

text \<open>What every operation but enqueueing keeps.\<close>

definition same_content :: "fifo \<Rightarrow> fifo \<Rightarrow> bool" where
  "same_content s s' \<longleftrightarrow> unlinked (heap s') = unlinked (heap s) \<and> overlap_buffer s' = overlap_buffer s \<and>
     overlap_length s' = overlap_length s"

lemma drain_to_freelist_represents:
  assumes "chain (heap s) (fifo_head s) q" "chain (heap s) (fifo_freelist s) f" "distinct (q @ f)" "buffers_ok s"
  shows "\<exists>s'. drain_to_freelist s = Some s' \<and> fifo_head s' = None \<and> chain (heap s') (fifo_freelist s') (rev q @ f) \<and>
    buffers_ok s' \<and> sent s' = sent s \<and> same_content s s'"
  using assms
proof (induction q arbitrary: s f)
  case Nil
  then show ?case by (subst drain_to_freelist.simps) (simp add: same_content_def)
next
  case (Cons p q)
  then obtain b where b: "heap s p = Some b" "chain (heap s) (next_buf b) q" "fifo_head s = Some p" by auto
  define s1 where "s1 = s\<lparr>fifo_head := next_buf b, heap := (heap s)(p := Some (b\<lparr>next_buf := fifo_freelist s\<rparr>)),
    fifo_freelist := Some p\<rparr>"
  have step: "drain_to_freelist s = drain_to_freelist s1"
    using b by (subst drain_to_freelist.simps) (simp add: push_free_def update_buf_def s1_def)
  have "\<exists>s'. drain_to_freelist s1 = Some s' \<and> fifo_head s' = None \<and> chain (heap s') (fifo_freelist s') (rev q @ p # f) \<and>
    buffers_ok s' \<and> sent s' = sent s1 \<and> same_content s1 s'"
  proof (rule Cons.IH)
    show "chain (heap s1) (fifo_head s1) q" "chain (heap s1) (fifo_freelist s1) (p # f)"
      using Cons.prems b by (simp_all add: s1_def)
    show "distinct (q @ p # f)" using Cons.prems(3) by auto
    show "buffers_ok s1" using Cons.prems(4) buffers_ok_at [OF Cons.prems(4) b(1)] by (simp add: s1_def buffers_ok_def)
  qed
  then show ?case
    unfolding step using b by (auto simp: s1_def same_content_def)
qed

lemma fifo_halt_represents:
  assumes "represents s q f"
  shows "\<exists>s'. fifo_halt s = Some s' \<and> represents s' [] (rev q @ f) \<and> fifo_halted s' \<and> same_content s s' \<and>
    sent s' = sent s @ [Broadcast NotEmptyCond, Broadcast EmptyCond, Broadcast FreeCond]"
proof -
  obtain s1 where s1: "drain_to_freelist s = Some s1" "fifo_head s1 = None" "chain (heap s1) (fifo_freelist s1) (rev q @ f)"
    "buffers_ok s1" "sent s1 = sent s" "same_content s s1"
    using drain_to_freelist_represents [of s q f] representsD [OF assms] by blast
  then show ?thesis
    using representsD(3) [OF assms] by (auto simp: fifo_halt_def represents_def wake_def same_content_def buffers_ok_def)
qed

lemma fifo_release_represents:
  assumes "represents s q f" "p \<notin> set q \<union> set f" "heap s p = Some b"
  shows "\<exists>s'. fifo_release p s = Some s' \<and> represents s' q (p # f) \<and> fifo_halted s' = fifo_halted s \<and> same_content s s' \<and>
    sent s' = sent s @ (if f = [] then [Signal FreeCond] else [])"
proof -
  let ?s = "if fifo_freelist s = None then wake (Signal FreeCond) s else s"
  have f: "fifo_freelist s = None \<longleftrightarrow> f = []" using representsD(2) [OF assms(1)] by (cases f) auto
  have "represents ?s q f" "heap ?s p = Some b"
    using assms f by (simp_all add: represents_def wake_def buffers_ok_def)
  from push_free_represents [OF this(1) assms(2) this(2)] show ?thesis
    by (auto simp: fifo_release_def same_content_def wake_def f split: if_splits)
qed

text \<open>Without waiting, an acquisition pops the free list, a dequeue the queue.\<close>

lemma fifo_acquire_now:
  assumes "represents s q f" "\<not> fifo_halted s" "f = p # f'" "heap s p = Some b"
  shows "\<exists>s'. fifo_acquire blocking ws s = Some (Some p, s') \<and> represents s' q f' \<and> \<not> fifo_halted s' \<and> sent s' = sent s \<and>
    heap s' = (heap s)(p := Some (reset_buf (overlap_length s) b)) \<and> overlap_buffer s' = overlap_buffer s \<and>
    overlap_length s' = overlap_length s"
proof -
  have free: "fifo_freelist s = Some p" "chain (heap s) (next_buf b) f'"
    using representsD(2) [OF assms(1)] assms(3,4) by auto
  then have w: "wait_while (\<lambda>s. \<not> fifo_halted s \<and> fifo_freelist s = None) blocking ws s = Some (True, s)"
    by (cases ws) auto
  show ?thesis
    using representsD [OF assms(1)] assms(2-4) free buffers_ok_at [of s p b]
    by (auto simp: fifo_acquire_def w update_buf_def represents_def buffers_ok_def reset_buf_def)
qed

lemma fifo_dequeue_now:
  assumes "represents s q f" "\<not> fifo_halted s" "q = p # q'" "heap s p = Some b"
  shows "\<exists>s'. fifo_dequeue blocking ws s = Some (Some p, s') \<and> represents s' q' f \<and> \<not> fifo_halted s' \<and> same_content s s' \<and>
    sent s' = sent s @ (if q' = [] then [Broadcast EmptyCond] else [])"
proof -
  have head: "fifo_head s = Some p" "chain (heap s) (next_buf b) q'"
    using representsD(1) [OF assms(1)] assms(3,4) by auto
  then have w: "wait_while (\<lambda>s. fifo_head s = None \<and> \<not> fifo_halted s) blocking ws s = Some (True, s)"
    by (cases ws) auto
  have "next_buf b = None \<longleftrightarrow> q' = []" using head(2) by (cases q') auto
  then show ?thesis
    using representsD [OF assms(1)] assms(2-4) head buffers_ok_at [of s p b]
    by (auto simp: fifo_dequeue_def w update_buf_def represents_def buffers_ok_def wake_def same_content_def)
qed

text \<open>A buffer that may be enqueued, as its owner has to leave it.\<close>

definition filled :: "ptr \<Rightarrow> fifo \<Rightarrow> bool" where
  "filled p s \<longleftrightarrow> (\<exists>b. heap s p = Some b \<and> overlap_length s \<le> validLength b \<and> validLength b \<le> totalLength b)"

lemma fill_overlap_simps [simp]:
  assumes "length saved = ov" "ov \<le> length (data b)"
  shows "length (data (fill_overlap ov saved b)) = length (data b)"
    "totalLength (fill_overlap ov saved b) = totalLength b" "validLength (fill_overlap ov saved b) = validLength b"
  using assms by (simp_all add: fill_overlap_def)

lemma fifo_enqueue_halted:
  assumes "represents s q f" "p \<notin> set q \<union> set f" "filled p s" "fifo_halted s"
  shows "\<exists>s'. fifo_enqueue p s = Some s' \<and> represents s' q (p # f) \<and> fifo_halted s' \<and> same_content s s' \<and> sent s' = sent s"
proof -
  obtain b where b: "heap s p = Some b" "overlap_length s \<le> validLength b" "validLength b \<le> totalLength b"
    using assms(3) by (auto simp: filled_def)
  have "validLength b \<le> length (data b)" using buffers_ok_at [OF representsD(5) [OF assms(1)] b(1)] b(3) by simp
  then have "fifo_enqueue p s = push_free p s"
    using b assms(4) by (simp add: fifo_enqueue_def c_simps)
  then show ?thesis using push_free_represents [OF assms(1,2) b(1)] assms(4) by (auto simp: same_content_def)
qed

lemma fifo_enqueue_running:
  assumes "represents s q f" "p \<notin> set q \<union> set f" "heap s p = Some b" "overlap_length s \<le> validLength b"
    "validLength b \<le> totalLength b" "\<not> fifo_halted s" "overlap_buffer s = Some saved"
  defines "b' \<equiv> fill_overlap (overlap_length s) saved b"
  shows "\<exists>s'. fifo_enqueue p s = Some s' \<and> represents s' (q @ [p]) f \<and> \<not> fifo_halted s' \<and>
    unlinked (heap s') = (unlinked (heap s))(p := Some (b'\<lparr>next_buf := None\<rparr>)) \<and>
    overlap_buffer s' = Some (saved_tail (overlap_length s) b') \<and> overlap_length s' = overlap_length s \<and>
    sent s' = sent s @ (if q = [] then [Signal NotEmptyCond] else [])"
proof -
  note R = representsD [OF assms(1)]
  have ob: "length saved = overlap_length s" using R(5) assms(7) by (simp add: buffers_ok_def)
  have len: "length (data b) = totalLength b" "overlap_length s \<le> totalLength b"
    using buffers_ok_at [OF R(5) assms(3)] by simp_all
  have len': "length (data b') = length (data b)" "totalLength b' = totalLength b" "validLength b' = validLength b"
    using ob len by (simp_all add: b'_def)
  have tail: "length (saved_tail (overlap_length s) b') = overlap_length s"
    using len len' assms(4,5) by (simp add: saved_tail_def)
  let ?h = "(heap s)(p := Some (b'\<lparr>next_buf := None\<rparr>))"
  let ?s = "s\<lparr>overlap_buffer := Some (saved_tail (overlap_length s) b'), heap := ?h\<rparr>"
  have run: "fifo_enqueue p s =
      (if fifo_head s = None then Some (wake (Signal NotEmptyCond) (?s\<lparr>fifo_head := Some p, fifo_tail := Some p\<rparr>))
       else do { t \<leftarrow> fifo_tail s; s \<leftarrow> update_buf t (\<lambda>b. b\<lparr>next_buf := Some p\<rparr>) ?s; Some (s\<lparr>fifo_tail := Some p\<rparr>) })"
    using assms(3-7) ob len by (simp add: fifo_enqueue_def c_simps update_buf_def Let_def b'_def)
  have ch: "chain ?h (fifo_head s) q" "chain ?h (fifo_freelist s) f" "?h p = Some (b'\<lparr>next_buf := None\<rparr>)"
    using R(1,2) assms(2) by simp_all
  have un: "unlinked ?h = (unlinked (heap s))(p := Some (b'\<lparr>next_buf := None\<rparr>))"
    by (simp add: unlinked_def fun_eq_iff)
  show ?thesis
  proof (cases "q = []")
    case True
    then have "fifo_head s = None" using R(1) by simp
    then show ?thesis
      unfolding run using True R ch(2) assms(2,6) un len len' tail
      by (auto simp: represents_def wake_def buffers_ok_def)
  next
    case False
    then obtain c where c: "?h (last q) = Some c" using chain_allocated [OF ch(1), of "last q"] by auto
    have hd: "fifo_head s \<noteq> None" "fifo_tail s = Some (last q)" using R(1,4) False by (cases q; auto)+
    let ?h2 = "?h(last q := Some (c\<lparr>next_buf := Some p\<rparr>))"
    have "chain ?h2 (fifo_head s) (q @ [p])"
      by (rule chain_append [OF ch(1) False _ _ c ch(3)]) (use R(3) assms(2) in auto)
    moreover have "chain ?h2 (fifo_freelist s) f"
    proof (subst chain_frame)
      show "last q \<notin> set f" using R(3) last_in_set [OF False] by (auto simp: disjoint_iff)
    qed (rule ch(2))
    moreover have "length (data c) = totalLength c \<and> overlap_length s \<le> totalLength c"
      using c buffers_ok_at [OF R(5)] len len' by (auto split: if_splits)
    ultimately show ?thesis
      unfolding run using hd False R assms(2,6) un len len' tail c
      by (auto simp: represents_def buffers_ok_def update_buf_def)
  qed
qed

subsection \<open>The abstract queue\<close>

text \<open>The queue, the free list and whether the queue is halted; every operation without waiting.\<close>

type_synonym pool = "ptr list \<times> ptr list \<times> bool"

datatype fifo_call = Acquire | Enqueue ptr | Dequeue | Release ptr | Halt

fun pool_op :: "fifo_call \<Rightarrow> pool \<Rightarrow> ptr option \<times> pool" where
  "pool_op Acquire (q, f, h) = (if h \<or> f = [] then (None, (q, f, h)) else (Some (hd f), (q, tl f, h)))"
| "pool_op (Enqueue p) (q, f, h) = (None, if h then (q, p # f, h) else (q @ [p], f, h))"
| "pool_op Dequeue (q, f, h) = (if h \<or> q = [] then (None, (q, f, h)) else (Some (hd q), (tl q, f, h)))"
| "pool_op (Release p) (q, f, h) = (None, (q, p # f, h))"
| "pool_op Halt (q, f, h) = (None, ([], rev q @ f, True))"

text \<open>The wake-ups an operation sends.\<close>

fun pool_wakes :: "fifo_call \<Rightarrow> pool \<Rightarrow> wake list" where
  "pool_wakes (Enqueue p) (q, f, h) = (if \<not> h \<and> q = [] then [Signal NotEmptyCond] else [])"
| "pool_wakes Dequeue (q, f, h) = (if \<not> h \<and> q \<noteq> [] \<and> tl q = [] then [Broadcast EmptyCond] else [])"
| "pool_wakes (Release p) (q, f, h) = (if f = [] then [Signal FreeCond] else [])"
| "pool_wakes Halt (q, f, h) = [Broadcast NotEmptyCond, Broadcast EmptyCond, Broadcast FreeCond]"
| "pool_wakes Acquire (q, f, h) = []"

fun fifo_op :: "fifo_call \<Rightarrow> fifo \<Rightarrow> (ptr option \<times> fifo) option" where
  "fifo_op Acquire s = fifo_acquire False [] s"
| "fifo_op (Enqueue p) s = map_option (Pair None) (fifo_enqueue p s)"
| "fifo_op Dequeue s = fifo_dequeue False [] s"
| "fifo_op (Release p) s = map_option (Pair None) (fifo_release p s)"
| "fifo_op Halt s = map_option (Pair None) (fifo_halt s)"

fun legal :: "fifo_call \<Rightarrow> ptr list \<Rightarrow> fifo \<Rightarrow> bool" where
  "legal (Enqueue p) owned s \<longleftrightarrow> p \<notin> set owned \<and> filled p s"
| "legal (Release p) owned s \<longleftrightarrow> p \<notin> set owned \<and> heap s p \<noteq> None"
| "legal _ owned s \<longleftrightarrow> True"

lemma acquire_none:
  assumes "represents s q f" "fifo_halted s \<or> f = []"
  shows "fifo_acquire False [] s = Some (None, s)"
  using assms representsD(2) [OF assms(1)] by (auto simp: fifo_acquire_def)

lemma dequeue_none:
  assumes "represents s q f" "fifo_halted s \<or> q = []"
  shows "fifo_dequeue False [] s = Some (None, s)"
  using assms representsD(1) [OF assms(1)] by (auto simp: fifo_dequeue_def)

lemma fifo_op_refines:
  assumes "represents s q f" "legal x (q @ f) s"
  shows "\<exists>r s' q' f'. fifo_op x s = Some (r, s') \<and> represents s' q' f' \<and>
    pool_op x (q, f, fifo_halted s) = (r, (q', f', fifo_halted s')) \<and>
    sent s' = sent s @ pool_wakes x (q, f, fifo_halted s)"
proof (cases x)
  case Acquire
  then show ?thesis
  proof (cases "fifo_halted s \<or> f = []")
    case True
    then show ?thesis using acquire_none [OF assms(1) True] assms(1) Acquire by auto
  next
    case False
    then obtain p f' where f: "f = p # f'" by (cases f) auto
    then obtain b where "heap s p = Some b" using represents_allocated [OF assms(1), of p] by auto
    from fifo_acquire_now [OF assms(1) _ f this, of False "[]"] show ?thesis using False Acquire f by auto
  qed
next
  case Dequeue
  then show ?thesis
  proof (cases "fifo_halted s \<or> q = []")
    case True
    then show ?thesis using dequeue_none [OF assms(1) True] assms(1) Dequeue by auto
  next
    case False
    then obtain p q' where q: "q = p # q'" by (cases q) auto
    then obtain b where "heap s p = Some b" using represents_allocated [OF assms(1), of p] by auto
    from fifo_dequeue_now [OF assms(1) _ q this, of False "[]"] show ?thesis using False Dequeue q by auto
  qed
next
  case (Enqueue p)
  then have p: "p \<notin> set q \<union> set f" "filled p s" using assms(2) by auto
  then obtain b saved where b: "heap s p = Some b" "overlap_length s \<le> validLength b" "validLength b \<le> totalLength b"
    "overlap_buffer s = Some saved"
    using representsD(5) [OF assms(1)] by (auto simp: filled_def buffers_ok_def)
  show ?thesis
  proof (cases "fifo_halted s")
    case True
    then show ?thesis using fifo_enqueue_halted [OF assms(1) p True] Enqueue by auto
  next
    case False
    then show ?thesis using fifo_enqueue_running [OF assms(1) p(1) b(1-3) False b(4)] Enqueue by auto
  qed
next
  case (Release p)
  then obtain b where "p \<notin> set q \<union> set f" "heap s p = Some b" using assms(2) by auto
  from fifo_release_represents [OF assms(1) this] show ?thesis using Release by auto
next
  case Halt
  then show ?thesis using fifo_halt_represents [OF assms(1)] by auto
qed

subsection \<open>First in, first out\<close>

text \<open>The contract of a queue whose operations may fault, and what follows for runs of it.\<close>

fun enq_all :: "('a \<Rightarrow> 's \<Rightarrow> 's option) \<Rightarrow> 'a list \<Rightarrow> 's \<Rightarrow> 's option" where
  "enq_all enq [] s = Some s"
| "enq_all enq (a # as) s = enq a s \<bind> enq_all enq as"

fun deq_n :: "('s \<Rightarrow> ('a option \<times> 's) option) \<Rightarrow> nat \<Rightarrow> 's \<Rightarrow> ('a option list \<times> 's) option" where
  "deq_n deq 0 s = Some ([], s)"
| "deq_n deq (Suc n) s = do { (r, s) \<leftarrow> deq s; (rs, s) \<leftarrow> deq_n deq n s; Some (r # rs, s) }"

locale fallible_queue =
  fixes inv :: "'s \<Rightarrow> bool"
    and items :: "'s \<Rightarrow> 'a list"
    and fit :: "'a \<Rightarrow> 's \<Rightarrow> bool"
    and enq :: "'a \<Rightarrow> 's \<Rightarrow> 's option"
    and deq :: "'s \<Rightarrow> ('a option \<times> 's) option"
  assumes enq_ok: "inv s \<Longrightarrow> fit a s \<Longrightarrow> \<exists>s'. enq a s = Some s' \<and> inv s' \<and> items s' = items s @ [a]"
    and enq_fit: "inv s \<Longrightarrow> fit a s \<Longrightarrow> enq a s = Some s' \<Longrightarrow> fit b s \<Longrightarrow> b \<noteq> a \<Longrightarrow> fit b s'"
    and deq_ok: "inv s \<Longrightarrow> \<exists>s'. deq s = Some (if items s = [] then None else Some (hd (items s)), s') \<and>
      inv s' \<and> items s' = tl (items s)"
begin

lemma enq_all_items:
  "inv s \<Longrightarrow> distinct as \<Longrightarrow> \<forall>a \<in> set as. fit a s \<Longrightarrow>
     \<exists>s'. enq_all enq as s = Some s' \<and> inv s' \<and> items s' = items s @ as"
proof (induction as arbitrary: s)
  case (Cons a as)
  then obtain s1 where s1: "enq a s = Some s1" "inv s1" "items s1 = items s @ [a]" using enq_ok [of s a] by auto
  moreover have "\<forall>b \<in> set as. fit b s1" using Cons.prems enq_fit [OF _ _ s1(1)] by auto
  ultimately show ?case using Cons.IH [of s1] Cons.prems by auto
qed simp

lemma deq_n_items:
  "inv s \<Longrightarrow> n \<le> length (items s) \<Longrightarrow>
     \<exists>s'. deq_n deq n s = Some (map Some (take n (items s)), s') \<and> inv s' \<and> items s' = drop n (items s)"
proof (induction n arbitrary: s)
  case (Suc n)
  then obtain a as where items: "items s = a # as" by (cases "items s") auto
  with deq_ok [OF Suc.prems(1)] obtain s1 where "deq s = Some (Some a, s1)" "inv s1" "items s1 = as" by auto
  then show ?case using Suc.IH [of s1] Suc.prems(2) items by auto
qed simp

lemma first_in_first_out:
  assumes "inv s" "items s = []" "distinct as" "\<forall>a \<in> set as. fit a s"
  shows "\<exists>s1 s2. enq_all enq as s = Some s1 \<and> deq_n deq (length as) s1 = Some (map Some as, s2) \<and> items s2 = []"
proof -
  obtain s1 where "enq_all enq as s = Some s1" "inv s1" "items s1 = as"
    using enq_all_items [OF assms(1,3,4)] assms(2) by auto
  then show ?thesis using deq_n_items [of s1 "length as"] by auto
qed

end

text \<open>The buffers in the queue and in the free list of a state.\<close>

definition queued :: "fifo \<Rightarrow> ptr list" where
  "queued s = (THE q. chain (heap s) (fifo_head s) q)"

definition free_bufs :: "fifo \<Rightarrow> ptr list" where
  "free_bufs s = (THE f. chain (heap s) (fifo_freelist s) f)"

definition fifo_inv :: "fifo \<Rightarrow> bool" where
  "fifo_inv s \<longleftrightarrow> (\<exists>q f. represents s q f)"

lemma represents_lists:
  assumes "represents s q f"
  shows "queued s = q" "free_bufs s = f" "fifo_inv s"
  using representsD(1,2) [OF assms] assms chain_unique
  by (auto simp: queued_def free_bufs_def fifo_inv_def intro!: the_equality)

lemma fifo_inv_represents: "fifo_inv s \<Longrightarrow> represents s (queued s) (free_bufs s)"
  using represents_lists by (auto simp: fifo_inv_def)

definition enqueueable :: "ptr \<Rightarrow> fifo \<Rightarrow> bool" where
  "enqueueable p s \<longleftrightarrow> p \<notin> set (queued s) \<union> set (free_bufs s) \<and> filled p s"

lemma unlinked_at:
  "unlinked (heap s') p = unlinked (heap s) p \<Longrightarrow> heap s p = Some b \<Longrightarrow>
     \<exists>b'. heap s' p = Some b' \<and> validLength b' = validLength b \<and> totalLength b' = totalLength b \<and> data b' = data b"
  by (cases "heap s' p") (auto simp: unlinked_def dest: arg_cong [of _ _ validLength] arg_cong [of _ _ totalLength] arg_cong [of _ _ data])

lemma filled_unlinked:
  "unlinked (heap s') p = unlinked (heap s) p \<Longrightarrow> overlap_length s' = overlap_length s \<Longrightarrow> filled p s \<Longrightarrow> filled p s'"
  using unlinked_at [of s' p s] by (fastforce simp: filled_def)

lemma enqueue_running:
  assumes "fifo_inv s" "\<not> fifo_halted s" "enqueueable p s"
  shows "\<exists>s'. fifo_enqueue p s = Some s' \<and> represents s' (queued s @ [p]) (free_bufs s) \<and> \<not> fifo_halted s' \<and>
    (\<forall>x. x \<noteq> p \<longrightarrow> unlinked (heap s') x = unlinked (heap s) x) \<and> overlap_length s' = overlap_length s"
proof -
  note rep = fifo_inv_represents [OF assms(1)]
  obtain b saved where b: "heap s p = Some b" "overlap_length s \<le> validLength b" "validLength b \<le> totalLength b"
    "overlap_buffer s = Some saved"
    using assms(3) representsD(5) [OF rep] by (auto simp: enqueueable_def filled_def buffers_ok_def)
  have "p \<notin> set (queued s) \<union> set (free_bufs s)" using assms(3) by (simp add: enqueueable_def)
  from fifo_enqueue_running [OF rep this b(1-3) assms(2) b(4)] show ?thesis by auto
qed

interpretation lq: fallible_queue "\<lambda>s. fifo_inv s \<and> \<not> fifo_halted s" queued enqueueable fifo_enqueue "fifo_dequeue False []"
proof unfold_locales
  fix s p
  assume s: "fifo_inv s \<and> \<not> fifo_halted s" and p: "enqueueable p s"
  then obtain s' where s': "fifo_enqueue p s = Some s'" "represents s' (queued s @ [p]) (free_bufs s)" "\<not> fifo_halted s'"
      "\<And>x. x \<noteq> p \<Longrightarrow> unlinked (heap s') x = unlinked (heap s) x" "overlap_length s' = overlap_length s"
    using enqueue_running [of s p] by blast
  show "\<exists>s'. fifo_enqueue p s = Some s' \<and> (fifo_inv s' \<and> \<not> fifo_halted s') \<and> queued s' = queued s @ [p]"
    using s' represents_lists [OF s'(2)] by auto
  fix s2 x
  assume "fifo_enqueue p s = Some s2" "enqueueable x s" "x \<noteq> p"
  then show "enqueueable x s2"
    using s' represents_lists [OF s'(2)] filled_unlinked [of s2 x s] by (auto simp: enqueueable_def)
next
  fix s
  assume s: "fifo_inv s \<and> \<not> fifo_halted s"
  then have rep: "represents s (queued s) (free_bufs s)" using fifo_inv_represents by blast
  show "\<exists>s'. fifo_dequeue False [] s = Some (if queued s = [] then None else Some (hd (queued s)), s') \<and>
    (fifo_inv s' \<and> \<not> fifo_halted s') \<and> queued s' = tl (queued s)"
  proof (cases "queued s")
    case Nil
    then show ?thesis using dequeue_none [OF rep] s by auto
  next
    case (Cons p q)
    then obtain b where "heap s p = Some b" using represents_allocated [OF rep, of p] by auto
    from fifo_dequeue_now [OF rep _ Cons this, of False "[]"] obtain s' where
      s': "fifo_dequeue False [] s = Some (Some p, s')" "represents s' q (free_bufs s)" "\<not> fifo_halted s'" using s by blast
    then show ?thesis using represents_lists [OF s'(2)] Cons by auto
  qed
qed

subsection \<open>Creating and destroying\<close>

lemma free_buffer_list_chain:
  "chain h p as \<Longrightarrow> distinct as \<Longrightarrow> free_buffer_list p h = Some (h |` (- set as))"
proof (induction as arbitrary: p h)
  case Nil
  then show ?case by (subst free_buffer_list.simps) (simp add: restrict_map_def)
next
  case (Cons a as)
  then obtain b where b: "h a = Some b" "chain h (next_buf b) as" "p = Some a" "a \<notin> set as" by auto
  then have c: "chain (h(a := None)) (next_buf b) as" by simp
  have "free_buffer_list p h = free_buffer_list (next_buf b) (h(a := None))" using b
    by (subst free_buffer_list.simps) simp
  also have "\<dots> = Some ((h(a := None)) |` (- set as))"
    by (rule Cons.IH [OF c]) (use Cons.prems(2) in simp)
  also have "(h(a := None)) |` (- set as) = h |` (- set (a # as))"
    by (auto simp: restrict_map_def fun_eq_iff)
  finally show ?case .
qed

lemma chain_restrict: "chain h p as \<Longrightarrow> set as \<inter> X = {} \<Longrightarrow> chain (h |` (- X)) p as"
  by (induction as arbitrary: p) auto

lemma fifo_destroy_chains:
  assumes "chain (heap s) (fifo_head s) q" "chain (heap s) (fifo_freelist s) f" "distinct (q @ f)"
  shows "fifo_destroy s = Some (free_overlap (s\<lparr>heap := heap s |` (- set (q @ f)), fifo_head := None, fifo_tail := None,
    fifo_freelist := None\<rparr>))"
proof -
  have "free_buffer_list (fifo_head s) (heap s) = Some (heap s |` (- set q))"
    by (rule free_buffer_list_chain) (use assms in auto)
  moreover have "free_buffer_list (fifo_freelist s) (heap s |` (- set q)) = Some (heap s |` (- set q) |` (- set f))"
    by (rule free_buffer_list_chain) (use assms chain_restrict [of "heap s" _ f "set q"] in \<open>auto simp: Int_commute\<close>)
  ultimately show ?thesis by (simp add: fifo_destroy_def Int_commute)
qed

text \<open>The state while buffers are being allocated: \<open>k\<close> of them, none in the queue.\<close>

definition allocated :: "nat \<Rightarrow> nat \<Rightarrow> fifo \<Rightarrow> bool" where
  "allocated n ov s \<longleftrightarrow> represents s [] (rev [0..<n]) \<and> brk s = n \<and> (\<forall>p. n \<le> p \<longrightarrow> heap s p = None) \<and>
     overlap_length s = ov \<and> \<not> fifo_halted s \<and> sent s = []"

lemma push_new_allocated:
  assumes "allocated n ov s" "ov \<le> len"
  shows "allocated (Suc n) ov (push_new len s)"
  using assms
  by (auto simp: allocated_def represents_def push_new_def buffers_ok_def new_buf_def)

lemma create_buffers_allocated:
  "allocated n ov s \<Longrightarrow> ov \<le> len \<Longrightarrow> create_buffers grant len m k s = (ok, s') \<Longrightarrow>
     ok = (\<forall>i < 2 * m. grant (k + i)) \<and> (\<exists>j. allocated j ov s' \<and> (ok \<longrightarrow> j = n + m))"
proof (induction m arbitrary: n k s)
  case (Suc m)
  show ?case
  proof (cases "grant k \<and> grant (k + 1)")
    case True
    have "ok = (\<forall>i < 2 * m. grant (k + 2 + i)) \<and> (\<exists>j. allocated j ov s' \<and> (ok \<longrightarrow> j = Suc n + m))"
      by (rule Suc.IH [OF push_new_allocated [OF Suc.prems(1,2)] Suc.prems(2)]) (use True Suc.prems(3) in simp)
    moreover have "(\<forall>i < 2 * Suc m. grant (k + i)) \<longleftrightarrow> (\<forall>i < 2 * m. grant (k + 2 + i))"
      using True by (simp add: All_less_Suc2)
    ultimately show ?thesis by auto
  next
    case False
    then have "\<not> (\<forall>i < 2 * Suc m. grant (k + i))" by (auto simp: All_less_Suc2)
    then show ?thesis using False Suc.prems by auto
  qed
qed auto

lemma fifo_create_outcome:
  assumes "ov \<le> len"
  shows "\<exists>ok s. fifo_create grant n len ov fifo_start = Some (ok, s) \<and> ok = (\<forall>i \<le> 2 * n. grant i) \<and>
    (if ok then allocated n ov s
     else heap s = (\<lambda>_. None) \<and> fifo_head s = None \<and> fifo_freelist s = None \<and> overlap_buffer s = None)"
proof (cases "grant 0")
  case False
  then show ?thesis
    using fifo_destroy_chains [of "fifo_start\<lparr>overlap_buffer := None\<rparr>" "[]" "[]"]
    by (auto simp: fifo_create_def fifo_start_def free_overlap_def)
next
  case True
  let ?s0 = "fifo_start\<lparr>overlap_buffer := Some (replicate ov 0), overlap_length := ov\<rparr>"
  obtain ok s where c: "create_buffers grant len n 1 ?s0 = (ok, s)" by (cases "create_buffers grant len n 1 ?s0") auto
  have "allocated 0 ov ?s0" by (simp add: allocated_def represents_def fifo_start_def buffers_ok_def)
  from create_buffers_allocated [OF this assms c] obtain j where
    ok: "ok = (\<forall>i < 2 * n. grant (1 + i))" and j: "allocated j ov s" "ok \<longrightarrow> j = n" by auto
  have all: "ok = (\<forall>i \<le> 2 * n. grant i)" unfolding ok using True by (simp flip: less_Suc_eq_le add: All_less_Suc2)
  show ?thesis
  proof (cases ok)
    case True
    show ?thesis
      by (rule exI [where x = True], rule exI [where x = s])
        (use True c j all \<open>grant 0\<close> in \<open>auto simp: fifo_create_def Let_def\<close>)
  next
    case False
    have rep: "represents s [] (rev [0..<j])" using j by (simp add: allocated_def)
    have "heap s |` (- set ([] @ rev [0..<j])) = (\<lambda>_. None)"
      using j by (auto simp: allocated_def restrict_map_def fun_eq_iff)
    moreover have "\<not> (\<forall>i \<le> 2 * n. grant i)" using False all by simp
    ultimately show ?thesis
      using False c \<open>grant 0\<close> fifo_destroy_chains [OF representsD(1-3) [OF rep]]
      by (intro exI [where x = False]) (auto simp: fifo_create_def Let_def free_overlap_def)
  qed
qed

subsection \<open>Clients\<close>

text \<open>
  The queue together with the buffers its clients hold. A client may fill a buffer it holds,
  enqueue or release it; it gets buffers from \<open>fifo_acquire\<close> and \<open>fifo_dequeue\<close>.
\<close>

inductive client_step :: "fifo \<times> ptr list \<Rightarrow> fifo \<times> ptr list \<Rightarrow> bool" where
  acquire: "fifo_op Acquire s = Some (Some p, s') \<Longrightarrow> client_step (s, held) (s', p # held)"
| fill: "p \<in> set held \<Longrightarrow> heap s p = Some b \<Longrightarrow> length xs = length (data b) \<Longrightarrow> overlap_length s \<le> n \<Longrightarrow> n \<le> totalLength b \<Longrightarrow>
    client_step (s, held) (s\<lparr>heap := (heap s)(p := Some (b\<lparr>data := xs, validLength := n, flags := fl\<rparr>))\<rparr>, held)"
| enqueue: "p \<in> set held \<Longrightarrow> filled p s \<Longrightarrow> fifo_op (Enqueue p) s = Some (None, s') \<Longrightarrow>
    client_step (s, held) (s', remove1 p held)"
| dequeue: "fifo_op Dequeue s = Some (Some p, s') \<Longrightarrow> client_step (s, held) (s', p # held)"
| release: "p \<in> set held \<Longrightarrow> fifo_op (Release p) s = Some (None, s') \<Longrightarrow> client_step (s, held) (s', remove1 p held)"
| halt: "fifo_op Halt s = Some (None, s') \<Longrightarrow> client_step (s, held) (s', held)"

inductive reachable :: "fifo \<Rightarrow> fifo \<times> ptr list \<Rightarrow> bool" for s0 where
  start: "reachable s0 (s0, [])"
| step: "reachable s0 c \<Longrightarrow> client_step c c' \<Longrightarrow> reachable s0 c'"

definition accounted :: "nat \<Rightarrow> fifo \<times> ptr list \<Rightarrow> bool" where
  "accounted n c \<longleftrightarrow> (case c of (s, held) \<Rightarrow> \<exists>q f. represents s q f \<and> distinct (q @ f @ held) \<and> set (q @ f @ held) = {..<n})"

lemma release_allocated: "fifo_op (Release p) s = Some r \<Longrightarrow> heap s p \<noteq> None"
  by (auto simp: fifo_release_def push_free_def update_buf_def wake_def split: option.splits if_splits)

lemma accounted_op:
  assumes "represents s q f" "distinct (q @ f @ held)" "set (q @ f @ held) = {..<n}"
    and "fifo_op x s = Some (r, s')" "legal x (q @ f) s"
    and "\<And>p. x = Enqueue p \<or> x = Release p \<Longrightarrow> p \<in> set held"
  shows "accounted n (s', (case r of Some p \<Rightarrow> p # held
    | None \<Rightarrow> (case x of Enqueue p \<Rightarrow> remove1 p held | Release p \<Rightarrow> remove1 p held | _ \<Rightarrow> held)))"
proof -
  obtain q' f' where r: "represents s' q' f'" "pool_op x (q, f, fifo_halted s) = (r, (q', f', fifo_halted s'))"
    using fifo_op_refines [OF assms(1,5)] assms(4) by auto
  let ?held = "case r of Some p \<Rightarrow> p # held
    | None \<Rightarrow> (case x of Enqueue p \<Rightarrow> remove1 p held | Release p \<Rightarrow> remove1 p held | _ \<Rightarrow> held)"
  have "mset (q' @ f' @ ?held) = mset (q @ f @ held)"
    using r(2) assms(6)
    by (cases x; cases q; cases f) (auto split: if_splits)
  then have "distinct (q' @ f' @ ?held) = distinct (q @ f @ held)" "set (q' @ f' @ ?held) = set (q @ f @ held)"
    by (metis distinct_count_atmost_1 set_mset_mset mset_eq_imp_distinct_iff, metis mset_eq_setD)
  then show ?thesis using r(1) assms(2,3) by (auto simp: accounted_def)
qed

lemma represents_fill:
  assumes "represents s q f" "p \<notin> set q \<union> set f" "length (data b) = totalLength b \<and> overlap_length s \<le> totalLength b"
  shows "represents (s\<lparr>heap := (heap s)(p := Some b)\<rparr>) q f"
  using representsD [OF assms(1)] assms(2) buffers_ok_heap [OF _ assms(3)] by (simp add: represents_def)

lemma accountedE:
  assumes "accounted n (s, held)"
  obtains q f where "represents s q f" "distinct (q @ f @ held)" "set (q @ f @ held) = {..<n}"
    "\<And>p. p \<in> set held \<Longrightarrow> p \<notin> set (q @ f)"
proof -
  obtain q f where "represents s q f" "distinct (q @ f @ held)" "set (q @ f @ held) = {..<n}"
    using assms unfolding accounted_def by auto
  then show thesis by (intro that) (auto simp: disjoint_iff)
qed

lemma client_step_accounted:
  assumes "client_step c c'" "accounted n c"
  shows "accounted n c'"
  using assms
proof (induction rule: client_step.induct)
  case (fill p held s b xs k fl)
  from accountedE [OF fill.prems] obtain q f where c: "represents s q f" "distinct (q @ f @ held)"
    "set (q @ f @ held) = {..<n}" "\<And>p. p \<in> set held \<Longrightarrow> p \<notin> set (q @ f)" by metis
  then have "represents (s\<lparr>heap := (heap s)(p := Some (b\<lparr>data := xs, validLength := k, flags := fl\<rparr>))\<rparr>) q f"
    by (intro represents_fill) (use c(4) [OF fill.hyps(1)] fill.hyps buffers_ok_at [OF representsD(5) [OF c(1)]] in auto)
  then show ?case using c(2,3) unfolding accounted_def by auto
next
  case (acquire s p s' held)
  from accountedE [OF acquire.prems] obtain q f where "represents s q f" "distinct (q @ f @ held)"
    "set (q @ f @ held) = {..<n}" by metis
  from accounted_op [OF this acquire.hyps] show ?case by simp
next
  case (dequeue s p s' held)
  from accountedE [OF dequeue.prems] obtain q f where "represents s q f" "distinct (q @ f @ held)"
    "set (q @ f @ held) = {..<n}" by metis
  from accounted_op [OF this dequeue.hyps] show ?case by simp
next
  case (enqueue p held s s')
  from accountedE [OF enqueue.prems] obtain q f where c: "represents s q f" "distinct (q @ f @ held)"
    "set (q @ f @ held) = {..<n}" "\<And>p. p \<in> set held \<Longrightarrow> p \<notin> set (q @ f)" by metis
  from accounted_op [OF c(1-3) enqueue.hyps(3)] c(4) enqueue.hyps show ?case by auto
next
  case (release p held s s')
  from accountedE [OF release.prems] obtain q f where c: "represents s q f" "distinct (q @ f @ held)"
    "set (q @ f @ held) = {..<n}" "\<And>p. p \<in> set held \<Longrightarrow> p \<notin> set (q @ f)" by metis
  have "legal (Release p) (q @ f) s" using c(4) release.hyps release_allocated by auto
  from accounted_op [OF c(1-3) release.hyps(2) this] release.hyps(1) show ?case by auto
next
  case (halt s s' held)
  from accountedE [OF halt.prems] obtain q f where "represents s q f" "distinct (q @ f @ held)"
    "set (q @ f @ held) = {..<n}" by metis
  from accounted_op [OF this halt.hyps] show ?case by simp
qed

lemma reachable_accounted:
  assumes "reachable s0 c" "accounted n (s0, [])"
  shows "accounted n c"
  using assms by (induction rule: reachable.induct) (auto intro: client_step_accounted)

lemma allocated_accounted: "allocated n ov s \<Longrightarrow> accounted n (s, [])"
  unfolding accounted_def allocated_def prod.case
  by (rule exI [where x = "[]"], rule exI [where x = "rev [0..<n]"]) auto

subsection \<open>The overlap\<close>

text \<open>Steps of the clients and the demodulator other than enqueueing.\<close>

definition quiet_step :: "fifo \<times> ptr list \<Rightarrow> fifo \<times> ptr list \<Rightarrow> bool" where
  "quiet_step c c' \<longleftrightarrow> client_step c c' \<and> (\<forall>p. fifo_op (Enqueue p) (fst c) \<noteq> Some (None, fst c'))"

lemma fifo_acquire_overlap:
  "fifo_acquire False [] s = Some (r, s') \<Longrightarrow> overlap_buffer s' = overlap_buffer s \<and> overlap_length s' = overlap_length s"
  by (auto simp: fifo_acquire_def update_buf_def split: if_splits option.splits elim!: bind_eq_SomeE)

lemma fifo_dequeue_overlap:
  "fifo_dequeue False [] s = Some (r, s') \<Longrightarrow> overlap_buffer s' = overlap_buffer s \<and> overlap_length s' = overlap_length s"
  by (auto simp: fifo_dequeue_def update_buf_def wake_def split: if_splits option.splits elim!: bind_eq_SomeE)

lemma fifo_release_overlap:
  "fifo_release p s = Some s' \<Longrightarrow> overlap_buffer s' = overlap_buffer s \<and> overlap_length s' = overlap_length s"
  by (auto simp: fifo_release_def push_free_def update_buf_def wake_def split: if_splits option.splits elim!: bind_eq_SomeE)

definition same_overlap :: "fifo \<Rightarrow> fifo \<Rightarrow> bool" where
  "same_overlap s s' \<longleftrightarrow> overlap_buffer s' = overlap_buffer s \<and> overlap_length s' = overlap_length s"

lemma quiet_step_overlap:
  assumes "quiet_step c c'" "accounted n c"
  shows "same_overlap (fst c) (fst c')"
proof -
  have "client_step c c'" "\<And>p. fifo_op (Enqueue p) (fst c) \<noteq> Some (None, fst c')"
    using assms(1) by (auto simp: quiet_step_def)
  then show ?thesis using assms(2)
  proof (induction rule: client_step.induct)
    case (halt s s' held)
    from accountedE [OF halt.prems(2)] obtain q f where "represents s q f" by metis
    from fifo_halt_represents [OF this] halt.hyps show ?case by (auto simp: same_overlap_def same_content_def)
  qed (auto simp: same_overlap_def dest: fifo_acquire_overlap fifo_dequeue_overlap fifo_release_overlap)
qed

lemma quiet_overlap:
  "quiet_step\<^sup>*\<^sup>* c c' \<Longrightarrow> accounted n c \<Longrightarrow> accounted n c' \<and> same_overlap (fst c) (fst c')"
proof (induction rule: rtranclp_induct)
  case (step c' c'')
  then have "accounted n c'" "same_overlap (fst c) (fst c')" by auto
  moreover have "client_step c' c''" using step.hyps(2) by (simp add: quiet_step_def)
  ultimately show ?case
    using client_step_accounted quiet_step_overlap [OF step.hyps(2)] by (auto simp: same_overlap_def)
qed (simp add: same_overlap_def)

lemma same_unlinked:
  "b\<lparr>next_buf := None\<rparr> = c\<lparr>next_buf := None\<rparr> \<Longrightarrow> data b = data c \<and> validLength b = validLength c \<and> flags b = flags c"
  by (cases b; cases c) simp

lemma enqueue_samples:
  assumes "represents s q f" "p \<notin> set q \<union> set f" "filled p s" "\<not> fifo_halted s" "overlap_buffer s = Some saved"
  shows "\<exists>s' b. fifo_enqueue p s = Some s' \<and> heap s' p = Some b \<and> overlap_length s' = overlap_length s \<and>
    represents s' (q @ [p]) f \<and>
    overlap_buffer s' = Some (saved_tail (overlap_length s) b) \<and>
    take (overlap_length s) (data b) = (if flags b AND MAGBUF_DISCONTINUOUS \<noteq> 0 then replicate (overlap_length s) 0 else saved)"
proof -
  obtain b where b: "heap s p = Some b" "overlap_length s \<le> validLength b" "validLength b \<le> totalLength b"
    using assms(3) by (auto simp: filled_def)
  let ?b = "fill_overlap (overlap_length s) saved b"
  have len: "length saved = overlap_length s" using representsD(5) [OF assms(1)] assms(5) by (auto simp: buffers_ok_def)
  obtain s' where s': "fifo_enqueue p s = Some s'" "represents s' (q @ [p]) f"
    "unlinked (heap s') p = Some (?b\<lparr>next_buf := None\<rparr>)"
    "overlap_buffer s' = Some (saved_tail (overlap_length s) ?b)" "overlap_length s' = overlap_length s"
    using fifo_enqueue_running [OF assms(1,2) b assms(4,5)] by auto
  then obtain b' where b': "heap s' p = Some b'" "b'\<lparr>next_buf := None\<rparr> = ?b\<lparr>next_buf := None\<rparr>"
    by (auto simp: unlinked_def)
  then have "data b' = data ?b" "validLength b' = validLength ?b" "flags b' = flags ?b"
    using same_unlinked [OF b'(2)] by auto
  then show ?thesis
    using s' b' len by (auto simp: saved_tail_def fill_overlap_def)
qed

subsection \<open>Properties\<close>

text \<open>
  C24. Refinement: the linked lists with their head, tail and free pointers implement a queue and a
  free list. From every state that represents them, each operation a client may legally call
  runs without fault, returns what the abstract operation returns, ends in a state that
  represents the abstract result, and sends exactly the wake-ups of the abstract description.
\<close>

theorem fifo_refines_pool:
  assumes "represents s q f" and "legal x (q @ f) s"
  shows "\<exists>r s' q' f'. fifo_op x s = Some (r, s') \<and> represents s' q' f' \<and>
    pool_op x (q, f, fifo_halted s) = (r, (q', f', fifo_halted s')) \<and>
    sent s' = sent s @ pool_wakes x (q, f, fifo_halted s)"
  by (rule fifo_op_refines [OF assms])

definition example_buf :: "u16 list \<Rightarrow> mag_buf" where
  "example_buf xs = (new_buf 0 None)\<lparr>data := xs, totalLength := length xs, validLength := length xs\<rparr>"

text \<open>Two filled buffers in the hands of a client, one sample of overlap.\<close>

definition example_fifo :: fifo where
  "example_fifo = fifo_start\<lparr>heap := [0 \<mapsto> example_buf [0, 5, 6], 1 \<mapsto> example_buf [0, 7, 8]],
     overlap_length := 1, overlap_buffer := Some [0]\<rparr>"

lemma example_represents: "represents example_fifo [] []"
  by (simp add: represents_def example_fifo_def fifo_start_def buffers_ok_def example_buf_def new_buf_def)

lemma example_filled: "p < 2 \<Longrightarrow> filled p example_fifo"
  by (auto simp: filled_def example_fifo_def fifo_start_def example_buf_def new_buf_def less_2_cases_iff)

theorem fifo_refines_pool_witness:
  "\<exists>s'. fifo_op (Enqueue 0) example_fifo = Some (None, s') \<and> represents s' [0] [] \<and>
     sent s' = [Signal NotEmptyCond]"
  using fifo_refines_pool [OF example_represents, of "Enqueue 0"] example_filled [of 0]
  by (auto simp: example_fifo_def fifo_start_def)

text \<open>
  First in, first out: buffers enqueued one after the other into an empty running queue are
  dequeued in the same order, each once, and the queue is empty again.
\<close>

theorem fifo_first_in_first_out:
  assumes "fifo_inv s" "\<not> fifo_halted s" "queued s = []" "distinct ps"
    and "\<forall>p \<in> set ps. p \<notin> set (free_bufs s) \<and> filled p s"
  shows "\<exists>s1 s2. enq_all fifo_enqueue ps s = Some s1 \<and>
    deq_n (fifo_dequeue False []) (length ps) s1 = Some (map Some ps, s2) \<and> queued s2 = []"
  by (rule lq.first_in_first_out) (use assms in \<open>auto simp: enqueueable_def\<close>)

theorem fifo_first_in_first_out_witness:
  "\<exists>s1 s2. enq_all fifo_enqueue [1, 0] example_fifo = Some s1 \<and>
     deq_n (fifo_dequeue False []) 2 s1 = Some ([Some 1, Some 0], s2) \<and> queued s2 = []"
  using fifo_first_in_first_out [of example_fifo "[1, 0]"] represents_lists [OF example_represents] example_filled
  by (simp add: example_fifo_def fifo_start_def numeral_2_eq_2)

text \<open>
  No buffer is lost or shared: from a successful \<open>fifo_create\<close>, after any interleaving of
  client and demodulator steps, halting included, every one of the \<open>n\<close> buffers is in exactly one
  place: the queue, the free list or the hands of one client.
\<close>

theorem fifo_accounts_for_buffers:
  assumes "fifo_create grant n len ov fifo_start = Some (True, s0)" "ov \<le> len" "reachable s0 (s, held)"
  shows "fifo_inv s \<and> distinct (queued s @ free_bufs s @ held) \<and> set (queued s @ free_bufs s @ held) = {..<n}"
proof -
  have "allocated n ov s0" using fifo_create_outcome [OF assms(2), of grant n] assms(1) by auto
  then have "accounted n (s, held)"
    using reachable_accounted [OF assms(3)] allocated_accounted by blast
  from accountedE [OF this] obtain q f where "represents s q f" "distinct (q @ f @ held)" "set (q @ f @ held) = {..<n}"
    by metis
  then show ?thesis using represents_lists [of s q f] by auto
qed

theorem fifo_accounts_for_buffers_witness:
  "\<exists>s0 s p. fifo_create (\<lambda>_. True) 2 4 1 fifo_start = Some (True, s0) \<and> reachable s0 (s, [p]) \<and>
     set (queued s @ free_bufs s @ [p]) = {..<2}"
proof -
  obtain s0 where s0: "fifo_create (\<lambda>_. True) 2 4 1 fifo_start = Some (True, s0)" "allocated 2 1 s0"
    using fifo_create_outcome [of 1 4 "\<lambda>_. True" 2] by auto
  then have rep: "represents s0 [] (rev [0..<2])" "\<not> fifo_halted s0" by (simp_all add: allocated_def)
  then obtain p s where "fifo_op Acquire s0 = Some (Some p, s)"
    using fifo_op_refines [OF rep(1), of Acquire] by (auto simp: numeral_2_eq_2)
  then have r: "reachable s0 (s, [p])" using client_step.acquire reachable.intros by metis
  from fifo_accounts_for_buffers [OF s0(1) _ r] s0(1) r show ?thesis by auto
qed

text \<open>
  The overlap is continuous: if a buffer is enqueued, then anything but an enqueue happens, and
  then the next buffer is enqueued, the first samples of the second buffer are the last valid samples of
  the first one, or zeros if it is marked as discontinuous.
\<close>

theorem fifo_overlap_continuous:
  assumes "accounted n (s, held)" "p \<in> set held" "filled p s" "\<not> fifo_halted s"
    and "fifo_enqueue p s = Some s1" "quiet_step\<^sup>*\<^sup>* (s1, remove1 p held) (s2, held2)"
    and "p2 \<in> set held2" "filled p2 s2" "\<not> fifo_halted s2"
  shows "\<exists>b s3 b2. heap s1 p = Some b \<and> fifo_enqueue p2 s2 = Some s3 \<and> heap s3 p2 = Some b2 \<and>
    take (overlap_length s) (data b2) =
      (if flags b2 AND MAGBUF_DISCONTINUOUS \<noteq> 0 then replicate (overlap_length s) 0 else saved_tail (overlap_length s) b)"
proof -
  from accountedE [OF assms(1)] obtain q f where c: "represents s q f" "\<And>p. p \<in> set held \<Longrightarrow> p \<notin> set (q @ f)" by metis
  obtain saved where "overlap_buffer s = Some saved" using representsD(5) [OF c(1)] by (auto simp: buffers_ok_def)
  from enqueue_samples [OF c(1) _ assms(3,4) this] c(2) [OF assms(2)] assms(5) obtain b where
    b: "heap s1 p = Some b" "overlap_length s1 = overlap_length s" "overlap_buffer s1 = Some (saved_tail (overlap_length s) b)"
    by auto
  have "accounted n (s1, remove1 p held)"
    by (rule client_step_accounted [OF client_step.enqueue assms(1)]) (use assms(2,3,5) in simp_all)
  from quiet_overlap [OF assms(6) this] have acc: "accounted n (s2, held2)" and
    ov: "overlap_buffer s2 = Some (saved_tail (overlap_length s) b)" "overlap_length s2 = overlap_length s"
    using b by (simp_all add: same_overlap_def)
  from accountedE [OF acc] obtain q2 f2 where c2: "represents s2 q2 f2" "\<And>p. p \<in> set held2 \<Longrightarrow> p \<notin> set (q2 @ f2)" by metis
  have "p2 \<notin> set q2 \<union> set f2" using c2(2) [OF assms(7)] by simp
  from enqueue_samples [OF c2(1) this assms(8,9) ov(1)] obtain s3 b2 where
    "fifo_enqueue p2 s2 = Some s3" "heap s3 p2 = Some b2"
    "take (overlap_length s) (data b2) =
      (if flags b2 AND MAGBUF_DISCONTINUOUS \<noteq> 0 then replicate (overlap_length s) 0 else saved_tail (overlap_length s) b)"
    unfolding ov(2) by metis
  with b(1) show ?thesis by blast
qed

theorem fifo_overlap_continuous_witness:
  "\<exists>s1 b s3 b2. fifo_enqueue 0 example_fifo = Some s1 \<and> heap s1 0 = Some b \<and> fifo_enqueue 1 s1 = Some s3 \<and>
     heap s3 1 = Some b2 \<and>
     take 1 (data b2) = (if flags b2 AND MAGBUF_DISCONTINUOUS \<noteq> 0 then replicate 1 0 else saved_tail 1 b)"
proof -
  have acc: "accounted 2 (example_fifo, [0, 1])"
    using example_represents unfolding accounted_def prod.case
    by (intro exI [where x = "[]"]) (auto simp: less_2_cases_iff)
  have run: "\<not> fifo_halted example_fifo" "overlap_length example_fifo = 1" by (simp_all add: example_fifo_def fifo_start_def)
  obtain s1 where s1: "fifo_enqueue 0 example_fifo = Some s1" "\<not> fifo_halted s1"
      "unlinked (heap s1) 1 = unlinked (heap example_fifo) 1" "overlap_length s1 = overlap_length example_fifo"
    using enqueue_running [of example_fifo 0] represents_lists [OF example_represents] example_filled [of 0] run
    by (fastforce simp: enqueueable_def)
  have f1: "filled 1 s1" by (rule filled_unlinked [OF s1(3,4) example_filled]) simp
  have "quiet_step\<^sup>*\<^sup>* (s1, remove1 0 [0, 1]) (s1, [1])" by simp
  from fifo_overlap_continuous [OF acc _ example_filled run(1) s1(1) this _ f1 s1(2), unfolded run(2)] obtain b s3 b2 where
    "heap s1 0 = Some b" "fifo_enqueue 1 s1 = Some s3" "heap s3 1 = Some b2"
    "take 1 (data b2) = (if flags b2 AND MAGBUF_DISCONTINUOUS \<noteq> 0 then replicate 1 0 else saved_tail 1 b)" by auto
  with s1(1) show ?thesis by blast
qed

text \<open>
  C25. No wake-up is lost: an operation after which a waiting thread's condition no longer holds
  has signalled the condition variable that thread waits on. This covers threads waiting for a free
  buffer, for a queued buffer, and for the queue to drain.
\<close>

theorem fifo_wakes_waiters:
  assumes "represents s q f" and "legal x (q @ f) s" and "fifo_op x s = Some (r, s')"
  shows "\<exists>ws. sent s' = sent s @ ws \<and>
    (\<not> fifo_halted s \<and> fifo_freelist s = None \<and> \<not> (\<not> fifo_halted s' \<and> fifo_freelist s' = None) \<longrightarrow>
       Signal FreeCond \<in> set ws \<or> Broadcast FreeCond \<in> set ws) \<and>
    (fifo_head s = None \<and> \<not> fifo_halted s \<and> \<not> (fifo_head s' = None \<and> \<not> fifo_halted s') \<longrightarrow>
       Signal NotEmptyCond \<in> set ws \<or> Broadcast NotEmptyCond \<in> set ws) \<and>
    (fifo_head s \<noteq> None \<and> \<not> fifo_halted s \<and> \<not> (fifo_head s' \<noteq> None \<and> \<not> fifo_halted s') \<longrightarrow>
       Broadcast EmptyCond \<in> set ws)"
proof -
  obtain q' f' where r: "represents s' q' f'" "pool_op x (q, f, fifo_halted s) = (r, (q', f', fifo_halted s'))"
    "sent s' = sent s @ pool_wakes x (q, f, fifo_halted s)"
    using fifo_op_refines [OF assms(1,2)] assms(3) by auto
  have e: "fifo_head s = None \<longleftrightarrow> q = []" "fifo_freelist s = None \<longleftrightarrow> f = []"
    "fifo_head s' = None \<longleftrightarrow> q' = []" "fifo_freelist s' = None \<longleftrightarrow> f' = []"
    using representsD(1,2) [OF assms(1)] representsD(1,2) [OF r(1)] by (cases q; cases f; cases q'; cases f'; auto)+
  show ?thesis
    unfolding e using r(2,3) by (cases x) (auto split: if_splits)
qed

theorem fifo_wakes_waiters_witness:
  "\<exists>s'. fifo_op (Enqueue 0) example_fifo = Some (None, s') \<and> fifo_head example_fifo = None \<and>
     fifo_head s' \<noteq> None \<and> (Signal NotEmptyCond \<in> set (sent s') \<or> Broadcast NotEmptyCond \<in> set (sent s'))"
proof -
  have l: "legal (Enqueue 0) ([] @ []) example_fifo" using example_filled [of 0] by simp
  from fifo_op_refines [OF example_represents l] obtain s' where
    s': "fifo_op (Enqueue 0) example_fifo = Some (None, s')" "represents s' [0] []" "\<not> fifo_halted s'"
    by (auto simp: example_fifo_def fifo_start_def)
  have "fifo_head s' \<noteq> None" using representsD(1) [OF s'(2)] by simp
  moreover have "fifo_head example_fifo = None" "\<not> fifo_halted example_fifo" "sent example_fifo = []"
    by (simp_all add: example_fifo_def fifo_start_def)
  ultimately show ?thesis
    using fifo_wakes_waiters [OF example_represents l s'(1)] s'(1) by auto
qed

end
