(* ===== verification/Demod.thy ===== *)
theory Demod
  imports ModeS Fifo
begin

text \<open>
  The demodulator at 2.4 MHz, \<^verbatim>\<open>src/demod_2400.c\<close>: it looks for preambles in a buffer of magnitude
  samples, slices the bits of a message at five phases, keeps the phase with the best score and hands
  the decoded message on. Samples are read through \<open>sample\<close>, which faults outside of the buffer.
  What the demodulator does to the outside, the feeding of the gain control and the messages it hands
  on, is the list \<open>dm_events\<close>.
\<close>

subsection \<open>Slicing\<close>

definition sample :: "u16 list \<Rightarrow> nat \<Rightarrow> int option" where
  "sample m i = map_option (\<lambda>v. int (unat v)) (arr_get m i)"

definition slice_phase0 :: "u16 list \<Rightarrow> nat \<Rightarrow> int option" where
  "slice_phase0 m i = do { a \<leftarrow> sample m i; b \<leftarrow> sample m (i + 1); c \<leftarrow> sample m (i + 2); Some (5 * a - 3 * b - 2 * c) }"

definition slice_phase1 :: "u16 list \<Rightarrow> nat \<Rightarrow> int option" where
  "slice_phase1 m i = do { a \<leftarrow> sample m i; b \<leftarrow> sample m (i + 1); c \<leftarrow> sample m (i + 2); Some (4 * a - b - 3 * c) }"

definition slice_phase2 :: "u16 list \<Rightarrow> nat \<Rightarrow> int option" where
  "slice_phase2 m i = do { a \<leftarrow> sample m i; b \<leftarrow> sample m (i + 1); c \<leftarrow> sample m (i + 2); Some (3 * a + b - 4 * c) }"

definition slice_phase3 :: "u16 list \<Rightarrow> nat \<Rightarrow> int option" where
  "slice_phase3 m i = do { a \<leftarrow> sample m i; b \<leftarrow> sample m (i + 1); c \<leftarrow> sample m (i + 2); Some (2 * a + 3 * b - 5 * c) }"

definition slice_phase4 :: "u16 list \<Rightarrow> nat \<Rightarrow> int option" where
  "slice_phase4 m i = do {
     a \<leftarrow> sample m i; b \<leftarrow> sample m (i + 1); c \<leftarrow> sample m (i + 2); d \<leftarrow> sample m (i + 3);
     Some (a + 5 * b - 5 * c - d) }"

definition slice_phase :: "nat \<Rightarrow> u16 list \<Rightarrow> nat \<Rightarrow> int option" where
  "slice_phase phase = (if phase = 0 then slice_phase0 else if phase = 1 then slice_phase1 else if phase = 2 then slice_phase2
     else if phase = 3 then slice_phase3 else slice_phase4)"

text \<open>
  The \<^verbatim>\<open>switch\<close> of the byte loop: for a phase the slicers of the eight bits with their offsets, and
  then the next phase and how far the pointer moves.
\<close>

definition byte_slices :: "nat \<Rightarrow> (nat \<times> nat) list" where
  "byte_slices phase =
     (if phase = 0 then [(0, 0), (2, 2), (4, 4), (1, 7), (3, 9), (0, 12), (2, 14), (4, 16)]
      else if phase = 1 then [(1, 0), (3, 2), (0, 5), (2, 7), (4, 9), (1, 12), (3, 14), (0, 17)]
      else if phase = 2 then [(2, 0), (4, 2), (1, 5), (3, 7), (0, 10), (2, 12), (4, 14), (1, 17)]
      else if phase = 3 then [(3, 0), (0, 3), (2, 5), (4, 7), (1, 10), (3, 12), (0, 15), (2, 17)]
      else [(4, 0), (1, 3), (3, 5), (0, 8), (2, 10), (4, 12), (1, 15), (3, 17)])"

definition next_phase :: "nat \<Rightarrow> nat \<times> nat" where
  "next_phase phase =
     (if phase = 0 then (1, 19) else if phase = 1 then (2, 19) else if phase = 2 then (3, 19)
      else if phase = 3 then (4, 19) else (0, 20))"

fun slice_bits :: "u16 list \<Rightarrow> nat \<Rightarrow> u8 \<Rightarrow> (nat \<times> nat) list \<Rightarrow> u8 option" where
  "slice_bits m p weight [] = Some 0"
| "slice_bits m p weight ((phase, offset) # ss) = do {
     x \<leftarrow> slice_phase phase m (p + offset);
     rest \<leftarrow> slice_bits m p (drop_bit 1 weight) ss;
     Some ((if x > 0 then weight else 0) OR rest) }"

definition slice_byte :: "u16 list \<Rightarrow> nat \<Rightarrow> nat \<Rightarrow> u8 option" where
  "slice_byte m phase p = slice_bits m p 0x80 (byte_slices phase)"

text \<open>The bytes \<open>i\<close> to \<open>i + n - 1\<close> of a message.\<close>

fun slice_bytes :: "u16 list \<Rightarrow> nat \<Rightarrow> nat \<Rightarrow> nat \<Rightarrow> nat \<Rightarrow> u8 list \<Rightarrow> u8 list option" where
  "slice_bytes m phase p i 0 buf = Some buf"
| "slice_bytes m phase p i (Suc n) buf = do {
     b \<leftarrow> slice_byte m phase p;
     buf \<leftarrow> arr_set buf i b;
     let (phase', advance) = next_phase phase;
     slice_bytes m phase' (p + advance) (i + 1) n buf }"

subsection \<open>Downlink formats worth demodulating\<close>

function generate_damage_set :: "nat \<Rightarrow> nat \<Rightarrow> u32" where
  "generate_damage_set df 0 = push_bit df 1"
| "generate_damage_set df (Suc damage_bits) =
     foldl (\<lambda>acc b. acc OR generate_damage_set (df XOR push_bit b 1) damage_bits) (push_bit df 1) [0..<5]"
  by pat_completeness auto
termination by (relation "measure snd") auto

definition init_bitsets :: "mode_s_env \<Rightarrow> u32 \<times> u32" where
  "init_bitsets env =
     (let short = push_bit 0 1 OR push_bit 4 1 OR push_bit 5 1 OR push_bit 11 1;
          long = push_bit 16 1 OR push_bit 17 1 OR push_bit 18 1 OR push_bit 20 1 OR push_bit 21 1;
          long = (if e_enable_df24 env then long OR 0xFF000000 else long)
      in if e_fix_df env \<and> e_nfix_crc env \<noteq> 0
         then (short OR generate_damage_set 11 1,
               long OR generate_damage_set 17 (e_nfix_crc env) OR generate_damage_set 18 (e_nfix_crc env))
         else (short, long))"

subsection \<open>Preambles\<close>

text \<open>
  The shapes of the five phases, on the samples from a possible start. The result has the level
  that quiet samples stay below, the signal and the noise.
\<close>

definition match_preamble :: "(nat \<Rightarrow> int) \<Rightarrow> (int \<times> int \<times> int) option" where
  "match_preamble p =
     (if \<not> (p 0 < p 1 \<and> p 12 > p 13) then None
      else if p 1 > p 2 \<and> p 2 < p 3 \<and> p 3 > p 4 \<and> p 8 < p 9 \<and> p 9 > p 10 \<and> p 10 < p 11 then
        Some ((p 1 + p 3 + p 9 + p 11 + p 12) div 4, p 1 + p 3 + p 9, p 5 + p 6 + p 7)
      else if p 1 > p 2 \<and> p 2 < p 3 \<and> p 3 > p 4 \<and> p 8 < p 9 \<and> p 9 > p 10 \<and> p 11 < p 12 then
        Some ((p 1 + p 3 + p 9 + p 12) div 4, p 1 + p 3 + p 9 + p 12, p 5 + p 6 + p 7 + p 8)
      else if p 1 > p 2 \<and> p 2 < p 3 \<and> p 4 > p 5 \<and> p 8 < p 9 \<and> p 10 > p 11 \<and> p 11 < p 12 then
        Some ((p 1 + p 3 + p 4 + p 9 + p 10 + p 12) div 4, p 1 + p 12, p 6 + p 7)
      else if p 1 > p 2 \<and> p 3 < p 4 \<and> p 4 > p 5 \<and> p 9 < p 10 \<and> p 10 > p 11 \<and> p 11 < p 12 then
        Some ((p 1 + p 4 + p 10 + p 12) div 4, p 1 + p 4 + p 10 + p 12, p 5 + p 6 + p 7 + p 8)
      else if p 2 > p 3 \<and> p 3 < p 4 \<and> p 4 > p 5 \<and> p 9 < p 10 \<and> p 10 > p 11 \<and> p 11 < p 12 then
        Some ((p 1 + p 2 + p 4 + p 10 + p 12) div 4, p 4 + p 10 + p 12, p 6 + p 7 + p 8)
      else None)"

definition good_preamble :: "(nat \<Rightarrow> int) \<Rightarrow> bool" where
  "good_preamble p =
     (case match_preamble p of None \<Rightarrow> False
      | Some (high, base_signal, base_noise) \<Rightarrow>
          \<not> base_signal * 2 < 3 * base_noise
          \<and> \<not> (p 5 \<ge> high \<or> p 6 \<ge> high \<or> p 7 \<ge> high \<or> p 8 \<ge> high \<or> p 14 \<ge> high \<or> p 15 \<ge> high
               \<or> p 16 \<ge> high \<or> p 17 \<ge> high \<or> p 18 \<ge> high))"

text \<open>The samples \<open>j\<close> to \<open>j + 18\<close> must exist, also where a comparison decides before the last is read.\<close>

definition preamble_at :: "u16 list \<Rightarrow> nat \<Rightarrow> bool option" where
  "preamble_at m j = do {
     c_assert (j + 19 \<le> length m);
     Some (good_preamble (\<lambda>i. int (unat (m ! (j + i))))) }"

subsection \<open>State\<close>

record demod_stats =
  demod_preambles :: u32
  demod_rejected_bad :: u32
  demod_rejected_unknown_icao :: u32
  demod_accepted :: "u32 list"
  demod_modeac :: u32
  demod_cpr_filtered :: u32
  noise_power_sum :: rat
  noise_power_count :: u64
  signal_power_sum :: rat
  signal_power_count :: u64
  peak_signal_power :: rat
  strong_signal_count :: u32

datatype demod_event = AdaptiveUpdate nat nat "modesMessage option" | UseModesMessage modesMessage

text \<open>
  \<open>dm_last_end\<close> and the bit sets are static variables. \<open>dm_msg\<close> is the buffer that is written next, \<open>dm_other\<close>
  the other one; as soon as there is a best message, it is in the latter. They and the sum of the signal
  power are local to a call.
\<close>

record demod =
  dm_last_end :: nat
  dm_short :: u32
  dm_long :: u32
  dm_filter :: icao_filter
  dm_stats :: demod_stats
  dm_events :: "demod_event list"
  dm_msg :: "u8 list"
  dm_other :: "u8 list"
  dm_sum :: u64

record demod_env =
  de_mode_s :: mode_s_env
  de_score_junk :: "u8 list"
  de_msg_junk :: "u8 list \<times> u8 list"
  de_sqrt :: "rat \<Rightarrow> rat"
  de_sqrtf :: "rat \<Rightarrow> rat"

definition on_stats :: "(demod_stats \<Rightarrow> demod_stats) \<Rightarrow> demod \<Rightarrow> demod" where
  "on_stats f s = s\<lparr>dm_stats := f (dm_stats s)\<rparr>"

definition reject_bad :: "demod \<Rightarrow> demod" where
  "reject_bad = on_stats (\<lambda>t. t\<lparr>demod_rejected_bad := demod_rejected_bad t + 1\<rparr>)"

definition emit :: "demod_event \<Rightarrow> demod \<Rightarrow> demod" where
  "emit e s = s\<lparr>dm_events := dm_events s @ [e]\<rparr>"

text \<open>The gain control reads the samples it is given.\<close>

definition feed_adaptive :: "u16 list \<Rightarrow> nat \<Rightarrow> nat \<Rightarrow> modesMessage option \<Rightarrow> demod \<Rightarrow> demod option" where
  "feed_adaptive m start len mm s = do {
     c_assert (start + len \<le> length m);
     Some (emit (AdaptiveUpdate start len mm) s) }"

subsection \<open>Trying the phases\<close>

definition demod_phase :: "u16 list \<Rightarrow> u32 \<Rightarrow> u32 \<Rightarrow> nat \<Rightarrow> nat \<Rightarrow> u8 list \<Rightarrow> (nat \<times> u8 list) option" where
  "demod_phase m short long j try_phase buf = do {
     let p = j + 19 + try_phase div 5;
     let phase = try_phase mod 5;
     b \<leftarrow> slice_byte m phase p;
     buf \<leftarrow> arr_set buf 0 b;
     let df = unat (drop_bit 3 b);
     let bytelen = (if bit long df then MODES_LONG_MSG_BYTES else if bit short df then 7 else 1);
     let (phase', advance) = next_phase phase;
     buf \<leftarrow> slice_bytes m phase' (p + advance) 1 (bytelen - 1) buf;
     Some (bytelen, buf) }"

text \<open>One phase: \<open>best\<close> is the best score so far with its phase.\<close>

definition try_one :: "demod_env \<Rightarrow> u16 list \<Rightarrow> nat \<Rightarrow> nat \<Rightarrow> (int \<times> nat) \<times> demod \<Rightarrow> ((int \<times> nat) \<times> demod) option" where
  "try_one E m j try_phase = (\<lambda>(best, s). do {
     (bytelen, buf) \<leftarrow> demod_phase m (dm_short s) (dm_long s) j try_phase (dm_msg s);
     let s = s\<lparr>dm_msg := buf\<rparr>;
     if bytelen = 1 then Some (best, reject_bad s)
     else do {
       sc \<leftarrow> scoreModesMessage (de_mode_s E) (dm_filter s) buf (de_score_junk E);
       if score_value sc > fst best
       then Some ((score_value sc, try_phase), s\<lparr>dm_msg := dm_other s, dm_other := buf\<rparr>)
       else Some (best, s) } })"

fun try_phases :: "demod_env \<Rightarrow> u16 list \<Rightarrow> nat \<Rightarrow> nat list \<Rightarrow> (int \<times> nat) \<times> demod \<Rightarrow> ((int \<times> nat) \<times> demod) option" where
  "try_phases E m j [] r = Some r"
| "try_phases E m j (t # ts) r = try_one E m j t r \<bind> try_phases E m j ts"

subsection \<open>A message\<close>

fun scaled_power :: "u16 list \<Rightarrow> nat \<Rightarrow> nat \<Rightarrow> u64 \<Rightarrow> u64 option" where
  "scaled_power m p 0 acc = Some acc"
| "scaled_power m p (Suc n) acc = do {
     v \<leftarrow> arr_get m p;
     let mag = (ucast v :: u32);
     scaled_power m (p + 1) n (acc + ucast (mag * mag)) }"

definition receiveclock_ms_elapsed :: "u64 \<Rightarrow> u64 \<Rightarrow> u64" where
  "receiveclock_ms_elapsed t1 t2 = (t2 - t1) div 12000"

definition measure_power :: "u16 list \<Rightarrow> nat \<Rightarrow> nat \<Rightarrow> modesMessage \<Rightarrow> demod \<Rightarrow> (modesMessage \<times> demod) option" where
  "measure_power m j signal_len mm s = do {
     scaled \<leftarrow> scaled_power m (j + 19) signal_len 0;
     let signal_power = f64 (f64 (f64 (of_nat (unat scaled)) / 65535) / 65535);
     let level = f64 (signal_power / of_nat signal_len);
     Some (mm\<lparr>signalLevel := level\<rparr>,
       on_stats (\<lambda>t. t\<lparr>signal_power_sum := f64 (signal_power_sum t + signal_power),
            signal_power_count := signal_power_count t + of_nat signal_len,
            peak_signal_power := (if level > peak_signal_power t then level else peak_signal_power t),
            strong_signal_count := (if level > f64 (50119 / 100000) then strong_signal_count t + 1 else strong_signal_count t)\<rparr>)
         (s\<lparr>dm_sum := dm_sum s + scaled\<rparr>)) }"

definition start_message :: "mag_buf \<Rightarrow> nat \<Rightarrow> int \<times> nat \<Rightarrow> modesMessage" where
  "start_message mag j best =
     (let ts = sampleTimestamp mag + ucast (of_nat j * 5 :: u32) + (8 + 56) * 12 + of_nat (snd best)
      in zeroMessage\<lparr>timestampMsg := ts,
           sysTimestampMsg := sysTimestamp mag + receiveclock_ms_elapsed (sampleTimestamp mag) ts, score := fst best\<rparr>)"

definition count_accepted :: "modesMessage \<Rightarrow> demod \<Rightarrow> demod option" where
  "count_accepted mm s = do {
     k \<leftarrow> arr_get (demod_accepted (dm_stats s)) (nat (correctedbits mm));
     accepted \<leftarrow> arr_set (demod_accepted (dm_stats s)) (nat (correctedbits mm)) (k + 1);
     Some (on_stats (demod_accepted_update (\<lambda>_. accepted)) s) }"

definition hand_on :: "u16 list \<Rightarrow> nat \<Rightarrow> nat \<Rightarrow> modesMessage \<Rightarrow> demod \<Rightarrow> (nat \<times> demod) option" where
  "hand_on m j msglen mm s = do {
     (mm, s) \<leftarrow> measure_power m j (msglen * 12 div 5) mm s;
     s \<leftarrow> (if j > dm_last_end s then feed_adaptive m (dm_last_end s) (j - dm_last_end s) None s else Some s);
     let last_end = j + (msglen + 8) * 12 div 5;
     s \<leftarrow> feed_adaptive m j (last_end - j) (Some mm) (s\<lparr>dm_last_end := last_end\<rparr>);
     Some (last_end - 8 * 12 div 5, emit (UseModesMessage mm) s) }"

text \<open>The best message is decoded and handed on; the result is where the search goes on.\<close>

definition accept_message :: "demod_env \<Rightarrow> mag_buf \<Rightarrow> nat \<Rightarrow> int \<times> nat \<Rightarrow> demod \<Rightarrow> (nat \<times> demod) option" where
  "accept_message E mag j best s = do {
     b0 \<leftarrow> arr_get (dm_other s) 0;
     let msglen = nat (modesMessageLenByType (ucast (drop_bit 3 b0)));
     (result, mm, f, filtered) \<leftarrow>
       decodeModesMessage (de_mode_s E) (de_score_junk E) (dm_filter s) (start_message mag j best) (dm_other s);
     let s = on_stats (\<lambda>t. t\<lparr>demod_cpr_filtered := demod_cpr_filtered t + of_nat filtered\<rparr>) (s\<lparr>dm_filter := f\<rparr>);
     if result < 0 then Some (j, reject_bad s)
     else count_accepted mm s \<bind> hand_on (data mag) j msglen mm }"

definition demod_at :: "demod_env \<Rightarrow> mag_buf \<Rightarrow> nat \<Rightarrow> demod \<Rightarrow> (nat \<times> demod) option" where
  "demod_at E mag j s = do {
     found \<leftarrow> preamble_at (data mag) j;
     if \<not> found then Some (j, s)
     else do {
       let s = on_stats (\<lambda>t. t\<lparr>demod_preambles := demod_preambles t + 1\<rparr>) s;
       (best, s) \<leftarrow> try_phases E (data mag) j [4, 5, 6, 7, 8] ((score_value SR_NOT_SET, 0), s);
       if fst best < score_value SR_ACCEPT_THRESHOLD then
         Some (j, if fst best \<ge> score_value SR_UNKNOWN_THRESHOLD
                  then on_stats (\<lambda>t. t\<lparr>demod_rejected_unknown_icao := demod_rejected_unknown_icao t + 1\<rparr>) s
                  else reject_bad s)
       else accept_message E mag j best s } }"

text \<open>
  The loop over the buffer. The search never goes back, but the fuel \<open>n\<close> is what makes the recursion
  structural; a run that uses it up is a fault.
\<close>

fun demod_loop :: "demod_env \<Rightarrow> mag_buf \<Rightarrow> nat \<Rightarrow> nat \<Rightarrow> nat \<Rightarrow> demod \<Rightarrow> demod option" where
  "demod_loop E mag mlen 0 j s = (if j < mlen then None else Some s)"
| "demod_loop E mag mlen (Suc n) j s =
     (if j < mlen then do {
        (j, s) \<leftarrow> demod_at E mag j s;
        demod_loop E mag mlen n (j + 1) s }
      else Some s)"

definition mag_len :: "mag_buf \<Rightarrow> nat" where
  "mag_len mag = unat (of_nat (validLength mag) - of_nat (overlap mag) :: u32)"

definition demod_finish :: "mag_buf \<Rightarrow> demod \<Rightarrow> demod option" where
  "demod_finish mag s = do {
     let mlen = mag_len mag;
     let sum_signal_power = f64 (f64 (f64 (of_nat (unat (dm_sum s))) / 65535) / 65535);
     let s = on_stats (\<lambda>t. t\<lparr>noise_power_sum := f64 (noise_power_sum t + f64 (f64 (mean_power mag * of_nat mlen) - sum_signal_power)),
                              noise_power_count := noise_power_count t + of_nat mlen\<rparr>) s;
     if dm_last_end s < mlen
     then map_option (dm_last_end_update (\<lambda>_. 0)) (feed_adaptive (data mag) (dm_last_end s) (mlen - dm_last_end s) None s)
     else Some (s\<lparr>dm_last_end := dm_last_end s - mlen\<rparr>) }"

definition demodulate2400 :: "demod_env \<Rightarrow> mag_buf \<Rightarrow> demod \<Rightarrow> demod option" where
  "demodulate2400 E mag s = do {
     let s = (if dm_short s = 0 then case init_bitsets (de_mode_s E) of (short, long) \<Rightarrow> s\<lparr>dm_short := short, dm_long := long\<rparr> else s);
     let s = (if flags mag AND MAGBUF_DISCONTINUOUS \<noteq> 0 then s\<lparr>dm_last_end := 0\<rparr> else s);
     c_assert (overlap mag \<ge> 19 + 1 + 269);
     let mlen = mag_len mag;
     let s = s\<lparr>dm_msg := fst (de_msg_junk E), dm_other := snd (de_msg_junk E), dm_sum := 0\<rparr>;
     let s = (if dm_last_end s > mlen then s\<lparr>dm_last_end := mlen\<rparr> else s);
     s \<leftarrow> demod_loop E mag mlen mlen (dm_last_end s) s;
     demod_finish mag s }"

subsection \<open>Mode A/C\<close>

definition M_SQRT2 :: rat where "M_SQRT2 = f64 (141421356237309504880 / 100000000000000000000)"

text \<open>A cast of a number that is not negative.\<close>

definition to_unsigned :: "rat \<Rightarrow> u32" where
  "to_unsigned x = word_of_int \<lfloor>x\<rfloor>"

definition noise_level :: "demod_env \<Rightarrow> mag_buf \<Rightarrow> u32" where
  "noise_level E mag =
     (let noise_stddev = de_sqrt E (f64 (mean_power mag - f64 (mean_level mag * mean_level mag)))
      in to_unsigned (f64 (f64 (f64 (mean_power mag + noise_stddev) * 65535) + 1 / 2)))"

text \<open>A framing pulse: a rising edge and a quiet third sample, 6 dB above the noise; the result is its level.\<close>

definition framing_pulse :: "u16 list \<Rightarrow> u32 \<Rightarrow> nat \<Rightarrow> u32 option option" where
  "framing_pulse m noise i = do {
     a \<leftarrow> sample m (i - 1); b \<leftarrow> sample m i; c \<leftarrow> sample m (i + 1); d \<leftarrow> sample m (i + 2);
     let level = (word_of_int ((b + c) div 2) :: u32);
     Some (if \<not> a < b \<or> d > b \<or> d > c \<or> noise * 2 > level then None else Some level) }"

definition pulse_clock :: "u16 list \<Rightarrow> nat \<Rightarrow> u32 option" where
  "pulse_clock m i = do {
     b \<leftarrow> sample m i; c \<leftarrow> sample m (i + 1);
     let f1a_power = f32 (of_int b * of_int b);
     let f1b_power = f32 (of_int c * of_int c);
     c_assert (f32 (f1a_power + f1b_power) \<noteq> 0);
     let fraction = f32 (f1b_power / f32 (f1a_power + f1b_power));
     Some (to_unsigned (f64 (f32 (25 * f32 (f32 (of_nat i) + f32 (fraction * fraction))) + 1 / 2))) }"

record ac_bits =
  ab_bits :: u32
  ab_noisy :: u32
  ab_uncertain :: u32

fun ac_loop :: "u16 list \<Rightarrow> u32 \<Rightarrow> u32 \<Rightarrow> nat \<Rightarrow> nat \<Rightarrow> ac_bits \<Rightarrow> ac_bits option" where
  "ac_loop m signal noise 0 clock r = Some r"
| "ac_loop m signal noise (Suc n) clock r = do {
     let i = clock div 25;
     a \<leftarrow> arr_get m i; b \<leftarrow> arr_get m (i + 1); c \<leftarrow> arr_get m (i + 2);
     let on = (ucast a \<ge> signal \<or> ucast b \<ge> signal);
     let unsure = (\<not> on \<and> ucast a > noise \<and> ucast b > noise);
     ac_loop m signal noise n (clock + 87)
       \<lparr>ab_bits = push_bit 1 (ab_bits r) OR (if on then 1 else 0),
        ab_noisy = push_bit 1 (ab_noisy r) OR (if ucast c \<ge> signal then 1 else 0),
        ab_uncertain = push_bit 1 (ab_uncertain r) OR (if unsure then 1 else 0)\<rparr> }"

definition ac_word :: "u32 \<Rightarrow> u32" where
  "ac_word bits =
     foldl (OR) 0 (List.map (\<lambda>(b, v). if bits AND b \<noteq> 0 then v else 0)
       [(0x40000, 0x0010), (0x20000, 0x1000), (0x10000, 0x0020), (0x08000, 0x2000), (0x04000, 0x0040),
        (0x02000, 0x4000), (0x00800, 0x0100), (0x00400, 0x0001), (0x00200, 0x0200), (0x00100, 0x0002),
        (0x00080, 0x0400), (0x00040, 0x0004), (0x00004, 0x0080)])"

text \<open>The reply starting at a sample, if there is one: its second framing pulse and the code.\<close>

definition ac_reply_at :: "demod_env \<Rightarrow> mag_buf \<Rightarrow> u32 \<Rightarrow> nat \<Rightarrow> (u32 \<times> u32) option option" where
  "ac_reply_at E mag noise f1_sample = do {
     let m = data mag;
     f1 \<leftarrow> framing_pulse m noise f1_sample;
     case f1 of None \<Rightarrow> Some None
     | Some f1_level \<Rightarrow> do {
         f1_clock \<leftarrow> pulse_clock m f1_sample;
         let f2_clock = f1_clock + 87 * 14;
         let f2_sample = unat f2_clock div 25;
         c_assert (f2_sample < mag_len mag + overlap mag);
         f2 \<leftarrow> framing_pulse m noise f2_sample;
         case f2 of None \<Rightarrow> Some None
         | Some f2_level \<Rightarrow> do {
             let f1f2_level = (if f1_level > f2_level then f1_level else f2_level);
             let midpoint = de_sqrtf E (f32 (of_nat (unat (noise * f1f2_level))));
             let signal_threshold = to_unsigned (f64 (f64 (midpoint * M_SQRT2) + 1 / 2));
             let noise_threshold = to_unsigned (f64 (f64 (midpoint / M_SQRT2) + 1 / 2));
             r \<leftarrow> ac_loop m signal_threshold noise_threshold 20 (unat f1_clock) \<lparr>ab_bits = 0, ab_noisy = 0, ab_uncertain = 0\<rparr>;
             Some (if ab_bits r AND 0x80020 \<noteq> 0x80020 \<or> ab_bits r AND 0x0101B \<noteq> 0 \<or> ab_noisy r \<noteq> 0 \<or> ab_uncertain r \<noteq> 0
                   then None else Some (f2_clock, ac_word (ab_bits r))) } } }"

text \<open>The message structure is zeroed once and used again for every reply.\<close>

fun ac_search :: "demod_env \<Rightarrow> mag_buf \<Rightarrow> u32 \<Rightarrow> nat \<Rightarrow> nat \<Rightarrow> modesMessage \<times> demod \<Rightarrow> (modesMessage \<times> demod) option" where
  "ac_search E mag noise 0 f1_sample r = (if f1_sample < mag_len mag then None else Some r)"
| "ac_search E mag noise (Suc n) f1_sample (mm, s) =
     (if f1_sample < mag_len mag then do {
        reply \<leftarrow> ac_reply_at E mag noise f1_sample;
        case reply of None \<Rightarrow> ac_search E mag noise n (f1_sample + 1) (mm, s)
        | Some (f2_clock, modeac) \<Rightarrow> do {
            let ts = sampleTimestamp mag + ucast (f2_clock div 5);
            let mm = mm\<lparr>timestampMsg := ts,
                       sysTimestampMsg := sysTimestamp mag + receiveclock_ms_elapsed (sampleTimestamp mag) ts\<rparr>;
            let mm = decodeModeAMessage (e_ac (de_mode_s E)) mm modeac;
            let s = emit (UseModesMessage mm) s;
            let s = on_stats (\<lambda>t. t\<lparr>demod_modeac := demod_modeac t + 1\<rparr>) s;
            ac_search E mag noise n (f1_sample + 20 * 87 div 25 + 1) (mm, s) } }
      else Some (mm, s))"

definition demodulate2400AC :: "demod_env \<Rightarrow> mag_buf \<Rightarrow> demod \<Rightarrow> demod option" where
  "demodulate2400AC E mag s =
     map_option snd (ac_search E mag (noise_level E mag) (mag_len mag) 1 (zeroMessage, s))"

end
