(* ===== verification/ModeSCorrect.thy ===== *)
theory ModeSCorrect
  imports ModeS
begin

text \<open>
  What the error correction, the scoring and the decoding of \<open>ModeS\<close> guarantee: a message that
  is reported as corrected has a valid checksum, the score does not depend on uninitialised
  memory, and only messages received without any error put an address into the ICAO filter.
\<close>

subsection \<open>Correcting a message\<close>

definition crc_ready :: "crc_globals \<Rightarrow> bool" where
  "crc_ready g \<longleftrightarrow> (\<exists>fixBits g0. modesChecksumInit fixBits g0 = Some g)"

lemma checksum_prefix:
  assumes "crc_ready g" "bits = 56 \<or> bits = 112" "bits div 8 \<le> length m"
  shows "modesChecksum (crc_table g) m bits = Some (poly_rem (msg_bits (take (bits div 8) m)))"
  using modesChecksum_poly_rem [of "bits div 8" m] assms modesChecksumInit_tables(1)
  by (fastforce simp: crc_ready_def)

lemma crc_ready_fix:
  assumes "crc_ready g" "bits = 56 \<or> bits = 112" "length m = bits div 8"
    "modesChecksum (crc_table g) m bits = Some s" "modesChecksumDiagnose g s bits = Some (Some ei)"
  shows "\<exists>m'. (\<forall>rest. modesChecksumFix (m @ rest) (Some ei) = Some (m' @ rest)) \<and>
           length m' = length m \<and> modesChecksum (crc_table g) m' bits = Some 0 \<and>
           int (card (diff_bits bits m m')) = errors ei \<and> errors ei \<le> 2"
  using assms(1) diagnose_fix [OF _ assms(2-5)] unfolding crc_ready_def by blast

lemma diff_bits_same [simp]: "diff_bits bits m m = {}"
  by (simp add: diff_bits_def)

lemma getbits_prefix:
  assumes "take 7 a = take 7 b" "7 \<le> length a" "7 \<le> length b" "1 \<le> f" "f \<le> l" "l < f + 32" "l \<le> 56"
  shows "getbits a f l = getbits b f l"
proof -
  have "msg_bit a i = msg_bit b i" if "i \<le> 56" for i
  proof -
    have i: "(i - 1) div 8 < 7" using that by auto
    then have "a ! ((i - 1) div 8) = b ! ((i - 1) div 8)"
      using assms(1) nth_take [OF i, of a] nth_take [OF i, of b] by simp
    then show ?thesis by (simp add: msg_bit_def)
  qed
  then show ?thesis
    by (intro bit_word_eqI) (use assms in \<open>auto simp: bit_getbits\<close>)
qed

lemma isShortPIMessage_prefix:
  "take 7 a = take 7 b \<Longrightarrow> 7 \<le> length a \<Longrightarrow> 7 \<le> length b \<Longrightarrow> isShortPIMessage a = isShortPIMessage b"
  using getbits_prefix [of a b 1 5] by (simp add: isShortPIMessage_def Let_def)

text \<open>
  What a correction of \<open>n\<close> bits is: a DF17 or DF18 message with checksum zero, or the first seven
  bytes of a DF11 message whose checksum is zero but for the interrogator bits, that differs from
  what was received in exactly \<open>n\<close> bits.
\<close>

definition long_corrected :: "crc_globals \<Rightarrow> u8 list \<Rightarrow> int \<Rightarrow> u8 list \<Rightarrow> bool" where
  "long_corrected g inp n m \<longleftrightarrow>
     isLongPIMessage m \<and> length m = 14 \<and> modesChecksum (crc_table g) m 112 = Some 0 \<and>
     int (card (diff_bits 112 inp m)) = n \<and> n \<le> 2"

definition short_corrected :: "crc_globals \<Rightarrow> u8 list \<Rightarrow> int \<Rightarrow> u32 \<Rightarrow> u8 list \<Rightarrow> bool" where
  "short_corrected g inp n ss m \<longleftrightarrow>
     modesChecksum (crc_table g) inp 56 = Some ss \<and> isShortPIMessage m \<and> length m = 14 \<and>
     (\<exists>s. modesChecksum (crc_table g) m 56 = Some s \<and> s AND 0xFFFF80 = 0) \<and>
     int (card (diff_bits 56 (take 7 inp) (take 7 m))) = n \<and> n \<le> 1"

lemma diagnose_total: "bits = 56 \<or> bits = 112 \<Longrightarrow> \<exists>ei. modesChecksumDiagnose g s bits = Some ei"
  by (cases "if bits = 56 then bitErrorTable_short g else bitErrorTable_long g")
    (auto simp: modesChecksumDiagnose_def)

text \<open>What the two syndrome checks establish.\<close>

definition check_ok :: "crc_globals \<Rightarrow> nat \<Rightarrow> (u32 \<Rightarrow> bool) \<Rightarrow> (u8 list \<Rightarrow> bool) \<Rightarrow> u8 list \<Rightarrow> check \<Rightarrow> bool" where
  "check_ok g bits good shape inp c \<longleftrightarrow>
     (case c of (s, ok, ei) \<Rightarrow>
        (ok \<longrightarrow> shape inp \<and> modesChecksum (crc_table g) inp bits = Some s \<and> good s) \<and>
        (\<forall>e. ei = Some e \<longrightarrow>
           modesChecksum (crc_table g) inp bits = Some s \<and> modesChecksumDiagnose g s bits = Some (Some e)))"

lemma check_long_total:
  assumes "crc_ready (e_crc env)" "k \<le> 2" "length inp = 14"
  shows "\<exists>c. check_long env k inp = Some c \<and> check_ok (e_crc env) 112 (\<lambda>s. s = 0) isLongPIMessage inp c"
proof -
  have k: "k < length df_correctable_long" using assms(2) by (simp add: df_correctable_long_def)
  obtain s where s: "modesChecksum (crc_table (e_crc env)) inp 112 = Some s"
    using checksum_prefix [OF assms(1), of 112 inp] assms(3) by simp
  obtain ei where ei: "modesChecksumDiagnose (e_crc env) s 112 = Some ei"
    using diagnose_total by blast
  show ?thesis
    using s ei k by (auto simp: check_long_def check_ok_def MODES_LONG_MSG_BITS_def)
qed

lemma check_short_total:
  assumes "crc_ready (e_crc env)" "k \<le> 2" "length inp = 14"
  shows "\<exists>c. check_short env k inp = Some c \<and> check_ok (e_crc env) 56 (\<lambda>s. s AND 0xFFFF80 = 0) isShortPIMessage inp c"
proof -
  have k: "k < length df_correctable_short" using assms(2) by (simp add: df_correctable_short_def)
  obtain s where s: "modesChecksum (crc_table (e_crc env)) inp 56 = Some s"
    using checksum_prefix [OF assms(1), of 56 inp] assms(3) by simp
  obtain ei where ei: "modesChecksumDiagnose (e_crc env) s 56 = Some ei"
    using diagnose_total by blast
  show ?thesis
    using s ei k by (auto simp: check_short_def check_ok_def MODES_SHORT_MSG_BITS_def)
qed

text \<open>The two attempts: on success they return a correction.\<close>

lemma try_long_total:
  assumes "crc_ready g" "length inp = 14" "check_ok g 112 k isLongPIMessage inp (s, ok, Some e)"
  shows "\<exists>m. try_long inp (Some e) = Some (isLongPIMessage m, m) \<and> length m = 14 \<and>
           (isLongPIMessage m \<longrightarrow> long_corrected g inp (errors e) m)"
proof -
  have "modesChecksum (crc_table g) inp 112 = Some s" "modesChecksumDiagnose g s 112 = Some (Some e)"
    using assms(3) by (simp_all add: check_ok_def)
  from crc_ready_fix [OF assms(1) _ _ this] assms(2) obtain m where
    "\<forall>rest. modesChecksumFix (inp @ rest) (Some e) = Some (m @ rest)" "length m = 14" "modesChecksum (crc_table g) m 112 = Some 0"
    "int (card (diff_bits 112 inp m)) = errors e" "errors e \<le> 2" by auto
  moreover from this(1) have "modesChecksumFix inp (Some e) = Some m" by (metis append_Nil2)
  ultimately show ?thesis using assms(2) by (simp add: try_long_def long_corrected_def)
qed

lemma try_short_total:
  assumes "crc_ready g" "length inp = 14" "check_ok g 56 k isShortPIMessage inp (s, ok, Some e)"
  shows "\<exists>m. length m = 7 \<and> (\<forall>out. length out = 14 \<longrightarrow>
           try_short inp out (Some e) = Some (isShortPIMessage m, m @ drop 7 out) \<and>
           (isShortPIMessage m \<longrightarrow> errors e = 1 \<longrightarrow> short_corrected g inp (errors e) s (m @ drop 7 out)))"
proof -
  let ?i = "take 7 inp"
  have raw: "modesChecksum (crc_table g) inp 56 = Some s" and d: "modesChecksumDiagnose g s 56 = Some (Some e)"
    using assms(3) by (simp_all add: check_ok_def)
  then have s: "modesChecksum (crc_table g) ?i 56 = Some s"
    using checksum_prefix [OF assms(1), of 56 inp] checksum_prefix [OF assms(1), of 56 ?i] assms(2) by simp
  obtain m where m: "length m = 7" "modesChecksum (crc_table g) m 56 = Some 0"
    "int (card (diff_bits 56 ?i m)) = errors e"
    and fx: "modesChecksumFix (?i @ rest) (Some e) = Some (m @ rest)" for rest
    using crc_ready_fix [OF assms(1) _ _ s d] assms(2) by auto
  have sum: "modesChecksum (crc_table g) (m @ rest) 56 = Some 0" for rest
    using m(1,2) checksum_prefix [OF assms(1), of 56 "m @ rest"] checksum_prefix [OF assms(1), of 56 m] by simp
  have shape: "isShortPIMessage (m @ rest) = isShortPIMessage m" for rest
    by (rule isShortPIMessage_prefix) (use m(1) in simp_all)
  show ?thesis
    by (rule exI [where x = m])
      (use m assms(2) in \<open>simp add: try_short_def copy_short_def raw fx shape sum short_corrected_def\<close>)
qed

text \<open>
  The outcome of \<open>correctMessage\<close>, for every output buffer: the same number of corrections and
  syndromes, and either the same 14 bytes or the same 7 bytes of a short message.
\<close>

definition sound_outcome :: "crc_globals \<Rightarrow> u8 list \<Rightarrow> int \<Rightarrow> u32 \<Rightarrow> u8 list \<Rightarrow> bool" where
  "sound_outcome g inp n ss m \<longleftrightarrow> n = -1 \<and> m = inp \<or> long_corrected g inp n m \<or> short_corrected g inp n ss m"

definition uniform :: "crc_globals \<Rightarrow> u8 list \<Rightarrow> (u8 list \<Rightarrow> corrected option) \<Rightarrow> bool" where
  "uniform g inp run \<longleftrightarrow>
     (\<exists>n m ss sl. sound_outcome g inp n ss m \<and> length m = 14 \<and> (\<forall>out. length out = 14 \<longrightarrow> run out = Some (n, m, ss, sl))) \<or>
     (\<exists>n m ss sl. length m = 7 \<and> isShortPIMessage m \<and> (\<forall>out. length out = 14 \<longrightarrow>
        run out = Some (n, m @ drop 7 out, ss, sl) \<and> short_corrected g inp n ss (m @ drop 7 out)))"

lemma uniform_same:
  "sound_outcome g inp n ss m \<Longrightarrow> length m = 14 \<Longrightarrow> (\<And>out. length out = 14 \<Longrightarrow> run out = Some (n, m, ss, sl)) \<Longrightarrow>
     uniform g inp run"
  unfolding uniform_def by blast

lemma uniform_long:
  "long_corrected g inp n m \<Longrightarrow> (\<And>out. length out = 14 \<Longrightarrow> run out = Some (n, m, ss, sl)) \<Longrightarrow> uniform g inp run"
  by (rule uniform_same) (auto simp: long_corrected_def sound_outcome_def)

lemma uniform_short:
  assumes "length m = 7" "isShortPIMessage m"
    "\<And>out. length out = 14 \<Longrightarrow> run out = Some (n, m @ drop 7 out, ss, sl)"
    "\<And>out. length out = 14 \<Longrightarrow> short_corrected g inp n ss (m @ drop 7 out)"
  shows "uniform g inp run"
  unfolding uniform_def by (rule disjI2) (use assms in blast)

lemma uniform_fail:
  "length inp = 14 \<Longrightarrow> (\<And>out. length out = 14 \<Longrightarrow> run out = Some (-1, inp, ss, sl)) \<Longrightarrow> uniform g inp run"
  unfolding uniform_def sound_outcome_def by blast

lemma apply_corrections_uniform:
  assumes g: "crc_ready g" and inp: "length inp = 14"
    and long: "check_ok g 112 k isLongPIMessage inp (sl, lok, lei)"
    and short: "check_ok g 56 j isShortPIMessage inp (ss, sok, sei)"
  shows "uniform g inp (\<lambda>out. apply_corrections inp out (ss, sok, sei) (sl, lok, lei))"
proof -
  obtain lm where lm: "lei \<noteq> None \<Longrightarrow> try_long inp lei = Some (isLongPIMessage lm, lm) \<and> length lm = 14 \<and>
      (isLongPIMessage lm \<longrightarrow> long_corrected g inp (ei_errors lei) lm)"
    using try_long_total [OF g inp] long by (cases lei) (auto simp: ei_errors_def, blast)
  obtain sm where sm: "sei \<noteq> None \<Longrightarrow> length sm = 7 \<and> (\<forall>out. length out = 14 \<longrightarrow>
      try_short inp out sei = Some (isShortPIMessage sm, sm @ drop 7 out) \<and>
      (isShortPIMessage sm \<longrightarrow> ei_errors sei = 1 \<longrightarrow> short_corrected g inp (ei_errors sei) ss (sm @ drop 7 out)))"
    using try_short_total [OF g inp] short by (cases sei) (auto simp: ei_errors_def, blast)
  consider
      (long) "lei \<noteq> None" "isLongPIMessage lm" "ei_errors lei \<le> ei_errors sei \<or> \<not> (sei \<noteq> None \<and> ei_errors sei = 1 \<and> isShortPIMessage sm)"
    | (short) "sei \<noteq> None" "ei_errors sei = 1" "isShortPIMessage sm" "\<not> (lei \<noteq> None \<and> isLongPIMessage lm \<and> ei_errors lei \<le> ei_errors sei)"
    | (fail) "\<not> (lei \<noteq> None \<and> isLongPIMessage lm)" "\<not> (sei \<noteq> None \<and> ei_errors sei = 1 \<and> isShortPIMessage sm)"
    by blast
  then show ?thesis
  proof cases
    case long
    then show ?thesis
      by (intro uniform_long [of g inp "ei_errors lei" lm]) (use lm sm in \<open>auto simp: apply_corrections_def Let_def\<close>)
  next
    case short
    show ?thesis
    proof (cases "lei \<noteq> None \<and> ei_errors lei \<le> ei_errors sei")
      case True
      then show ?thesis
        by (intro uniform_same [of g inp "ei_errors sei" ss "sm @ drop 7 lm"])
          (use short lm sm in \<open>auto simp: apply_corrections_def Let_def sound_outcome_def\<close>)
    next
      case False
      then show ?thesis
        by (intro uniform_short [of sm _ "ei_errors sei"])
          (use short lm sm in \<open>auto simp: apply_corrections_def Let_def\<close>)
    qed
  next
    case fail
    then show ?thesis
      by (intro uniform_fail) (use inp lm sm in \<open>auto simp: apply_corrections_def Let_def\<close>)
  qed
qed

lemma correctMessage_uniform:
  assumes "crc_ready (e_crc env)" "e_nfix_crc env \<le> 2" "length inp = 14"
  shows "uniform (e_crc env) inp (correctMessage env inp)"
proof -
  define k where "k = (if e_fix_df env then e_nfix_crc env else 0)"
  have k2: "k \<le> 2" using assms(2) by (simp add: k_def)
  obtain sl lok lei where l: "check_long env k inp = Some (sl, lok, lei)"
      "check_ok (e_crc env) 112 (\<lambda>s. s = 0) isLongPIMessage inp (sl, lok, lei)"
    using check_long_total [OF assms(1) k2 assms(3)] by auto
  obtain ss sok sei where s: "check_short env k inp = Some (ss, sok, sei)"
      "check_ok (e_crc env) 56 (\<lambda>s. s AND 0xFFFF80 = 0) isShortPIMessage inp (ss, sok, sei)"
    using check_short_total [OF assms(1) k2 assms(3)] by auto
  have run: "correctMessage env inp out =
      (if lok then Some (0, inp, UNCHECKED_SYNDROME, sl)
       else if sok then Some (0, copy_short inp out, ss, sl)
       else apply_corrections inp out (ss, sok, sei) (sl, lok, lei))" for out
    using l(1) s(1) assms(3) by (simp add: correctMessage_def Let_def k_def)
  consider (long) lok | (short) "\<not> lok" sok | (fail) "\<not> lok" "\<not> sok" by blast
  then show ?thesis
  proof cases
    case long
    then show ?thesis
      by (intro uniform_long [of _ inp 0 inp])
        (use l(2) assms(3) run in \<open>auto simp: long_corrected_def check_ok_def\<close>)
  next
    case short
    then have shape: "isShortPIMessage inp" "modesChecksum (crc_table (e_crc env)) inp 56 = Some ss" "ss AND 0xFFFF80 = 0"
      using s(2) by (simp_all add: check_ok_def)
    have pre: "isShortPIMessage (take 7 inp @ rest) = isShortPIMessage inp" for rest
      by (rule isShortPIMessage_prefix) (use assms(3) in simp_all)
    have sum: "modesChecksum (crc_table (e_crc env)) (take 7 inp @ rest) 56 = Some ss" for rest
      using shape(2) assms(3) checksum_prefix [OF assms(1), of 56 "take 7 inp @ rest"]
        checksum_prefix [OF assms(1), of 56 inp] by simp
    show ?thesis
      by (intro uniform_short [of "take 7 inp" _ 0])
        (use short shape pre [of "[]"] pre sum assms(3) run in \<open>auto simp: short_corrected_def copy_short_def\<close>)
  next
    case fail
    then have "correctMessage env inp = (\<lambda>out. apply_corrections inp out (ss, sok, sei) (sl, lok, lei))"
      by (simp add: run fun_eq_iff)
    then show ?thesis
      using apply_corrections_uniform [OF assms(1,3) l(2) s(2)] by simp
  qed
qed

subsection \<open>Scoring\<close>

lemma poly_rem_mask: "poly_rem bs AND 0xffffff = poly_rem bs"
proof (induction bs rule: rev_induct)
  case (snoc b bs)
  have "of_bool b AND 0xffffff = (of_bool b :: u32)" by (cases b) simp_all
  then show ?case by (simp add: poly_rem_snoc and_xor_distrib_word)
qed (simp add: poly_rem_def)

lemma not_EMPTY: "\<not> bit a 31 \<Longrightarrow> a \<noteq> EMPTY"
proof -
  have "bit EMPTY 31" unfolding EMPTY_def by code_simp
  then show "\<not> bit a 31 \<Longrightarrow> a \<noteq> EMPTY" by auto
qed

lemma crc_not_EMPTY:
  assumes "crc_ready g" "bits = 56 \<or> bits = 112" "length m = 14" "modesChecksum (crc_table g) m bits = Some s"
  shows "s \<noteq> EMPTY"
proof -
  have "s = poly_rem (msg_bits (take (bits div 8) m))"
    using checksum_prefix [OF assms(1,2), of m] assms(2-4) by auto
  then have "s = s AND mask 24" using poly_rem_mask by (simp add: mask24)
  then have "\<not> bit s 31" by (metis bit_and_iff bit_mask_iff less_irrefl_nat order_less_imp_not_less numeral_less_iff semiring_norm(76,78,80,81) possible_bit_word)
  then show ?thesis by (rule not_EMPTY)
qed

lemma getbits_not_EMPTY: "getbits m 9 32 \<noteq> EMPTY" "getbits m 9 32 OR ICAO_FILTER_ADSB_NT \<noteq> EMPTY"
  by (rule not_EMPTY, simp add: bit_getbits bit_or_iff ICAO_FILTER_ADSB_NT_def bit_push_bit_iff)+

lemma syndrome_of_total:
  assumes "crc_ready (e_crc env)" "length m = 14"
  shows "\<exists>s. short_syndrome_of env m ss = Some s \<and> (ss \<noteq> EMPTY \<longrightarrow> s = ss) \<and> s \<noteq> EMPTY"
    and "\<exists>s. long_syndrome_of env m sl = Some s \<and> (sl \<noteq> EMPTY \<longrightarrow> s = sl) \<and> s \<noteq> EMPTY"
proof -
  have u: "UNCHECKED_SYNDROME = EMPTY" by (simp add: UNCHECKED_SYNDROME_def EMPTY_def)
  obtain a b where a: "modesChecksum (crc_table (e_crc env)) m 56 = Some a"
    and b: "modesChecksum (crc_table (e_crc env)) m 112 = Some b"
    using checksum_prefix [OF assms(1), of 56 m] checksum_prefix [OF assms(1), of 112 m] assms(2) by simp
  then have "a \<noteq> EMPTY" "b \<noteq> EMPTY"
    using crc_not_EMPTY [OF assms(1) _ assms(2)] by blast+
  then show "\<exists>s. short_syndrome_of env m ss = Some s \<and> (ss \<noteq> EMPTY \<longrightarrow> s = ss) \<and> s \<noteq> EMPTY"
    "\<exists>s. long_syndrome_of env m sl = Some s \<and> (sl \<noteq> EMPTY \<longrightarrow> s = sl) \<and> s \<noteq> EMPTY"
    using a b by (simp_all add: short_syndrome_of_def long_syndrome_of_def u MODES_SHORT_MSG_BITS_def MODES_LONG_MSG_BITS_def)
qed

lemma score_corrected_total:
  assumes "crc_ready (e_crc env)" "length m = 14" "filter_inv f"
  shows "\<exists>r. score_corrected env f (n, m, ss, sl) = Some r"
proof -
  obtain a b where ab: "short_syndrome_of env m ss = Some a" "long_syndrome_of env m sl = Some b"
    "a \<noteq> EMPTY" "b \<noteq> EMPTY" using syndrome_of_total [OF assms(1,2)] by blast
  have "icaoFilterTest x f = Some (x \<in> members f)" if "x \<noteq> EMPTY" for x
    by (rule icao.test_mem [OF assms(3) that])
  then show ?thesis
    using ab getbits_not_EMPTY [of m] by (simp add: score_corrected_def Let_def)
qed

text \<open>The score reads the corrected message only where every output buffer agrees.\<close>

lemma score_corrected_short:
  assumes "crc_ready (e_crc env)" "isShortPIMessage m" "length m = 7" "length a = 7" "length b = 7"
  shows "score_corrected env f (n, m @ a, ss, sl) = score_corrected env f (n, m @ b, ss, sl)"
proof -
  have eq: "getbits (m @ a) u l = getbits (m @ b) u l" if "1 \<le> u" "u \<le> l" "l < u + 32" "l \<le> 56" for u l
    by (rule getbits_prefix) (use assms that in simp_all)
  have df: "getbits (m @ a) 1 5 = 11" "getbits (m @ b) 1 5 = 11"
    using assms(2,3) isShortPIMessage_prefix [of m "m @ a"] eq [of 1 5]
    by (auto simp: isShortPIMessage_def Let_def)
  have "short_syndrome_of env (m @ a) ss = short_syndrome_of env (m @ b) ss"
    using assms(3) checksum_prefix [OF assms(1), of 56 "m @ a"] checksum_prefix [OF assms(1), of 56 "m @ b"]
    by (simp add: short_syndrome_of_def MODES_SHORT_MSG_BITS_def)
  then show ?thesis using df eq [of 9 32] by (simp add: score_corrected_def)
qed

lemma scoreModesMessage_uniform:
  assumes "crc_ready (e_crc env)" "e_nfix_crc env \<le> 2" "length inp = 14" "filter_inv f"
  shows "\<exists>r. \<forall>junk. length junk = 14 \<longrightarrow> scoreModesMessage env f inp junk = Some r"
proof (cases "take 7 inp = replicate 7 0")
  case True
  then show ?thesis by (simp add: scoreModesMessage_def)
next
  case False
  then have run: "scoreModesMessage env f inp junk = correctMessage env inp junk \<bind> score_corrected env f" for junk
    by (simp add: scoreModesMessage_def)
  from correctMessage_uniform [OF assms(1-3)] consider
    n m ss sl where "length m = 14" "\<forall>out. length out = 14 \<longrightarrow> correctMessage env inp out = Some (n, m, ss, sl)"
  | n m ss sl where "length m = 7" "isShortPIMessage m"
      "\<forall>out. length out = 14 \<longrightarrow> correctMessage env inp out = Some (n, m @ drop 7 out, ss, sl)"
    unfolding uniform_def by blast
  then show ?thesis
  proof cases
    case 1
    then show ?thesis using score_corrected_total [OF assms(1) _ assms(4)] by (simp add: run)
  next
    case 2
    obtain r where "score_corrected env f (n, m @ replicate 7 0, ss, sl) = Some r"
      using score_corrected_total [OF assms(1) _ assms(4), of "m @ replicate 7 0" n ss sl] 2(1) by fastforce
    then have "score_corrected env f (n, m @ drop 7 out, ss, sl) = Some r" if "length out = 14" for out
      using score_corrected_short [OF assms(1) 2(2,1), of "replicate 7 0" "drop 7 out" f n ss sl] that by simp
    then show ?thesis using 2(3) by (simp add: run)
  qed
qed

subsection \<open>Decoding\<close>

text \<open>What the field decoders leave alone: the frame a message came in.\<close>

definition same_frame :: "modesMessage \<Rightarrow> modesMessage \<Rightarrow> bool" where
  "same_frame a b \<longleftrightarrow>
     msg a = msg b \<and> msgtype a = msgtype b \<and> crc a = crc b \<and> correctedbits a = correctedbits b \<and> raw a = raw b
     \<and> verbatim a = verbatim b \<and> score a = score b"

lemma same_frame_refl [simp]: "same_frame mm mm"
  by (simp add: same_frame_def)

lemma same_frame_trans: "same_frame a b \<Longrightarrow> same_frame b c \<Longrightarrow> same_frame a c"
  by (simp add: same_frame_def)

lemma frame_parts:
  "same_frame (velocity_ground L mm) mm"
  "same_frame (velocity_air mm) mm"
  "same_frame (vertical_rate mm) mm"
  "same_frame (geometric_delta mm) mm"
  "same_frame (surveillance_status u mm) mm"
  "same_frame (fst (airborne_cpr u mm)) mm"
  "same_frame (airborne_altitude t u mm) mm"
  "same_frame (setIMF mm) mm"
  by (simp_all add: same_frame_def velocity_ground_def velocity_air_def vertical_rate_def geometric_delta_def
      surveillance_status_def airborne_cpr_def airborne_altitude_def setIMF_def Let_def if_do_def split: prod.split)

lemma frame_messages:
  "same_frame (decodeESIdentAndCategory mm) mm"
  "same_frame (decodeESSurfacePosition ci mm) mm"
  "same_frame (decodeESTestMessage mm) mm"
  "same_frame (decodeESAircraftStatus ci mm) mm"
  "same_frame (target_status_v1 mm) mm"
  "same_frame (target_status_v2 mm) mm"
  "same_frame (fst (control_field mm)) mm"
  by (simp_all add: same_frame_def decodeESIdentAndCategory_def decodeESSurfacePosition_def decodeESTestMessage_def
      decodeESAircraftStatus_def target_status_v1_def target_status_v2_def control_field_def non_icao_def setIMF_def
      Let_def if_do_def split: prod.split)

lemma frame_velocity: "same_frame (decodeESAirborneVelocity L ci mm) mm"
  by (simp add: decodeESAirborneVelocity_def Let_def if_do_def)
    (use frame_parts in \<open>simp add: same_frame_def\<close>)

lemma frame_airborne: "same_frame (fst (decodeESAirbornePosition t ci mm)) mm"
  by (simp add: decodeESAirbornePosition_def Let_def if_do_def split_beta)
    (use frame_parts in \<open>simp add: same_frame_def\<close>)

lemma frame_target: "same_frame (decodeESTargetStatus ci mm) mm"
  by (simp add: decodeESTargetStatus_def Let_def if_do_def)
    (use frame_parts frame_messages in \<open>simp add: same_frame_def\<close>)

lemma frame_opstatus: "same_frame (decodeESOperationalStatus ci mm) mm"
  by (simp add: decodeESOperationalStatus_def Let_def if_do_def)
    (use frame_parts in \<open>simp add: same_frame_def\<close>)

lemma frame_metype: "same_frame (fst (decode_metype L t ci mm)) mm"
  using frame_messages frame_velocity frame_airborne frame_target frame_opstatus
  by (simp add: decode_metype_def Let_def) (simp add: same_frame_def)

lemma frame_squitter: "same_frame (fst (decodeExtendedSquitter L t mm)) mm"
proof -
  let ?m = "mm\<lparr>metype := getbits (ME (raw mm)) 1 5\<rparr>"
  obtain m go where c: "control_field ?m = (m, go)" by (cases "control_field ?m") auto
  have m: "same_frame m ?m" using frame_messages(7) [of ?m] c by simp
  have x: "same_frame ?m mm" by (simp add: same_frame_def)
  show ?thesis
    using c frame_metype [of L t _ m] frame_metype [of L t False ?m] m x
    by (cases go; cases "msgtype mm = 18") (auto simp: decodeExtendedSquitter_def Let_def intro: same_frame_trans)
qed

lemma frame_stores:
  "same_frame (bds40_store b40 mm) mm" "same_frame (bds50_store b50 mm) mm"
  "same_frame (bds60_store b60 mm) mm" "same_frame (bds44_store b44 mm) mm"
  by (simp_all add: same_frame_def bds40_store_def bds50_store_def bds60_store_def bds44_store_def set_some_def
      Let_def split: option.split)

lemma frame_decoders: "\<forall>d \<in> set (comm_b_decoders L). same_frame (snd (d mm store)) mm"
  unfolding comm_b_decoders_def list.set ball_simps
  by (intro conjI)
    (simp_all add: decodeEmptyResponse_def decodeBDS10_def decodeBDS20_def decodeBDS30_def decodeBDS17_def
      decodeBDS40_def decodeBDS50_def decodeBDS60_def decodeBDS44_def decodeBDS05_def frame_stores if_do_def Let_def
      split: option.split prod.split, simp_all add: same_frame_def)

lemma select_decoder_mem:
  "fst (snd (select_decoder ds mm (b, best, amb))) = Some d \<Longrightarrow> d \<in> set ds \<or> best = Some d"
  by (induction ds mm "(b, best, amb)" arbitrary: b best amb rule: select_decoder.induct)
    (auto simp: Let_def split: if_splits)

lemma frame_commb: "same_frame (decodeCommB L mm) mm"
proof -
  have c: "same_frame (mm\<lparr>commb_format := x\<rparr>) mm" for x by (simp add: same_frame_def)
  obtain b best amb where s: "select_decoder (comm_b_decoders L) mm (0, None, False) = (b, best, amb)"
    by (cases "select_decoder (comm_b_decoders L) mm (0, None, False)") auto
  have "d \<in> set (comm_b_decoders L)" if "best = Some d" for d
    using select_decoder_mem [of "comm_b_decoders L" mm 0 None False d] s that by simp
  then show ?thesis
    using frame_decoders [of L mm True] c by (auto simp: decodeCommB_def s split: option.split)
qed

definition same_head :: "modesMessage \<Rightarrow> modesMessage \<Rightarrow> bool" where
  "same_head a b \<longleftrightarrow> msg a = msg b \<and> msgtype a = msgtype b \<and> crc a = crc b \<and>
     correctedbits a = correctedbits b \<and> IID (raw a) = IID (raw b) \<and> verbatim a = verbatim b \<and> score a = score b"

lemma same_head_trans: "same_head a b \<Longrightarrow> same_head b c \<Longrightarrow> same_head a c"
  by (simp add: same_head_def)

lemma frame_head: "same_frame a b \<Longrightarrow> same_head b c \<Longrightarrow> same_head a c"
  by (simp add: same_frame_def same_head_def)

lemma head_parts:
  "same_head (decode_AA m mm) mm" "same_head (decode_AC t m mm) mm" "same_head (decode_CA m mm) mm"
  "same_head (decode_CC_CF_DR m mm) mm" "same_head (decode_FS m mm) mm" "same_head (decode_ID_KE m mm) mm"
  "same_head (decode_tail m mm) mm"
  by (simp_all add: same_head_def decode_AA_def decode_AC_def decode_CA_def decode_CC_CF_DR_def decode_FS_def
      decode_ID_KE_def decode_tail_def flight_status_def set_raw_def Let_def if_do_def split: prod.split)

lemma head_MB_MD: "same_head (decode_MB_MD L m mm) mm"
proof -
  have "same_head (decodeCommB L (set_raw g mm)) mm" if "\<And>r. IID (g r) = IID r" for g
    by (rule frame_head [OF frame_commb]) (simp add: same_head_def set_raw_def that)
  then show ?thesis
    by (simp add: decode_MB_MD_def Let_def if_do_def) (simp add: same_head_def set_raw_def)
qed

lemma head_ME: "same_head (fst (decode_ME L t m mm)) mm"
proof -
  have "same_head (fst (decodeExtendedSquitter L t (set_raw g mm))) mm" if "\<And>r. IID (g r) = IID r" for g
    by (rule frame_head [OF frame_squitter]) (simp add: same_head_def set_raw_def that)
  then show ?thesis by (simp add: decode_ME_def) (simp add: same_head_def)
qed

lemma head_bulk: "same_head (fst (decode_bulk L t m mm)) mm"
  using head_parts head_MB_MD head_ME unfolding same_head_def
  by (simp add: decode_bulk_def Let_def split_beta)

text \<open>The announced address of a DF11 or DF17 message survives the decoding.\<close>

lemma addr_parts [simp]:
  "addr (decode_AC t m mm) = addr mm" "addr (decode_CA m mm) = addr mm"
  "addr (decode_CC_CF_DR m mm) = addr mm" "addr (decode_FS m mm) = addr mm" "addr (decode_ID_KE m mm) = addr mm"
  "addr (decode_tail m mm) = addr mm"
  by (simp_all add: decode_AC_def decode_CA_def decode_CC_CF_DR_def decode_FS_def
      decode_ID_KE_def decode_tail_def flight_status_def set_raw_def Let_def if_do_def split: prod.split)

lemma addr_ME: "msgtype mm \<noteq> 18 \<Longrightarrow> addr (fst (decode_ME L t m mm)) = addr mm"
proof -
  have "addr (fst (decode_metype L t False x)) = addr x" for x
    using imf_metype [of False x L t] by (simp add: imf_step_def same_address_def)
  then show "msgtype mm \<noteq> 18 \<Longrightarrow> ?thesis"
    by (simp add: decode_ME_def decodeExtendedSquitter_def set_raw_def)
qed

lemma addr_bulk:
  assumes "msgtype mm = 11 \<or> msgtype mm = 17"
  shows "addr (fst (decode_bulk L t m mm)) = getbits m 9 32"
proof -
  let ?a = "decode_ID_KE m (decode_FS m (decode_CC_CF_DR m (decode_CA m (decode_AC t m (decode_AA m mm)))))"
  have ty: "msgtype ?a = msgtype mm" using head_parts unfolding same_head_def by simp
  then have "decode_MB_MD L m ?a = ?a" using assms by (auto simp: decode_MB_MD_def Let_def if_do_def)
  then have "addr (fst (decode_bulk L t m mm)) = addr ?a"
    using addr_ME [of ?a L t m] ty assms by (auto simp: decode_bulk_def Let_def split_beta)
  also have "\<dots> = addr (decode_AA m mm)" by simp
  also have "\<dots> = getbits m 9 32" using assms by (auto simp: decode_AA_def set_raw_def Let_def)
  finally show ?thesis .
qed

text \<open>A correction of no bits is the received message.\<close>

lemma byte_bits_inj: "byte_bits a = byte_bits b \<Longrightarrow> a = b"
proof (rule bit_word_eqI)
  fix n assume eq: "byte_bits a = byte_bits b" and "n < LENGTH(8)"
  then have "n \<in> {0, 1, 2, 3, 4, 5, 6, 7}" by auto
  then show "bit a n = bit b n" using eq by (auto simp: byte_bits_def)
qed

lemma msg_bits_inj: "msg_bits a = msg_bits b \<Longrightarrow> length a = length b \<Longrightarrow> a = b"
  by (induction a arbitrary: b) (auto simp: msg_bits_def Suc_length_conv length_Suc_conv dest: byte_bits_inj)

lemma no_diff_bits:
  assumes "card (diff_bits bits a b) = 0" "length a = bits div 8" "length b = bits div 8" "bits = 8 * (bits div 8)"
  shows "a = b"
proof (rule msg_bits_inj)
  have "finite (diff_bits bits a b)" by (simp add: diff_bits_def)
  then have none: "diff_bits bits a b = {}" using assms(1) by simp
  show "msg_bits a = msg_bits b"
    by (rule nth_equalityI) (use none assms in \<open>auto simp: diff_bits_def\<close>)
qed (use assms in simp)

lemma correctMessage_outcome:
  assumes "crc_ready (e_crc env)" "e_nfix_crc env \<le> 2" "length inp = 14" "length out = 14"
  obtains n m ss sl where "correctMessage env inp out = Some (n, m, ss, sl)" "sound_outcome (e_crc env) inp n ss m"
    "length m = 14"
  using correctMessage_uniform [OF assms(1-3)] assms(4)
  by (auto simp: uniform_def sound_outcome_def)

text \<open>A clean reception: nothing was corrected, and the received bytes have checksum zero.\<close>

definition clean :: "crc_globals \<Rightarrow> u8 list \<Rightarrow> bool" where
  "clean g inp \<longleftrightarrow> isLongPIMessage inp \<and> modesChecksum (crc_table g) inp 112 = Some 0 \<or>
     isShortPIMessage inp \<and> modesChecksum (crc_table g) inp 56 = Some 0"

lemma uncorrectable_score:
  assumes "getbits m 1 5 \<in> {11, 17, 18}" "score_corrected env f (-1, m, ss, sl) = Some r"
  shows "r = SR_UNCORRECTABLE"
proof -
  have "score_df11 (-1) i k = SR_UNCORRECTABLE" "score_df17 (-1) k = SR_UNCORRECTABLE"
    "score_df18 (-1) k = SR_UNCORRECTABLE" for i k
    by (simp_all add: score_df11_def score_df17_def score_df18_def)
  then show ?thesis
    using assms by (auto simp: score_corrected_def elim!: bind_eq_SomeE)
qed

lemma score_values [simp]:
  "score_value SR_UNCORRECTABLE = 3" "score_value SR_ALL_ZEROS = 1" "score_value SR_NOT_SET = 0"
  "score_value SR_UNKNOWN_THRESHOLD = 4" "score_value SR_ACCEPT_THRESHOLD = 11"
  by (simp_all add: score_value_def score_ranks_def)

lemma zero_correction_clean:
  assumes g: "crc_ready g" and len: "length inp = 14" "length m = 14" and out: "sound_outcome g inp 0 ss m"
    and iid: "getbits m 1 5 = 11 \<Longrightarrow> ss AND 0x7f = 0"
  shows "clean g inp \<and> getbits inp 1 5 = getbits m 1 5 \<and> getbits inp 9 32 = getbits m 9 32"
proof -
  consider "long_corrected g inp 0 m" | "short_corrected g inp 0 ss m"
    using out by (auto simp: sound_outcome_def)
  then show ?thesis
  proof cases
    case 1
    then have "inp = m" by (intro no_diff_bits [of 112]) (use len in \<open>auto simp: long_corrected_def\<close>)
    then show ?thesis using 1 by (auto simp: long_corrected_def clean_def)
  next
    case 2
    have same: "take 7 inp = take 7 m"
      by (rule no_diff_bits [of 56]) (use 2 len in \<open>auto simp: short_corrected_def\<close>)
    then have eq: "getbits inp 1 5 = getbits m 1 5" "getbits inp 9 32 = getbits m 9 32"
      by (auto intro: getbits_prefix simp: len)
    have df: "getbits m 1 5 = 11" using 2 by (simp add: short_corrected_def isShortPIMessage_def Let_def)
    have ss: "modesChecksum (crc_table g) inp 56 = Some ss" "modesChecksum (crc_table g) m 56 = Some ss"
      using 2 checksum_prefix [OF g, of 56 inp] checksum_prefix [OF g, of 56 m] same len
      by (simp_all add: short_corrected_def)
    then have hi: "ss AND 0xFFFF80 = 0" using 2 by (auto simp: short_corrected_def)
    have "ss = ss AND 0xFFFFFF"
      using ss(1) checksum_prefix [OF g, of 56 inp] len poly_rem_mask by auto
    also have "(0xFFFFFF :: u32) = 0xFFFF80 OR 0x7f" by simp
    also have "ss AND (0xFFFF80 OR 0x7f) = (ss AND 0xFFFF80) OR (ss AND 0x7f)" by (rule bit.conj_disj_distrib)
    also have "\<dots> = 0" using hi iid [OF df] by simp
    finally have "ss = 0" .
    then show ?thesis using ss eq df by (simp add: clean_def isShortPIMessage_def)
  qed
qed

lemma remember_address_changed:
  assumes "remember_address mm f = Some f'" "f' \<noteq> f"
  shows "correctedbits mm = 0 \<and>
    ((msgtype mm = 17 \<or> msgtype mm = 11 \<and> IID (raw mm) = 0) \<and> icaoFilterAdd (addr mm) f = Some f' \<or>
     msgtype mm = 18 \<and> icaoFilterAdd (addr mm OR ICAO_FILTER_ADSB_NT) f = Some f')"
  using assms by (auto simp: remember_address_def split: if_splits)

lemma frame_fields_Some:
  assumes "frame_fields env (n, m, ss, sl) mm = Some mm1" "crc_fields mm1 = Some mm2"
    "msgtype mm2 \<in> {11, 17, 18}"
  shows "msg mm2 = m \<and> msgtype mm2 = uint (getbits m 1 5) \<and> correctedbits mm2 = (if n > 0 then n else 0) \<and>
    (msgtype mm2 = 11 \<longrightarrow> short_syndrome_of env m ss = Some (crc mm2) \<and> IID (raw mm2) = crc mm2 AND 0x7f)"
proof -
  obtain c where c: "(if getbits m 1 5 AND 16 \<noteq> 0 then long_syndrome_of env m sl else short_syndrome_of env m ss) = Some c"
    and mm1: "mm1 = mm\<lparr>msg := m, msgtype := uint (getbits m 1 5), msgbits := modesMessageLenByType (getbits m 1 5),
      crc := c, correctedbits := (if n > 0 then n else 0), addr := 0\<rparr>"
    using assms(1) by (auto simp: frame_fields_def Let_def elim!: bind_eq_SomeE)
  have ty: "msgtype mm2 = msgtype mm1 \<and> msg mm2 = msg mm1 \<and> correctedbits mm2 = correctedbits mm1 \<and> crc mm2 = crc mm1 \<and>
      (msgtype mm1 = 11 \<longrightarrow> IID (raw mm2) = crc mm1 AND 0x7f)"
    using assms(2,3) by (auto simp: crc_fields_def set_raw_def Let_def split: if_splits)
  have "getbits m 1 5 AND 16 = 0" if "uint (getbits m 1 5) = 11"
  proof -
    have "getbits m 1 5 = 11" using that by (intro word_uint_eqI) simp
    then show ?thesis by simp
  qed
  then show ?thesis using ty c by (auto simp: mm1)
qed

text \<open>
  A message comes to the decoder without a score, from the network, or with the score it was given
  when it was demodulated.
\<close>

definition honest_score :: "mode_s_env \<Rightarrow> icao_filter \<Rightarrow> u8 list \<Rightarrow> modesMessage \<Rightarrow> bool" where
  "honest_score env f inp mm \<longleftrightarrow> score mm = score_value SR_NOT_SET
     \<or> (\<exists>out sr. length out = 14 \<and> scoreModesMessage env f inp out = Some sr \<and> score mm = score_value sr)"

text \<open>What an accepted message that changes the filter was.\<close>

lemma decode_filter_change:
  assumes g: "crc_ready (e_crc env)" "e_nfix_crc env \<le> 2" and inp: "length inp = 14" "length (msg mm) = 14" "length junk = 14"
    and f: "filter_inv f" and score: "honest_score env f inp mm"
    and run: "decodeModesMessage env junk f mm inp = Some (r, mm', f', k)" "f' \<noteq> f"
  shows "r = 0 \<and> clean (e_crc env) inp \<and>
    icaoFilterAdd (if getbits inp 1 5 = 18 then addr mm' OR ICAO_FILTER_ADSB_NT else getbits inp 9 32) f = Some f'"
proof -
  obtain sr where sr: "scoreModesMessage env f inp junk = Some sr" "scoreModesMessage env f inp (msg mm) = Some sr"
    using scoreModesMessage_uniform [OF g inp(1) f] inp by blast
  have sm: "score mm = score_value SR_NOT_SET \<or> score mm = score_value sr"
    using score scoreModesMessage_uniform [OF g inp(1) f] sr(1) inp(3) unfolding honest_score_def by fastforce
  obtain n m ss sl where c: "correctMessage env inp (msg mm) = Some (n, m, ss, sl)"
    "sound_outcome (e_crc env) inp n ss m" "length m = 14"
    by (rule correctMessage_outcome [OF g inp(1,2)])
  have s: "(if score mm = score_value SR_NOT_SET then map_option score_value (scoreModesMessage env f inp junk)
      else Some (score mm)) = Some (score_value sr)" using sm sr(1) by auto
  from run have acc: "11 \<le> score_value sr"
    unfolding decodeModesMessage_def s by (auto simp: Let_def split: if_splits)
  then have sc: "score_corrected env f (n, m, ss, sl) = Some sr"
    using sr(2) c(1) by (auto simp: scoreModesMessage_def split: if_splits)
  obtain mm1 mm2 where fr: "frame_fields env (n, m, ss, sl) (mm\<lparr>score := score_value sr, verbatim := take 14 inp\<rparr>) = Some mm1"
    and cf: "crc_fields mm1 = Some mm2"
    and rem: "remember_address (fst (decode_bulk (e_libm env) (e_ac env) (msg mm2) mm2)) f = Some f'"
    and res: "r = 0" "addr mm' = addr (fst (decode_bulk (e_libm env) (e_ac env) (msg mm2) mm2))"
    using run c(1) unfolding decodeModesMessage_def s
    by (auto simp: Let_def split_beta if_do_def split: if_splits option.splits elim!: bind_eq_SomeE)
  define mm3 where "mm3 = fst (decode_bulk (e_libm env) (e_ac env) (msg mm2) mm2)"
  have head: "same_head mm3 mm2" by (simp add: mm3_def head_bulk)
  note ch = remember_address_changed [OF rem run(2), folded mm3_def]
  have ty: "msgtype mm2 \<in> {11, 17, 18}" using ch head by (auto simp: same_head_def)
  note mm2 = frame_fields_Some [OF fr cf ty]
  have df: "getbits m 1 5 \<in> {11, 17, 18}"
  proof -
    have "uint (getbits m 1 5) \<in> {uint (11 :: u32), uint (17 :: u32), uint (18 :: u32)}" using ty mm2 by simp
    then show ?thesis by (auto intro: word_uint_eqI)
  qed
  have "n \<le> 0" using ch head mm2 by (auto simp: same_head_def split: if_splits)
  moreover have "n \<noteq> -1" using uncorrectable_score [OF df, of env f ss sl sr] sc acc by auto
  ultimately have n: "n = 0" using c(2) by (auto simp: sound_outcome_def long_corrected_def short_corrected_def)
  have iid: "ss AND 0x7f = 0" if d: "getbits m 1 5 = 11"
  proof -
    have t: "msgtype mm2 = 11" using mm2 d by simp
    then have crc: "short_syndrome_of env m ss = Some (crc mm2)" "IID (raw mm2) = crc mm2 AND 0x7f"
      using mm2 by simp_all
    have "short_corrected (e_crc env) inp 0 ss m"
      using c(2) d by (auto simp: sound_outcome_def long_corrected_def isLongPIMessage_def n)
    then have "ss \<noteq> EMPTY"
      using crc_not_EMPTY [OF g(1) _ inp(1), of 56 ss] by (simp add: short_corrected_def)
    then have "crc mm2 = ss" using syndrome_of_total(1) [OF g(1) c(3), of ss] crc(1) by auto
    moreover have "IID (raw mm2) = 0" using ch head t by (auto simp: same_head_def)
    ultimately show ?thesis using crc(2) by simp
  qed
  from zero_correction_clean [OF g(1) inp(1) c(3) _ iid] c(2) n
  have clean: "clean (e_crc env) inp" "getbits inp 1 5 = getbits m 1 5" "getbits inp 9 32 = getbits m 9 32" by auto
  have t3: "msgtype mm3 = uint (getbits m 1 5)" using head mm2 by (simp add: same_head_def)
  show ?thesis
  proof (cases "getbits m 1 5 = 18")
    case True
    then show ?thesis using ch t3 res clean by (auto simp: mm3_def)
  next
    case False
    then have "msgtype mm2 = 11 \<or> msgtype mm2 = 17" using df mm2 by auto
    then have "addr mm3 = getbits m 9 32" using addr_bulk [of mm2 _ _ m] mm2 by (simp add: mm3_def)
    moreover have "msgtype mm3 \<noteq> 18" using \<open>msgtype mm2 = 11 \<or> msgtype mm2 = 17\<close> head by (auto simp: same_head_def)
    ultimately show ?thesis using ch res(1) clean False by auto
  qed
qed

text \<open>Every address the decoder stores is a value the filter can hold.\<close>

lemma addr_metype: "addr (mm\<lparr>metype := x\<rparr>) = addr mm"
  by simp

lemma addr_control_field:
  "addr (fst (control_field x)) \<in> {addr x, addr x OR MODES_NON_ICAO_ADDRESS}"
proof -
  define a where "a = addr x OR MODES_NON_ICAO_ADDRESS"
  have s: "addr (setIMF y) = addr y OR MODES_NON_ICAO_ADDRESS" "addr (non_icao y) = addr y OR MODES_NON_ICAO_ADDRESS" for y
    by (simp_all add: setIMF_def non_icao_def)
  show ?thesis
    unfolding control_field_def Let_def if_do_def
    by (simp add: s flip: a_def)
qed

lemma addr_squitter_31:
  assumes "\<not> bit (addr mm) 31"
  shows "\<not> bit (addr (fst (decodeExtendedSquitter L t mm))) 31"
proof -
  have n: "\<not> bit (a OR MODES_NON_ICAO_ADDRESS) 31" if "\<not> bit a 31" for a :: u32
    using that by (simp add: MODES_NON_ICAO_ADDRESS_def bit_or_iff bit_push_bit_iff)
  have keep: "\<not> bit (addr (fst (decode_metype L t ci x))) 31" if "\<not> bit (addr x) 31" for ci x
  proof -
    have "addr (setIMF x) = addr x OR MODES_NON_ICAO_ADDRESS" by (simp add: setIMF_def)
    then show ?thesis
      using imf_metype [of ci x L t] n [OF that] that unfolding imf_step_def same_address_def by auto
  qed
  let ?m = "mm\<lparr>metype := getbits (ME (raw mm)) 1 5\<rparr>"
  obtain m go where c: "control_field ?m = (m, go)" by (cases "control_field ?m") auto
  have m: "\<not> bit (addr m) 31"
  proof -
    have "addr m \<in> {addr mm, addr mm OR MODES_NON_ICAO_ADDRESS}"
      using addr_control_field [of ?m] unfolding c fst_conv addr_metype .
    then show ?thesis using n [OF assms] assms unfolding insert_iff empty_iff by (elim disjE FalseE) simp_all
  qed
  show ?thesis
  proof (cases "msgtype mm = 18")
    case True
    then show ?thesis using keep [OF m] m c by (cases go) (simp_all add: decodeExtendedSquitter_def)
  next
    case False
    then show ?thesis using keep [of ?m] assms by (simp add: decodeExtendedSquitter_def)
  qed
qed

lemma addr_bulk_31:
  assumes "msgtype mm \<in> {11, 17, 18}"
  shows "\<not> bit (addr (fst (decode_bulk L t m mm))) 31"
proof -
  let ?a = "decode_ID_KE m (decode_FS m (decode_CC_CF_DR m (decode_CA m (decode_AC t m (decode_AA m mm)))))"
  have ty: "msgtype ?a = msgtype mm" using head_parts unfolding same_head_def by simp
  then have a: "decode_MB_MD L m ?a = ?a" using assms by (auto simp: decode_MB_MD_def Let_def if_do_def)
  have "addr ?a = addr (decode_AA m mm)" by simp
  also have "\<dots> = getbits m 9 32" using assms by (auto simp: decode_AA_def set_raw_def Let_def)
  finally have "\<not> bit (addr ?a) 31" by (simp add: bit_getbits)
  then have "\<not> bit (addr (fst (decode_ME L t m ?a))) 31"
    using addr_squitter_31 by (simp add: decode_ME_def set_raw_def)
  then show ?thesis by (simp add: decode_bulk_def Let_def split_beta a)
qed

lemma remember_address_total:
  assumes "filter_inv f" "msgtype mm \<in> {11, 17, 18} \<Longrightarrow> \<not> bit (addr mm) 31"
  shows "\<exists>f'. remember_address mm f = Some f' \<and> filter_inv f'"
proof (cases "msgtype mm \<in> {11, 17, 18}")
  case True
  then have "\<not> bit (addr mm) 31" "\<not> bit (addr mm OR ICAO_FILTER_ADSB_NT) 31"
    using assms(2) by (simp_all add: ICAO_FILTER_ADSB_NT_def bit_or_iff bit_push_bit_iff)
  then show ?thesis
    using icao.add_total [OF assms(1), of "addr mm"] icao.add_total [OF assms(1), of "addr mm OR ICAO_FILTER_ADSB_NT"]
      not_EMPTY assms(1) by (auto simp: remember_address_def)
qed (auto simp: remember_address_def assms(1))

lemma decode_total:
  assumes g: "crc_ready (e_crc env)" "e_nfix_crc env \<le> 2" and inp: "length inp = 14" "length (msg mm) = 14" "length junk = 14"
    and f: "filter_inv f"
  shows "\<exists>r mm' f' k. decodeModesMessage env junk f mm inp = Some (r, mm', f', k) \<and> filter_inv f'"
proof -
  obtain sr where sr: "scoreModesMessage env f inp junk = Some sr"
    using scoreModesMessage_uniform [OF g inp(1) f] inp by blast
  obtain n m ss sl where c: "correctMessage env inp (msg mm) = Some (n, m, ss, sl)" "length m = 14"
    by (rule correctMessage_outcome [OF g inp(1,2)])
  have fr: "\<exists>mm1. frame_fields env (n, m, ss, sl) x = Some mm1" for x
    using syndrome_of_total(1) [OF g(1) c(2), of ss] syndrome_of_total(2) [OF g(1) c(2), of sl]
    by (auto simp: frame_fields_def Let_def)
  have rem: "\<exists>f'. remember_address (fst (decode_bulk L t (msg x) x)) f = Some f' \<and> filter_inv f'" for L t x
    by (rule remember_address_total [OF f]) (use addr_bulk_31 head_bulk in \<open>auto simp: same_head_def\<close>)
  define sc where "sc = (if score mm = score_value SR_NOT_SET then score_value sr else score mm)"
  obtain mm1 where mm1: "frame_fields env (n, m, ss, sl) (mm\<lparr>score := sc, verbatim := take 14 inp\<rparr>) = Some mm1"
    using fr by blast
  have s: "(if score mm = score_value SR_NOT_SET then map_option score_value (scoreModesMessage env f inp junk)
            else Some (score mm)) = Some sc" by (simp add: sr sc_def)
  show ?thesis
  proof (cases "crc_fields mm1")
    case None
    then show ?thesis unfolding decodeModesMessage_def s using f c mm1 by (auto simp: Let_def)
  next
    case (Some mm2)
    then show ?thesis unfolding decodeModesMessage_def s using f c mm1 rem [of "e_libm env" "e_ac env" mm2]
      by (auto simp: Let_def split_beta)
  qed
qed

subsection \<open>An empty Comm-B reply\<close>

lemma zero_bits [simp]:
  "i \<le> 56 \<Longrightarrow> getbit (replicate 7 0) i = False"
  "1 \<le> f \<Longrightarrow> f \<le> l \<Longrightarrow> l < f + 32 \<Longrightarrow> l \<le> 56 \<Longrightarrow> getbits (replicate 7 0) f l = 0"
proof -
  have z: "\<not> msg_bit (replicate 7 0) i" if "i \<le> 56" for i
    using that by (auto simp: msg_bit_def)
  show "i \<le> 56 \<Longrightarrow> getbit (replicate 7 0) i = False"
    using z by (simp add: getbit_msg_bit)
  show "1 \<le> f \<Longrightarrow> f \<le> l \<Longrightarrow> l < f + 32 \<Longrightarrow> l \<le> 56 \<Longrightarrow> getbits (replicate 7 0) f l = 0"
    using z by (intro bit_word_eqI) (auto simp: bit_getbits)
qed

lemma commb_empty:
  assumes "MB (raw mm) = replicate 7 0" "DR (raw mm) = 0" "UM (raw mm) = 0" "correctedbits mm = 0"
  shows "commb_format (decodeCommB L mm) = COMMB_EMPTY_RESPONSE"
proof -
  have mb: "MB_of mm = replicate 7 0" using assms(1) by (simp add: MB_of_def)
  have e: "decodeEmptyResponse mm b = (56, if_do b (\<lambda>mm. mm\<lparr>commb_format := COMMB_EMPTY_RESPONSE\<rparr>) mm)" for b
    by (simp add: decodeEmptyResponse_def mb list_all_iff)
  have d10: "decodeBDS10 mm False = (0, mm)" by (simp add: decodeBDS10_def mb)
  have d20: "fst (decodeBDS20 mm False) = 0" by (simp add: decodeBDS20_def bds20_parse_def mb c_simps Let_def)
  have d30: "fst (decodeBDS30 mm False) = 0" by (simp add: decodeBDS30_def mb)
  have d17: "fst (decodeBDS17 mm False) = 0" by (simp add: decodeBDS17_def mb bds17_unlikely_def bds17_es_def bds17_track_def)
  have d40: "fst (decodeBDS40 mm False) = 0" by (simp add: decodeBDS40_def bds40_parse_def mb c_simps Let_def)
  have d50: "fst (decodeBDS50 L mm False) = 0" by (simp add: decodeBDS50_def bds50_parse_def mb c_simps Let_def)
  have d60: "fst (decodeBDS60 mm False) = 0" by (simp add: decodeBDS60_def bds60_parse_def mb c_simps Let_def)
  have d44: "fst (decodeBDS44 mm False) = 0" by (simp add: decodeBDS44_def bds44_parse_def mb c_simps Let_def)
  have d05: "fst (decodeBDS05 mm False) = 0" by (simp add: decodeBDS05_def bds05_recognised_def mb)
  show ?thesis
    using assms e [of True]
    by (simp add: decodeCommB_def comm_b_decoders_def Let_def e [of False] d10 d20 d30 d17 d40 d50 d60 d44 d05 if_do_def)
qed

lemma commb_format_bulk:
  assumes "msgtype mm = 20 \<or> msgtype mm = 21"
  shows "commb_format (fst (decode_bulk L t m mm)) =
      commb_format (decode_MB_MD L m (decode_ID_KE m (decode_FS m (decode_CC_CF_DR m (decode_CA m
                 (decode_AC t m (decode_AA m mm)))))))" (is "_ = commb_format ?b")
    and "UM (raw (fst (decode_bulk L t m mm))) = getbits m 14 19"
proof -
  have ty: "msgtype ?b = msgtype mm" using head_parts head_MB_MD unfolding same_head_def by simp
  then have "decode_ME L t m ?b = (?b, 0)" using assms by (auto simp: decode_ME_def)
  then have b: "fst (decode_bulk L t m mm) = decode_tail m ?b" by (simp add: decode_bulk_def Let_def)
  show "commb_format (fst (decode_bulk L t m mm)) = commb_format ?b"
    unfolding b by (simp add: decode_tail_def set_raw_def Let_def if_do_def)
  show "UM (raw (fst (decode_bulk L t m mm))) = getbits m 14 19"
    unfolding b using ty assms by (auto simp: decode_tail_def set_raw_def Let_def if_do_def)
qed

lemma raw_before_MB:
  fixes t :: mode_ac_tables and m :: "u8 list"
  assumes "msgtype mm = 20 \<or> msgtype mm = 21"
  defines "a \<equiv> decode_ID_KE m (decode_FS m (decode_CC_CF_DR m (decode_CA m (decode_AC t m (decode_AA m mm)))))"
  shows "UM (raw a) = UM (raw mm)" "DR (raw a) = getbits m 9 13" "msgtype a = msgtype mm"
    "correctedbits a = correctedbits mm"
proof -
  have u: "UM (raw (decode_AA m x)) = UM (raw x)" "UM (raw (decode_AC t m x)) = UM (raw x)"
    "UM (raw (decode_CA m x)) = UM (raw x)" "UM (raw (decode_CC_CF_DR m x)) = UM (raw x)"
    "UM (raw (decode_FS m x)) = UM (raw x)" "UM (raw (decode_ID_KE m x)) = UM (raw x)" for x
    by (simp_all add: decode_AA_def decode_AC_def decode_CA_def decode_CC_CF_DR_def decode_FS_def decode_ID_KE_def
        flight_status_def set_raw_def Let_def if_do_def split: prod.split)
  have d: "DR (raw (decode_FS m x)) = DR (raw x)" "DR (raw (decode_ID_KE m x)) = DR (raw x)"
    "msgtype x = 20 \<or> msgtype x = 21 \<Longrightarrow> DR (raw (decode_CC_CF_DR m x)) = getbits m 9 13" for x
    by (auto simp: decode_CC_CF_DR_def decode_FS_def decode_ID_KE_def
        flight_status_def set_raw_def Let_def if_do_def split: prod.split)
  note h = head_parts [unfolded same_head_def]
  show "UM (raw a) = UM (raw mm)" "DR (raw a) = getbits m 9 13" "msgtype a = msgtype mm"
    "correctedbits a = correctedbits mm"
    using assms(1) by (simp_all add: a_def u d h)
qed

subsection \<open>Properties\<close>

definition example_env :: "crc_globals \<Rightarrow> mode_ac_tables \<Rightarrow> libm \<Rightarrow> mode_s_env" where
  "example_env g t L = \<lparr>e_crc = g, e_nfix_crc = 1, e_fix_df = True, e_enable_df24 = False, e_ac = t, e_libm = L\<rparr>"

lemma example_tables: "\<exists>g. modesChecksumInit 1 crc_globals_start = Some g"
  by (simp add: modesChecksumInit_single)

text \<open>
  C22. Error correction is sound: for every received message \<open>correctMessage\<close> ends, and either it
  reports failure and returns the message as received, or it returns a DF17 or DF18 message with
  checksum zero, or a DF11 message whose checksum is zero but for the interrogator bits, that
  differs from what was received in exactly as many bits as reported: two at most, one in a DF11.
\<close>

theorem correctMessage_sound:
  assumes "modesChecksumInit fixBits g0 = Some (e_crc env)" "e_nfix_crc env \<le> 2"
    and "length inp = 14" "length out = 14"
  shows "\<exists>n m ss sl. correctMessage env inp out = Some (n, m, ss, sl) \<and> length m = 14 \<and>
    (n = -1 \<and> m = inp \<or>
     isLongPIMessage m \<and> modesChecksum (crc_table (e_crc env)) m 112 = Some 0 \<and>
       int (card (diff_bits 112 inp m)) = n \<and> n \<le> 2 \<or>
     isShortPIMessage m \<and> (\<exists>s. modesChecksum (crc_table (e_crc env)) m 56 = Some s \<and> s AND 0xFFFF80 = 0) \<and>
       int (card (diff_bits 56 (take 7 inp) (take 7 m))) = n \<and> n \<le> 1)"
proof -
  have g: "crc_ready (e_crc env)" using assms(1) by (auto simp: crc_ready_def)
  obtain n m ss sl where c: "correctMessage env inp out = Some (n, m, ss, sl)" "sound_outcome (e_crc env) inp n ss m"
    "length m = 14" by (rule correctMessage_outcome [OF g assms(2-4)])
  show ?thesis
    by (rule exI [where x = n], rule exI [where x = m], rule exI [where x = ss], rule exI [where x = sl])
      (use c in \<open>auto simp: sound_outcome_def long_corrected_def short_corrected_def\<close>)
qed

theorem correctMessage_sound_witness:
  "\<exists>g. modesChecksumInit 1 crc_globals_start = Some g \<and> (\<forall>t L. \<exists>n m ss sl.
     correctMessage (example_env g t L) (flip_msg_bit 40 df17_example) (replicate 14 0) = Some (n, m, ss, sl) \<and> n \<le> 2)"
proof -
  obtain g where g: "modesChecksumInit 1 crc_globals_start = Some g" using example_tables by blast
  have "\<exists>n m ss sl. correctMessage (example_env g t L) (flip_msg_bit 40 df17_example) (replicate 14 0) =
      Some (n, m, ss, sl) \<and> n \<le> 2" for t L
    using correctMessage_sound [of 1 crc_globals_start "example_env g t L" "flip_msg_bit 40 df17_example" "replicate 14 0"] g
    by (fastforce simp: example_env_def)
  with g show ?thesis by blast
qed

text \<open>
  Scoring is total and does not depend on uninitialised memory: a short correction leaves the
  last seven bytes of the buffer of \<open>scoreModesMessage\<close> unset, and the score is the same whatever
  they hold.
\<close>

theorem scoreModesMessage_total:
  assumes "modesChecksumInit fixBits g0 = Some (e_crc env)" "e_nfix_crc env \<le> 2"
    and "length inp = 14" "filter_inv f"
  shows "\<exists>r. \<forall>junk. scoreModesMessage env f inp junk = Some r \<or> length junk \<noteq> 14"
  using scoreModesMessage_uniform [OF _ assms(2-4)] assms(1) by (auto simp: crc_ready_def)

theorem scoreModesMessage_total_witness:
  "\<exists>g. modesChecksumInit 1 crc_globals_start = Some g \<and> (\<forall>t L. \<exists>r. \<forall>junk.
     scoreModesMessage (example_env g t L) icaoFilterInit df17_example junk = Some r \<or> length junk \<noteq> 14)"
proof -
  obtain g where g: "modesChecksumInit 1 crc_globals_start = Some g" using example_tables by blast
  have "\<exists>r. \<forall>junk. scoreModesMessage (example_env g t L) icaoFilterInit df17_example junk = Some r \<or> length junk \<noteq> 14" for t L
    by (rule scoreModesMessage_total [of 1 crc_globals_start])
      (use g filter_inv_Init in \<open>simp_all add: example_env_def\<close>)
  with g show ?thesis by blast
qed

text \<open>
  C23. Only clean receptions teach the filter an address: decoding a message, whether it comes without
  a score, from the network, or with the score it was given when it was demodulated, ends, keeps
  the filter's invariant, and either leaves the filter alone or accepts the message and adds its
  announced address (flagged for DF18), in which case the message as received, before any
  correction, is a DF17, DF18 or DF11 whose whole checksum, interrogator bits included, is zero.
\<close>

theorem decodeModesMessage_filter_clean:
  assumes "modesChecksumInit fixBits g0 = Some (e_crc env)" "e_nfix_crc env \<le> 2"
    and "length inp = 14" "length (msg mm) = 14" "length junk = 14"
    and "filter_inv f"
    and "score mm = score_value SR_NOT_SET
      \<or> (\<exists>out sr. length out = 14 \<and> scoreModesMessage env f inp out = Some sr \<and> score mm = score_value sr)"
  shows "\<exists>r mm' f' k. decodeModesMessage env junk f mm inp = Some (r, mm', f', k) \<and> filter_inv f' \<and>
    (f' = f \<or> r = 0 \<and>
       icaoFilterAdd (if getbits inp 1 5 = 18 then addr mm' OR ICAO_FILTER_ADSB_NT else getbits inp 9 32) f = Some f' \<and>
       (isLongPIMessage inp \<and> modesChecksum (crc_table (e_crc env)) inp 112 = Some 0 \<or>
        isShortPIMessage inp \<and> modesChecksum (crc_table (e_crc env)) inp 56 = Some 0))"
proof -
  have g: "crc_ready (e_crc env)" using assms(1) by (auto simp: crc_ready_def)
  obtain r mm' f' k where run: "decodeModesMessage env junk f mm inp = Some (r, mm', f', k)" "filter_inv f'"
    using decode_total [where mm = mm, OF g assms(2-6)] by blast
  then show ?thesis
    using decode_filter_change [where mm = mm, OF g assms(2-6) _ run(1)] assms(7)
    unfolding honest_score_def clean_def by (metis (no_types, lifting))
qed

theorem decodeModesMessage_filter_clean_witness:
  "\<exists>g. modesChecksumInit 1 crc_globals_start = Some g \<and> (\<forall>t L.
     (\<exists>r mm' f' k. decodeModesMessage (example_env g t L) (replicate 14 0) icaoFilterInit (zeroMessage\<lparr>msg := replicate 14 0\<rparr>)
        df17_example = Some (r, mm', f', k) \<and> filter_inv f') \<and>
     (\<exists>sr r mm' f' k. scoreModesMessage (example_env g t L) icaoFilterInit df17_example (replicate 14 0) = Some sr \<and>
        decodeModesMessage (example_env g t L) (replicate 14 0) icaoFilterInit
          (zeroMessage\<lparr>msg := replicate 14 0, score := score_value sr\<rparr>) df17_example = Some (r, mm', f', k) \<and> filter_inv f'))"
proof -
  obtain g where g: "modesChecksumInit 1 crc_globals_start = Some g" using example_tables by blast
  let ?mm = "zeroMessage\<lparr>msg := replicate 14 0\<rparr>" and ?out = "replicate 14 (0 :: u8)"
  have env: "modesChecksumInit 1 crc_globals_start = Some (e_crc (example_env g t L))" "e_nfix_crc (example_env g t L) \<le> 2"
    "length df17_example = 14" "length (msg ?mm) = 14" "length ?out = 14" for t L
    using g by (simp_all add: example_env_def)
  have unscored: "\<exists>r mm' f' k. decodeModesMessage (example_env g t L) ?out icaoFilterInit ?mm df17_example =
      Some (r, mm', f', k) \<and> filter_inv f'" for t L
    using decodeModesMessage_filter_clean [OF env filter_inv_Init] by (fastforce simp: zeroMessage_def)
  have scored: "\<exists>sr r mm' f' k. scoreModesMessage (example_env g t L) icaoFilterInit df17_example ?out = Some sr \<and>
      decodeModesMessage (example_env g t L) ?out icaoFilterInit (?mm\<lparr>score := score_value sr\<rparr>) df17_example =
        Some (r, mm', f', k) \<and> filter_inv f'" for t L
  proof -
    have "crc_ready (e_crc (example_env g t L))" using env(1) unfolding crc_ready_def by blast
    from scoreModesMessage_uniform [OF this env(2,3) filter_inv_Init]
    obtain sr where sr: "scoreModesMessage (example_env g t L) icaoFilterInit df17_example ?out = Some sr"
      using env(5) by blast
    have m: "length (msg (?mm\<lparr>score := score_value sr\<rparr>)) = 14" by simp
    have score: "score (?mm\<lparr>score := score_value sr\<rparr>) = score_value SR_NOT_SET \<or> (\<exists>out sr'. length out = 14
        \<and> scoreModesMessage (example_env g t L) icaoFilterInit df17_example out = Some sr'
        \<and> score (?mm\<lparr>score := score_value sr\<rparr>) = score_value sr')"
      using sr env(5) by (intro disjI2 exI [of _ ?out] exI [of _ sr]) simp
    show ?thesis
      using decodeModesMessage_filter_clean [OF env(1-3) m env(5) filter_inv_Init score] sr by metis
  qed
  show ?thesis using g unscored scored by blast
qed

text \<open>
  The test for a pending utility message never sees it: \<open>decodeCommB\<close> refuses a reply whose
  UM field is not zero, but \<open>decodeModesMessage\<close> extracts UM only after the call. A Comm-B
  reply with an empty MB field and no downlink request is decoded as an empty response, whatever
  UM field it ends up with.
\<close>

theorem utility_message_test_dead:
  assumes "msgtype mm = 20 \<or> msgtype mm = 21" "correctedbits mm = 0" "UM (raw mm) = 0"
    and "take 7 (drop 4 m) = replicate 7 0" "getbits m 9 13 = 0"
  shows "commb_format (fst (decode_bulk L t m mm)) = COMMB_EMPTY_RESPONSE \<and>
    UM (raw (fst (decode_bulk L t m mm))) = getbits m 14 19"
proof -
  define a where "a = decode_ID_KE m (decode_FS m (decode_CC_CF_DR m (decode_CA m (decode_AC t m (decode_AA m mm)))))"
  note a = raw_before_MB [OF assms(1), where m = m and t = t, folded a_def]
  have "commb_format (decode_MB_MD L m a) = commb_format (decodeCommB L (set_raw (\<lambda>r. r\<lparr>MB := replicate 7 0\<rparr>) a))"
  proof -
    have "msgtype (decodeCommB L x) = msgtype x" for x using frame_commb by (simp add: same_frame_def)
    then show ?thesis using a(3) assms(1,4) by (auto simp: decode_MB_MD_def Let_def if_do_def set_raw_def)
  qed
  also have "\<dots> = COMMB_EMPTY_RESPONSE"
    by (rule commb_empty) (use a assms in \<open>simp_all add: set_raw_def\<close>)
  finally show ?thesis using commb_format_bulk [OF assms(1)] by (simp add: a_def)
qed

text \<open>A DF20 reply with UM = 1 and everything else zero.\<close>

theorem utility_message_test_dead_witness:
  "\<forall>L t. commb_format (fst (decode_bulk L t [0xA0, 0, 0x20, 0, 0, 0, 0, 0, 0, 0, 0, 0, 0, 0] (zeroMessage\<lparr>msgtype := 20\<rparr>)))
     = COMMB_EMPTY_RESPONSE \<and> getbits [0xA0, 0, 0x20, 0, 0, 0, 0, 0, 0, 0, 0, 0, 0, 0] 14 19 \<noteq> 0"
proof (intro allI conjI)
  have b: "getbits [0xA0, 0, 0x20, 0, 0, 0, 0, 0, 0, 0, 0, 0, 0, 0] 9 13 = 0"
    "getbits [0xA0, 0, 0x20, 0, 0, 0, 0, 0, 0, 0, 0, 0, 0, 0] 14 19 \<noteq> 0" by code_simp+
  then show "getbits [0xA0, 0, 0x20, 0, 0, 0, 0, 0, 0, 0, 0, 0, 0, 0] 14 19 \<noteq> 0" by blast
  show "commb_format (fst (decode_bulk L t [0xA0, 0, 0x20, 0, 0, 0, 0, 0, 0, 0, 0, 0, 0, 0] (zeroMessage\<lparr>msgtype := 20\<rparr>)))
     = COMMB_EMPTY_RESPONSE" for L t
    by (rule conjunct1 [OF utility_message_test_dead])
      (use b(1) in \<open>simp_all add: zeroMessage_def zero_raw_def numeral_eq_Suc\<close>)
qed

text \<open>
  A corrected DF11 message is reported with the wrong interrogator: the syndrome handed back is
  that of the damaged message, so the interrogator code taken from it is made of the error's
  syndrome bits. An all-call reply with checksum zero whose bit 32 was damaged is restored, and
  its checksum is zero, but the low seven bits of the syndrome are 9.
\<close>

theorem corrected_df11_interrogator:
  assumes "modesChecksumInit 1 g0 = Some (e_crc env)" "e_nfix_crc env = 1"
    and "length inp = 14" "length out = 14" "isShortPIMessage inp"
    and "modesChecksum (crc_table (e_crc env)) inp 56 = Some 0"
  shows "\<exists>ss. correctMessage env (flip_msg_bit 31 inp) out = Some (1, copy_short inp out, ss, UNCHECKED_SYNDROME) \<and>
    modesChecksum (crc_table (e_crc env)) (copy_short inp out) 56 = Some 0 \<and> ss AND 0x7f = 9"
proof -
  let ?g = "e_crc env" and ?d = "flip_msg_bit 31 inp"
  have g: "crc_ready ?g" using assms(1) by (auto simp: crc_ready_def)
  have len: "length ?d = 14" using assms(3) by simp
  have t7: "take 7 ?d = flip_msg_bit 31 (take 7 inp)"
    using flip_msg_bit_append [of 31 "take 7 inp" "drop 7 inp"] assms(3) by simp
  have p: "poly_rem (msg_bits (take 7 inp)) = 0"
    using checksum_prefix [OF g, of 56 inp] assms(3,6) by simp
  have s: "modesChecksum (crc_table ?g) ?d 56 = Some (bit_syndrome 24)"
    using checksum_prefix [OF g, of 56 ?d] poly_rem_msg_flip [of 31 "take 7 inp"] p assms(3) len by (simp add: t7)
  have "(xtime ^^ 23) 1 = push_bit 23 (1 :: u32)" by (rule funpow_xtime_small) (auto simp: bit_simps)
  moreover have "xtime (push_bit 23 1) = 0xfff409" by code_simp
  ultimately have syn: "bit_syndrome 24 = 0xfff409"
    using funpow.simps(2) [of 23 xtime] by (simp add: bit_syndrome_def o_def flip: numeral_eq_Suc)
  have "getbits ?d 1 5 = getbits inp 1 5"
    by (rule bit_word_eqI) (auto simp: bit_getbits msg_bit_def flip_msg_bit_def)
  then have df: "getbits ?d 1 5 = 11" using assms(5) by (simp add: isShortPIMessage_def Let_def)
  define k where "k = (if e_fix_df env then e_nfix_crc env else 0)"
  have k: "k = 0 \<or> k = 1" using assms(2) by (simp add: k_def)
  have dg: "modesChecksumDiagnose ?g 0xfff409 56 = Some (Some (single_error 56 31))"
    using diagnose_single [OF assms(1), of 56 31] by (simp add: syn)
  have long: "check_long env k ?d = Some (UNCHECKED_SYNDROME, False, None)"
    using k by (auto simp: check_long_def df [simplified] df_correctable_long_def)
  have short: "check_short env k ?d = Some (0xfff409, False, Some (single_error 56 31))"
    using k s dg by (auto simp: check_short_def df [simplified] df_correctable_short_def MODES_SHORT_MSG_BITS_def syn)
  have copy: "copy_short ?d out = flip_msg_bit 31 (copy_short inp out)"
    using flip_msg_bit_append [of 31 "take 7 inp" "drop 7 out"] assms(3) by (simp add: copy_short_def t7)
  have undo: "flip_msg_bit 31 (flip_msg_bit 31 (copy_short inp out)) = copy_short inp out"
    using assms(3,4) by (simp add: flip_msg_bit_def copy_short_def del: push_bit_of_1)
  have e: "errors (single_error 56 31) = 1"
    using describes_single_error [of 31 56] by (simp add: describes_def)
  have fx: "modesChecksumFix (copy_short ?d out) (Some (single_error 56 31)) = Some (copy_short inp out)"
    using describes_single_error [of 31 56] assms(3,4) undo
    by (simp add: modesChecksumFix_def describes_def MODES_MAX_BITERRORS_def copy) (simp add: copy_short_def)
  have shape: "isShortPIMessage (copy_short inp out)"
    using assms(3-5) isShortPIMessage_prefix [of inp "copy_short inp out"] by (simp add: copy_short_def)
  have "correctMessage env ?d out = Some (1, copy_short inp out, 0xfff409, UNCHECKED_SYNDROME)"
    using long short fx shape e
    by (simp add: correctMessage_def Let_def k_def [symmetric] apply_corrections_def ei_errors_def try_short_def)
  moreover have "modesChecksum (crc_table ?g) (copy_short inp out) 56 = Some 0"
    using checksum_prefix [OF g, of 56 "copy_short inp out"] p assms(3,4) by (simp add: copy_short_def)
  ultimately show ?thesis by simp
qed

definition df11_example :: "u8 list" where
  "df11_example = [0x5D, 0x48, 0x40, 0xD6, 0xF8, 0x74, 0x0F, 0, 0, 0, 0, 0, 0, 0]"

theorem corrected_df11_interrogator_witness:
  "\<exists>g. modesChecksumInit 1 crc_globals_start = Some g \<and> (\<forall>t L. \<exists>ss.
     correctMessage (example_env g t L) (flip_msg_bit 31 df11_example) (replicate 14 0) =
       Some (1, df11_example, ss, UNCHECKED_SYNDROME) \<and> ss AND 0x7f = 9)"
proof -
  obtain g where g: "modesChecksumInit 1 crc_globals_start = Some g" using example_tables by blast
  have sum: "modesChecksum (crc_table g) df11_example 56 = Some 0"
  proof -
    have "poly_rem (msg_bits (take 7 df11_example)) = 0" by code_simp
    then show ?thesis using g checksum_prefix [of g 56 df11_example] by (auto simp: crc_ready_def df11_example_def)
  qed
  have sh: "isShortPIMessage df11_example" by code_simp
  have l: "length df11_example = 14" by (simp add: df11_example_def)
  have copy: "copy_short df11_example (replicate 14 0) = df11_example"
    by (simp add: copy_short_def df11_example_def numeral_eq_Suc)
  have "\<exists>ss. correctMessage (example_env g t L) (flip_msg_bit 31 df11_example) (replicate 14 0) =
       Some (1, df11_example, ss, UNCHECKED_SYNDROME) \<and> ss AND 0x7f = 9" for t L
  proof -
    have "modesChecksumInit 1 crc_globals_start = Some (e_crc (example_env g t L))" "e_nfix_crc (example_env g t L) = 1"
      "modesChecksum (crc_table (e_crc (example_env g t L))) df11_example 56 = Some 0"
      using g sum by (simp_all add: example_env_def)
    from corrected_df11_interrogator [OF this(1,2) l length_replicate [of 14 0] sh this(3)] show ?thesis
      unfolding copy by blast
  qed
  with g show ?thesis by blast
qed

end
