(* ===== verification/DemodSlice.thy ===== *)
theory DemodSlice
  imports Demod ModeSCorrect
begin

text \<open>
  The demodulator recovers what was modulated. Time is counted in fifths of a sample: a symbol lasts
  six of these units, a sample five, and a transmission is a set of units in which the carrier is on.
\<close>

subsection \<open>Signals\<close>

definition energy :: "(nat \<Rightarrow> bool) \<Rightarrow> nat \<Rightarrow> int" where
  "energy on k = sum_list (List.map (\<lambda>i. of_bool (on (5 * k + i))) [0..<5])"

text \<open>The samples are an offset and a multiple of the energy, with an error of less than a fifth of a full sample.\<close>

definition received :: "int \<Rightarrow> int \<Rightarrow> (nat \<Rightarrow> bool) \<Rightarrow> u16 list \<Rightarrow> bool" where
  "received A D on m \<longleftrightarrow> (\<forall>k<length m. \<bar>int (unat (m ! k)) - (D + A * energy on k)\<bar> < A)"

text \<open>A bit is two symbols: on and off, or off and on.\<close>

definition carries_bit :: "(nat \<Rightarrow> bool) \<Rightarrow> nat \<Rightarrow> bool \<Rightarrow> bool" where
  "carries_bit on u b \<longleftrightarrow> (\<forall>r<6. on (u + r) = b \<and> on (u + 6 + r) = (\<not> b))"

definition carries :: "(nat \<Rightarrow> bool) \<Rightarrow> nat \<Rightarrow> bool list \<Rightarrow> bool" where
  "carries on u bs \<longleftrightarrow> (\<forall>i<length bs. carries_bit on (u + 12 * i) (bs ! i))"

subsection \<open>Slicing\<close>

lemma energy_at: "energy on (p + k) = of_bool (on (5 * p + 5 * k)) + of_bool (on (5 * p + (5 * k + 1)))
    + of_bool (on (5 * p + (5 * k + 2))) + of_bool (on (5 * p + (5 * k + 3))) + of_bool (on (5 * p + (5 * k + 4)))"
  by (simp add: energy_def numeral_eq_Suc algebra_simps)

lemma sample_Some: "i < length m \<Longrightarrow> sample m i = Some (int (unat (m ! i)))"
  by (simp add: sample_def)

lemma carries_bit_units:
  assumes "carries_bit on (5 * p + k) b"
  shows "on (5 * p + k) = b" "on (5 * p + (k + 1)) = b" "on (5 * p + (k + 2)) = b" "on (5 * p + (k + 3)) = b"
    "on (5 * p + (k + 4)) = b" "on (5 * p + (k + 5)) = b" "on (5 * p + (k + 6)) = (\<not> b)" "on (5 * p + (k + 7)) = (\<not> b)"
    "on (5 * p + (k + 8)) = (\<not> b)" "on (5 * p + (k + 9)) = (\<not> b)" "on (5 * p + (k + 10)) = (\<not> b)" "on (5 * p + (k + 11)) = (\<not> b)"
proof -
  have *: "on (5 * p + k + r) = b" "on (5 * p + k + 6 + r) = (\<not> b)" if "r < 6" for r
    using assms that by (simp_all add: carries_bit_def)
  show "on (5 * p + k) = b" "on (5 * p + (k + 1)) = b" "on (5 * p + (k + 2)) = b" "on (5 * p + (k + 3)) = b"
    "on (5 * p + (k + 4)) = b" "on (5 * p + (k + 5)) = b" "on (5 * p + (k + 6)) = (\<not> b)" "on (5 * p + (k + 7)) = (\<not> b)"
    "on (5 * p + (k + 8)) = (\<not> b)" "on (5 * p + (k + 9)) = (\<not> b)" "on (5 * p + (k + 10)) = (\<not> b)" "on (5 * p + (k + 11)) = (\<not> b)"
    using *(1) [of 0] *(1) [of 1] *(1) [of 2] *(1) [of 3] *(1) [of 4] *(1) [of 5]
      *(2) [of 0] *(2) [of 1] *(2) [of 2] *(2) [of 3] *(2) [of 4] *(2) [of 5] by (simp_all add: ac_simps)
qed

text \<open>The four samples a slicer may read, as their energy and an error.\<close>

lemma received_samples:
  assumes "received A D on m" "p + k < length m"
  obtains n where "sample m (p + k) = Some (D + (A * of_bool (on (5 * p + 5 * k)) + A * of_bool (on (5 * p + (5 * k + 1)))
    + A * of_bool (on (5 * p + (5 * k + 2))) + A * of_bool (on (5 * p + (5 * k + 3))) + A * of_bool (on (5 * p + (5 * k + 4)))) + n)"
    "- A < n" "n < A"
proof -
  define n where "n = int (unat (m ! (p + k))) - (D + A * energy on (p + k))"
  have "\<bar>n\<bar> < A" using assms by (simp add: received_def n_def)
  moreover have "sample m (p + k) = Some (D + A * energy on (p + k) + n)" using assms(2) by (simp add: sample_Some n_def)
  ultimately show ?thesis using that [of n] by (simp add: energy_at distrib_left)
qed

lemma unit_energy: "(0 :: int) < A \<Longrightarrow> 0 \<le> A * of_bool b \<and> A * of_bool b \<le> A"
  by (cases b) auto

lemma slice_phase_sign:
  assumes r: "received A D on m" and c: "carries_bit on (5 * p + k) b" and k: "k < 5"
    and len: "p + (if k = 4 then 3 else 2) < length m"
  shows "\<exists>x. slice_phase k m p = Some x \<and> (0 < x) = b"
proof -
  have l: "p < length m" "Suc p < length m" "Suc (Suc p) < length m" "k = 4 \<Longrightarrow> p + 3 < length m" using len by (auto split: if_splits)
  obtain n0 where m0: "sample m p = Some (D + (A * of_bool (on (5 * p)) + A * of_bool (on (5 * p + 1))
    + A * of_bool (on (5 * p + 2)) + A * of_bool (on (5 * p + 3)) + A * of_bool (on (5 * p + 4))) + n0)" "- A < n0" "n0 < A"
    using received_samples [OF r, of p 0] l by auto
  obtain n1 where m1: "sample m (p + 1) = Some (D + (A * of_bool (on (5 * p + 5)) + A * of_bool (on (5 * p + 6))
    + A * of_bool (on (5 * p + 7)) + A * of_bool (on (5 * p + 8)) + A * of_bool (on (5 * p + 9))) + n1)" "- A < n1" "n1 < A"
    using received_samples [OF r, of p 1] l by auto
  obtain n2 where m2: "sample m (p + 2) = Some (D + (A * of_bool (on (5 * p + 10)) + A * of_bool (on (5 * p + 11))
    + A * of_bool (on (5 * p + 12)) + A * of_bool (on (5 * p + 13)) + A * of_bool (on (5 * p + 14))) + n2)" "- A < n2" "n2 < A"
    using received_samples [OF r, of p 2] l by auto
  have A: "0 < A" using m0(2,3) by simp
  note e = unit_energy [OF A]
  consider "k = 0" | "k = 1" | "k = 2" | "k = 3" | "k = 4" using k by linarith
  then show ?thesis
  proof cases
    case 1
    note u = carries_bit_units [OF c [unfolded 1], unfolded one_add_one one_plus_numeral numeral_plus_one numeral_plus_numeral add_num_simps]
    show ?thesis
      using 1 u e [of "on (5 * p + 12)"] e [of "on (5 * p + 13)"] e [of "on (5 * p + 14)"] m0 m1 m2 A
      by (cases b) (simp_all add: slice_phase_def slice_phase0_def)
  next
    case 2
    note u = carries_bit_units [OF c [unfolded 2], unfolded one_add_one one_plus_numeral numeral_plus_one numeral_plus_numeral add_num_simps]
    show ?thesis
      using 2 u e [of "on (5 * p)"] e [of "on (5 * p + 13)"] e [of "on (5 * p + 14)"] m0 m1 m2 A
      by (cases b) (simp_all add: slice_phase_def slice_phase1_def)
  next
    case 3
    note u = carries_bit_units [OF c [unfolded 3], unfolded one_add_one one_plus_numeral numeral_plus_one numeral_plus_numeral add_num_simps]
    show ?thesis
      using 3 u e [of "on (5 * p)"] e [of "on (5 * p + 1)"] e [of "on (5 * p + 14)"] m0 m1 m2 A
      by (cases b) (simp_all add: slice_phase_def slice_phase2_def)
  next
    case 4
    note u = carries_bit_units [OF c [unfolded 4], unfolded one_add_one one_plus_numeral numeral_plus_one numeral_plus_numeral add_num_simps]
    show ?thesis
      using 4 u e [of "on (5 * p)"] e [of "on (5 * p + 1)"] e [of "on (5 * p + 2)"] m0 m1 m2 A
      by (cases b) (simp_all add: slice_phase_def slice_phase3_def)
  next
    case 5
    obtain n3 where m3: "sample m (p + 3) = Some (D + (A * of_bool (on (5 * p + 15)) + A * of_bool (on (5 * p + 16))
      + A * of_bool (on (5 * p + 17)) + A * of_bool (on (5 * p + 18)) + A * of_bool (on (5 * p + 19))) + n3)" "- A < n3" "n3 < A"
      using received_samples [OF r, of p 3] l 5 by auto
    note u = carries_bit_units [OF c [unfolded 5], unfolded one_add_one one_plus_numeral numeral_plus_one numeral_plus_numeral add_num_simps]
    show ?thesis
      using 5 u e [of "on (5 * p)"] e [of "on (5 * p + 1)"] e [of "on (5 * p + 2)"] e [of "on (5 * p + 3)"]
        e [of "on (5 * p + 16)"] e [of "on (5 * p + 17)"] e [of "on (5 * p + 18)"] e [of "on (5 * p + 19)"] m0 m1 m2 m3 A
      by (cases b) (simp_all add: slice_phase_def slice_phase4_def)
  qed
qed


subsection \<open>Bytes\<close>

fun pack :: "u8 \<Rightarrow> bool list \<Rightarrow> u8" where
  "pack weight [] = 0"
| "pack weight (b # bs) = (if b then weight else 0) OR pack (drop_bit 1 weight) bs"

lemma pack_byte_bits: "pack 0x80 (byte_bits b) = b"
proof (rule bit_word_eqI)
  fix n assume "n < LENGTH(8)"
  then have "n \<in> {0, 1, 2, 3, 4, 5, 6, 7}" by auto
  moreover have w: "drop_bit 1 (0x80 :: u8) = 0x40" "drop_bit 1 (0x40 :: u8) = 0x20" "drop_bit 1 (0x20 :: u8) = 0x10"
    "drop_bit 1 (0x10 :: u8) = 8" "drop_bit 1 (8 :: u8) = 4" "drop_bit 1 (4 :: u8) = 2" "drop_bit 1 (2 :: u8) = 1"
    by simp_all
  have "pack 0x80 (byte_bits b) = (if bit b 7 then 0x80 else 0) OR ((if bit b 6 then 0x40 else 0) OR ((if bit b 5 then 0x20 else 0)
      OR ((if bit b 4 then 0x10 else 0) OR ((if bit b 3 then 8 else 0) OR ((if bit b 2 then 4 else 0) OR ((if bit b 1 then 2 else 0)
      OR ((if bit b 0 then 1 else 0) OR 0)))))))"
    by (simp only: byte_bits_def list.map pack.simps w)
  ultimately show "bit (pack 0x80 (byte_bits b)) n = bit b n"
    by (elim insertE emptyE; simp add: bit_or_iff if_distrib [of "\<lambda>w. bit w _"] cong: if_cong)
qed

lemma slice_bits_pack:
  assumes "length ss = length bs"
    and "\<forall>i<length ss. \<exists>x. slice_phase (fst (ss ! i)) m (p + snd (ss ! i)) = Some x \<and> (0 < x) = bs ! i"
  shows "slice_bits m p weight ss = Some (pack weight bs)"
  using assms
proof (induction m p weight ss arbitrary: bs rule: slice_bits.induct)
  case (2 m p weight phase offset ss)
  then obtain b bs' where bs: "bs = b # bs'" by (cases bs) auto
  obtain x where x: "slice_phase phase m (p + offset) = Some x" "(0 < x) = b" using "2.prems"(2) bs by force
  have "slice_bits m p (drop_bit 1 weight) ss = Some (pack (drop_bit 1 weight) bs')"
    using "2.prems" bs by (intro "2.IH" [OF x(1)]) auto
  then show ?case using x bs by simp
qed simp

text \<open>The table of slicers: the bits are twelve units apart, and no slicer looks further than 19 samples ahead.\<close>

lemma byte_slices_table:
  assumes "phase < 5"
  shows "length (byte_slices phase) = 8"
    and "i < 8 \<Longrightarrow> 5 * snd (byte_slices phase ! i) + fst (byte_slices phase ! i) = phase + 12 * i"
    and "i < 8 \<Longrightarrow> fst (byte_slices phase ! i) < 5"
    and "i < 8 \<Longrightarrow> snd (byte_slices phase ! i) + (if fst (byte_slices phase ! i) = 4 then 3 else 2) \<le> 19"
    and "5 * snd (next_phase phase) + fst (next_phase phase) = phase + 96" "fst (next_phase phase) < 5"
proof -
  have "\<forall>phase\<in>set [0..<5]. length (byte_slices phase) = 8
      \<and> 5 * snd (next_phase phase) + fst (next_phase phase) = phase + 96 \<and> fst (next_phase phase) < 5
      \<and> (\<forall>i\<in>set [0..<8]. 5 * snd (byte_slices phase ! i) + fst (byte_slices phase ! i) = phase + 12 * i
           \<and> fst (byte_slices phase ! i) < 5
           \<and> snd (byte_slices phase ! i) + (if fst (byte_slices phase ! i) = 4 then 3 else 2) \<le> 19)"
    by code_simp
  then have t: "length (byte_slices phase) = 8
      \<and> 5 * snd (next_phase phase) + fst (next_phase phase) = phase + 96 \<and> fst (next_phase phase) < 5
      \<and> (\<forall>i\<in>set [0..<8]. 5 * snd (byte_slices phase ! i) + fst (byte_slices phase ! i) = phase + 12 * i
           \<and> fst (byte_slices phase ! i) < 5
           \<and> snd (byte_slices phase ! i) + (if fst (byte_slices phase ! i) = 4 then 3 else 2) \<le> 19)"
    by (rule bspec) (use assms in simp)
  show "length (byte_slices phase) = 8" "5 * snd (next_phase phase) + fst (next_phase phase) = phase + 96" "fst (next_phase phase) < 5"
    using t by blast+
  show "i < 8 \<Longrightarrow> 5 * snd (byte_slices phase ! i) + fst (byte_slices phase ! i) = phase + 12 * i"
    "i < 8 \<Longrightarrow> fst (byte_slices phase ! i) < 5"
    "i < 8 \<Longrightarrow> snd (byte_slices phase ! i) + (if fst (byte_slices phase ! i) = 4 then 3 else 2) \<le> 19"
    using bspec [OF t [THEN conjunct2, THEN conjunct2, THEN conjunct2], of i] by simp_all
qed

lemma slice_byte_carries:
  assumes "received A D on m" "carries on (5 * p + phase) (byte_bits b)" "phase < 5" "p + 20 \<le> length m"
  shows "slice_byte m phase p = Some b"
proof -
  note t = byte_slices_table [OF assms(3)]
  have "\<exists>x. slice_phase (fst (byte_slices phase ! i)) m (p + snd (byte_slices phase ! i)) = Some x \<and> (0 < x) = byte_bits b ! i"
    if "i < 8" for i
  proof (rule slice_phase_sign [OF assms(1)])
    have e: "5 * (p + snd (byte_slices phase ! i)) + fst (byte_slices phase ! i) = 5 * p + phase + 12 * i"
      using t(2) [OF that] by simp
    show "carries_bit on (5 * (p + snd (byte_slices phase ! i)) + fst (byte_slices phase ! i)) (byte_bits b ! i)"
      unfolding e using assms(2) that by (simp add: carries_def)
    show "p + snd (byte_slices phase ! i) + (if fst (byte_slices phase ! i) = 4 then 3 else 2) < length m"
      using t(4) [OF that] assms(4) by linarith
  qed (rule t(3) [OF that])
  then have "slice_bits m p 0x80 (byte_slices phase) = Some (pack 0x80 (byte_bits b))"
    by (intro slice_bits_pack) (simp_all add: t(1))
  then show ?thesis by (simp add: slice_byte_def pack_byte_bits)
qed


subsection \<open>Messages\<close>

text \<open>The last sample that the slicing of \<open>n\<close> bytes from a unit on may read exists.\<close>

definition room :: "u16 list \<Rightarrow> nat \<Rightarrow> nat \<Rightarrow> bool" where
  "room m u n \<longleftrightarrow> n = 0 \<or> (u + 96 * (n - 1)) div 5 + 20 \<le> length m"

lemma room_Suc:
  assumes "room m (5 * p + phase) (Suc n)" "phase < 5"
  shows "p + 20 \<le> length m" "room m (5 * (p + snd (next_phase phase)) + fst (next_phase phase)) n"
proof -
  have e: "5 * (p + snd (next_phase phase)) + fst (next_phase phase) = 5 * p + phase + 96"
    using byte_slices_table(5) [OF assms(2)] by simp
  have "p \<le> (5 * p + phase + 96 * n) div 5" by simp
  then show "p + 20 \<le> length m" using assms(1) by (simp add: room_def)
  show "room m (5 * (p + snd (next_phase phase)) + fst (next_phase phase)) n"
    unfolding e using assms(1) by (cases n) (simp_all add: room_def algebra_simps)
qed

lemma carries_append: "carries on u (as @ bs) \<Longrightarrow> carries on u as \<and> carries on (u + 12 * length as) bs"
proof -
  assume c: "carries on u (as @ bs)"
  have "carries_bit on (u + 12 * i) (as ! i)" if "i < length as" for i
    using c that unfolding carries_def by (metis length_append nth_append trans_less_add1)
  moreover have "carries_bit on (u + 12 * length as + 12 * i) (bs ! i)" if "i < length bs" for i
  proof -
    have "carries_bit on (u + 12 * (length as + i)) ((as @ bs) ! (length as + i))"
      using c [unfolded carries_def, rule_format, of "length as + i"] that by simp
    then show ?thesis by (simp add: nth_append algebra_simps)
  qed
  ultimately show ?thesis by (simp add: carries_def)
qed

lemma slice_bytes_carries:
  assumes "received A D on m" "carries on (5 * p + phase) (msg_bits ms)" "phase < 5" "i + length ms \<le> length buf"
    and "room m (5 * p + phase) (length ms)"
  shows "slice_bytes m phase p i (length ms) buf = Some (take i buf @ ms @ drop (i + length ms) buf)"
  using assms(2-5)
proof (induction ms arbitrary: p phase i buf)
  case (Cons b ms)
  note r = room_Suc [OF Cons.prems(4) [simplified] Cons.prems(2)]
  have c: "carries on (5 * p + phase) (byte_bits b)" "carries on (5 * p + phase + 96) (msg_bits ms)"
    using carries_append [of on "5 * p + phase" "byte_bits b" "msg_bits ms"] Cons.prems(1) by (simp_all add: msg_bits_def)
  have e: "5 * (p + snd (next_phase phase)) + fst (next_phase phase) = 5 * p + phase + 96"
    using byte_slices_table(5) [OF Cons.prems(2)] by simp
  have b: "slice_byte m phase p = Some b"
    by (rule slice_byte_carries [OF assms(1) c(1) Cons.prems(2) r(1)])
  have "slice_bytes m (fst (next_phase phase)) (p + snd (next_phase phase)) (i + 1) (length ms) (buf[i := b])
      = Some (take (i + 1) (buf[i := b]) @ ms @ drop (i + 1 + length ms) (buf[i := b]))"
    by (rule Cons.IH) (use c(2) [folded e] r(2) Cons.prems(2,3) byte_slices_table(6) [OF Cons.prems(2)] in simp_all)
  moreover have "take (i + 1) (buf[i := b]) = take i buf @ [b]"
    using Cons.prems(3) by (simp add: take_Suc_conv_app_nth)
  ultimately show ?case using b Cons.prems(3) by (simp add: split_beta Let_def)
qed simp

text \<open>Whatever the samples are, slicing within the room does not fault.\<close>

lemma slice_phase_total: "k < 5 \<Longrightarrow> p + (if k = 4 then 3 else 2) < length m \<Longrightarrow> \<exists>x. slice_phase k m p = Some x"
  by (auto simp: slice_phase_def slice_phase0_def slice_phase1_def slice_phase2_def slice_phase3_def slice_phase4_def sample_Some
      split: if_splits)

lemma slice_bits_total:
  "\<forall>(k, off)\<in>set ss. k < 5 \<and> p + off + (if k = 4 then 3 else 2) < length m \<Longrightarrow> \<exists>b. slice_bits m p weight ss = Some b"
proof (induction m p weight ss rule: slice_bits.induct)
  case (2 m p weight phase offset ss)
  then obtain x where x: "slice_phase phase m (p + offset) = Some x" using slice_phase_total [of phase "p + offset" m] by auto
  with 2 show ?case by auto
qed simp

lemma slice_byte_total: "phase < 5 \<Longrightarrow> p + 20 \<le> length m \<Longrightarrow> \<exists>b. slice_byte m phase p = Some b"
  unfolding slice_byte_def
proof (rule slice_bits_total, rule ballI)
  fix ko assume a: "phase < 5" "p + 20 \<le> length m" "ko \<in> set (byte_slices phase)"
  then obtain i where "i < 8" "ko = byte_slices phase ! i" using byte_slices_table(1) by (metis in_set_conv_nth)
  then show "case ko of (k, off) \<Rightarrow> k < 5 \<and> p + off + (if k = 4 then 3 else 2) < length m"
    using byte_slices_table(3,4) [OF a(1), of i] a(2) by (auto simp: split_beta split: if_splits)
qed

lemma slice_bytes_total:
  "phase < 5 \<Longrightarrow> i + n \<le> length buf \<Longrightarrow> room m (5 * p + phase) n \<Longrightarrow>
   \<exists>out. slice_bytes m phase p i n buf = Some out \<and> length out = length buf \<and> take i out = take i buf"
proof (induction n arbitrary: p phase i buf)
  case (Suc n)
  note r = room_Suc [OF Suc.prems(3,1)]
  obtain b where b: "slice_byte m phase p = Some b" using slice_byte_total [OF Suc.prems(1) r(1)] by blast
  obtain out where "slice_bytes m (fst (next_phase phase)) (p + snd (next_phase phase)) (i + 1) n (buf[i := b]) = Some out"
    "length out = length buf" "take (i + 1) out = take (i + 1) (buf[i := b])"
    using Suc.IH [of "fst (next_phase phase)" "i + 1" "buf[i := b]" "p + snd (next_phase phase)"] r(2) Suc.prems(1,2)
      byte_slices_table(6) [OF Suc.prems(1)] by auto
  moreover from this(3) have "take i out = take i buf"
    by (metis take_take min.absorb1 le_add1 take_update_cancel order_refl)
  ultimately show ?case using b Suc.prems(2) by (simp add: split_beta Let_def)
qed simp


lemma slicing_position: "5 * (j + 19 + t div 5) + t mod 5 = 5 * (j + 19) + (t :: nat)"
  by (simp add: algebra_simps)

lemma room_message:
  assumes "j + 290 \<le> length m" "t \<le> 8" "n \<le> 13"
  shows "room m (5 * (j + 19 + t div 5 + snd (next_phase (t mod 5))) + fst (next_phase (t mod 5))) n"
proof -
  have e: "5 * (j + 19 + t div 5 + snd (next_phase (t mod 5))) + fst (next_phase (t mod 5)) = 5 * (j + 19) + t + 96"
    using byte_slices_table(5) [of "t mod 5"] slicing_position [of j t] by simp
  have "(5 * (j + 19) + t + 96 + 96 * (n - 1)) div 5 \<le> (5 * (j + 19) + 8 + 96 + 96 * 12) div 5"
    by (rule div_le_mono) (use assms(2,3) in simp)
  also have "\<dots> = j + 270" by simp
  finally show ?thesis unfolding e room_def using assms(1) by simp
qed

lemma demod_phase_total:
  assumes "j + 290 \<le> length m" "t \<le> 8" "length buf = 14"
  shows "\<exists>n out. demod_phase m short long j t buf = Some (n, out) \<and> length out = 14"
proof -
  have "t div 5 \<le> 1" using assms(2) div_le_mono [of t 8 5] by simp
  then obtain b where b: "slice_byte m (t mod 5) (j + 19 + t div 5) = Some b"
    using slice_byte_total [of "t mod 5" "j + 19 + t div 5" m] assms(1) by auto
  define n where "n = (if bit long (unat (drop_bit 3 b)) then MODES_LONG_MSG_BYTES else if bit short (unat (drop_bit 3 b)) then 7 else 1)"
  have "n - 1 \<le> 13" by (simp add: n_def MODES_LONG_MSG_BYTES_def)
  then obtain out where "slice_bytes m (fst (next_phase (t mod 5))) (j + 19 + t div 5 + snd (next_phase (t mod 5))) 1 (n - 1) (buf[0 := b]) = Some out"
    "length out = 14"
    using slice_bytes_total [of "fst (next_phase (t mod 5))" 1 "n - 1" "buf[0 := b]" m "j + 19 + t div 5 + snd (next_phase (t mod 5))"]
      room_message [OF assms(1,2)] byte_slices_table(6) [of "t mod 5"] assms(3) by auto
  then show ?thesis using b assms(3) by (simp add: demod_phase_def c_simps split_beta Let_def n_def)
qed

lemma demod_phase_carries:
  assumes "received A D on m" "carries on (5 * (j + 19) + t) (msg_bits ms)" "j + 290 \<le> length m" "t \<le> 8" "length buf = 14"
    and df: "length ms = (if bit long (unat (drop_bit 3 (hd ms))) then 14 else 7)"
      "\<not> bit long (unat (drop_bit 3 (hd ms))) \<Longrightarrow> bit short (unat (drop_bit 3 (hd ms)))"
  shows "demod_phase m short long j t buf = Some (length ms, ms @ drop (length ms) buf)"
proof -
  obtain b ms' where ms: "ms = b # ms'" using df(1) by (cases ms) (auto split: if_splits)
  have len: "length ms' \<le> 13" "length ms \<le> 14" using df(1) ms by (auto split: if_splits)
  have c: "carries on (5 * (j + 19) + t) (byte_bits b)" "carries on (5 * (j + 19) + t + 96) (msg_bits ms')"
    using carries_append [of on "5 * (j + 19) + t" "byte_bits b" "msg_bits ms'"] assms(2) by (simp_all add: msg_bits_def ms)
  have e: "5 * (j + 19 + t div 5 + snd (next_phase (t mod 5))) + fst (next_phase (t mod 5)) = 5 * (j + 19) + t + 96"
    using byte_slices_table(5) [of "t mod 5"] slicing_position [of j t] by simp
  have "t div 5 \<le> 1" using assms(4) div_le_mono [of t 8 5] by simp
  then have b: "slice_byte m (t mod 5) (j + 19 + t div 5) = Some b"
    using slice_byte_carries [OF assms(1) c(1) [folded slicing_position]] assms(3) by simp
  have "slice_bytes m (fst (next_phase (t mod 5))) (j + 19 + t div 5 + snd (next_phase (t mod 5))) 1 (length ms') (buf[0 := b])
      = Some (take 1 (buf[0 := b]) @ ms' @ drop (1 + length ms') (buf[0 := b]))"
    by (rule slice_bytes_carries [OF assms(1)])
      (use c(2) [folded e] room_message [OF assms(3,4) len(1)] byte_slices_table(6) [of "t mod 5"] assms(5) len(1) in simp_all)
  moreover have "take 1 (buf[0 := b]) = [b]" using assms(5) by (cases buf) auto
  moreover have "(if bit long (unat (drop_bit 3 b)) then MODES_LONG_MSG_BYTES else if bit short (unat (drop_bit 3 b)) then 7 else 1) = length ms"
    using df ms by (auto simp: MODES_LONG_MSG_BYTES_def)
  ultimately show ?thesis
    using b assms(5) by (simp add: demod_phase_def c_simps split_beta Let_def ms)
qed

end
