(* ===== verification/DemodCorrect.thy ===== *)
theory DemodCorrect
  imports DemodSlice
begin

text \<open>
  The demodulator as a whole: it ends, it reads only samples that exist, and a transmission it looks
  at is heard. The state between buffers is a position within the overlap.
\<close>

subsection \<open>The best scores\<close>

lemma check_long_clean:
  assumes "crc_ready (e_crc env)" "k \<le> 2" "isLongPIMessage ms" "modesChecksum (crc_table (e_crc env)) ms 112 = Some 0"
  shows "check_long env k ms = Some (0, True, None)"
proof -
  have "getbits ms 1 5 = 17 \<or> getbits ms 1 5 = 18" using assms(3) by (simp add: isLongPIMessage_def Let_def)
  moreover have "k = 0 \<or> k = 1 \<or> k = 2" using assms(2) by auto
  ultimately show ?thesis
    using assms(3,4) by (auto simp: check_long_def df_correctable_long_def MODES_LONG_MSG_BITS_def)
qed

lemma not_all_zeros:
  assumes "length ms = 14" "getbits ms 1 5 \<noteq> 0"
  shows "take 7 ms \<noteq> replicate 7 0"
proof
  assume "take 7 ms = replicate 7 0"
  then have "getbits ms 1 5 = getbits (replicate 14 0) 1 5" using assms(1) by (intro getbits_prefix) simp_all
  then show False using assms(2) by simp code_simp
qed

text \<open>A DF17 message with a correct checksum has one of the best scores.\<close>

lemma score_clean_df17:
  assumes g: "crc_ready (e_crc env)" "e_nfix_crc env \<le> 2" and f: "filter_inv f" and ms: "length ms = 14" "getbits ms 1 5 = 17"
    "modesChecksum (crc_table (e_crc env)) ms 112 = Some 0"
  obtains recent where "scoreModesMessage env f ms junk = Some (if recent then SR_DF17_KNOWN else SR_DF17_UNKNOWN)"
proof -
  have long: "isLongPIMessage ms" using ms(2) by (simp add: isLongPIMessage_def)
  have "correctMessage env ms junk = Some (0, ms, UNCHECKED_SYNDROME, 0)"
    using check_long_clean [OF g(1) _ long ms(3), of "if e_fix_df env then e_nfix_crc env else 0"] g(2) ms(1)
    by (simp add: correctMessage_def Let_def)
  moreover have "icaoFilterTest (getbits ms 9 32) f = Some (getbits ms 9 32 \<in> members f)"
    by (rule icaoFilterTest_members [OF f getbits_not_EMPTY(1)])
  ultimately have "scoreModesMessage env f ms junk = Some (if getbits ms 9 32 \<in> members f then SR_DF17_KNOWN else SR_DF17_UNKNOWN)"
    using not_all_zeros [of ms] ms(1,2) by (simp add: scoreModesMessage_def score_corrected_def score_df17_def)
  then show ?thesis by (rule that)
qed

text \<open>Only such messages, and those of DF18, have them.\<close>

lemma score_values_df17 [simp]: "score_value SR_DF17_UNKNOWN = 25" "score_value SR_DF17_KNOWN = 27"
  by (simp_all add: score_value_def score_ranks_def)

lemma best_scores: "25 \<le> score_value r \<longleftrightarrow> r \<in> {SR_DF17_UNKNOWN, SR_DF18_KNOWN, SR_DF17_KNOWN}"
  by (cases r) (simp_all add: score_value_def score_ranks_def)

lemma score_best_clean:
  assumes g: "crc_ready (e_crc env)" "e_nfix_crc env \<le> 2" and inp: "length inp = 14" "length junk = 14"
    and sr: "scoreModesMessage env f inp junk = Some sr" "25 \<le> score_value sr"
  shows "isLongPIMessage inp \<and> modesChecksum (crc_table (e_crc env)) inp 112 = Some 0"
proof -
  obtain n m ss sl where c: "correctMessage env inp junk = Some (n, m, ss, sl)" "sound_outcome (e_crc env) inp n ss m"
    "length m = 14" by (rule correctMessage_outcome [OF g inp])
  have r: "sr \<in> {SR_DF17_UNKNOWN, SR_DF18_KNOWN, SR_DF17_KNOWN}" using sr(2) by (simp only: best_scores)
  have sc: "score_corrected env f (n, m, ss, sl) = Some sr"
    using sr(1) c(1) r by (auto simp: scoreModesMessage_def split: if_splits)
  have df: "n = 0 \<and> (getbits m 1 5 = 17 \<or> getbits m 1 5 = 18)"
  proof -
    have "getbits m 1 5 = 17 \<or> getbits m 1 5 = 18"
      using sc r by (auto simp: score_corrected_def Let_def unreliable_def score_df11_def elim!: bind_eq_SomeE split: if_splits)
    moreover from this have "n = 0"
      using sc r by (auto simp: score_corrected_def score_df17_def score_df18_def elim!: bind_eq_SomeE split: if_splits)
    ultimately show ?thesis by blast
  qed
  then have n: "sound_outcome (e_crc env) inp 0 ss m" "getbits m 1 5 \<noteq> 11" using c(2) by auto
  from zero_correction_clean [OF g(1) inp(1) c(3) n(1)] n(2) df
  show ?thesis by (auto simp: clean_def isLongPIMessage_def isShortPIMessage_def Let_def)
qed


subsection \<open>Accepted messages\<close>

lemma crc_fields_known:
  "msgtype mm \<in> {0, 4, 5, 11, 16, 17, 18, 20, 21} \<or> 24 \<le> msgtype mm \<Longrightarrow>
   \<exists>mm2. crc_fields mm = Some mm2 \<and> correctedbits mm2 = correctedbits mm \<and> verbatim mm2 = verbatim mm \<and> score mm2 = score mm"
  by (auto simp: crc_fields_def set_raw_def Let_def)

lemma known_format:
  "(x :: u32) \<in> {0, 4, 5, 11, 16, 17, 18, 20, 21} \<or> 24 \<le> x \<Longrightarrow>
   uint x \<in> {0, 4, 5, 11, 16, 17, 18, 20, 21} \<or> 24 \<le> uint x"
  by (auto simp: word_le_def)

lemma decode_accepted:
  assumes g: "crc_ready (e_crc env)" "e_nfix_crc env \<le> 2" and inp: "length inp = 14" "length (msg mm) = 14" "length junk = 14"
    and f: "filter_inv f" and sr: "scoreModesMessage env f inp junk = Some sr" "score mm = score_value sr" "11 \<le> score_value sr"
  shows "\<exists>mm' f' k. decodeModesMessage env junk f mm inp = Some (0, mm', f', k) \<and> filter_inv f'
    \<and> 0 \<le> correctedbits mm' \<and> correctedbits mm' \<le> 2 \<and> verbatim mm' = inp \<and> score mm' = score mm"
proof -
  have sr': "scoreModesMessage env f inp (msg mm) = Some sr"
    using scoreModesMessage_uniform [OF g inp(1) f] inp sr(1) by force
  obtain n m ss sl where c: "correctMessage env inp (msg mm) = Some (n, m, ss, sl)"
    "sound_outcome (e_crc env) inp n ss m" "length m = 14"
    by (rule correctMessage_outcome [OF g inp(1,2)])
  have n: "n \<le> 2" using c(2) by (auto simp: sound_outcome_def long_corrected_def short_corrected_def)
  have sc: "score_corrected env f (n, m, ss, sl) = Some sr"
    using sr' c(1) sr(3) by (auto simp: scoreModesMessage_def split: if_splits)
  have df: "getbits m 1 5 \<in> {0, 4, 5, 11, 16, 17, 18, 20, 21} \<or> getbits m 1 5 \<ge> 24"
  proof (rule ccontr)
    assume "\<not> ?thesis"
    then have "sr = SR_UNKNOWN_DF" using sc by (auto simp: score_corrected_def Let_def split: if_splits)
    then show False using sr(3) by (simp add: score_value_def score_ranks_def)
  qed
  define mm0 where "mm0 = mm\<lparr>score := score_value sr, verbatim := take 14 inp\<rparr>"
  have mm0: "msg mm0 = msg mm" "verbatim mm0 = inp" "score mm0 = score mm" using inp(1) sr(2) by (simp_all add: mm0_def)
  obtain p q where pq: "short_syndrome_of env m ss = Some p" "long_syndrome_of env m sl = Some q"
    using syndrome_of_total [OF g(1) c(3)] by blast
  define mm1 where "mm1 = mm0\<lparr>msg := m, msgtype := uint (getbits m 1 5), msgbits := modesMessageLenByType (getbits m 1 5),
    crc := (if getbits m 1 5 AND 16 \<noteq> 0 then q else p), correctedbits := (if n > 0 then n else 0), addr := 0\<rparr>"
  have mm1: "frame_fields env (n, m, ss, sl) mm0 = Some mm1" "msgtype mm1 = uint (getbits m 1 5)"
    "correctedbits mm1 = (if n > 0 then n else 0)" "verbatim mm1 = inp" "score mm1 = score mm"
    using mm0 pq by (simp_all add: frame_fields_def Let_def mm1_def)
  obtain mm2 where mm2: "crc_fields mm1 = Some mm2" "correctedbits mm2 = correctedbits mm1" "verbatim mm2 = verbatim mm1" "score mm2 = score mm1"
    using crc_fields_known [of mm1] known_format [OF df] unfolding mm1(2) by blast
  define mm3 where "mm3 = fst (decode_bulk (e_libm env) (e_ac env) (msg mm2) mm2)"
  have head: "correctedbits mm3 = correctedbits mm2" "verbatim mm3 = verbatim mm2" "score mm3 = score mm2"
    using head_bulk [of "e_libm env" "e_ac env" "msg mm2" mm2] by (simp_all add: mm3_def same_head_def)
  obtain f' where f': "remember_address mm3 f = Some f'" "filter_inv f'"
    using remember_address_total [OF f, of mm3] addr_bulk_31 head_bulk
    by (auto simp: same_head_def mm3_def)
  show ?thesis
    unfolding decodeModesMessage_def
    using sr c(1) mm0 mm1(1,3-5) mm2 f' head n
    by (simp add: mm0_def [symmetric] Let_def split_beta mm3_def [symmetric] if_do_def)
qed


subsection \<open>The state\<close>

text \<open>What the tables and buffers must be for the code to run, and what every step keeps.\<close>

definition env_ok :: "demod_env \<Rightarrow> bool" where
  "env_ok E \<longleftrightarrow> crc_ready (e_crc (de_mode_s E)) \<and> e_nfix_crc (de_mode_s E) \<le> 2 \<and> length (de_score_junk E) = 14
     \<and> length (fst (de_msg_junk E)) = 14 \<and> length (snd (de_msg_junk E)) = 14"

definition demod_ok :: "demod \<Rightarrow> bool" where
  "demod_ok s \<longleftrightarrow> filter_inv (dm_filter s) \<and> length (demod_accepted (dm_stats s)) = 3"

definition bufs_ok :: "demod \<Rightarrow> bool" where
  "bufs_ok s \<longleftrightarrow> length (dm_msg s) = 14 \<and> length (dm_other s) = 14"

text \<open>The best score is that of the other buffer.\<close>

definition best_ok :: "demod_env \<Rightarrow> (int \<times> nat) \<times> demod \<Rightarrow> bool" where
  "best_ok E = (\<lambda>(best, s). 0 \<le> fst best \<and> (0 < fst best \<longrightarrow>
     (\<exists>sc. scoreModesMessage (de_mode_s E) (dm_filter s) (dm_other s) (de_score_junk E) = Some sc \<and> score_value sc = fst best)))"

definition same_statics :: "demod \<Rightarrow> demod \<Rightarrow> bool" where
  "same_statics s s' \<longleftrightarrow> dm_last_end s' = dm_last_end s \<and> dm_short s' = dm_short s \<and> dm_long s' = dm_long s
     \<and> dm_filter s' = dm_filter s \<and> dm_events s' = dm_events s
     \<and> length (demod_accepted (dm_stats s')) = length (demod_accepted (dm_stats s))"

lemma same_statics_refl [simp]: "same_statics s s"
  by (simp add: same_statics_def)

lemma same_statics_trans: "same_statics a b \<Longrightarrow> same_statics b c \<Longrightarrow> same_statics a c"
  by (simp add: same_statics_def)

lemma same_statics_count [simp]:
  "same_statics s (reject_bad s)" "same_statics s (on_stats (\<lambda>t. t\<lparr>demod_preambles := f t\<rparr>) s)"
  "same_statics s (on_stats (\<lambda>t. t\<lparr>demod_rejected_unknown_icao := f t\<rparr>) s)"
  by (simp_all add: same_statics_def reject_bad_def on_stats_def)

lemma try_one_total:
  assumes E: "env_ok E" and s: "filter_inv (dm_filter s)" "bufs_ok s" and len: "j + 290 \<le> length m" "t \<le> 8"
    and best: "best_ok E (best, s)"
  shows "\<exists>best' s'. try_one E m j t (best, s) = Some (best', s') \<and> bufs_ok s' \<and> same_statics s s' \<and> best_ok E (best', s')
    \<and> fst best \<le> fst best'"
proof -
  obtain n buf where d: "demod_phase m (dm_short s) (dm_long s) j t (dm_msg s) = Some (n, buf)" "length buf = 14"
    using demod_phase_total [OF len, of "dm_msg s" "dm_short s" "dm_long s"] s(2) by (auto simp: bufs_ok_def)
  obtain sc where sc: "scoreModesMessage (de_mode_s E) (dm_filter s) buf (de_score_junk E) = Some sc"
    using scoreModesMessage_uniform [of "de_mode_s E" buf "dm_filter s"] E d(2) s(1) by (auto simp: env_ok_def)
  have "0 \<le> score_value sc" by (simp add: score_value_def)
  moreover obtain b p where "best = (b, p)" by (cases best)
  ultimately show ?thesis
    using d sc best s by (auto simp: try_one_def Let_def bufs_ok_def best_ok_def same_statics_def reject_bad_def on_stats_def)
qed

lemma try_phases_total:
  assumes "env_ok E" "filter_inv (dm_filter s)" "bufs_ok s" "j + 290 \<le> length m" "\<forall>t\<in>set ts. t \<le> 8" "best_ok E (best, s)"
  shows "\<exists>best' s'. try_phases E m j ts (best, s) = Some (best', s') \<and> bufs_ok s' \<and> same_statics s s' \<and> best_ok E (best', s')
    \<and> fst best \<le> fst best'"
  using assms(2,3,5,6)
proof (induction ts arbitrary: best s)
  case (Cons t ts)
  obtain b1 s1 where 1: "try_one E m j t (best, s) = Some (b1, s1)" "bufs_ok s1" "same_statics s s1" "best_ok E (b1, s1)"
    "fst best \<le> fst b1"
    using try_one_total [OF assms(1) Cons.prems(1,2) assms(4) _ Cons.prems(4), of t] Cons.prems(3) by auto
  obtain b2 s2 where "try_phases E m j ts (b1, s1) = Some (b2, s2)" "bufs_ok s2" "same_statics s1 s2" "best_ok E (b2, s2)"
    "fst b1 \<le> fst b2"
    using Cons.IH [of s1 b1] 1 Cons.prems(1,3) by (auto simp: same_statics_def)
  with 1 show ?case using same_statics_trans by fastforce
qed simp

lemma scaled_power_total: "p + n \<le> length m \<Longrightarrow> \<exists>x. scaled_power m p n acc = Some x"
  by (induction n arbitrary: p acc) (auto simp: c_simps Let_def)

lemma measure_power_total:
  assumes "j + 19 + n \<le> length m"
  obtains mm' s' where "measure_power m j n mm s = Some (mm', s')" "same_statics s s'" "dm_other s' = dm_other s" "dm_msg s' = dm_msg s"
    "verbatim mm' = verbatim mm" "score mm' = score mm"
proof -
  obtain x where "scaled_power m (j + 19) n 0 = Some x" using scaled_power_total [of "j + 19" n m 0] assms by auto
  then have "\<exists>mm' s'. measure_power m j n mm s = Some (mm', s') \<and> same_statics s s' \<and> dm_other s' = dm_other s \<and> dm_msg s' = dm_msg s
      \<and> verbatim mm' = verbatim mm \<and> score mm' = score mm"
    by (simp add: measure_power_def on_stats_def Let_def same_statics_def)
  then show ?thesis using that by blast
qed

lemma message_length: "nat (modesMessageLenByType x) \<in> {56, 112}"
  by (simp add: modesMessageLenByType_def)

lemma hand_on_total:
  assumes len: "j + 290 \<le> length m" "msglen \<in> {56, 112}" and ok: "demod_ok s"
  obtains j' s' mm' ev where "hand_on m j msglen mm s = Some (j', s')" "j \<le> j'" "dm_last_end s' = j' + 19" "j' \<le> j + 269"
    "demod_ok s'" "dm_other s' = dm_other s" "dm_msg s' = dm_msg s" "dm_short s' = dm_short s" "dm_events s' = dm_events s @ ev @ [UseModesMessage mm']"
    "\<forall>e\<in>set ev. \<exists>a n x. e = AdaptiveUpdate a n x" "verbatim mm' = verbatim mm" "score mm' = score mm"
proof -
  have room: "j + 19 + msglen * 12 div 5 \<le> length m" "j + (msglen + 8) * 12 div 5 \<le> length m" using len by auto
  obtain mm2 s3 where s3: "measure_power m j (msglen * 12 div 5) mm s = Some (mm2, s3)" "same_statics s s3" "dm_other s3 = dm_other s"
    "dm_msg s3 = dm_msg s" "verbatim mm2 = verbatim mm" "score mm2 = score mm"
    by (rule measure_power_total [OF room(1)])
  obtain s4 ev where s4: "(if j > dm_last_end s3 then feed_adaptive m (dm_last_end s3) (j - dm_last_end s3) None s3 else Some s3) = Some s4"
    "s4 = s3\<lparr>dm_events := dm_events s3 @ ev\<rparr>" "\<forall>e\<in>set ev. \<exists>a n x. e = AdaptiveUpdate a n x"
  proof (cases "j > dm_last_end s3")
    case True
    then show ?thesis
      using len(1) by (intro that [of _ "[AdaptiveUpdate (dm_last_end s3) (j - dm_last_end s3) None]"]) (simp_all add: feed_adaptive_def c_simps emit_def)
  qed (auto intro: that [of _ "[]"])
  define last_end where "last_end = j + (msglen + 8) * 12 div 5"
  have le: "j + 19 \<le> last_end" "last_end \<le> j + 288" "last_end - 19 + 19 = last_end" using len(2) by (auto simp: last_end_def)
  let ?s = "emit (UseModesMessage mm2) (emit (AdaptiveUpdate j (last_end - j) (Some mm2)) (s4\<lparr>dm_last_end := last_end\<rparr>))"
  have run: "hand_on m j msglen mm s = Some (last_end - 19, ?s)"
  proof -
    have "feed_adaptive m j (last_end - j) (Some mm2) (s4\<lparr>dm_last_end := last_end\<rparr>)
        = Some (emit (AdaptiveUpdate j (last_end - j) (Some mm2)) (s4\<lparr>dm_last_end := last_end\<rparr>))"
      using room(2) le by (simp add: feed_adaptive_def c_simps last_end_def)
    then show ?thesis unfolding hand_on_def using s3(1) s4(1) by (simp add: Let_def last_end_def)
  qed
  show ?thesis
    by (rule that [OF run, of "ev @ [AdaptiveUpdate j (last_end - j) (Some mm2)]" mm2])
      (use le s3(2-6) s4(2,3) ok in \<open>auto simp: emit_def same_statics_def demod_ok_def\<close>)
qed

text \<open>An accepted message: the search goes on behind it, and the last event hands it on.\<close>

lemma accept_message_total:
  assumes E: "env_ok E" and s: "demod_ok s" "bufs_ok s" "best_ok E (best, s)" and len: "j + 290 \<le> length (data mag)" "11 \<le> fst best"
  obtains j' s' mm ev where "accept_message E mag j best s = Some (j', s')" "j \<le> j'" "dm_last_end s' = j' + 19" "j' \<le> j + 269"
    "demod_ok s'" "dm_other s' = dm_other s" "dm_msg s' = dm_msg s" "dm_short s' = dm_short s" "dm_events s' = dm_events s @ ev @ [UseModesMessage mm]"
    "\<forall>e\<in>set ev. \<exists>a n x. e = AdaptiveUpdate a n x" "verbatim mm = dm_other s" "score mm = fst best"
proof -
  let ?inp = "dm_other s"
  have inp: "length ?inp = 14" "?inp \<noteq> []" using s(2) by (auto simp: bufs_ok_def)
  obtain sc where sc: "scoreModesMessage (de_mode_s E) (dm_filter s) ?inp (de_score_junk E) = Some sc" "score_value sc = fst best"
    using s(3) len(2) by (auto simp: best_ok_def)
  have m0: "length (msg (start_message mag j best)) = 14" "score (start_message mag j best) = score_value sc"
    by (simp_all add: start_message_def Let_def zeroMessage_def MODES_LONG_MSG_BYTES_def sc(2))
  obtain mm1 f k where dec: "decodeModesMessage (de_mode_s E) (de_score_junk E) (dm_filter s) (start_message mag j best) ?inp = Some (0, mm1, f, k)"
    "filter_inv f" "0 \<le> correctedbits mm1" "correctedbits mm1 \<le> 2" "verbatim mm1 = ?inp" "score mm1 = fst best"
    using decode_accepted [of "de_mode_s E" ?inp "start_message mag j best" "de_score_junk E" "dm_filter s" sc] E s(1) inp m0 sc len(2)
    by (auto simp: env_ok_def demod_ok_def)
  define s1 where "s1 = on_stats (\<lambda>t. t\<lparr>demod_cpr_filtered := demod_cpr_filtered t + of_nat k\<rparr>) (s\<lparr>dm_filter := f\<rparr>)"
  have "nat (correctedbits mm1) < 3" using dec(3,4) by simp
  then obtain s2 where s2: "count_accepted mm1 s1 = Some s2" "demod_ok s2" "dm_other s2 = ?inp" "dm_msg s2 = dm_msg s" "dm_short s2 = dm_short s" "dm_events s2 = dm_events s"
    using s(1) dec(2) by (auto simp: count_accepted_def c_simps s1_def on_stats_def demod_ok_def)
  define msglen where "msglen = nat (modesMessageLenByType (ucast (drop_bit 3 (?inp ! 0))))"
  have ml: "msglen \<in> {56, 112}" unfolding msglen_def by (rule message_length)
  have acc: "accept_message E mag j best s = hand_on (data mag) j msglen mm1 s2"
    using inp dec(1) s2(1) by (simp add: accept_message_def c_simps Let_def msglen_def s1_def)
  show ?thesis
    by (rule hand_on_total [OF len(1) ml s2(2), of mm1]) (rule that, (simp_all add: acc s2(3-6) dec(5,6)))
qed

text \<open>One position of the search: it ends, and never goes back.\<close>

lemma demod_at_total:
  assumes E: "env_ok E" and s: "demod_ok s" "bufs_ok s" and len: "j + 290 \<le> length (data mag)" and le: "dm_last_end s \<le> n"  "j + 288 \<le> n"
  shows "\<exists>j' s'. demod_at E mag j s = Some (j', s') \<and> j \<le> j' \<and> demod_ok s' \<and> bufs_ok s' \<and> dm_last_end s' \<le> n
    \<and> (\<exists>ev. dm_events s' = dm_events s @ ev)"
proof (cases "preamble_at (data mag) j = Some True")
  case False
  then have "preamble_at (data mag) j = Some False" using len by (auto simp: preamble_at_def c_simps)
  then show ?thesis using s le by (simp add: demod_at_def)
next
  case True
  define s0 where "s0 = on_stats (\<lambda>t. t\<lparr>demod_preambles := demod_preambles t + 1\<rparr>) s"
  have s0: "demod_ok s0" "bufs_ok s0" "best_ok E ((score_value SR_NOT_SET, 0), s0)" "dm_last_end s0 = dm_last_end s" "dm_events s0 = dm_events s"
    using s by (auto simp: s0_def on_stats_def demod_ok_def bufs_ok_def best_ok_def)
  obtain best s1 where t: "try_phases E (data mag) j [4, 5, 6, 7, 8] ((score_value SR_NOT_SET, 0), s0) = Some (best, s1)"
    "bufs_ok s1" "same_statics s0 s1" "best_ok E (best, s1)"
    using try_phases_total [OF E _ s0(2) len _ s0(3), of "[4, 5, 6, 7, 8]"] s0(1) by (auto simp: demod_ok_def)
  have s1: "demod_ok s1" "dm_last_end s1 = dm_last_end s" "dm_events s1 = dm_events s"
    using t(3) s0 by (simp_all add: demod_ok_def same_statics_def)
  show ?thesis
  proof (cases "fst best < score_value SR_ACCEPT_THRESHOLD")
    case True
    then show ?thesis
      using t(1,2) s1 le \<open>preamble_at (data mag) j = Some True\<close>
      by (simp add: demod_at_def s0_def [symmetric] Let_def del: try_phases.simps) (simp add: on_stats_def reject_bad_def demod_ok_def bufs_ok_def)
  next
    case False
    then have b: "11 \<le> fst best" by simp
    obtain j' s' where a: "accept_message E mag j best s1 = Some (j', s')" "j \<le> j'" "dm_last_end s' = j' + 19" "j' \<le> j + 269" "demod_ok s'"
      "bufs_ok s'" "\<exists>ev. dm_events s' = dm_events s @ ev"
      using accept_message_total [OF E s1(1) t(2,4) len b] t(2) s1(3) by (metis bufs_ok_def)
    then show ?thesis
      using t(1) False \<open>preamble_at (data mag) j = Some True\<close> le
      by (auto simp: demod_at_def s0_def [symmetric] Let_def simp del: try_phases.simps)
  qed
qed


subsection \<open>A buffer\<close>

lemma demod_loop_total:
  assumes E: "env_ok E" and len: "mlen + 289 \<le> length (data mag)"
  shows "demod_ok s \<Longrightarrow> bufs_ok s \<Longrightarrow> dm_last_end s \<le> mlen + 287 \<Longrightarrow> mlen \<le> j + n \<Longrightarrow>
    \<exists>s'. demod_loop E mag mlen n j s = Some s' \<and> demod_ok s' \<and> dm_last_end s' \<le> mlen + 287
      \<and> (\<exists>ev. dm_events s' = dm_events s @ ev)"
proof (induction n arbitrary: j s)
  case (Suc n)
  show ?case
  proof (cases "j < mlen")
    case True
    obtain j' s' where s': "demod_at E mag j s = Some (j', s')" "j \<le> j'" "demod_ok s'" "bufs_ok s'" "dm_last_end s' \<le> mlen + 287"
      "\<exists>ev. dm_events s' = dm_events s @ ev"
      using demod_at_total [OF E Suc.prems(1,2), of j mag "mlen + 287"] Suc.prems(3) len True by auto
    with Suc.IH [of s' "j' + 1"] Suc.prems(4) True show ?thesis by auto
  qed (use Suc.prems in auto)
qed auto

text \<open>The buffer: the samples exist, and the overlap is at least the lookahead.\<close>

definition buffer_ok :: "mag_buf \<Rightarrow> bool" where
  "buffer_ok mag \<longleftrightarrow> 289 \<le> overlap mag \<and> overlap mag \<le> validLength mag \<and> validLength mag \<le> length (data mag) \<and> validLength mag < 2 ^ 32"

lemma mag_len: "buffer_ok mag \<Longrightarrow> mag_len mag = validLength mag - overlap mag"
proof -
  assume "buffer_ok mag"
  then have b: "overlap mag \<le> validLength mag" "validLength mag < 2 ^ 32" by (simp_all add: buffer_ok_def)
  then have "of_nat (validLength mag) - of_nat (overlap mag) = (of_nat (validLength mag - overlap mag) :: u32)" by simp
  moreover have "validLength mag - overlap mag < 2 ^ 32" using b by simp
  ultimately show ?thesis unfolding mag_len_def by (simp add: unat_of_nat)
qed

lemma demod_finish_total:
  assumes "buffer_ok mag" "dm_last_end s \<le> mag_len mag + 287" "demod_ok s"
  shows "\<exists>s'. demod_finish mag s = Some s' \<and> demod_ok s' \<and> dm_last_end s' \<le> 287 \<and> (\<exists>ev. dm_events s' = dm_events s @ ev)"
proof -
  have "mag_len mag \<le> length (data mag)" using mag_len [OF assms(1)] assms(1) by (auto simp: buffer_ok_def)
  then show ?thesis
    using assms(2,3) by (auto simp: demod_finish_def Let_def feed_adaptive_def c_simps on_stats_def emit_def demod_ok_def)
qed

text \<open>What \<open>demodulate2400\<close> does before the loop.\<close>

lemma demodulate2400_start:
  assumes "env_ok E" "buffer_ok mag" "demod_ok s"
  obtains s4 where "demodulate2400 E mag s = demod_loop E mag (mag_len mag) (mag_len mag) (dm_last_end s4) s4 \<bind> demod_finish mag"
    "demod_ok s4" "bufs_ok s4" "dm_last_end s4 \<le> mag_len mag" "dm_last_end s4 \<le> dm_last_end s" "dm_events s4 = dm_events s"
    "dm_filter s4 = dm_filter s" "dm_long s4 = (if dm_short s = 0 then snd (init_bitsets (de_mode_s E)) else dm_long s)"
proof -
  define s1 where "s1 = (if dm_short s = 0 then case init_bitsets (de_mode_s E) of (short, long) \<Rightarrow> s\<lparr>dm_short := short, dm_long := long\<rparr> else s)"
  define s2 where "s2 = (if flags mag AND MAGBUF_DISCONTINUOUS \<noteq> 0 then s1\<lparr>dm_last_end := 0\<rparr> else s1)"
  define s3 where "s3 = s2\<lparr>dm_msg := fst (de_msg_junk E), dm_other := snd (de_msg_junk E), dm_sum := 0\<rparr>"
  define s4 where "s4 = (if dm_last_end s3 > mag_len mag then s3\<lparr>dm_last_end := mag_len mag\<rparr> else s3)"
  have s1: "demod_ok s1" "dm_last_end s1 = dm_last_end s" "dm_events s1 = dm_events s" "dm_filter s1 = dm_filter s"
    "dm_long s1 = (if dm_short s = 0 then snd (init_bitsets (de_mode_s E)) else dm_long s)"
    using assms(3) by (simp_all add: s1_def demod_ok_def split: prod.split)
  have run: "demodulate2400 E mag s = demod_loop E mag (mag_len mag) (mag_len mag) (dm_last_end s4) s4 \<bind> demod_finish mag"
    unfolding demodulate2400_def Let_def s1_def [symmetric] s2_def [symmetric] s3_def [symmetric] s4_def [symmetric]
    using assms(2) by (simp add: c_simps buffer_ok_def)
  show ?thesis
    by (rule that [OF run]) (use s1 assms(1) in \<open>simp_all add: s4_def s3_def s2_def demod_ok_def bufs_ok_def env_ok_def\<close>)
qed

lemma buffer_room: "buffer_ok mag \<Longrightarrow> mag_len mag + 289 \<le> length (data mag)"
  using mag_len [of mag] by (auto simp: buffer_ok_def)

lemma demodulate2400_run:
  assumes "env_ok E" "buffer_ok mag" "demod_ok s"
  shows "\<exists>s'. demodulate2400 E mag s = Some s' \<and> demod_ok s' \<and> dm_last_end s' \<le> 287"
proof -
  obtain s4 where s4: "demodulate2400 E mag s = demod_loop E mag (mag_len mag) (mag_len mag) (dm_last_end s4) s4 \<bind> demod_finish mag"
    "demod_ok s4" "bufs_ok s4" "dm_last_end s4 \<le> mag_len mag"
    by (rule demodulate2400_start [OF assms])
  from demod_loop_total [OF assms(1) buffer_room [OF assms(2)] s4(2,3), of "dm_last_end s4" "mag_len mag"] s4(4)
  obtain s5 where s5: "demod_loop E mag (mag_len mag) (mag_len mag) (dm_last_end s4) s4 = Some s5" "demod_ok s5" "dm_last_end s5 \<le> mag_len mag + 287"
    by auto
  then show ?thesis using demod_finish_total [OF assms(2) s5(3,2)] s4(1) by auto
qed

subsection \<open>Preambles\<close>

text \<open>A transmission: the preamble with its pulses at 0, 1, 3.5 and 4.5 microseconds, and then the data.\<close>

definition pulses :: "nat list" where
  "pulses = [0, 2, 7, 9]"

definition transmits :: "(nat \<Rightarrow> bool) \<Rightarrow> nat \<Rightarrow> u8 list \<Rightarrow> bool" where
  "transmits on u ms \<longleftrightarrow> (\<forall>symbol<16. \<forall>r<6. on (u + 6 * symbol + r) = (symbol \<in> set pulses)) \<and> carries on (u + 96) (msg_bits ms)"

text \<open>The samples of the preamble without noise, and nothing before it in its first sample.\<close>

definition clear_preamble :: "int \<Rightarrow> int \<Rightarrow> (nat \<Rightarrow> bool) \<Rightarrow> u16 list \<Rightarrow> nat \<Rightarrow> nat \<Rightarrow> bool" where
  "clear_preamble A D on m j k \<longleftrightarrow> 0 < A \<and> 0 \<le> D \<and> 2 * D \<le> 17 * A \<and> j + 19 \<le> length m
     \<and> (\<forall>i<19. int (unat (m ! (j + i))) = D + A * energy on (j + i)) \<and> (\<forall>r<k. \<not> on (5 * j + r))"

text \<open>The energy of the nineteen samples, for each phase.\<close>

definition preamble_energy :: "nat \<Rightarrow> int list" where
  "preamble_energy k = List.map (\<lambda>i. sum_list (List.map (\<lambda>r. of_bool (k \<le> 5 * i + r \<and> (5 * i + r - k) div 6 \<in> set pulses)) [0..<5])) [0..<19]"

lemma preamble_units:
  assumes "transmits on (5 * j + k) ms" "\<forall>r<k. \<not> on (5 * j + r)" "k \<le> 7" "v < 95"
  shows "on (5 * j + v) = (k \<le> v \<and> (v - k) div 6 \<in> set pulses)"
proof (cases "v < k")
  case False
  define w where "w = v - k"
  have w: "v = k + (6 * (w div 6) + w mod 6)" "w div 6 < 16" using False assms(4) by (auto simp: w_def)
  have q: "symbol < 16 \<Longrightarrow> r < 6 \<Longrightarrow> on (5 * j + k + 6 * symbol + r) = (symbol \<in> set pulses)" for symbol r
    using assms(1) by (simp add: transmits_def)
  have "on (5 * j + k + 6 * (w div 6) + w mod 6) = (w div 6 \<in> set pulses)"
    by (rule q) (use w(2) in simp_all)
  then show ?thesis using False w(1) by (simp add: w_def [symmetric] add.assoc)
qed (use assms(2) in simp)

lemma preamble_energy:
  assumes "transmits on (5 * j + k) ms" "\<forall>r<k. \<not> on (5 * j + r)" "k \<le> 7" "i < 19"
  shows "energy on (j + i) = preamble_energy k ! i"
proof -
  have "energy on (j + i) = sum_list (List.map (\<lambda>r. of_bool (on (5 * j + (5 * i + r)))) [0..<5])"
    by (simp add: energy_def algebra_simps)
  also have "\<dots> = sum_list (List.map (\<lambda>r. of_bool (k \<le> 5 * i + r \<and> (5 * i + r - k) div 6 \<in> set pulses)) [0..<5])"
  proof (intro arg_cong [where f = sum_list] map_cong refl)
    fix r assume "r \<in> set [0..<5]"
    then have "5 * i + r < 95" using assms(4) by simp
    then show "of_bool (on (5 * j + (5 * i + r))) = (of_bool (k \<le> 5 * i + r \<and> (5 * i + r - k) div 6 \<in> set pulses) :: int)"
      using preamble_units [OF assms(1-3)] by simp
  qed
  also have "\<dots> = preamble_energy k ! i" using assms(4) by (simp add: preamble_energy_def)
  finally show ?thesis .
qed

lemma preamble_energies:
  "preamble_energy 3 = [2, 4, 0, 5, 1, 0, 0, 0, 0, 5, 1, 3, 3, 0, 0, 0, 0, 0, 0]"
  "preamble_energy 4 = [1, 5, 0, 4, 2, 0, 0, 0, 0, 4, 2, 2, 4, 0, 0, 0, 0, 0, 0]"
  "preamble_energy 5 = [0, 5, 1, 3, 3, 0, 0, 0, 0, 3, 3, 1, 5, 0, 0, 0, 0, 0, 0]"
  "preamble_energy 6 = [0, 4, 2, 2, 4, 0, 0, 0, 0, 2, 4, 0, 5, 1, 0, 0, 0, 0, 0]"
  "preamble_energy 7 = [0, 3, 3, 1, 5, 0, 0, 0, 0, 1, 5, 0, 4, 2, 0, 0, 0, 0, 0]"
  by code_simp+

lemma clear_preamble_found:
  assumes "transmits on (5 * j + k) ms" "clear_preamble A D on m j k" "3 \<le> k" "k \<le> 7"
  shows "preamble_at m j = Some True"
proof -
  note c = assms(2) [unfolded clear_preamble_def]
  define p where "p = (\<lambda>i. int (unat (m ! (j + i))))"
  have p: "p i = D + A * preamble_energy k ! i" if "i < 19" for i
    using preamble_energy [OF assms(1) _ assms(4) that] c that by (simp add: p_def)
  have A: "0 < A" "0 \<le> D" "2 * D \<le> 17 * A" using c by simp_all
  have "good_preamble p"
  proof -
    consider "k = 3" | "k = 4" | "k = 5" | "k = 6" | "k = 7" using assms(3,4) by linarith
    then show ?thesis
      using A by cases (simp_all add: good_preamble_def match_preamble_def p preamble_energies)
  qed
  then show ?thesis using c by (simp add: preamble_at_def c_simps p_def)
qed


subsection \<open>A transmission is heard\<close>

lemma try_phases_append:
  "try_phases E m j (ts @ us) r = try_phases E m j ts r \<bind> try_phases E m j us"
proof (induction ts arbitrary: r)
  case (Cons t ts)
  then show ?case by (cases "try_one E m j t r") simp_all
qed simp

lemma try_one_score:
  assumes "demod_phase m (dm_short s) (dm_long s) j t (dm_msg s) = Some (14, ms)"
    and "scoreModesMessage (de_mode_s E) (dm_filter s) ms (de_score_junk E) = Some sc" "try_one E m j t (best, s) = Some (best', s')"
  shows "score_value sc \<le> fst best'"
  using assms by (auto simp: try_one_def Let_def split: if_splits)

text \<open>The best of the phases is at least as good as what was sent.\<close>

lemma try_phases_best:
  assumes E: "env_ok E" and s: "filter_inv (dm_filter s)" "bufs_ok s" "best_ok E (best, s)" and len: "j + 290 \<le> length m"
    and sent: "received A D on m" "carries on (5 * (j + 19) + t) (msg_bits ms)" "length ms = 14" "bit (dm_long s) (unat (drop_bit 3 (hd ms)))"
    and t: "ts = pre @ t # post" "\<forall>t\<in>set ts. t \<le> 8"
    and sc: "scoreModesMessage (de_mode_s E) (dm_filter s) ms (de_score_junk E) = Some sc"
    and run: "try_phases E m j ts (best, s) = Some (best', s')"
  shows "score_value sc \<le> fst best'"
proof -
  obtain b1 s1 where 1: "try_phases E m j pre (best, s) = Some (b1, s1)" "bufs_ok s1" "same_statics s s1" "best_ok E (b1, s1)"
    using try_phases_total [OF E s(1,2) len _ s(3), of pre] t by auto
  have f1: "filter_inv (dm_filter s1)" using 1(3) s(1) by (simp add: same_statics_def)
  have t8: "t \<le> 8" using t by simp
  obtain b2 s2 where 2: "try_one E m j t (b1, s1) = Some (b2, s2)" "bufs_ok s2" "same_statics s1 s2" "best_ok E (b2, s2)"
    using try_one_total [OF E f1 1(2) len t8 1(4)] by auto
  obtain b3 s3 where 3: "try_phases E m j post (b2, s2) = Some (b3, s3)" "fst b2 \<le> fst b3"
    using try_phases_total [OF E _ 2(2) len _ 2(4), of post] t f1 2(3) by (auto simp: same_statics_def)
  have "demod_phase m (dm_short s1) (dm_long s1) j t (dm_msg s1) = Some (length ms, ms @ drop (length ms) (dm_msg s1))"
    by (rule demod_phase_carries [OF sent(1,2) len t8]) (use 1(2,3) sent(3,4) in \<open>simp_all add: bufs_ok_def same_statics_def\<close>)
  then have "demod_phase m (dm_short s1) (dm_long s1) j t (dm_msg s1) = Some (14, ms)"
    using sent(3) 1(2) by (simp add: bufs_ok_def)
  then have "score_value sc \<le> fst b2"
    by (rule try_one_score [OF _ _ 2(1)]) (use sc 1(3) in \<open>simp add: same_statics_def\<close>)
  moreover have "best' = b3" using run 1(1) 2(1) 3(1) by (simp add: t(1) try_phases_append)
  ultimately show ?thesis using 3(2) by simp
qed

lemma transmission_heard:
  assumes E: "env_ok E" and s: "demod_ok s" "bufs_ok s" and len: "j + 290 \<le> length (data mag)"
    and sent: "transmits on (5 * j + k) ms" "3 \<le> k" "k \<le> 7" "clear_preamble A D on (data mag) j k" "received A D on (data mag)"
    and ms: "length ms = 14" "bit (dm_long s) (unat (drop_bit 3 (hd ms)))"
      "scoreModesMessage (de_mode_s E) (dm_filter s) ms (de_score_junk E) = Some sc" "score_value SR_ACCEPT_THRESHOLD \<le> score_value sc"
  obtains j' s' ev mm best where "demod_at E mag j s = Some (j', s')" "j \<le> j'" "demod_ok s'" "bufs_ok s'" "dm_last_end s' \<le> j + 288"
    "dm_events s' = dm_events s @ ev @ [UseModesMessage mm]"
    "scoreModesMessage (de_mode_s E) (dm_filter s) (verbatim mm) (de_score_junk E) = Some best" "score mm = score_value best"
    "score_value sc \<le> score_value best" "length (verbatim mm) = 14"
proof -
  have pre: "preamble_at (data mag) j = Some True" by (rule clear_preamble_found [OF sent(1,4,2,3)])
  have c: "carries on (5 * (j + 19) + (k + 1)) (msg_bits ms)" using sent(1) by (simp add: transmits_def algebra_simps)
  define s0 where "s0 = on_stats (\<lambda>t. t\<lparr>demod_preambles := demod_preambles t + 1\<rparr>) s"
  have s0: "demod_ok s0" "bufs_ok s0" "best_ok E ((score_value SR_NOT_SET, 0), s0)" "dm_filter s0 = dm_filter s" "dm_long s0 = dm_long s"
    "dm_events s0 = dm_events s"
    using s by (auto simp: s0_def on_stats_def demod_ok_def bufs_ok_def best_ok_def)
  have f0: "filter_inv (dm_filter s0)" using s0(1) by (simp add: demod_ok_def)
  obtain best s1 where t: "try_phases E (data mag) j [4, 5, 6, 7, 8] ((score_value SR_NOT_SET, 0), s0) = Some (best, s1)"
    "bufs_ok s1" "same_statics s0 s1" "best_ok E (best, s1)"
    using try_phases_total [OF E f0 s0(2) len _ s0(3), of "[4, 5, 6, 7, 8]"] by auto
  have "k + 1 \<in> set [4, 5, 6, 7, 8]" using sent(2,3) by auto
  then obtain pre' post where ts: "[4, 5, 6, 7, 8] = pre' @ (k + 1) # post" by (metis split_list)
  have best: "score_value sc \<le> fst best"
    by (rule try_phases_best [OF E f0 s0(2,3) len sent(5) c ms(1) _ ts _ _ t(1)]) (use ms s0(4,5) in simp_all)
  have s1: "demod_ok s1" using t(3) s0(1) by (simp add: demod_ok_def same_statics_def)
  have b11: "11 \<le> fst best" using best ms(4) by simp
  obtain j' s' mm ev where a: "accept_message E mag j best s1 = Some (j', s')" "j \<le> j'" "dm_last_end s' = j' + 19" "j' \<le> j + 269"
    "demod_ok s'" "dm_other s' = dm_other s1" "dm_msg s' = dm_msg s1" "dm_events s' = dm_events s1 @ ev @ [UseModesMessage mm]"
    "verbatim mm = dm_other s1" "score mm = fst best"
    using accept_message_total [OF E s1 t(2,4) len b11] by metis
  obtain sc' where sc': "scoreModesMessage (de_mode_s E) (dm_filter s) (dm_other s1) (de_score_junk E) = Some sc'" "score_value sc' = fst best"
    using t(3,4) b11 s0(4) by (auto simp: best_ok_def same_statics_def)
  have d: "demod_at E mag j s = Some (j', s')"
    using pre t(1) b11 a(1) by (simp add: demod_at_def s0_def [symmetric] Let_def del: try_phases.simps)
  have ev: "dm_events s1 = dm_events s" using t(3) s0(6) by (simp add: same_statics_def)
  show ?thesis
    by (rule that [OF d, of ev mm sc']) (use a t(2) sc' ev best in \<open>simp_all add: bufs_ok_def\<close>)
qed


subsection \<open>Modulation\<close>

text \<open>The units in which a transmission is on, and its samples without noise.\<close>

definition keyed :: "nat \<Rightarrow> u8 list \<Rightarrow> nat \<Rightarrow> bool" where
  "keyed u ms v \<longleftrightarrow> u \<le> v \<and>
     (if v - u < 96 then (v - u) div 6 \<in> set pulses
      else let i = (v - u - 96) div 12 in i < length (msg_bits ms) \<and> ((v - u - 96) mod 12 < 6) = msg_bits ms ! i)"

definition modulate :: "int \<Rightarrow> (nat \<Rightarrow> bool) \<Rightarrow> nat \<Rightarrow> u16 list" where
  "modulate A on n = List.map (\<lambda>k. word_of_int (A * energy on k)) [0..<n]"

lemma keyed_transmits: "transmits (keyed u ms) u ms"
proof -
  have "keyed u ms (u + 6 * symbol + r) = (symbol \<in> set pulses)" if "symbol < 16" "r < 6" for symbol r
    using that by (simp add: keyed_def)
  moreover have "carries_bit (keyed u ms) (u + 96 + 12 * i) (msg_bits ms ! i)" if "i < length (msg_bits ms)" for i
    unfolding carries_bit_def
  proof (intro allI impI)
    fix r :: nat assume r: "r < 6"
    have q: "(12 * i + r) div 12 = i" "(12 * i + r) mod 12 = r" using r by simp_all
    have e: "6 + (12 * i + r) = (6 + r) + 12 * i" by simp
    have "(6 + (12 * i + r)) div 12 = i" "(6 + (12 * i + r)) mod 12 = 6 + r"
      unfolding e using r by (simp_all only: div_mult_self2 mod_mult_self2) simp_all
    then show "keyed u ms (u + 96 + 12 * i + r) = msg_bits ms ! i \<and> keyed u ms (u + 96 + 12 * i + 6 + r) = (\<not> msg_bits ms ! i)"
      using that r q by (simp add: keyed_def Let_def add.assoc)
  qed
  ultimately show ?thesis by (simp add: transmits_def carries_def)
qed

lemma energy_range: "0 \<le> energy on k \<and> energy on k \<le> 5"
  by (simp add: energy_def numeral_eq_Suc)

lemma modulate_nth:
  assumes "0 < A" "A < 13000" "k < n"
  shows "uint (modulate A on n ! k) = A * energy on k"
proof -
  have e: "0 \<le> A * energy on k" "A * energy on k \<le> A * 5" using energy_range [of on k] assms(1) by simp_all
  then have "A * energy on k < 2 ^ 16" using assms(2) by simp
  with e(1) have "uint (word_of_int (A * energy on k) :: u16) = A * energy on k"
    unfolding uint_word_of_int by simp
  then show ?thesis using assms(3) by (simp add: modulate_def del: of_int_mult)
qed

lemma length_modulate [simp]: "length (modulate A on n) = n"
  by (simp add: modulate_def)

lemma modulate_received: "0 < A \<Longrightarrow> A < 13000 \<Longrightarrow> received A 0 on (modulate A on n)"
  by (simp add: received_def modulate_nth)

lemma modulate_clear:
  assumes "0 < A" "A < 13000" "j + 19 \<le> n" "k \<le> 7" "on = keyed (5 * j + k) ms"
  shows "clear_preamble A 0 on (modulate A on n) j k"
  using assms by (simp add: clear_preamble_def modulate_nth) (simp add: keyed_def)

end
