(* ===== verification/DemodHeard.thy ===== *)
theory DemodHeard
  imports DemodCorrect
begin

text \<open>
  What the demodulator guarantees for a whole buffer: it is safe on any samples, it recovers a message from
  noisy samples, and a transmission in an otherwise silent buffer is demodulated, accepted and handed on.
\<close>

subsection \<open>A buffer with a single transmission\<close>

text \<open>
  The samples are the background level \<open>D\<close> and, from unit \<open>k\<close> of sample \<open>j\<close> on, a transmission of
  amplitude \<open>A\<close>. The amplitude is large enough to be told from the background.
\<close>

definition single_transmission :: "int \<Rightarrow> int \<Rightarrow> nat \<Rightarrow> nat \<Rightarrow> u8 list \<Rightarrow> u16 list \<Rightarrow> bool" where
  "single_transmission A D j k ms m \<longleftrightarrow> 0 < A \<and> 0 \<le> D \<and> 2 * D \<le> 17 * A \<and> 3 \<le> k \<and> k \<le> 7
     \<and> (\<forall>i<length m. int (unat (m ! i)) = D + A * energy (keyed (5 * j + k) ms) i)"

lemma energy_silent: "\<forall>r<5. \<not> on (5 * i + r) \<Longrightarrow> energy on i = 0"
proof -
  assume a: "\<forall>r<5. \<not> on (5 * i + r)"
  have "List.map (\<lambda>r. of_bool (on (5 * i + r)) :: int) [0..<5] = List.map (\<lambda>_. 0) [0..<5]"
    by (rule map_cong) (use a in auto)
  then show ?thesis unfolding energy_def by (simp only:) simp
qed

lemma single_preamble:
  assumes "single_transmission A D j k ms m" "j + 19 \<le> length m"
  shows "clear_preamble A D (keyed (5 * j + k) ms) m j k" "received A D (keyed (5 * j + k) ms) m"
  using assms by (simp_all add: single_transmission_def clear_preamble_def received_def) (simp add: keyed_def)

text \<open>Before the transmission no preamble is found, not even one sample early.\<close>

lemma no_early_preamble:
  assumes st: "single_transmission A D j k ms m" and i: "i < j" "j + 19 \<le> length m"
  shows "preamble_at m i = Some False"
proof -
  let ?on = "keyed (5 * j + k) ms"
  define p where "p = (\<lambda>x. int (unat (m ! (i + x))))"
  note a = st [unfolded single_transmission_def]
  have p: "p x = D + A * energy ?on (i + x)" if "x < 19" for x using a i that by (simp add: p_def)
  have silent: "energy ?on x = 0" if "x < j" for x
    by (rule energy_silent) (use that in \<open>auto simp: keyed_def\<close>)
  have "\<not> good_preamble p"
  proof (cases "i + 1 = j")
    case False
    then have "p 0 = p 1" using silent [of i] silent [of "i + 1"] i(1) p [of 0] p [of 1] by simp
    then show ?thesis by (simp add: good_preamble_def match_preamble_def)
  next
    case True
    have quiet: "\<forall>r<k. \<not> ?on (5 * j + r)" by (simp add: keyed_def)
    have e: "energy ?on (j + x) = preamble_energy k ! x" if "x < 19" for x
      by (rule preamble_energy [OF keyed_transmits quiet _ that]) (use a in simp)
    have i: "i + 1 = j" "i + 12 = j + 11" "i + 13 = j + 12" using True by simp_all
    have p1: "p 0 = D" "p 1 = D + A * preamble_energy k ! 0" "p 12 = D + A * preamble_energy k ! 11" "p 13 = D + A * preamble_energy k ! 12"
      using p [of 0] p [of 1, unfolded i] p [of 12, unfolded i] p [of 13, unfolded i] silent [of i] e [of 0] e [of 11] e [of 12] True by simp_all
    have "\<not> (p 0 < p 1 \<and> p 12 > p 13)"
    proof -
      consider "k = 3" | "k = 4" | "k = 5" | "k = 6" | "k = 7" using a by linarith
      then show ?thesis using a by cases (simp_all add: p1 preamble_energies)
    qed
    then show ?thesis by (simp add: good_preamble_def match_preamble_def)
  qed
  then show ?thesis using i by (simp add: preamble_at_def c_simps p_def)
qed

text \<open>The loop passes over positions without a preamble.\<close>

lemma demod_loop_skip:
  "a \<le> j \<Longrightarrow> j < mlen \<Longrightarrow> \<forall>i\<in>{a..<j}. preamble_at (data mag) i = Some False \<Longrightarrow> mlen - a \<le> n \<Longrightarrow>
   \<exists>n'. demod_loop E mag mlen n a s = demod_loop E mag mlen (Suc n') j s \<and> mlen - j \<le> Suc n'"
proof (induction n arbitrary: a)
  case (Suc n)
  show ?case
  proof (cases "a = j")
    case False
    then have "demod_at E mag a s = Some (a, s)" using Suc.prems(1,3) by (simp add: demod_at_def)
    then have "demod_loop E mag mlen (Suc n) a s = demod_loop E mag mlen n (a + 1) s" using Suc.prems(1,2) by simp
    then show ?thesis using Suc.IH [of "a + 1"] Suc.prems False by auto
  qed (use Suc.prems in auto)
qed simp

text \<open>The first byte of a message carries its format.\<close>

lemma format_byte:
  assumes "length ms = 14"
  shows "unat (drop_bit 3 (hd ms)) = unat (getbits ms 1 5)"
proof -
  have "hd ms = ms ! 0" using assms by (simp add: hd_conv_nth flip: length_greater_0_conv)
  moreover have "bit (ucast (drop_bit 3 (ms ! 0)) :: u32) n = bit (getbits ms 1 5) n" if "n < 32" for n
  proof (cases "n \<le> 4")
    case True
    then have "7 - (4 - n) = 3 + n" by simp
    then show ?thesis using True that by (simp add: bit_getbits msg_bit_def bit_simps)
  next
    case False
    then have "\<not> bit (ms ! 0) (3 + n)" using bit_imp_le_length [of "ms ! 0" "3 + n"] by auto
    then show ?thesis using False that by (simp add: bit_getbits bit_simps)
  qed
  ultimately have "ucast (drop_bit 3 (hd ms)) = getbits ms 1 5" by (intro bit_word_eqI) simp
  moreover have "unat (ucast x :: u32) = unat x" for x :: u8
    using unsigned_less [of x, where ?'a = nat] by (simp add: unsigned_ucast_eq take_bit_nat_eq_self)
  ultimately show ?thesis by metis
qed

lemma long_formats: "bit (snd (init_bitsets env)) 17"
  by (simp add: init_bitsets_def Let_def bit_simps)

text \<open>The bit sets are set up, or are what an earlier call set up.\<close>

definition bitsets_ok :: "demod_env \<Rightarrow> demod \<Rightarrow> bool" where
  "bitsets_ok E s \<longleftrightarrow> dm_short s = 0 \<or> (dm_short s, dm_long s) = init_bitsets (de_mode_s E)"

lemma bitsets_long: "bitsets_ok E s \<Longrightarrow> bit (if dm_short s = 0 then snd (init_bitsets (de_mode_s E)) else dm_long s) 17"
  using long_formats [of "de_mode_s E"] by (auto simp: bitsets_ok_def dest: sym)

text \<open>A DF17 message with a correct checksum.\<close>

definition valid_df17 :: "demod_env \<Rightarrow> u8 list \<Rightarrow> bool" where
  "valid_df17 E ms \<longleftrightarrow> length ms = 14 \<and> getbits ms 1 5 = 17 \<and> modesChecksum (crc_table (e_crc (de_mode_s E))) ms 112 = Some 0"

subsection \<open>Example\<close>

definition example_demod_env :: "crc_globals \<Rightarrow> mode_ac_tables \<Rightarrow> libm \<Rightarrow> demod_env" where
  "example_demod_env g t L = \<lparr>de_mode_s = example_env g t L, de_score_junk = replicate 14 0,
     de_msg_junk = (replicate 14 0, replicate 14 0), de_sqrt = id, de_sqrtf = id\<rparr>"

definition example_demod :: demod where
  "example_demod = \<lparr>dm_last_end = 0, dm_short = 0, dm_long = 0, dm_filter = icaoFilterInit,
     dm_stats = \<lparr>demod_preambles = 0, demod_rejected_bad = 0, demod_rejected_unknown_icao = 0, demod_accepted = [0, 0, 0],
       demod_modeac = 0, demod_cpr_filtered = 0, noise_power_sum = 0, noise_power_count = 0, signal_power_sum = 0,
       signal_power_count = 0, peak_signal_power = 0, strong_signal_count = 0\<rparr>,
     dm_events = [], dm_msg = [], dm_other = [], dm_sum = 0\<rparr>"

text \<open>The message begins at unit 4 of sample 20.\<close>

definition example_samples :: "u16 list" where
  "example_samples = modulate 10000 (keyed 104 df17_example) 700"

definition example_buffer :: mag_buf where
  "example_buffer = \<lparr>data = example_samples, totalLength = 700, validLength = 700, overlap = 300,
     sampleTimestamp = 0, sysTimestamp = 0, flags = 0, mean_level = 0, mean_power = 0, dropped = 0, next_buf = None\<rparr>"

lemma example_demod_ok:
  "modesChecksumInit 1 crc_globals_start = Some g \<Longrightarrow> env_ok (example_demod_env g t L)" "buffer_ok example_buffer" "demod_ok example_demod"
  "bitsets_ok E example_demod" "mag_len example_buffer = 400"
  using filter_inv_Init
  by (auto simp: env_ok_def example_demod_env_def example_env_def crc_ready_def buffer_ok_def example_buffer_def example_samples_def
      demod_ok_def example_demod_def bitsets_ok_def mag_len_def)

subsection \<open>Properties\<close>

text \<open>
  C9. Safety and termination. For every buffer whose overlap covers the lookahead of 289 samples, whatever
  the samples are, the demodulator ends, reads and hands on only samples of the buffer, counts within its
  arrays, and leaves the position where the next buffer is taken up inside of that buffer's overlap.
\<close>

theorem demodulate2400_safe:
  assumes "env_ok E" "buffer_ok mag" "demod_ok s"
  shows "\<exists>s'. demodulate2400 E mag s = Some s' \<and> demod_ok s' \<and> dm_last_end s' < overlap mag"
  using demodulate2400_run [OF assms] assms(2) by (auto simp: buffer_ok_def)

theorem demodulate2400_safe_witness:
  "\<exists>g. modesChecksumInit 1 crc_globals_start = Some g \<and>
     (\<forall>t L. \<exists>s'. demodulate2400 (example_demod_env g t L) example_buffer example_demod = Some s' \<and> dm_last_end s' < 300)"
proof -
  obtain g where g: "modesChecksumInit 1 crc_globals_start = Some g" using example_tables by blast
  have "overlap example_buffer = 300" by (simp add: example_buffer_def)
  with demodulate2400_safe [OF example_demod_ok(1) [OF g] example_demod_ok(2,3)] g show ?thesis by metis
qed

text \<open>
  C8. Round trip from bits to samples and back. Whatever the level of the background, and with noise on every
  sample of up to a fifth of the amplitude, slicing at the phase of the transmission recovers exactly the
  bytes that were sent, for each of the five phases and for short and long messages.
\<close>

theorem demod_recovers_message:
  assumes "received A D on m" "carries on (5 * (j + 19) + t) (msg_bits ms)" "j + 290 \<le> length m" "t \<le> 8" "length buf = 14"
    and "length ms = (if bit long (unat (drop_bit 3 (hd ms))) then 14 else 7)"
      "bit long (unat (drop_bit 3 (hd ms))) \<or> bit short (unat (drop_bit 3 (hd ms)))"
  shows "demod_phase m short long j t buf = Some (length ms, ms @ drop (length ms) buf)"
  by (rule demod_phase_carries [OF assms(1-6)]) (use assms(7) in simp)

theorem demod_recovers_message_witness:
  "demod_phase example_samples 0 0x20000 20 5 (replicate 14 0) = Some (14, df17_example)"
proof -
  have "received 10000 0 (keyed 104 df17_example) example_samples"
    unfolding example_samples_def by (rule modulate_received) simp_all
  moreover have "carries (keyed 104 df17_example) (5 * (20 + 19) + 5) (msg_bits df17_example)"
    using keyed_transmits [of 104 df17_example] by (simp add: transmits_def)
  moreover have "bit (0x20000 :: u32) (unat (drop_bit 3 (hd df17_example)))" by code_simp
  ultimately show ?thesis
    using demod_recovers_message [of 10000 0 "keyed 104 df17_example" example_samples 20 5 df17_example "replicate 14 0" "0x20000" "0"]
    by (simp add: example_samples_def)
qed

text \<open>
  C7. A transmission is heard. In a buffer that is silent but for one transmission of a DF17 message with a
  correct checksum, at any sample the search has not passed, at any phase the preamble shapes cover, and
  of any amplitude that stands out from the background, the demodulator ends and hands on a message: one
  that as received is a DF17 or DF18 message with a correct checksum, with a score at least that of an
  undamaged message of an unknown aircraft.
\<close>

theorem single_transmission_demodulated:
  assumes E: "env_ok E" and b: "buffer_ok mag" and s: "demod_ok s" "bitsets_ok E s" "dm_last_end s \<le> j" "j < mag_len mag"
    and ms: "valid_df17 E ms" and st: "single_transmission A D j k ms (data mag)"
  shows "\<exists>s' ev mm. demodulate2400 E mag s = Some s' \<and> dm_events s' = dm_events s @ ev \<and> UseModesMessage mm \<in> set ev
    \<and> isLongPIMessage (verbatim mm) \<and> modesChecksum (crc_table (e_crc (de_mode_s E))) (verbatim mm) 112 = Some 0
    \<and> score_value SR_DF17_UNKNOWN \<le> score mm"
proof -
  let ?n = "mag_len mag"
  note m = ms [unfolded valid_df17_def]
  have g: "crc_ready (e_crc (de_mode_s E))" "e_nfix_crc (de_mode_s E) \<le> 2" "length (de_score_junk E) = 14"
    using E by (simp_all add: env_ok_def)
  obtain s4 where s4: "demodulate2400 E mag s = demod_loop E mag ?n ?n (dm_last_end s4) s4 \<bind> demod_finish mag"
    "demod_ok s4" "bufs_ok s4" "dm_last_end s4 \<le> ?n" "dm_last_end s4 \<le> dm_last_end s" "dm_events s4 = dm_events s"
    "dm_filter s4 = dm_filter s" "dm_long s4 = (if dm_short s = 0 then snd (init_bitsets (de_mode_s E)) else dm_long s)"
    by (rule demodulate2400_start [OF E b s(1)])
  have len: "j + 290 \<le> length (data mag)" using buffer_room [OF b] s(4) by simp
  obtain n' where loop: "demod_loop E mag ?n ?n (dm_last_end s4) s4 = demod_loop E mag ?n (Suc n') j s4" "?n - j \<le> Suc n'"
    using demod_loop_skip [of "dm_last_end s4" j ?n mag ?n E s4] s4(5) s(3,4) no_early_preamble [OF st] len by auto
  obtain recent where sc: "scoreModesMessage (de_mode_s E) (dm_filter s4) ms (de_score_junk E)
      = Some (if recent then SR_DF17_KNOWN else SR_DF17_UNKNOWN)"
    by (rule score_clean_df17 [OF g(1,2)]) (use s4(2) m in \<open>auto simp: demod_ok_def\<close>)
  note single = single_preamble [OF st]
  have format: "bit (dm_long s4) (unat (drop_bit 3 (hd ms)))"
    unfolding s4(8) format_byte [OF m [THEN conjunct1]] using bitsets_long [OF s(2)] m by simp
  have k: "3 \<le> k" "k \<le> 7" using st by (simp_all add: single_transmission_def)
  obtain j' s' ev mm best where at: "demod_at E mag j s4 = Some (j', s')" "j \<le> j'" "demod_ok s'" "bufs_ok s'" "dm_last_end s' \<le> j + 288"
    "dm_events s' = dm_events s4 @ ev @ [UseModesMessage mm]"
    "scoreModesMessage (de_mode_s E) (dm_filter s4) (verbatim mm) (de_score_junk E) = Some best" "score mm = score_value best"
    "score_value (if recent then SR_DF17_KNOWN else SR_DF17_UNKNOWN) \<le> score_value best" "length (verbatim mm) = 14"
    by (rule transmission_heard [OF E s4(2,3) len keyed_transmits k _ _ _ format sc])
      (use single len m in auto)
  have best: "25 \<le> score_value best" using at(9) by (simp split: if_splits)
  have "?n \<le> j' + 1 + n'" using loop(2) at(2) by simp
  from demod_loop_total [OF E buffer_room [OF b] at(3,4) _ this] at(5) s(4)
  obtain s5 ev5 where s5: "demod_loop E mag ?n n' (j' + 1) s' = Some s5" "demod_ok s5" "dm_last_end s5 \<le> ?n + 287"
    "dm_events s5 = dm_events s' @ ev5" by auto
  obtain s6 ev6 where s6: "demod_finish mag s5 = Some s6" "dm_events s6 = dm_events s5 @ ev6"
    using demod_finish_total [OF b s5(3,2)] by blast
  have "demodulate2400 E mag s = Some s6" using s4(1) loop(1) at(1) s5(1) s6(1) s(4) by simp
  moreover have "dm_events s6 = dm_events s @ (ev @ [UseModesMessage mm] @ ev5 @ ev6)"
    using s6(2) s5(4) at(6) s4(6) by simp
  ultimately show ?thesis
    using score_best_clean [OF g(1,2) at(10) g(3) at(7) best] best at(8)
    by (intro exI [of _ s6] exI [of _ "ev @ [UseModesMessage mm] @ ev5 @ ev6"] exI [of _ mm]) simp
qed

theorem single_transmission_demodulated_witness:
  "\<exists>g. modesChecksumInit 1 crc_globals_start = Some g \<and>
     (\<forall>t L. \<exists>s' mm. demodulate2400 (example_demod_env g t L) example_buffer example_demod = Some s'
        \<and> UseModesMessage mm \<in> set (dm_events s') \<and> isLongPIMessage (verbatim mm))"
proof -
  obtain g where g: "modesChecksumInit 1 crc_globals_start = Some g" using example_tables by blast
  have st: "single_transmission 10000 0 20 4 df17_example (data example_buffer)"
    by (simp add: single_transmission_def example_buffer_def example_samples_def modulate_nth)
  have df: "getbits df17_example 1 5 = 17" by code_simp
  have start: "dm_last_end example_demod = 0" "dm_events example_demod = []" by (simp_all add: example_demod_def)
  have "modesChecksum (crc_table g) df17_example 112 = Some 0"
    using checksum_prefix [of g 112 df17_example] g by (auto simp: crc_ready_def df17_example_rem)
  then have v: "valid_df17 (example_demod_env g t L) df17_example" for t L
    using df by (simp add: valid_df17_def example_demod_env_def example_env_def)
  have "\<exists>s' mm. demodulate2400 (example_demod_env g t L) example_buffer example_demod = Some s'
      \<and> UseModesMessage mm \<in> set (dm_events s') \<and> isLongPIMessage (verbatim mm)" for t L
  proof -
    obtain s' ev mm where "demodulate2400 (example_demod_env g t L) example_buffer example_demod = Some s'"
      "dm_events s' = dm_events example_demod @ ev" "UseModesMessage mm \<in> set ev" "isLongPIMessage (verbatim mm)"
      using single_transmission_demodulated [OF example_demod_ok(1) [OF g] example_demod_ok(2-4) _ _ v [of t L] st] example_demod_ok(5) start by auto
    then show ?thesis using start by auto
  qed
  with g show ?thesis by blast
qed

end
