(* ===== verification/DemodAC.thy ===== *)
theory DemodAC
  imports DemodHeard ModeAC
begin

text \<open>
  The search for Mode A/C replies in \<^verbatim>\<open>demodulate2400AC\<close>: the code read off the pulses is the code that
  was sent, and what the reply handed on inherits from the one before it.
\<close>

subsection \<open>The code of a reply\<close>

text \<open>The pulses of a reply as the demodulator collects them: both framing pulses and one for each bit of the code.\<close>

definition ac_pulses :: "u32 \<Rightarrow> u32" where
  "ac_pulses code =
     foldl (OR) 0x80020 (List.map (\<lambda>(b, v). if code AND v \<noteq> 0 then b else 0)
       [(0x40000, 0x0010), (0x20000, 0x1000), (0x10000, 0x0020), (0x08000, 0x2000), (0x04000, 0x0040),
        (0x02000, 0x4000), (0x00800, 0x0100), (0x00400, 0x0001), (0x00200, 0x0200), (0x00100, 0x0002),
        (0x00080, 0x0400), (0x00040, 0x0004), (0x00004, 0x0080)])"

lemma word_if_and: "(if P then b else 0) AND k = (if P then b AND k else (0 :: u32))"
  by simp

lemma word_if_zero: "((if P then b else 0) = (0 :: u32)) = (P \<longrightarrow> b = 0)"
  by simp

lemma ac_pulses_and:
  "(ac_pulses c AND 0x40000 = 0) = (c AND 0x0010 = 0)" "(ac_pulses c AND 0x20000 = 0) = (c AND 0x1000 = 0)"
  "(ac_pulses c AND 0x10000 = 0) = (c AND 0x0020 = 0)" "(ac_pulses c AND 0x08000 = 0) = (c AND 0x2000 = 0)"
  "(ac_pulses c AND 0x04000 = 0) = (c AND 0x0040 = 0)" "(ac_pulses c AND 0x02000 = 0) = (c AND 0x4000 = 0)"
  "(ac_pulses c AND 0x00800 = 0) = (c AND 0x0100 = 0)" "(ac_pulses c AND 0x00400 = 0) = (c AND 0x0001 = 0)"
  "(ac_pulses c AND 0x00200 = 0) = (c AND 0x0200 = 0)" "(ac_pulses c AND 0x00100 = 0) = (c AND 0x0002 = 0)"
  "(ac_pulses c AND 0x00080 = 0) = (c AND 0x0400 = 0)" "(ac_pulses c AND 0x00040 = 0) = (c AND 0x0004 = 0)"
  "(ac_pulses c AND 0x00004 = 0) = (c AND 0x0080 = 0)"
  by (simp_all add: ac_pulses_def bit.conj_disj_distrib2 word_if_and word_if_zero split del: if_split cong: if_cong)

lemma ac_pulses_shape: "ac_pulses c AND 0x80020 = 0x80020" "ac_pulses c AND 0x0101B = 0"
  by (simp_all add: ac_pulses_def bit.conj_disj_distrib2 word_if_and word_if_zero split del: if_split cong: if_cong)

lemma word_if_not: "(if a \<noteq> 0 then b else 0) = (if a = 0 then 0 else (b :: u32))" for a :: u32
  by simp

lemma one_bit: "(if c AND v = 0 then 0 else v) = c AND v" if "v = push_bit n (1 :: u32)"
proof (cases "n < 32 \<and> bit c n")
  case True
  have "c AND v = v" unfolding that by (rule bit_word_eqI) (use True in \<open>auto simp: bit_simps\<close>)
  then show ?thesis by simp
next
  case False
  have "c AND v = 0" unfolding that by (rule bit_word_eqI) (use False in \<open>auto simp: bit_simps\<close>)
  then show ?thesis by simp
qed

text \<open>The code the demodulator reads off is the code that was sent, and the framing and the quiet bits pass its tests.\<close>

lemma ac_word_pulses: "ac_word (ac_pulses c) = c AND 0x77F7"
proof -
  have v: "(if c AND 0x10 = 0 then 0 else 0x10) = c AND 0x10" "(if c AND 0x1000 = 0 then 0 else 0x1000) = c AND 0x1000"
    "(if c AND 0x20 = 0 then 0 else 0x20) = c AND 0x20" "(if c AND 0x2000 = 0 then 0 else 0x2000) = c AND 0x2000"
    "(if c AND 0x40 = 0 then 0 else 0x40) = c AND 0x40" "(if c AND 0x4000 = 0 then 0 else 0x4000) = c AND 0x4000"
    "(if c AND 0x100 = 0 then 0 else 0x100) = c AND 0x100" "(if c AND 1 = 0 then 0 else 1) = c AND 1"
    "(if c AND 0x200 = 0 then 0 else 0x200) = c AND 0x200" "(if c AND 2 = 0 then 0 else 2) = c AND 2"
    "(if c AND 0x400 = 0 then 0 else 0x400) = c AND 0x400" "(if c AND 4 = 0 then 0 else 4) = c AND 4"
    "(if c AND 0x80 = 0 then 0 else 0x80) = c AND 0x80"
    using one_bit [of _ 4] one_bit [of _ 12] one_bit [of _ 5] one_bit [of _ 13] one_bit [of _ 6] one_bit [of _ 14] one_bit [of _ 8]
      one_bit [of _ 0] one_bit [of _ 9] one_bit [of _ 1] one_bit [of _ 10] one_bit [of _ 2] one_bit [of _ 7] by simp_all
  have "ac_word (ac_pulses c) = (c AND 0x10) OR (c AND 0x1000) OR (c AND 0x20) OR (c AND 0x2000) OR (c AND 0x40) OR (c AND 0x4000)
      OR (c AND 0x100) OR (c AND 1) OR (c AND 0x200) OR (c AND 2) OR (c AND 0x400) OR (c AND 4) OR (c AND 0x80)"
    by (simp only: ac_word_def list.map prod.case foldl.simps ac_pulses_and word_if_not v or.left_neutral or.assoc)
  also have "\<dots> = c AND 0x77F7"
    by (simp only: bit.conj_disj_distrib [symmetric]) simp
  finally show ?thesis .
qed


subsection \<open>Altitudes\<close>

text \<open>An altitude that is set stays set when the next reply has none.\<close>

lemma decodeModeAMessage_keeps_altitude:
  assumes "bit code 7 \<or> modeAToModeC t code = INVALID_ALTITUDE"
  shows "altitude_baro_valid (decodeModeAMessage t mm code) = altitude_baro_valid mm"
    "altitude_baro (decodeModeAMessage t mm code) = altitude_baro mm"
proof -
  have "code AND 0x80 = 0 \<longleftrightarrow> \<not> bit code 7"
    using and_exp_nonzero [of 7 code, simplified] by blast
  then show "altitude_baro_valid (decodeModeAMessage t mm code) = altitude_baro_valid mm"
    "altitude_baro (decodeModeAMessage t mm code) = altitude_baro mm"
    using assms by (auto simp: decodeModeAMessage_def Let_def)
qed

text \<open>A buffer with a reply at its first sample: two framing pulses and the pulse A1.\<close>

definition example_ac_buffer :: mag_buf where
  "example_ac_buffer = \<lparr>data = (replicate 100 0)[1 := 4000, 7 := 4000, 49 := 4000], totalLength = 100, validLength = 100, overlap = 90,
     sampleTimestamp = 0, sysTimestamp = 0, flags = 0, mean_level = 0, mean_power = 0, dropped = 0, next_buf = None\<rparr>"

lemma example_ac_reply:
  "ac_reply_at (example_demod_env g t L\<lparr>de_sqrtf := \<lambda>_. 450\<rparr>) example_ac_buffer 100 1 = Some (Some (1243, 0x1000))"
proof -
  have 1: "framing_pulse (data example_ac_buffer) 100 1 = Some (Some 2000)" by code_simp
  have 2: "framing_pulse (data example_ac_buffer) 100 49 = Some (Some 2000)" by code_simp
  have 3: "pulse_clock (data example_ac_buffer) 1 = Some 25" by code_simp
  have 4: "to_unsigned (f64 (f64 (450 * M_SQRT2) + 1 / 2)) = 636" by code_simp
  have 5: "to_unsigned (f64 (f64 (450 / M_SQRT2) + 1 / 2)) = 318" by code_simp
  have 6: "ac_loop (data example_ac_buffer) 636 318 20 25 \<lparr>ab_bits = 0, ab_noisy = 0, ab_uncertain = 0\<rparr>
      = Some \<lparr>ab_bits = 0xA0020, ab_noisy = 0, ab_uncertain = 0\<rparr>" by code_simp
  have 7: "ac_word 0xA0020 = 0x1000" by code_simp
  have 8: "mag_len example_ac_buffer + overlap example_ac_buffer = 100" by code_simp
  show ?thesis by (simp add: ac_reply_at_def 1 2 3 4 5 6 7 8 c_simps Let_def del: One_nat_def)
qed


subsection \<open>Properties\<close>

text \<open>
  C40. A Mode A reply is reported with the altitude of an earlier reply. The search zeroes its message once, and
  the decoding of a reply sets an altitude but never clears it: when the reply found at a sample has no
  altitude of its own, for it identifies itself or its code is no altitude, then the message handed on for
  it has the valid altitude that the message of the last Mode C reply had.
\<close>

theorem modeac_altitude_carried_over:
  assumes "ac_reply_at E mag noise i = Some (Some (f2_clock, code))" "i < mag_len mag"
    and "altitude_baro_valid mm" "bit code 7 \<or> modeAToModeC (e_ac (de_mode_s E)) code = INVALID_ALTITUDE"
  shows "\<exists>mm' s'. ac_search E mag noise (Suc n) i (mm, s) = ac_search E mag noise n (i + 70) (mm', s')
    \<and> dm_events s' = dm_events s @ [UseModesMessage mm'] \<and> squawk mm' = code AND 0x7777
    \<and> altitude_baro_valid mm' \<and> altitude_baro mm' = altitude_baro mm"
proof -
  define ts where "ts = sampleTimestamp mag + ucast (f2_clock div 5)"
  define mm1 where "mm1 = mm\<lparr>timestampMsg := ts, sysTimestampMsg := sysTimestamp mag + receiveclock_ms_elapsed (sampleTimestamp mag) ts\<rparr>"
  define mm' where "mm' = decodeModeAMessage (e_ac (de_mode_s E)) mm1 code"
  define s' where "s' = on_stats (\<lambda>t. t\<lparr>demod_modeac := demod_modeac t + 1\<rparr>) (emit (UseModesMessage mm') s)"
  have "ac_search E mag noise (Suc n) i (mm, s) = ac_search E mag noise n (i + 20 * 87 div 25 + 1) (mm', s')"
    using assms(1,2) by (simp add: Let_def ts_def [symmetric] mm1_def [symmetric] mm'_def [symmetric] s'_def [symmetric])
  moreover have "i + 20 * 87 div 25 + 1 = i + 70" by simp
  ultimately have "ac_search E mag noise (Suc n) i (mm, s) = ac_search E mag noise n (i + 70) (mm', s')" by (simp only:)
  moreover have "dm_events s' = dm_events s @ [UseModesMessage mm']" by (simp add: s'_def on_stats_def emit_def)
  moreover have "squawk mm' = code AND 0x7777" by (simp add: mm'_def decodeModeAMessage_def Let_def)
  moreover have "altitude_baro_valid mm'" "altitude_baro mm' = altitude_baro mm"
    using decodeModeAMessage_keeps_altitude [OF assms(4), of mm1] assms(3) by (simp_all add: mm'_def mm1_def)
  ultimately show ?thesis by blast
qed

text \<open>Squawk 1000 after a Mode C reply of 5000 feet.\<close>

theorem modeac_altitude_carried_over_witness:
  "\<exists>t. modeACInit mode_ac_start = Some t \<and> (\<forall>g L n. \<exists>mm' s'.
     ac_search (example_demod_env g t L\<lparr>de_sqrtf := \<lambda>_. 450\<rparr>) example_ac_buffer 100 (Suc n) 1
       (zeroMessage\<lparr>altitude_baro := 5000, altitude_baro_valid := True\<rparr>, example_demod) =
     ac_search (example_demod_env g t L\<lparr>de_sqrtf := \<lambda>_. 450\<rparr>) example_ac_buffer 100 n 71 (mm', s')
     \<and> dm_events s' = [UseModesMessage mm'] \<and> squawk mm' = 0x1000 \<and> altitude_baro_valid mm' \<and> altitude_baro mm' = 5000)"
proof -
  obtain t where t: "modeACInit mode_ac_start = Some t" "tables_upto 4096 t" by (rule modeACInit_Some)
  have "internalModeAToModeC 0x1000 = INVALID_ALTITUDE" by code_simp
  then have c: "modeAToModeC t 0x1000 = INVALID_ALTITUDE" by (simp add: modeAToModeC_eq [OF t(2)])
  have len: "1 < mag_len example_ac_buffer" by code_simp
  have start: "dm_events example_demod = []" by (simp add: example_demod_def)
  have "\<exists>mm' s'.
     ac_search (example_demod_env g t L\<lparr>de_sqrtf := \<lambda>_. 450\<rparr>) example_ac_buffer 100 (Suc n) 1
       (zeroMessage\<lparr>altitude_baro := 5000, altitude_baro_valid := True\<rparr>, example_demod) =
     ac_search (example_demod_env g t L\<lparr>de_sqrtf := \<lambda>_. 450\<rparr>) example_ac_buffer 100 n 71 (mm', s')
     \<and> dm_events s' = [UseModesMessage mm'] \<and> squawk mm' = 0x1000 \<and> altitude_baro_valid mm' \<and> altitude_baro mm' = 5000" for g L n
    using modeac_altitude_carried_over [OF example_ac_reply [of g t L] len, of "zeroMessage\<lparr>altitude_baro := 5000, altitude_baro_valid := True\<rparr>"
      n example_demod] c start by (simp add: example_demod_env_def example_env_def del: ac_search.simps)
  with t(1) show ?thesis by blast
qed

end
