(* ===== verification/Adaptive.thy ===== *)
theory Adaptive
  imports Fp
begin

text \<open>
  Adaptive gain control, \<^verbatim>\<open>src/adaptive.c\<close>, over the gain functions of \<^verbatim>\<open>src/sdr.c\<close> and
  \<^verbatim>\<open>src/sdr_rtlsdr.c\<close>. The samples of about a second are a block; a block consists of subblocks, some
  of which are skipped, and these of windows in which loud samples are counted. At the end of a block
  the measurements decide whether the gain goes up or down by a step. A buffer with its length is a list.
\<close>

subsection \<open>The receiver\<close>

text \<open>
  \<open>rtl_results\<close> holds what the calls of \<^verbatim>\<open>librtlsdr\<close> return from now on; when it is used up they
  succeed. All other receivers have no gain control.
\<close>

datatype sdr_type = SDR_RTLSDR | SDR_OTHER

record sdr =
  sdr_type :: sdr_type
  rtl_gains :: "int list option"
  rtl_gain_steps :: int
  rtl_current_gain :: int
  rtl_results :: "int list"

definition rtlsdr_call :: "sdr \<Rightarrow> int \<times> sdr" where
  "rtlsdr_call d = (case rtl_results d of [] \<Rightarrow> (0, d) | r # rs \<Rightarrow> (r, d\<lparr>rtl_results := rs\<rparr>))"

definition clamp_step :: "sdr \<Rightarrow> int \<Rightarrow> int" where
  "clamp_step d step =
     (let step = (if step < 0 then 0 else step)
      in if step \<ge> rtl_gain_steps d then rtl_gain_steps d - 1 else step)"

definition rtlsdrGetGainDb :: "sdr \<Rightarrow> int \<Rightarrow> rat option" where
  "rtlsdrGetGainDb d step =
     (case rtl_gains d of None \<Rightarrow> Some 0
      | Some gains \<Rightarrow> do {
          let step = clamp_step d step;
          c_assert (0 \<le> step);
          g \<leftarrow> arr_get gains (nat step);
          Some (f64 (of_int g / 10)) })"

definition rtlsdrSetGain :: "int \<Rightarrow> sdr \<Rightarrow> (int \<times> sdr) option" where
  "rtlsdrSetGain step d =
     (case rtl_gains d of None \<Rightarrow> Some (-1, d)
      | Some gains \<Rightarrow> do {
          let step = clamp_step d step;
          c_assert (0 \<le> step);
          g \<leftarrow> arr_get gains (nat step);
          let (mode, d) = rtlsdr_call d;
          if mode < 0 then Some (rtl_current_gain d, d)
          else if step = rtl_gain_steps d - 1 then Some (step, d\<lparr>rtl_current_gain := step\<rparr>)
          else let (gain, d) = rtlsdr_call d in
            if gain < 0 then Some (rtl_current_gain d, d) else Some (step, d\<lparr>rtl_current_gain := step\<rparr>) })"

definition sdrGetGain :: "sdr \<Rightarrow> int" where
  "sdrGetGain d = (if sdr_type d = SDR_RTLSDR then rtl_current_gain d else -1)"

definition sdrGetMaxGain :: "sdr \<Rightarrow> int" where
  "sdrGetMaxGain d = (if sdr_type d = SDR_RTLSDR then rtl_gain_steps d - 1 else -1)"

definition sdrGetGainDb :: "sdr \<Rightarrow> int \<Rightarrow> rat option" where
  "sdrGetGainDb d step = (if sdr_type d = SDR_RTLSDR then rtlsdrGetGainDb d step else Some 0)"

definition sdrSetGain :: "int \<Rightarrow> sdr \<Rightarrow> (int \<times> sdr) option" where
  "sdrSetGain step d = (if sdr_type d = SDR_RTLSDR then rtlsdrSetGain step d else Some (0, d))"

text \<open>
  The part of \<^verbatim>\<open>rtlsdrOpen\<close> that prepares the table: the gains of the tuner in order, one more for its
  automatic mode, and the step that is nearest to the gain asked for, the first of those equally near.
\<close>

datatype gain_choice = LEGACY_AUTO_GAIN | DEFAULT_GAIN | Gain rat

definition gain_distance :: "int list \<Rightarrow> rat \<Rightarrow> nat \<Rightarrow> rat" where
  "gain_distance gains g i = \<bar>f64 (f64 (of_int (gains ! i) / 10) - g)\<bar>"

fun nearest_gain :: "int list \<Rightarrow> rat \<Rightarrow> nat list \<Rightarrow> nat option \<Rightarrow> nat option" where
  "nearest_gain gains g [] selected = selected"
| "nearest_gain gains g (i # js) selected =
     nearest_gain gains g js
       (case selected of None \<Rightarrow> Some i
        | Some s \<Rightarrow> if gain_distance gains g i < gain_distance gains g s then Some i else Some s)"

definition select_gain :: "gain_choice \<Rightarrow> int list \<Rightarrow> nat \<Rightarrow> int" where
  "select_gain choice gains numgains =
     (case choice of LEGACY_AUTO_GAIN \<Rightarrow> int numgains | DEFAULT_GAIN \<Rightarrow> int numgains - 1
      | Gain g \<Rightarrow> (case nearest_gain gains g [0..<Suc numgains] None of None \<Rightarrow> -1 | Some i \<Rightarrow> int i))"

definition rtlsdr_open_gains :: "gain_choice \<Rightarrow> int list \<Rightarrow> sdr \<Rightarrow> (int \<times> sdr) option" where
  "rtlsdr_open_gains choice tuner d =
     (let gains = sort tuner; gains = gains @ [last gains + 90];
          d = d\<lparr>rtl_gain_steps := int (length tuner) + 1, rtl_gains := Some gains\<rparr>
      in rtlsdrSetGain (select_gain choice gains (length tuner)) d)"

subsection \<open>State\<close>

datatype range_state = RANGE_SCAN_IDLE | RANGE_SCAN_UP | RANGE_SCAN_DOWN

record adaptive_env =
  a_sample_rate :: rat
  a_duty_cycle :: rat
  a_min_gain_db :: rat
  a_max_gain_db :: rat
  a_burst_alpha :: rat
  a_burst_change_delay :: u32
  a_burst_loud_runlength :: u32
  a_burst_loud_rate :: rat
  a_burst_quiet_runlength :: u32
  a_burst_quiet_rate :: rat
  a_range_alpha :: rat
  a_range_percentile :: u32
  a_range_change_delay :: u32
  a_range_rescan_delay :: u32
  a_range_target :: rat
  a_pow10 :: "rat \<Rightarrow> rat"
  a_log10 :: "rat \<Rightarrow> rat"

record adaptive_stats =
  as_valid :: bool
  as_gain :: int
  as_gain_seconds :: "u32 list"
  as_loud_undecoded :: u32
  as_loud_decoded :: u32
  as_gain_changes :: u32
  as_noise_dbfs :: rat
  as_range_gain_limit :: int

text \<open>The array of the radix sort has an entry for each sample value.\<close>

record adaptive =
  burst_control :: bool
  range_control :: bool
  gain_min :: int
  gain_max :: int
  gain_up_db :: rat
  gain_down_db :: rat
  subblocks_remaining :: u32
  dutycycle_N :: nat
  dutycycle_counter :: nat
  subblock_active :: bool
  samples_per_subblock :: nat
  subblock_samples_remaining :: nat
  samples_per_window :: nat
  burst_window_remaining :: nat
  burst_window_counter :: nat
  burst_runlength :: u32
  block_loud_undecoded :: u32
  block_loud_decoded :: u32
  loud_undecoded_smoothed :: rat
  loud_decoded_smoothed :: rat
  burst_change_timer :: u32
  burst_loud_threshold :: rat
  burst_loud_blocks :: u32
  burst_quiet_blocks :: u32
  range_radix :: "u16 \<Rightarrow> u32"
  range_radix_counter :: u32
  range_smoothed :: rat
  range_state :: range_state
  range_change_timer :: u32
  range_rescan_timer :: u32
  range_gain_limit :: int
  ad_sdr :: sdr
  ad_stats :: adaptive_stats

definition subblocks_per_block :: nat where "subblocks_per_block = 20"
definition dutycycle_D :: nat where "dutycycle_D = subblocks_per_block"
definition STATS_GAIN_COUNT :: nat where "STATS_GAIN_COUNT = 64"

abbreviation current_gain :: "adaptive \<Rightarrow> int" where
  "current_gain s \<equiv> sdrGetGain (ad_sdr s)"

definition on_ad_stats :: "(adaptive_stats \<Rightarrow> adaptive_stats) \<Rightarrow> adaptive \<Rightarrow> adaptive" where
  "on_ad_stats f s = s\<lparr>ad_stats := f (ad_stats s)\<rparr>"

subsection \<open>Changing the gain\<close>

definition adaptive_set_gain :: "int \<Rightarrow> adaptive \<Rightarrow> (bool \<times> adaptive) option" where
  "adaptive_set_gain step s =
     (let step = (if step < gain_min s then gain_min s else step);
          step = (if step > gain_max s then gain_max s else step);
          current = current_gain s
      in if current = step then Some (False, s)
         else do {
           _ \<leftarrow> sdrGetGainDb (ad_sdr s) current;
           _ \<leftarrow> sdrGetGainDb (ad_sdr s) step;
           (new, d) \<leftarrow> sdrSetGain step (ad_sdr s);
           let s = s\<lparr>ad_sdr := d\<rparr>;
           if current \<noteq> new then Some (True, on_ad_stats (\<lambda>t. t\<lparr>as_gain_changes := as_gain_changes t + 1\<rparr>) s)
           else Some (False, s) })"

definition adaptive_gain_changed :: "adaptive_env \<Rightarrow> adaptive \<Rightarrow> adaptive option" where
  "adaptive_gain_changed E s = do {
     let new = current_gain s;
     up \<leftarrow> sdrGetGainDb (ad_sdr s) (new + 1);
     here \<leftarrow> sdrGetGainDb (ad_sdr s) new;
     down \<leftarrow> sdrGetGainDb (ad_sdr s) (new - 1);
     let up_db = f32 (f64 (up - here));
     let loud_threshold_dbfs = f64 (f32 (0 - up_db) - 3);
     Some (s\<lparr>gain_up_db := up_db, gain_down_db := f32 (f64 (here - down)),
             burst_loud_threshold := a_pow10 E (f64 (loud_threshold_dbfs / 10)),
             range_change_timer := a_range_change_delay E, burst_change_timer := a_burst_change_delay E,
             burst_loud_blocks := 0, burst_quiet_blocks := 0\<rparr>) }"

definition adaptive_increase_gain :: "adaptive_env \<Rightarrow> adaptive \<Rightarrow> adaptive option" where
  "adaptive_increase_gain E s = do {
     (changed, s) \<leftarrow> adaptive_set_gain (current_gain s + 1) s;
     if changed then adaptive_gain_changed E s else Some s }"

definition adaptive_decrease_gain :: "adaptive_env \<Rightarrow> adaptive \<Rightarrow> adaptive option" where
  "adaptive_decrease_gain E s = do {
     (changed, s) \<leftarrow> adaptive_set_gain (current_gain s - 1) s;
     if changed then adaptive_gain_changed E s else Some s }"

subsection \<open>Initialisation\<close>

function lower_limit :: "adaptive_env \<Rightarrow> sdr \<Rightarrow> int \<Rightarrow> int \<Rightarrow> int option" where
  "lower_limit E d maxgain g =
     (if g < maxgain then do {
        db \<leftarrow> sdrGetGainDb d g;
        if db \<ge> a_min_gain_db E then Some g else lower_limit E d maxgain (g + 1) }
      else Some g)"
  by pat_completeness auto
termination by (relation "measure (\<lambda>(_, _, maxgain, g). nat (maxgain - g))") auto

function upper_limit :: "adaptive_env \<Rightarrow> sdr \<Rightarrow> int \<Rightarrow> int \<Rightarrow> int option" where
  "upper_limit E d mingain g =
     (if g > mingain then do {
        db \<leftarrow> sdrGetGainDb d g;
        if db \<le> a_max_gain_db E then Some g else upper_limit E d mingain (g - 1) }
      else Some g)"
  by pat_completeness auto
termination by (relation "measure (\<lambda>(_, _, mingain, g). nat (g - mingain))") auto

definition roundf :: "rat \<Rightarrow> int" where
  "roundf x = (if x < 0 then \<lceil>x - 1 / 2\<rceil> else \<lfloor>x + 1 / 2\<rfloor>)"

definition duty_N :: "adaptive_env \<Rightarrow> nat" where
  "duty_N E =
     (let N = roundf (f32 (of_nat dutycycle_D * a_duty_cycle E));
          N = (if N \<le> 0 then 1 else N); N = (if N > int dutycycle_D then int dutycycle_D else N)
      in nat N)"

definition window_size :: "adaptive_env \<Rightarrow> nat" where
  "window_size E = unat (word_of_int \<lfloor>f64 (a_sample_rate E / 25000)\<rfloor> :: u32)"

definition adaptive_init :: "adaptive_env \<Rightarrow> adaptive \<Rightarrow> adaptive option" where
  "adaptive_init E s = do {
     let maxgain = sdrGetMaxGain (ad_sdr s);
     let s = (if maxgain < 0 then s\<lparr>burst_control := False, range_control := False\<rparr> else s);
     if \<not> burst_control s \<and> \<not> range_control s then Some s
     else do {
       let w = window_size E;
       let n = unat (of_nat (w * 1250) :: u32);
       mingain \<leftarrow> lower_limit E (ad_sdr s) maxgain 0;
       topgain \<leftarrow> upper_limit E (ad_sdr s) mingain maxgain;
       let s = s\<lparr>samples_per_window := w, samples_per_subblock := n, subblocks_remaining := of_nat subblocks_per_block,
                subblock_samples_remaining := n, subblock_active := False, dutycycle_N := duty_N E,
                burst_window_remaining := w, burst_window_counter := 0, range_radix := (\<lambda>_. 0),
                range_state := RANGE_SCAN_UP, gain_min := mingain, gain_max := topgain\<rparr>;
       (_, s) \<leftarrow> adaptive_set_gain (current_gain s) s;
       s \<leftarrow> adaptive_gain_changed E s;
       Some (s\<lparr>range_gain_limit := current_gain s\<rparr>) } }"

subsection \<open>Bursts\<close>

definition adaptive_burst_end_of_window :: "nat \<Rightarrow> adaptive \<Rightarrow> adaptive" where
  "adaptive_burst_end_of_window counter s =
     (if counter > samples_per_window s div 4 then s\<lparr>burst_runlength := burst_runlength s + 1\<rparr>
      else s\<lparr>block_loud_undecoded := (if burst_runlength s \<ge> 2 \<and> burst_runlength s \<le> 5 then block_loud_undecoded s + 1
                                      else block_loud_undecoded s),
             burst_runlength := 0\<rparr>)"

fun end_quiet_windows :: "nat \<Rightarrow> adaptive \<Rightarrow> adaptive" where
  "end_quiet_windows 0 s = s"
| "end_quiet_windows (Suc n) s = end_quiet_windows n (adaptive_burst_end_of_window 0 s)"

definition adaptive_burst_skip :: "nat \<Rightarrow> adaptive \<Rightarrow> adaptive" where
  "adaptive_burst_skip len s =
     (if \<not> burst_control s then s
      else if len < burst_window_remaining s then s\<lparr>burst_window_remaining := burst_window_remaining s - len\<rparr>
      else let s = adaptive_burst_end_of_window (burst_window_counter s) s;
               len = len - burst_window_remaining s;
               windows = len div samples_per_window s;
               samples = windows * samples_per_window s;
               s = end_quiet_windows windows s;
               len = len - samples
           in s\<lparr>burst_window_counter := 0, burst_window_remaining := samples_per_window s - len\<rparr>)"

text \<open>\<^verbatim>\<open>starch_count_above_u16\<close>, the generic kernel: the samples of at least -3 dBFS.\<close>

definition adaptive_burst_count_samples :: "u16 list \<Rightarrow> nat" where
  "adaptive_burst_count_samples buf = length (filter (\<lambda>v. 46395 \<le> v) buf)"

fun adaptive_burst_scan_windows :: "u16 list \<Rightarrow> nat \<Rightarrow> adaptive \<Rightarrow> adaptive" where
  "adaptive_burst_scan_windows buf 0 s = s"
| "adaptive_burst_scan_windows buf (Suc windows) s =
     adaptive_burst_scan_windows (drop (samples_per_window s) buf) windows
       (adaptive_burst_end_of_window (adaptive_burst_count_samples (take (samples_per_window s) buf)) s)"

definition adaptive_burst_update :: "u16 list \<Rightarrow> adaptive \<Rightarrow> adaptive" where
  "adaptive_burst_update buf s =
     (if \<not> burst_control s then s
      else if length buf < burst_window_remaining s
      then s\<lparr>burst_window_counter := burst_window_counter s + adaptive_burst_count_samples buf,
             burst_window_remaining := burst_window_remaining s - length buf\<rparr>
      else let n = burst_window_remaining s;
               s = adaptive_burst_end_of_window (burst_window_counter s + adaptive_burst_count_samples (take n buf)) s;
               buf = drop n buf;
               windows = length buf div samples_per_window s;
               s = adaptive_burst_scan_windows buf windows s;
               buf = drop (windows * samples_per_window s) buf
           in s\<lparr>burst_window_counter := adaptive_burst_count_samples buf,
                burst_window_remaining := samples_per_window s - length buf\<rparr>)"

definition scaled_rate :: "adaptive_env \<Rightarrow> adaptive \<Rightarrow> rat \<Rightarrow> u32 \<Rightarrow> rat" where
  "scaled_rate E s smoothed n =
     (let scale = f64 (of_nat dutycycle_D / of_nat (dutycycle_N s))
      in f64 (f64 (smoothed * f32 (1 - a_burst_alpha E)) + f64 (f64 (scale * of_nat (unat n)) * a_burst_alpha E)))"

definition adaptive_burst_end_of_block :: "adaptive_env \<Rightarrow> adaptive \<Rightarrow> adaptive" where
  "adaptive_burst_end_of_block E s =
     (if \<not> burst_control s then s
      else (on_ad_stats (\<lambda>t. t\<lparr>as_loud_undecoded := as_loud_undecoded t + block_loud_undecoded s,
                            as_loud_decoded := as_loud_decoded t + block_loud_decoded s\<rparr>) s)
        \<lparr>loud_undecoded_smoothed := scaled_rate E s (loud_undecoded_smoothed s) (block_loud_undecoded s),
         block_loud_undecoded := 0,
         loud_decoded_smoothed := scaled_rate E s (loud_decoded_smoothed s) (block_loud_decoded s),
         block_loud_decoded := 0\<rparr>)"

subsection \<open>Noise\<close>

definition radix_add :: "u16 \<Rightarrow> (u16 \<Rightarrow> u32) \<Rightarrow> u16 \<Rightarrow> u32" where
  "radix_add v r = r(v := r v + 1)"

definition adaptive_range_update :: "u16 list \<Rightarrow> adaptive \<Rightarrow> adaptive" where
  "adaptive_range_update buf s =
     (if \<not> range_control s then s
      else s\<lparr>range_radix_counter := range_radix_counter s + of_nat (length buf),
             range_radix := fold radix_add buf (range_radix s)\<rparr>)"

text \<open>The index behind the bucket in which the count is exceeded.\<close>

function percentile_loop :: "(u16 \<Rightarrow> u32) \<Rightarrow> u32 \<Rightarrow> u32 \<Rightarrow> nat \<Rightarrow> nat" where
  "percentile_loop r count_n n i =
     (if i < 65536 \<and> n \<le> count_n then percentile_loop r count_n (n + r (of_nat i)) (i + 1) else i)"
  by pat_completeness auto
termination by (relation "measure (\<lambda>(_, _, _, i). 65536 - i)") auto

definition adaptive_range_end_of_block :: "adaptive_env \<Rightarrow> adaptive \<Rightarrow> adaptive" where
  "adaptive_range_end_of_block E s =
     (if \<not> range_control s then s
      else let count_n = range_radix_counter s * a_range_percentile E div 100;
               i = percentile_loop (range_radix s) count_n 0 0;
               percentile_n = (of_nat (i - 1) :: u16);
               smoothed = f64 (f64 (range_smoothed s * f32 (1 - a_range_alpha E))
                             + f32 (of_nat (unat percentile_n) * a_range_alpha E));
               dbfs = (if smoothed > 0 then f64 (20 * a_log10 E (f64 (smoothed / 65536))) else 0)
           in (on_ad_stats (\<lambda>t. t\<lparr>as_noise_dbfs := dbfs\<rparr>) s)
              \<lparr>range_smoothed := smoothed, range_radix := (\<lambda>_. 0), range_radix_counter := 0\<rparr>)"

subsection \<open>Control\<close>

text \<open>
  The dynamic range in dB, a \<^verbatim>\<open>float\<close>. The logarithm of zero makes it infinite, that of a negative number
  not a number, for which every comparison is false.
\<close>

datatype available = Range rat | Infinite | NaN

definition available_range :: "adaptive_env \<Rightarrow> adaptive \<Rightarrow> available" where
  "available_range E s =
     (if range_smoothed s = 0 then Infinite else if range_smoothed s < 0 then NaN
      else Range (f32 (f64 (-20 * a_log10 E (f64 (range_smoothed s / 65536))))))"

fun range_ge :: "available \<Rightarrow> rat \<Rightarrow> bool" where
  "range_ge (Range x) t = (x \<ge> t)"
| "range_ge Infinite t = True"
| "range_ge NaN t = False"

fun range_less :: "available \<Rightarrow> rat \<Rightarrow> bool" where
  "range_less (Range x) t = (x < t)"
| "range_less Infinite t = False"
| "range_less NaN t = False"

fun range_plus :: "available \<Rightarrow> rat \<Rightarrow> available" where
  "range_plus (Range x) y = Range (f32 (x + y))"
| "range_plus Infinite y = Infinite"
| "range_plus NaN y = NaN"

record votes =
  gain_up :: bool
  gain_down :: bool
  gain_not_up :: bool

definition no_votes :: votes where
  "no_votes = \<lparr>gain_up = False, gain_down = False, gain_not_up = False\<rparr>"

definition vote_down :: "votes \<Rightarrow> votes" where
  "vote_down v = v\<lparr>gain_down := True, gain_not_up := True\<rparr>"

definition tick :: "u32 \<Rightarrow> u32" where
  "tick t = (if t > 0 then t - 1 else t)"

definition count_blocks :: "adaptive_env \<Rightarrow> adaptive \<Rightarrow> adaptive" where
  "count_blocks E s =
     (if loud_undecoded_smoothed s > a_burst_loud_rate E
      then s\<lparr>burst_quiet_blocks := 0, burst_loud_blocks := burst_loud_blocks s + 1\<rparr>
      else if loud_decoded_smoothed s < a_burst_quiet_rate E
      then s\<lparr>burst_loud_blocks := 0, burst_quiet_blocks := burst_quiet_blocks s + 1\<rparr>
      else s\<lparr>burst_loud_blocks := 0, burst_quiet_blocks := 0\<rparr>)"

definition burst_votes :: "adaptive_env \<Rightarrow> adaptive \<Rightarrow> votes \<times> adaptive" where
  "burst_votes E s =
     (if burst_control s \<and> burst_change_timer s = 0
      then let s = count_blocks E s in
        if burst_loud_blocks s \<ge> a_burst_loud_runlength E
        then (vote_down no_votes,
              if range_state s = RANGE_SCAN_DOWN then s\<lparr>range_state := RANGE_SCAN_IDLE, range_rescan_timer := 0\<rparr> else s)
        else if burst_quiet_blocks s < a_burst_quiet_runlength E then (no_votes\<lparr>gain_not_up := True\<rparr>, s)
        else if current_gain s < range_gain_limit s then (no_votes\<lparr>gain_up := True\<rparr>, s)
        else (no_votes, s)
      else (no_votes, s))"

definition lower_gain_limit :: "adaptive \<Rightarrow> adaptive" where
  "lower_gain_limit s = (if range_gain_limit s \<ge> current_gain s then s\<lparr>range_gain_limit := current_gain s - 1\<rparr> else s)"

definition go_idle :: "adaptive_env \<Rightarrow> adaptive \<Rightarrow> adaptive" where
  "go_idle E s = s\<lparr>range_state := RANGE_SCAN_IDLE, range_rescan_timer := a_range_rescan_delay E\<rparr>"

definition scan_up :: "adaptive_env \<Rightarrow> available \<Rightarrow> votes \<Rightarrow> adaptive \<Rightarrow> votes \<times> adaptive" where
  "scan_up E r v s =
     (if range_less r (a_range_target E) then (vote_down v, lower_gain_limit (s\<lparr>range_state := RANGE_SCAN_DOWN\<rparr>))
      else if current_gain s \<ge> gain_max s then (v, go_idle E s)
      else if \<not> gain_not_up v then (v\<lparr>gain_up := True\<rparr>, s)
      else (v, s))"

definition scan_down :: "adaptive_env \<Rightarrow> available \<Rightarrow> votes \<Rightarrow> adaptive \<Rightarrow> votes \<times> adaptive" where
  "scan_down E r v s =
     (if range_ge r (a_range_target E) then (v, go_idle E s)
      else let s = lower_gain_limit s in
        if current_gain s \<le> gain_min s then (v, go_idle E s) else (vote_down v, s))"

definition scan_idle :: "adaptive_env \<Rightarrow> available \<Rightarrow> votes \<Rightarrow> adaptive \<Rightarrow> votes \<times> adaptive" where
  "scan_idle E r v s =
     (if range_less (range_plus r (f32 (gain_down_db s / 2))) (a_range_target E) \<and> current_gain s > gain_min s
      then (vote_down v, (lower_gain_limit s)\<lparr>range_state := RANGE_SCAN_DOWN\<rparr>)
      else if range_rescan_timer s = 0 \<and> \<not> gain_not_up v
      then if range_ge r (a_range_target E) \<and> current_gain s < gain_max s
           then (v\<lparr>gain_up := True\<rparr>, s\<lparr>range_state := RANGE_SCAN_UP\<rparr>)
           else (v, s\<lparr>range_rescan_timer := a_range_rescan_delay E\<rparr>)
      else (v, s))"

definition range_votes :: "adaptive_env \<Rightarrow> votes \<times> adaptive \<Rightarrow> votes \<times> adaptive" where
  "range_votes E = (\<lambda>(v, s).
     if range_control s \<and> range_change_timer s = 0
     then let r = available_range E s;
              s = (if range_ge r (a_range_target E) \<and> current_gain s > range_gain_limit s
                   then s\<lparr>range_gain_limit := current_gain s\<rparr> else s)
          in case range_state s of RANGE_SCAN_UP \<Rightarrow> scan_up E r v s
             | RANGE_SCAN_DOWN \<Rightarrow> scan_down E r v s | RANGE_SCAN_IDLE \<Rightarrow> scan_idle E r v s
     else (v, s))"

definition adaptive_control_update :: "adaptive_env \<Rightarrow> adaptive \<Rightarrow> adaptive option" where
  "adaptive_control_update E s =
     (let s = s\<lparr>burst_change_timer := tick (burst_change_timer s), range_change_timer := tick (range_change_timer s),
                range_rescan_timer := tick (range_rescan_timer s)\<rparr>;
          (v, s) = range_votes E (burst_votes E s)
      in if gain_down v then adaptive_decrease_gain E s
         else if gain_up v \<and> \<not> gain_not_up v then adaptive_increase_gain E s
         else Some s)"

definition adaptive_end_of_block :: "adaptive_env \<Rightarrow> adaptive \<Rightarrow> adaptive option" where
  "adaptive_end_of_block E s = do {
     s \<leftarrow> adaptive_control_update E (adaptive_burst_end_of_block E (adaptive_range_end_of_block E s));
     let current = current_gain s;
     let c = (word_of_int current :: u32);
     let i = (if c < of_nat STATS_GAIN_COUNT then unat c else STATS_GAIN_COUNT - 1);
     k \<leftarrow> arr_get (as_gain_seconds (ad_stats s)) i;
     Some (on_ad_stats (\<lambda>t. t\<lparr>as_valid := True, as_gain := current, as_range_gain_limit := range_gain_limit s,
                            as_gain_seconds := (as_gain_seconds t)[i := k + 1]\<rparr>) s) }"

subsection \<open>Samples\<close>

text \<open>\<open>decoded\<close> is the signal level of the message the samples belong to, if they belong to one.\<close>

definition adaptive_update_subblock :: "u16 list \<Rightarrow> rat option \<Rightarrow> adaptive \<Rightarrow> adaptive" where
  "adaptive_update_subblock buf decoded s =
     (case decoded of
        Some level \<Rightarrow> adaptive_burst_skip (length buf)
          (if level \<ge> burst_loud_threshold s then s\<lparr>block_loud_decoded := block_loud_decoded s + 1\<rparr> else s)
      | None \<Rightarrow> adaptive_range_update buf (adaptive_burst_update buf s))"

definition next_subblock :: "adaptive \<Rightarrow> adaptive" where
  "next_subblock s =
     (let c = dutycycle_counter s + dutycycle_N s
      in if c \<ge> dutycycle_D then s\<lparr>dutycycle_counter := c - dutycycle_D, subblock_active := True\<rparr>
         else adaptive_burst_end_of_window 0 (s\<lparr>dutycycle_counter := c, subblock_active := False\<rparr>))"

definition end_subblock :: "adaptive_env \<Rightarrow> adaptive \<Rightarrow> adaptive option" where
  "end_subblock E s =
     (let s = next_subblock (s\<lparr>subblock_samples_remaining := samples_per_subblock s\<rparr>);
          s = s\<lparr>subblocks_remaining := subblocks_remaining s - 1\<rparr>
      in if subblocks_remaining s = 0 then adaptive_end_of_block E (s\<lparr>subblocks_remaining := of_nat subblocks_per_block\<rparr>)
         else Some s)"

text \<open>Complete subblocks. Without samples in a subblock the loop would not end.\<close>

partial_function (option) subblock_loop :: "adaptive_env \<Rightarrow> rat option \<Rightarrow> u16 list \<Rightarrow> adaptive \<Rightarrow> (u16 list \<times> adaptive) option" where
  "subblock_loop E decoded buf s =
     (if length buf \<ge> subblock_samples_remaining s then
        end_subblock E (if subblock_active s then adaptive_update_subblock (take (subblock_samples_remaining s) buf) decoded s else s)
          \<bind> subblock_loop E decoded (drop (subblock_samples_remaining s) buf)
      else Some (buf, s))"

definition adaptive_update :: "adaptive_env \<Rightarrow> u16 list \<Rightarrow> rat option \<Rightarrow> adaptive \<Rightarrow> adaptive option" where
  "adaptive_update E buf decoded s =
     (if \<not> burst_control s \<and> \<not> range_control s then Some s
      else do {
        (buf, s) \<leftarrow> subblock_loop E decoded buf s;
        if length buf > 0
        then let s = (if subblock_active s then adaptive_update_subblock buf decoded s else s)
             in Some (s\<lparr>subblock_samples_remaining := subblock_samples_remaining s - length buf\<rparr>)
        else Some s })"

text \<open>The loops are unfolded by hand.\<close>

declare lower_limit.simps [simp del] upper_limit.simps [simp del] percentile_loop.simps [simp del]

end
