(* ===== verification/AdaptiveCorrect.thy ===== *)
theory AdaptiveCorrect
  imports Adaptive "HOL-Library.Multiset"
begin

text \<open>
  What gain control guarantees: it depends on the samples and not on how they are cut into buffers, it
  examines the share of the subblocks it was asked to, it measures the percentile of the samples, and it
  moves the gain by single steps within its limits, whatever the hardware answers.
\<close>

subsection \<open>The sample machine\<close>

definition loud :: "u16 \<Rightarrow> nat" where
  "loud v = of_bool (46395 \<le> v)"

text \<open>Burst measurement for one sample.\<close>

definition burst_sample :: "u16 \<Rightarrow> adaptive \<Rightarrow> adaptive" where
  "burst_sample v s =
     (let c = burst_window_counter s + loud v
      in if burst_window_remaining s = 1
         then (adaptive_burst_end_of_window c s)\<lparr>burst_window_counter := 0, burst_window_remaining := samples_per_window s\<rparr>
         else s\<lparr>burst_window_counter := c, burst_window_remaining := burst_window_remaining s - 1\<rparr>)"

lemma end_of_window_fields [simp]:
  "samples_per_window (adaptive_burst_end_of_window c s) = samples_per_window s"
  "burst_window_remaining (adaptive_burst_end_of_window c s) = burst_window_remaining s"
  "burst_window_counter (adaptive_burst_end_of_window c s) = burst_window_counter s"
  "burst_control (adaptive_burst_end_of_window c s) = burst_control s"
  by (simp_all add: adaptive_burst_end_of_window_def)

lemma end_of_window_commutes [simp]:
  "adaptive_burst_end_of_window c (s\<lparr>burst_window_counter := a\<rparr>) = (adaptive_burst_end_of_window c s)\<lparr>burst_window_counter := a\<rparr>"
  "adaptive_burst_end_of_window c (s\<lparr>burst_window_remaining := b\<rparr>) = (adaptive_burst_end_of_window c s)\<lparr>burst_window_remaining := b\<rparr>"
  by (simp_all add: adaptive_burst_end_of_window_def)

lemma count_simps [simp]:
  "adaptive_burst_count_samples [] = 0"
  "adaptive_burst_count_samples (v # buf) = loud v + adaptive_burst_count_samples buf"
  by (simp_all add: adaptive_burst_count_samples_def loud_def)

lemma count_append [simp]:
  "adaptive_burst_count_samples (xs @ ys) = adaptive_burst_count_samples xs + adaptive_burst_count_samples ys"
  by (simp add: adaptive_burst_count_samples_def)

lemma fold_partial:
  "length buf < burst_window_remaining s \<Longrightarrow>
   fold burst_sample buf s = s\<lparr>burst_window_counter := burst_window_counter s + adaptive_burst_count_samples buf,
     burst_window_remaining := burst_window_remaining s - length buf\<rparr>"
proof (induction buf arbitrary: s)
  case (Cons v buf)
  then have "burst_sample v s = s\<lparr>burst_window_counter := burst_window_counter s + loud v,
    burst_window_remaining := burst_window_remaining s - 1\<rparr>" by (auto simp: burst_sample_def Let_def)
  with Cons.prems show ?case by (subst fold_Cons, simp, subst Cons.IH) simp_all
qed simp

lemma fold_window:
  assumes "length buf = burst_window_remaining s" "0 < burst_window_remaining s"
  shows "fold burst_sample buf s = (adaptive_burst_end_of_window (burst_window_counter s + adaptive_burst_count_samples buf) s)
     \<lparr>burst_window_counter := 0, burst_window_remaining := samples_per_window s\<rparr>"
proof -
  obtain ys v where buf: "buf = ys @ [v]" using assms by (metis length_0_conv less_irrefl rev_exhaust)
  then have one: "burst_window_remaining s - length ys = 1" using assms by simp
  have "fold burst_sample buf s = burst_sample v (s\<lparr>burst_window_counter := burst_window_counter s + adaptive_burst_count_samples ys,
      burst_window_remaining := 1\<rparr>)"
    using fold_partial [of ys s] assms one buf by simp
  then show ?thesis by (simp add: buf burst_sample_def Let_def add.assoc)
qed

lemma fold_windows:
  "length buf = windows * samples_per_window s \<Longrightarrow> 0 < samples_per_window s \<Longrightarrow> burst_window_remaining s = samples_per_window s \<Longrightarrow>
   burst_window_counter s = 0 \<Longrightarrow> fold burst_sample buf s = adaptive_burst_scan_windows buf windows s"
proof (induction windows arbitrary: buf s)
  case (Suc windows)
  let ?n = "samples_per_window s"
  have len: "length (take ?n buf) = burst_window_remaining s" using Suc.prems by simp
  have "fold burst_sample buf s = fold burst_sample (drop ?n buf) (fold burst_sample (take ?n buf) s)"
    by (metis append_take_drop_id comp_apply fold_append)
  also have "fold burst_sample (take ?n buf) s
      = (adaptive_burst_end_of_window (adaptive_burst_count_samples (take ?n buf)) s)"
    using fold_window [OF len] Suc.prems by simp
  finally show ?case using Suc.prems by (simp add: Suc.IH)
qed simp

text \<open>The windows are aligned.\<close>

definition window_ok :: "adaptive \<Rightarrow> bool" where
  "window_ok s \<longleftrightarrow> 0 < burst_window_remaining s \<and> burst_window_remaining s \<le> samples_per_window s"

lemma scan_windows_fields [simp]:
  "samples_per_window (adaptive_burst_scan_windows buf n s) = samples_per_window s"
  "burst_window_remaining (adaptive_burst_scan_windows buf n s) = burst_window_remaining s"
  "burst_window_counter (adaptive_burst_scan_windows buf n s) = burst_window_counter s"
  by (induction n arbitrary: buf s) simp_all

lemma scan_windows_commutes [simp]:
  "adaptive_burst_scan_windows buf n (s\<lparr>burst_window_counter := a\<rparr>) = (adaptive_burst_scan_windows buf n s)\<lparr>burst_window_counter := a\<rparr>"
  "adaptive_burst_scan_windows buf n (s\<lparr>burst_window_remaining := b\<rparr>) = (adaptive_burst_scan_windows buf n s)\<lparr>burst_window_remaining := b\<rparr>"
  by (induction n arbitrary: buf s) simp_all

lemma scan_windows_take: "adaptive_burst_scan_windows (take (j * samples_per_window s) buf) j s = adaptive_burst_scan_windows buf j s"
proof (induction j arbitrary: buf s)
  case (Suc j)
  show ?case
    using Suc.IH [of "adaptive_burst_end_of_window (adaptive_burst_count_samples (take (samples_per_window s) buf)) s"
        "drop (samples_per_window s) buf"]
    by (simp add: drop_take)
qed simp

lemma burst_update_samples:
  assumes "window_ok s" "burst_control s"
  shows "adaptive_burst_update buf s = fold burst_sample buf s"
proof (cases "length buf < burst_window_remaining s")
  case True
  then show ?thesis using assms(2) by (simp add: adaptive_burst_update_def fold_partial)
next
  case False
  define n where "n = burst_window_remaining s"
  define w where "w = samples_per_window s"
  define rest where "rest = drop n buf"
  define k where "k = length rest div w"
  define s1 where "s1 = adaptive_burst_end_of_window (burst_window_counter s + adaptive_burst_count_samples (take n buf)) s"
  have w: "0 < w" using assms(1) by (simp add: window_ok_def w_def)
  have 1: "fold burst_sample (take n buf) s = s1\<lparr>burst_window_counter := 0, burst_window_remaining := w\<rparr>"
    unfolding s1_def w_def by (rule fold_window) (use False assms(1) in \<open>simp_all add: n_def window_ok_def\<close>)
  have 2: "fold burst_sample (take (k * w) rest) (s1\<lparr>burst_window_counter := 0, burst_window_remaining := w\<rparr>)
      = (adaptive_burst_scan_windows (take (k * w) rest) k s1)\<lparr>burst_window_counter := 0, burst_window_remaining := w\<rparr>"
    using fold_windows [of "take (k * w) rest" k "s1\<lparr>burst_window_counter := 0, burst_window_remaining := w\<rparr>"] w
    by (simp add: s1_def w_def k_def)
  have "length (drop (k * w) rest) < w" using w by (simp add: k_def minus_div_mult_eq_mod)
  then have 4: "fold burst_sample (drop (k * w) rest) ((adaptive_burst_scan_windows rest k s1)\<lparr>burst_window_counter := 0, burst_window_remaining := w\<rparr>)
      = (adaptive_burst_scan_windows rest k s1)\<lparr>burst_window_counter := adaptive_burst_count_samples (drop (k * w) rest),
          burst_window_remaining := w - length (drop (k * w) rest)\<rparr>"
    by (subst fold_partial) simp_all
  have u: "adaptive_burst_update buf s = (adaptive_burst_scan_windows rest k s1)\<lparr>burst_window_counter := adaptive_burst_count_samples (drop (k * w) rest),
          burst_window_remaining := w - length (drop (k * w) rest)\<rparr>"
    using False assms(2) by (simp only: adaptive_burst_update_def Let_def n_def rest_def k_def w_def s1_def simp_thms if_False end_of_window_fields scan_windows_fields)
  have t: "adaptive_burst_scan_windows (take (k * w) rest) k s1 = adaptive_burst_scan_windows rest k s1"
    using scan_windows_take [of k s1 rest] by (simp add: s1_def w_def)
  have "fold burst_sample buf s = fold burst_sample (drop (k * w) rest) (fold burst_sample (take (k * w) rest) (fold burst_sample (take n buf) s))"
    unfolding rest_def by (metis append_take_drop_id comp_apply fold_append)
  also have "\<dots> = adaptive_burst_update buf s" unfolding 1 2 t 4 u ..
  finally show ?thesis by simp
qed

subsection \<open>Subblocks\<close>

lemma burst_sample_ok: "window_ok s \<Longrightarrow> window_ok (burst_sample v s)"
  by (auto simp: window_ok_def burst_sample_def Let_def)

lemma burst_samples_ok: "window_ok s \<Longrightarrow> window_ok (fold burst_sample buf s)"
  by (induction buf arbitrary: s) (simp_all add: burst_sample_ok)

lemma burst_sample_control [simp]: "burst_control (burst_sample v s) = burst_control s"
  by (simp add: burst_sample_def Let_def)

lemma burst_samples_control [simp]: "burst_control (fold burst_sample buf s) = burst_control s"
  by (induction buf arbitrary: s) simp_all

lemma burst_update_ok: "window_ok s \<Longrightarrow> window_ok (adaptive_burst_update buf s)"
proof (cases "burst_control s")
  case True
  then show "window_ok s \<Longrightarrow> ?thesis" by (simp add: burst_update_samples burst_samples_ok)
qed (simp add: adaptive_burst_update_def)

lemma burst_update_append:
  assumes "window_ok s"
  shows "adaptive_burst_update (xs @ ys) s = adaptive_burst_update ys (adaptive_burst_update xs s)"
proof (cases "burst_control s")
  case True
  then show ?thesis using assms by (simp add: burst_update_samples burst_samples_ok)
qed (simp add: adaptive_burst_update_def)

lemma range_update_append: "adaptive_range_update (xs @ ys) s = adaptive_range_update ys (adaptive_range_update xs s)"
  by (simp add: adaptive_range_update_def add.assoc)

lemma range_update_fields [simp]:
  "window_ok (adaptive_range_update buf s) = window_ok s" "burst_control (adaptive_range_update buf s) = burst_control s"
  by (simp_all add: adaptive_range_update_def window_ok_def)

lemma burst_sample_range: "burst_sample v (adaptive_range_update buf s) = adaptive_range_update buf (burst_sample v s)"
  by (simp add: burst_sample_def adaptive_range_update_def Let_def adaptive_burst_end_of_window_def)

lemma burst_samples_range: "fold burst_sample vs (adaptive_range_update buf s) = adaptive_range_update buf (fold burst_sample vs s)"
  by (induction vs arbitrary: s) (simp_all add: burst_sample_range)

lemma burst_update_range:
  assumes "window_ok s"
  shows "adaptive_burst_update ys (adaptive_range_update xs s) = adaptive_range_update xs (adaptive_burst_update ys s)"
proof (cases "burst_control s")
  case True
  then show ?thesis using assms by (simp add: burst_update_samples burst_samples_range)
qed (simp add: adaptive_burst_update_def)

lemma subblock_append:
  assumes "window_ok s"
  shows "adaptive_update_subblock (xs @ ys) None s = adaptive_update_subblock ys None (adaptive_update_subblock xs None s)"
  using assms
  by (simp add: adaptive_update_subblock_def burst_update_append range_update_append burst_update_range burst_update_ok)

lemma subblock_empty [simp]: "window_ok s \<Longrightarrow> adaptive_update_subblock [] None s = s"
  by (cases "burst_control s")
    (simp_all add: adaptive_update_subblock_def burst_update_samples adaptive_range_update_def, simp add: adaptive_burst_update_def)

lemma end_quiet_fields [simp]:
  "samples_per_window (end_quiet_windows n s) = samples_per_window s"
  by (induction n arbitrary: s) simp_all

lemma burst_skip_ok: "window_ok s \<Longrightarrow> window_ok (adaptive_burst_skip n s)"
  by (auto simp: window_ok_def adaptive_burst_skip_def Let_def minus_div_mult_eq_mod intro: order.strict_trans2)

lemma update_subblock_ok: "window_ok s \<Longrightarrow> window_ok (adaptive_update_subblock buf decoded s)"
proof (cases decoded)
  case (Some level)
  have "window_ok s \<Longrightarrow> window_ok (s\<lparr>block_loud_decoded := k\<rparr>)" for k by (simp add: window_ok_def)
  then show "window_ok s \<Longrightarrow> ?thesis" using Some by (simp add: adaptive_update_subblock_def burst_skip_ok)
qed (simp add: adaptive_update_subblock_def burst_update_ok)

subsection \<open>The receiver\<close>

definition sdr_ok :: "sdr \<Rightarrow> bool" where
  "sdr_ok d \<longleftrightarrow> (\<forall>gains. rtl_gains d = Some gains \<longrightarrow> gains \<noteq> [] \<and> rtl_gain_steps d = int (length gains))"

lemma clamp_step_ok:
  assumes "sdr_ok d" "rtl_gains d = Some gains"
  shows "0 \<le> clamp_step d step" "nat (clamp_step d step) < length gains" "clamp_step d step < rtl_gain_steps d"
proof -
  have n: "0 < length gains" "rtl_gain_steps d = int (length gains)" using assms by (auto simp: sdr_ok_def)
  then show "0 \<le> clamp_step d step" "nat (clamp_step d step) < length gains" "clamp_step d step < rtl_gain_steps d"
    by (auto simp: clamp_step_def Let_def nat_less_iff)
qed

lemma sdrGetGainDb_total: "sdr_ok d \<Longrightarrow> \<exists>db. sdrGetGainDb d step = Some db"
  by (auto simp: sdrGetGainDb_def rtlsdrGetGainDb_def c_simps clamp_step_ok Let_def split: option.split)

lemma rtlsdr_call_fields:
  "rtlsdr_call d = (r, d') \<Longrightarrow> sdr_type d' = sdr_type d \<and> rtl_gains d' = rtl_gains d \<and> rtl_gain_steps d' = rtl_gain_steps d
     \<and> rtl_current_gain d' = rtl_current_gain d"
  by (auto simp: rtlsdr_call_def split: list.splits)

text \<open>Setting a gain ends, and the gain is the old one or the one asked for, brought into the range of the table.\<close>

lemma sdrSetGain_total:
  assumes "sdr_ok d"
  obtains new d' where "sdrSetGain step d = Some (new, d')" "sdr_ok d'" "sdr_type d' = sdr_type d" "rtl_gain_steps d' = rtl_gain_steps d"
    "sdrGetGain d' = sdrGetGain d \<or> sdrGetGain d' = clamp_step d step"
proof (cases "sdr_type d = SDR_RTLSDR \<and> rtl_gains d \<noteq> None")
  case False
  then have "sdrSetGain step d = Some (if sdr_type d = SDR_RTLSDR then -1 else 0, d)"
    by (auto simp: sdrSetGain_def rtlsdrSetGain_def)
  then show ?thesis using that assms by blast
next
  case True
  then obtain gains where g: "rtl_gains d = Some gains" by blast
  obtain mode d1 where 1: "rtlsdr_call d = (mode, d1)" by force
  obtain gain d2 where 2: "rtlsdr_call d1 = (gain, d2)" by force
  note f = rtlsdr_call_fields [OF 1] rtlsdr_call_fields [OF 2]
  show ?thesis
  proof (cases "mode < 0")
    case m: True
    show ?thesis by (rule that [of "rtl_current_gain d1" d1]) (use True g 1 f m assms clamp_step_ok [OF assms g] in
        \<open>auto simp: sdrSetGain_def rtlsdrSetGain_def c_simps Let_def sdr_ok_def sdrGetGain_def\<close>)
  next
    case m: False
    show ?thesis
    proof (cases "clamp_step d step = rtl_gain_steps d - 1")
      case auto: True
      show ?thesis by (rule that [of "clamp_step d step" "d1\<lparr>rtl_current_gain := clamp_step d step\<rparr>"])
          (use True g 1 f m auto assms clamp_step_ok [OF assms g, of step] in
            \<open>auto simp: sdrSetGain_def rtlsdrSetGain_def c_simps Let_def sdr_ok_def sdrGetGain_def\<close>)
    next
      case manual: False
      show ?thesis
      proof (cases "gain < 0")
        case n: True
        show ?thesis by (rule that [of "rtl_current_gain d1" d2]) (use True g 1 2 f m manual n assms clamp_step_ok [OF assms g, of step] in
            \<open>auto simp: sdrSetGain_def rtlsdrSetGain_def c_simps Let_def sdr_ok_def sdrGetGain_def\<close>)
      next
        case n: False
        show ?thesis by (rule that [of "clamp_step d step" "d2\<lparr>rtl_current_gain := clamp_step d step\<rparr>"])
            (use True g 1 2 f m manual n assms clamp_step_ok [OF assms g, of step] in
              \<open>auto simp: sdrSetGain_def rtlsdrSetGain_def c_simps Let_def sdr_ok_def sdrGetGain_def\<close>)
      qed
    qed
  qed
qed

subsection \<open>Changing the gain\<close>

text \<open>What control leaves alone.\<close>

definition same_setup :: "adaptive \<Rightarrow> adaptive \<Rightarrow> bool" where
  "same_setup s s' \<longleftrightarrow> samples_per_window s' = samples_per_window s \<and> samples_per_subblock s' = samples_per_subblock s
     \<and> burst_window_remaining s' = burst_window_remaining s \<and> burst_window_counter s' = burst_window_counter s
     \<and> burst_control s' = burst_control s \<and> range_control s' = range_control s
     \<and> gain_min s' = gain_min s \<and> gain_max s' = gain_max s \<and> dutycycle_N s' = dutycycle_N s
     \<and> dutycycle_counter s' = dutycycle_counter s \<and> subblock_active s' = subblock_active s
     \<and> subblocks_remaining s' = subblocks_remaining s \<and> subblock_samples_remaining s' = subblock_samples_remaining s
     \<and> sdr_type (ad_sdr s') = sdr_type (ad_sdr s) \<and> rtl_gain_steps (ad_sdr s') = rtl_gain_steps (ad_sdr s)
     \<and> length (as_gain_seconds (ad_stats s')) = length (as_gain_seconds (ad_stats s))"

lemma same_setup_refl [simp]: "same_setup s s"
  by (simp add: same_setup_def)

lemma same_setup_trans: "same_setup a b \<Longrightarrow> same_setup b c \<Longrightarrow> same_setup a c"
  by (simp add: same_setup_def)

definition limited :: "adaptive \<Rightarrow> int \<Rightarrow> int" where
  "limited s step = min (gain_max s) (max (gain_min s) step)"

lemma set_gain_total:
  assumes "sdr_ok (ad_sdr s)"
  obtains b s' where "adaptive_set_gain step s = Some (b, s')" "same_setup s s'" "sdr_ok (ad_sdr s')"
    "current_gain s' = current_gain s \<or> current_gain s' = clamp_step (ad_sdr s) (limited s step)"
    "range_gain_limit s' = range_gain_limit s"
proof -
  define st where "st = limited s step"
  have st: "(let step = (if step < gain_min s then gain_min s else step) in if step > gain_max s then gain_max s else step) = st"
    by (simp add: st_def limited_def Let_def min_def max_def)
  obtain new d where d: "sdrSetGain st (ad_sdr s) = Some (new, d)" "sdr_ok d" "sdr_type d = sdr_type (ad_sdr s)"
    "rtl_gain_steps d = rtl_gain_steps (ad_sdr s)" "sdrGetGain d = current_gain s \<or> sdrGetGain d = clamp_step (ad_sdr s) st"
    by (rule sdrSetGain_total [OF assms])
  obtain x y where db: "sdrGetGainDb (ad_sdr s) (current_gain s) = Some x" "sdrGetGainDb (ad_sdr s) st = Some y"
    using sdrGetGainDb_total [OF assms] by metis
  have run: "adaptive_set_gain step s =
      (if current_gain s = st then Some (False, s)
       else if current_gain s \<noteq> new then Some (True, on_ad_stats (\<lambda>t. t\<lparr>as_gain_changes := as_gain_changes t + 1\<rparr>) (s\<lparr>ad_sdr := d\<rparr>))
       else Some (False, s\<lparr>ad_sdr := d\<rparr>))"
    using d(1) db unfolding adaptive_set_gain_def st [symmetric] Let_def by simp
  show ?thesis
  proof (cases "current_gain s = st")
    case True
    then show ?thesis using that [of False s] run assms by simp
  next
    case False
    show ?thesis
      by (rule that [of "current_gain s \<noteq> new" "if current_gain s \<noteq> new then on_ad_stats (\<lambda>t. t\<lparr>as_gain_changes := as_gain_changes t + 1\<rparr>) (s\<lparr>ad_sdr := d\<rparr>)
          else s\<lparr>ad_sdr := d\<rparr>"])
        (use False run d st_def in \<open>auto simp: same_setup_def on_ad_stats_def\<close>)
  qed
qed

lemma gain_changed_total:
  assumes "sdr_ok (ad_sdr s)"
  obtains s' where "adaptive_gain_changed E s = Some s'" "same_setup s s'" "ad_sdr s' = ad_sdr s" "range_gain_limit s' = range_gain_limit s"
proof -
  obtain x y z where "sdrGetGainDb (ad_sdr s) (current_gain s + 1) = Some x" "sdrGetGainDb (ad_sdr s) (current_gain s) = Some y"
    "sdrGetGainDb (ad_sdr s) (current_gain s - 1) = Some z"
    using sdrGetGainDb_total [OF assms] by metis
  then show ?thesis using that by (simp add: adaptive_gain_changed_def Let_def same_setup_def)
qed

text \<open>The gain is within the limits, and these within the table of the receiver.\<close>

definition gain_ok :: "adaptive \<Rightarrow> bool" where
  "gain_ok s \<longleftrightarrow> 0 \<le> gain_min s \<and> gain_min s \<le> current_gain s \<and> current_gain s \<le> gain_max s \<and> gain_max s < rtl_gain_steps (ad_sdr s)"

lemma clamp_limited: "gain_ok s \<Longrightarrow> clamp_step (ad_sdr s) (limited s step) = limited s step"
  by (auto simp: gain_ok_def clamp_step_def limited_def Let_def)

text \<open>A step up or down.\<close>

lemma change_gain_total:
  assumes "sdr_ok (ad_sdr s)" "c = adaptive_increase_gain E s \<and> dir = 1 \<or> c = adaptive_decrease_gain E s \<and> dir = -1"
  obtains s' where "c = Some s'" "same_setup s s'" "sdr_ok (ad_sdr s')" "range_gain_limit s' = range_gain_limit s"
    "gain_ok s \<Longrightarrow> gain_ok s' \<and> (current_gain s' = current_gain s \<or> current_gain s' = current_gain s + dir)"
proof -
  obtain b s1 where 1: "adaptive_set_gain (current_gain s + dir) s = Some (b, s1)" "same_setup s s1" "sdr_ok (ad_sdr s1)"
    "current_gain s1 = current_gain s \<or> current_gain s1 = clamp_step (ad_sdr s) (limited s (current_gain s + dir))"
    "range_gain_limit s1 = range_gain_limit s"
    by (rule set_gain_total [OF assms(1)])
  obtain s2 where 2: "adaptive_gain_changed E s1 = Some s2" "same_setup s1 s2" "ad_sdr s2 = ad_sdr s1" "range_gain_limit s2 = range_gain_limit s1"
    by (rule gain_changed_total [OF 1(3)])
  have c: "c = Some (if b then s2 else s1)"
    using assms(2) 1(1) 2(1) by (auto simp: adaptive_increase_gain_def adaptive_decrease_gain_def)
  have "gain_ok s1 \<and> (current_gain s1 = current_gain s \<or> current_gain s1 = current_gain s + dir)" if "gain_ok s"
    using 1(2,4) assms(2) that clamp_limited [OF that, of "current_gain s + dir"]
    by (auto simp: gain_ok_def same_setup_def limited_def)
  moreover have "gain_ok s2 = gain_ok s1" using 2(2,3) by (simp add: gain_ok_def same_setup_def)
  ultimately show ?thesis
    using that [OF c] 1(2,3,5) 2(2-4) same_setup_trans [of s s1 s2] by (cases b) simp_all
qed

subsection \<open>Control\<close>

lemma same_setup_scans [simp]:
  "same_setup s (snd (burst_votes E s))" "ad_sdr (snd (burst_votes E s)) = ad_sdr s"
  "same_setup s (snd (scan_up E r v s))" "ad_sdr (snd (scan_up E r v s)) = ad_sdr s"
  "same_setup s (snd (scan_down E r v s))" "ad_sdr (snd (scan_down E r v s)) = ad_sdr s"
  "same_setup s (snd (scan_idle E r v s))" "ad_sdr (snd (scan_idle E r v s)) = ad_sdr s"
  by (simp_all add: burst_votes_def count_blocks_def scan_up_def scan_down_def scan_idle_def lower_gain_limit_def go_idle_def
      same_setup_def Let_def)

lemma range_votes_setup:
  "same_setup (snd vs) (snd (range_votes E vs)) \<and> ad_sdr (snd (range_votes E vs)) = ad_sdr (snd vs)"
proof -
  obtain v s where vs: "vs = (v, s)" by force
  define s1 where "s1 = (if range_ge (available_range E s) (a_range_target E) \<and> current_gain s > range_gain_limit s
      then s\<lparr>range_gain_limit := current_gain s\<rparr> else s)"
  have 1: "same_setup s s1" "ad_sdr s1 = ad_sdr s" by (simp_all add: s1_def same_setup_def)
  have eq: "range_votes E vs = (if range_control s \<and> range_change_timer s = 0
      then (case range_state s1 of RANGE_SCAN_UP \<Rightarrow> scan_up E (available_range E s) v s1
        | RANGE_SCAN_DOWN \<Rightarrow> scan_down E (available_range E s) v s1 | RANGE_SCAN_IDLE \<Rightarrow> scan_idle E (available_range E s) v s1)
      else (v, s))"
    by (simp only: vs range_votes_def Let_def prod.case s1_def [symmetric])
  show ?thesis
    unfolding eq using same_setup_trans [OF 1(1) same_setup_scans(3)] same_setup_trans [OF 1(1) same_setup_scans(5)]
      same_setup_trans [OF 1(1) same_setup_scans(7)] 1(2)
    by (simp add: vs split: range_state.split)
qed

text \<open>A veto of burst control, or a vote of either part against a higher gain, stands.\<close>

lemma range_votes_veto: "gain_not_up (fst vs) \<Longrightarrow> gain_not_up (fst (range_votes E vs))"
proof -
  assume a: "gain_not_up (fst vs)"
  obtain v s where vs: "vs = (v, s)" by force
  have "gain_not_up (fst (scan_up E r v t))" "gain_not_up (fst (scan_down E r v t))" "gain_not_up (fst (scan_idle E r v t))" for r t
    using a vs by (simp_all add: scan_up_def scan_down_def scan_idle_def vote_down_def Let_def)
  then show ?thesis using a by (simp add: vs range_votes_def Let_def split: range_state.split)
qed

definition ticked :: "adaptive \<Rightarrow> adaptive" where
  "ticked s = s\<lparr>burst_change_timer := tick (burst_change_timer s), range_change_timer := tick (range_change_timer s),
     range_rescan_timer := tick (range_rescan_timer s)\<rparr>"

lemma ticked_setup [simp]: "same_setup s (ticked s)" "ad_sdr (ticked s) = ad_sdr s"
  by (simp_all add: ticked_def same_setup_def)

lemma gain_ok_setup: "same_setup s s' \<Longrightarrow> ad_sdr s' = ad_sdr s \<Longrightarrow> gain_ok s' = gain_ok s"
  by (simp add: gain_ok_def same_setup_def)

lemma control_total:
  assumes "sdr_ok (ad_sdr s)"
  obtains s' where "adaptive_control_update E s = Some s'" "same_setup s s'" "sdr_ok (ad_sdr s')"
    "gain_ok s \<Longrightarrow> gain_ok s' \<and> current_gain s - 1 \<le> current_gain s' \<and> current_gain s' \<le> current_gain s + 1
       \<and> (gain_not_up (fst (burst_votes E (ticked s))) \<longrightarrow> current_gain s' \<le> current_gain s)"
proof -
  obtain v s1 where v: "range_votes E (burst_votes E (ticked s)) = (v, s1)" by force
  then have 1: "same_setup s s1" "ad_sdr s1 = ad_sdr s"
    using range_votes_setup [of "burst_votes E (ticked s)" E] same_setup_trans [OF ticked_setup(1) same_setup_trans [OF same_setup_scans(1)]]
    by auto
  then have ok: "sdr_ok (ad_sdr s1)" using assms by simp
  have g: "gain_ok s1 = gain_ok s" by (rule gain_ok_setup [OF 1])
  have veto: "gain_not_up (fst (burst_votes E (ticked s))) \<Longrightarrow> gain_not_up v"
    using range_votes_veto [of "burst_votes E (ticked s)" E] v by simp
  have run: "adaptive_control_update E s = (if gain_down v then adaptive_decrease_gain E s1
      else if gain_up v \<and> \<not> gain_not_up v then adaptive_increase_gain E s1 else Some s1)"
    by (simp add: adaptive_control_update_def Let_def ticked_def [symmetric] v)
  obtain s2 where down: "adaptive_decrease_gain E s1 = Some s2" "same_setup s1 s2" "sdr_ok (ad_sdr s2)"
    "gain_ok s1 \<Longrightarrow> gain_ok s2 \<and> (current_gain s2 = current_gain s1 \<or> current_gain s2 = current_gain s1 + -1)"
    by (rule change_gain_total [OF ok, of "adaptive_decrease_gain E s1" E "-1"]) auto
  obtain s3 where up: "adaptive_increase_gain E s1 = Some s3" "same_setup s1 s3" "sdr_ok (ad_sdr s3)"
    "gain_ok s1 \<Longrightarrow> gain_ok s3 \<and> (current_gain s3 = current_gain s1 \<or> current_gain s3 = current_gain s1 + 1)"
    by (rule change_gain_total [OF ok, of "adaptive_increase_gain E s1" E "1"]) auto
  consider "gain_down v" | "\<not> gain_down v" "gain_up v \<and> \<not> gain_not_up v" | "\<not> gain_down v" "\<not> (gain_up v \<and> \<not> gain_not_up v)" by blast
  then show ?thesis
  proof cases
    case 1
    show ?thesis by (rule that [of s2]) (use 1 run down(1,3,4) \<open>ad_sdr s1 = ad_sdr s\<close> g same_setup_trans [OF \<open>same_setup s s1\<close> down(2)] in auto)
  next
    case 2
    show ?thesis by (rule that [of s3]) (use 2 run up(1,3,4) \<open>ad_sdr s1 = ad_sdr s\<close> g veto same_setup_trans [OF \<open>same_setup s s1\<close> up(2)] in auto)
  next
    case 3
    show ?thesis by (rule that [of s1]) (use 3 run ok \<open>ad_sdr s1 = ad_sdr s\<close> \<open>same_setup s s1\<close> g in auto)
  qed
qed

lemma measured_setup:
  "same_setup s (adaptive_burst_end_of_block E (adaptive_range_end_of_block E s))"
  "ad_sdr (adaptive_burst_end_of_block E (adaptive_range_end_of_block E s)) = ad_sdr s"
  by (simp_all add: adaptive_burst_end_of_block_def adaptive_range_end_of_block_def on_ad_stats_def same_setup_def Let_def)

lemma end_of_block_total:
  assumes "sdr_ok (ad_sdr s)" "length (as_gain_seconds (ad_stats s)) = 64"
  obtains s' where "adaptive_end_of_block E s = Some s'" "same_setup s s'" "sdr_ok (ad_sdr s')"
    "gain_ok s \<Longrightarrow> gain_ok s' \<and> current_gain s - 1 \<le> current_gain s' \<and> current_gain s' \<le> current_gain s + 1"
proof -
  define m where "m = adaptive_burst_end_of_block E (adaptive_range_end_of_block E s)"
  note frame = measured_setup [where s = s and E = E, folded m_def]
  have ok: "sdr_ok (ad_sdr m)" using assms(1) frame(2) by simp
  obtain s1 where s1: "adaptive_control_update E m = Some s1" "same_setup m s1" "sdr_ok (ad_sdr s1)"
    "gain_ok m \<Longrightarrow> gain_ok s1 \<and> current_gain m - 1 \<le> current_gain s1 \<and> current_gain s1 \<le> current_gain m + 1"
    using control_total [OF ok, of E] by metis
  define i where "i = (if (word_of_int (current_gain s1) :: u32) < of_nat STATS_GAIN_COUNT then unat (word_of_int (current_gain s1) :: u32) else STATS_GAIN_COUNT - 1)"
  have i: "i < length (as_gain_seconds (ad_stats s1))"
    using assms(2) frame(1) s1(2) by (auto simp: i_def STATS_GAIN_COUNT_def same_setup_def word_less_nat_alt)
  define s2 where "s2 = on_ad_stats (\<lambda>t. t\<lparr>as_valid := True, as_gain := current_gain s1, as_range_gain_limit := range_gain_limit s1,
      as_gain_seconds := (as_gain_seconds t)[i := as_gain_seconds (ad_stats s1) ! i + 1]\<rparr>) s1"
  have run: "adaptive_end_of_block E s = Some s2"
    using s1(1) i by (simp add: adaptive_end_of_block_def m_def [symmetric] i_def [symmetric] s2_def Let_def)
  have 2: "same_setup s1 s2" "ad_sdr s2 = ad_sdr s1" by (simp_all add: s2_def on_ad_stats_def same_setup_def)
  show ?thesis
    by (rule that [OF run]) (use 2 s1(2-4) frame gain_ok_setup [OF 2] gain_ok_setup [OF frame] same_setup_trans [OF same_setup_trans [OF frame(1) s1(2)] 2(1)] in simp_all)
qed

subsection \<open>Samples\<close>

text \<open>What every step keeps, once gain control is set up.\<close>

definition adaptive_ok :: "adaptive \<Rightarrow> bool" where
  "adaptive_ok s \<longleftrightarrow> window_ok s \<and> sdr_ok (ad_sdr s) \<and> length (as_gain_seconds (ad_stats s)) = 64
     \<and> 0 < subblock_samples_remaining s \<and> subblock_samples_remaining s \<le> samples_per_subblock s"

text \<open>The parts of the state that measuring samples leaves alone.\<close>

definition same_gain :: "adaptive \<Rightarrow> adaptive \<Rightarrow> bool" where
  "same_gain s s' \<longleftrightarrow> ad_sdr s' = ad_sdr s \<and> ad_stats s' = ad_stats s \<and> gain_min s' = gain_min s \<and> gain_max s' = gain_max s
     \<and> samples_per_subblock s' = samples_per_subblock s \<and> subblock_samples_remaining s' = subblock_samples_remaining s
     \<and> subblock_active s' = subblock_active s \<and> burst_control s' = burst_control s \<and> range_control s' = range_control s
     \<and> dutycycle_N s' = dutycycle_N s \<and> dutycycle_counter s' = dutycycle_counter s \<and> subblocks_remaining s' = subblocks_remaining s"

lemma same_gain_refl [simp]: "same_gain s s"
  by (simp add: same_gain_def)

lemma same_gain_trans: "same_gain a b \<Longrightarrow> same_gain b c \<Longrightarrow> same_gain a c"
  by (simp add: same_gain_def)

lemma end_of_window_gain [simp]: "same_gain s (adaptive_burst_end_of_window c s)"
  by (simp add: adaptive_burst_end_of_window_def same_gain_def)

lemma burst_samples_gain: "same_gain s (fold burst_sample buf s)"
proof (induction buf arbitrary: s)
  case (Cons v buf)
  have "same_gain s (burst_sample v s)"
    using end_of_window_gain [of s "burst_window_counter s + loud v"] by (simp add: burst_sample_def Let_def same_gain_def)
  then show ?case using Cons.IH [of "burst_sample v s"] by (auto intro: same_gain_trans)
qed simp

lemma end_quiet_gain: "same_gain s (end_quiet_windows n s)"
proof (induction n arbitrary: s)
  case (Suc n)
  show ?case using same_gain_trans [OF end_of_window_gain Suc.IH] by simp
qed simp

lemma burst_skip_gain: "same_gain s (adaptive_burst_skip n s)"
proof -
  have "same_gain s (end_quiet_windows k (adaptive_burst_end_of_window c s))" for k c
    using same_gain_trans [OF end_of_window_gain end_quiet_gain] .
  then show ?thesis by (simp add: adaptive_burst_skip_def Let_def same_gain_def)
qed

lemma update_subblock_gain: "window_ok s \<Longrightarrow> same_gain s (adaptive_update_subblock buf decoded s)"
proof (cases decoded)
  case None
  have r: "same_gain t (adaptive_range_update buf t)" for t by (simp add: adaptive_range_update_def same_gain_def)
  show "window_ok s \<Longrightarrow> ?thesis"
  proof -
    assume w: "window_ok s"
    have "same_gain s (adaptive_burst_update buf s)"
      using burst_samples_gain [of s buf] w
      by (cases "burst_control s") (simp add: burst_update_samples, simp add: adaptive_burst_update_def)
    then show ?thesis using None same_gain_trans [OF _ r] by (simp add: adaptive_update_subblock_def)
  qed
next
  case (Some level)
  have "same_gain s (s\<lparr>block_loud_decoded := k\<rparr>)" for k by (simp add: same_gain_def)
  from same_gain_trans [OF this burst_skip_gain] show ?thesis
    using Some burst_skip_gain [of s "length buf"] by (simp add: adaptive_update_subblock_def)
qed

lemma update_subblock_adaptive_ok: "adaptive_ok s \<Longrightarrow> adaptive_ok (adaptive_update_subblock buf decoded s)"
  using update_subblock_gain [of s buf decoded] update_subblock_ok [of s buf decoded]
  by (simp add: adaptive_ok_def same_gain_def)

lemma same_gain_ok: "same_gain s s' \<Longrightarrow> gain_ok s' = gain_ok s"
  by (simp add: same_gain_def gain_ok_def)

text \<open>The end of a subblock.\<close>

lemma next_subblock_fields:
  "samples_per_subblock (next_subblock s) = samples_per_subblock s" "subblock_samples_remaining (next_subblock s) = subblock_samples_remaining s"
  "ad_sdr (next_subblock s) = ad_sdr s" "ad_stats (next_subblock s) = ad_stats s" "gain_min (next_subblock s) = gain_min s"
  "gain_max (next_subblock s) = gain_max s" "window_ok (next_subblock s) = window_ok s" "subblocks_remaining (next_subblock s) = subblocks_remaining s"
  "burst_control (next_subblock s) = burst_control s" "range_control (next_subblock s) = range_control s"
  by (simp_all add: next_subblock_def adaptive_burst_end_of_window_def Let_def window_ok_def)

lemma end_subblock_total:
  assumes ok: "adaptive_ok s"
  obtains s' where "end_subblock E s = Some s'" "adaptive_ok s'" "samples_per_subblock s' = samples_per_subblock s"
    "burst_control s' = burst_control s" "range_control s' = range_control s"
    "gain_ok s \<Longrightarrow> gain_ok s'"
proof -
  define s1 where "s1 = next_subblock (s\<lparr>subblock_samples_remaining := samples_per_subblock s\<rparr>)"
  define s2 where "s2 = s1\<lparr>subblocks_remaining := subblocks_remaining s1 - 1\<rparr>"
  have f: "samples_per_subblock s2 = samples_per_subblock s" "subblock_samples_remaining s2 = samples_per_subblock s" "ad_sdr s2 = ad_sdr s"
    "ad_stats s2 = ad_stats s" "gain_min s2 = gain_min s" "gain_max s2 = gain_max s" "window_ok s2 = window_ok s"
    "burst_control s2 = burst_control s" "range_control s2 = range_control s"
    using next_subblock_fields [of "s\<lparr>subblock_samples_remaining := samples_per_subblock s\<rparr>"]
    by (simp_all add: s2_def s1_def) (simp_all add: window_ok_def)
  have ok2: "adaptive_ok s2" "gain_ok s2 = gain_ok s" using ok f by (auto simp: adaptive_ok_def gain_ok_def)
  show ?thesis
  proof (cases "subblocks_remaining s2 = 0")
    case False
    then have "end_subblock E s = Some s2"
      unfolding end_subblock_def Let_def s1_def [symmetric] s2_def [symmetric] by simp
    then show ?thesis using that ok2 f by blast
  next
    case True
    define s3 where "s3 = s2\<lparr>subblocks_remaining := of_nat subblocks_per_block\<rparr>"
    have ok3: "adaptive_ok s3" "gain_ok s3 = gain_ok s" using ok2 by (simp_all add: s3_def adaptive_ok_def gain_ok_def window_ok_def)
    obtain s' where s': "adaptive_end_of_block E s3 = Some s'" "same_setup s3 s'" "sdr_ok (ad_sdr s')"
      "gain_ok s3 \<Longrightarrow> gain_ok s' \<and> current_gain s3 - 1 \<le> current_gain s' \<and> current_gain s' \<le> current_gain s3 + 1"
      using end_of_block_total [of s3 E] ok3(1) unfolding adaptive_ok_def by metis
    have run: "end_subblock E s = Some s'"
      using True s'(1) unfolding end_subblock_def Let_def s1_def [symmetric] s2_def [symmetric] s3_def [symmetric] by simp
    show ?thesis
      by (rule that [OF run]) (use s'(2-4) ok3 f in \<open>auto simp: adaptive_ok_def same_setup_def window_ok_def s3_def\<close>)
  qed
qed

lemma end_subblock_remaining: "end_subblock E (s\<lparr>subblock_samples_remaining := n\<rparr>) = end_subblock E s"
  by (simp add: end_subblock_def)

lemma update_subblock_remaining:
  "adaptive_update_subblock buf decoded (s\<lparr>subblock_samples_remaining := n\<rparr>)
     = (adaptive_update_subblock buf decoded s)\<lparr>subblock_samples_remaining := n\<rparr>"
proof -
  have e: "adaptive_burst_end_of_window c (t\<lparr>subblock_samples_remaining := n\<rparr>) = (adaptive_burst_end_of_window c t)\<lparr>subblock_samples_remaining := n\<rparr>" for c t
    by (simp add: adaptive_burst_end_of_window_def)
  have q: "end_quiet_windows k (t\<lparr>subblock_samples_remaining := n\<rparr>) = (end_quiet_windows k t)\<lparr>subblock_samples_remaining := n\<rparr>" for k t
    by (induction k arbitrary: t) (simp_all add: e)
  have w: "adaptive_burst_scan_windows b k (t\<lparr>subblock_samples_remaining := n\<rparr>) = (adaptive_burst_scan_windows b k t)\<lparr>subblock_samples_remaining := n\<rparr>" for b k t
    by (induction k arbitrary: b t) (simp_all add: e)
  have skip: "adaptive_burst_skip k (t\<lparr>subblock_samples_remaining := n\<rparr>) = (adaptive_burst_skip k t)\<lparr>subblock_samples_remaining := n\<rparr>" for k t
    by (simp add: adaptive_burst_skip_def Let_def e q)
  have "adaptive_burst_update b (t\<lparr>subblock_samples_remaining := n\<rparr>) = (adaptive_burst_update b t)\<lparr>subblock_samples_remaining := n\<rparr>" for b t
    by (simp add: adaptive_burst_update_def Let_def e w)
  moreover have "adaptive_range_update b (t\<lparr>subblock_samples_remaining := n\<rparr>) = (adaptive_range_update b t)\<lparr>subblock_samples_remaining := n\<rparr>" for b t
    by (simp add: adaptive_range_update_def)
  moreover have "adaptive_burst_skip k ((t\<lparr>subblock_samples_remaining := n\<rparr>)\<lparr>block_loud_decoded := j\<rparr>)
      = (adaptive_burst_skip k (t\<lparr>block_loud_decoded := j\<rparr>))\<lparr>subblock_samples_remaining := n\<rparr>" for k t j
  proof -
    have "(t\<lparr>subblock_samples_remaining := n\<rparr>)\<lparr>block_loud_decoded := j\<rparr> = (t\<lparr>block_loud_decoded := j\<rparr>)\<lparr>subblock_samples_remaining := n\<rparr>" by simp
    then show ?thesis by (simp only: skip)
  qed
  ultimately show ?thesis by (simp add: adaptive_update_subblock_def skip split: option.split)
qed

text \<open>The part of a buffer in the current subblock.\<close>

definition measure_samples :: "u16 list \<Rightarrow> rat option \<Rightarrow> adaptive \<Rightarrow> adaptive" where
  "measure_samples buf decoded s = (if subblock_active s then adaptive_update_subblock buf decoded s else s)"

lemma measure_ok: "adaptive_ok s \<Longrightarrow> adaptive_ok (measure_samples buf decoded s)"
  by (simp add: measure_samples_def update_subblock_adaptive_ok)

lemma measure_gain: "adaptive_ok s \<Longrightarrow> same_gain s (measure_samples buf decoded s)"
  by (simp add: measure_samples_def update_subblock_gain adaptive_ok_def)

lemma measure_append:
  "adaptive_ok s \<Longrightarrow> measure_samples (xs @ ys) None s = measure_samples ys None (measure_samples xs None s)"
  using update_subblock_gain [of s xs None]
  by (simp add: measure_samples_def subblock_append adaptive_ok_def same_gain_def)

lemma measure_remaining:
  "measure_samples buf decoded (s\<lparr>subblock_samples_remaining := n\<rparr>) = (measure_samples buf decoded s)\<lparr>subblock_samples_remaining := n\<rparr>"
  by (simp add: measure_samples_def update_subblock_remaining)

text \<open>The loop ends: every round takes samples off the buffer.\<close>

lemma subblock_loop_unfold:
  "subblock_loop E decoded buf s =
     (if length buf \<ge> subblock_samples_remaining s
      then end_subblock E (measure_samples (take (subblock_samples_remaining s) buf) decoded s)
        \<bind> subblock_loop E decoded (drop (subblock_samples_remaining s) buf)
      else Some (buf, s))"
  by (subst subblock_loop.simps) (simp add: measure_samples_def)

lemma subblock_loop_total:
  "adaptive_ok s \<Longrightarrow> \<exists>rest s'. subblock_loop E decoded buf s = Some (rest, s') \<and> adaptive_ok s' \<and> length rest < subblock_samples_remaining s'
     \<and> (gain_ok s \<longrightarrow> gain_ok s') \<and> burst_control s' = burst_control s \<and> range_control s' = range_control s"
proof (induction buf arbitrary: s rule: length_induct)
  case (1 buf)
  show ?case
  proof (cases "length buf \<ge> subblock_samples_remaining s")
    case False
    then show ?thesis using "1.prems" by (simp add: subblock_loop_unfold)
  next
    case True
    let ?s = "measure_samples (take (subblock_samples_remaining s) buf) decoded s"
    have m: "adaptive_ok ?s" "gain_ok ?s = gain_ok s" "burst_control ?s = burst_control s" "range_control ?s = range_control s"
      using measure_ok [OF "1.prems"] same_gain_ok [OF measure_gain [OF "1.prems"]] measure_gain [OF "1.prems"]
      by (auto simp: same_gain_def)
    obtain s1 where s1: "end_subblock E ?s = Some s1" "adaptive_ok s1" "gain_ok s \<Longrightarrow> gain_ok s1"
      "burst_control s1 = burst_control s" "range_control s1 = range_control s"
      using end_subblock_total [OF m(1)] m(2-4) by metis
    have "length (drop (subblock_samples_remaining s) buf) < length buf"
      using "1.prems" True by (auto simp: adaptive_ok_def)
    with "1.IH" s1(2) obtain rest s' where "subblock_loop E decoded (drop (subblock_samples_remaining s) buf) s1 = Some (rest, s')"
      "adaptive_ok s'" "length rest < subblock_samples_remaining s'" "gain_ok s1 \<longrightarrow> gain_ok s'"
      "burst_control s' = burst_control s1" "range_control s' = range_control s1" by blast
    then show ?thesis using True s1 by (subst subblock_loop_unfold) auto
  qed
qed

text \<open>A buffer in two parts.\<close>

lemma subblock_loop_append:
  "adaptive_ok s \<Longrightarrow> subblock_loop E None (xs @ ys) s = subblock_loop E None xs s \<bind> (\<lambda>(rest, s). subblock_loop E None (rest @ ys) s)"
proof (induction xs arbitrary: s rule: length_induct)
  case (1 xs)
  show ?case
  proof (cases "length xs \<ge> subblock_samples_remaining s")
    case False
    then show ?thesis by (simp add: subblock_loop_unfold [of E None xs])
  next
    case True
    let ?n = "subblock_samples_remaining s"
    let ?s = "measure_samples (take ?n xs) None s"
    obtain s1 where s1: "end_subblock E ?s = Some s1" "adaptive_ok s1"
      using end_subblock_total [OF measure_ok [OF "1.prems"]] by metis
    have len: "length (drop ?n xs) < length xs" using "1.prems" True by (auto simp: adaptive_ok_def)
    have "subblock_loop E None (xs @ ys) s = subblock_loop E None (drop ?n xs @ ys) s1"
      using True s1(1) by (subst subblock_loop_unfold) simp
    also have "\<dots> = subblock_loop E None (drop ?n xs) s1 \<bind> (\<lambda>(rest, s). subblock_loop E None (rest @ ys) s)"
      using "1.IH" len s1(2) by blast
    also have "subblock_loop E None (drop ?n xs) s1 = subblock_loop E None xs s"
      using True s1(1) by (subst (2) subblock_loop_unfold) simp
    finally show ?thesis .
  qed
qed

text \<open>What is left of a buffer, without a whole subblock.\<close>

definition finish_buffer :: "u16 list \<Rightarrow> rat option \<Rightarrow> adaptive \<Rightarrow> adaptive" where
  "finish_buffer buf decoded s =
     (if buf = [] then s
      else (measure_samples buf decoded s)\<lparr>subblock_samples_remaining := subblock_samples_remaining s - length buf\<rparr>)"

lemma adaptive_update_run:
  assumes "adaptive_ok s" "burst_control s \<or> range_control s"
  shows "adaptive_update E buf decoded s = subblock_loop E decoded buf s \<bind> (\<lambda>(rest, s). Some (finish_buffer rest decoded s))"
proof -
  have f: "(let t = (if subblock_active s then adaptive_update_subblock b decoded s else s)
      in t\<lparr>subblock_samples_remaining := subblock_samples_remaining t - length b\<rparr>) = finish_buffer b decoded s"
    if "adaptive_ok s" "b \<noteq> []" for b s
    using that measure_gain [of s b decoded] by (simp add: finish_buffer_def measure_samples_def same_gain_def Let_def)
  obtain rest s' where "subblock_loop E decoded buf s = Some (rest, s')" "adaptive_ok s'"
    using subblock_loop_total [OF assms(1)] by metis
  moreover have off: "(\<not> burst_control s \<and> \<not> range_control s) = False" using assms(2) by blast
  ultimately show ?thesis using f [of s' rest] unfolding adaptive_update_def off by (simp add: finish_buffer_def Let_def)
qed

lemma finish_ok:
  assumes "adaptive_ok s" "length rest < subblock_samples_remaining s"
  shows "adaptive_ok (finish_buffer rest decoded s)" "gain_ok (finish_buffer rest decoded s) = gain_ok s"
    "burst_control (finish_buffer rest decoded s) = burst_control s" "range_control (finish_buffer rest decoded s) = range_control s"
proof -
  have m: "adaptive_ok (measure_samples rest decoded s)" "same_gain s (measure_samples rest decoded s)"
    using assms by (simp_all add: measure_ok measure_gain)
  have w: "window_ok (t\<lparr>subblock_samples_remaining := n\<rparr>) = window_ok t" for t n by (simp add: window_ok_def)
  show "adaptive_ok (finish_buffer rest decoded s)" using m assms by (auto simp: finish_buffer_def adaptive_ok_def same_gain_def w)
  show "gain_ok (finish_buffer rest decoded s) = gain_ok s" using m(2) by (simp add: finish_buffer_def gain_ok_def same_gain_def)
  show "burst_control (finish_buffer rest decoded s) = burst_control s" "range_control (finish_buffer rest decoded s) = range_control s"
    using m(2) by (simp_all add: finish_buffer_def same_gain_def)
qed

lemma adaptive_update_total:
  assumes "adaptive_ok s"
  obtains s' where "adaptive_update E buf decoded s = Some s'" "adaptive_ok s'" "gain_ok s \<Longrightarrow> gain_ok s'"
    "burst_control s' = burst_control s" "range_control s' = range_control s"
proof (cases "burst_control s \<or> range_control s")
  case False
  then show ?thesis using that [of s] assms by (simp add: adaptive_update_def)
next
  case True
  obtain rest s1 where 1: "subblock_loop E decoded buf s = Some (rest, s1)" "adaptive_ok s1" "length rest < subblock_samples_remaining s1"
    "gain_ok s \<longrightarrow> gain_ok s1" "burst_control s1 = burst_control s" "range_control s1 = range_control s"
    using subblock_loop_total [OF assms] by metis
  show ?thesis
    by (rule that [of "finish_buffer rest decoded s1"]) (use adaptive_update_run [OF assms True] finish_ok [OF 1(2,3)] 1 in simp_all)
qed

text \<open>A buffer behind the rest of another one is a buffer behind the state after that rest.\<close>

lemma rest_then_buffer:
  assumes ok: "adaptive_ok s" and len: "length rest < subblock_samples_remaining s"
  shows "subblock_loop E None (rest @ ys) s \<bind> (\<lambda>(r, s). Some (finish_buffer r None s))
       = subblock_loop E None ys (finish_buffer rest None s) \<bind> (\<lambda>(r, s). Some (finish_buffer r None s))"
proof (cases "rest = []")
  case True
  then show ?thesis by (simp add: finish_buffer_def)
next
  case False
  define n where "n = subblock_samples_remaining s"
  define m where "m = n - length rest"
  define s1 where "s1 = measure_samples rest None s"
  have s1: "adaptive_ok s1" "same_gain s s1" using ok by (simp_all add: s1_def measure_ok measure_gain)
  have f: "finish_buffer rest None s = s1\<lparr>subblock_samples_remaining := m\<rparr>"
    using False by (simp add: finish_buffer_def s1_def m_def n_def)
  have part: "measure_samples (rest @ b) None s = measure_samples b None s1" for b
    unfolding s1_def by (rule measure_append [OF ok])
  show ?thesis
  proof (cases "m \<le> length ys")
    case True
    have t: "take n (rest @ ys) = rest @ take m ys" "drop n (rest @ ys) = drop m ys" using len by (simp_all add: m_def n_def)
    have a: "subblock_loop E None (rest @ ys) s = end_subblock E (measure_samples (take m ys) None s1) \<bind> subblock_loop E None (drop m ys)"
    proof -
      have "n \<le> length (rest @ ys)" using True len by (simp add: m_def n_def)
      then show ?thesis by (subst subblock_loop_unfold) (simp only: n_def [symmetric] t part if_True)
    qed
    have b: "subblock_loop E None ys (s1\<lparr>subblock_samples_remaining := m\<rparr>)
        = end_subblock E (measure_samples (take m ys) None s1) \<bind> subblock_loop E None (drop m ys)"
      using True by (subst subblock_loop_unfold) (simp add: measure_remaining end_subblock_remaining)
    show ?thesis unfolding f a b ..
  next
    case short: False
    have a: "subblock_loop E None (rest @ ys) s = Some (rest @ ys, s)"
    proof -
      have "\<not> n \<le> length (rest @ ys)" using short len by (simp add: m_def n_def)
      then show ?thesis by (subst subblock_loop_unfold) (simp only: n_def [symmetric] if_False)
    qed
    have b: "subblock_loop E None ys (s1\<lparr>subblock_samples_remaining := m\<rparr>) = Some (ys, s1\<lparr>subblock_samples_remaining := m\<rparr>)"
      using short by (subst subblock_loop_unfold) simp
    have "finish_buffer (rest @ ys) None s = (measure_samples ys None s1)\<lparr>subblock_samples_remaining := m - length ys\<rparr>"
      using False by (simp add: finish_buffer_def part m_def n_def)
    also have "\<dots> = finish_buffer ys None (s1\<lparr>subblock_samples_remaining := m\<rparr>)"
    proof (cases "ys = []")
      case True
      have "measure_samples [] None s1 = s1" using s1(1) by (simp add: measure_samples_def adaptive_ok_def)
      then show ?thesis using True by (simp add: finish_buffer_def)
    qed (simp add: finish_buffer_def measure_remaining)
    finally show ?thesis unfolding f a b by simp
  qed
qed

lemma adaptive_update_append:
  assumes "adaptive_ok s"
  shows "adaptive_update E (xs @ ys) None s = adaptive_update E xs None s \<bind> adaptive_update E ys None"
proof (cases "burst_control s \<or> range_control s")
  case False
  then show ?thesis by (simp add: adaptive_update_def)
next
  case True
  obtain rest s1 where 1: "subblock_loop E None xs s = Some (rest, s1)" "adaptive_ok s1" "length rest < subblock_samples_remaining s1"
    "burst_control s1 = burst_control s" "range_control s1 = range_control s"
    using subblock_loop_total [OF assms] by metis
  note fin = finish_ok [OF 1(2,3), of None]
  have "adaptive_update E (xs @ ys) None s = subblock_loop E None (rest @ ys) s1 \<bind> (\<lambda>(r, s). Some (finish_buffer r None s))"
    using 1(1) by (simp add: adaptive_update_run [OF assms True] subblock_loop_append [OF assms])
  also have "\<dots> = adaptive_update E ys None (finish_buffer rest None s1)"
    using adaptive_update_run [OF fin(1)] fin(3,4) 1(4,5) True rest_then_buffer [OF 1(2,3)] by simp
  also have "\<dots> = adaptive_update E xs None s \<bind> adaptive_update E ys None"
    using 1(1) by (simp add: adaptive_update_run [OF assms True])
  finally show ?thesis .
qed

end
