(* ===== verification/AdaptiveGain.thy ===== *)
theory AdaptiveGain
  imports AdaptiveCorrect
begin

text \<open>
  Adaptive gain control from its initialisation on: the duty cycle, the noise percentile, and the properties.
\<close>

subsection \<open>The duty cycle\<close>

text \<open>The active ones among the next \<open>k\<close> subblocks.\<close>

fun active_subblocks :: "nat \<Rightarrow> adaptive \<Rightarrow> nat" where
  "active_subblocks 0 s = 0"
| "active_subblocks (Suc k) s = of_bool (subblock_active (next_subblock s)) + active_subblocks k (next_subblock s)"

fun later_subblock :: "nat \<Rightarrow> adaptive \<Rightarrow> adaptive" where
  "later_subblock 0 s = s"
| "later_subblock (Suc k) s = later_subblock k (next_subblock s)"

lemma next_subblock_counter:
  assumes "dutycycle_counter s < 20" "dutycycle_N s \<le> 20"
  shows "dutycycle_counter (next_subblock s) < 20" "dutycycle_N (next_subblock s) = dutycycle_N s"
    "dutycycle_counter (next_subblock s) + 20 * of_bool (subblock_active (next_subblock s)) = dutycycle_counter s + dutycycle_N s"
  using assms
  by (auto simp: next_subblock_def Let_def dutycycle_D_def subblocks_per_block_def adaptive_burst_end_of_window_def)

lemma active_count:
  "dutycycle_counter s < 20 \<Longrightarrow> dutycycle_N s \<le> 20 \<Longrightarrow>
   dutycycle_counter (later_subblock k s) < 20 \<and>
   dutycycle_counter (later_subblock k s) + 20 * active_subblocks k s = dutycycle_counter s + k * dutycycle_N s"
proof (induction k arbitrary: s)
  case (Suc k)
  note n = next_subblock_counter [OF Suc.prems]
  show ?case using Suc.IH [of "next_subblock s"] n Suc.prems(2) by (simp add: algebra_simps)
qed simp

lemma duty_cycle:
  assumes "dutycycle_counter s < 20" "dutycycle_N s \<le> 20"
  shows "active_subblocks 20 s = dutycycle_N s" "dutycycle_counter (later_subblock 20 s) = dutycycle_counter s"
proof -
  have "dutycycle_counter (later_subblock 20 s) < 20"
    "dutycycle_counter (later_subblock 20 s) + 20 * active_subblocks 20 s = dutycycle_counter s + 20 * dutycycle_N s"
    using active_count [OF assms, of 20] by (simp_all only: simp_thms)
  moreover have "a = n \<and> c = c0" if "c < 20" "c + 20 * a = c0 + 20 * n" "c0 < 20" for a n c c0 :: nat
  proof -
    have "c mod 20 = c0 mod 20" using arg_cong [OF that(2), of "\<lambda>x. x mod 20"] by simp
    then have "c = c0" using that(1,3) by simp
    then show ?thesis using that(2) by simp
  qed
  ultimately show "active_subblocks 20 s = dutycycle_N s" "dutycycle_counter (later_subblock 20 s) = dutycycle_counter s"
    using assms(1) by blast+
qed

subsection \<open>The percentile\<close>

text \<open>The samples below a value.\<close>

definition below_count :: "u16 list \<Rightarrow> nat \<Rightarrow> nat" where
  "below_count xs i = length (filter (\<lambda>x. unat x < i) xs)"

lemma below_count_0 [simp]: "below_count xs 0 = 0"
  by (simp add: below_count_def)

lemma below_count_le: "below_count xs i \<le> length xs"
  by (simp add: below_count_def)

lemma below_count_all: "below_count xs 65536 = length xs"
proof -
  have "unat x < 65536" for x :: u16 using unsigned_less [of x, where ?'a = nat] by simp
  then show ?thesis by (simp add: below_count_def)
qed

lemma fold_radix: "fold radix_add xs r v = r v + of_nat (count_list xs v)"
  by (induction xs arbitrary: r) (auto simp: radix_add_def)

lemma below_count_Suc: "i < 65536 \<Longrightarrow> below_count xs (Suc i) = below_count xs i + count_list xs (of_nat i)"
proof (induction xs)
  case (Cons x xs)
  have e: "(x = of_nat i) = (unat x = i)" using Cons.prems by (auto simp: unat_of_nat)
  show ?case using Cons by (auto simp: below_count_def e less_Suc_eq)
qed (simp add: below_count_def)

lemma percentile_loop_spec:
  assumes xs: "length xs < 2 ^ 32" "c < length xs"
  shows "i \<le> 65536 \<Longrightarrow> (0 < i \<longrightarrow> below_count xs (i - 1) \<le> c) \<Longrightarrow>
    let j = percentile_loop (fold radix_add xs (\<lambda>_. 0)) (of_nat c) (of_nat (below_count xs i)) i
    in j \<le> 65536 \<and> c < below_count xs j \<and> (0 < j \<longrightarrow> below_count xs (j - 1) \<le> c)"
proof (induction "65536 - i" arbitrary: i)
  case 0
  then have "i = 65536" by simp
  then show ?case using 0 xs by (simp add: percentile_loop.simps below_count_all)
next
  case (Suc k)
  have b: "below_count xs i < 2 ^ 32" "c < 2 ^ 32" using below_count_le [of xs i] xs by auto
  then have le: "((of_nat (below_count xs i) :: u32) \<le> of_nat c) = (below_count xs i \<le> c)"
    by (simp add: word_le_nat_alt unat_of_nat)
  have i: "i < 65536" using Suc.hyps(2) by simp
  show ?case
  proof (cases "below_count xs i \<le> c")
    case False
    then show ?thesis using Suc.prems le by (simp add: percentile_loop.simps)
  next
    case True
    have "percentile_loop (fold radix_add xs (\<lambda>_. 0)) (of_nat c) (of_nat (below_count xs i)) i
        = percentile_loop (fold radix_add xs (\<lambda>_. 0)) (of_nat c) (of_nat (below_count xs (Suc i))) (Suc i)"
      using i True le by (subst percentile_loop.simps) (simp add: fold_radix below_count_Suc)
    moreover have "k = 65536 - Suc i" using Suc.hyps(2) by simp
    ultimately show ?thesis using Suc.hyps(1) [of "Suc i"] i True by simp
  qed
qed

text \<open>The element of a sorted list at an index, by counting.\<close>

lemma sorted_nth_by_count:
  fixes v :: "'a :: linorder"
  assumes "sorted ys" "c < length ys" "length (filter (\<lambda>y. y < v) ys) \<le> c" "c < length (filter (\<lambda>y. y \<le> v) ys)"
  shows "ys ! c = v"
proof (rule linorder_cases [of "ys ! c" v])
  assume a: "ys ! c < v"
  have "{..c} \<subseteq> {i. i < length ys \<and> ys ! i < v}"
    using a assms(1,2) by (auto simp: sorted_iff_nth_mono intro: le_less_trans)
  then have "card {..c} \<le> card {i. i < length ys \<and> ys ! i < v}" by (rule card_mono [rotated]) simp
  then show ?thesis using assms(3) by (simp add: length_filter_conv_card)
next
  assume a: "v < ys ! c"
  have "{i. i < length ys \<and> ys ! i \<le> v} \<subseteq> {..<c}"
  proof
    fix i assume "i \<in> {i. i < length ys \<and> ys ! i \<le> v}"
    then have i: "i < length ys" "ys ! i \<le> v" by simp_all
    have "\<not> c \<le> i" using sorted_nth_mono [OF assms(1), of c i] i a by auto
    then show "i \<in> {..<c}" by simp
  qed
  then have "card {i. i < length ys \<and> ys ! i \<le> v} \<le> card {..<c}" by (rule card_mono [rotated]) simp
  then show ?thesis using assms(4) by (simp add: length_filter_conv_card)
qed simp

lemma length_filter_sort: "length (filter P (sort xs)) = length (filter P xs)"
proof -
  have "mset (filter P (sort xs)) = mset (filter P xs)" by simp
  then show ?thesis by (metis size_mset)
qed

lemma percentile_is_sorted_nth:
  assumes "length xs < 2 ^ 32" "c < length xs"
  shows "(of_nat (percentile_loop (fold radix_add xs (\<lambda>_. 0)) (of_nat c) 0 0 - 1) :: u16) = sort xs ! c"
proof -
  define j where "j = percentile_loop (fold radix_add xs (\<lambda>_. 0)) (of_nat c) 0 0"
  have j: "j \<le> 65536" "c < below_count xs j" "0 < j \<longrightarrow> below_count xs (j - 1) \<le> c"
    using percentile_loop_spec [OF assms, of 0] by (simp_all add: j_def Let_def)
  then have "0 < j" by (cases j) auto
  define v where "v = (of_nat (j - 1) :: u16)"
  have "unat (of_nat k :: u16) = k" if "k < 65536" for k using that by (simp add: unat_of_nat)
  moreover have "j - 1 < 65536" using j(1) \<open>0 < j\<close> by simp
  ultimately have v: "unat v = j - 1" unfolding v_def by blast
  have "sort xs ! c = v"
  proof (rule sorted_nth_by_count)
    have "(y < v) = (unat y < j - 1)" for y by (simp add: word_less_nat_alt v)
    then show "length (filter (\<lambda>y. y < v) (sort xs)) \<le> c"
      using j(3) \<open>0 < j\<close> by (simp add: length_filter_sort below_count_def)
    have "(y \<le> v) = (unat y < j)" for y using \<open>0 < j\<close> by (auto simp: word_le_nat_alt v)
    then show "c < length (filter (\<lambda>y. y \<le> v) (sort xs))"
      using j(2) by (simp add: length_filter_sort below_count_def)
  qed (use assms in simp_all)
  then show ?thesis by (simp add: v_def j_def)
qed

text \<open>Without samples the loop runs to the end of the array.\<close>

lemma percentile_of_nothing: "percentile_loop (\<lambda>_. 0) 0 0 0 = 65536"
proof -
  have "i \<le> 65536 \<Longrightarrow> percentile_loop (\<lambda>_. 0) 0 0 i = 65536" for i
  proof (induction "65536 - i" arbitrary: i)
    case 0
    then show ?case by (subst percentile_loop.simps) simp
  next
    case (Suc k)
    then have "percentile_loop (\<lambda>_. 0) 0 0 (Suc i) = 65536" by (intro Suc.hyps(1)) simp_all
    moreover have "i < 65536" using Suc.hyps(2) by simp
    ultimately show ?case by (subst percentile_loop.simps) simp
  qed
  then show ?thesis by simp
qed

subsection \<open>Initialisation\<close>

lemma lower_limit_total:
  "sdr_ok d \<Longrightarrow> g \<le> maxgain \<Longrightarrow> \<exists>r. lower_limit E d maxgain g = Some r \<and> g \<le> r \<and> r \<le> maxgain"
proof (induction E d maxgain g rule: lower_limit.induct)
  case (1 E d maxgain g)
  obtain db where db: "sdrGetGainDb d g = Some db" using sdrGetGainDb_total [OF "1.prems"(1)] by blast
  show ?case
  proof (cases "g < maxgain \<and> \<not> db \<ge> a_min_gain_db E")
    case True
    then obtain r where "lower_limit E d maxgain (g + 1) = Some r" "g + 1 \<le> r" "r \<le> maxgain"
      using "1.IH" [OF _ db] "1.prems" by auto
    then show ?thesis using True db by (subst lower_limit.simps) auto
  next
    case False
    then show ?thesis using db "1.prems" by (subst lower_limit.simps) auto
  qed
qed

lemma upper_limit_total:
  "sdr_ok d \<Longrightarrow> mingain \<le> g \<Longrightarrow> \<exists>r. upper_limit E d mingain g = Some r \<and> mingain \<le> r \<and> r \<le> g"
proof (induction E d mingain g rule: upper_limit.induct)
  case (1 E d mingain g)
  obtain db where db: "sdrGetGainDb d g = Some db" using sdrGetGainDb_total [OF "1.prems"(1)] by blast
  show ?case
  proof (cases "g > mingain \<and> \<not> db \<le> a_max_gain_db E")
    case True
    then obtain r where "upper_limit E d mingain (g - 1) = Some r" "mingain \<le> r" "r \<le> g - 1"
      using "1.IH" [OF _ db] "1.prems" by auto
    then show ?thesis using True db by (subst upper_limit.simps) auto
  next
    case False
    then show ?thesis using db "1.prems" by (subst upper_limit.simps) auto
  qed
qed

lemma duty_N_range: "1 \<le> duty_N E \<and> duty_N E \<le> 20"
  by (auto simp: duty_N_def Let_def dutycycle_D_def subblocks_per_block_def nat_le_iff Suc_le_eq)

text \<open>The receiver has a table of gains, and the next two calls of its library succeed.\<close>

definition tunable :: "sdr \<Rightarrow> bool" where
  "tunable d \<longleftrightarrow> sdr_ok d \<and> sdr_type d = SDR_RTLSDR \<and> rtl_gains d \<noteq> None \<and> list_all (\<lambda>r. 0 \<le> r) (take 2 (rtl_results d))"

lemma tunable_set:
  assumes "tunable d" "0 \<le> step" "step < rtl_gain_steps d"
  obtains d' where "sdrSetGain step d = Some (step, d')" "sdr_ok d'" "sdrGetGain d' = step" "rtl_gain_steps d' = rtl_gain_steps d"
proof -
  obtain gains where g: "rtl_gains d = Some gains" "sdr_ok d" "sdr_type d = SDR_RTLSDR" using assms(1) by (auto simp: tunable_def)
  obtain mode d1 where 1: "rtlsdr_call d = (mode, d1)" by force
  obtain gain d2 where 2: "rtlsdr_call d1 = (gain, d2)" by force
  note f = rtlsdr_call_fields [OF 1] rtlsdr_call_fields [OF 2]
  have ok: "0 \<le> mode" "0 \<le> gain"
    using assms(1) 1 2 by (auto simp: tunable_def rtlsdr_call_def numeral_2_eq_2 split: list.splits)
  have c: "clamp_step d step = step" "nat step < length gains" using assms(2,3) g by (auto simp: clamp_step_def sdr_ok_def)
  show ?thesis
    by (rule that [of "(if step = rtl_gain_steps d - 1 then d1 else d2)\<lparr>rtl_current_gain := step\<rparr>"])
      (use g 1 2 f ok c assms(2) in \<open>auto simp: sdrSetGain_def rtlsdrSetGain_def c_simps Let_def sdr_ok_def sdrGetGain_def\<close>)
qed

text \<open>The receiver and the configuration that gain control can be set up for.\<close>

definition init_ok :: "adaptive_env \<Rightarrow> adaptive \<Rightarrow> bool" where
  "init_ok E s \<longleftrightarrow> tunable (ad_sdr s) \<and> (burst_control s \<or> range_control s) \<and> length (as_gain_seconds (ad_stats s)) = 64
     \<and> 0 < window_size E \<and> window_size E * 1250 < 2 ^ 32"

lemma adaptive_init_total:
  assumes "init_ok E s"
  obtains s' where "adaptive_init E s = Some s'" "adaptive_ok s'" "gain_ok s'" "burst_control s' = burst_control s"
    "range_control s' = range_control s"
proof -
  define w where "w = window_size E"
  have t: "tunable (ad_sdr s)" "sdr_ok (ad_sdr s)" "0 < w" "w * 1250 < 2 ^ 32" "burst_control s \<or> range_control s"
    using assms by (auto simp: init_ok_def tunable_def w_def)
  define maxgain where "maxgain = sdrGetMaxGain (ad_sdr s)"
  have maxgain: "0 \<le> maxgain" "maxgain < rtl_gain_steps (ad_sdr s)"
    using t(1) by (auto simp: maxgain_def sdrGetMaxGain_def tunable_def sdr_ok_def Suc_le_eq)
  obtain lo where lo: "lower_limit E (ad_sdr s) maxgain 0 = Some lo" "0 \<le> lo" "lo \<le> maxgain"
    using lower_limit_total [OF t(2) maxgain(1)] by blast
  obtain hi where hi: "upper_limit E (ad_sdr s) lo maxgain = Some hi" "lo \<le> hi" "hi \<le> maxgain"
    using upper_limit_total [OF t(2) lo(3)] by blast
  define s1 where "s1 = s\<lparr>samples_per_window := w, samples_per_subblock := w * 1250, subblocks_remaining := of_nat subblocks_per_block,
      subblock_samples_remaining := w * 1250, subblock_active := False, dutycycle_N := duty_N E,
      burst_window_remaining := w, burst_window_counter := 0, range_radix := (\<lambda>_. 0),
      range_state := RANGE_SCAN_UP, gain_min := lo, gain_max := hi\<rparr>"
  have "unat (of_nat k :: u32) = k" if "k < 2 ^ 32" for k using that by (simp add: unat_of_nat)
  then have n: "unat (of_nat (w * 1250) :: u32) = w * 1250" using t(4) by blast
  have ok1: "sdr_ok (ad_sdr s1)" using t(2) by (simp add: s1_def)
  obtain b s2 where s2: "adaptive_set_gain (current_gain s1) s1 = Some (b, s2)" "same_setup s1 s2" "sdr_ok (ad_sdr s2)" "gain_ok s2"
  proof -
    define st where "st = limited s1 (current_gain s1)"
    have st: "lo \<le> st" "st \<le> hi" using hi(2) by (auto simp: st_def limited_def s1_def)
    have l: "(let step = (if current_gain s1 < gain_min s1 then gain_min s1 else current_gain s1) in if step > gain_max s1 then gain_max s1 else step) = st"
      by (simp add: st_def limited_def Let_def min_def max_def)
    obtain d where d: "sdrSetGain st (ad_sdr s1) = Some (st, d)" "sdr_ok d" "sdrGetGain d = st" "rtl_gain_steps d = rtl_gain_steps (ad_sdr s)"
      using tunable_set [OF t(1), of st] st lo hi maxgain by (auto simp: s1_def)
    obtain b s2 where s2: "adaptive_set_gain (current_gain s1) s1 = Some (b, s2)" "same_setup s1 s2" "sdr_ok (ad_sdr s2)"
      by (rule set_gain_total [OF ok1])
    obtain x y where db: "sdrGetGainDb (ad_sdr s1) (current_gain s1) = Some x" "sdrGetGainDb (ad_sdr s1) st = Some y"
      using sdrGetGainDb_total [OF ok1] by metis
    have "adaptive_set_gain (current_gain s1) s1 = (if current_gain s1 = st then Some (False, s1)
        else Some (True, on_ad_stats (\<lambda>t. t\<lparr>as_gain_changes := as_gain_changes t + 1\<rparr>) (s1\<lparr>ad_sdr := d\<rparr>)))"
      using d(1) db unfolding adaptive_set_gain_def l [symmetric] Let_def by simp
    then have "current_gain s2 = st" using s2(1) d(3) by (auto simp: on_ad_stats_def split: if_splits)
    then have "gain_ok s2" using st lo hi maxgain s2(2) by (auto simp: gain_ok_def same_setup_def s1_def)
    then show ?thesis using that s2 by blast
  qed
  obtain s3 where s3: "adaptive_gain_changed E s2 = Some s3" "same_setup s2 s3" "ad_sdr s3 = ad_sdr s2"
    by (rule gain_changed_total [OF s2(3)])
  have run: "adaptive_init E s = Some (s3\<lparr>range_gain_limit := current_gain s3\<rparr>)"
  proof -
    have c: "(\<not> burst_control s \<and> \<not> range_control s) = False" "(maxgain < 0) = False" using t(5) maxgain(1) by auto
    show ?thesis
      unfolding adaptive_init_def Let_def maxgain_def [symmetric] w_def [symmetric] c if_False n
      using lo(1) hi(1) s2(1) s3(1) unfolding s1_def by simp
  qed
  show ?thesis
    by (rule that [OF run])
      (use s2 s3 t gain_ok_setup [OF s3(2,3)] assms in \<open>auto simp: adaptive_ok_def window_ok_def same_setup_def s1_def init_ok_def gain_ok_def\<close>)
qed


subsection \<open>Properties\<close>

text \<open>Buffers of samples, some of them parts of a message.\<close>

fun adaptive_run :: "adaptive_env \<Rightarrow> (u16 list \<times> rat option) list \<Rightarrow> adaptive \<Rightarrow> adaptive option" where
  "adaptive_run E [] s = Some s"
| "adaptive_run E ((buf, decoded) # bufs) s = adaptive_update E buf decoded s \<bind> adaptive_run E bufs"

lemma adaptive_run_total:
  "adaptive_ok s \<Longrightarrow> gain_ok s \<Longrightarrow> \<exists>s'. adaptive_run E bufs s = Some s' \<and> adaptive_ok s' \<and> gain_ok s'"
proof (induction E bufs s rule: adaptive_run.induct)
  case (2 E buf decoded bufs s)
  obtain s1 where "adaptive_update E buf decoded s = Some s1" "adaptive_ok s1" "gain_ok s1"
    using adaptive_update_total [OF "2.prems"(1)] "2.prems"(2) by metis
  with "2.IH" show ?case by simp
qed simp

text \<open>
  The gain stays within its limits. Gain control can be set up for every receiver with a table of gains
  whose library obeys the first calls, and from then on, whatever samples and messages it is fed and
  whatever the library answers later, every update ends without leaving an array, and the gain is within
  limits that are steps of the table.
\<close>

theorem gain_stays_in_limits:
  assumes "init_ok E s"
  shows "\<exists>s1. adaptive_init E s = Some s1 \<and> (\<forall>bufs. \<exists>s'. adaptive_run E bufs s1 = Some s'
    \<and> 0 \<le> gain_min s' \<and> gain_min s' \<le> sdrGetGain (ad_sdr s') \<and> sdrGetGain (ad_sdr s') \<le> gain_max s'
    \<and> gain_max s' < rtl_gain_steps (ad_sdr s'))"
proof -
  obtain s1 where "adaptive_init E s = Some s1" "adaptive_ok s1" "gain_ok s1" by (rule adaptive_init_total [OF assms])
  then show ?thesis using adaptive_run_total unfolding gain_ok_def by metis
qed

definition example_adaptive_env :: adaptive_env where
  "example_adaptive_env = \<lparr>a_sample_rate = 2400000, a_duty_cycle = 1 / 2, a_min_gain_db = 0, a_max_gain_db = 100,
     a_burst_alpha = 1 / 4, a_burst_change_delay = 5, a_burst_loud_runlength = 10, a_burst_loud_rate = 5,
     a_burst_quiet_runlength = 10, a_burst_quiet_rate = 5, a_range_alpha = 1 / 4, a_range_percentile = 40,
     a_range_change_delay = 10, a_range_rescan_delay = 3600, a_range_target = 30, a_pow10 = id, a_log10 = id\<rparr>"

definition example_adaptive :: adaptive where
  "example_adaptive = \<lparr>burst_control = True, range_control = True, gain_min = 0, gain_max = 2, gain_up_db = 1, gain_down_db = 1,
     subblocks_remaining = 20, dutycycle_N = 10, dutycycle_counter = 0, subblock_active = True, samples_per_subblock = 8,
     subblock_samples_remaining = 8, samples_per_window = 4, burst_window_remaining = 4, burst_window_counter = 0,
     burst_runlength = 0, block_loud_undecoded = 0, block_loud_decoded = 0, loud_undecoded_smoothed = 0, loud_decoded_smoothed = 0,
     burst_change_timer = 0, burst_loud_threshold = 0, burst_loud_blocks = 0, burst_quiet_blocks = 0,
     range_radix = fold radix_add [7, 3, 9] (\<lambda>_. 0), range_radix_counter = 3, range_smoothed = 0, range_state = RANGE_SCAN_UP,
     range_change_timer = 0, range_rescan_timer = 0, range_gain_limit = 2,
     ad_sdr = \<lparr>sdr_type = SDR_RTLSDR, rtl_gains = Some [0, 100, 200], rtl_gain_steps = 3, rtl_current_gain = 1, rtl_results = []\<rparr>,
     ad_stats = \<lparr>as_valid = False, as_gain = 0, as_gain_seconds = replicate 64 0, as_loud_undecoded = 0, as_loud_decoded = 0,
       as_gain_changes = 0, as_noise_dbfs = 0, as_range_gain_limit = 0\<rparr>\<rparr>"

lemma example_window: "window_size example_adaptive_env = 96"
  by code_simp

lemma example_adaptive_init: "init_ok example_adaptive_env example_adaptive"
  unfolding init_ok_def example_window by (simp add: tunable_def sdr_ok_def example_adaptive_def)

lemma example_adaptive_ok: "adaptive_ok example_adaptive"
  by (simp add: adaptive_ok_def window_ok_def sdr_ok_def example_adaptive_def)

theorem gain_stays_in_limits_witness:
  "\<exists>s1. adaptive_init example_adaptive_env example_adaptive = Some s1 \<and>
     (\<exists>s'. adaptive_run example_adaptive_env [([7, 60000, 3], None), ([60000], Some 1)] s1 = Some s'
        \<and> gain_min s' \<le> sdrGetGain (ad_sdr s') \<and> sdrGetGain (ad_sdr s') \<le> gain_max s')"
  using gain_stays_in_limits [OF example_adaptive_init] by blast

text \<open>
  The reference: the same samples, those outside of messages one by one. The samples of a message stay
  in one buffer, since every buffer with samples of a loud message raises the count of such messages.
\<close>

fun single_samples :: "(u16 list \<times> rat option) list \<Rightarrow> (u16 list \<times> rat option) list" where
  "single_samples [] = []"
| "single_samples ((buf, None) # bufs) = map (\<lambda>v. ([v], None)) buf @ single_samples bufs"
| "single_samples ((buf, Some level) # bufs) = (buf, Some level) # single_samples bufs"

lemma burst_skip_loud:
  "block_loud_decoded (adaptive_burst_skip n s) = block_loud_decoded s"
  "burst_loud_threshold (adaptive_burst_skip n s) = burst_loud_threshold s"
proof -
  have w: "block_loud_decoded (adaptive_burst_end_of_window c t) = block_loud_decoded t \<and>
      burst_loud_threshold (adaptive_burst_end_of_window c t) = burst_loud_threshold t" for c t
    by (simp add: adaptive_burst_end_of_window_def)
  have "block_loud_decoded (end_quiet_windows k t) = block_loud_decoded t \<and>
      burst_loud_threshold (end_quiet_windows k t) = burst_loud_threshold t" for k t
    by (induction k arbitrary: t) (simp_all add: w)
  then show "block_loud_decoded (adaptive_burst_skip n s) = block_loud_decoded s"
    "burst_loud_threshold (adaptive_burst_skip n s) = burst_loud_threshold s"
    by (simp_all add: adaptive_burst_skip_def Let_def w)
qed

lemma loud_message_parts:
  assumes "burst_loud_threshold s \<le> level"
  shows "block_loud_decoded (adaptive_update_subblock (xs @ ys) (Some level) s) = block_loud_decoded s + 1"
    "block_loud_decoded (adaptive_update_subblock ys (Some level) (adaptive_update_subblock xs (Some level) s)) = block_loud_decoded s + 2"
  using assms by (simp_all add: adaptive_update_subblock_def burst_skip_loud)

lemma adaptive_run_append: "adaptive_run E (xs @ ys) s = adaptive_run E xs s \<bind> adaptive_run E ys"
proof (induction E xs s rule: adaptive_run.induct)
  case (2 E buf decoded bufs s)
  then show ?case by (cases "adaptive_update E buf decoded s") simp_all
qed simp

lemma undecoded_one_by_one:
  "adaptive_ok s \<Longrightarrow> adaptive_update E buf None s = adaptive_run E (map (\<lambda>v. ([v], None)) buf) s"
proof (induction buf arbitrary: s)
  case Nil
  obtain s' where s': "adaptive_update E [] None s = Some s'" using adaptive_update_total [OF Nil] by metis
  have "adaptive_update E [] None s = Some s"
    using Nil s' subblock_loop_unfold [of E None "[]" s] by (auto simp: adaptive_update_def adaptive_ok_def split: if_splits)
  then show ?case by simp
next
  case (Cons v buf)
  obtain s1 where s1: "adaptive_update E [v] None s = Some s1" "adaptive_ok s1" using adaptive_update_total [OF Cons.prems] by metis
  then show ?case using adaptive_update_append [OF Cons.prems, of E "[v]" buf] Cons.IH by simp
qed

text \<open>
  C11. How the samples between messages are cut into buffers does not matter. Over any sequence of buffers,
  some of them the samples of a message, the updates, with their whole and partial subblocks and
  windows and the control updates at the ends of blocks, have the effect of feeding the samples
  outside of messages one by one, and every message as it is.
\<close>

theorem buffers_do_not_matter:
  assumes "adaptive_ok s"
  shows "adaptive_run E bufs s = adaptive_run E (single_samples bufs) s"
  using assms
proof (induction bufs arbitrary: s rule: single_samples.induct)
  case (2 buf bufs)
  obtain s1 where "adaptive_update E buf None s = Some s1" "adaptive_ok s1" using adaptive_update_total [OF "2.prems"] by metis
  then show ?case using "2.IH" undecoded_one_by_one [OF "2.prems", of E buf] by (simp add: adaptive_run_append)
next
  case (3 buf level bufs)
  obtain s1 where "adaptive_update E buf (Some level) s = Some s1" "adaptive_ok s1" using adaptive_update_total [OF "3.prems"] by metis
  then show ?case using "3.IH" by simp
qed simp

theorem buffers_do_not_matter_witness:
  "adaptive_run example_adaptive_env [([1, 50000, 50000, 50000, 3, 4, 5, 6, 7], None), ([9, 60000], Some 1)] example_adaptive =
   adaptive_run example_adaptive_env [([1], None), ([50000], None), ([50000], None), ([50000], None), ([3], None), ([4], None),
     ([5], None), ([6], None), ([7], None), ([9, 60000], Some 1)] example_adaptive"
  using buffers_do_not_matter [OF example_adaptive_ok, of example_adaptive_env
      "[([1, 50000, 50000, 50000, 3, 4, 5, 6, 7], None), ([9, 60000], Some 1)]"] by simp

text \<open>
  C12. The noise measurement is the percentile. If \<open>xs\<close> are the samples measured in a block, and there are any, then the
  value that enters the moving average at its end is the element of the sorted samples at the place the
  percentile names, and the counts are cleared for the next block. The bound on the number of samples
  is what keeps the product from wrapping; a block has about two and a half million.
\<close>

theorem noise_is_percentile:
  assumes "range_control s" "range_radix s = fold radix_add xs (\<lambda>_. 0)" "range_radix_counter s = of_nat (length xs)" "xs \<noteq> []"
    and "a_range_percentile E < 100" "length xs * 100 < 2 ^ 32"
  shows "range_smoothed (adaptive_range_end_of_block E s) = f64 (f64 (range_smoothed s * f32 (1 - a_range_alpha E))
      + f32 (of_nat (unat (sort xs ! (length xs * unat (a_range_percentile E) div 100))) * a_range_alpha E))
    \<and> range_radix (adaptive_range_end_of_block E s) = (\<lambda>_. 0) \<and> range_radix_counter (adaptive_range_end_of_block E s) = 0"
proof -
  define p where "p = unat (a_range_percentile E)"
  define c where "c = length xs * p div 100"
  have p: "p < 100" "a_range_percentile E = of_nat p" using assms(5) by (simp_all add: p_def word_less_nat_alt)
  have len: "length xs * p \<le> length xs * 100" using p(1) by simp
  have c: "c < length xs" using assms(4) p(1) by (simp add: c_def less_mult_imp_div_less mult.commute)
  have nat: "unat (of_nat k :: u32) = k" if "k < 2 ^ 32" for k using that by (simp add: unat_of_nat)
  have prod: "(of_nat (length xs) * of_nat p :: u32) = of_nat (length xs * p)" by simp
  have "(of_nat (length xs * p) :: u32) div 100 = of_nat c"
  proof (rule word_unat_eq_iff [THEN iffD2])
    have k: "length xs * p < 2 ^ 32" by (rule le_less_trans [OF len assms(6)])
    moreover have "c < 2 ^ 32" using assms(6) c by simp
    ultimately have k: "length xs * p < 2 ^ 32" "c < 2 ^ 32" by blast+
    show "unat ((of_nat (length xs * p) :: u32) div 100) = unat (of_nat c :: u32)"
      unfolding unat_div nat [OF k(1)] nat [OF k(2)] by (simp add: c_def)
  qed
  then have count: "range_radix_counter s * a_range_percentile E div 100 = of_nat c"
    unfolding assms(3) p(2) prod .
  have "length xs < 2 ^ 32" using assms(6) by simp
  from percentile_is_sorted_nth [OF this c]
  show ?thesis
    using assms(1,2) count by (simp add: adaptive_range_end_of_block_def Let_def on_ad_stats_def c_def p_def)
qed

text \<open>The samples 7, 3 and 9, of which the median is 7.\<close>

theorem noise_is_percentile_witness:
  "range_smoothed (adaptive_range_end_of_block (example_adaptive_env\<lparr>a_range_percentile := 50\<rparr>) example_adaptive) = 7 / 4"
proof -
  have "sort [7, 3, 9 :: u16] = [3, 7, 9]" by code_simp
  moreover have "f64 (f64 (0 * f32 (1 - 1 / 4)) + f32 (7 * (1 / 4))) = 7 / 4" by code_simp
  ultimately show ?thesis
    using noise_is_percentile [of example_adaptive "[7, 3, 9]" "example_adaptive_env\<lparr>a_range_percentile := 50\<rparr>"]
    by (simp add: example_adaptive_def example_adaptive_env_def)
qed

text \<open>A block without measured samples, all of them parts of messages, counts as noise at full scale.\<close>

lemma noise_of_nothing:
  assumes "range_control s" "range_radix s = (\<lambda>_. 0)" "range_radix_counter s = 0"
  shows "range_smoothed (adaptive_range_end_of_block E s) =
    f64 (f64 (range_smoothed s * f32 (1 - a_range_alpha E)) + f32 (65535 * a_range_alpha E))"
  using assms percentile_of_nothing by (simp add: adaptive_range_end_of_block_def Let_def on_ad_stats_def)

end
