(* ===== verification/Radio.thy ===== *)
theory Radio
  imports DemodHeard AdaptiveGain
begin

text \<open>
  The receiver thread's side of the program, composed: a buffer is demodulated, and what the demodulator
  hands to the gain control goes through it.
\<close>

subsection \<open>Demodulation feeds the gain control\<close>

text \<open>The samples and the signal levels of the events, in their order.\<close>

fun gain_inputs :: "u16 list \<Rightarrow> demod_event list \<Rightarrow> (u16 list \<times> rat option) list" where
  "gain_inputs m [] = []"
| "gain_inputs m (AdaptiveUpdate start len mm # es) = (take len (drop start m), map_option signalLevel mm) # gain_inputs m es"
| "gain_inputs m (UseModesMessage mm # es) = gain_inputs m es"

definition receive_buffer :: "demod_env \<Rightarrow> adaptive_env \<Rightarrow> mag_buf \<Rightarrow> demod \<times> adaptive \<Rightarrow> (demod \<times> adaptive) option" where
  "receive_buffer E A mag = (\<lambda>(s, a). do {
     s' \<leftarrow> demodulate2400 E mag s;
     a' \<leftarrow> adaptive_run A (gain_inputs (data mag) (drop (length (dm_events s)) (dm_events s'))) a;
     Some (s', a') })"

fun receive_buffers :: "demod_env \<Rightarrow> adaptive_env \<Rightarrow> mag_buf list \<Rightarrow> demod \<times> adaptive \<Rightarrow> (demod \<times> adaptive) option" where
  "receive_buffers E A [] r = Some r"
| "receive_buffers E A (mag # mags) r = receive_buffer E A mag r \<bind> receive_buffers E A mags"

text \<open>The states in which the next buffer can be received.\<close>

definition receive_ok :: "demod \<times> adaptive \<Rightarrow> bool" where
  "receive_ok = (\<lambda>(s, a). demod_ok s \<and> adaptive_ok a \<and> gain_ok a)"

lemma receive_buffer_total:
  assumes "env_ok E" "buffer_ok mag" "receive_ok r"
  shows "\<exists>r'. receive_buffer E A mag r = Some r' \<and> receive_ok r' \<and> dm_last_end (fst r') < overlap mag"
proof -
  obtain s a where r: "r = (s, a)" by force
  obtain s' where s': "demodulate2400 E mag s = Some s'" "demod_ok s'" "dm_last_end s' \<le> 287"
    using demodulate2400_run [OF assms(1,2)] assms(3) r by (auto simp: receive_ok_def)
  obtain a' where "adaptive_run A (gain_inputs (data mag) (drop (length (dm_events s)) (dm_events s'))) a = Some a'"
    "adaptive_ok a'" "gain_ok a'"
    using adaptive_run_total assms(3) r by (fastforce simp: receive_ok_def)
  then show ?thesis using s' r assms(2) by (auto simp: receive_buffer_def receive_ok_def buffer_ok_def)
qed

lemma receive_buffers_total:
  "env_ok E \<Longrightarrow> list_all buffer_ok mags \<Longrightarrow> receive_ok r \<Longrightarrow> \<exists>r'. receive_buffers E A mags r = Some r' \<and> receive_ok r'"
proof (induction mags arbitrary: r)
  case (Cons mag mags)
  have b: "buffer_ok mag" "list_all buffer_ok mags" using Cons.prems(2) by simp_all
  obtain r1 where "receive_buffer E A mag r = Some r1" "receive_ok r1"
    using receive_buffer_total [OF Cons.prems(1) b(1) Cons.prems(3)] by blast
  with Cons.IH [OF Cons.prems(1) b(2)] show ?case by simp
qed simp

subsection \<open>Property\<close>

text \<open>
  C10. The receiving side runs for ever. From gain control on that was initialised for a tuner whose library
  obeys its first two calls, any number of buffers, of any samples with an overlap that covers the
  lookahead, are demodulated and measured without leaving an array or failing an assertion, whatever the
  library answers later, and the gain is within its limits after each of them.
\<close>

theorem receiving_never_faults:
  assumes "env_ok E" "demod_ok s" "init_ok A a" "list_all buffer_ok mags"
  shows "\<exists>a0 s' a'. adaptive_init A a = Some a0 \<and> receive_buffers E A mags (s, a0) = Some (s', a') \<and> demod_ok s'
    \<and> gain_min a' \<le> sdrGetGain (ad_sdr a') \<and> sdrGetGain (ad_sdr a') \<le> gain_max a'"
proof -
  obtain a0 where a0: "adaptive_init A a = Some a0" "adaptive_ok a0" "gain_ok a0" by (rule adaptive_init_total [OF assms(3)])
  then have "receive_ok (s, a0)" using assms(2) by (simp add: receive_ok_def)
  from receive_buffers_total [OF assms(1,4) this] a0(1) show ?thesis by (fastforce simp: receive_ok_def gain_ok_def)
qed

theorem receiving_never_faults_witness:
  "\<exists>g. modesChecksumInit 1 crc_globals_start = Some g \<and> (\<forall>t L. \<exists>a0 s' a'.
     adaptive_init example_adaptive_env example_adaptive = Some a0 \<and>
     receive_buffers (example_demod_env g t L) example_adaptive_env [example_buffer, example_buffer] (example_demod, a0) = Some (s', a'))"
proof -
  obtain g where g: "modesChecksumInit 1 crc_globals_start = Some g" using example_tables by blast
  have "list_all buffer_ok [example_buffer, example_buffer]" using example_demod_ok(2) by simp
  from receiving_never_faults [OF example_demod_ok(1) [OF g] example_demod_ok(3) example_adaptive_init this] g
  show ?thesis by blast
qed

end
