(* ===== verification/NetIo.thy ===== *)
theory NetIo
  imports Fp Types
begin

text \<open>
  The output side of the network layer, translated from \<^verbatim>\<open>src/net_io.c\<close>: services, clients and the
  write buffers they share. The linked list of clients is a list of pairs of a pointer and the client it points to, in list
  order, so looking up a pointer that was freed is \<open>None\<close>; services are never freed and are numbered in the order of
  their creation. What \<^verbatim>\<open>write\<close> returns is a function \<open>wr\<close> of everything written so far; the time is an argument.
\<close>

definition MODES_OUT_BUF_SIZE :: nat where
  "MODES_OUT_BUF_SIZE = 1500"

datatype read_mode_t = READ_MODE_IGNORE | READ_MODE_BEAST | READ_MODE_BEAST_COMMAND | READ_MODE_ASCII

datatype read_fn = DecodeHexMessage | DecodeBinMessage | HandleBeastCommand | HandleFaupCommand

datatype heartbeat_fn = SendRawHeartbeat | SendBeastHeartbeat | SendSbsHeartbeat | SendStratuxHeartbeat

text \<open>The static writers of \<^verbatim>\<open>Modes\<close>.\<close>

datatype writer_id = RawOut | BeastCookedOut | BeastVerbatimOut | SbsOut | StratuxOut | FatsvOut

record net_service =
  connections :: int
  sv_writer :: "writer_id option"
  read_sep :: "u8 list"
  read_mode :: read_mode_t
  read_handler :: "read_fn option"

record client =
  fd :: int
  cl_service :: "nat option"
  buflen :: nat
  buf :: "u8 list"
  modeac_requested :: bool

record net_writer =
  w_service :: "nat option"
  w_data :: "u8 list option"
  dataUsed :: nat
  lastWrite :: u64
  send_heartbeat :: "heartbeat_fn option"

record net =
  clients :: "(nat \<times> client) list"
  next_pointer :: nat
  services :: "net_service list"
  writers :: "writer_id \<Rightarrow> net_writer"
  beast_cooked_service :: nat
  beast_verbatim_service :: nat
  mode_ac :: bool
  mode_ac_auto :: bool
  net_output_flush_size :: nat
  sent :: "(int \<times> u8 list) list"

type_synonym write_result = "(int \<times> u8 list) list \<Rightarrow> int"

subsection \<open>Pointers\<close>

abbreviation get_client :: "net \<Rightarrow> nat \<Rightarrow> client option" where
  "get_client n c \<equiv> map_of (clients n) c"

definition upd_client :: "nat \<Rightarrow> (client \<Rightarrow> client) \<Rightarrow> net \<Rightarrow> net" where
  "upd_client c f n = n\<lparr>clients := map (\<lambda>(p, cl). (p, if p = c then f cl else cl)) (clients n)\<rparr>"

definition upd_service :: "nat \<Rightarrow> (net_service \<Rightarrow> net_service) \<Rightarrow> net \<Rightarrow> net option" where
  "upd_service s f n = do {
     sv \<leftarrow> arr_get (services n) s;
     Some (n\<lparr>services := (services n)[s := f sv]\<rparr>) }"

definition upd_writer :: "writer_id \<Rightarrow> (net_writer \<Rightarrow> net_writer) \<Rightarrow> net \<Rightarrow> net" where
  "upd_writer w f n = n\<lparr>writers := (writers n)(w := f (writers n w))\<rparr>"

subsection \<open>Clients\<close>

definition autoset_modeac :: "net \<Rightarrow> net" where
  "autoset_modeac n = (if mode_ac_auto n then n\<lparr>mode_ac := list_ex (\<lambda>(p, cl). modeac_requested cl) (clients n)\<rparr> else n)"

definition modesCloseClient :: "nat \<Rightarrow> net \<Rightarrow> net option" where
  "modesCloseClient c n = do {
     cl \<leftarrow> get_client n c;
     case cl_service cl of
       None \<Rightarrow> Some n
     | Some s \<Rightarrow> do {
         n \<leftarrow> upd_service s (connections_update (\<lambda>k. k - 1)) n;
         Some (autoset_modeac (upd_client c (\<lambda>cl. cl\<lparr>fd := -1, cl_service := None, modeac_requested := False\<rparr>) n)) } }"

text \<open>The loop of \<^verbatim>\<open>flushWrites\<close>; \<open>cs\<close> is the rest of the list of clients.\<close>

definition flush_client :: "write_result \<Rightarrow> writer_id \<Rightarrow> nat \<Rightarrow> net \<Rightarrow> net option" where
  "flush_client wr w c n = do {
     cl \<leftarrow> get_client n c;
     if cl_service cl \<noteq> None \<and> cl_service cl = w_service (writers n w) then do {
       data \<leftarrow> w_data (writers n w);
       let n' = n\<lparr>sent := sent n @ [(fd cl, take (dataUsed (writers n w)) data)]\<rparr>;
       if wr (sent n') \<noteq> int (dataUsed (writers n w)) then modesCloseClient c n' else Some n' }
     else Some n }"

fun flush_clients :: "write_result \<Rightarrow> writer_id \<Rightarrow> nat list \<Rightarrow> net \<Rightarrow> net option" where
  "flush_clients wr w [] n = Some n"
| "flush_clients wr w (c # cs) n = do { n \<leftarrow> flush_client wr w c n; flush_clients wr w cs n }"

definition flushWrites :: "write_result \<Rightarrow> u64 \<Rightarrow> writer_id \<Rightarrow> net \<Rightarrow> net option" where
  "flushWrites wr now w n = do {
     n \<leftarrow> flush_clients wr w (List.map fst (clients n)) n;
     Some (upd_writer w (\<lambda>x. x\<lparr>dataUsed := 0, lastWrite := now\<rparr>) n) }"

definition flush_service :: "write_result \<Rightarrow> u64 \<Rightarrow> nat \<Rightarrow> net \<Rightarrow> net option" where
  "flush_service wr now s n = do {
     sv \<leftarrow> arr_get (services n) s;
     case sv_writer sv of None \<Rightarrow> Some n | Some w \<Rightarrow> flushWrites wr now w n }"

definition moveNetClient :: "write_result \<Rightarrow> u64 \<Rightarrow> nat \<Rightarrow> nat option \<Rightarrow> net \<Rightarrow> net option" where
  "moveNetClient wr now c new_service n = do {
     cl \<leftarrow> get_client n c;
     if cl_service cl = new_service then Some n
     else do {
       n \<leftarrow> (case cl_service cl of
            None \<Rightarrow> Some n
          | Some s \<Rightarrow> do {
              n \<leftarrow> flush_service wr now s n;
              cl \<leftarrow> get_client n c;
              s \<leftarrow> cl_service cl;
              upd_service s (connections_update (\<lambda>k. k - 1)) n });
       n \<leftarrow> (case new_service of
            None \<Rightarrow> Some n
          | Some s \<Rightarrow> do {
              n \<leftarrow> flush_service wr now s n;
              upd_service s (connections_update (\<lambda>k. k + 1)) n });
       Some (upd_client c (\<lambda>cl. cl\<lparr>cl_service := new_service\<rparr>) n) } }"

definition serviceInit ::
    "u64 \<Rightarrow> writer_id option \<Rightarrow> heartbeat_fn option \<Rightarrow> read_mode_t \<Rightarrow> u8 list \<Rightarrow> read_fn option \<Rightarrow> net \<Rightarrow> nat \<times> net" where
  "serviceInit now writer hb mode sep handler n =
     (let s = length (services n);
          n = n\<lparr>services := services n @ [\<lparr>connections = 0, sv_writer = writer, read_sep = sep, read_mode = mode, read_handler = handler\<rparr>]\<rparr>
      in (s, case writer of
               None \<Rightarrow> n
             | Some w \<Rightarrow> upd_writer w (\<lambda>x. x\<lparr>w_service := Some s, w_data := Some (replicate MODES_OUT_BUF_SIZE 0),
                 dataUsed := 0, lastWrite := now, send_heartbeat := hb\<rparr>) n))"

text \<open>The contents of a new client's read buffer are whatever the memory held: \<open>junk\<close>.\<close>

definition createGenericClient :: "write_result \<Rightarrow> u64 \<Rightarrow> u8 list \<Rightarrow> nat option \<Rightarrow> int \<Rightarrow> net \<Rightarrow> (nat \<times> net) option" where
  "createGenericClient wr now junk service new_fd n = do {
     let c = next_pointer n;
     let n = n\<lparr>clients := (c, \<lparr>fd = new_fd, cl_service = None, buflen = 0, buf = junk, modeac_requested = False\<rparr>) # clients n,
               next_pointer := c + 1\<rparr>;
     n \<leftarrow> moveNetClient wr now c service n;
     Some (c, n) }"

text \<open>The end of \<^verbatim>\<open>modesNetPeriodicWork\<close>: closed clients are unlinked and freed.\<close>

definition prune_clients :: "net \<Rightarrow> net" where
  "prune_clients n = n\<lparr>clients := filter (\<lambda>(p, cl). fd cl \<noteq> -1) (clients n)\<rparr>"

subsection \<open>Write buffers\<close>

definition prepareWrite :: "write_result \<Rightarrow> u64 \<Rightarrow> writer_id \<Rightarrow> nat \<Rightarrow> net \<Rightarrow> (nat option \<times> net) option" where
  "prepareWrite wr now w len n =
     (case w_service (writers n w) of
        None \<Rightarrow> Some (None, n)
      | Some s \<Rightarrow> do {
          sv \<leftarrow> arr_get (services n) s;
          if connections sv = 0 \<or> w_data (writers n w) = None \<or> len > MODES_OUT_BUF_SIZE then Some (None, n)
          else do {
            n \<leftarrow> (if dataUsed (writers n w) + len \<ge> MODES_OUT_BUF_SIZE then flushWrites wr now w n else Some n);
            Some (Some (dataUsed (writers n w)), n) } })"

definition write_bytes :: "writer_id \<Rightarrow> nat \<Rightarrow> u8 list \<Rightarrow> net \<Rightarrow> net option" where
  "write_bytes w p bs n = do {
     data \<leftarrow> w_data (writers n w);
     c_assert (p + length bs \<le> length data);
     Some (upd_writer w (\<lambda>x. x\<lparr>w_data := Some (take p data @ bs @ drop (p + length bs) data)\<rparr>) n) }"

definition completeWrite :: "write_result \<Rightarrow> u64 \<Rightarrow> writer_id \<Rightarrow> nat \<Rightarrow> net \<Rightarrow> net option" where
  "completeWrite wr now w endptr n =
     (let n = upd_writer w (\<lambda>x. x\<lparr>dataUsed := endptr\<rparr>) n
      in if endptr \<ge> net_output_flush_size n then flushWrites wr now w n else Some n)"

text \<open>The common shape of a message writer: \<open>len\<close> bytes are reserved and \<open>bs\<close> written.\<close>

definition queue_bytes :: "write_result \<Rightarrow> u64 \<Rightarrow> writer_id \<Rightarrow> nat \<Rightarrow> u8 list \<Rightarrow> net \<Rightarrow> net option" where
  "queue_bytes wr now w len bs n = do {
     (p, n) \<leftarrow> prepareWrite wr now w len n;
     case p of
       None \<Rightarrow> Some n
     | Some p \<Rightarrow> do {
         n \<leftarrow> write_bytes w p bs n;
         completeWrite wr now w (p + length bs) n } }"

subsection \<open>Beast binary output\<close>

definition ESC :: u8 where "ESC = 0x1a"

definition put_escaped :: "u8 list \<Rightarrow> u8 list" where
  "put_escaped bs = concat (List.map (\<lambda>ch. if ch = ESC then [ch, ch] else [ch]) bs)"

definition beast_type :: "nat \<Rightarrow> u8 option" where
  "beast_type msgLen = (if msgLen = 7 then Some 0x32 else if msgLen = 14 then Some 0x33 else if msgLen = 2 then Some 0x31 else None)"

definition timestamp_bytes :: "u64 \<Rightarrow> u8 list" where
  "timestamp_bytes t = List.map (\<lambda>k. ucast (drop_bit k t)) [40, 32, 24, 16, 8, 0]"

text \<open>C's \<^verbatim>\<open>round\<close>, halves away from zero.\<close>

definition c_round :: "rat \<Rightarrow> int" where
  "c_round x = (if x < 0 then \<lceil>x - 1 / 2\<rceil> else \<lfloor>x + 1 / 2\<rfloor>)"

definition signal_byte :: "(rat \<Rightarrow> rat) \<Rightarrow> rat \<Rightarrow> u8" where
  "signal_byte sqrt_f level =
     (let sig = c_round (f64 (sqrt_f level * 255));
          sig = (if level > 0 \<and> sig < 1 then 1 else sig);
          sig = (if sig > 255 then 255 else sig)
      in word_of_int sig)"

definition beast_frame :: "u8 \<Rightarrow> u8 list \<Rightarrow> u8 list" where
  "beast_frame t payload = [ESC, t] @ put_escaped payload"

definition writeBeastMessage ::
    "write_result \<Rightarrow> u64 \<Rightarrow> (rat \<Rightarrow> rat) \<Rightarrow> writer_id \<Rightarrow> u64 \<Rightarrow> rat \<Rightarrow> u8 list \<Rightarrow> nat \<Rightarrow> net \<Rightarrow> net option" where
  "writeBeastMessage wr now sqrt_f w timestamp level m msgLen n = do {
     (p, n) \<leftarrow> prepareWrite wr now w (2 + 2 * (7 + msgLen)) n;
     case p of
       None \<Rightarrow> Some n
     | Some p \<Rightarrow>
         (case beast_type msgLen of
            None \<Rightarrow> write_bytes w p [ESC] n
          | Some t \<Rightarrow> do {
              c_assert (msgLen \<le> length m);
              let bs = beast_frame t (timestamp_bytes timestamp @ [signal_byte sqrt_f level] @ take msgLen m);
              n \<leftarrow> write_bytes w p bs n;
              completeWrite wr now w (p + length bs) n }) }"

text \<open>The messages kept from an output; \<open>a_reliable\<close> is whether the aircraft is, if there is one.\<close>

definition modesSendBeastVerbatimOutput ::
    "write_result \<Rightarrow> u64 \<Rightarrow> (rat \<Rightarrow> rat) \<Rightarrow> bool \<Rightarrow> modesMessage \<Rightarrow> net \<Rightarrow> net option" where
  "modesSendBeastVerbatimOutput wr now sqrt_f forward_mlat mm n =
     (if source mm = SOURCE_MLAT \<and> \<not> forward_mlat then Some n
      else writeBeastMessage wr now sqrt_f BeastVerbatimOut (timestampMsg mm) (signalLevel mm) (verbatim mm) (nat (msgbits mm div 8)) n)"

definition filtered_out :: "bool option \<Rightarrow> modesMessage \<Rightarrow> bool" where
  "filtered_out a_reliable mm \<longleftrightarrow> correctedbits mm \<ge> 2 \<or> a_reliable = Some False \<and> \<not> reliable mm"

definition modesSendBeastCookedOutput ::
    "write_result \<Rightarrow> u64 \<Rightarrow> (rat \<Rightarrow> rat) \<Rightarrow> bool \<Rightarrow> bool option \<Rightarrow> modesMessage \<Rightarrow> net \<Rightarrow> net option" where
  "modesSendBeastCookedOutput wr now sqrt_f forward_mlat a_reliable mm n =
     (if source mm = SOURCE_MLAT \<and> \<not> forward_mlat then Some n
      else if filtered_out a_reliable mm then Some n
      else writeBeastMessage wr now sqrt_f BeastCookedOut (timestampMsg mm) (signalLevel mm) (msg mm) (nat (msgbits mm div 8)) n)"

definition beast_heartbeat_message :: "u8 list" where
  "beast_heartbeat_message = [0x1a, 0x31, 0, 0, 0, 0, 0, 0, 0, 0, 0]"

definition send_beast_heartbeat :: "write_result \<Rightarrow> u64 \<Rightarrow> nat \<Rightarrow> net \<Rightarrow> net option" where
  "send_beast_heartbeat wr now s n = do {
     sv \<leftarrow> arr_get (services n) s;
     case sv_writer sv of None \<Rightarrow> Some n | Some w \<Rightarrow> queue_bytes wr now w 11 beast_heartbeat_message n }"

subsection \<open>Raw hexadecimal output\<close>

definition hex_digit :: "u8 \<Rightarrow> u8" where
  "hex_digit v = (if v < 10 then 0x30 + v else 0x37 + v)"

definition hex_byte :: "u8 \<Rightarrow> u8 list" where
  "hex_byte b = [hex_digit (drop_bit 4 b), hex_digit (b AND 0xf)]"

text \<open>The digits of \<^verbatim>\<open>%012X\<close>; only the first twelve characters are kept.\<close>

fun strip_zeros :: "nat \<Rightarrow> u8 list \<Rightarrow> u8 list" where
  "strip_zeros k (x # xs) = (if x = 0x30 \<and> length xs \<ge> k then strip_zeros k xs else x # xs)"
| "strip_zeros k [] = []"

definition hex_timestamp :: "u64 \<Rightarrow> u8 list" where
  "hex_timestamp t = take 12 (strip_zeros 12 (List.map (\<lambda>k. hex_digit (ucast (drop_bit (4 * (15 - k)) t) AND 0xf)) [0..<16]))"

definition raw_line :: "bool \<Rightarrow> u64 \<Rightarrow> u8 list \<Rightarrow> u8 list" where
  "raw_line mlat t m = (if mlat \<and> t \<noteq> 0 then 0x40 # hex_timestamp t else [0x2a]) @ concat (List.map hex_byte m) @ [0x3b, 0x0a]"

definition modesSendRawOutput :: "write_result \<Rightarrow> u64 \<Rightarrow> bool \<Rightarrow> bool option \<Rightarrow> modesMessage \<Rightarrow> net \<Rightarrow> net option" where
  "modesSendRawOutput wr now mlat a_reliable mm n =
     (if source mm = SOURCE_MLAT then Some n
      else if filtered_out a_reliable mm then Some n
      else do {
        let msgLen = nat (msgbits mm div 8);
        c_assert (msgLen \<le> length (msg mm));
        queue_bytes wr now RawOut (msgLen * 2 + 15) (raw_line mlat (timestampMsg mm) (take msgLen (msg mm))) n })"

definition raw_heartbeat_message :: "u8 list" where
  "raw_heartbeat_message = [0x2a, 0x30, 0x30, 0x30, 0x30, 0x3b, 0x0a]"

definition send_raw_heartbeat :: "write_result \<Rightarrow> u64 \<Rightarrow> nat \<Rightarrow> net \<Rightarrow> net option" where
  "send_raw_heartbeat wr now s n = do {
     sv \<leftarrow> arr_get (services n) s;
     case sv_writer sv of None \<Rightarrow> Some n | Some w \<Rightarrow> queue_bytes wr now w 7 raw_heartbeat_message n }"

subsection \<open>Beast commands\<close>

definition handleBeastCommand :: "write_result \<Rightarrow> u64 \<Rightarrow> nat \<Rightarrow> u8 \<Rightarrow> u8 \<Rightarrow> net \<Rightarrow> net option" where
  "handleBeastCommand wr now c p0 p1 n =
     (if p0 \<noteq> 0x31 then Some n
      else if p1 = 0x6a then Some (autoset_modeac (upd_client c (modeac_requested_update (\<lambda>_. False)) n))
      else if p1 = 0x4a then Some (autoset_modeac (upd_client c (modeac_requested_update (\<lambda>_. True)) n))
      else if p1 = 0x76 then moveNetClient wr now c (Some (beast_cooked_service n)) n
      else if p1 = 0x56 then moveNetClient wr now c (Some (beast_verbatim_service n)) n
      else Some n)"

subsection \<open>The invariant of clients and services\<close>

abbreviation pointers :: "net \<Rightarrow> nat list" where
  "pointers n \<equiv> List.map fst (clients n)"

definition in_service :: "nat \<Rightarrow> net \<Rightarrow> nat" where
  "in_service s n = length (filter (\<lambda>(p, cl). cl_service cl = Some s) (clients n))"

text \<open>
  The counters may be off by \<open>adj\<close>: while \<^verbatim>\<open>moveNetClient\<close> runs, the client counts for neither service.
\<close>

definition clients_inv :: "(nat \<Rightarrow> int) \<Rightarrow> net \<Rightarrow> bool" where
  "clients_inv adj n \<longleftrightarrow> distinct (pointers n) \<and> (\<forall>p\<in>set (pointers n). p < next_pointer n) \<and>
     (\<forall>(p, cl)\<in>set (clients n). (\<forall>s. cl_service cl = Some s \<longrightarrow> s < length (services n)) \<and> (fd cl = -1 \<longrightarrow> cl_service cl = None)) \<and>
     (\<forall>s<length (services n). connections (services n ! s) = int (in_service s n) + adj s)"

definition writers_inv :: "net \<Rightarrow> bool" where
  "writers_inv n \<longleftrightarrow>
     (\<forall>s<length (services n). \<forall>w. sv_writer (services n ! s) = Some w \<longrightarrow> w_service (writers n w) = Some s) \<and>
     (\<forall>w s. w_service (writers n w) = Some s \<longrightarrow> s < length (services n) \<and>
        (\<exists>data. w_data (writers n w) = Some data \<and> length data = MODES_OUT_BUF_SIZE) \<and> dataUsed (writers n w) \<le> MODES_OUT_BUF_SIZE)"

definition net_inv :: "net \<Rightarrow> bool" where
  "net_inv n \<longleftrightarrow> clients_inv (\<lambda>_. 0) n \<and> writers_inv n"

lemma upd_client_sel [simp]:
  "pointers (upd_client c f n) = pointers n" "services (upd_client c f n) = services n" "writers (upd_client c f n) = writers n"
  "next_pointer (upd_client c f n) = next_pointer n" "sent (upd_client c f n) = sent n"
  by (simp_all add: upd_client_def comp_def case_prod_beta)

lemma get_client_upd [simp]:
  "get_client (upd_client c f n) p = (if p = c then map_option f (get_client n c) else get_client n p)"
proof -
  have "map_of (List.map (\<lambda>(p, cl). (p, if p = c then f cl else cl)) xs) p =
      (if p = c then map_option f (map_of xs c) else map_of xs p)" for xs :: "(nat \<times> client) list"
    by (induction xs) auto
  then show ?thesis by (simp add: upd_client_def)
qed

lemma autoset_modeac_sel [simp]:
  "clients (autoset_modeac n) = clients n" "services (autoset_modeac n) = services n" "writers (autoset_modeac n) = writers n"
  "next_pointer (autoset_modeac n) = next_pointer n" "sent (autoset_modeac n) = sent n"
  by (simp_all add: autoset_modeac_def)

lemma upd_writer_sel [simp]:
  "clients (upd_writer w f n) = clients n" "services (upd_writer w f n) = services n"
  "writers (upd_writer w f n) = (writers n)(w := f (writers n w))" "next_pointer (upd_writer w f n) = next_pointer n"
  by (simp_all add: upd_writer_def)

lemma upd_service_Some: "s < length (services n) \<Longrightarrow> upd_service s f n = Some (n\<lparr>services := (services n)[s := f (services n ! s)]\<rparr>)"
  by (simp add: upd_service_def)

lemma get_client_known: "get_client n c \<noteq> None \<longleftrightarrow> c \<in> set (pointers n)"
  by (simp add: map_of_eq_None_iff)

text \<open>How replacing a client changes the number of clients of a service.\<close>

lemma in_service_upd_client:
  assumes "distinct (pointers n)" "get_client n c = Some cl"
  shows "int (in_service s (upd_client c f n)) =
    int (in_service s n) - (if cl_service cl = Some s then 1 else 0) + (if cl_service (f cl) = Some s then 1 else 0)"
proof -
  have absent: "List.map (\<lambda>(p, cl). (p, if p = c then f cl else cl)) xs = xs" if "c \<notin> fst ` set xs" for xs :: "(nat \<times> client) list"
    using that by (induction xs) force+
  have "int (length (filter (\<lambda>(p, cl). cl_service cl = Some s) (List.map (\<lambda>(p, cl). (p, if p = c then f cl else cl)) xs))) =
      int (length (filter (\<lambda>(p, cl). cl_service cl = Some s) xs)) - (if cl_service cl = Some s then 1 else 0) + (if cl_service (f cl) = Some s then 1 else 0)"
    if "distinct (List.map fst xs)" "map_of xs c = Some cl" for xs :: "(nat \<times> client) list"
    using that
  proof (induction xs)
    case (Cons a xs)
    obtain p x where a: "a = (p, x)" by force
    show ?case
    proof (cases "p = c")
      case True
      then have "List.map (\<lambda>(p, cl). (p, if p = c then f cl else cl)) xs = xs"
        using Cons.prems(1) a by (intro absent) simp
      then show ?thesis using Cons.prems True unfolding a list.map by (simp only:) simp
    next
      case False
      then have "distinct (List.map fst xs)" "map_of xs c = Some cl" using Cons.prems a by simp_all
      from Cons.IH [OF this] show ?thesis using False by (auto simp: a)
    qed
  qed simp
  from this [OF assms] show ?thesis by (simp add: in_service_def upd_client_def)
qed

lemma clients_inv_service:
  assumes "clients_inv adj n" "get_client n c = Some cl" "cl_service cl = Some s"
  shows "s < length (services n)" "connections (services n ! s) = int (in_service s n) + adj s" "fd cl \<noteq> -1"
  using assms map_of_SomeD [OF assms(2)] unfolding clients_inv_def by auto

lemma connections_update_other [simp]: "sv_writer (connections_update f sv) = sv_writer sv"
  by simp

text \<open>Changing the service of a client together with the two counters keeps the invariant.\<close>

lemma clients_inv_upd_client:
  assumes inv: "clients_inv adj n" and c: "get_client n c = Some cl"
    and new: "\<And>t. cl_service (f cl) = Some t \<Longrightarrow> t < length (services n)" "fd (f cl) = -1 \<Longrightarrow> cl_service (f cl) = None"
    and len: "length svs = length (services n)"
    and count: "\<And>s. s < length svs \<Longrightarrow> connections (svs ! s) - adj' s =
      connections (services n ! s) - adj s - (if cl_service cl = Some s then 1 else 0) + (if cl_service (f cl) = Some s then 1 else 0)"
  shows "clients_inv adj' (upd_client c f (n\<lparr>services := svs\<rparr>))"
proof -
  have d: "distinct (pointers n)" using inv by (simp add: clients_inv_def)
  have m: "(p, x) \<in> set (clients (upd_client c f n)) \<Longrightarrow> (p, x) \<in> set (clients n) \<or> p = c \<and> x = f cl" for p x
  proof -
    assume "(p, x) \<in> set (clients (upd_client c f n))"
    then have "get_client (upd_client c f n) p = Some x" by (intro map_of_is_SomeI) (simp_all add: d)
    then show ?thesis using c map_of_SomeD [of "clients n" p x] by (auto split: if_splits)
  qed
  have eq: "clients (upd_client c f (n\<lparr>services := svs\<rparr>)) = clients (upd_client c f n)" by (simp add: upd_client_def)
  then have cnt: "in_service s (upd_client c f (n\<lparr>services := svs\<rparr>)) = in_service s (upd_client c f n)" for s
    by (simp add: in_service_def)
  show ?thesis
    unfolding clients_inv_def cnt
  proof (intro conjI allI impI)
    show "distinct (pointers (upd_client c f (n\<lparr>services := svs\<rparr>)))" using d by simp
    show "\<forall>p\<in>set (pointers (upd_client c f (n\<lparr>services := svs\<rparr>))). p < next_pointer (upd_client c f (n\<lparr>services := svs\<rparr>))"
      using inv by (auto simp: clients_inv_def)
    show "\<forall>(p, x)\<in>set (clients (upd_client c f (n\<lparr>services := svs\<rparr>))).
        (\<forall>s. cl_service x = Some s \<longrightarrow> s < length (services (upd_client c f (n\<lparr>services := svs\<rparr>)))) \<and> (fd x = -1 \<longrightarrow> cl_service x = None)"
    proof
      fix y assume y: "y \<in> set (clients (upd_client c f (n\<lparr>services := svs\<rparr>)))"
      obtain p x where px: "y = (p, x)" by force
      then consider "(p, x) \<in> set (clients n)" | "x = f cl" using y m [of p x] unfolding eq by auto
      then show "case y of (p, x) \<Rightarrow>
          (\<forall>s. cl_service x = Some s \<longrightarrow> s < length (services (upd_client c f (n\<lparr>services := svs\<rparr>)))) \<and> (fd x = -1 \<longrightarrow> cl_service x = None)"
        by cases (use px new inv len in \<open>auto simp: clients_inv_def\<close>)
    qed
  next
    fix s assume s: "s < length (services (upd_client c f (n\<lparr>services := svs\<rparr>)))"
    then show "connections (services (upd_client c f (n\<lparr>services := svs\<rparr>)) ! s) = int (in_service s (upd_client c f n)) + adj' s"
      using count [of s] inv len by (simp add: in_service_upd_client [OF d c] clients_inv_def)
  qed
qed

text \<open>What closing clients leaves alone: each client is as before or closed.\<close>

definition only_closes :: "net \<Rightarrow> net \<Rightarrow> bool" where
  "only_closes n n' \<longleftrightarrow> pointers n' = pointers n \<and> next_pointer n' = next_pointer n \<and> writers n' = writers n \<and>
     List.map sv_writer (services n') = List.map sv_writer (services n) \<and>
     (\<forall>p cl. get_client n' p = Some cl \<longrightarrow> cl_service cl = None \<or> get_client n p = Some cl)"

lemma only_closes_refl [simp]: "only_closes n n"
  by (simp add: only_closes_def)

lemma only_closes_trans: "only_closes n1 n2 \<Longrightarrow> only_closes n2 n3 \<Longrightarrow> only_closes n1 n3"
  unfolding only_closes_def by metis

lemma modesCloseClient_Some:
  assumes "clients_inv adj n" "c \<in> set (pointers n)"
  obtains n' where "modesCloseClient c n = Some n'" "clients_inv adj n'" "only_closes n n'"
    "\<And>cl. get_client n' c = Some cl \<Longrightarrow> cl_service cl = None"
proof -
  obtain cl where c: "get_client n c = Some cl" using assms(2) get_client_known by blast
  show thesis
  proof (cases "cl_service cl")
    case None
    then show thesis using that [of n] assms c by (simp add: modesCloseClient_def)
  next
    case (Some s)
    let ?f = "\<lambda>cl. cl\<lparr>fd := -1, cl_service := None, modeac_requested := False\<rparr>"
    let ?svs = "(services n)[s := connections_update (\<lambda>k. k - 1) (services n ! s)]"
    note s = clients_inv_service [OF assms(1) c Some]
    have run: "modesCloseClient c n = Some (autoset_modeac (upd_client c ?f (n\<lparr>services := ?svs\<rparr>)))"
      using c Some s by (simp add: modesCloseClient_def upd_service_Some)
    have "clients_inv adj (upd_client c ?f (n\<lparr>services := ?svs\<rparr>))"
      by (rule clients_inv_upd_client [OF assms(1) c]) (use Some in \<open>auto simp: nth_list_update\<close>)
    then have inv: "clients_inv adj (autoset_modeac (upd_client c ?f (n\<lparr>services := ?svs\<rparr>)))"
      by (simp add: clients_inv_def in_service_def)
    have "List.map sv_writer ?svs = List.map sv_writer (services n)"
      using s(1) by (auto intro!: nth_equalityI simp: nth_list_update)
    then have "only_closes n (autoset_modeac (upd_client c ?f (n\<lparr>services := ?svs\<rparr>)))"
      using c by (auto simp: only_closes_def simp del: get_client_upd) (auto split: if_splits)
    then show thesis by (rule that [OF run inv]) (auto split: if_splits)
  qed
qed

lemma clients_inv_sent [simp]: "clients_inv adj (n\<lparr>sent := x\<rparr>) = clients_inv adj n"
  by (simp add: clients_inv_def in_service_def)

lemma only_closes_sent [simp]: "only_closes n (n\<lparr>sent := x\<rparr>)"
  by (simp add: only_closes_def)

lemma flush_client_cases:
  assumes "get_client n c = Some cl"
  shows "flush_client wr w c n =
    (if cl_service cl \<noteq> None \<and> cl_service cl = w_service (writers n w) then do {
       data \<leftarrow> w_data (writers n w);
       let n' = n\<lparr>sent := sent n @ [(fd cl, take (dataUsed (writers n w)) data)]\<rparr>;
       if wr (sent n') \<noteq> int (dataUsed (writers n w)) then modesCloseClient c n' else Some n' }
     else Some n)"
  using assms by (simp add: flush_client_def)

definition writer_ok :: "writer_id \<Rightarrow> net \<Rightarrow> bool" where
  "writer_ok w n \<longleftrightarrow> (w_service (writers n w) \<noteq> None \<longrightarrow>
     (\<exists>data. w_data (writers n w) = Some data \<and> dataUsed (writers n w) \<le> length data))"

lemma writer_ok_only_closes: "only_closes n n' \<Longrightarrow> writer_ok w n' = writer_ok w n"
  by (simp add: only_closes_def writer_ok_def)

lemma flush_client_Some:
  assumes "clients_inv adj n" "c \<in> set (pointers n)" "writer_ok w n"
  obtains n' where "flush_client wr w c n = Some n'" "clients_inv adj n'" "only_closes n n'"
proof -
  obtain cl where c: "get_client n c = Some cl" using assms(2) get_client_known by blast
  show thesis
  proof (cases "cl_service cl \<noteq> None \<and> cl_service cl = w_service (writers n w)")
    case True
    then obtain data where data: "w_data (writers n w) = Some data" using assms(3) by (auto simp: writer_ok_def)
    let ?n = "n\<lparr>sent := sent n @ [(fd cl, take (dataUsed (writers n w)) data)]\<rparr>"
    obtain n' where n': "modesCloseClient c ?n = Some n'" "clients_inv adj n'" "only_closes ?n n'"
      by (rule modesCloseClient_Some [of adj ?n c]) (use assms in auto)
    then have "only_closes n n'" by (blast intro: only_closes_trans only_closes_sent)
    moreover have "flush_client wr w c n = (if wr (sent ?n) \<noteq> int (dataUsed (writers n w)) then modesCloseClient c ?n else Some ?n)"
      unfolding flush_client_cases [OF c] Let_def data using True by auto
    ultimately show thesis
      using n' that [of n'] that [of ?n] assms(1) by (cases "wr (sent ?n) = int (dataUsed (writers n w))") simp_all
  qed (use that [of n] assms(1) in \<open>auto simp: flush_client_cases [OF c]\<close>)
qed

lemma flush_clients_Some:
  assumes "clients_inv adj n" "set cs \<subseteq> set (pointers n)" "writer_ok w n"
  shows "\<exists>n'. flush_clients wr w cs n = Some n' \<and> clients_inv adj n' \<and> only_closes n n'"
  using assms
proof (induction cs arbitrary: n)
  case (Cons c cs)
  obtain n1 where n1: "flush_client wr w c n = Some n1" "clients_inv adj n1" "only_closes n n1"
    by (rule flush_client_Some [of adj n c w wr]) (use Cons.prems in auto)
  then have "set cs \<subseteq> set (pointers n1)" "writer_ok w n1"
    using Cons.prems writer_ok_only_closes [OF n1(3)] by (auto simp: only_closes_def)
  from Cons.IH [OF n1(2) this] n1 show ?case unfolding flush_clients.simps by (auto intro: only_closes_trans)
qed simp

text \<open>If every write is complete, a flush changes nothing but the record of what was sent.\<close>

lemma flush_clients_complete:
  assumes "\<And>h f d. wr (h @ [(f, d)]) = int (length d)" "set cs \<subseteq> set (pointers n)" "writer_ok w n"
  shows "\<exists>h. flush_clients wr w cs n = Some (n\<lparr>sent := h\<rparr>)"
  using assms(2,3)
proof (induction cs arbitrary: n)
  case (Cons c cs)
  obtain cl where c: "get_client n c = Some cl" using Cons.prems(1) get_client_known [of n c] by auto
  have "\<exists>h. flush_client wr w c n = Some (n\<lparr>sent := h\<rparr>)"
  proof (cases "cl_service cl \<noteq> None \<and> cl_service cl = w_service (writers n w)")
    case True
    then obtain data where data: "w_data (writers n w) = Some data" "dataUsed (writers n w) \<le> length data"
      using Cons.prems(2) by (auto simp: writer_ok_def)
    then show ?thesis using True assms(1) by (auto simp: flush_client_cases [OF c] Let_def min_absorb2)
  next
    case False
    have "n = n\<lparr>sent := sent n\<rparr>" by simp
    moreover have "flush_client wr w c n = Some n" using False unfolding flush_client_cases [OF c] by auto
    ultimately show ?thesis by metis
  qed
  then obtain h where h: "flush_client wr w c n = Some (n\<lparr>sent := h\<rparr>)" ..
  have "\<exists>h'. flush_clients wr w cs (n\<lparr>sent := h\<rparr>) = Some ((n\<lparr>sent := h\<rparr>)\<lparr>sent := h'\<rparr>)"
    by (rule Cons.IH) (use Cons.prems in \<open>simp_all add: writer_ok_def\<close>)
  then show ?case unfolding flush_clients.simps h by auto
next
  case Nil
  have "n = n\<lparr>sent := sent n\<rparr>" by simp
  then show ?case unfolding flush_clients.simps by blast
qed

text \<open>A client whose writes fall short is closed by the flush.\<close>

lemma flush_clients_closes:
  assumes "clients_inv adj n" "set cs \<subseteq> set (pointers n)" "writer_ok w n" "c \<in> set cs"
    and "get_client n c = Some cl" "cl_service cl = w_service (writers n w)"
    and short: "\<And>h d. wr (h @ [(fd cl, d)]) \<noteq> int (length d)"
    and "flush_clients wr w cs n = Some n'" "get_client n' c = Some cl'"
  shows "cl_service cl' = None"
  using assms(1-6,8)
proof (induction cs arbitrary: n)
  case (Cons x cs)
  obtain n1 where n1: "flush_client wr w x n = Some n1" "clients_inv adj n1" "only_closes n n1"
    by (rule flush_client_Some [of adj n x w wr]) (use Cons.prems in auto)
  then have p: "set cs \<subseteq> set (pointers n1)" "writer_ok w n1"
    using Cons.prems writer_ok_only_closes [OF n1(3)] by (auto simp: only_closes_def)
  have rest: "flush_clients wr w cs n1 = Some n'" using Cons.prems(7) n1(1) by simp
  obtain n2 where "flush_clients wr w cs n1 = Some n2" "only_closes n1 n2"
    using flush_clients_Some [OF n1(2) p] by blast
  then have oc: "only_closes n1 n'" using rest by simp
  show ?case
  proof (cases "cl_service cl = None")
    case True
    then show ?thesis using only_closes_trans [OF n1(3) oc] Cons.prems(5) assms(9) unfolding only_closes_def by (metis option.inject)
  next
    case open_cl: False
    show ?thesis
    proof (cases "x = c")
      case True
      obtain data where data: "w_data (writers n w) = Some data" "dataUsed (writers n w) \<le> length data"
        using Cons.prems(3,6) open_cl by (auto simp: writer_ok_def)
      let ?n = "n\<lparr>sent := sent n @ [(fd cl, take (dataUsed (writers n w)) data)]\<rparr>"
      have "flush_client wr w c n = modesCloseClient c ?n"
        using Cons.prems(5,6) open_cl data short [of "sent n" "take (dataUsed (writers n w)) data"]
        by (simp add: flush_client_cases Let_def min_absorb2)
      moreover obtain n2 where "modesCloseClient c ?n = Some n2" "\<And>y. get_client n2 c = Some y \<Longrightarrow> cl_service y = None"
        by (rule modesCloseClient_Some [of adj ?n c]) (use Cons.prems True in auto)
      ultimately have "\<And>y. get_client n1 c = Some y \<Longrightarrow> cl_service y = None" using n1(1) True by simp
      then show ?thesis using oc assms(9) unfolding only_closes_def by blast
    next
      case False
      then have "c \<in> set cs" using Cons.prems(4) by simp
      moreover obtain y where y: "get_client n1 c = Some y"
        using n1(3) Cons.prems(5) get_client_known [of n1 c] get_client_known [of n c] by (auto simp: only_closes_def)
      ultimately show ?thesis
      proof (cases "cl_service y = None")
        case True
        then show ?thesis using y oc assms(9) unfolding only_closes_def by (metis option.inject)
      next
        case False
        then have "y = cl" using y n1(3) Cons.prems(5) unfolding only_closes_def by (metis option.inject)
        moreover have "writers n1 = writers n" using n1(3) by (simp add: only_closes_def)
        ultimately show ?thesis
          using Cons.IH [OF n1(2) p \<open>c \<in> set cs\<close> _ _ rest] y Cons.prems(6) by simp
      qed
    qed
  qed
qed simp

text \<open>A flush does not touch the clients of other services.\<close>

lemma modesCloseClient_other: "modesCloseClient x n = Some n' \<Longrightarrow> p \<noteq> x \<Longrightarrow> get_client n' p = get_client n p"
  by (auto simp: modesCloseClient_def upd_service_def split: option.splits elim!: bind_eq_SomeE)

lemma flush_clients_other:
  assumes "flush_clients wr w cs n = Some n'" "get_client n c = Some cl" "cl_service cl = None \<or> cl_service cl \<noteq> w_service (writers n w)"
  shows "get_client n' c = Some cl"
  using assms
proof (induction cs arbitrary: n)
  case (Cons x cs)
  obtain n1 where n1: "flush_client wr w x n = Some n1" "flush_clients wr w cs n1 = Some n'"
    using Cons.prems(1) by (auto elim: bind_eq_SomeE)
  have W: "w_service (writers n1 w) = w_service (writers n w)"
    using n1(1) by (auto simp: flush_client_def Let_def modesCloseClient_def upd_service_def split: option.splits if_splits elim!: bind_eq_SomeE)
  have "get_client n1 c = Some cl"
  proof (cases "x = c")
    case True
    then have "flush_client wr w x n = Some n" using Cons.prems(2,3) unfolding True flush_client_cases [OF Cons.prems(2)] by auto
    then show ?thesis using n1(1) Cons.prems(2) by simp
  next
    case False
    then show ?thesis using n1(1) Cons.prems(2) modesCloseClient_other [of x _ n1 c]
      by (auto simp: flush_client_def Let_def split: option.splits if_splits elim!: bind_eq_SomeE)
  qed
  then show ?case using Cons.IH [OF n1(2)] Cons.prems(3) W by simp
qed simp

lemma writers_inv_service: "writers_inv n \<Longrightarrow> s < length (services n) \<Longrightarrow> sv_writer (services n ! s) = Some w \<Longrightarrow> w_service (writers n w) = Some s"
  unfolding writers_inv_def by blast

lemma writers_inv_writer:
  assumes "writers_inv n" "w_service (writers n w) = Some s"
  obtains data where "s < length (services n)" "w_data (writers n w) = Some data" "length data = MODES_OUT_BUF_SIZE"
    "dataUsed (writers n w) \<le> MODES_OUT_BUF_SIZE"
  using assms unfolding writers_inv_def by blast

lemma writers_inv_ok:
  assumes "writers_inv n"
  shows "writer_ok w n"
  unfolding writer_ok_def
proof
  assume "w_service (writers n w) \<noteq> None"
  then obtain s where "w_service (writers n w) = Some s" by blast
  from writers_inv_writer [OF assms this] show "\<exists>data. w_data (writers n w) = Some data \<and> dataUsed (writers n w) \<le> length data"
    by metis
qed

lemma writers_inv_cong:
  assumes "List.map sv_writer (services n') = List.map sv_writer (services n)" "writers n' = writers n"
  shows "writers_inv n' = writers_inv n"
proof -
  have "length (services n') = length (services n)" "\<And>s. s < length (services n) \<Longrightarrow> sv_writer (services n' ! s) = sv_writer (services n ! s)"
    using assms(1) by (metis length_map, metis assms(1) length_map nth_map)
  then show ?thesis using assms(2) unfolding writers_inv_def by auto
qed

lemma writers_inv_only_closes: "only_closes n n' \<Longrightarrow> writers_inv n' = writers_inv n"
  by (rule writers_inv_cong) (simp_all add: only_closes_def)

lemma clients_inv_upd_writer [simp]: "clients_inv adj (upd_writer w f n) = clients_inv adj n"
  by (simp add: clients_inv_def in_service_def)

lemma writers_inv_upd_writer:
  assumes "writers_inv n" "w_service (f (writers n w)) = w_service (writers n w)"
    and "\<And>d. w_data (writers n w) = Some d \<Longrightarrow> \<exists>d'. w_data (f (writers n w)) = Some d' \<and> length d' = length d"
    and "dataUsed (writers n w) \<le> MODES_OUT_BUF_SIZE \<Longrightarrow> dataUsed (f (writers n w)) \<le> MODES_OUT_BUF_SIZE"
  shows "writers_inv (upd_writer w f n)"
  unfolding writers_inv_def
proof (intro conjI allI impI)
  fix s v assume "s < length (services (upd_writer w f n))" "sv_writer (services (upd_writer w f n) ! s) = Some v"
  then show "w_service (writers (upd_writer w f n) v) = Some s"
    using writers_inv_service [OF assms(1), of s v] assms(2) by auto
next
  fix v s assume "w_service (writers (upd_writer w f n) v) = Some s"
  then have "w_service (writers n v) = Some s" using assms(2) by (simp split: if_splits)
  then obtain data where d: "s < length (services n)" "w_data (writers n v) = Some data" "length data = MODES_OUT_BUF_SIZE"
    "dataUsed (writers n v) \<le> MODES_OUT_BUF_SIZE"
    using writers_inv_writer [OF assms(1)] by blast
  show "s < length (services (upd_writer w f n))" using d(1) by simp
  show "\<exists>data. w_data (writers (upd_writer w f n) v) = Some data \<and> length data = MODES_OUT_BUF_SIZE"
    using d(2,3) assms(3) [of data] by (cases "v = w") auto
  show "dataUsed (writers (upd_writer w f n) v) \<le> MODES_OUT_BUF_SIZE" using d(4) assms(4) by (cases "v = w") auto
qed

text \<open>What a flush for the service \<open>so\<close> does, from a state whose counters may be off.\<close>

definition flushed :: "(nat \<Rightarrow> int) \<Rightarrow> nat option \<Rightarrow> net \<Rightarrow> net \<Rightarrow> bool" where
  "flushed adj so n n' \<longleftrightarrow> clients_inv adj n' \<and> writers_inv n' \<and> pointers n' = pointers n \<and> next_pointer n' = next_pointer n \<and>
     List.map sv_writer (services n') = List.map sv_writer (services n) \<and>
     (\<forall>p cl. get_client n' p = Some cl \<longrightarrow> cl_service cl = None \<or> get_client n p = Some cl) \<and>
     (\<forall>p cl. get_client n p = Some cl \<longrightarrow> cl_service cl = None \<or> cl_service cl \<noteq> so \<longrightarrow> get_client n' p = Some cl)"

lemma flushed_refl: "clients_inv adj n \<Longrightarrow> writers_inv n \<Longrightarrow> flushed adj so n n"
  by (simp add: flushed_def)

lemma flushWrites_Some:
  assumes "clients_inv adj n" "writers_inv n"
  obtains n' where "flushWrites wr now w n = Some n'" "flushed adj (w_service (writers n w)) n n'" "dataUsed (writers n' w) = 0"
    "\<And>v. w_service (writers n' v) = w_service (writers n v)"
proof -
  obtain n1 where n1: "flush_clients wr w (pointers n) n = Some n1" "clients_inv adj n1" "only_closes n n1"
    using flush_clients_Some [OF assms(1) order_refl writers_inv_ok [OF assms(2)]] by blast
  let ?n = "upd_writer w (\<lambda>x. x\<lparr>dataUsed := 0, lastWrite := now\<rparr>) n1"
  have run: "flushWrites wr now w n = Some ?n" using n1(1) by (simp add: flushWrites_def)
  have W: "writers_inv ?n" using n1(3) assms(2) by (intro writers_inv_upd_writer) (auto simp: writers_inv_only_closes)
  have "\<forall>p cl. get_client n p = Some cl \<longrightarrow> cl_service cl = None \<or> cl_service cl \<noteq> w_service (writers n w) \<longrightarrow> get_client ?n p = Some cl"
    using flush_clients_other [OF n1(1)] by simp
  then have "flushed adj (w_service (writers n w)) n ?n"
    using n1(2,3) W unfolding flushed_def only_closes_def by simp
  then show thesis by (rule that [OF run]) (use n1(3) in \<open>simp_all add: only_closes_def\<close>)
qed

lemma flush_service_Some:
  assumes "clients_inv adj n" "writers_inv n" "s < length (services n)"
  obtains n' where "flush_service wr now s n = Some n'" "flushed adj (Some s) n n'"
proof (cases "sv_writer (services n ! s)")
  case None
  then show thesis using that [of n] assms by (simp add: flush_service_def flushed_refl)
next
  case (Some w)
  then have w: "w_service (writers n w) = Some s" using assms(2,3) by (intro writers_inv_service)
  have e: "flush_service wr now s n = flushWrites wr now w n" using Some assms(3) by (simp add: flush_service_def)
  obtain n' where "flushWrites wr now w n = Some n'" "flushed adj (Some s) n n'"
    using flushWrites_Some [OF assms(1,2), of wr now w] w by metis
  then show thesis using that e by metis
qed

text \<open>
  \<^verbatim>\<open>moveNetClient\<close> runs through unless the flush of the client's own service closes the client: then
  it follows the null pointer that \<^verbatim>\<open>modesCloseClient\<close> left in \<^verbatim>\<open>c->service\<close>.
\<close>

lemma in_service_upd_services [simp]: "in_service t (n\<lparr>services := svs\<rparr>) = in_service t n"
  by (simp add: in_service_def)

lemma clients_inv_adjust:
  assumes "clients_inv adj n" "s < length (services n)"
  shows "clients_inv (adj(s := adj s + d)) (n\<lparr>services := (services n)[s := connections_update (\<lambda>k. k + d) (services n ! s)]\<rparr>)"
  using assms unfolding clients_inv_def by (auto simp: nth_list_update)

lemma writers_inv_adjust:
  assumes "writers_inv n"
  shows "writers_inv (n\<lparr>services := (services n)[s := connections_update f (services n ! s)]\<rparr>)"
proof -
  have "List.map sv_writer ((services n)[s := connections_update f (services n ! s)]) = List.map sv_writer (services n)"
    by (cases "s < length (services n)") (auto intro!: nth_equalityI simp: nth_list_update)
  then show ?thesis using assms writers_inv_cong [of "n\<lparr>services := (services n)[s := connections_update f (services n ! s)]\<rparr>" n] by simp
qed

lemma map_nth_length: "List.map f xs = List.map f ys \<Longrightarrow> length xs = length ys"
  by (metis length_map)

text \<open>The second half of \<^verbatim>\<open>moveNetClient\<close>: the client counts for no service when it starts.\<close>

lemma attach_client:
  assumes inv: "clients_inv adj n" "writers_inv n" and c: "get_client n c = Some cl"
    and old: "\<And>s. cl_service cl = Some s \<Longrightarrow> t \<noteq> s" and t: "t < length (services n)" "fd cl \<noteq> -1"
    and adj: "adj = (case cl_service cl of None \<Rightarrow> (\<lambda>_. 0) | Some s \<Rightarrow> (\<lambda>_. 0)(s := -1))"
  obtains n' where "do { n \<leftarrow> flush_service wr now t n; n \<leftarrow> upd_service t (connections_update (\<lambda>k. k + 1)) n;
      Some (upd_client c (\<lambda>cl. cl\<lparr>cl_service := Some t\<rparr>) n) } = Some n'" "net_inv n'"
    "map_option cl_service (get_client n' c) = Some (Some t)"
proof -
  obtain n1 where n1: "flush_service wr now t n = Some n1" "flushed adj (Some t) n n1"
    using flush_service_Some [OF inv t(1)] by blast
  have c1: "get_client n1 c = Some cl" using n1(2) c old unfolding flushed_def by blast
  have I: "clients_inv adj n1" "writers_inv n1" using n1(2) by (simp_all add: flushed_def)
  have L: "length (services n1) = length (services n)" using n1(2) map_nth_length unfolding flushed_def by blast
  let ?svs = "(services n1)[t := connections_update (\<lambda>k. k + 1) (services n1 ! t)]"
  let ?f = "\<lambda>cl. cl\<lparr>cl_service := Some t\<rparr>"
  let ?n = "upd_client c ?f (n1\<lparr>services := ?svs\<rparr>)"
  have "clients_inv (\<lambda>_. 0) ?n"
    by (rule clients_inv_upd_client [OF I(1) c1]) (use t L old adj in \<open>auto simp: nth_list_update split: option.splits\<close>)
  moreover have "writers_inv ?n" using writers_inv_adjust [OF I(2), of t "\<lambda>k. k + 1"] writers_inv_cong [of ?n "n1\<lparr>services := ?svs\<rparr>"] by simp
  ultimately have "net_inv ?n" by (simp add: net_inv_def)
  moreover have "upd_service t (connections_update (\<lambda>k. k + 1)) n1 = Some (n1\<lparr>services := ?svs\<rparr>)" using t L by (simp add: upd_service_Some)
  ultimately show thesis using that [of ?n] n1(1) c1 by simp
qed

lemma moveNetClient_Some:
  assumes inv: "net_inv n" and c: "get_client n c = Some cl" and t: "t < length (services n)" "fd cl \<noteq> -1"
    and ok: "\<And>s n1. cl_service cl = Some s \<Longrightarrow> s \<noteq> t \<Longrightarrow> flush_service wr now s n = Some n1 \<Longrightarrow> get_client n1 c = Some cl"
  obtains n' where "moveNetClient wr now c (Some t) n = Some n'" "net_inv n'" "map_option cl_service (get_client n' c) = Some (Some t)"
proof (cases "cl_service cl")
  case None
  then show thesis
    using attach_client [of "\<lambda>_. 0" n c cl t wr now] that inv c t by (auto simp: moveNetClient_def net_inv_def)
next
  case (Some s)
  show thesis
  proof (cases "s = t")
    case True
    then show thesis using that [of n] Some c inv by (simp add: moveNetClient_def)
  next
    case False
    have I: "clients_inv (\<lambda>_. 0) n" "writers_inv n" using inv by (simp_all add: net_inv_def)
    have s: "s < length (services n)" by (rule clients_inv_service(1) [OF I(1) c Some])
    obtain n1 where n1: "flush_service wr now s n = Some n1" "flushed (\<lambda>_. 0) (Some s) n n1"
      using flush_service_Some [OF I s] by blast
    have c1: "get_client n1 c = Some cl" by (rule ok [OF Some False n1(1)])
    have L: "length (services n1) = length (services n)" using n1(2) map_nth_length unfolding flushed_def by blast
    let ?n = "n1\<lparr>services := (services n1)[s := connections_update (\<lambda>k. k - 1) (services n1 ! s)]\<rparr>"
    have J: "clients_inv ((\<lambda>_. 0)(s := -1)) ?n" "writers_inv ?n"
      using n1(2) s L clients_inv_adjust [of "\<lambda>_. 0" n1 s "-1"] writers_inv_adjust [of n1 s "\<lambda>k. k - 1"]
      by (simp_all add: flushed_def)
    have "upd_service s (connections_update (\<lambda>k. k - 1)) n1 = Some ?n" using s L by (simp add: upd_service_Some)
    then have run: "moveNetClient wr now c (Some t) n =
        do { n \<leftarrow> flush_service wr now t ?n; n \<leftarrow> upd_service t (connections_update (\<lambda>k. k + 1)) n;
          Some (upd_client c (\<lambda>cl. cl\<lparr>cl_service := Some t\<rparr>) n) }"
      using c Some False n1(1) c1 by (simp add: moveNetClient_def)
    show thesis
      by (rule attach_client [OF J, of c cl t wr now]) (use that run c1 Some False t L in auto)
  qed
qed

text \<open>The other operations on clients and services.\<close>

lemma net_invI: "clients_inv (\<lambda>_. 0) n \<Longrightarrow> writers_inv n \<Longrightarrow> net_inv n"
  by (simp add: net_inv_def)

lemma createGenericClient_Some:
  assumes inv: "net_inv n" and t: "t < length (services n)" "new_fd \<noteq> -1"
  obtains c n' where "createGenericClient wr now junk (Some t) new_fd n = Some (c, n')" "net_inv n'"
    "map_option cl_service (get_client n' c) = Some (Some t)"
proof -
  let ?cl = "\<lparr>fd = new_fd, cl_service = None, buflen = 0, buf = junk, modeac_requested = False\<rparr>"
  let ?n = "n\<lparr>clients := (next_pointer n, ?cl) # clients n, next_pointer := next_pointer n + 1\<rparr>"
  have "next_pointer n \<notin> set (pointers n)" using inv unfolding net_inv_def clients_inv_def by blast
  then have "clients_inv (\<lambda>_. 0) ?n" using inv t unfolding net_inv_def clients_inv_def in_service_def by auto
  moreover have "writers_inv ?n" using inv writers_inv_cong [of ?n n] by (simp add: net_inv_def)
  ultimately have I: "net_inv ?n" by (rule net_invI)
  obtain n' where "moveNetClient wr now (next_pointer n) (Some t) ?n = Some n'" "net_inv n'"
      "map_option cl_service (get_client n' (next_pointer n)) = Some (Some t)"
    by (rule moveNetClient_Some [OF I, of "next_pointer n" ?cl t wr now]) (use t in auto)
  then show thesis using that by (simp add: createGenericClient_def Let_def)
qed

lemma prune_clients_inv:
  assumes "net_inv n"
  shows "net_inv (prune_clients n)"
proof (rule net_invI)
  have eq: "in_service s (prune_clients n) = in_service s n" for s
  proof -
    have "\<forall>x\<in>set (clients n). (\<lambda>(p, cl). cl_service cl = Some s) x \<longrightarrow> (\<lambda>(p, cl). fd cl \<noteq> -1) x"
      using assms unfolding net_inv_def clients_inv_def by fastforce
    then have "filter (\<lambda>(p, cl). cl_service cl = Some s) (filter (\<lambda>(p, cl). fd cl \<noteq> -1) (clients n)) =
        filter (\<lambda>(p, cl). cl_service cl = Some s) (clients n)"
      unfolding filter_filter by (intro filter_cong) auto
    then show ?thesis by (simp add: in_service_def prune_clients_def)
  qed
  have "distinct (pointers (prune_clients n))"
    using assms by (simp add: net_inv_def clients_inv_def prune_clients_def distinct_map_filter)
  then show "clients_inv (\<lambda>_. 0) (prune_clients n)"
    using assms unfolding net_inv_def clients_inv_def eq by (auto simp: prune_clients_def)
  show "writers_inv (prune_clients n)"
    using assms writers_inv_cong [of "prune_clients n" n] by (simp add: net_inv_def prune_clients_def)
qed

lemma autoset_modeac_inv: "net_inv (autoset_modeac n) = net_inv n"
proof -
  have "clients_inv adj (autoset_modeac n) = clients_inv adj n" for adj by (simp add: clients_inv_def in_service_def)
  moreover have "writers_inv (autoset_modeac n) = writers_inv n" by (rule writers_inv_cong) simp_all
  ultimately show ?thesis by (simp add: net_inv_def)
qed

lemma upd_client_inv:
  assumes inv: "net_inv n" and f: "\<And>cl. cl_service (f cl) = cl_service cl" "\<And>cl. fd (f cl) = fd cl"
  shows "net_inv (upd_client c f n)"
proof (rule net_invI)
  have I: "clients_inv (\<lambda>_. 0) n" "writers_inv n" using inv by (simp_all add: net_inv_def)
  show "clients_inv (\<lambda>_. 0) (upd_client c f n)"
  proof (cases "get_client n c")
    case None
    then have "clients (upd_client c f n) = clients n"
      unfolding upd_client_def map_of_eq_None_iff by (force intro!: map_idI)
    then show ?thesis using I(1) by (simp add: clients_inv_def in_service_def)
  next
    case (Some cl)
    have "(cl_service cl = Some t \<longrightarrow> t < length (services n)) \<and> (fd cl = -1 \<longrightarrow> cl_service cl = None)" for t
      using I(1) map_of_SomeD [OF Some] unfolding clients_inv_def by blast
    then have "clients_inv (\<lambda>_. 0) (upd_client c f (n\<lparr>services := services n\<rparr>))"
      by (intro clients_inv_upd_client [OF I(1) Some]) (simp_all add: f)
    then show ?thesis by simp
  qed
  show "writers_inv (upd_client c f n)" using I(2) writers_inv_cong [of "upd_client c f n" n] by simp
qed

lemma serviceInit_inv:
  assumes inv: "net_inv n" and w: "\<And>v. w = Some v \<Longrightarrow> w_service (writers n v) = None"
    and run: "serviceInit now w hb mode sep h n = (s, n')"
  shows "net_inv n'"
proof (rule net_invI)
  let ?sv = "\<lparr>connections = 0, sv_writer = w, read_sep = sep, read_mode = mode, read_handler = h\<rparr>"
  let ?n = "n\<lparr>services := services n @ [?sv]\<rparr>"
  let ?f = "\<lambda>x. x\<lparr>w_service := Some (length (services n)), w_data := Some (replicate MODES_OUT_BUF_SIZE 0),
      dataUsed := 0, lastWrite := now, send_heartbeat := hb\<rparr>"
  have n': "n' = (case w of None \<Rightarrow> ?n | Some v \<Rightarrow> upd_writer v ?f ?n)" using run by (auto simp: serviceInit_def Let_def split: option.splits)
  have "in_service (length (services n)) n = 0"
  proof -
    have "\<forall>x\<in>set (clients n). \<not> (\<lambda>(p, cl). cl_service cl = Some (length (services n))) x"
      using inv unfolding net_inv_def clients_inv_def by fastforce
    then show ?thesis by (simp add: in_service_def filter_False)
  qed
  then have "clients_inv (\<lambda>_. 0) ?n"
    using inv unfolding net_inv_def clients_inv_def by (auto simp: nth_append less_Suc_eq)
  then show "clients_inv (\<lambda>_. 0) n'" unfolding n' by (cases w) simp_all
  have W: "writers_inv n" using inv by (simp add: net_inv_def)
  show "writers_inv n'"
    unfolding writers_inv_def
  proof (intro conjI allI impI)
    fix t v assume t: "t < length (services n')" "sv_writer (services n' ! t) = Some v"
    have sv: "services n' = services n @ [?sv]" unfolding n' by (simp split: option.split)
    show "w_service (writers n' v) = Some t"
    proof (cases "t < length (services n)")
      case True
      then have "w_service (writers n v) = Some t" using t sv writers_inv_service [OF W, of t v] by (simp add: nth_append)
      then show ?thesis using w [of v] unfolding n' by (auto split: option.split)
    next
      case False
      then have "t = length (services n)" using t(1) sv by simp
      then show ?thesis using t(2) sv unfolding n' by (auto split: option.split)
    qed
  next
    have sv: "services n' = services n @ [?sv]" unfolding n' by (simp split: option.split)
    fix v t assume "w_service (writers n' v) = Some t"
    then have "w = Some v \<and> t = length (services n) \<or> w \<noteq> Some v \<and> w_service (writers n v) = Some t"
      unfolding n' by (auto split: option.splits if_splits)
    then have "(t < length (services n') \<and> (\<exists>data. w_data (writers n' v) = Some data \<and> length data = MODES_OUT_BUF_SIZE)) \<and>
        dataUsed (writers n' v) \<le> MODES_OUT_BUF_SIZE"
    proof
      assume "w = Some v \<and> t = length (services n)"
      then show ?thesis unfolding n' by simp
    next
      assume v: "w \<noteq> Some v \<and> w_service (writers n v) = Some t"
      then have same: "writers n' v = writers n v" unfolding n' by (cases w) auto
      from writers_inv_writer [OF W conjunct2 [OF v]] show ?thesis unfolding same sv by (metis length_append trans_less_add1)
    qed
    then show "t < length (services n')" "\<exists>data. w_data (writers n' v) = Some data \<and> length data = MODES_OUT_BUF_SIZE"
      "dataUsed (writers n' v) \<le> MODES_OUT_BUF_SIZE" by auto
  qed
qed

text \<open>Writing to a buffer never leaves it.\<close>

lemma flushWrites_inv:
  assumes "net_inv n"
  obtains n' where "flushWrites wr now w n = Some n'" "net_inv n'" "dataUsed (writers n' w) = 0" "w_service (writers n' w) = w_service (writers n w)"
proof -
  have I: "clients_inv (\<lambda>_. 0) n" "writers_inv n" using assms by (simp_all add: net_inv_def)
  show thesis by (rule flushWrites_Some [OF I, of wr now w]) (use that in \<open>auto simp: flushed_def net_inv_def\<close>)
qed

lemma prepareWrite_Some:
  assumes "net_inv n"
  obtains p n' where "prepareWrite wr now w len n = Some (p, n')" "net_inv n'"
    "\<And>k. p = Some k \<Longrightarrow> k + len \<le> MODES_OUT_BUF_SIZE \<and> w_service (writers n' w) \<noteq> None"
proof (cases "w_service (writers n w)")
  case None
  then show thesis using that [of None n] assms by (simp add: prepareWrite_def)
next
  case (Some s)
  have W: "writers_inv n" using assms by (simp add: net_inv_def)
  from writers_inv_writer [OF W Some] have s: "s < length (services n)" by blast
  show thesis
  proof (cases "connections (services n ! s) = 0 \<or> w_data (writers n w) = None \<or> len > MODES_OUT_BUF_SIZE")
    case True
    then show thesis using that [of None n] assms s Some by (simp add: prepareWrite_def)
  next
    case go: False
    obtain n1 where n1: "flushWrites wr now w n = Some n1" "net_inv n1" "dataUsed (writers n1 w) = 0" "w_service (writers n1 w) = Some s"
      using flushWrites_inv [OF assms, of wr now w] Some by metis
    show thesis
    proof (cases "dataUsed (writers n w) + len \<ge> MODES_OUT_BUF_SIZE")
      case True
      then show thesis using that [of "Some 0" n1] go n1 s Some by (simp add: prepareWrite_def)
    next
      case False
      then show thesis using that [of "Some (dataUsed (writers n w))" n] go s Some assms by (simp add: prepareWrite_def)
    qed
  qed
qed

lemma write_bytes_Some:
  assumes "net_inv n" "w_service (writers n w) \<noteq> None" "p + length bs \<le> MODES_OUT_BUF_SIZE"
  obtains n' where "write_bytes w p bs n = Some n'" "net_inv n'" "w_service (writers n' w) \<noteq> None"
proof -
  obtain s where s: "w_service (writers n w) = Some s" using assms(2) by blast
  have W: "writers_inv n" using assms by (simp add: net_inv_def)
  from writers_inv_writer [OF W s] obtain d where d: "w_data (writers n w) = Some d" "length d = MODES_OUT_BUF_SIZE" by blast
  let ?n = "upd_writer w (\<lambda>x. x\<lparr>w_data := Some (take p d @ bs @ drop (p + length bs) d)\<rparr>) n"
  have "writers_inv ?n" by (rule writers_inv_upd_writer [OF W]) (use d assms(3) in simp_all)
  then have "net_inv ?n" using assms(1) by (simp add: net_inv_def)
  moreover have "write_bytes w p bs n = Some ?n" using d assms(3) by (simp add: write_bytes_def c_simps)
  ultimately show thesis using that [of ?n] s by simp
qed

lemma completeWrite_Some:
  assumes "net_inv n" "k \<le> MODES_OUT_BUF_SIZE"
  obtains n' where "completeWrite wr now w k n = Some n'" "net_inv n'"
proof -
  have W: "writers_inv n" using assms by (simp add: net_inv_def)
  have "writers_inv (upd_writer w (\<lambda>x. x\<lparr>dataUsed := k\<rparr>) n)" by (rule writers_inv_upd_writer [OF W]) (use assms(2) in simp_all)
  then have I: "net_inv (upd_writer w (\<lambda>x. x\<lparr>dataUsed := k\<rparr>) n)" using assms(1) by (simp add: net_inv_def)
  obtain n' where n': "flushWrites wr now w (upd_writer w (\<lambda>x. x\<lparr>dataUsed := k\<rparr>) n) = Some n'" "net_inv n'"
    using flushWrites_inv [OF I] by metis
  show thesis
  proof (cases "net_output_flush_size (upd_writer w (\<lambda>x. x\<lparr>dataUsed := k\<rparr>) n) \<le> k")
    case True
    then show thesis using that [of n'] n' by (simp add: completeWrite_def Let_def)
  next
    case False
    then show thesis using that I by (simp add: completeWrite_def Let_def)
  qed
qed

lemma length_put_escaped: "length (put_escaped bs) \<le> 2 * length bs"
  by (induction bs) (auto simp: put_escaped_def)

lemma length_timestamp_bytes [simp]: "length (timestamp_bytes t) = 6"
  by (simp add: timestamp_bytes_def)

lemma length_strip_zeros: "length (strip_zeros k xs) \<le> length xs"
  by (induction k xs rule: strip_zeros.induct) auto

lemma length_concat_hex_byte [simp]: "length (concat (List.map hex_byte bs)) = 2 * length bs"
  by (induction bs) (auto simp: hex_byte_def)

lemma length_raw_line: "length (raw_line mlat t bs) \<le> 2 * length bs + 15"
  by (auto simp: raw_line_def hex_timestamp_def)

text \<open>A writer that reserves enough for its bytes runs through.\<close>

lemma queue_Some:
  assumes "net_inv n" "prepareWrite wr now w len n = Some (Some p, n1)" "length bs \<le> len"
  obtains n2 n3 where "write_bytes w p bs n1 = Some n2" "net_inv n2" "completeWrite wr now w (p + length bs) n2 = Some n3" "net_inv n3"
proof -
  obtain q n' where "prepareWrite wr now w len n = Some (q, n')" "net_inv n'"
    "\<And>k. q = Some k \<Longrightarrow> k + len \<le> MODES_OUT_BUF_SIZE \<and> w_service (writers n' w) \<noteq> None"
    using prepareWrite_Some [OF assms(1), of wr now w len] by metis
  then have p: "net_inv n1" "p + len \<le> MODES_OUT_BUF_SIZE" "w_service (writers n1 w) \<noteq> None" using assms(2) by auto
  have fits: "p + length bs \<le> MODES_OUT_BUF_SIZE" using p(2) assms(3) by simp
  obtain n2 where n2: "write_bytes w p bs n1 = Some n2" "net_inv n2"
    using write_bytes_Some [OF p(1,3) fits] by metis
  obtain n3 where "completeWrite wr now w (p + length bs) n2 = Some n3" "net_inv n3"
    using completeWrite_Some [OF n2(2) fits] by metis
  with n2 show thesis using that by metis
qed

lemma queue_bytes_Some:
  assumes "net_inv n" "length bs \<le> len"
  shows "\<exists>n'. queue_bytes wr now w len bs n = Some n' \<and> net_inv n'"
proof -
  obtain q n1 where q: "prepareWrite wr now w len n = Some (q, n1)" "net_inv n1"
    using prepareWrite_Some [OF assms(1), of wr now w len] by metis
  show ?thesis
  proof (cases q)
    case None
    then show ?thesis using q by (simp add: queue_bytes_def)
  next
    case (Some p)
    then obtain n2 n3 where "write_bytes w p bs n1 = Some n2" "completeWrite wr now w (p + length bs) n2 = Some n3" "net_inv n3"
      using queue_Some [OF assms(1) _ assms(2)] q(1) by metis
    then show ?thesis using q(1) Some by (simp add: queue_bytes_def)
  qed
qed

lemma writeBeastMessage_Some:
  assumes "net_inv n" "msgLen \<le> length m"
  shows "\<exists>n'. writeBeastMessage wr now sqrt_f w ts level m msgLen n = Some n' \<and> net_inv n'"
proof -
  let ?bs = "\<lambda>t. beast_frame t (timestamp_bytes ts @ [signal_byte sqrt_f level] @ take msgLen m)"
  let ?len = "2 + 2 * (7 + msgLen)"
  have fits: "length (?bs t) \<le> ?len" for t
    using length_put_escaped [of "timestamp_bytes ts @ [signal_byte sqrt_f level] @ take msgLen m"] assms(2)
    by (simp add: beast_frame_def min_absorb2)
  obtain q n1 where q: "prepareWrite wr now w ?len n = Some (q, n1)" "net_inv n1"
    using prepareWrite_Some [OF assms(1), of wr now w ?len] by metis
  show ?thesis
  proof (cases q)
    case None
    then show ?thesis using q by (simp add: writeBeastMessage_def)
  next
    case (Some p)
    show ?thesis
    proof (cases "beast_type msgLen")
      case None
      obtain n2 where "write_bytes w p [ESC] n1 = Some n2" "net_inv n2"
        using queue_Some [OF assms(1), of wr now w ?len p n1 "[ESC]"] q(1) Some by auto
      then show ?thesis using q(1) Some None by (simp add: writeBeastMessage_def)
    next
      case (Some t)
      obtain n2 n3 where "write_bytes w p (?bs t) n1 = Some n2" "completeWrite wr now w (p + length (?bs t)) n2 = Some n3" "net_inv n3"
        using queue_Some [OF assms(1) _ fits] q(1) \<open>q = Some p\<close> by metis
      then show ?thesis using q(1) \<open>q = Some p\<close> Some assms(2) by (simp add: writeBeastMessage_def c_simps Let_def)
    qed
  qed
qed

lemma modesSendRawOutput_Some:
  assumes "net_inv n" "nat (msgbits mm div 8) \<le> length (msg mm)"
  shows "\<exists>n'. modesSendRawOutput wr now mlat a_reliable mm n = Some n' \<and> net_inv n'"
proof -
  let ?k = "nat (msgbits mm div 8)"
  have "length (raw_line mlat (timestampMsg mm) (take ?k (msg mm))) \<le> ?k * 2 + 15"
    using length_raw_line [of mlat "timestampMsg mm" "take ?k (msg mm)"] assms(2) by (simp add: min_absorb2)
  from queue_bytes_Some [OF assms(1) this, of wr now RawOut] show ?thesis
    using assms by (auto simp: modesSendRawOutput_def Let_def c_simps)
qed

subsection \<open>Every state the network layer reaches\<close>

text \<open>The operations of the network layer; a step that follows a null pointer has no successor.\<close>

inductive net_step :: "write_result \<Rightarrow> net \<Rightarrow> net \<Rightarrow> bool" for wr where
  service: "(\<And>v. w = Some v \<Longrightarrow> w_service (writers n v) = None) \<Longrightarrow> serviceInit now w hb mode sep h n = (s, n') \<Longrightarrow> net_step wr n n'"
| connect: "s < length (services n) \<Longrightarrow> new_fd \<noteq> -1 \<Longrightarrow> createGenericClient wr now junk (Some s) new_fd n = Some (c, n') \<Longrightarrow> net_step wr n n'"
| close: "c \<in> set (pointers n) \<Longrightarrow> modesCloseClient c n = Some n' \<Longrightarrow> net_step wr n n'"
| beast: "msgLen \<le> length m \<Longrightarrow> writeBeastMessage wr now sqrt_f w ts level m msgLen n = Some n' \<Longrightarrow> net_step wr n n'"
| raw: "nat (msgbits mm div 8) \<le> length (msg mm) \<Longrightarrow> modesSendRawOutput wr now mlat a_reliable mm n = Some n' \<Longrightarrow> net_step wr n n'"
| command: "get_client n c = Some cl \<Longrightarrow> cl_service cl \<noteq> None \<Longrightarrow> beast_cooked_service n < length (services n) \<Longrightarrow>
    beast_verbatim_service n < length (services n) \<Longrightarrow> handleBeastCommand wr now c p0 p1 n = Some n' \<Longrightarrow> net_step wr n n'"
| flush: "flushWrites wr now w n = Some n' \<Longrightarrow> net_step wr n n'"
| prune: "net_step wr n (prune_clients n)"

definition net_start :: "net \<Rightarrow> bool" where
  "net_start n \<longleftrightarrow> clients n = [] \<and> services n = [] \<and> (\<forall>w. w_service (writers n w) = None)"

lemma modesCloseClient_inv:
  assumes "net_inv n" "c \<in> set (pointers n)" "modesCloseClient c n = Some n'"
  shows "net_inv n'"
proof -
  have I: "clients_inv (\<lambda>_. 0) n" "writers_inv n" using assms by (simp_all add: net_inv_def)
  from modesCloseClient_Some [OF I(1) assms(2)] I(2) assms(3) show ?thesis
    by (metis net_invI option.inject writers_inv_only_closes)
qed

text \<open>A move that ends keeps the invariant: had the client been closed, it would have faulted.\<close>

lemma moveNetClient_inv:
  assumes inv: "net_inv n" and c: "get_client n c = Some cl" "cl_service cl \<noteq> None" and t: "t < length (services n)"
    and run: "moveNetClient wr now c (Some t) n = Some n'"
  shows "net_inv n'"
proof -
  have I: "clients_inv (\<lambda>_. 0) n" "writers_inv n" using inv by (simp_all add: net_inv_def)
  have ok: "get_client n1 c = Some cl" if "cl_service cl = Some s" "s \<noteq> t" "flush_service wr now s n = Some n1" for s n1
  proof -
    have s: "s < length (services n)" by (rule clients_inv_service(1) [OF I(1) c(1) that(1)])
    obtain n2 where "flush_service wr now s n = Some n2" "flushed (\<lambda>_. 0) (Some s) n n2" using flush_service_Some [OF I s] by blast
    then have F: "flushed (\<lambda>_. 0) (Some s) n n1" using that(3) by simp
    have "(get_client n1 c \<bind> cl_service) \<noteq> None"
    proof
      assume "(get_client n1 c \<bind> cl_service) = None"
      then have "moveNetClient wr now c (Some t) n = None"
        using c(1) that by (cases "get_client n1 c") (simp_all add: moveNetClient_def)
      with run show False by simp
    qed
    then obtain cl' s' where "get_client n1 c = Some cl'" "cl_service cl' = Some s'" by (auto elim: bind_eq_SomeE)
    then show ?thesis using F c unfolding flushed_def by fastforce
  qed
  have "fd cl \<noteq> -1" using clients_inv_service(3) [OF I(1) c(1)] c(2) by blast
  then obtain n2 where "moveNetClient wr now c (Some t) n = Some n2" "net_inv n2"
    using ok by (rule moveNetClient_Some [OF inv c(1) t])
  with run show ?thesis by simp
qed

lemma net_step_inv: "net_step wr n n' \<Longrightarrow> net_inv n \<Longrightarrow> net_inv n'"
proof (induction rule: net_step.induct)
  case (service w n now hb mode sep h s n')
  from serviceInit_inv [OF service.prems service.hyps] show ?case .
next
  case (connect s n new_fd now junk c n')
  then show ?case using createGenericClient_Some [OF connect.prems connect.hyps(1,2), of wr now junk] by auto
next
  case (close c n n')
  then show ?case using modesCloseClient_inv by blast
next
  case (beast msgLen m now sqrt_f w ts level n n')
  then show ?case using writeBeastMessage_Some [of n msgLen m wr now sqrt_f w ts level] by auto
next
  case (raw mm now mlat a_reliable n n')
  then show ?case using modesSendRawOutput_Some [of n mm wr now mlat a_reliable] by auto
next
  case (command n c cl now p0 p1 n')
  then show ?case
    by (auto simp: handleBeastCommand_def autoset_modeac_inv upd_client_inv split: if_splits intro: moveNetClient_inv)
next
  case (flush now w n n')
  then show ?case using flushWrites_inv [of n wr now w] by auto
next
  case (prune n)
  then show ?case by (rule prune_clients_inv)
qed

lemma net_reachable_inv: "(net_step wr)\<^sup>*\<^sup>* n0 n \<Longrightarrow> net_start n0 \<Longrightarrow> net_inv n"
proof (induction rule: rtranclp_induct)
  case base
  then show ?case by (simp add: net_start_def net_inv_def clients_inv_def writers_inv_def)
next
  case (step n n')
  then show ?case using net_step_inv by blast
qed

lemma in_service_card:
  assumes "clients_inv adj n"
  shows "in_service s n = card {c. \<exists>cl. get_client n c = Some cl \<and> cl_service cl = Some s}"
proof -
  let ?xs = "filter (\<lambda>(p, cl). cl_service cl = Some s) (clients n)"
  have d: "distinct (pointers n)" using assms by (simp add: clients_inv_def)
  then have "distinct (List.map fst ?xs)" by (rule distinct_map_filter)
  then have "in_service s n = card (fst ` set ?xs)" by (metis distinct_card in_service_def length_map list.set_map)
  also have "fst ` set ?xs = {c. \<exists>cl. get_client n c = Some cl \<and> cl_service cl = Some s}"
    using d by (force simp: map_of_eq_Some_iff)
  finally show ?thesis .
qed

subsection \<open>Properties\<close>

text \<open>
  C27. Invariant: in every state the network layer reaches, the connection counter of each service is
  the number of its clients, and every write buffer has room for what is written next: the message writers
  and the heartbeats of that state run through without leaving their buffer.
\<close>

theorem net_counts_and_buffers:
  assumes "(net_step wr)\<^sup>*\<^sup>* n0 n" "net_start n0"
  shows "(\<forall>s<length (services n). connections (services n ! s) = int (card {c. \<exists>cl. get_client n c = Some cl \<and> cl_service cl = Some s})) \<and>
    (\<forall>w. w_service (writers n w) \<noteq> None \<longrightarrow> dataUsed (writers n w) \<le> MODES_OUT_BUF_SIZE) \<and>
    (\<forall>now sqrt_f w ts level m msgLen. msgLen \<le> length m \<longrightarrow> writeBeastMessage wr now sqrt_f w ts level m msgLen n \<noteq> None) \<and>
    (\<forall>now mlat a_reliable mm. nat (msgbits mm div 8) \<le> length (msg mm) \<longrightarrow> modesSendRawOutput wr now mlat a_reliable mm n \<noteq> None) \<and>
    (\<forall>now s. s < length (services n) \<longrightarrow> send_beast_heartbeat wr now s n \<noteq> None \<and> send_raw_heartbeat wr now s n \<noteq> None)"
proof (intro conjI allI impI)
  have inv: "net_inv n" by (rule net_reachable_inv [OF assms])
  then have I: "clients_inv (\<lambda>_. 0) n" "writers_inv n" by (simp_all add: net_inv_def)
  fix s assume "s < length (services n)"
  then show "connections (services n ! s) = int (card {c. \<exists>cl. get_client n c = Some cl \<and> cl_service cl = Some s})"
    using I(1) unfolding in_service_card [OF I(1), symmetric] by (simp add: clients_inv_def)
next
  fix w assume "w_service (writers n w) \<noteq> None"
  then obtain s where "w_service (writers n w) = Some s" by blast
  then show "dataUsed (writers n w) \<le> MODES_OUT_BUF_SIZE"
    using net_reachable_inv [OF assms] writers_inv_writer unfolding net_inv_def by blast
next
  fix now sqrt_f w ts level m msgLen assume "msgLen \<le> length (m :: u8 list)"
  then show "writeBeastMessage wr now sqrt_f w ts level m msgLen n \<noteq> None"
    using writeBeastMessage_Some [OF net_reachable_inv [OF assms]] by blast
next
  fix now mlat a_reliable and mm :: modesMessage assume "nat (msgbits mm div 8) \<le> length (msg mm)"
  then show "modesSendRawOutput wr now mlat a_reliable mm n \<noteq> None"
    using modesSendRawOutput_Some [OF net_reachable_inv [OF assms]] by blast
next
  fix now s assume s: "s < length (services n)"
  have q: "queue_bytes wr now w 11 beast_heartbeat_message n \<noteq> None" "queue_bytes wr now w 7 raw_heartbeat_message n \<noteq> None" for w
    using queue_bytes_Some [OF net_reachable_inv [OF assms], of beast_heartbeat_message 11]
      queue_bytes_Some [OF net_reachable_inv [OF assms], of raw_heartbeat_message 7]
    by (fastforce simp: beast_heartbeat_message_def raw_heartbeat_message_def)+
  show "send_beast_heartbeat wr now s n \<noteq> None"
    unfolding send_beast_heartbeat_def using s q(1) by (cases "sv_writer (services n ! s)") simp_all
  show "send_raw_heartbeat wr now s n \<noteq> None"
    unfolding send_raw_heartbeat_def using s q(2) by (cases "sv_writer (services n ! s)") simp_all
qed

definition example_writer :: net_writer where
  "example_writer = \<lparr>w_service = None, w_data = None, dataUsed = 0, lastWrite = 0, send_heartbeat = None\<rparr>"

definition example_start :: net where
  "example_start = \<lparr>clients = [], next_pointer = 1, services = [], writers = (\<lambda>_. example_writer), beast_cooked_service = 0,
     beast_verbatim_service = 0, mode_ac = False, mode_ac_auto = False, net_output_flush_size = 1244, sent = []\<rparr>"

definition example_service :: net where
  "example_service = snd (serviceInit 0 (Some RawOut) (Some SendRawHeartbeat) READ_MODE_IGNORE [] None example_start)"

theorem net_counts_and_buffers_witness:
  "\<exists>c n. createGenericClient (\<lambda>h. int (length (snd (last h)))) 0 (replicate 1025 0) (Some 0) 5 example_service = Some (c, n) \<and>
    (\<forall>s<length (services n). connections (services n ! s) = int (card {c. \<exists>cl. get_client n c = Some cl \<and> cl_service cl = Some s})) \<and>
    (\<forall>now sqrt_f w ts level. writeBeastMessage (\<lambda>h. int (length (snd (last h)))) now sqrt_f w ts level (replicate 14 0x1a) 14 n \<noteq> None)"
proof -
  let ?wr = "\<lambda>h :: (int \<times> u8 list) list. int (length (snd (last h)))"
  have start: "net_start example_start" by (simp add: net_start_def example_start_def example_writer_def)
  have "serviceInit 0 (Some RawOut) (Some SendRawHeartbeat) READ_MODE_IGNORE [] None example_start = (0, example_service)"
    by (simp add: example_service_def serviceInit_def example_start_def Let_def)
  then have 1: "net_step ?wr example_start example_service"
    by (rule net_step.service [rotated]) (simp add: example_start_def example_writer_def)
  have len: "length (services example_service) = 1" by (simp add: example_service_def serviceInit_def example_start_def Let_def)
  obtain c n where c: "createGenericClient ?wr 0 (replicate 1025 0) (Some 0) 5 example_service = Some (c, n)"
    by (rule createGenericClient_Some [OF net_step_inv [OF 1 net_reachable_inv [OF rtranclp.rtrancl_refl start]], of 0 5 ?wr 0 "replicate 1025 0"])
      (simp_all add: len)
  then have "net_step ?wr example_service n" by (rule net_step.connect [rotated 2]) (simp_all add: len)
  with 1 have "(net_step ?wr)\<^sup>*\<^sup>* example_start n" by (meson converse_rtranclp_into_rtranclp rtranclp.rtrancl_refl)
  from net_counts_and_buffers [OF this start] c show ?thesis by simp
qed

text \<open>
  C28. Error: a client that asks for verbatim output while its own write fails is closed by the flush that
  precedes the move, and \<^verbatim>\<open>moveNetClient\<close> then decrements the counter of a null service: the run faults. If
  every write is complete the move succeeds and keeps the invariant.
\<close>

theorem handleBeastCommand_null_service:
  assumes "net_inv n" "get_client n c = Some cl" "cl_service cl = Some s" "s \<noteq> beast_verbatim_service n"
    and "beast_verbatim_service n < length (services n)" "sv_writer (services n ! s) = Some w"
  shows "((\<forall>h d. wr (h @ [(fd cl, d)]) \<noteq> int (length d)) \<longrightarrow> handleBeastCommand wr now c 0x31 0x56 n = None) \<and>
    ((\<forall>h f d. wr (h @ [(f, d)]) = int (length d)) \<longrightarrow> (\<exists>n'. handleBeastCommand wr now c 0x31 0x56 n = Some n' \<and> net_inv n' \<and>
       map_option cl_service (get_client n' c) = Some (Some (beast_verbatim_service n))))"
proof (intro conjI impI)
  have I: "clients_inv (\<lambda>_. 0) n" "writers_inv n" using assms(1) by (simp_all add: net_inv_def)
  have s: "s < length (services n)" "fd cl \<noteq> -1" using clients_inv_service [OF I(1) assms(2,3)] by auto
  have W: "w_service (writers n w) = Some s" by (rule writers_inv_service [OF I(2) s(1) assms(6)])
  have fl: "flush_service wr now s n = flushWrites wr now w n" using s(1) assms(6) by (simp add: flush_service_def)
  have run: "handleBeastCommand wr now c 0x31 0x56 n = moveNetClient wr now c (Some (beast_verbatim_service n)) n"
    by (simp add: handleBeastCommand_def)
  {
    assume short: "\<forall>h d. wr (h @ [(fd cl, d)]) \<noteq> int (length d)"
    obtain n1 where n1: "flush_clients wr w (pointers n) n = Some n1"
      using flush_clients_Some [OF I(1) order_refl writers_inv_ok [OF I(2)]] by blast
    have "c \<in> set (pointers n)" using assms(2) get_client_known [of n c] by simp
    then have "\<And>cl'. get_client n1 c = Some cl' \<Longrightarrow> cl_service cl' = None"
      using flush_clients_closes [OF I(1) order_refl writers_inv_ok [OF I(2)] _ assms(2) _ _ n1] W short assms(3) by auto
    then have "(get_client n1 c \<bind> cl_service) = None" by (cases "get_client n1 c") auto
    then show "handleBeastCommand wr now c 0x31 0x56 n = None"
      using assms(2-4) n1 unfolding run moveNetClient_def fl flushWrites_def by (cases "get_client n1 c") (simp_all add: fl flushWrites_def)
  next
    assume complete: "\<forall>h f d. wr (h @ [(f, d)]) = int (length d)"
    obtain h where "flush_clients wr w (pointers n) n = Some (n\<lparr>sent := h\<rparr>)"
      using flush_clients_complete [OF _ order_refl writers_inv_ok [OF I(2)], of wr] complete by blast
    then have "\<And>n1. flush_service wr now s n = Some n1 \<Longrightarrow> get_client n1 c = Some cl"
      using assms(2) unfolding fl flushWrites_def by auto
    then show "\<exists>n'. handleBeastCommand wr now c 0x31 0x56 n = Some n' \<and> net_inv n' \<and>
        map_option cl_service (get_client n' c) = Some (Some (beast_verbatim_service n))"
      unfolding run using moveNetClient_Some [OF assms(1,2,5) s(2), of wr now] assms(3) by (metis option.inject)
  }
qed

definition example_beast :: net where
  "example_beast = example_start\<lparr>
     clients := [(0, \<lparr>fd = 5, cl_service = Some 0, buflen = 0, buf = replicate 1025 0, modeac_requested = False\<rparr>)],
     services := [\<lparr>connections = 1, sv_writer = Some BeastCookedOut, read_sep = [], read_mode = READ_MODE_BEAST_COMMAND, read_handler = Some HandleBeastCommand\<rparr>,
       \<lparr>connections = 0, sv_writer = Some BeastVerbatimOut, read_sep = [], read_mode = READ_MODE_BEAST_COMMAND, read_handler = Some HandleBeastCommand\<rparr>],
     writers := (\<lambda>_. example_writer)(
       BeastCookedOut := example_writer\<lparr>w_service := Some 0, w_data := Some (replicate 1500 0), dataUsed := 23\<rparr>,
       BeastVerbatimOut := example_writer\<lparr>w_service := Some 1, w_data := Some (replicate 1500 0)\<rparr>),
     beast_verbatim_service := 1\<rparr>"

theorem handleBeastCommand_null_service_witness:
  "handleBeastCommand (\<lambda>h. -1) 0 0 0x31 0x56 example_beast = None"
proof -
  have "net_inv example_beast"
    by (auto simp: net_inv_def clients_inv_def writers_inv_def in_service_def example_beast_def example_start_def example_writer_def
        MODES_OUT_BUF_SIZE_def nth_Cons less_Suc_eq split: nat.splits if_splits)
  from handleBeastCommand_null_service [OF this, of 0 "snd (clients example_beast ! 0)" 0 BeastCookedOut "\<lambda>h. -1" 0]
  show ?thesis by (simp add: example_beast_def example_start_def)
qed

end
