(* ===== verification/NetRead.thy ===== *)
theory NetRead
  imports ModeS ModeAC NetIo
begin

text \<open>
  The input side of the network layer, translated from \<^verbatim>\<open>src/net_io.c\<close>: splitting what a client
  sends into messages (\<^verbatim>\<open>modesReadFromClient\<close>) and decoding a Beast or a hexadecimal message. A message handler
  gets the read buffer and the index its pointer argument points to. The bytes the kernel holds for a
  client are the segments \<open>pending\<close>: a \<^verbatim>\<open>read\<close> returns the first segment, or as much of it as was asked for.
\<close>

definition MODES_CLIENT_BUF_SIZE :: nat where
  "MODES_CLIENT_BUF_SIZE = 1024"

subsection \<open>Splitting the input into messages\<close>

definition memchr_esc :: "u8 list \<Rightarrow> nat \<Rightarrow> nat \<Rightarrow> nat option" where
  "memchr_esc b i j = List.find (\<lambda>k. b ! k = ESC) [i..<j]"

text \<open>The length of a message from its type on, as long as nothing in it is escaped.\<close>

definition beast_length :: "u8 \<Rightarrow> nat option" where
  "beast_length t =
     (if t = 0x31 then Some (2 + 8) else if t = 0x32 then Some (7 + 8)
      else if t = 0x33 \<or> t = 0x34 \<or> t = 0x35 then Some (14 + 8) else None)"

definition command_length :: "u8 \<Rightarrow> nat option" where
  "command_length t = (if t = 0x31 then Some 2 else None)"

function end_of_message :: "u8 list \<Rightarrow> nat \<Rightarrow> nat \<Rightarrow> nat \<Rightarrow> nat" where
  "end_of_message b eod p eom =
     (if p < eod \<and> p < eom
      then if b ! p = ESC then end_of_message b eod (p + 2) (eom + 1) else end_of_message b eod (p + 1) eom
      else eom)"
  by auto
termination by (relation "measure (\<lambda>(b, eod, p, eom). eod - p)") auto

declare end_of_message.simps [simp del]

type_synonym 's handler = "u8 list \<Rightarrow> nat \<Rightarrow> 's \<Rightarrow> (bool \<times> 's) option"

text \<open>The buffer, the first byte that was not processed, and the state; or the handler asked to close the client.\<close>

datatype 's scan = Processed "u8 list" nat 's | Closed 's

lemma memchr_esc_range: "memchr_esc b i j = Some q \<Longrightarrow> i \<le> q \<and> q < j \<and> b ! q = ESC"
  unfolding memchr_esc_def find_Some_iff by (auto simp del: upt.simps)

lemma end_of_message_ge: "eom \<le> end_of_message b eod p eom"
proof (induction b eod p eom rule: end_of_message.induct)
  case (1 b eod p eom)
  then show ?case using end_of_message.simps [of b eod p eom] by auto
qed

function scan_beast :: "(u8 \<Rightarrow> nat option) \<Rightarrow> 's handler \<Rightarrow> u8 list \<Rightarrow> nat \<Rightarrow> nat \<Rightarrow> 's \<Rightarrow> 's scan option" where
  "scan_beast len h b eod som s =
     (if som < eod then
        case memchr_esc b som eod of
          None \<Rightarrow> Some (Processed b som s)
        | Some q \<Rightarrow>
            if q + 1 \<ge> eod then Some (Processed b q s)
            else (case len (b ! (q + 1)) of
                None \<Rightarrow> scan_beast len h b eod (q + 1) s
              | Some k \<Rightarrow>
                  let eom = end_of_message b eod (q + 1) (q + 1 + k) in
                  if eom > eod then Some (Processed b q s)
                  else (case h b (q + 1) s of
                      None \<Rightarrow> None
                    | Some (close, s) \<Rightarrow> if close then Some (Closed s) else scan_beast len h b eod eom s))
      else Some (Processed b som s))"
  by pat_completeness auto
termination
proof (relation "measure (\<lambda>(len, h, b, eod, som, s). eod - som)", goal_cases)
  case (2 len h b eod som s q)
  then show ?case using memchr_esc_range [of b som eod q] by auto
next
  case (3 len h b eod som s q k eom x close s')
  then show ?case using memchr_esc_range [of b som eod q] end_of_message_ge [of "q + 1 + k" b eod "q + 1"] by auto
qed simp

declare scan_beast.simps [simp del]

text \<open>The first occurrence of the separator in the string at \<open>i\<close>; the search ends at the first NUL.\<close>

definition c_string :: "u8 list \<Rightarrow> nat \<Rightarrow> u8 list" where
  "c_string b i = takeWhile (\<lambda>x. x \<noteq> 0) (drop i b)"

definition strstr :: "u8 list \<Rightarrow> nat \<Rightarrow> u8 list \<Rightarrow> nat option" where
  "strstr b i sep = (let str = c_string b i in
     map_option (\<lambda>k. i + k) (List.find (\<lambda>k. take (length sep) (drop k str) = sep) [0..<length str + 1]))"

text \<open>With an empty separator the loop would not end; no service has one.\<close>

function scan_ascii :: "u8 list \<Rightarrow> 's handler \<Rightarrow> u8 list \<Rightarrow> nat \<Rightarrow> nat \<Rightarrow> 's \<Rightarrow> 's scan option" where
  "scan_ascii sep h b eod som s =
     (if sep = [] then None
      else if som < eod then
        case strstr b som sep of
          None \<Rightarrow> Some (Processed b som s)
        | Some p \<Rightarrow>
            (let b = b[p := 0] in
             case h b som s of
               None \<Rightarrow> None
             | Some (close, s) \<Rightarrow> if close then Some (Closed s) else scan_ascii sep h b eod (p + length sep) s)
      else Some (Processed b som s))"
  by pat_completeness auto
termination
proof (relation "measure (\<lambda>(sep, h, b, eod, som, s). eod - som)", goal_cases)
  case (2 sep h b eod som s p)
  then have "som \<le> p" by (auto simp: strstr_def Let_def)
  then show ?case using 2 by (cases sep) auto
qed simp

declare scan_ascii.simps [simp del]

subsection \<open>Reading from a client\<close>

datatype read_status = WouldBlock | EndOfFile | ReadError

record kernel =
  pending :: "u8 list list"
  at_end :: read_status

definition c_read :: "nat \<Rightarrow> kernel \<Rightarrow> (read_status + u8 list) \<times> kernel" where
  "c_read left k =
     (case pending k of
        [] \<Rightarrow> (Inl (at_end k), k)
      | [] # rest \<Rightarrow> (Inl EndOfFile, k\<lparr>pending := rest\<rparr>)
      | seg # rest \<Rightarrow> (Inr (take left seg),
          k\<lparr>pending := (if length seg \<le> left then rest else drop left seg # rest)\<rparr>))"

text \<open>The switch on the read mode; in the ASCII case the data is terminated first.\<close>

definition scan_input :: "read_mode_t \<Rightarrow> u8 list \<Rightarrow> 's handler \<Rightarrow> u8 list \<Rightarrow> nat \<Rightarrow> 's \<Rightarrow> 's scan option" where
  "scan_input mode sep h b eod s =
     (case mode of
        READ_MODE_IGNORE \<Rightarrow> Some (Processed b eod s)
      | READ_MODE_BEAST \<Rightarrow> scan_beast beast_length h b eod 0 s
      | READ_MODE_BEAST_COMMAND \<Rightarrow> scan_beast command_length h b eod 0 s
      | READ_MODE_ASCII \<Rightarrow> do { b \<leftarrow> arr_set b eod 0; scan_ascii sep h b eod 0 s })"

definition put_bytes :: "u8 list \<Rightarrow> nat \<Rightarrow> u8 list \<Rightarrow> u8 list option" where
  "put_bytes b p bs = (if p + length bs \<le> length b then Some (take p b @ bs @ drop (p + length bs) b) else None)"

definition move_down :: "u8 list \<Rightarrow> nat \<Rightarrow> nat \<Rightarrow> u8 list" where
  "move_down b som eod = take (eod - som) (drop som b) @ drop (eod - som) b"

text \<open>The room in the buffer; a full buffer is discarded.\<close>

definition room :: "nat \<Rightarrow> nat \<times> nat" where
  "room n = (let left = int MODES_CLIENT_BUF_SIZE - int n - 1 in
     if left \<le> 0 then (0, MODES_CLIENT_BUF_SIZE) else (n, nat left))"

text \<open>
  The loop: whether the client must be closed, the buffer with its fill, and the rest. \<open>mode_of\<close> follows
  \<^verbatim>\<open>c->service\<close> and is \<open>None\<close> where that pointer is null.
\<close>

function read_loop ::
    "('s \<Rightarrow> (read_mode_t \<times> u8 list) option) \<Rightarrow> 's handler \<Rightarrow> u8 list \<Rightarrow> nat \<Rightarrow> kernel \<Rightarrow> 's \<Rightarrow> (bool \<times> u8 list \<times> nat \<times> kernel \<times> 's) option" where
  "read_loop mode_of h b n k s =
     (let (n, left) = room n in
      case c_read left k of
        (Inl st, k') \<Rightarrow> Some (st \<noteq> WouldBlock, b, n, k', s)
      | (Inr bs, k') \<Rightarrow>
          (case (case put_bytes b n bs of
                   None \<Rightarrow> None
                 | Some b \<Rightarrow> (case mode_of s of None \<Rightarrow> None | Some (mode, sep) \<Rightarrow> scan_input mode sep h b (n + length bs) s)) of
             None \<Rightarrow> None
           | Some (Closed s) \<Rightarrow> Some (True, b, n, k', s)
           | Some (Processed b som s) \<Rightarrow>
               let eod = n + length bs in
               if som = 0 then Some (False, b, eod, k', s)
               else if length bs \<noteq> left then Some (False, move_down b som eod, eod - som, k', s)
               else read_loop mode_of h (move_down b som eod) (eod - som) k' s))"
  by pat_completeness auto
termination
proof (relation "measure (\<lambda>(m, h, b, n, k, s). sum_list (List.map length (pending k)))", goal_cases)
  case (2 mode_of h b n k s p n1 left r k' bs)
  then show ?case
    by (auto simp: c_read_def room_def Let_def MODES_CLIENT_BUF_SIZE_def split: list.splits if_splits prod.splits)
qed simp

declare read_loop.simps [simp del]

subsection \<open>Decoding a message\<close>

text \<open>
  What the handlers change: the network, the ICAO filter, the counters of received messages, the
  messages handed to \<^verbatim>\<open>useModesMessage\<close>, and the receiver position that a Radarcape reports.
\<close>

record rx =
  rx_net :: net
  rx_icao :: icao_filter
  remote_received_modeac :: u32
  remote_received_modes :: u32
  remote_rejected_bad :: u32
  remote_rejected_unknown_icao :: u32
  remote_accepted :: "u32 list"
  cpr_filtered :: nat
  used_messages :: "modesMessage list"
  user_position :: "(rat \<times> rat) option"
  position_updates :: "(rat \<times> rat \<times> rat) list"
  faup_rate_multiplier :: rat
  faup_upload_unknown_commb :: bool

text \<open>
  What the handlers are given: the tables, the time, what \<^verbatim>\<open>write\<close> returns, uninitialised memory and
  the number parsers of the C library.
\<close>

record rx_env =
  rx_modes :: mode_s_env
  rx_now :: u64
  rx_write :: write_result
  rx_msg_junk :: "u8 list"
  rx_score_junk :: "u8 list"
  rx_atof :: "u8 list \<Rightarrow> rat"
  rx_atoi :: "u8 list \<Rightarrow> int"

definition receive_modes :: "rx_env \<Rightarrow> modesMessage \<Rightarrow> u8 list \<Rightarrow> rx \<Rightarrow> rx option" where
  "receive_modes env mm m rx = do {
     let rx = rx\<lparr>remote_received_modes := remote_received_modes rx + 1\<rparr>;
     (result, mm, f, filtered) \<leftarrow> decodeModesMessage (rx_modes env) (rx_score_junk env) (rx_icao rx) mm (take 14 (m @ rx_msg_junk env));
     let rx = rx\<lparr>rx_icao := f, cpr_filtered := cpr_filtered rx + filtered\<rparr>;
     if result < 0 then
       Some (if result = -1 then rx\<lparr>remote_rejected_unknown_icao := remote_rejected_unknown_icao rx + 1\<rparr>
             else rx\<lparr>remote_rejected_bad := remote_rejected_bad rx + 1\<rparr>)
     else do {
       k \<leftarrow> arr_get (remote_accepted rx) (nat (correctedbits mm));
       accepted \<leftarrow> arr_set (remote_accepted rx) (nat (correctedbits mm)) (k + 1);
       Some (rx\<lparr>remote_accepted := accepted, used_messages := used_messages rx @ [mm]\<rparr>) } }"

definition receive_message :: "rx_env \<Rightarrow> u64 \<Rightarrow> rat \<Rightarrow> u8 list \<Rightarrow> rx \<Rightarrow> rx option" where
  "receive_message env ts level m rx =
     (let mm = zeroMessage\<lparr>remote := True, timestampMsg := ts, sysTimestampMsg := rx_now env, signalLevel := level\<rparr>
      in if length m = 2 then
           let mm = decodeModeAMessage (e_ac (rx_modes env)) mm ((push_bit 8 (ucast (m ! 0))) OR ucast (m ! 1))
           in Some (rx\<lparr>remote_received_modeac := remote_received_modeac rx + 1, used_messages := used_messages rx @ [mm]\<rparr>)
         else receive_modes env mm m rx)"

text \<open>Little-endian binary32; infinities and NaNs are \<open>None\<close>.\<close>

definition ieee754_binary32_le_to_float :: "u8 list \<Rightarrow> rat option" where
  "ieee754_binary32_le_to_float d =
     (let sign = (if d ! 3 AND 0x80 \<noteq> 0 then -1 else 1) :: rat;
          raw_exponent = push_bit 1 (uint (d ! 3 AND 0x7f)) OR drop_bit 7 (uint (d ! 2 AND 0x80));
          raw_significand = push_bit 16 (uint (d ! 2 AND 0x7f)) OR push_bit 8 (uint (d ! 1)) OR uint (d ! 0)
      in if raw_exponent = 0 then
           if raw_significand = 0 then Some 0 else Some (sign * of_int raw_significand * 2 powi (-126 - 23))
         else if raw_exponent = 255 then None
         else Some (sign * of_int ((2 ^ 23) OR raw_significand) * 2 powi (raw_exponent - 127 - 23)))"

definition handle_radarcape_position :: "rat option \<Rightarrow> rat option \<Rightarrow> rat option \<Rightarrow> rx \<Rightarrow> rx" where
  "handle_radarcape_position lat lon alt rx =
     (case (lat, lon, alt) of
        (Some lat, Some lon, Some alt) \<Rightarrow>
          if lat < -90 \<or> lat > 90 \<or> lon < -180 \<or> lon > 180 then rx
          else
            let rx = rx\<lparr>position_updates := position_updates rx @ [(lat, lon, alt)]\<rparr>
            in if user_position rx = None then rx\<lparr>user_position := Some (lat, lon)\<rparr> else rx
      | _ \<Rightarrow> rx)"

text \<open>The next \<open>n\<close> bytes, skipping the byte after each escape.\<close>

fun grab :: "nat \<Rightarrow> u8 list \<Rightarrow> (u8 list \<times> u8 list) option" where
  "grab 0 p = Some ([], p)"
| "grab (Suc n) [] = None"
| "grab (Suc n) (ch # p) = do {
     (bs, p) \<leftarrow> grab n (if ch = ESC then tl p else p);
     Some (ch # bs, p) }"

definition bytes_timestamp :: "u8 list \<Rightarrow> u64" where
  "bytes_timestamp bs = foldl (\<lambda>t ch. push_bit 8 t OR ucast ch) 0 bs"

definition signal_level :: "u8 \<Rightarrow> rat" where
  "signal_level ch = (let l = f64 (of_int (uint ch) / 255) in f64 (l * l))"

definition decodeBinMessage :: "rx_env \<Rightarrow> u8 list \<Rightarrow> rx \<Rightarrow> rx option" where
  "decodeBinMessage env p rx =
     (case p of
        [] \<Rightarrow> None
      | ch # p \<Rightarrow>
          let msgLen = (if ch = 0x31 \<and> mode_ac (rx_net rx) then 2 else if ch = 0x32 then 7 else if ch = 0x33 then 14 else 0)
          in if msgLen \<noteq> 0 then do {
               (ts, p) \<leftarrow> grab 6 p;
               (sig, p) \<leftarrow> grab 1 p;
               (m, p) \<leftarrow> grab msgLen p;
               receive_message env (bytes_timestamp ts) (signal_level (sig ! 0)) m rx }
             else if ch = 0x35 then do {
               (m, p) \<leftarrow> grab 21 p;
               Some (handle_radarcape_position (ieee754_binary32_le_to_float (drop 4 m)) (ieee754_binary32_le_to_float (drop 8 m))
                 (ieee754_binary32_le_to_float (drop 12 m)) rx) }
             else Some rx)"

definition tolower_ascii :: "u8 \<Rightarrow> u8" where
  "tolower_ascii c = (if 0x41 \<le> c \<and> c \<le> 0x5a then c + 0x20 else c)"

definition hexDigitVal :: "u8 \<Rightarrow> int" where
  "hexDigitVal c =
     (let c = tolower_ascii c
      in if 0x30 \<le> c \<and> c \<le> 0x39 then uint c - 0x30 else if 0x61 \<le> c \<and> c \<le> 0x66 then uint c - 0x61 + 10 else -1)"

definition is_space :: "u8 \<Rightarrow> bool" where
  "is_space c \<longleftrightarrow> 9 \<le> c \<and> c \<le> 13 \<or> c = 32"

text \<open>The digits of a message, or \<open>None\<close> if one is not a digit.\<close>

fun hex_bytes :: "u8 list \<Rightarrow> u8 list option" where
  "hex_bytes (h # l # cs) =
     (if hexDigitVal h = -1 \<or> hexDigitVal l = -1 then None
      else map_option ((#) (word_of_int (push_bit 4 (hexDigitVal h) OR hexDigitVal l))) (hex_bytes cs))"
| "hex_bytes _ = Some []"

text \<open>The string at \<open>i\<close> without the white space around it: the buffer, its start and its length.\<close>

definition trim_message :: "u8 list \<Rightarrow> nat \<Rightarrow> u8 list \<times> nat \<times> nat" where
  "trim_message b i =
     (let str = c_string b i;
          right = rev (dropWhile is_space (rev str));
          left = takeWhile is_space right;
          b = take (i + length right) b @ replicate (length str - length right) 0 @ drop (i + length str) b
      in (b, i + length left, length right - length left))"

text \<open>
  A read outside the buffer is a fault: the test for the final semicolon reads the byte before an
  empty string, and a message that starts with \<^verbatim>\<open>'<'\<close> is read up to its fifteenth byte whatever its length.
\<close>

definition decodeHexMessage :: "rx_env \<Rightarrow> u8 list \<Rightarrow> nat \<Rightarrow> rx \<Rightarrow> rx option" where
  "decodeHexMessage env b i rx = do {
     c_assert (length (c_string b i) < length (drop i b));
     let (b, hex, l) = trim_message b i;
     c_assert (hex + l > 0);
     last \<leftarrow> arr_get b (hex + l - 1);
     if last \<noteq> 0x3b then Some rx
     else do {
       first \<leftarrow> arr_get b hex;
       skip \<leftarrow> (if first = 0x3c then do {
                  hi \<leftarrow> arr_get b (hex + 13);
                  lo \<leftarrow> arr_get b (hex + 14);
                  let level = f64 (of_int (push_bit 4 (hexDigitVal hi) OR hexDigitVal lo) / 255);
                  Some (Some (15, f64 (level * level))) }
                else if first = 0x40 \<or> first = 0x25 then Some (Some (13, 0))
                else if first = 0x2a \<or> first = 0x3a then Some (Some (1, 0))
                else Some None);
       case skip of
         None \<Rightarrow> Some rx
       | Some (k, level) \<Rightarrow>
           let n = int l - int k - 1 in
           if n \<noteq> 4 \<and> n \<noteq> 14 \<and> n \<noteq> 28 then Some rx
           else if \<not> mode_ac (rx_net rx) \<and> n = 4 then Some rx
           else (case hex_bytes (take (nat n) (drop (hex + k) b)) of
               None \<Rightarrow> Some rx
             | Some m \<Rightarrow> receive_message env 0 level m rx) } }"

text \<open>
  The fields of a command line as \<^verbatim>\<open>strtok\<close> splits it, and the commands; a command without its value
  passes a null pointer to the number parser.
\<close>

fun tokens :: "u8 list \<Rightarrow> u8 list \<Rightarrow> u8 list list" where
  "tokens acc [] = (if acc = [] then [] else [rev acc])"
| "tokens acc (c # cs) = (if c = 9 then (if acc = [] then [] else [rev acc]) @ tokens [] cs else tokens (c # acc) cs)"

definition bytes_of :: "string \<Rightarrow> u8 list" where
  "bytes_of s = List.map of_char s"

fun faup_command :: "rx_env \<Rightarrow> u8 list list \<Rightarrow> rx \<Rightarrow> rx option" where
  "faup_command env [] rx = Some rx"
| "faup_command env (f # fs) rx =
     (if f = bytes_of ''upload_rate_multiplier'' then
        (case fs of
           [] \<Rightarrow> None
         | v # _ \<Rightarrow> let multiplier = rx_atof env v in
             if \<not> (multiplier > 0 \<and> multiplier \<le> 100) then Some rx else Some (rx\<lparr>faup_rate_multiplier := multiplier\<rparr>))
      else if f = bytes_of ''upload_unknown_commb'' then
        (case fs of
           [] \<Rightarrow> None
         | v # _ \<Rightarrow> Some (rx\<lparr>faup_upload_unknown_commb := rx_atoi env v \<noteq> 0\<rparr>))
      else faup_command env fs rx)"

definition handleFaupCommand :: "rx_env \<Rightarrow> u8 list \<Rightarrow> nat \<Rightarrow> rx \<Rightarrow> rx option" where
  "handleFaupCommand env b i rx = faup_command env (tokens [] (c_string b i)) rx"

text \<open>Calling the handler of the client's service.\<close>

definition call_handler :: "rx_env \<Rightarrow> nat \<Rightarrow> rx handler" where
  "call_handler env c b i rx = do {
     cl \<leftarrow> get_client (rx_net rx) c;
     s \<leftarrow> cl_service cl;
     sv \<leftarrow> arr_get (services (rx_net rx)) s;
     h \<leftarrow> read_handler sv;
     rx \<leftarrow> (case h of
         DecodeBinMessage \<Rightarrow> decodeBinMessage env (drop i b) rx
       | DecodeHexMessage \<Rightarrow> decodeHexMessage env b i rx
       | HandleBeastCommand \<Rightarrow> do {
           p0 \<leftarrow> arr_get b i;
           p1 \<leftarrow> arr_get b (i + 1);
           n \<leftarrow> handleBeastCommand (rx_write env) (rx_now env) c p0 p1 (rx_net rx);
           Some (rx\<lparr>rx_net := n\<rparr>) }
       | HandleFaupCommand \<Rightarrow> handleFaupCommand env b i rx);
     Some (False, rx) }"

definition mode_of :: "nat \<Rightarrow> rx \<Rightarrow> (read_mode_t \<times> u8 list) option" where
  "mode_of c rx = do {
     cl \<leftarrow> get_client (rx_net rx) c;
     s \<leftarrow> cl_service cl;
     sv \<leftarrow> arr_get (services (rx_net rx)) s;
     Some (read_mode sv, read_sep sv) }"

definition modesReadFromClient :: "rx_env \<Rightarrow> nat \<Rightarrow> kernel \<Rightarrow> rx \<Rightarrow> (kernel \<times> rx) option" where
  "modesReadFromClient env c k rx = do {
     cl \<leftarrow> get_client (rx_net rx) c;
     (close, b, n, k, rx) \<leftarrow> read_loop (mode_of c) (call_handler env c) (buf cl) (buflen cl) k rx;
     let rx = rx\<lparr>rx_net := upd_client c (\<lambda>cl. cl\<lparr>buf := b, buflen := n\<rparr>) (rx_net rx)\<rparr>;
     if close then do {
       n \<leftarrow> modesCloseClient c (rx_net rx);
       Some (k, rx\<lparr>rx_net := n\<rparr>) }
     else Some (k, rx) }"

end
