(* ===== verification/NetFraming.thy ===== *)
theory NetFraming
  imports NetRead
begin

text \<open>
  Framing is transparent: whatever messages are written in Beast format, and however the network cuts
  the bytes into pieces, the reader of \<open>NetRead\<close> calls its handler once for each message, in order. The
  argument holds for every handler that looks at its own message only, so it is made once, in the locale
  \<open>frame_handler\<close>, and interpreted on \<^verbatim>\<open>decodeBinMessage\<close>.
\<close>

type_synonym frame = "u8 \<times> u8 list"

definition frame_bytes :: "frame \<Rightarrow> u8 list" where
  "frame_bytes f = beast_frame (fst f) (snd f)"

definition valid_frame :: "frame \<Rightarrow> bool" where
  "valid_frame f \<longleftrightarrow> beast_length (fst f) = Some (Suc (length (snd f)))"

definition frames_bytes :: "frame list \<Rightarrow> u8 list" where
  "frames_bytes fs = concat (List.map frame_bytes fs)"

lemma frames_bytes_simps [simp]:
  "frames_bytes [] = []" "frames_bytes (f # fs) = frame_bytes f @ frames_bytes fs" "frames_bytes (fs @ more_fs) = frames_bytes fs @ frames_bytes more_fs"
  by (simp_all add: frames_bytes_def)

lemma put_escaped_simps [simp]:
  "put_escaped [] = []" "put_escaped (x # xs) = (if x = ESC then [ESC, ESC] else [x]) @ put_escaped xs"
  "put_escaped (xs @ ys) = put_escaped xs @ put_escaped ys"
  by (simp_all add: put_escaped_def)

lemma valid_frame_type:
  assumes "valid_frame (t, pl)"
  shows "t \<noteq> ESC" "length (frame_bytes (t, pl)) \<le> 44" "length (frame_bytes (t, pl)) = Suc (Suc (length (put_escaped pl)))"
proof -
  have t: "beast_length t = Some (Suc (length pl))" using assms by (simp add: valid_frame_def)
  then show "t \<noteq> ESC" by (auto simp: beast_length_def ESC_def)
  have "length pl \<le> 21" using t by (auto simp: beast_length_def split: if_splits)
  then show "length (frame_bytes (t, pl)) \<le> 44"
    using length_put_escaped [of pl] by (simp add: frame_bytes_def beast_frame_def)
qed (simp add: frame_bytes_def beast_frame_def)

subsection \<open>Finding the end of a message\<close>

text \<open>
  The buffer from \<open>p\<close> holds as much as has arrived of an escaped payload; the scan finds its end, or an
  end beyond the data.
\<close>

lemma end_of_message_escaped:
  assumes "drop p (take eod b) @ later = put_escaped pl @ rest" "eod \<le> length b" "p \<le> eod"
  shows "if p + length (put_escaped pl) \<le> eod
    then end_of_message b eod p (p + length pl) = p + length (put_escaped pl)
    else eod < end_of_message b eod p (p + length pl)"
  using assms
proof (induction pl arbitrary: p)
  case Nil
  then show ?case by (simp add: end_of_message.simps)
next
  case (Cons x pl)
  show ?case
  proof (cases "p = eod")
    case True
    then show ?thesis by (simp add: end_of_message.simps)
  next
    case False
    then have p: "p < eod" using Cons.prems(3) by simp
    then have d: "drop p (take eod b) = b ! p # drop (Suc p) (take eod b)"
      using Cons.prems(2) by (subst Cons_nth_drop_Suc [symmetric]) auto
    show ?thesis
    proof (cases "x = ESC")
      case esc: True
      then have bp: "b ! p = ESC" using Cons.prems(1) unfolding d by simp
      have step: "end_of_message b eod p (p + length (x # pl)) = end_of_message b eod (p + 2) (p + 2 + length pl)"
        using p bp by (subst end_of_message.simps) simp
      show ?thesis
      proof (cases "Suc p = eod")
        case True
        then show ?thesis unfolding step using esc by (simp add: end_of_message.simps)
      next
        case False
        then have p2: "Suc p < eod" using p by simp
        then have "drop (Suc p) (take eod b) = b ! Suc p # drop (p + 2) (take eod b)"
          using Cons.prems(2) by (subst Cons_nth_drop_Suc [symmetric]) auto
        then have "drop (p + 2) (take eod b) @ later = put_escaped pl @ rest"
          using Cons.prems(1) esc unfolding d by simp
        from Cons.IH [OF this Cons.prems(2)] p2 show ?thesis unfolding step using esc by (auto split: if_splits)
      qed
    next
      case False
      then have bp: "b ! p = x" "drop (Suc p) (take eod b) @ later = put_escaped pl @ rest"
        using Cons.prems(1) unfolding d by simp_all
      have "end_of_message b eod p (p + length (x # pl)) = end_of_message b eod (Suc p) (Suc p + length pl)"
        using p bp(1) False by (subst end_of_message.simps) simp
      then show ?thesis using Cons.IH [OF bp(2) Cons.prems(2)] p False by (auto split: if_splits)
    qed
  qed
qed

lemma move_down_take:
  assumes "som \<le> eod" "eod \<le> length b"
  shows "length (move_down b som eod) = length b" "take (eod - som) (move_down b som eod) = drop som (take eod b)"
  using assms by (simp_all add: move_down_def drop_take)

text \<open>What is left after a scan: the data of the frames \<open>fs2\<close>, the first of them incomplete.\<close>

definition incomplete :: "u8 list \<Rightarrow> frame list \<Rightarrow> bool" where
  "incomplete d fs \<longleftrightarrow> d = [] \<or> (\<exists>f more_fs. fs = f # more_fs \<and> length d < length (frame_bytes f))"

text \<open>The state between two reads: an incomplete message in the buffer, the rest of the stream in the kernel.\<close>

definition stream_inv :: "u8 list \<Rightarrow> nat \<Rightarrow> kernel \<Rightarrow> frame list \<Rightarrow> bool" where
  "stream_inv b n k fs \<longleftrightarrow> length b = MODES_CLIENT_BUF_SIZE + 1 \<and> n \<le> length b \<and> take n b @ concat (pending k) = frames_bytes fs \<and>
     incomplete (take n b) fs \<and> [] \<notin> set (pending k) \<and> at_end k = WouldBlock \<and> (\<forall>f\<in>set fs. valid_frame f)"

definition kernel_bytes :: "kernel \<Rightarrow> nat" where
  "kernel_bytes k = sum_list (List.map length (pending k))"

lemma stream_inv_fill:
  assumes "stream_inv b n k fs"
  shows "n \<le> 44"
proof -
  have "length (take n b) \<le> 44"
    using assms valid_frame_type(2) unfolding stream_inv_def incomplete_def by (fastforce simp: split_paired_all)
  then show ?thesis using assms by (simp add: stream_inv_def)
qed

lemma c_read_segment:
  assumes "pending k = seg # rest" "seg \<noteq> []" "0 < left" "[] \<notin> set rest"
  obtains k' where "c_read left k = (Inr (take left seg), k')" "take left seg @ concat (pending k') = concat (pending k)"
    "kernel_bytes k' < kernel_bytes k" "[] \<notin> set (pending k')" "at_end k' = at_end k"
proof -
  let ?k = "k\<lparr>pending := (if length seg \<le> left then rest else drop left seg # rest)\<rparr>"
  have "c_read left k = (Inr (take left seg), ?k)" using assms by (auto simp: c_read_def split: list.split)
  then show thesis
    by (rule that) (use assms in \<open>auto simp: kernel_bytes_def\<close>)
qed

subsection \<open>The interface of a message handler\<close>

text \<open>
  \<open>h\<close> reads the frame it is pointed to and nothing else, never asks to close the client, and leaves it in
  a service with Beast framing: \<open>on_frame\<close> is its effect.
\<close>

locale frame_handler =
  fixes h :: "'s handler" and mode :: "'s \<Rightarrow> (read_mode_t \<times> u8 list) option"
    and ready :: "'s \<Rightarrow> bool" and on_frame :: "u8 \<Rightarrow> u8 list \<Rightarrow> 's \<Rightarrow> 's option"
  assumes beast_mode: "ready s \<Longrightarrow> \<exists>sep. mode s = Some (READ_MODE_BEAST, sep)"
    and handles: "ready s \<Longrightarrow> beast_length t = Some (Suc (length pl)) \<Longrightarrow> drop i b = t # put_escaped pl @ rest \<Longrightarrow>
      h b i s = map_option (Pair False) (on_frame t pl s)"
    and stays_ready: "ready s \<Longrightarrow> beast_length t = Some (Suc (length pl)) \<Longrightarrow> on_frame t pl s = Some s' \<Longrightarrow> ready s'"
begin

fun deliver :: "frame list \<Rightarrow> 's \<Rightarrow> 's option" where
  "deliver [] s = Some s"
| "deliver (f # fs) s = (case on_frame (fst f) (snd f) s of None \<Rightarrow> None | Some s \<Rightarrow> deliver fs s)"

lemma deliver_append: "deliver (fs @ more_fs) s = (case deliver fs s of None \<Rightarrow> None | Some s \<Rightarrow> deliver more_fs s)"
  by (induction fs arbitrary: s) (auto split: option.split)

lemma scan_frames:
  assumes "ready s" "som \<le> eod" "eod \<le> length b" "drop som (take eod b) @ later = frames_bytes fs" "\<forall>f\<in>set fs. valid_frame f"
  shows "scan_beast beast_length h b eod som s = None \<and> deliver fs s = None \<or>
    (\<exists>fs1 fs2 s' som'. fs = fs1 @ fs2 \<and> deliver fs1 s = Some s' \<and> ready s' \<and> som \<le> som' \<and> som' \<le> eod \<and>
       scan_beast beast_length h b eod som s = Some (Processed b som' s') \<and>
       drop som' (take eod b) @ later = frames_bytes fs2 \<and> incomplete (drop som' (take eod b)) fs2)"
  using assms
proof (induction fs arbitrary: som s)
  case Nil
  then show ?case by (auto simp: scan_beast.simps incomplete_def)
next
  case (Cons f fs)
  obtain t pl where f: "f = (t, pl)" by force
  have V: "valid_frame (t, pl)" using Cons.prems(5) f by simp
  note V' = valid_frame_type [OF V]
  have len: "beast_length t = Some (Suc (length pl))" using V by (simp add: valid_frame_def)
  let ?d = "drop som (take eod b)"
  have bytes: "?d @ later = ESC # t # put_escaped pl @ frames_bytes fs"
    using Cons.prems(4) f by (simp add: frame_bytes_def beast_frame_def)
  have stop: ?case if "scan_beast beast_length h b eod som s = Some (Processed b som s)" "incomplete ?d (f # fs)"
    using that Cons.prems by (intro disjI2 exI [of _ "[]"] exI [of _ "f # fs"] exI [of _ s] exI [of _ som]) simp
  show ?case
  proof (cases "som = eod")
    case True
    then show ?thesis by (intro stop) (simp_all add: scan_beast.simps incomplete_def)
  next
    case False
    then have som: "som < eod" using Cons.prems(2) by simp
    then have d: "?d = b ! som # drop (Suc som) (take eod b)"
      using Cons.prems(3) by (subst Cons_nth_drop_Suc [symmetric]) auto
    then have b0: "b ! som = ESC" using bytes by simp
    have find: "memchr_esc b som eod = Some som"
      using som b0 unfolding memchr_esc_def by (simp add: upt_conv_Cons)
    show ?thesis
    proof (cases "Suc som = eod")
      case True
      then have "length ?d = 1" using Cons.prems(3) by simp
      then show ?thesis using True som find V'(3) f by (intro stop) (simp_all add: scan_beast.simps incomplete_def)
    next
      case False
      then have som2: "Suc som < eod" using som by simp
      have rest: "drop (Suc som) (take eod b) @ later = t # put_escaped pl @ frames_bytes fs" using bytes d by simp
      have d2: "drop (Suc som) (take eod b) = b ! Suc som # drop (Suc (Suc som)) (take eod b)"
        using Cons.prems(3) som2 by (subst Cons_nth_drop_Suc [symmetric]) auto
      have b1: "b ! Suc som = t" using rest d2 by simp
      let ?eom = "end_of_message b eod (Suc som) (Suc som + Suc (length pl))"
      have eom: "if Suc som + Suc (length (put_escaped pl)) \<le> eod then ?eom = Suc som + Suc (length (put_escaped pl)) else eod < ?eom"
        using end_of_message_escaped [of "Suc som" eod b later "t # pl" "frames_bytes fs"] rest V'(1) som2 Cons.prems(3) by (auto split: if_splits)
      show ?thesis
      proof (cases "Suc som + Suc (length (put_escaped pl)) \<le> eod")
        case False
        then have "eod < ?eom" using eom by simp
        then have "scan_beast beast_length h b eod som s = Some (Processed b som s)"
          using som som2 find b1 len by (subst scan_beast.simps) (simp add: Let_def)
        moreover have "length ?d < length (frame_bytes f)" using False V'(3) f Cons.prems(3) by simp
        ultimately show ?thesis by (intro stop) (auto simp: incomplete_def)
      next
        case True
        then have e: "?eom = som + length (frame_bytes f)" "?eom \<le> eod" using eom V'(3) f by simp_all
        have whole: "drop (som + length (frame_bytes f)) (take eod b) @ later = frames_bytes fs"
        proof -
          have "drop (length (frame_bytes f)) (?d @ later) = frames_bytes fs" using Cons.prems(4) by simp
          moreover have "length (frame_bytes f) \<le> length ?d" using e Cons.prems(3) by simp
          ultimately show ?thesis by (simp add: add.commute)
        qed
        have "drop (Suc som) b = t # put_escaped pl @ drop (som + length (frame_bytes f)) b"
        proof -
          have "take (Suc (length (put_escaped pl))) (drop (Suc som) (take eod b) @ later) = t # put_escaped pl" unfolding rest by simp
          then have "take (Suc (length (put_escaped pl))) (drop (Suc som) b) = t # put_escaped pl"
            using True Cons.prems(3) by (simp add: take_drop min_absorb1)
          then have "drop (Suc som) b = (t # put_escaped pl) @ drop (Suc (length (put_escaped pl))) (drop (Suc som) b)"
            by (metis append_take_drop_id)
          then show ?thesis using V'(3) f by (simp add: add.commute)
        qed
        from handles [OF Cons.prems(1) len this] have hd: "h b (Suc som) s = map_option (Pair False) (on_frame t pl s)" .
        have run: "scan_beast beast_length h b eod som s =
            (case on_frame t pl s of None \<Rightarrow> None | Some s \<Rightarrow> scan_beast beast_length h b eod (som + length (frame_bytes f)) s)"
          using som som2 find b1 len hd e by (subst scan_beast.simps) (simp add: Let_def split: option.split)
        show ?thesis
        proof (cases "on_frame t pl s")
          case None
          then show ?thesis using run f by simp
        next
          case (Some s1)
          have r1: "ready s1" by (rule stays_ready [OF Cons.prems(1) len Some])
          from Cons.IH [OF r1 _ Cons.prems(3) whole] e Cons.prems(5)
          consider "scan_beast beast_length h b eod (som + length (frame_bytes f)) s1 = None" "deliver fs s1 = None"
            | fs1 fs2 s' som' where "fs = fs1 @ fs2" "deliver fs1 s1 = Some s'" "ready s'" "som + length (frame_bytes f) \<le> som'" "som' \<le> eod"
              "scan_beast beast_length h b eod (som + length (frame_bytes f)) s1 = Some (Processed b som' s')"
              "drop som' (take eod b) @ later = frames_bytes fs2" "incomplete (drop som' (take eod b)) fs2"
            by auto
          then show ?thesis
          proof cases
            case 1
            then show ?thesis using run Some f by simp
          next
            case 2
            then show ?thesis
              using run Some f by (intro disjI2 exI [of _ "f # fs1"] exI [of _ fs2] exI [of _ s'] exI [of _ som']) simp
          qed
        qed
      qed
    qed
  qed
qed

lemma read_loop_frames:
  assumes "ready s" "stream_inv b n k fs"
  shows "read_loop mode h b n k s = None \<and> deliver fs s = None \<or>
    (\<exists>fs1 fs2 s' b' n' k'. fs = fs1 @ fs2 \<and> deliver fs1 s = Some s' \<and> ready s' \<and>
       read_loop mode h b n k s = Some (False, b', n', k', s') \<and> stream_inv b' n' k' fs2 \<and>
       kernel_bytes k' \<le> kernel_bytes k \<and> (pending k \<noteq> [] \<longrightarrow> kernel_bytes k' < kernel_bytes k))"
  using assms
proof (induction "kernel_bytes k" arbitrary: b n k fs s rule: less_induct)
  case less
  note inv = less.prems(2)
  have n: "n \<le> 44" by (rule stream_inv_fill [OF inv])
  then have room: "room n = (n, 1023 - n)" by (simp add: room_def MODES_CLIENT_BUF_SIZE_def)
  show ?case
  proof (cases "pending k")
    case Nil
    then have "read_loop mode h b n k s = Some (False, b, n, k, s)"
      using inv by (subst read_loop.simps) (simp add: room c_read_def stream_inv_def)
    then show ?thesis
      using less.prems Nil by (intro disjI2 exI [of _ "[]"] exI [of _ fs] exI [of _ s] exI [of _ b] exI [of _ n] exI [of _ k]) simp
  next
    case (Cons seg rest)
    obtain k1 where k1: "c_read (1023 - n) k = (Inr (take (1023 - n) seg), k1)"
      "take (1023 - n) seg @ concat (pending k1) = concat (pending k)" "kernel_bytes k1 < kernel_bytes k"
      "[] \<notin> set (pending k1)" "at_end k1 = at_end k"
      by (rule c_read_segment [OF Cons, of "1023 - n"]) (use n inv Cons in \<open>auto simp: stream_inv_def\<close>)
    define bs where "bs = take (1023 - n) seg"
    define b1 where "b1 = take n b @ bs @ drop (n + length bs) b"
    have lenb: "length b = 1025" using inv by (simp add: stream_inv_def MODES_CLIENT_BUF_SIZE_def)
    have fits: "n + length bs \<le> 1023" using n by (simp add: bs_def)
    then have put: "put_bytes b n bs = Some b1" using lenb by (simp add: put_bytes_def b1_def)
    have b1: "length b1 = 1025" "take (n + length bs) b1 = take n b @ bs"
      using lenb fits by (simp_all add: b1_def)
    obtain sep where mode: "mode s = Some (READ_MODE_BEAST, sep)" using beast_mode [OF less.prems(1)] by blast
    have data: "drop 0 (take (n + length bs) b1) @ concat (pending k1) = frames_bytes fs"
      using inv k1(2) unfolding drop_0 b1(2) stream_inv_def bs_def [symmetric] by simp
    have valid: "\<forall>f\<in>set fs. valid_frame f" using inv by (simp add: stream_inv_def)
    have run: "read_loop mode h b n k s =
        (case scan_beast beast_length h b1 (n + length bs) 0 s of
           None \<Rightarrow> None
         | Some (Closed s) \<Rightarrow> Some (True, b, n, k1, s)
         | Some (Processed b som s) \<Rightarrow>
             if som = 0 then Some (False, b, n + length bs, k1, s)
             else if length bs \<noteq> 1023 - n then Some (False, move_down b som (n + length bs), n + length bs - som, k1, s)
             else read_loop mode h (move_down b som (n + length bs)) (n + length bs - som) k1 s)"
      by (subst read_loop.simps) (simp add: room k1(1) bs_def [symmetric] put mode scan_input_def Let_def split: option.split scan.split)
    have "n + length bs \<le> length b1" using b1 fits by simp
    note fits1 = this
    from scan_frames [OF less.prems(1) le0 fits1 data valid] show ?thesis
    proof (elim disjE exE conjE, goal_cases)
      case 1
      then show ?thesis using run by simp
    next
      case (2 fs1 fs2 s' som)
      define b2 where "b2 = (if som = 0 then b1 else move_down b1 som (n + length bs))"
      have b2: "length b2 = 1025" "take (n + length bs - som) b2 = drop som (take (n + length bs) b1)"
        using b1(1) move_down_take [OF 2(5) fits1] by (simp_all add: b2_def)
      have sinv: "stream_inv b2 (n + length bs - som) k1 fs2"
        using b2 2(1,5,7,8) k1(4,5) inv fits by (auto simp: stream_inv_def MODES_CLIENT_BUF_SIZE_def)
      have finish: ?thesis if "read_loop mode h b n k s = Some (False, b2, n + length bs - som, k1, s')"
        using that 2(1-3) sinv k1(3)
        by (intro disjI2 exI [of _ fs1] exI [of _ fs2] exI [of _ s'] exI [of _ b2] exI [of _ "n + length bs - som"] exI [of _ k1]) simp
      show ?thesis
      proof (cases "som = 0 \<or> length bs \<noteq> 1023 - n")
        case True
        then show ?thesis using run 2(6) by (intro finish) (auto simp: b2_def)
      next
        case False
        then have rec: "read_loop mode h b n k s = read_loop mode h b2 (n + length bs - som) k1 s'"
          using run 2(6) by (simp add: b2_def)
        from less.hyps [OF k1(3) 2(3) sinv] show ?thesis
        proof (elim disjE exE conjE, goal_cases)
          case 1
          then show ?thesis using rec \<open>fs = fs1 @ fs2\<close> \<open>deliver fs1 s = Some s'\<close> by (simp add: deliver_append)
        next
          case (2 fs3 fs4 s'' b' n' k')
          then show ?thesis
            using rec \<open>fs = fs1 @ fs2\<close> \<open>deliver fs1 s = Some s'\<close> k1(3)
            by (intro disjI2 exI [of _ "fs1 @ fs3"] exI [of _ fs4] exI [of _ s''] exI [of _ b'] exI [of _ n'] exI [of _ k'])
              (simp add: deliver_append)
        qed
      qed
    qed
  qed
qed

end

subsection \<open>The Beast message handler\<close>

lemma grab_escaped: "n \<le> length pl \<Longrightarrow> grab n (put_escaped pl @ rest) = Some (take n pl, put_escaped (drop n pl) @ rest)"
proof (induction n arbitrary: pl)
  case (Suc n)
  then show ?case by (cases pl) auto
qed simp

definition bin_frame :: "rx_env \<Rightarrow> u8 \<Rightarrow> u8 list \<Rightarrow> rx \<Rightarrow> rx option" where
  "bin_frame env t pl rx =
     (if t = 0x31 \<and> mode_ac (rx_net rx) \<or> t = 0x32 \<or> t = 0x33
      then receive_message env (bytes_timestamp (take 6 pl)) (signal_level (pl ! 6)) (drop 7 pl) rx
      else if t = 0x35 then Some (handle_radarcape_position (ieee754_binary32_le_to_float (drop 4 pl))
        (ieee754_binary32_le_to_float (drop 8 pl)) (ieee754_binary32_le_to_float (drop 12 pl)) rx)
      else Some rx)"

lemma decodeBinMessage_frame:
  assumes "beast_length t = Some (Suc (length pl))"
  shows "decodeBinMessage env (t # put_escaped pl @ rest) rx = bin_frame env t pl rx"
proof -
  have p6: "grab 6 (put_escaped pl @ rest) = Some (take 6 pl, put_escaped (drop 6 pl) @ rest)"
    and p7: "grab 1 (put_escaped (drop 6 pl) @ rest) = Some ([pl ! 6], put_escaped (drop 7 pl) @ rest)"
    and p: "length pl = k + 7 \<Longrightarrow> grab k (put_escaped (drop 7 pl) @ rest) = Some (drop 7 pl, rest)"
    and p21: "length pl = 21 \<Longrightarrow> grab 21 (put_escaped pl @ rest) = Some (pl, rest)" for k
  proof -
    have len: "9 \<le> length pl" using assms by (auto simp: beast_length_def split: if_splits)
    then show "grab 6 (put_escaped pl @ rest) = Some (take 6 pl, put_escaped (drop 6 pl) @ rest)" by (intro grab_escaped) simp
    have "take 1 (drop 6 pl) = [pl ! 6]" using len Cons_nth_drop_Suc [of 6 pl, symmetric] by simp
    then show "grab 1 (put_escaped (drop 6 pl) @ rest) = Some ([pl ! 6], put_escaped (drop 7 pl) @ rest)"
      using grab_escaped [of 1 "drop 6 pl" rest] len by simp
    show "length pl = k + 7 \<Longrightarrow> grab k (put_escaped (drop 7 pl) @ rest) = Some (drop 7 pl, rest)"
      using grab_escaped [of k "drop 7 pl" rest] by simp
    show "length pl = 21 \<Longrightarrow> grab 21 (put_escaped pl @ rest) = Some (pl, rest)"
      using grab_escaped [of 21 pl rest] by simp
  qed
  have "t = 0x31 \<and> length pl = 2 + 7 \<or> t = 0x32 \<and> length pl = 7 + 7 \<or> t = 0x33 \<and> length pl = 14 + 7 \<or> t = 0x34 \<or> t = 0x35 \<and> length pl = 21"
    using assms by (auto simp: beast_length_def split: if_splits)
  then show ?thesis
    by (elim disjE conjE) (simp_all add: decodeBinMessage_def bin_frame_def Let_def p6 p7 [simplified] p p21)
qed

lemma receive_message_net:
  assumes "mode_ac n = mode_ac (rx_net rx)"
  shows "receive_message env ts l m (rx\<lparr>rx_net := n\<rparr>) = map_option (\<lambda>rx. rx\<lparr>rx_net := n\<rparr>) (receive_message env ts l m rx)"
proof -
  have "receive_modes env mm m (rx\<lparr>rx_net := n\<rparr>) = map_option (\<lambda>rx. rx\<lparr>rx_net := n\<rparr>) (receive_modes env mm m rx)" for mm
  proof (cases "decodeModesMessage (rx_modes env) (rx_score_junk env) (rx_icao rx) mm (take 14 (m @ rx_msg_junk env))")
    case None
    then show ?thesis by (simp add: receive_modes_def)
  next
    case (Some r)
    obtain result mm' f filtered where "r = (result, mm', f, filtered)" by (cases r)
    then show ?thesis using Some by (simp add: receive_modes_def arr_get_def arr_set_def Let_def)
  qed
  then show ?thesis by (simp add: receive_message_def Let_def)
qed

lemma handle_radarcape_position_net:
  "handle_radarcape_position lat lon alt (rx\<lparr>rx_net := n\<rparr>) = (handle_radarcape_position lat lon alt rx)\<lparr>rx_net := n\<rparr>"
  by (cases lat; cases lon; cases alt) (simp_all add: handle_radarcape_position_def Let_def)

lemma rx_net_absorb: "rx = rx\<lparr>rx_net := n\<rparr> \<Longrightarrow> rx_net rx = n"
  by (metis rx.select_convs(1) rx.surjective rx.update_convs(1))

lemma bin_frame_net:
  assumes "mode_ac n = mode_ac (rx_net rx)"
  shows "bin_frame env t pl (rx\<lparr>rx_net := n\<rparr>) = map_option (\<lambda>rx. rx\<lparr>rx_net := n\<rparr>) (bin_frame env t pl rx)"
  by (simp add: bin_frame_def assms receive_message_net handle_radarcape_position_net)

lemma bin_frame_keeps: "bin_frame env t pl rx = Some rx' \<Longrightarrow> rx_net rx' = rx_net rx"
  using bin_frame_net [of "rx_net rx" rx env t pl] by (intro rx_net_absorb) simp

definition bin_ready :: "nat \<Rightarrow> rx \<Rightarrow> bool" where
  "bin_ready c rx \<longleftrightarrow> (\<exists>cl s. get_client (rx_net rx) c = Some cl \<and> cl_service cl = Some s \<and> s < length (services (rx_net rx)) \<and>
     read_mode (services (rx_net rx) ! s) = READ_MODE_BEAST \<and> read_handler (services (rx_net rx) ! s) = Some DecodeBinMessage)"

interpretation bin: frame_handler "call_handler env c" "mode_of c" "bin_ready c" "bin_frame env" for env c
proof
  fix s assume "bin_ready c s"
  then show "\<exists>sep. mode_of c s = Some (READ_MODE_BEAST, sep)" by (auto simp: bin_ready_def mode_of_def)
next
  fix s t pl i b rest
  assume "bin_ready c s" "beast_length t = Some (Suc (length pl))" "drop i b = t # put_escaped pl @ rest"
  then show "call_handler env c b i s = map_option (Pair False) (bin_frame env t pl s)"
    by (cases "bin_frame env t pl s") (auto simp: bin_ready_def call_handler_def decodeBinMessage_frame)
next
  fix s t pl s' assume "bin_ready c s" "bin_frame env t pl s = Some s'"
  then show "bin_ready c s'" using bin_frame_keeps [of env t pl s s'] by (simp add: bin_ready_def)
qed

subsection \<open>Reading a whole stream\<close>

text \<open>Polling a client again and again, and the state without the contents of its buffer.\<close>

fun poll :: "nat \<Rightarrow> rx_env \<Rightarrow> nat \<Rightarrow> kernel \<Rightarrow> rx \<Rightarrow> (kernel \<times> rx) option" where
  "poll 0 env c k rx = Some (k, rx)"
| "poll (Suc m) env c k rx = (case modesReadFromClient env c k rx of None \<Rightarrow> None | Some (k, rx) \<Rightarrow> poll m env c k rx)"

definition forget :: "nat \<Rightarrow> rx \<Rightarrow> rx" where
  "forget c rx = rx\<lparr>rx_net := upd_client c (\<lambda>cl. cl\<lparr>buf := [], buflen := 0\<rparr>) (rx_net rx)\<rparr>"

lemma used_messages_forget: "used_messages (forget c rx) = used_messages rx"
  by (simp add: forget_def)

lemma deliver_net:
  assumes "mode_ac n = mode_ac (rx_net rx)"
  shows "bin.deliver env fs (rx\<lparr>rx_net := n\<rparr>) = map_option (\<lambda>rx. rx\<lparr>rx_net := n\<rparr>) (bin.deliver env fs rx)"
  using assms
proof (induction fs arbitrary: rx)
  case (Cons f fs)
  show ?case
  proof (cases "bin_frame env (fst f) (snd f) rx")
    case (Some rx1)
    then show ?thesis using bin_frame_keeps [OF Some] bin_frame_net [OF Cons.prems] Cons.IH [of rx1] Cons.prems by simp
  qed (use bin_frame_net [OF Cons.prems] in simp)
qed simp

lemma deliver_keeps: "bin.deliver env fs rx = Some rx' \<Longrightarrow> rx_net rx' = rx_net rx"
  using deliver_net [of "rx_net rx" rx env fs] by (intro rx_net_absorb) simp

lemma upd_client_twice: "upd_client c f (upd_client c g n) = upd_client c (f \<circ> g) n"
  by (simp add: upd_client_def comp_def case_prod_beta)

lemma modesReadFromClient_frames:
  assumes "bin_ready c rx" "get_client (rx_net rx) c = Some cl" "stream_inv (buf cl) (buflen cl) k fs"
  shows "modesReadFromClient env c k rx = None \<and> bin.deliver env fs rx = None \<or>
    (\<exists>fs1 fs2 rx1 b n k'. fs = fs1 @ fs2 \<and> bin.deliver env fs1 rx = Some rx1 \<and> stream_inv b n k' fs2 \<and>
       modesReadFromClient env c k rx = Some (k', rx1\<lparr>rx_net := upd_client c (\<lambda>cl. cl\<lparr>buf := b, buflen := n\<rparr>) (rx_net rx)\<rparr>) \<and>
       (pending k = [] \<and> pending k' = [] \<or> kernel_bytes k' < kernel_bytes k))"
proof -
  from bin.read_loop_frames [OF assms(1,3), of env] show ?thesis
  proof (elim disjE exE conjE, goal_cases)
    case 1
    then show ?case using assms(2) by (simp add: modesReadFromClient_def)
  next
    case (2 fs1 fs2 s' b n k')
    have "pending k = [] \<and> pending k' = [] \<or> kernel_bytes k' < kernel_bytes k"
    proof (cases "pending k = []")
      case True
      then have "kernel_bytes k' = 0" using 2 by (simp add: kernel_bytes_def)
      then have "pending k' = []" using 2(5) by (cases "pending k'") (auto simp: kernel_bytes_def stream_inv_def)
      with True show ?thesis by simp
    qed (use 2 in simp)
    with 2 show ?case
      using assms(2) deliver_keeps [OF 2(2)]
      by (intro disjI2 exI [of _ fs1] exI [of _ fs2] exI [of _ s'] exI [of _ b] exI [of _ n] exI [of _ k']) (simp add: modesReadFromClient_def)
  qed
qed

lemma mode_ac_upd_client [simp]: "mode_ac (upd_client c f n) = mode_ac n"
  by (simp add: upd_client_def)

lemma forget_upd_client:
  "forget c (rx\<lparr>rx_net := upd_client c (\<lambda>cl. cl\<lparr>buf := b, buflen := n\<rparr>) (rx_net rx)\<rparr>) = forget c rx"
  by (simp add: forget_def upd_client_twice comp_def)

lemma bin_ready_upd_client:
  "bin_ready c rx \<Longrightarrow> bin_ready c (rx\<lparr>rx_net := upd_client c (\<lambda>cl. cl\<lparr>buf := b, buflen := n\<rparr>) (rx_net rx)\<rparr>)"
  by (auto simp: bin_ready_def)

lemma stream_inv_end:
  assumes "stream_inv b n k fs" "pending k = []"
  shows "fs = []"
proof (cases fs)
  case (Cons f fs')
  have t: "take n b = frame_bytes f @ frames_bytes fs'" using assms Cons by (simp add: stream_inv_def)
  have i: "incomplete (take n b) (f # fs')" using assms(1) Cons unfolding stream_inv_def by blast
  have "frame_bytes f \<noteq> []" by (simp add: frame_bytes_def beast_frame_def)
  moreover have "take n b = [] \<or> length (take n b) < length (frame_bytes f)" using i unfolding incomplete_def by blast
  moreover have "length (frame_bytes f) \<le> length (take n b)" unfolding t by simp
  ultimately show ?thesis using t by auto
qed simp

lemma poll_frames:
  assumes "bin_ready c rx" "get_client (rx_net rx) c = Some cl" "stream_inv (buf cl) (buflen cl) k fs" "kernel_bytes k \<le> m"
  shows "map_option (\<lambda>(k, rx). (pending k, forget c rx)) (poll m env c k rx) = map_option (\<lambda>rx. ([], forget c rx)) (bin.deliver env fs rx)"
  using assms
proof (induction m arbitrary: k rx fs cl)
  case 0
  then have "pending k = []" by (cases "pending k") (auto simp: kernel_bytes_def stream_inv_def)
  then show ?case using stream_inv_end [OF "0.prems"(3)] by simp
next
  case (Suc m)
  have step: ?case if "fs = fs1 @ fs2" "bin.deliver env fs1 rx = Some rx1" "stream_inv b n k' fs2"
    "modesReadFromClient env c k rx = Some (k', rx1\<lparr>rx_net := upd_client c (\<lambda>cl. cl\<lparr>buf := b, buflen := n\<rparr>) (rx_net rx)\<rparr>)"
    "kernel_bytes k' \<le> m" for fs1 fs2 rx1 b n k'
  proof -
    have net: "rx_net rx1 = rx_net rx" by (rule deliver_keeps [OF that(2)])
    let ?f = "\<lambda>cl. cl\<lparr>buf := b, buflen := n\<rparr>"
    let ?rx = "rx1\<lparr>rx_net := upd_client c ?f (rx_net rx1)\<rparr>"
    have ready: "bin_ready c ?rx" using Suc.prems(1) net by (intro bin_ready_upd_client) (simp add: bin_ready_def)
    have cl: "get_client (rx_net ?rx) c = Some (?f cl)" using Suc.prems(2) net by simp
    have "map_option (\<lambda>(k, rx). (pending k, forget c rx)) (poll (Suc m) env c k rx) =
        map_option (\<lambda>(k, rx). (pending k, forget c rx)) (poll m env c k' ?rx)"
      using that(4) net by simp
    also have "\<dots> = map_option (\<lambda>rx. ([], forget c rx)) (bin.deliver env fs2 ?rx)"
      by (rule Suc.IH [OF ready cl _ that(5)]) (use that(3) in simp)
    also have "bin.deliver env fs2 ?rx = map_option (\<lambda>rx. rx\<lparr>rx_net := upd_client c ?f (rx_net rx1)\<rparr>) (bin.deliver env fs2 rx1)"
      by (rule deliver_net) simp
    also have "map_option (\<lambda>rx. ([], forget c rx)) \<dots> = map_option (\<lambda>rx. ([], forget c rx)) (bin.deliver env fs2 rx1)"
    proof (cases "bin.deliver env fs2 rx1")
      case (Some rx2)
      then show ?thesis using deliver_keeps [OF Some] forget_upd_client [where rx = rx2] by simp
    qed simp
    also have "bin.deliver env fs2 rx1 = bin.deliver env fs rx" using that(1,2) by (simp add: bin.deliver_append)
    finally show ?thesis .
  qed
  from modesReadFromClient_frames [OF Suc.prems(1-3), of env] show ?case
  proof (elim disjE exE conjE, goal_cases)
    case 1
    then show ?case by simp
  next
    case (2 fs1 fs2 rx1 b n k')
    then have "kernel_bytes k' \<le> m" by (simp add: kernel_bytes_def)
    show ?case by (rule step [OF 2(1-4) \<open>kernel_bytes k' \<le> m\<close>])
  next
    case (3 fs1 fs2 rx1 b n k')
    then have "kernel_bytes k' \<le> m" using Suc.prems(4) by simp
    show ?case by (rule step [OF 3(1-4) \<open>kernel_bytes k' \<le> m\<close>])
  qed
qed

text \<open>The frame of a message with its timestamp and signal level, and what the reader makes of a list of them.\<close>

definition message_frame :: "(rat \<Rightarrow> rat) \<Rightarrow> u64 \<times> rat \<times> u8 list \<Rightarrow> frame" where
  "message_frame sqrt_f = (\<lambda>(ts, level, m). (the (beast_type (length m)), timestamp_bytes ts @ [signal_byte sqrt_f level] @ m))"

fun receive_all :: "rx_env \<Rightarrow> (rat \<Rightarrow> rat) \<Rightarrow> (u64 \<times> rat \<times> u8 list) list \<Rightarrow> rx \<Rightarrow> rx option" where
  "receive_all env sqrt_f [] rx = Some rx"
| "receive_all env sqrt_f ((ts, level, m) # ms) rx =
     (case receive_message env (take_bit 48 ts) (signal_level (signal_byte sqrt_f level)) m rx of
        None \<Rightarrow> None | Some rx \<Rightarrow> receive_all env sqrt_f ms rx)"

lemma append_byte:
  fixes ts :: u64
  shows "push_bit 8 (take_bit a (drop_bit (k + 8) ts)) OR ucast (ucast (drop_bit k ts) :: u8) = take_bit (a + 8) (drop_bit k ts)"
  by (rule bit_word_eqI) (auto simp: bit_simps dest: bit_imp_le_length)

lemma bytes_timestamp_bytes: "bytes_timestamp (timestamp_bytes ts) = take_bit 48 ts"
  using append_byte [of 0 40 ts] append_byte [of 8 32 ts] append_byte [of 16 24 ts] append_byte [of 24 16 ts] append_byte [of 32 8 ts]
    append_byte [of 40 0 ts]
  by (simp add: bytes_timestamp_def timestamp_bytes_def)

lemma message_frame_valid:
  assumes "length m = 7 \<or> length m = 14 \<or> length m = 2"
  shows "valid_frame (message_frame sqrt_f (ts, level, m))"
  using assms by (auto simp: valid_frame_def message_frame_def beast_type_def beast_length_def)

lemma bin_frame_message:
  assumes "length m = 7 \<or> length m = 14 \<or> length m = 2 \<and> mode_ac (rx_net rx)"
  shows "bin_frame env (fst (message_frame sqrt_f (ts, level, m))) (snd (message_frame sqrt_f (ts, level, m))) rx =
    receive_message env (take_bit 48 ts) (signal_level (signal_byte sqrt_f level)) m rx"
proof -
  have "take 6 (snd (message_frame sqrt_f (ts, level, m))) = timestamp_bytes ts" "snd (message_frame sqrt_f (ts, level, m)) ! 6 = signal_byte sqrt_f level"
    "drop 7 (snd (message_frame sqrt_f (ts, level, m))) = m"
    by (simp_all add: message_frame_def nth_append)
  then show ?thesis using assms by (auto simp: bin_frame_def message_frame_def beast_type_def bytes_timestamp_bytes)
qed

lemma deliver_messages:
  assumes "\<forall>(ts, level, m)\<in>set ms. length m = 7 \<or> length m = 14 \<or> length m = 2 \<and> mode_ac (rx_net rx)"
  shows "bin.deliver env (List.map (message_frame sqrt_f) ms) rx = receive_all env sqrt_f ms rx"
  using assms
proof (induction ms arbitrary: rx)
  case (Cons x ms)
  obtain ts level m where x: "x = (ts, level, m)" by (cases x)
  then have len: "length m = 7 \<or> length m = 14 \<or> length m = 2 \<and> mode_ac (rx_net rx)" using Cons.prems by simp
  show ?case
  proof (cases "receive_message env (take_bit 48 ts) (signal_level (signal_byte sqrt_f level)) m rx")
    case (Some rx1)
    then have "rx_net rx1 = rx_net rx" using bin_frame_keeps [where rx = rx and rx' = rx1] bin_frame_message [OF len] by metis
    then show ?thesis using Cons Some by (simp add: x bin_frame_message [OF len])
  qed (simp add: x bin_frame_message [OF len])
qed simp

subsection \<open>Hexadecimal lines\<close>

lemma hex_digit_val:
  assumes "v < 16"
  shows "hexDigitVal (hex_digit v) = uint v" "hex_digit v \<noteq> 0"
proof -
  have "\<forall>k<16. hexDigitVal (hex_digit (word_of_nat k)) = int k \<and> hex_digit (word_of_nat k) \<noteq> 0"
    by code_simp
  moreover have "unat v < 16" using assms by (simp add: word_less_nat_alt)
  ultimately have "hexDigitVal (hex_digit (word_of_nat (unat v))) = int (unat v) \<and> hex_digit (word_of_nat (unat v)) \<noteq> 0" by blast
  then show "hexDigitVal (hex_digit v) = uint v" "hex_digit v \<noteq> 0" by simp_all
qed

lemma nibbles:
  fixes b :: u8
  shows "drop_bit 4 b < 16" "b AND 0xf < 16" "word_of_int (push_bit 4 (uint (drop_bit 4 b)) OR uint (b AND 0xf)) = b"
proof -
  show "b AND 0xf < 16" using word_and_le1 [of b "0xf"] by (simp add: word_le_def word_less_def)
  have "unat (drop_bit 4 b) < 16" using unsigned_less [of b, where ?'a = nat] by (simp add: drop_bit_eq_div unat_div)
  then show "drop_bit 4 b < 16" by (simp add: word_less_nat_alt)
  show "word_of_int (push_bit 4 (uint (drop_bit 4 b)) OR uint (b AND 0xf)) = b"
  proof (rule bit_word_eqI)
    have m: "(0xf :: u8) = mask 4" by (simp add: mask_eq_exp_minus_1)
    fix n :: nat assume "n < LENGTH(8)"
    then show "bit (word_of_int (push_bit 4 (uint (drop_bit 4 b)) OR uint (b AND 0xf)) :: u8) n \<longleftrightarrow> bit b n"
      unfolding m by (auto simp only: bit_word_of_int_iff bit_or_iff bit_push_bit_iff bit_uint_iff bit_drop_bit_eq bit_and_iff bit_mask_iff comp_def
          le_add_diff_inverse possible_bit_def) auto
  qed
qed

lemma hex_bytes_hex_byte: "hex_bytes (concat (List.map hex_byte m)) = Some m"
proof (induction m)
  case (Cons b m)
  have "hexDigitVal (hex_digit (drop_bit 4 b)) = uint (drop_bit 4 b)" "hexDigitVal (hex_digit (b AND 0xf)) = uint (b AND 0xf)"
    by (rule hex_digit_val, rule nibbles)+
  moreover have "uint w \<noteq> -1" for w :: u8 using uint_ge_0 [of w] by linarith
  ultimately show ?case using Cons nibbles(3) [of b] by (simp add: hex_byte_def)
qed simp

lemma hex_byte_plain: "x \<in> set (concat (List.map hex_byte m)) \<Longrightarrow> x \<noteq> 0"
  using hex_digit_val(2) nibbles by (auto simp: hex_byte_def)

lemma length_hex_timestamp [simp]: "length (hex_timestamp t) = 12"
proof -
  have "k \<le> length xs \<Longrightarrow> k \<le> length (strip_zeros k xs)" for k xs
    by (induction k xs rule: strip_zeros.induct) auto
  from this [of 12] show ?thesis by (simp add: hex_timestamp_def min_absorb2)
qed

lemma hex_timestamp_plain: "x \<in> set (hex_timestamp t) \<Longrightarrow> x \<noteq> 0"
proof -
  have sub: "x \<in> set (strip_zeros k xs) \<Longrightarrow> x \<in> set xs" for x k xs
    by (induction k xs rule: strip_zeros.induct) (auto split: if_splits)
  have "ucast (drop_bit j t) AND 0xf < (16 :: u8)" for j
    using nibbles(2) by blast
  then have "hex_digit (ucast (drop_bit j t) AND 0xf) \<noteq> 0" for j by (rule hex_digit_val(2))
  then show "x \<in> set (hex_timestamp t) \<Longrightarrow> x \<noteq> 0"
    unfolding hex_timestamp_def by (auto dest!: in_set_takeD sub)
qed

text \<open>The text of a raw line, without the end of line that the reader replaces by a NUL.\<close>

lemma raw_line_text:
  obtains head where "butlast (raw_line mlat t m) = head @ concat (List.map hex_byte m) @ [0x3b]"
    "head = [0x2a] \<or> (\<exists>ds. head = 0x40 # ds \<and> length ds = 12)" "\<forall>x\<in>set head. x \<noteq> 0"
proof
  let ?head = "if mlat \<and> t \<noteq> 0 then 0x40 # hex_timestamp t else [0x2a]"
  show "butlast (raw_line mlat t m) = ?head @ concat (List.map hex_byte m) @ [0x3b]" by (simp add: raw_line_def butlast_append)
  show "?head = [0x2a] \<or> (\<exists>ds. ?head = 0x40 # ds \<and> length ds = 12)" by auto
  show "\<forall>x\<in>set ?head. x \<noteq> 0" using hex_timestamp_plain by auto
qed

lemma take_string: "\<forall>x\<in>set xs. x \<noteq> 0 \<Longrightarrow> takeWhile (\<lambda>x. x \<noteq> 0) (xs @ 0x3b # 0 # rest) = xs @ [0x3b :: u8]"
  by (induction xs) auto

lemma trim_message_plain:
  assumes "c_string b i = x # xs @ [y]" "\<not> is_space x" "\<not> is_space y"
  shows "trim_message b i = (b, i, Suc (Suc (length xs)))"
proof -
  have "rev (dropWhile is_space (rev (c_string b i))) = c_string b i" "takeWhile is_space (c_string b i) = []"
    using assms by simp_all
  then show ?thesis by (simp add: trim_message_def Let_def assms(1))
qed

text \<open>An empty line at the start of the buffer: the byte before the buffer is read.\<close>

lemma decodeHexMessage_empty_line:
  assumes "0 < length b" "b ! 0 = 0"
  shows "decodeHexMessage env b 0 rx = None"
proof -
  have "c_string b 0 = []" using assms by (cases b) (simp_all add: c_string_def)
  then show ?thesis using assms by (simp add: decodeHexMessage_def trim_message_def c_simps)
qed

subsection \<open>Properties\<close>

text \<open>
  C29. Round trip: a stream of Mode S and (where enabled) Mode A/C messages in the format that
  \<^verbatim>\<open>writeBeastMessage\<close> writes is read back message by message, however the bytes are cut into segments:
  polling the client delivers every message once and in order, with its payload, its timestamp modulo
  2^48 and its quantised signal level, and leaves nothing in the kernel.
\<close>

theorem beast_stream_roundtrip:
  assumes "bin_ready c rx" "get_client (rx_net rx) c = Some cl" "buflen cl = 0" "length (buf cl) = MODES_CLIENT_BUF_SIZE + 1"
    and "\<forall>(ts, level, m)\<in>set ms. length m = 7 \<or> length m = 14 \<or> length m = 2 \<and> mode_ac (rx_net rx)"
    and "concat (pending k) = concat (List.map (\<lambda>(ts, level, m).
      beast_frame (the (beast_type (length m))) (timestamp_bytes ts @ [signal_byte sqrt_f level] @ m)) ms)"
    and "[] \<notin> set (pending k)" "at_end k = WouldBlock" "length (concat (pending k)) \<le> polls"
  shows "map_option (\<lambda>(k, rx). (pending k, forget c rx)) (poll polls env c k rx) =
    map_option (\<lambda>rx. ([], forget c rx)) (receive_all env sqrt_f ms rx)"
proof -
  let ?fs = "List.map (message_frame sqrt_f) ms"
  have "frames_bytes ?fs = concat (pending k)"
    unfolding assms(6) frames_bytes_def List.map_map
    by (intro arg_cong [where f = concat] map_cong) (auto simp: frame_bytes_def message_frame_def)
  moreover have "\<forall>f\<in>set ?fs. valid_frame f"
    using assms(5) message_frame_valid by (auto simp: message_frame_valid split_paired_all)
  ultimately have inv: "stream_inv (buf cl) (buflen cl) k ?fs"
    using assms(3,4,7,8) by (simp add: stream_inv_def incomplete_def)
  have "kernel_bytes k \<le> polls" using assms(9) by (simp add: kernel_bytes_def length_concat)
  from poll_frames [OF assms(1,2) inv this, of env] deliver_messages [OF assms(5), of env sqrt_f] show ?thesis by simp
qed

definition example_client :: client where
  "example_client = \<lparr>fd = 5, cl_service = Some 0, buflen = 0, buf = replicate 1025 0, modeac_requested = False\<rparr>"

definition example_rx :: rx where
  "example_rx = \<lparr>rx_net = example_start\<lparr>clients := [(0, example_client)], mode_ac := True,
       services := [\<lparr>connections = 1, sv_writer = None, read_sep = [], read_mode = READ_MODE_BEAST, read_handler = Some DecodeBinMessage\<rparr>]\<rparr>,
     rx_icao = icaoFilterInit, remote_received_modeac = 0, remote_received_modes = 0, remote_rejected_bad = 0,
     remote_rejected_unknown_icao = 0, remote_accepted = [0, 0, 0], cpr_filtered = 0, used_messages = [], user_position = None,
     position_updates = [], faup_rate_multiplier = 1, faup_upload_unknown_commb = False\<rparr>"

theorem beast_stream_roundtrip_witness:
  "\<forall>env. \<exists>k' rx'. poll 13 env 0 \<lparr>pending = [[0x1a, 0x31, 0, 0, 0, 0, 0, 0x1a], [0x1a, 0, 0x0a], [0x1a, 0x1a]], at_end = WouldBlock\<rparr> example_rx = Some (k', rx') \<and>
    pending k' = [] \<and> List.map timestampMsg (used_messages rx') = [0x1a]"
proof (rule allI)
  fix env
  let ?k = "\<lparr>pending = [[0x1a, 0x31, 0, 0, 0, 0, 0, 0x1a], [0x1a, 0, 0x0a], [0x1a, 0x1a]], at_end = WouldBlock\<rparr>"
  have ready: "bin_ready 0 example_rx" by (simp add: bin_ready_def example_rx_def example_client_def)
  have bytes: "signal_byte (\<lambda>x. x) 0 = 0" by code_simp
  have stream: "concat (pending ?k) = concat (List.map (\<lambda>(ts, level, m).
      beast_frame (the (beast_type (length m))) (timestamp_bytes ts @ [signal_byte (\<lambda>x. x) level] @ m)) [(0x1a, 0, [0x0a, 0x1a])])"
    by (simp add: beast_frame_def beast_type_def bytes timestamp_bytes_def ESC_def)
  have all: "\<exists>rx'. receive_all env (\<lambda>x. x) [(0x1a, 0, [0x0a, 0x1a])] example_rx = Some rx' \<and> List.map timestampMsg (used_messages rx') = [0x1a]"
    by (simp add: receive_message_def Let_def example_rx_def decodeModeAMessage_def)
  have "map_option (\<lambda>(k, rx). (pending k, forget 0 rx)) (poll 13 env 0 ?k example_rx) =
      map_option (\<lambda>rx. ([], forget 0 rx)) (receive_all env (\<lambda>x. x) [(0x1a, 0, [0x0a, 0x1a])] example_rx)"
    by (rule beast_stream_roundtrip [OF ready, of example_client, OF _ _ _ _ stream])
      (simp_all add: example_rx_def example_client_def MODES_CLIENT_BUF_SIZE_def)
  then obtain k' rx' rx'' where r: "poll 13 env 0 ?k example_rx = Some (k', rx')" "pending k' = []" "forget 0 rx' = forget 0 rx''"
    "receive_all env (\<lambda>x. x) [(0x1a, 0, [0x0a, 0x1a])] example_rx = Some rx''" using all by auto
  then have "used_messages rx' = used_messages rx''" by (metis used_messages_forget)
  with r show "\<exists>k' rx'. poll 13 env 0 ?k example_rx = Some (k', rx') \<and> pending k' = [] \<and>
    List.map timestampMsg (used_messages rx') = [0x1a]" using all by auto
qed

text \<open>
  Round trip: the line that \<^verbatim>\<open>modesSendRawOutput\<close> writes for a message, with or without a timestamp,
  is decoded by \<^verbatim>\<open>decodeHexMessage\<close>, wherever it stands in the buffer, as the reception of that message.
\<close>

theorem raw_line_roundtrip:
  assumes "drop i b = butlast (raw_line mlat ts m) @ 0 # rest"
    and "length m = 7 \<or> length m = 14 \<or> length m = 2 \<and> mode_ac (rx_net rx)"
  shows "decodeHexMessage env b i rx = receive_message env 0 0 m rx"
proof -
  let ?hex = "concat (List.map hex_byte m)"
  obtain head where head: "butlast (raw_line mlat ts m) = head @ ?hex @ [0x3b]" "head = [0x2a] \<or> (\<exists>ds. head = 0x40 # ds \<and> length ds = 12)"
    "\<forall>x\<in>set head. x \<noteq> 0" by (rule raw_line_text)
  define h where "h = hd head"
  define ds where "ds = tl head"
  have hd: "head = h # ds" "h = 0x2a \<and> ds = [] \<or> h = 0x40 \<and> length ds = 12" using head(2) by (auto simp: h_def ds_def)
  have b: "drop i b = h # ds @ ?hex @ 0x3b # 0 # rest" using assms(1) head(1) hd(1) by simp
  have str: "c_string b i = h # (ds @ ?hex) @ [0x3b]"
  proof -
    have "\<forall>x\<in>set (h # ds @ ?hex). x \<noteq> 0" using head(3) hex_byte_plain [of _ m] unfolding hd(1) by auto
    from take_string [OF this] show ?thesis unfolding c_string_def b by simp
  qed
  have trim: "trim_message b i = (b, i, Suc (Suc (length (ds @ ?hex))))"
    by (rule trim_message_plain [OF str]) (use hd(2) in \<open>auto simp: is_space_def\<close>)
  have get: "arr_get b (i + j) = arr_get (h # ds @ ?hex @ 0x3b # 0 # rest) j" for j
    unfolding b [symmetric] by (auto simp: arr_get_def)
  define l where "l = Suc (Suc (length (ds @ ?hex)))"
  have first: "arr_get b i = Some h" using get [of 0] by (simp add: arr_get_def)
  have last: "arr_get b (i + l - 1) = Some 0x3b"
    using get [of "Suc (length (ds @ ?hex))"] by (simp add: l_def arr_get_def nth_append)
  have digits: "take (2 * length m) (drop (i + Suc (length ds)) b) = ?hex"
  proof -
    have "drop (i + Suc (length ds)) b = drop (Suc (length ds)) (drop i b)" by (simp add: add.commute)
    then show ?thesis unfolding b by simp
  qed
  have n: "int l - int (Suc (length ds)) - 1 = int (2 * length m)" by (simp add: l_def)
  have pos: "0 < i + l" "length (c_string b i) < length (drop i b)" unfolding str b by (simp_all add: l_def)
  have len: "int (2 * length m) \<noteq> 4 \<and> int (2 * length m) \<noteq> 14 \<and> int (2 * length m) \<noteq> 28 \<longleftrightarrow> False"
    "\<not> mode_ac (rx_net rx) \<and> int (2 * length m) = 4 \<longleftrightarrow> False"
    using assms(2) by auto
  have skip: "(if h = 0x3c then x
      else if h = 0x40 \<or> h = 0x25 then Some (Some (13, 0))
      else if h = 0x2a \<or> h = 0x3a then Some (Some (1, 0)) else Some None) = Some (Some (Suc (length ds), 0))" for x :: "(nat \<times> rat) option option"
    using hd(2) by auto
  show ?thesis
    unfolding decodeHexMessage_def trim [folded l_def] c_assert_bind if_P [OF pos(2)] Let_def prod.case if_P [OF pos(1)]
      last first bind.bind_lunit option.case
    by (simp only: skip bind.bind_lunit option.case prod.case n len if_False nat_int digits hex_bytes_hex_byte simp_thms if_cancel)
qed

theorem raw_line_roundtrip_witness:
  "\<forall>env. decodeHexMessage env ((raw_line True 0x1234 [0x7f, 0x0a])[18 := 0] @ [1, 2]) 0 example_rx = receive_message env 0 0 [0x7f, 0x0a] example_rx"
proof (rule allI, rule raw_line_roundtrip)
  show "drop 0 ((raw_line True 0x1234 [0x7f, 0x0a])[18 := 0] @ [1, 2]) = butlast (raw_line True 0x1234 [0x7f, 0x0a]) @ 0 # [1, 2]"
    by (simp add: raw_line_def hex_timestamp_def hex_byte_def upt_rec hex_digit_def)
qed (simp add: example_rx_def)

end
