(* ===== verification/Cpr.thy ===== *)
theory Cpr
  imports Fp
begin

text \<open>
  Compact position reporting, translated from \<^verbatim>\<open>src/cpr.c\<close>: global decoding of a pair of airborne or
  surface positions and decoding relative to a reference. Every \<^verbatim>\<open>double\<close> operation is followed by its
  rounding \<open>f64\<close>; a negative return code is \<open>Inl\<close>, the two output parameters are \<open>Inr\<close>.
\<close>

definition cprModInt :: "int \<Rightarrow> int \<Rightarrow> int" where
  "cprModInt a b = (let res = sgn a * (\<bar>a\<bar> mod \<bar>b\<bar>) in if res < 0 then res + b else res)"

text \<open>C's \<^verbatim>\<open>fmod\<close> is exact: the quotient is truncated towards zero.\<close>

definition fmod :: "rat \<Rightarrow> rat \<Rightarrow> rat" where
  "fmod a b = (let q = a / b in a - b * of_int (if q < 0 then \<lceil>q\<rceil> else \<lfloor>q\<rfloor>))"

definition cprModDouble :: "rat \<Rightarrow> rat \<Rightarrow> rat" where
  "cprModDouble a b = (let res = fmod a b in if res < 0 then f64 (res + b) else res)"

text \<open>The latitudes at which the number of longitude zones falls from 59 to 1, in units of 1e-8 degrees.\<close>

definition cprNL_limits :: "int list" where
  "cprNL_limits = [
      1047047130, 1482817437, 1818626357, 2102939493, 2354504487, 2582924707, 2793898710, 2991135686,
      3177209708, 3353993436, 3522899598, 3685025108, 3841241892, 3992256684, 4138651832, 4280914012,
      4419454951, 4554626723, 4686733252, 4816039128, 4942776439, 5067150166, 5189342469, 5309516153,
      5427817472, 5544378444, 5659318756, 5772747354, 5884763776, 5995459277, 6104917774, 6213216659,
      6320427479, 6426616523, 6531845310, 6636171008, 6739646774, 6842322022, 6944242631, 7045451075,
      7145986473, 7245884545, 7345177442, 7443893416, 7542056257, 7639684391, 7736789461, 7833374083,
      7929428225, 8024923213, 8119801349, 8213956981, 8307199445, 8399173563, 8489166191, 8575541621,
      8653536998, 8700000000]"

definition cprNLFunction :: "rat \<Rightarrow> int" where
  "cprNLFunction lat =
     (let lat = (if lat < 0 then - lat else lat)
      in 59 - int (length (takeWhile (\<lambda>c. \<not> lat < f64 (of_int c / 10 ^ 8)) cprNL_limits)))"

definition cprNFunction :: "rat \<Rightarrow> bool \<Rightarrow> int" where
  "cprNFunction lat fflag = (let nl = cprNLFunction lat - (if fflag then 1 else 0) in if nl < 1 then 1 else nl)"

definition cprDlonFunction :: "rat \<Rightarrow> bool \<Rightarrow> bool \<Rightarrow> rat" where
  "cprDlonFunction lat fflag surface = f64 ((if surface then 90 else 360) / of_int (cprNFunction lat fflag))"

text \<open>The latitude and longitude indices and the coordinate of a zone.\<close>

definition cpr_index :: "int \<Rightarrow> int \<Rightarrow> int \<Rightarrow> int \<Rightarrow> int" where
  "cpr_index n0 n1 c0 c1 =
     \<lfloor>f64 (f64 (f64 (f64 (of_int (c0 * n0)) - f64 (of_int (c1 * n1))) / 131072) + 1 / 2)\<rfloor>"

definition cpr_coordinate :: "rat \<Rightarrow> int \<Rightarrow> int \<Rightarrow> rat" where
  "cpr_coordinate dl zone c = f64 (dl * f64 (of_int zone + f64 (of_int c / 131072)))"

definition renormalize :: "rat \<Rightarrow> rat" where
  "renormalize rlon = f64 (rlon - f64 (of_int \<lfloor>f64 (f64 (rlon + 180) / 360)\<rfloor> * 360))"

definition out_of_range :: "rat \<Rightarrow> bool" where
  "out_of_range lat \<longleftrightarrow> lat < -90 \<or> lat > 90"

definition wrap_latitude :: "rat \<Rightarrow> rat" where
  "wrap_latitude rlat = (if rlat \<ge> 270 then f64 (rlat - 360) else rlat)"

text \<open>The longitude of the even or odd position, once the latitudes are known.\<close>

definition cpr_longitude :: "bool \<Rightarrow> rat \<Rightarrow> int \<Rightarrow> int \<Rightarrow> bool \<Rightarrow> rat" where
  "cpr_longitude fflag rlat lon0 lon1 surface =
     (let ni = cprNFunction rlat fflag;
          m = cpr_index (cprNLFunction rlat - 1) (cprNLFunction rlat) lon0 lon1
      in cpr_coordinate (cprDlonFunction rlat fflag surface) (cprModInt m ni) (if fflag then lon1 else lon0))"

definition decodeCPRairborne :: "int \<Rightarrow> int \<Rightarrow> int \<Rightarrow> int \<Rightarrow> bool \<Rightarrow> int + rat \<times> rat" where
  "decodeCPRairborne even_cprlat even_cprlon odd_cprlat odd_cprlon fflag =
     (let j = cpr_index 59 60 even_cprlat odd_cprlat;
          rlat0 = wrap_latitude (cpr_coordinate (f64 (360 / 60)) (cprModInt j 60) even_cprlat);
          rlat1 = wrap_latitude (cpr_coordinate (f64 (360 / 59)) (cprModInt j 59) odd_cprlat)
      in if out_of_range rlat0 \<or> out_of_range rlat1 then Inl (-2)
         else if cprNLFunction rlat0 \<noteq> cprNLFunction rlat1 then Inl (-1)
         else
           let rlat = (if fflag then rlat1 else rlat0);
               rlon = cpr_longitude fflag rlat even_cprlon odd_cprlon False
           in Inr (rlat, renormalize rlon))"

text \<open>The quadrant of a surface latitude that is closest to the reference.\<close>

definition surface_quadrant :: "rat \<Rightarrow> rat \<Rightarrow> rat" where
  "surface_quadrant reflat rlat =
     (if rlat = 0 then if reflat < -45 then -90 else if reflat > 45 then 90 else rlat
      else if f64 (rlat - reflat) > 45 then f64 (rlat - 90) else rlat)"

definition decodeCPRsurface :: "rat \<Rightarrow> rat \<Rightarrow> int \<Rightarrow> int \<Rightarrow> int \<Rightarrow> int \<Rightarrow> bool \<Rightarrow> int + rat \<times> rat" where
  "decodeCPRsurface reflat reflon even_cprlat even_cprlon odd_cprlat odd_cprlon fflag =
     (let j = cpr_index 59 60 even_cprlat odd_cprlat;
          rlat0 = surface_quadrant reflat (cpr_coordinate (f64 (90 / 60)) (cprModInt j 60) even_cprlat);
          rlat1 = surface_quadrant reflat (cpr_coordinate (f64 (90 / 59)) (cprModInt j 59) odd_cprlat)
      in if out_of_range rlat0 \<or> out_of_range rlat1 then Inl (-2)
         else if cprNLFunction rlat0 \<noteq> cprNLFunction rlat1 then Inl (-1)
         else
           let rlat = (if fflag then rlat1 else rlat0);
               rlon = cpr_longitude fflag rlat even_cprlon odd_cprlon True;
               rlon = f64 (rlon + f64 (of_int \<lfloor>f64 (f64 (f64 (reflon - rlon) + 45) / 90)\<rfloor> * 90))
           in Inr (rlat, renormalize rlon))"

text \<open>The cell index closest to the reference.\<close>

definition relative_index :: "rat \<Rightarrow> rat \<Rightarrow> rat \<Rightarrow> int" where
  "relative_index ref dl fraction =
     \<lfloor>f64 (of_int \<lfloor>f64 (ref / dl)\<rfloor> + of_int \<lfloor>f64 (f64 (1 / 2 + f64 (cprModDouble ref dl / dl)) - fraction)\<rfloor>)\<rfloor>"

definition decodeCPRrelative :: "rat \<Rightarrow> rat \<Rightarrow> int \<Rightarrow> int \<Rightarrow> bool \<Rightarrow> bool \<Rightarrow> int + rat \<times> rat" where
  "decodeCPRrelative reflat reflon cprlat cprlon fflag surface =
     (let fractional_lat = f64 (of_int cprlat / 131072);
          fractional_lon = f64 (of_int cprlon / 131072);
          AirDlat = f64 ((if surface then 90 else 360) / (if fflag then 59 else 60));
          j = relative_index reflat AirDlat fractional_lat;
          rlat = f64 (AirDlat * f64 (of_int j + fractional_lat));
          rlat = (if rlat \<ge> 270 then f64 (rlat - 360) else rlat)
      in if rlat < -90 \<or> rlat > 90 then Inl (-1)
         else if \<bar>f64 (rlat - reflat)\<bar> > f64 (AirDlat / 2) then Inl (-1)
         else
           let AirDlon = cprDlonFunction rlat fflag surface;
               m = relative_index reflon AirDlon fractional_lon;
               rlon = f64 (AirDlon * f64 (of_int m + fractional_lon));
               rlon = (if rlon > 180 then f64 (rlon - 360) else rlon)
           in if \<bar>f64 (rlon - reflon)\<bar> > f64 (AirDlon / 2) then Inl (-1)
              else Inr (rlat, rlon))"

subsection \<open>Rounding\<close>

lemma f64_error:
  assumes "\<bar>x\<bar> < 2 ^ k"
  shows "\<bar>f64 x - x\<bar> \<le> 2 powi (int k - 54)"
proof (cases "x = 0")
  case False
  then have x: "0 < \<bar>x\<bar>" by simp
  have "ilog2 \<bar>x\<bar> < int k"
  proof (rule ccontr)
    assume "\<not> ilog2 \<bar>x\<bar> < int k"
    then have "(2 :: rat) powi int k \<le> 2 powi ilog2 \<bar>x\<bar>" by (intro power_int_increasing) auto
    then show False using ilog2_bounds(1) [OF x] assms by (simp add: power_int_of_nat)
  qed
  then have "(2 :: rat) powi (ilog2 \<bar>x\<bar> + 1 - 53) \<le> 2 powi (int k - 53)" by (intro power_int_increasing) auto
  moreover have "(2 :: rat) powi (int k - 53) = 2 * 2 powi (int k - 54)"
    using power_int_add [of "2 :: rat" "int k - 54" 1] by simp
  ultimately show ?thesis
    using fround_error [of 53 x] unfolding f64_def ulp_def by simp
qed simp

subsection \<open>Exact integer parts\<close>

lemma cprModInt_mod:
  assumes "0 < b"
  shows "cprModInt a b = a mod b"
proof (cases "a < 0")
  case True
  define r where "r = (- a) mod b"
  have r: "0 \<le> r" "r < b" using assms by (simp_all add: r_def)
  have "a mod b = (if r = 0 then 0 else b - r)" using zmod_zminus1_eq_if [of "- a" b] by (simp add: r_def)
  moreover have "cprModInt a b = (if - r < 0 then - r + b else - r)"
    using True assms by (simp add: cprModInt_def r_def)
  ultimately show ?thesis using r by auto
next
  case False
  have "\<not> a mod b < 0" using assms by (simp add: not_less)
  then show ?thesis using False assms by (auto simp: cprModInt_def Let_def sgn_if)
qed

lemma cpr_index_exact:
  assumes "0 \<le> c0" "c0 < 2 ^ 17" "0 \<le> c1" "c1 < 2 ^ 17" "0 \<le> n0" "n0 \<le> 60" "0 \<le> n1" "n1 \<le> 60"
  shows "cpr_index n0 n1 c0 c1 = (c0 * n0 - c1 * n1 + 2 ^ 16) div 2 ^ 17"
proof -
  have b: "0 \<le> c0 * n0" "c0 * n0 \<le> 2 ^ 17 * 60" "0 \<le> c1 * n1" "c1 * n1 \<le> 2 ^ 17 * 60"
    using assms mult_mono [of c0 "2 ^ 17" n0 60] mult_mono [of c1 "2 ^ 17" n1 60] by simp_all
  define d where "d = c0 * n0 - c1 * n1"
  have d: "\<bar>d\<bar> \<le> 2 ^ 17 * 60" using b by (simp add: d_def abs_if)
  have p: "f64 (of_int (c0 * n0)) = of_int (c0 * n0)" "f64 (of_int (c1 * n1)) = of_int (c1 * n1)"
    by (rule f64_of_int, use b in simp)+
  have q: "f64 (of_int d) = of_int d" by (rule f64_of_int) (use d in simp)
  have r: "f64 (of_int d / 2 ^ 17) = of_int d / 2 ^ 17" by (rule f64_exact [OF fits_scaled]) (use d in simp)
  have s: "f64 (of_int (d + 2 ^ 16) / 2 ^ 17) = of_int (d + 2 ^ 16) / 2 ^ 17"
    by (rule f64_exact [OF fits_scaled]) (use d in \<open>simp add: abs_if split: if_splits\<close>)
  have "cpr_index n0 n1 c0 c1 = \<lfloor>f64 (f64 (f64 (of_int d) / 2 ^ 17) + 1 / 2)\<rfloor>"
    unfolding cpr_index_def p d_def of_int_diff by simp
  also have "\<dots> = \<lfloor>f64 (of_int d / 2 ^ 17 + 1 / 2)\<rfloor>" unfolding q r ..
  also have "of_int d / 2 ^ 17 + 1 / 2 = (of_int (d + 2 ^ 16) / 2 ^ 17 :: rat)" by (simp add: field_simps)
  also have "\<lfloor>f64 \<dots>\<rfloor> = \<lfloor>of_int (d + 2 ^ 16) / (of_int (2 ^ 17) :: rat)\<rfloor>" unfolding s by simp
  also have "\<dots> = (d + 2 ^ 16) div 2 ^ 17" by (rule floor_divide_of_int_eq)
  finally show ?thesis by (simp add: d_def)
qed

text \<open>
  The encoding of an angle, as a fraction \<open>t\<close> of a circle, with \<open>n\<close> zones to 17 bits: \<open>grid n t\<close> is the
  nearest point of the grid, counted from zero; the message carries its position in its zone.
\<close>

definition grid :: "int \<Rightarrow> rat \<Rightarrow> int" where
  "grid n t = \<lfloor>2 ^ 17 * (of_int n * t) + 1 / 2\<rfloor>"

definition cpr_encode :: "int \<Rightarrow> rat \<Rightarrow> int" where
  "cpr_encode n t = grid n t mod 2 ^ 17"

lemma grid_error: "\<bar>of_int (grid n t) - 2 ^ 17 * (of_int n * t)\<bar> \<le> 1 / 2"
  unfolding grid_def by linarith

lemma abs_mult_le: "0 \<le> c \<Longrightarrow> \<bar>x\<bar> \<le> y \<Longrightarrow> \<bar>c * x\<bar> \<le> c * (y :: rat)"
  by (simp add: abs_mult mult_left_mono)

lemma zone_index:
  assumes "1 \<le> n" "n \<le> 60"
  shows "(cpr_encode n t * (n - 1) - cpr_encode (n - 1) t * n + 2 ^ 16) div 2 ^ 17 =
    n * (grid (n - 1) t div 2 ^ 17) - (n - 1) * (grid n t div 2 ^ 17)"
proof -
  let ?X = "grid n t" and ?Y = "grid (n - 1) t"
  define e where "e = (n - 1) * ?X - n * ?Y"
  have "(of_int e :: rat) = of_int (n - 1) * (of_int ?X - 2 ^ 17 * (of_int n * t)) - of_int n * (of_int ?Y - 2 ^ 17 * (of_int (n - 1) * t))"
    by (simp add: e_def algebra_simps)
  also have "\<bar>\<dots>\<bar> \<le> of_int (n - 1) * (1 / 2) + of_int n * (1 / 2)"
  proof -
    have "\<bar>of_int (n - 1) * (of_int ?X - 2 ^ 17 * (of_int n * t))\<bar> \<le> of_int (n - 1) * (1 / 2 :: rat)"
      by (rule abs_mult_le [OF _ grid_error]) (use assms(1) in simp)
    moreover have "\<bar>of_int n * (of_int ?Y - 2 ^ 17 * (of_int (n - 1) * t))\<bar> \<le> of_int n * (1 / 2 :: rat)"
      by (rule abs_mult_le [OF _ grid_error]) (use assms(1) in simp)
    ultimately show ?thesis by linarith
  qed
  also have "\<dots> \<le> of_int 60"
  proof -
    have "(of_int n :: rat) \<le> of_int 60" using assms(2) by (simp only: of_int_le_iff)
    moreover have "(r - 1) * (1 / 2) + r * (1 / 2) \<le> 60" if "r \<le> 60" for r :: rat using that by (simp add: field_simps)
    ultimately show ?thesis by (simp only: of_int_diff of_int_numeral of_int_1)
  qed
  finally have "\<bar>of_int e :: rat\<bar> \<le> of_int 60" .
  then have e: "\<bar>e\<bar> \<le> 60" by (metis of_int_abs of_int_le_iff)
  have x: "cpr_encode n t = ?X - 2 ^ 17 * (?X div 2 ^ 17)" "cpr_encode (n - 1) t = ?Y - 2 ^ 17 * (?Y div 2 ^ 17)"
    unfolding cpr_encode_def by (simp_all only: minus_mult_div_eq_mod)
  have "cpr_encode n t * (n - 1) - cpr_encode (n - 1) t * n + 2 ^ 16 =
      (e + 2 ^ 16) + (n * (?Y div 2 ^ 17) - (n - 1) * (?X div 2 ^ 17)) * 2 ^ 17"
    unfolding x e_def by (simp add: algebra_simps)
  also have "\<dots> div 2 ^ 17 = (e + 2 ^ 16) div 2 ^ 17 + (n * (?Y div 2 ^ 17) - (n - 1) * (?X div 2 ^ 17))"
    by simp
  also have "(e + 2 ^ 16) div 2 ^ 17 = 0" using e by (intro div_pos_pos_trivial) (simp_all add: abs_le_iff)
  finally show ?thesis by simp
qed

lemma zone_index_mod:
  assumes "1 \<le> n" "n \<le> 60"
  defines "j \<equiv> \<lambda>t. cpr_index (n - 1) n (cpr_encode n t) (cpr_encode (n - 1) t)"
  shows "j t mod n = (grid n t div 2 ^ 17) mod n" "j t mod (n - 1) = (grid (n - 1) t div 2 ^ 17) mod (n - 1)"
proof -
  let ?a = "grid n t div 2 ^ 17" and ?b = "grid (n - 1) t div 2 ^ 17"
  have "0 \<le> cpr_encode k t" "cpr_encode k t < 2 ^ 17" for k by (simp_all add: cpr_encode_def)
  then have j: "j t = n * ?b - (n - 1) * ?a"
    unfolding j_def using assms(1,2) zone_index [OF assms(1,2)] by (subst cpr_index_exact) auto
  have "j t = ?a + n * (?b - ?a)" unfolding j by (simp add: algebra_simps)
  then show "j t mod n = ?a mod n" by simp
  have "j t = ?b + (n - 1) * (?b - ?a)" unfolding j by (simp add: algebra_simps)
  then show "j t mod (n - 1) = ?b mod (n - 1)" by simp
qed

subsection \<open>Coordinates\<close>

text \<open>The position of a grid point, counted in zones, and its zone as the decoder reconstructs it.\<close>

lemma zone_position:
  assumes "0 < n"
  shows "of_int ((grid n t div 2 ^ 17) mod n) + of_int (cpr_encode n t) / 2 ^ 17 =
    (of_int (grid n t mod (n * 2 ^ 17)) / 2 ^ 17 :: rat)"
proof -
  let ?X = "grid n t"
  have "?X mod (n * 2 ^ 17) = 2 ^ 17 * ((?X div 2 ^ 17) mod n) + ?X mod 2 ^ 17"
    using zmod_zmult2_eq [of n ?X "2 ^ 17"] assms by (simp add: mult.commute)
  then show ?thesis unfolding cpr_encode_def by (simp add: field_simps)
qed

lemma encode_range: "0 \<le> cpr_encode n t" "cpr_encode n t < 2 ^ 17"
  by (simp_all add: cpr_encode_def)

lemma coordinate_exact:
  assumes "0 \<le> z" "z < 60" "0 \<le> c" "c < 2 ^ 17"
  shows "cpr_coordinate dl z c = f64 (dl * (of_int z + of_int c / 2 ^ 17))"
proof -
  have c: "f64 (of_int c / 2 ^ 17) = of_int c / 2 ^ 17" by (rule f64_exact [OF fits_scaled]) (use assms in simp)
  have "f64 (of_int (z * 2 ^ 17 + c) / 2 ^ 17) = of_int (z * 2 ^ 17 + c) / 2 ^ 17"
    by (rule f64_exact [OF fits_scaled]) (use assms in simp)
  moreover have "of_int (z * 2 ^ 17 + c) / 2 ^ 17 = (of_int z + of_int c / 2 ^ 17 :: rat)" by (simp add: field_simps)
  moreover have "(131072 :: rat) = 2 ^ 17" by simp
  ultimately show ?thesis using c by (simp only: cpr_coordinate_def)
qed

lemma coordinate_bounds:
  assumes "0 < n" "n \<le> 60"
  shows "0 \<le> (of_int (grid n t mod (n * 2 ^ 17)) / 2 ^ 17 :: rat)"
    "(of_int (grid n t mod (n * 2 ^ 17)) / 2 ^ 17 :: rat) < of_int n"
proof -
  let ?k = "grid n t mod (n * 2 ^ 17)"
  have k: "0 \<le> ?k" "?k < n * 2 ^ 17" using assms by simp_all
  then show "0 \<le> (of_int ?k / 2 ^ 17 :: rat)" by simp
  have "(of_int ?k :: rat) < of_int (n * 2 ^ 17)" using k(2) by (simp only: of_int_less_iff)
  then show "(of_int ?k / 2 ^ 17 :: rat) < of_int n" by (simp add: field_simps)
qed

text \<open>A decoded coordinate, before it is brought into range: within the rounding error of the grid point.\<close>

definition slack :: rat where
  "slack = 1 / 2 ^ 37"

lemma slack_small: "0 < slack" "slack < 1"
  by (simp_all add: slack_def)

lemma coordinate_error:
  assumes "0 < n" "n \<le> 60" "0 \<le> x" "x < of_int n"
  shows "\<bar>f64 (f64 (360 / of_int n) * x) - 360 / of_int n * x\<bar> \<le> slack" "f64 (f64 (360 / of_int n) * x) < 361"
    "0 \<le> f64 (f64 (360 / of_int n) * x)"
proof -
  let ?n = "of_int n :: rat" and ?d = "f64 (360 / of_int n)"
  have n: "1 \<le> ?n" "?n \<le> 60" using assms by simp_all
  then have q: "0 \<le> 360 / ?n" "360 / ?n \<le> 360" "360 / ?n * x \<le> 360" "0 \<le> 360 / ?n * x"
    using assms(3,4) by (simp_all add: field_simps)
  have "\<bar>?d - 360 / ?n\<bar> \<le> 2 powi (int 9 - 54)" by (rule f64_error) (use q in simp)
  then have "\<bar>(?d - 360 / ?n) * x\<bar> \<le> 2 powi (int 9 - 54) * 60"
    unfolding abs_mult by (rule mult_mono) (use assms n in simp_all)
  then have e1: "\<bar>?d * x - 360 / ?n * x\<bar> \<le> 60 / 2 ^ 45" by (simp add: left_diff_distrib power_int_minus)
  have "\<bar>f64 (?d * x) - ?d * x\<bar> \<le> 2 powi (int 9 - 54)" by (rule f64_error) (use e1 q in \<open>simp add: abs_if split: if_splits\<close>)
  then have e2: "\<bar>f64 (?d * x) - ?d * x\<bar> \<le> 1 / 2 ^ 45" by (simp add: power_int_minus)
  show e: "\<bar>f64 (?d * x) - 360 / ?n * x\<bar> \<le> slack"
    using e1 e2 unfolding slack_def abs_le_iff by (simp only: minus_diff_eq) (auto; linarith)
  have "a < 361" if "\<bar>a - b\<bar> \<le> slack" "b \<le> 360" for a b :: rat
    using that slack_small by (simp add: abs_le_iff)
  from this [OF e q(3)] show "f64 (?d * x) < 361" .
  have "0 \<le> ?d" using q(1) by (simp add: f64_def fround_nonneg)
  then show "0 \<le> f64 (?d * x)" using assms(3) by (simp add: f64_def fround_nonneg)
qed

text \<open>The decoded latitude, for the 60 even and the 59 odd zones.\<close>

definition zone_latitude :: "int \<Rightarrow> rat \<Rightarrow> rat" where
  "zone_latitude n t = wrap_latitude (f64 (f64 (360 / of_int n) * (of_int (grid n t mod (n * 2 ^ 17)) / 2 ^ 17)))"

lemma quarter_exact:
  assumes "n = 59 \<or> n = (60 :: int)"
  shows "f64 (f64 (360 / of_int n) * (of_int n / 4)) = 90" "f64 (f64 (360 / of_int n) * (3 * of_int n / 4)) = 270"
proof -
  have "f64 (f64 (360 / of_int 59) * (of_int 59 / 4)) = 90" "f64 (f64 (360 / of_int 59) * (3 * of_int 59 / 4)) = 270"
    "f64 (f64 (360 / of_int 60) * (of_int 60 / 4)) = 90" "f64 (f64 (360 / of_int 60) * (3 * of_int 60 / 4)) = 270"
    by code_simp+
  then show "f64 (f64 (360 / of_int n) * (of_int n / 4)) = 90" "f64 (f64 (360 / of_int n) * (3 * of_int n / 4)) = 270"
    using assms by (elim disjE; simp only:)+
qed

lemma grid_quarter:
  assumes "0 < n" "\<bar>t\<bar> \<le> 1 / 4"
  shows "- (2 ^ 15 * n) \<le> grid n t" "grid n t \<le> 2 ^ 15 * n"
proof -
  have n: "0 < (of_int n :: rat)" using assms(1) by simp
  have "\<bar>of_int n * t\<bar> \<le> of_int n * (1 / 4)" by (rule abs_mult_le) (use assms n in simp_all)
  then have t: "of_int n * t \<le> of_int n / 4" "- (of_int n / 4) \<le> of_int n * t" by (simp_all add: abs_le_iff)
  have "2 ^ 17 * (of_int n * t) + 1 / 2 < of_int (2 ^ 15 * n + 1)" using t(1) by simp
  then have "\<lfloor>2 ^ 17 * (of_int n * t) + 1 / 2\<rfloor> < 2 ^ 15 * n + 1" by (simp only: floor_less_iff)
  then show "grid n t \<le> 2 ^ 15 * n" by (simp add: grid_def)
  have "of_int (- (2 ^ 15 * n)) \<le> 2 ^ 17 * (of_int n * t) + 1 / 2" using t(2) by simp
  then show "- (2 ^ 15 * n) \<le> grid n t" unfolding grid_def by (simp only: le_floor_iff)
qed

lemma f64_diff_error: "\<bar>x\<bar> < 512 \<Longrightarrow> \<bar>f64 x - x\<bar> \<le> slack"
proof -
  assume "\<bar>x\<bar> < 512"
  then have "\<bar>f64 x - x\<bar> \<le> 2 powi (int 9 - 54)" by (intro f64_error) simp
  also have "\<dots> \<le> slack" by (simp add: slack_def power_int_minus)
  finally show ?thesis .
qed

lemma grid_angle:
  assumes "0 < n"
  shows "\<bar>360 / of_int n * (of_int (grid n t) / 2 ^ 17) - 360 * t\<bar> \<le> 180 / of_int n / 2 ^ 17"
proof -
  have n: "0 < (of_int n :: rat)" using assms by simp
  have "360 / of_int n * (of_int (grid n t) / 2 ^ 17) - 360 * t =
      (360 / of_int n / 2 ^ 17) * (of_int (grid n t) - 2 ^ 17 * (of_int n * t))"
    using n by (simp add: field_simps)
  also have "\<bar>\<dots>\<bar> \<le> (360 / of_int n / 2 ^ 17) * (1 / 2)"
    by (rule abs_mult_le) (use n grid_error [of n t] in simp_all)
  finally show ?thesis by simp
qed

lemma zone_latitude_correct:
  assumes "n = 59 \<or> n = 60" "\<bar>t\<bar> \<le> 1 / 4"
  shows "\<bar>zone_latitude n t - 360 * t\<bar> \<le> 180 / of_int n / 2 ^ 17 + 2 * slack \<and> \<not> out_of_range (zone_latitude n t)"
proof -
  let ?X = "grid n t" and ?D = "f64 (360 / of_int n)"
  let ?x = "of_int (?X mod (n * 2 ^ 17)) / 2 ^ 17 :: rat"
  let ?v = "f64 (?D * ?x)"
  have n: "0 < n" "n \<le> 60" using assms(1) by auto
  note X = grid_quarter [OF n(1) assms(2)]
  note x = coordinate_bounds [OF n, of t]
  note v = coordinate_error [OF n x]
  note q = quarter_exact [OF assms(1)]
  have D: "0 \<le> ?D" using n by (simp add: f64_def fround_nonneg)
  note ga = grid_angle [OF n(1), of t]
  show ?thesis
  proof (cases "0 \<le> ?X")
    case True
    have "?X < n * 2 ^ 17" using X(2) n(1) by simp
    then have xX: "?x = of_int ?X / 2 ^ 17" using True by simp
    have "?x \<le> of_int n / 4"
    proof -
      have "(of_int ?X :: rat) \<le> of_int (2 ^ 15 * n)" using X(2) by (simp only: of_int_le_iff)
      then show ?thesis unfolding xX by simp
    qed
    then have "?D * ?x \<le> ?D * (of_int n / 4)" using D by (rule mult_left_mono)
    then have up: "?v \<le> 90" using f64_mono [of "?D * ?x"] q(1) by metis
    then have z: "zone_latitude n t = ?v" by (simp add: zone_latitude_def wrap_latitude_def)
    have "\<bar>?v - 360 / of_int n * ?x\<bar> \<le> slack" by (rule v(1))
    then have "\<bar>?v - 360 * t\<bar> \<le> 180 / of_int n / 2 ^ 17 + 2 * slack"
      using ga slack_small(1) unfolding xX by (simp only: abs_le_iff) linarith
    then show ?thesis
      using up v(3) unfolding z out_of_range_def by auto
  next
    case False
    then have neg: "?X < 0" by simp
    have m: "?X mod (n * 2 ^ 17) = ?X + n * 2 ^ 17"
    proof -
      have "0 \<le> ?X + n * 2 ^ 17" "?X + n * 2 ^ 17 < n * 2 ^ 17" using X(1) n(1) neg by simp_all
      then have "(?X + n * 2 ^ 17) mod (n * 2 ^ 17) = ?X + n * 2 ^ 17" by (rule mod_pos_pos_trivial)
      then show ?thesis by simp
    qed
    then have xX: "?x = of_int ?X / 2 ^ 17 + of_int n" by (simp add: field_simps)
    have "3 * of_int n / 4 \<le> ?x"
    proof -
      have "(of_int (- (2 ^ 15 * n)) :: rat) \<le> of_int ?X" using X(1) by (simp only: of_int_le_iff)
      then show ?thesis unfolding xX by simp
    qed
    then have "?D * (3 * of_int n / 4) \<le> ?D * ?x" using D by (rule mult_left_mono)
    then have lo: "270 \<le> ?v" using f64_mono [of _ "?D * ?x"] q(2) by metis
    then have z: "zone_latitude n t = f64 (?v - 360)" by (simp add: zone_latitude_def wrap_latitude_def)
    have nn: "(of_int n :: rat) \<noteq> 0" using n(1) by simp
    have "360 / of_int n * ?x = 360 / of_int n * (of_int ?X / 2 ^ 17) + 360"
      unfolding xX using nn by (simp add: field_simps)
    moreover have "\<bar>f64 (?v - 360) - (?v - 360)\<bar> \<le> slack"
      by (rule f64_diff_error) (use lo v(2) in \<open>simp add: abs_if\<close>)
    ultimately have "\<bar>f64 (?v - 360) - 360 * t\<bar> \<le> 180 / of_int n / 2 ^ 17 + 2 * slack"
      using ga v(1) by (simp only: abs_le_iff) linarith
    moreover have "- 90 \<le> f64 (?v - 360)" by (rule f64_ge) (use lo f64_of_int [of "-90"] in simp_all)
    moreover have "f64 (?v - 360) \<le> 90" by (rule f64_le) (use v(2) f64_of_int [of 90] in simp_all)
    ultimately show ?thesis unfolding z out_of_range_def by auto
  qed
qed

text \<open>Bringing a longitude into range.\<close>

lemma renormalize_cases:
  assumes "0 \<le> v" "v < 361"
  shows "v < 180 \<and> renormalize v = f64 v \<or> 180 - slack \<le> v \<and> renormalize v = f64 (v - 360)"
proof -
  let ?w = "f64 (f64 (v + 180) / 360)"
  have up: "f64 (v + 180) \<le> 541" by (rule f64_le) (use assms f64_of_int [of 541] in simp_all)
  have "?w \<le> 7 / 4"
  proof (rule f64_le)
    show "f64 (v + 180) / 360 \<le> 7 / 4" using up by simp
    show "f64 (7 / 4) = 7 / 4" using f64_exact [OF fits_scaled [of 7 53 2]] by simp
  qed
  moreover have "0 \<le> ?w" using assms by (simp add: f64_def fround_nonneg)
  ultimately have "\<lfloor>?w\<rfloor> = 0 \<and> ?w < 1 \<or> \<lfloor>?w\<rfloor> = 1 \<and> 1 \<le> ?w" by linarith
  then show ?thesis
  proof
    assume w: "\<lfloor>?w\<rfloor> = 0 \<and> ?w < 1"
    have "v < 180"
    proof (rule ccontr)
      assume "\<not> v < 180"
      then have "360 \<le> f64 (v + 180)" by (intro f64_ge) (use f64_of_int [of 360] in simp_all)
      then have "1 \<le> ?w" by (intro f64_ge) (use f64_of_int [of 1] in simp_all)
      with w show False by simp
    qed
    moreover have "renormalize v = f64 v" using w by (simp add: renormalize_def)
    ultimately show ?thesis by blast
  next
    assume w: "\<lfloor>?w\<rfloor> = 1 \<and> 1 \<le> ?w"
    have "180 - slack \<le> v"
    proof (rule ccontr)
      assume "\<not> 180 - slack \<le> v"
      then have v: "v + 180 \<le> 360 - slack" by simp
      have "f64 (v + 180) \<le> 360 - slack"
      proof (rule f64_le [OF v])
        have eq: "360 - slack = of_int (360 * 2 ^ 37 - 1) / 2 ^ 37" by (simp add: slack_def)
        show "f64 (360 - slack) = 360 - slack" unfolding eq by (rule f64_exact [OF fits_scaled]) simp
      qed
      then have "f64 (v + 180) / 360 \<le> of_int (2 ^ 46 - 1) / 2 ^ 46" by (simp add: slack_def)
      moreover have "f64 (of_int (2 ^ 46 - 1) / 2 ^ 46) = of_int (2 ^ 46 - 1) / 2 ^ 46"
        by (rule f64_exact [OF fits_scaled]) simp
      ultimately have "?w \<le> of_int (2 ^ 46 - 1) / 2 ^ 46" by (rule f64_le)
      with w show False by simp
    qed
    moreover have "renormalize v = f64 (v - 360)"
      using w f64_of_int [of 360] by (simp add: renormalize_def)
    ultimately show ?thesis by blast
  qed
qed

lemma renormalize_range:
  assumes "0 \<le> v" "v < 361"
  shows "- 180 - slack \<le> renormalize v" "renormalize v \<le> 180"
    "\<exists>k :: int. \<bar>renormalize v - v + 360 * of_int k\<bar> \<le> slack"
proof -
  have exact: "f64 (- 180 - slack) = - 180 - slack"
  proof -
    have eq: "- 180 - slack = of_int (- 180 * 2 ^ 37 - 1) / 2 ^ 37" by (simp add: slack_def)
    show ?thesis unfolding eq by (rule f64_exact [OF fits_scaled]) simp
  qed
  have c180: "f64 180 = 180" using f64_of_int [of 180] by simp
  have neg: "- 180 - slack \<le> 0" using slack_small by simp
  from renormalize_cases [OF assms] show "- 180 - slack \<le> renormalize v"
  proof
    assume "v < 180 \<and> renormalize v = f64 v"
    moreover have "0 \<le> f64 v" using assms(1) by (simp add: f64_def fround_nonneg)
    ultimately show ?thesis using neg by simp
  next
    assume "180 - slack \<le> v \<and> renormalize v = f64 (v - 360)"
    then show ?thesis using f64_ge [OF _ exact, of "v - 360"] by simp
  qed
  from renormalize_cases [OF assms] show "renormalize v \<le> 180"
    using f64_le [OF _ c180, of v] f64_le [OF _ c180, of "v - 360"] assms(2) by auto
  from renormalize_cases [OF assms] show "\<exists>k :: int. \<bar>renormalize v - v + 360 * of_int k\<bar> \<le> slack"
  proof
    assume "v < 180 \<and> renormalize v = f64 v"
    then show ?thesis using f64_diff_error [of v] assms by (intro exI [of _ 0]) simp
  next
    assume "180 - slack \<le> v \<and> renormalize v = f64 (v - 360)"
    then show ?thesis
      using f64_diff_error [of "v - 360"] assms by (intro exI [of _ 1]) (simp add: abs_if algebra_simps split: if_splits)
  qed
qed

lemma takeWhile_length_mono: "(\<And>x. P x \<Longrightarrow> Q x) \<Longrightarrow> length (takeWhile P xs) \<le> length (takeWhile Q xs)"
  by (induction xs) auto

lemma cprNL_range: "1 \<le> cprNLFunction lat" "cprNLFunction lat \<le> 59"
proof -
  have "length (takeWhile P cprNL_limits) \<le> 58" for P
    using length_takeWhile_le [of P cprNL_limits] by (simp add: cprNL_limits_def)
  then show "1 \<le> cprNLFunction lat" "cprNLFunction lat \<le> 59" by (simp_all add: cprNLFunction_def Let_def)
qed

subsection \<open>Decoding what was encoded\<close>

lemma airborne_latitudes:
  defines "j \<equiv> \<lambda>t. cpr_index 59 60 (cpr_encode 60 t) (cpr_encode 59 t)"
  shows "wrap_latitude (cpr_coordinate (f64 (360 / 60)) (cprModInt (j t) 60) (cpr_encode 60 t)) = zone_latitude 60 t"
    "wrap_latitude (cpr_coordinate (f64 (360 / 59)) (cprModInt (j t) 59) (cpr_encode 59 t)) = zone_latitude 59 t"
proof -
  have z: "cprModInt (j t) 60 = grid 60 t div 2 ^ 17 mod 60" "cprModInt (j t) 59 = grid 59 t div 2 ^ 17 mod 59"
    using zone_index_mod [of 60 t] by (simp_all add: j_def cprModInt_mod)
  have c: "cpr_coordinate dl (grid n t div 2 ^ 17 mod n) (cpr_encode n t) =
      f64 (dl * (of_int (grid n t mod (n * 2 ^ 17)) / 2 ^ 17))" if "0 < n" "n \<le> 60" for dl n
  proof (subst coordinate_exact)
    show "0 \<le> grid n t div 2 ^ 17 mod n" using that by simp
    show "grid n t div 2 ^ 17 mod n < 60"
      using that(2) pos_mod_bound [OF that(1), of "grid n t div 2 ^ 17"] by linarith
  qed (simp_all only: encode_range zone_position [OF that(1)])
  show "wrap_latitude (cpr_coordinate (f64 (360 / 60)) (cprModInt (j t) 60) (cpr_encode 60 t)) = zone_latitude 60 t"
    unfolding z using c [of 60] by (simp add: zone_latitude_def)
  show "wrap_latitude (cpr_coordinate (f64 (360 / 59)) (cprModInt (j t) 59) (cpr_encode 59 t)) = zone_latitude 59 t"
    unfolding z using c [of 59] by (simp add: zone_latitude_def)
qed

lemma longitude_index:
  fixes fflag :: bool and rlat :: rat
  defines "nl \<equiv> cprNLFunction rlat" and "ni \<equiv> cprNFunction rlat fflag"
  shows "cprModInt (cpr_index (nl - 1) nl (cpr_encode nl u) (cpr_encode (max 1 (nl - 1)) u)) ni = (grid ni u div 2 ^ 17) mod ni"
    "(if fflag then cpr_encode (max 1 (nl - 1)) u else cpr_encode nl u) = cpr_encode ni u" "1 \<le> ni" "ni \<le> 59"
proof -
  have nl: "1 \<le> nl" "nl \<le> 59" using cprNL_range by (simp_all add: nl_def)
  have ni: "ni = (if fflag then max 1 (nl - 1) else nl)"
    using nl by (simp add: ni_def nl_def cprNFunction_def Let_def)
  show "(if fflag then cpr_encode (max 1 (nl - 1)) u else cpr_encode nl u) = cpr_encode ni u" "1 \<le> ni" "ni \<le> 59"
    using ni nl by auto
  show "cprModInt (cpr_index (nl - 1) nl (cpr_encode nl u) (cpr_encode (max 1 (nl - 1)) u)) ni = (grid ni u div 2 ^ 17) mod ni"
  proof (cases "nl = 1")
    case True
    then have "ni = 1" using ni by simp
    then show ?thesis by (simp add: cprModInt_mod)
  next
    case False
    then show ?thesis using zone_index_mod [of nl u] nl ni by (cases fflag) (simp_all add: cprModInt_mod max_absorb2)
  qed
qed

lemma airborne_longitude:
  fixes fflag :: bool and rlat :: rat
  defines "nl \<equiv> cprNLFunction rlat" and "ni \<equiv> cprNFunction rlat fflag"
  shows "cpr_longitude fflag rlat (cpr_encode nl u) (cpr_encode (max 1 (nl - 1)) u) False =
    f64 (f64 (360 / of_int ni) * (of_int (grid ni u mod (ni * 2 ^ 17)) / 2 ^ 17))"
proof -
  note i = longitude_index(1,2) [where rlat = rlat and fflag = fflag and u = u, folded nl_def ni_def]
  have ni: "0 < ni" "ni \<le> 60" using longitude_index(3,4) [where rlat = rlat and fflag = fflag] by (simp_all add: ni_def)
  have "cpr_longitude fflag rlat (cpr_encode nl u) (cpr_encode (max 1 (nl - 1)) u) False =
      cpr_coordinate (f64 (360 / of_int ni)) (grid ni u div 2 ^ 17 mod ni) (cpr_encode ni u)"
    unfolding cpr_longitude_def Let_def nl_def [symmetric] ni_def [symmetric] cprDlonFunction_def i(1)
    by (simp add: i(2))
  also have "\<dots> = f64 (f64 (360 / of_int ni) * (of_int (grid ni u div 2 ^ 17 mod ni) + of_int (cpr_encode ni u) / 2 ^ 17))"
  proof (rule coordinate_exact)
    show "0 \<le> grid ni u div 2 ^ 17 mod ni" using ni by simp
    show "grid ni u div 2 ^ 17 mod ni < 60" using ni(2) pos_mod_bound [OF ni(1), of "grid ni u div 2 ^ 17"] by linarith
  qed (simp_all only: encode_range)
  finally show ?thesis unfolding zone_position [OF ni(1)] .
qed

lemma angle_chain:
  fixes r v y z w b s k q :: rat
  assumes "\<bar>r - v + 360 * k\<bar> \<le> s" "\<bar>v - y\<bar> \<le> s" "y = z - 360 * q" "\<bar>z - w\<bar> \<le> b"
  shows "\<bar>r - w - 360 * (- k - q)\<bar> \<le> b + 2 * s"
  using assms by (simp add: abs_le_iff)

lemma longitude_correct:
  fixes n :: int and u :: rat
  assumes "0 < n" "n \<le> 60"
  defines "v \<equiv> f64 (f64 (360 / of_int n) * (of_int (grid n u mod (n * 2 ^ 17)) / 2 ^ 17))"
  shows "\<exists>k :: int. \<bar>renormalize v - 360 * u - 360 * of_int k\<bar> \<le> 180 / of_int n / 2 ^ 17 + 2 * slack"
proof -
  let ?X = "grid n u" and ?x = "of_int (grid n u mod (n * 2 ^ 17)) / 2 ^ 17 :: rat"
  note e = coordinate_error [OF assms(1,2) coordinate_bounds [OF assms(1,2), of u], folded v_def]
  obtain k :: int where k: "\<bar>renormalize v - v + 360 * of_int k\<bar> \<le> slack" using renormalize_range(3) [OF e(3,2)] by blast
  define q where "q = ?X div (n * 2 ^ 17)"
  have nn: "(of_int n :: rat) \<noteq> 0" using assms(1) by simp
  have "?X mod (n * 2 ^ 17) = ?X - n * 2 ^ 17 * q" unfolding q_def by (simp add: minus_mult_div_eq_mod)
  then have "(of_int (?X mod (n * 2 ^ 17)) :: rat) = of_int ?X - of_int n * 2 ^ 17 * of_int q" by (simp only: of_int_diff of_int_mult of_int_power of_int_numeral)
  then have "?x = of_int ?X / 2 ^ 17 - of_int n * of_int q" by (simp add: diff_divide_distrib)
  then have x: "360 / of_int n * ?x = 360 / of_int n * (of_int ?X / 2 ^ 17) - 360 * of_int q"
    using nn by (simp add: field_simps)
  have "\<bar>renormalize v - 360 * u - 360 * of_int (- k - q)\<bar> \<le> 180 / of_int n / 2 ^ 17 + 2 * slack"
    unfolding of_int_diff of_int_minus by (rule angle_chain [OF k e(1) x grid_angle [OF assms(1), of u]])
  then show ?thesis by blast
qed

lemma cprNL_abs: "cprNLFunction lat = 59 - int (length (takeWhile (\<lambda>c. \<not> \<bar>lat\<bar> < f64 (of_int c / 10 ^ 8)) cprNL_limits))"
  unfolding cprNLFunction_def Let_def abs_if ..

lemma cprNFunction_range: "1 \<le> cprNFunction lat fflag" "cprNFunction lat fflag \<le> 59"
  using cprNL_range [of lat] by (simp_all add: cprNFunction_def Let_def)

lemma longitude_range:
  assumes "0 \<le> lon0" "lon0 < 2 ^ 17" "0 \<le> lon1" "lon1 < 2 ^ 17"
  shows "0 \<le> cpr_longitude fflag rlat lon0 lon1 False" "cpr_longitude fflag rlat lon0 lon1 False < 361"
proof -
  define ni where "ni = cprNFunction rlat fflag"
  have ni: "0 < ni" "ni \<le> 60" using cprNFunction_range [of rlat fflag] by (simp_all add: ni_def)
  define z where "z = cprModInt (cpr_index (cprNLFunction rlat - 1) (cprNLFunction rlat) lon0 lon1) ni"
  have z: "0 \<le> z" "z < ni" using ni by (simp_all add: z_def cprModInt_mod)
  define c where "c = (if fflag then lon1 else lon0)"
  have c: "0 \<le> c" "c < 2 ^ 17" using assms by (simp_all add: c_def)
  have "of_int (z * 2 ^ 17 + c) < (of_int (ni * 2 ^ 17) :: rat)"
  proof -
    have "(z + 1) * 2 ^ 17 \<le> ni * 2 ^ 17" using z(2) by (intro mult_right_mono) simp_all
    then show ?thesis using c(2) by (simp only: of_int_less_iff) simp
  qed
  then have x: "0 \<le> (of_int z + of_int c / 2 ^ 17 :: rat)" "of_int z + of_int c / 2 ^ 17 < (of_int ni :: rat)"
    using z c by (simp_all add: field_simps)
  have "cpr_longitude fflag rlat lon0 lon1 False = cpr_coordinate (f64 (360 / of_int ni)) z c"
    by (simp add: cpr_longitude_def Let_def z_def c_def ni_def cprDlonFunction_def)
  also have "\<dots> = f64 (f64 (360 / of_int ni) * (of_int z + of_int c / 2 ^ 17))"
    by (rule coordinate_exact) (use z c ni in simp_all)
  finally show "0 \<le> cpr_longitude fflag rlat lon0 lon1 False" "cpr_longitude fflag rlat lon0 lon1 False < 361"
    using coordinate_error(2,3) [OF ni x] by simp_all
qed

text \<open>
  The number of longitude zones is 1 to 59, is the same on both hemispheres and never grows towards the poles.
\<close>

lemma cprNLFunction_antimono:
  "1 \<le> cprNLFunction a \<and> cprNLFunction a \<le> 59 \<and> cprNLFunction (- a) = cprNLFunction a \<and>
   (\<bar>a\<bar> \<le> \<bar>b\<bar> \<longrightarrow> cprNLFunction b \<le> cprNLFunction a)"
proof -
  have "cprNLFunction b \<le> cprNLFunction a" if "\<bar>a\<bar> \<le> \<bar>b\<bar>"
  proof -
    have "length (takeWhile (\<lambda>c. \<not> \<bar>a\<bar> < f64 (of_int c / 10 ^ 8)) cprNL_limits) \<le>
        length (takeWhile (\<lambda>c. \<not> \<bar>b\<bar> < f64 (of_int c / 10 ^ 8)) cprNL_limits)"
      by (rule takeWhile_length_mono) (use that in linarith)
    then show ?thesis by (simp add: cprNL_abs)
  qed
  then show ?thesis using cprNL_range by (simp add: cprNL_abs)
qed

subsection \<open>Properties\<close>

text \<open>
  C26. Round trip: a position that an aircraft encodes as an even and an odd airborne message is
  decoded again. The decoder answers with a position exactly when the two decoded latitudes lie in the
  same longitude zone (-1 otherwise); then the latitude is within half a step of the encoding grid
  of the true one, and so is the longitude up to full circles, rounding included.
\<close>

theorem decodeCPRairborne_roundtrip:
  assumes "\<bar>lat\<bar> \<le> 90"
  shows "let t = lat / 360; u = lon / 360; nl = cprNLFunction (zone_latitude 60 t) in
    case decodeCPRairborne (cpr_encode 60 t) (cpr_encode nl u) (cpr_encode 59 t) (cpr_encode (max 1 (nl - 1)) u) fflag of
      Inl e \<Rightarrow> e = -1 \<and> nl \<noteq> cprNLFunction (zone_latitude 59 t)
    | Inr (rlat, rlon) \<Rightarrow> nl = cprNLFunction (zone_latitude 59 t) \<and>
        \<bar>rlat - lat\<bar> \<le> 180 / (if fflag then 59 else 60) / 2 ^ 17 + 2 * slack \<and>
        (\<exists>k :: int. \<bar>rlon - lon - 360 * of_int k\<bar> \<le> 180 / of_int (cprNFunction rlat fflag) / 2 ^ 17 + 2 * slack)"
proof -
  let ?t = "lat / 360" and ?u = "lon / 360"
  let ?rlat = "if fflag then zone_latitude 59 ?t else zone_latitude 60 ?t"
  define nl where "nl = cprNLFunction (zone_latitude 60 ?t)"
  have t: "\<bar>?t\<bar> \<le> 1 / 4" using assms by (simp add: abs_le_iff)
  note l60 = zone_latitude_correct [of 60, OF _ t] and l59 = zone_latitude_correct [of 59, OF _ t]
  have run: "decodeCPRairborne (cpr_encode 60 ?t) lon0 (cpr_encode 59 ?t) lon1 fflag =
      (if nl \<noteq> cprNLFunction (zone_latitude 59 ?t) then Inl (-1)
       else Inr (?rlat, renormalize (cpr_longitude fflag ?rlat lon0 lon1 False)))" for lon0 lon1
    using l60 l59 unfolding decodeCPRairborne_def Let_def airborne_latitudes nl_def by simp
  show ?thesis
  proof (cases "nl = cprNLFunction (zone_latitude 59 ?t)")
    case False
    then show ?thesis unfolding Let_def run nl_def [symmetric] by simp
  next
    case True
    then have nl: "nl = cprNLFunction ?rlat" by (simp add: nl_def)
    let ?ni = "cprNFunction ?rlat fflag"
    have ni: "0 < ?ni" "?ni \<le> 60" using longitude_index(3,4) [of ?rlat fflag] by simp_all
    have "\<exists>k :: int. \<bar>renormalize (cpr_longitude fflag ?rlat (cpr_encode nl ?u) (cpr_encode (max 1 (nl - 1)) ?u) False)
        - lon - 360 * of_int k\<bar> \<le> 180 / of_int ?ni / 2 ^ 17 + 2 * slack"
      using longitude_correct [OF ni, of ?u] unfolding nl airborne_longitude by simp
    moreover have "\<bar>?rlat - lat\<bar> \<le> 180 / (if fflag then 59 else 60) / 2 ^ 17 + 2 * slack" using l60 l59 by auto
    ultimately show ?thesis unfolding Let_def nl_def [symmetric] run using True by simp
  qed
qed

theorem decodeCPRairborne_roundtrip_witness:
  "let t = 52 / 360; u = 4 / 360; nl = cprNLFunction (zone_latitude 60 t) in
    case decodeCPRairborne (cpr_encode 60 t) (cpr_encode nl u) (cpr_encode 59 t) (cpr_encode (max 1 (nl - 1)) u) True of
      Inl e \<Rightarrow> e = -1 \<and> nl \<noteq> cprNLFunction (zone_latitude 59 t)
    | Inr (rlat, rlon) \<Rightarrow> nl = cprNLFunction (zone_latitude 59 t) \<and>
        \<bar>rlat - 52\<bar> \<le> 180 / (if True then 59 else 60) / 2 ^ 17 + 2 * slack \<and>
        (\<exists>k :: int. \<bar>rlon - 4 - 360 * of_int k\<bar> \<le> 180 / of_int (cprNFunction rlat True) / 2 ^ 17 + 2 * slack)"
  by (rule decodeCPRairborne_roundtrip) simp

text \<open>
  Bounds: whatever two 17-bit positions arrive, an airborne decoding that succeeds gives a
  latitude in [-90, 90] and a longitude in [-180, 180], the lower end up to the rounding of the last subtraction.
\<close>

theorem decodeCPRairborne_bounds:
  assumes "decodeCPRairborne c0 l0 c1 l1 fflag = Inr (rlat, rlon)"
    and "0 \<le> l0" "l0 < 2 ^ 17" "0 \<le> l1" "l1 < 2 ^ 17"
  shows "- 90 \<le> rlat \<and> rlat \<le> 90 \<and> - 180 - slack \<le> rlon \<and> rlon \<le> 180"
proof -
  have lat: "\<not> out_of_range rlat" and lon: "rlon = renormalize (cpr_longitude fflag rlat l0 l1 False)"
    using assms(1) unfolding decodeCPRairborne_def Let_def by (auto split: if_splits)
  have "- 180 - slack \<le> rlon \<and> rlon \<le> 180"
    unfolding lon using renormalize_range(1,2) [OF longitude_range [OF assms(2-5)]] by blast
  with lat show ?thesis by (auto simp: out_of_range_def)
qed

theorem decodeCPRairborne_bounds_witness:
  "\<exists>rlat rlon. decodeCPRairborne 0 85925 0 84469 False = Inr (rlat, rlon) \<and>
    - 90 \<le> rlat \<and> rlat \<le> 90 \<and> - 180 - slack \<le> rlon \<and> rlon \<le> 180"
proof -
  have "\<not> isl (decodeCPRairborne 0 85925 0 84469 False)" by code_simp
  then obtain rlat rlon where run: "decodeCPRairborne 0 85925 0 84469 False = Inr (rlat, rlon)"
    by (cases "decodeCPRairborne 0 85925 0 84469 False") auto
  from decodeCPRairborne_bounds [OF run] run show ?thesis by simp
qed

end
