(* ===== verification/Track.thy ===== *)
theory Track
  imports Cpr ModeAC CommB "HOL-Library.Signed_Division"
begin

text \<open>
  Aircraft tracking: \<^verbatim>\<open>src/track.c\<close> and \<^verbatim>\<open>src/track.h\<close>. The validity records of an aircraft
  (\<^verbatim>\<open>callsign_valid\<close>, \<^verbatim>\<open>altitude_baro_valid\<close>, ...) are one function from the item they belong to; the
  other fields keep their names with the prefix \<open>ac_\<close>. What has been emitted to FATSV and rpisrv
  clients is left out, it belongs to the output code. \<^verbatim>\<open>messageNow()\<close> is the argument \<open>now\<close>, the
  global arrays, the aircraft list and the counters of \<^verbatim>\<open>Modes.stats_current\<close> are the tracker state.
  The trigonometric functions of the C library are parameters, arithmetic on doubles is rounded.
\<close>

subsection \<open>The data model\<close>

datatype item =
    V_callsign | V_altitude_baro | V_altitude_geom | V_geom_delta | V_gs | V_ias | V_tas | V_mach
  | V_track | V_track_rate | V_roll | V_mag_heading | V_true_heading | V_baro_rate | V_geom_rate
  | V_squawk | V_emergency | V_airground | V_nav_qnh | V_nav_altitude_mcp | V_nav_altitude_fms
  | V_nav_altitude_src | V_nav_heading | V_nav_modes | V_cpr_odd | V_cpr_even | V_position
  | V_nic_a | V_nic_c | V_nic_baro | V_nac_p | V_nac_v | V_sil | V_gva | V_sda
  | V_mrar_source | V_wind | V_temperature | V_pressure | V_turbulence | V_humidity

record data_validity =
  stale_interval :: u64
  expire_interval :: u64
  v_source :: datasource_t
  updated :: u64
  stale :: u64
  expires :: u64

record cpr_message =
  ch_type :: cpr_type_t
  ch_lat :: u32
  ch_lon :: u32
  ch_nic :: u32
  ch_rc :: u32

record aircraft_nav =
  ac_nav_qnh :: rat
  ac_nav_altitude_mcp :: u32
  ac_nav_altitude_fms :: u32
  ac_nav_altitude_src :: nav_altitude_source_t
  ac_nav_heading :: rat
  ac_nav_modes :: u32

record aircraft_accuracy =
  ac_nic_a :: u32
  ac_nic_c :: u32
  ac_nic_baro :: u32
  ac_nac_p :: u32
  ac_nac_v :: u32
  ac_sil :: u32
  ac_sil_type :: sil_type_t
  ac_gva :: u32
  ac_sda :: u32

record aircraft_weather =
  ac_mrar_source :: mrar_source_t
  ac_wind_speed :: rat
  ac_wind_dir :: rat
  ac_pressure :: rat
  ac_temperature :: rat
  ac_turbulence :: hazard_t
  ac_humidity :: rat

record aircraft =
  ac_addr :: u32
  ac_addrtype :: addrtype_t
  ac_seen :: u64
  ac_messages :: int
  ac_reliable :: bool
  ac_reliableDF11 :: int
  ac_reliableDF17 :: int
  ac_discarded :: int
  ac_signalLevel :: "rat list"
  ac_signalNext :: nat
  valid :: "item \<Rightarrow> data_validity"
  ac_callsign :: "u8 list"
  ac_callsign_matched :: bool
  ac_altitude_baro :: int
  ac_altitude_geom :: int
  ac_geom_delta :: int
  ac_gs :: rat
  ac_ias :: u32
  ac_tas :: u32
  ac_mach :: rat
  ac_track :: rat
  ac_track_rate :: rat
  ac_roll :: rat
  ac_mag_heading :: rat
  ac_true_heading :: rat
  ac_baro_rate :: int
  ac_geom_rate :: int
  ac_squawk :: u32
  ac_emergency :: emergency_t
  ac_category :: u32
  ac_airground :: airground_t
  ac_nav :: aircraft_nav
  cpr_odd_half :: cpr_message
  cpr_even_half :: cpr_message
  ac_lat :: rat
  ac_lon :: rat
  pos_nic :: u32
  pos_rc :: u32
  adsb_version :: int
  adsr_version :: int
  tisb_version :: int
  adsb_hrd :: heading_type_t
  adsb_tah :: heading_type_t
  ac_accuracy :: aircraft_accuracy
  ac_weather :: aircraft_weather
  modeA_hit :: bool
  modeC_hit :: bool

text \<open>The counters of \<^verbatim>\<open>struct stats\<close> that tracking increments.\<close>

record track_stats =
  unique_aircraft :: u32
  single_message_aircraft :: u32
  unreliable_aircraft :: u32
  cpr_surface :: u32
  cpr_airborne :: u32
  cpr_global_ok :: u32
  cpr_global_bad :: u32
  cpr_global_skipped :: u32
  cpr_global_range_checks :: u32
  cpr_global_speed_checks :: u32
  cpr_local_ok :: u32
  cpr_local_skipped :: u32
  cpr_local_range_checks :: u32
  cpr_local_speed_checks :: u32
  range_histogram :: "u32 list"

record tracker =
  aircrafts :: "aircraft list"
  modeAC_count :: "u32 list"
  modeAC_lastcount :: "u32 list"
  modeAC_match :: "u32 list"
  modeAC_age :: "u32 list"
  messageNow :: u64
  next_update :: u64
  tstats :: track_stats

text \<open>The part of the configuration \<^verbatim>\<open>Modes\<close> that tracking reads, and the C library's functions.\<close>

record double_libm = libm +
  m_sin :: "rat \<Rightarrow> rat"
  m_cos :: "rat \<Rightarrow> rat"
  m_acos :: "rat \<Rightarrow> rat"
  m_sqrt :: "rat \<Rightarrow> rat"

record track_env =
  fUserLat :: rat
  fUserLon :: rat
  user_latlon_valid :: bool
  maxRange :: rat
  stats_range_histo :: bool
  t_libm :: double_libm
  t_ac :: mode_ac_tables

definition TRACK_AIRCRAFT_TTL :: u64 where "TRACK_AIRCRAFT_TTL = 300000"
definition TRACK_AIRCRAFT_UNRELIABLE_TTL :: u64 where "TRACK_AIRCRAFT_UNRELIABLE_TTL = 60000"
definition TRACK_MODEAC_MIN_MESSAGES :: u32 where "TRACK_MODEAC_MIN_MESSAGES = 4"
definition TRACK_RELIABLE_DF17_MESSAGES :: int where "TRACK_RELIABLE_DF17_MESSAGES = 2"
definition TRACK_RELIABLE_DF11_MESSAGES :: int where "TRACK_RELIABLE_DF11_MESSAGES = 3"
definition TRACK_RELIABLE_ANY_MESSAGES :: int where "TRACK_RELIABLE_ANY_MESSAGES = 5"
definition RC_UNKNOWN :: u32 where "RC_UNKNOWN = 0"
definition RANGE_BUCKET_COUNT :: nat where "RANGE_BUCKET_COUNT = 76"

subsection \<open>A new aircraft\<close>

definition stale_seconds :: "item \<Rightarrow> u64" where
  "stale_seconds i = (if i \<in> {V_altitude_baro, V_squawk, V_airground} then 15 else 60)"

definition zero_cpr :: cpr_message where
  "zero_cpr = \<lparr>ch_type = CPR_SURFACE, ch_lat = 0, ch_lon = 0, ch_nic = 0, ch_rc = 0\<rparr>"

definition zeroAircraft :: aircraft where
  "zeroAircraft = \<lparr>ac_addr = 0, ac_addrtype = ADDR_ADSB_ICAO, ac_seen = 0, ac_messages = 0, ac_reliable = False,
     ac_reliableDF11 = 0, ac_reliableDF17 = 0, ac_discarded = 0, ac_signalLevel = replicate 8 0,
     ac_signalNext = 0,
     valid = (\<lambda>_. \<lparr>stale_interval = 0, expire_interval = 0, v_source = SOURCE_INVALID, updated = 0,
                   stale = 0, expires = 0\<rparr>),
     ac_callsign = replicate 9 0, ac_callsign_matched = False, ac_altitude_baro = 0, ac_altitude_geom = 0,
     ac_geom_delta = 0, ac_gs = 0, ac_ias = 0, ac_tas = 0, ac_mach = 0, ac_track = 0, ac_track_rate = 0,
     ac_roll = 0, ac_mag_heading = 0, ac_true_heading = 0, ac_baro_rate = 0, ac_geom_rate = 0,
     ac_squawk = 0, ac_emergency = EMERGENCY_NONE, ac_category = 0, ac_airground = AG_INVALID,
     ac_nav = \<lparr>ac_nav_qnh = 0, ac_nav_altitude_mcp = 0, ac_nav_altitude_fms = 0,
               ac_nav_altitude_src = NAV_ALT_INVALID, ac_nav_heading = 0, ac_nav_modes = 0\<rparr>,
     cpr_odd_half = zero_cpr, cpr_even_half = zero_cpr, ac_lat = 0, ac_lon = 0, pos_nic = 0, pos_rc = 0,
     adsb_version = 0, adsr_version = 0, tisb_version = 0, adsb_hrd = HEADING_INVALID,
     adsb_tah = HEADING_INVALID,
     ac_accuracy = \<lparr>ac_nic_a = 0, ac_nic_c = 0, ac_nic_baro = 0, ac_nac_p = 0, ac_nac_v = 0, ac_sil = 0,
                    ac_sil_type = SIL_INVALID, ac_gva = 0, ac_sda = 0\<rparr>,
     ac_weather = \<lparr>ac_mrar_source = MRAR_SOURCE_INVALID, ac_wind_speed = 0, ac_wind_dir = 0,
                   ac_pressure = 0, ac_temperature = 0, ac_turbulence = HAZARD_NIL, ac_humidity = 0\<rparr>,
     modeA_hit = False, modeC_hit = False\<rparr>"

definition trackCreateAircraft :: "modesMessage \<Rightarrow> track_stats \<Rightarrow> aircraft \<times> track_stats" where
  "trackCreateAircraft mm st =
     (zeroAircraft\<lparr>ac_addr := addr mm, ac_addrtype := addrtype mm,
        ac_signalLevel := replicate 8 (f64 (1 / 100000)), ac_signalNext := 0,
        adsb_version := -1, adsb_hrd := HEADING_MAGNETIC, adsb_tah := HEADING_GROUND_TRACK,
        valid := (\<lambda>i. (valid zeroAircraft i)\<lparr>stale_interval := stale_seconds i * 1000,
                                             expire_interval := 70 * 1000\<rparr>)\<rparr>,
      st\<lparr>unique_aircraft := unique_aircraft st + 1\<rparr>)"

text \<open>The list is searched from its head; the model writes an aircraft back where it was found.\<close>

fun trackFindAircraft :: "u32 \<Rightarrow> aircraft list \<Rightarrow> aircraft option" where
  "trackFindAircraft ad [] = None"
| "trackFindAircraft ad (a # as) = (if ac_addr a = ad then Some a else trackFindAircraft ad as)"

fun store_aircraft :: "aircraft \<Rightarrow> aircraft list \<Rightarrow> aircraft list" where
  "store_aircraft a [] = []"
| "store_aircraft a (b # bs) = (if ac_addr b = ac_addr a then a # bs else b # store_aircraft a bs)"

subsection \<open>Validity of data\<close>

definition trackDataValid :: "u64 \<Rightarrow> data_validity \<Rightarrow> bool" where
  "trackDataValid now v \<longleftrightarrow> v_source v \<noteq> SOURCE_INVALID \<and> now < expires v"

definition trackDataFresh :: "u64 \<Rightarrow> data_validity \<Rightarrow> bool" where
  "trackDataFresh now v \<longleftrightarrow> v_source v \<noteq> SOURCE_INVALID \<and> now < stale v"

definition trackDataAge :: "u64 \<Rightarrow> data_validity \<Rightarrow> u64" where
  "trackDataAge now v =
     (if v_source v = SOURCE_INVALID then NOT 0 else if updated v \<ge> now then 0 else now - updated v)"

definition accept_data :: "u64 \<Rightarrow> data_validity \<Rightarrow> datasource_t \<Rightarrow> data_validity option" where
  "accept_data now d src =
     (if now < updated d then None
      else if src < v_source d \<and> now < stale d then None
      else Some (d\<lparr>v_source := src, updated := now,
                   stale := now + (if stale_interval d \<noteq> 0 then stale_interval d else 60000),
                   expires := now + (if expire_interval d \<noteq> 0 then expire_interval d else 70000)\<rparr>))"

definition combine_validity :: "data_validity \<Rightarrow> data_validity \<Rightarrow> data_validity \<Rightarrow> data_validity" where
  "combine_validity to from1 from2 =
     (if v_source from1 = SOURCE_INVALID then from2
      else if v_source from2 = SOURCE_INVALID then from1
      else to\<lparr>v_source := (if v_source from1 < v_source from2 then v_source from1 else v_source from2),
              updated := (if updated from1 > updated from2 then updated from1 else updated from2),
              stale := (if stale from1 < stale from2 then stale from1 else stale from2),
              expires := (if expires from1 < expires from2 then expires from1 else expires from2)\<rparr>)"

definition compare_validity :: "u64 \<Rightarrow> data_validity \<Rightarrow> data_validity \<Rightarrow> int" where
  "compare_validity now lhs rhs =
     (if now < stale lhs \<and> v_source lhs > v_source rhs then 1
      else if now < stale rhs \<and> v_source lhs < v_source rhs then -1
      else if updated lhs > updated rhs then 1
      else if updated lhs < updated rhs then -1
      else 0)"

subsection \<open>Distances\<close>

text \<open>Conversion of a floating-point number to an integer type drops the fraction.\<close>

definition truncate_rat :: "rat \<Rightarrow> int" where
  "truncate_rat x = (if x < 0 then - \<lfloor>- x\<rfloor> else \<lfloor>x\<rfloor>)"

definition radians :: "rat \<Rightarrow> rat" where
  "radians x = f64 (f64 (x * M_PI) / 180)"

definition haversine :: "double_libm \<Rightarrow> rat \<Rightarrow> rat \<Rightarrow> rat \<Rightarrow> rat \<Rightarrow> rat" where
  "haversine L lat0 lat1 dlat dlon =
     (let slat = m_sin L (f64 (dlat / 2)); slon = m_sin L (f64 (dlon / 2));
          a = f64 (f64 (slat * slat) + f64 (f64 (f64 (m_cos L lat0 * m_cos L lat1) * slon) * slon))
      in f64 (6371000 * 2 * m_atan2 L (m_sqrt L a) (m_sqrt L (f64 (1 - a)))))"

definition law_of_cosines :: "double_libm \<Rightarrow> rat \<Rightarrow> rat \<Rightarrow> rat \<Rightarrow> rat" where
  "law_of_cosines L lat0 lat1 dlon =
     f64 (6371000 * m_acos L (f64 (f64 (m_sin L lat0 * m_sin L lat1)
            + f64 (f64 (m_cos L lat0 * m_cos L lat1) * m_cos L dlon))))"

definition greatcircle :: "double_libm \<Rightarrow> rat \<Rightarrow> rat \<Rightarrow> rat \<Rightarrow> rat \<Rightarrow> rat" where
  "greatcircle L lat0 lon0 lat1 lon1 =
     (let lat0 = radians lat0; lon0 = radians lon0; lat1 = radians lat1; lon1 = radians lon1;
          dlat = \<bar>f64 (lat1 - lat0)\<bar>; dlon = \<bar>f64 (lon1 - lon0)\<bar>
      in if dlat < f64 (1 / 1000) \<and> dlon < f64 (1 / 1000) then haversine L lat0 lat1 dlat dlon
         else law_of_cosines L lat0 lat1 dlon)"

definition get_bearing :: "double_libm \<Rightarrow> rat \<Rightarrow> rat \<Rightarrow> rat \<Rightarrow> rat \<Rightarrow> rat" where
  "get_bearing L lat0 lon0 lat1 lon1 =
     (let lat0 = radians lat0; lon0 = radians lon0; lat1 = radians lat1; lon1 = radians lon1;
          dlon = f64 (lon1 - lon0);
          x = f64 (f64 (m_cos L lat0 * m_sin L lat1)
                   - f64 (f64 (m_sin L lat0 * m_cos L lat1) * m_cos L dlon));
          y = f64 (m_sin L dlon * m_cos L lat1);
          degree = f64 (f64 (m_atan2 L y x * 180) / M_PI)
      in if degree \<ge> 0 then degree else f64 (degree + 360))"


text \<open>
  The histogram bucket of a range. With \<^verbatim>\<open>Modes.maxRange\<close> zero the quotient is infinite and its
  conversion to \<^verbatim>\<open>int\<close> undefined; the model takes the value of x86-64, the most negative integer.
\<close>

definition round_away :: "rat \<Rightarrow> int" where
  "round_away x = (if x < 0 then - \<lfloor>- x + 1 / 2\<rfloor> else \<lfloor>x + 1 / 2\<rfloor>)"

definition range_bucket :: "rat \<Rightarrow> rat \<Rightarrow> nat" where
  "range_bucket mr metres =
     (let bucket = (if mr = 0 then -(2 ^ 31) else round_away (f64 (f64 (metres / mr) * of_nat RANGE_BUCKET_COUNT)))
      in if bucket < 0 then 0
         else if bucket \<ge> int RANGE_BUCKET_COUNT then RANGE_BUCKET_COUNT - 1
         else nat bucket)"

definition update_range_histogram :: "track_env \<Rightarrow> rat \<Rightarrow> rat \<Rightarrow> track_stats \<Rightarrow> track_stats" where
  "update_range_histogram E lat lon st =
     (if stats_range_histo E \<and> user_latlon_valid E then
        let b = range_bucket (maxRange E) (greatcircle (t_libm E) (fUserLat E) (fUserLon E) lat lon)
        in st\<lparr>range_histogram := (range_histogram st)[b := range_histogram st ! b + 1]\<rparr>
      else st)"

subsection \<open>Plausibility of a position\<close>

text \<open>The speed to assume, in knots; \<^verbatim>\<open>unsigned\<close> arithmetic wraps and becomes an \<^verbatim>\<open>int\<close>.\<close>

definition assumed_speed :: "u64 \<Rightarrow> aircraft \<Rightarrow> bool \<Rightarrow> int" where
  "assumed_speed now a surface =
     (let speed = (if trackDataValid now (valid a V_gs) then truncate_rat (ac_gs a)
                   else if trackDataValid now (valid a V_tas) then sint (ac_tas a * 4 div 3)
                   else if trackDataValid now (valid a V_ias) then sint (ac_ias a * 2)
                   else if surface then 100 else 600);
          speed = speed * 4 sdiv 3
      in if surface then
           let speed = (if speed < 20 then 20 else speed) in if speed > 150 then 150 else speed
         else if speed < 200 then 200 else speed)"

definition speed_range :: "u64 \<Rightarrow> int \<Rightarrow> bool \<Rightarrow> rat" where
  "speed_range elapsed speed surface =
     f64 ((if surface then 100 else 500)
          + f64 (f64 (f64 (f64 (of_nat (unat elapsed)) + 1000) / 1000)
                 * f64 (f64 (of_int speed * 1852) / 3600)))"

definition speed_check :: "track_env \<Rightarrow> u64 \<Rightarrow> aircraft \<Rightarrow> rat \<Rightarrow> rat \<Rightarrow> bool \<Rightarrow> bool" where
  "speed_check E now a lat lon surface =
     (if \<not> trackDataValid now (valid a V_position) then True
      else greatcircle (t_libm E) (ac_lat a) (ac_lon a) lat lon
             \<le> speed_range (trackDataAge now (valid a V_position)) (assumed_speed now a surface) surface)"

definition rcIsWorse :: "int \<Rightarrow> int \<Rightarrow> bool" where
  "rcIsWorse left_rc right_rc =
     (if left_rc = 0 \<and> right_rc = 0 then False
      else if left_rc = 0 then True
      else if right_rc = 0 then False
      else left_rc > right_rc)"

subsection \<open>CPR decoding of an aircraft's position\<close>

record decoded_position =
  d_lat :: rat
  d_lon :: rat
  d_nic :: u32
  d_rc :: u32

definition needs_speed_check :: "u64 \<Rightarrow> aircraft \<Rightarrow> u32 \<Rightarrow> u32 \<Rightarrow> bool" where
  "needs_speed_check now a nic rc \<longleftrightarrow>
     trackDataValid now (valid a V_position) \<and> pos_nic a \<ge> nic \<and> \<not> rcIsWorse (sint (pos_rc a)) (sint rc)"

text \<open>A negative result of the C function is the value \<open>Inl\<close>.\<close>

definition global_reference :: "track_env \<Rightarrow> u64 \<Rightarrow> aircraft \<Rightarrow> (rat \<times> rat) option" where
  "global_reference E now a =
     (if trackDataValid now (valid a V_position) then Some (ac_lat a, ac_lon a)
      else if user_latlon_valid E then Some (fUserLat E, fUserLon E) else None)"

definition doGlobalCPR ::
  "track_env \<Rightarrow> u64 \<Rightarrow> aircraft \<Rightarrow> modesMessage \<Rightarrow> track_stats \<Rightarrow> (int + decoded_position) \<times> track_stats" where
  "doGlobalCPR E now a mm st =
     (let fflag = cpr_odd mm; surface = (cpr_type mm = CPR_SURFACE);
          e = cpr_even_half a; od = cpr_odd_half a;
          nic = (if ch_nic e < ch_nic od then ch_nic e else ch_nic od);
          rc = (if rcIsWorse (sint (ch_rc e)) (sint (ch_rc od)) then ch_rc e else ch_rc od);
          result = (if surface then
                      case global_reference E now a of
                        None \<Rightarrow> Inl (-1)
                      | Some (reflat, reflon) \<Rightarrow>
                          decodeCPRsurface reflat reflon (sint (ch_lat e)) (sint (ch_lon e))
                            (sint (ch_lat od)) (sint (ch_lon od)) fflag
                    else decodeCPRairborne (sint (ch_lat e)) (sint (ch_lon e))
                           (sint (ch_lat od)) (sint (ch_lon od)) fflag)
      in case result of
           Inl err \<Rightarrow> (Inl err, st)
         | Inr (lat, lon) \<Rightarrow>
             if maxRange E > 0 \<and> user_latlon_valid E
                \<and> greatcircle (t_libm E) (fUserLat E) (fUserLon E) lat lon > maxRange E
             then (Inl (-2), st\<lparr>cpr_global_range_checks := cpr_global_range_checks st + 1\<rparr>)
             else if source mm \<noteq> SOURCE_MLAT \<and> needs_speed_check now a nic rc
                     \<and> \<not> speed_check E now a lat lon surface
             then (Inl (-2), st\<lparr>cpr_global_speed_checks := cpr_global_speed_checks st + 1\<rparr>)
             else (Inr \<lparr>d_lat = lat, d_lon = lon, d_nic = nic, d_rc = rc\<rparr>, st))"

text \<open>The reference of a relative decoding: latitude, longitude, range limit, NIC and Rc.\<close>

definition local_reference ::
  "track_env \<Rightarrow> u64 \<Rightarrow> aircraft \<Rightarrow> bool \<Rightarrow> u32 \<Rightarrow> u32 \<Rightarrow> (rat \<times> rat \<times> rat \<times> u32 \<times> u32) option" where
  "local_reference E now a surface nic rc =
     (if trackDataValid now (valid a V_position) then
        Some (ac_lat a, ac_lon a, 50000, if pos_nic a < nic then pos_nic a else nic,
              if rcIsWorse (sint (pos_rc a)) (sint rc) then pos_rc a else rc)
      else if \<not> surface \<and> user_latlon_valid E then
        if maxRange E = 0 then None
        else if maxRange E \<le> 1852 * 180 then Some (fUserLat E, fUserLon E, maxRange E, nic, rc)
        else if maxRange E < 1852 * 360 then Some (fUserLat E, fUserLon E, f64 (1852 * 360 - maxRange E), nic, rc)
        else None
      else None)"

definition doLocalCPR ::
  "track_env \<Rightarrow> u64 \<Rightarrow> aircraft \<Rightarrow> modesMessage \<Rightarrow> track_stats \<Rightarrow> (int + decoded_position) \<times> track_stats" where
  "doLocalCPR E now a mm st =
     (let fflag = cpr_odd mm; surface = (cpr_type mm = CPR_SURFACE);
          half = (if fflag then cpr_odd_half a else cpr_even_half a)
      in case local_reference E now a surface (ch_nic half) (ch_rc half) of
           None \<Rightarrow> (Inl (-1), st)
         | Some (reflat, reflon, range_limit, nic, rc) \<Rightarrow>
             case decodeCPRrelative reflat reflon (sint (cpr_lat mm)) (sint (cpr_lon mm)) fflag surface of
               Inl err \<Rightarrow> (Inl err, st)
             | Inr (lat, lon) \<Rightarrow>
                 if range_limit > 0 \<and> greatcircle (t_libm E) reflat reflon lat lon > range_limit
                 then (Inl (-1), st\<lparr>cpr_local_range_checks := cpr_local_range_checks st + 1\<rparr>)
                 else if needs_speed_check now a nic rc \<and> \<not> speed_check E now a lat lon surface
                 then (Inl (-1), st\<lparr>cpr_local_speed_checks := cpr_local_speed_checks st + 1\<rparr>)
                 else (Inr \<lparr>d_lat = lat, d_lon = lon, d_nic = nic, d_rc = rc\<rparr>, st))"

definition time_between :: "u64 \<Rightarrow> u64 \<Rightarrow> u64" where
  "time_between t1 t2 = (if t1 \<ge> t2 then t1 - t2 else t2 - t1)"

definition set_source :: "item \<Rightarrow> datasource_t \<Rightarrow> aircraft \<Rightarrow> aircraft" where
  "set_source i src a = a\<lparr>valid := (valid a)(i := (valid a i)\<lparr>v_source := src\<rparr>)\<rparr>"

definition accept_position :: "u64 \<Rightarrow> modesMessage \<Rightarrow> aircraft \<Rightarrow> aircraft option" where
  "accept_position now mm a =
     map_option (\<lambda>v. a\<lparr>valid := (valid a)(V_position := v)\<rparr>) (accept_data now (valid a V_position) (source mm))"

definition store_position ::
  "track_env \<Rightarrow> decoded_position \<Rightarrow> modesMessage \<Rightarrow> aircraft \<Rightarrow> track_stats \<Rightarrow> modesMessage \<times> aircraft \<times> track_stats" where
  "store_position E p mm a st =
     (mm\<lparr>cpr_decoded := True, decoded_lat := d_lat p, decoded_lon := d_lon p, decoded_nic := d_nic p,
         decoded_rc := d_rc p\<rparr>,
      a\<lparr>ac_lat := d_lat p, ac_lon := d_lon p, pos_nic := d_nic p, pos_rc := d_rc p\<rparr>,
      update_range_histogram E (d_lat p) (d_lon p) st)"

definition position_from_local ::
  "track_env \<Rightarrow> u64 \<Rightarrow> modesMessage \<Rightarrow> aircraft \<Rightarrow> track_stats \<Rightarrow> modesMessage \<times> aircraft \<times> track_stats" where
  "position_from_local E now mm a st =
     (case doLocalCPR E now a mm st of
        (Inl _, st) \<Rightarrow> (mm, a, st\<lparr>cpr_local_skipped := cpr_local_skipped st + 1\<rparr>)
      | (Inr p, st) \<Rightarrow>
          case accept_position now mm a of
            None \<Rightarrow> (mm, a, st\<lparr>cpr_local_skipped := cpr_local_skipped st + 1\<rparr>)
          | Some a \<Rightarrow>
              store_position E p (mm\<lparr>cpr_relative := True\<rparr>) a (st\<lparr>cpr_local_ok := cpr_local_ok st + 1\<rparr>))"

definition global_pair :: "u64 \<Rightarrow> aircraft \<Rightarrow> u64 \<Rightarrow> bool" where
  "global_pair now a max_elapsed \<longleftrightarrow>
     trackDataValid now (valid a V_cpr_odd) \<and> trackDataValid now (valid a V_cpr_even)
     \<and> v_source (valid a V_cpr_odd) = v_source (valid a V_cpr_even)
     \<and> ch_type (cpr_odd_half a) = ch_type (cpr_even_half a)
     \<and> time_between (updated (valid a V_cpr_odd)) (updated (valid a V_cpr_even)) \<le> max_elapsed"

definition max_elapsed_for :: "modesMessage \<Rightarrow> u64" where
  "max_elapsed_for mm =
     (if cpr_type mm = CPR_SURFACE
      then if gs_valid mm \<and> gs_selected (gs mm) \<le> 25 then 50000 else 25000
      else 10000)"

definition updatePosition ::
  "track_env \<Rightarrow> u64 \<Rightarrow> modesMessage \<Rightarrow> aircraft \<Rightarrow> track_stats \<Rightarrow> modesMessage \<times> aircraft \<times> track_stats" where
  "updatePosition E now mm a st =
     (let st = (if cpr_type mm = CPR_SURFACE then st\<lparr>cpr_surface := cpr_surface st + 1\<rparr>
                else st\<lparr>cpr_airborne := cpr_airborne st + 1\<rparr>)
      in if global_pair now a (max_elapsed_for mm) then
           case doGlobalCPR E now a mm st of
             (Inl err, st) \<Rightarrow>
               if err = -2 then
                 (mm, set_source V_position SOURCE_INVALID (set_source V_cpr_even SOURCE_INVALID
                        (set_source V_cpr_odd SOURCE_INVALID a)),
                  st\<lparr>cpr_global_bad := cpr_global_bad st + 1\<rparr>)
               else position_from_local E now mm a (st\<lparr>cpr_global_skipped := cpr_global_skipped st + 1\<rparr>)
           | (Inr p, st) \<Rightarrow>
               case accept_position now mm a of
                 None \<Rightarrow> (mm, a, st\<lparr>cpr_global_skipped := cpr_global_skipped st + 1\<rparr>)
               | Some a \<Rightarrow> store_position E p mm a (st\<lparr>cpr_global_ok := cpr_global_ok st + 1\<rparr>)
         else position_from_local E now mm a st)"


subsection \<open>NIC and containment radius\<close>

definition compute_nic :: "u32 \<Rightarrow> u32 \<Rightarrow> bool \<Rightarrow> bool \<Rightarrow> bool \<Rightarrow> u32" where
  "compute_nic tc version nicA nicB nicC =
     (if tc \<in> {5, 9, 20} then 11
      else if tc \<in> {6, 10, 21} then 10
      else if tc = 7 then
        if version = 2 then if nicA \<and> \<not> nicC then 9 else 8
        else if version = 1 then if nicA then 9 else 8
        else 8
      else if tc = 8 then
        if version = 2 then
          if nicA \<and> nicC then 7
          else if nicA \<and> \<not> nicC then 6
          else if \<not> nicA \<and> nicC then 6
          else 0
        else 0
      else if tc = 11 then
        if version = 2 then if nicA \<and> nicB then 9 else 8
        else if version = 1 then if nicA then 9 else 8
        else 8
      else if tc = 12 then 7
      else if tc = 13 then 6
      else if tc = 14 then 5
      else if tc = 15 then 4
      else if tc = 16 then if nicA \<and> nicB then 3 else 2
      else if tc = 17 then 1
      else 0)"

definition compute_rc :: "u32 \<Rightarrow> u32 \<Rightarrow> bool \<Rightarrow> bool \<Rightarrow> bool \<Rightarrow> u32" where
  "compute_rc tc version nicA nicB nicC =
     (if tc \<in> {5, 9, 20} then 8
      else if tc \<in> {6, 10, 21} then 25
      else if tc = 7 then
        if version = 2 then if nicA \<and> \<not> nicC then 75 else 186
        else if version = 1 then if nicA then 75 else 186
        else 186
      else if tc = 8 then
        if version = 2 then
          if nicA \<and> nicC then 371
          else if nicA \<and> \<not> nicC then 556
          else if \<not> nicA \<and> nicC then 1111
          else RC_UNKNOWN
        else RC_UNKNOWN
      else if tc = 11 then
        if version = 2 then if nicA \<and> nicB then 75 else 186
        else if version = 1 then if nicA then 75 else 186
        else 186
      else if tc = 12 then 371
      else if tc = 13 then
        if version = 2 then
          if \<not> nicA \<and> nicB then 556
          else if \<not> nicA \<and> \<not> nicB then 926
          else if nicA \<and> nicB then 1112
          else RC_UNKNOWN
        else if version = 1 then if nicA then 1112 else 926
        else 926
      else if tc = 14 then 1852
      else if tc = 15 then 3704
      else if tc = 16 then
        if version = 2 then if nicA \<and> nicB then 7408 else 14816
        else if version = 1 then if nicA then 7408 else 14816
        else 18520
      else if tc = 17 then 37040
      else RC_UNKNOWN)"

text \<open>The second component of the result is \<^verbatim>\<open>-1\<close> of the C code when there is no value.\<close>

definition compute_v0_nacp :: "modesMessage \<Rightarrow> u32 option" where
  "compute_v0_nacp mm =
     (if msgtype mm \<noteq> 17 \<and> msgtype mm \<noteq> 18 then None
      else map_of [(0, 0), (5, 11), (6, 10), (7, 8), (8, 0), (9, 11), (10, 10), (11, 8), (12, 7), (13, 6),
                   (14, 5), (15, 4), (16, 1), (17, 1), (18, 0), (20, 11), (21, 10), (22, 0)] (metype mm))"

definition compute_v0_sil :: "modesMessage \<Rightarrow> u32 option" where
  "compute_v0_sil mm =
     (if msgtype mm \<noteq> 17 \<and> msgtype mm \<noteq> 18 then None
      else if metype mm = 0 then Some 0
      else if 5 \<le> metype mm \<and> metype mm \<le> 17 then Some 2
      else if metype mm = 18 then Some 0
      else if metype mm = 20 \<or> metype mm = 21 then Some 2
      else if metype mm = 22 then Some 0
      else None)"

definition compute_nic_rc_from_message :: "u64 \<Rightarrow> modesMessage \<Rightarrow> aircraft \<Rightarrow> u32 \<times> u32" where
  "compute_nic_rc_from_message now mm a =
     (let nicA = (trackDataValid now (valid a V_nic_a) \<and> ac_nic_a (ac_accuracy a) \<noteq> 0);
          nicB = (nic_b_valid (accuracy mm) \<and> nic_b (accuracy mm) \<noteq> 0);
          nicC = (trackDataValid now (valid a V_nic_c) \<and> ac_nic_c (ac_accuracy a) \<noteq> 0);
          version = word_of_int (adsb_version a)
      in (compute_nic (metype mm) version nicA nicB nicC, compute_rc (metype mm) version nicA nicB nicC))"

definition altitude_to_feet :: "int \<Rightarrow> altitude_unit_t \<Rightarrow> int" where
  "altitude_to_feet raw_alt u =
     (case u of UNIT_METERS \<Rightarrow> truncate_rat (f64 (of_int raw_alt / f64 (3048 / 10000))) | UNIT_FEET \<Rightarrow> raw_alt)"

subsection \<open>Updating an aircraft from a message\<close>

text \<open>The bookkeeping before the decision whether the message can be trusted.\<close>

definition count_message :: "u64 \<Rightarrow> modesMessage \<Rightarrow> aircraft \<Rightarrow> aircraft" where
  "count_message now mm a =
     (let a = (if signalLevel mm > 0 then
                 a\<lparr>ac_signalLevel := (ac_signalLevel a)[ac_signalNext a := signalLevel mm],
                   ac_signalNext := (ac_signalNext a + 1) mod 8\<rparr>
               else a);
          a = a\<lparr>ac_seen := now, ac_messages := ac_messages a + 1\<rparr>;
          a = (if msgtype mm = 11 \<and> reliable mm then a\<lparr>ac_reliableDF11 := ac_reliableDF11 a + 1\<rparr> else a);
          a = (if msgtype mm = 17 \<and> reliable mm then a\<lparr>ac_reliableDF17 := ac_reliableDF17 a + 1\<rparr> else a)
      in if ac_reliableDF11 a \<ge> TRACK_RELIABLE_DF11_MESSAGES \<or> ac_reliableDF17 a \<ge> TRACK_RELIABLE_DF17_MESSAGES
            \<or> ac_messages a \<ge> TRACK_RELIABLE_ANY_MESSAGES
         then a\<lparr>ac_reliable := True\<rparr> else a)"

text \<open>\<^verbatim>\<open>*message_version\<close> is a field of the aircraft that the source of the message selects, or a dummy.\<close>

definition message_version :: "datasource_t \<Rightarrow> aircraft \<Rightarrow> int" where
  "message_version src a =
     (case src of SOURCE_ADSB \<Rightarrow> adsb_version a | SOURCE_TISB \<Rightarrow> tisb_version a
      | SOURCE_ADSR \<Rightarrow> adsr_version a | _ \<Rightarrow> -1)"

definition set_message_version :: "datasource_t \<Rightarrow> int \<Rightarrow> aircraft \<Rightarrow> aircraft" where
  "set_message_version src v a =
     (case src of SOURCE_ADSB \<Rightarrow> a\<lparr>adsb_version := v\<rparr> | SOURCE_TISB \<Rightarrow> a\<lparr>tisb_version := v\<rparr>
      | SOURCE_ADSR \<Rightarrow> a\<lparr>adsr_version := v\<rparr> | _ \<Rightarrow> a)"

definition update_version :: "modesMessage \<Rightarrow> aircraft \<Rightarrow> aircraft \<times> int" where
  "update_version mm a =
     (let a = (if addrtype_rank (addrtype mm) < addrtype_rank (ac_addrtype a) then a\<lparr>ac_addrtype := addrtype mm\<rparr> else a);
          v = message_version (source mm) a;
          v = (if v < 0 then 0 else v);
          a = (if category_valid mm then a\<lparr>ac_category := category mm\<rparr> else a);
          ops = opstatus mm;
          v = (if op_valid ops then uint (op_version ops) else v);
          a = (if op_valid ops \<and> op_hrd ops \<noteq> HEADING_INVALID then a\<lparr>adsb_hrd := op_hrd ops\<rparr> else a);
          a = (if op_valid ops \<and> op_tah ops \<noteq> HEADING_INVALID then a\<lparr>adsb_tah := op_tah ops\<rparr> else a)
      in (set_message_version (source mm) v a, v))"

definition fill_v0_accuracy :: "int \<Rightarrow> modesMessage \<Rightarrow> modesMessage" where
  "fill_v0_accuracy version mm =
     (let mm = (if version = 0 \<and> \<not> nac_p_valid (accuracy mm) then
                  case compute_v0_nacp mm of None \<Rightarrow> mm
                  | Some nacp \<Rightarrow> mm\<lparr>accuracy := (accuracy mm)\<lparr>nac_p_valid := True, nac_p := nacp\<rparr>\<rparr>
                else mm)
      in if version = 0 \<and> sil_type (accuracy mm) = SIL_INVALID then
           case compute_v0_sil mm of None \<Rightarrow> mm
           | Some s \<Rightarrow> mm\<lparr>accuracy := (accuracy mm)\<lparr>sil_type := SIL_UNKNOWN, sil := s\<rparr>\<rparr>
         else mm)"

text \<open>
  \<^verbatim>\<open>if (present && accept_data(&a->x_valid, mm->source)) { ... }\<close>, the pattern of every field.
\<close>

definition accept ::
  "u64 \<Rightarrow> datasource_t \<Rightarrow> bool \<Rightarrow> item \<Rightarrow> (aircraft \<Rightarrow> aircraft) \<Rightarrow> aircraft \<Rightarrow> aircraft" where
  "accept now src present i store a =
     (if present then
        case accept_data now (valid a i) src of
          None \<Rightarrow> a
        | Some v \<Rightarrow> store (a\<lparr>valid := (valid a)(i := v)\<rparr>)
      else a)"

definition hundreds :: "int \<Rightarrow> int" where
  "hundreds alt = (alt + 49) sdiv 100"

definition update_altitude_squawk :: "u64 \<Rightarrow> modesMessage \<Rightarrow> aircraft \<Rightarrow> aircraft" where
  "update_altitude_squawk now mm a =
     (let acc = accept now (source mm);
          a = acc (altitude_baro_valid mm) V_altitude_baro
                (\<lambda>a. let alt = altitude_to_feet (altitude_baro mm) (altitude_baro_unit mm);
                          a = (if modeC_hit a \<and> hundreds (ac_altitude_baro a) \<noteq> hundreds alt
                               then a\<lparr>modeC_hit := False\<rparr> else a)
                      in a\<lparr>ac_altitude_baro := alt\<rparr>) a;
          a = acc (squawk_valid mm) V_squawk
                (\<lambda>a. (if squawk mm \<noteq> ac_squawk a then a\<lparr>modeA_hit := False\<rparr> else a)\<lparr>ac_squawk := squawk mm\<rparr>) a;
          a = acc (emergency_valid mm) V_emergency (\<lambda>a. a\<lparr>ac_emergency := emergency mm\<rparr>) a;
          a = acc (altitude_geom_valid mm) V_altitude_geom
                (\<lambda>a. a\<lparr>ac_altitude_geom := altitude_to_feet (altitude_geom mm) (altitude_geom_unit mm)\<rparr>) a
      in acc (geom_delta_valid mm) V_geom_delta (\<lambda>a. a\<lparr>ac_geom_delta := geom_delta mm\<rparr>) a)"

definition heading_kind :: "modesMessage \<Rightarrow> aircraft \<Rightarrow> heading_type_t" where
  "heading_kind mm a =
     (if heading_type mm = HEADING_MAGNETIC_OR_TRUE then adsb_hrd a
      else if heading_type mm = HEADING_TRACK_OR_HEADING then adsb_tah a
      else heading_type mm)"

definition update_heading :: "u64 \<Rightarrow> modesMessage \<Rightarrow> aircraft \<Rightarrow> aircraft" where
  "update_heading now mm a =
     (if heading_valid mm then
        case heading_kind mm a of
          HEADING_GROUND_TRACK \<Rightarrow> accept now (source mm) True V_track (\<lambda>a. a\<lparr>ac_track := heading mm\<rparr>) a
        | HEADING_MAGNETIC \<Rightarrow> accept now (source mm) True V_mag_heading (\<lambda>a. a\<lparr>ac_mag_heading := heading mm\<rparr>) a
        | HEADING_TRUE \<Rightarrow> accept now (source mm) True V_true_heading (\<lambda>a. a\<lparr>ac_true_heading := heading mm\<rparr>) a
        | _ \<Rightarrow> a
      else a)"

definition select_gs :: "int \<Rightarrow> modesMessage \<Rightarrow> modesMessage" where
  "select_gs version mm =
     (if gs_valid mm
      then mm\<lparr>gs := (gs mm)\<lparr>gs_selected := (if version = 2 then gs_v2 (gs mm) else gs_v0 (gs mm))\<rparr>\<rparr>
      else mm)"

definition update_motion :: "u64 \<Rightarrow> modesMessage \<Rightarrow> aircraft \<Rightarrow> aircraft" where
  "update_motion now mm a =
     (let acc = accept now (source mm);
          a = acc (track_rate_valid mm) V_track_rate (\<lambda>a. a\<lparr>ac_track_rate := track_rate mm\<rparr>) a;
          a = acc (roll_valid mm) V_roll (\<lambda>a. a\<lparr>ac_roll := roll mm\<rparr>) a;
          a = acc (gs_valid mm) V_gs (\<lambda>a. a\<lparr>ac_gs := gs_selected (gs mm)\<rparr>) a;
          a = acc (ias_valid mm) V_ias (\<lambda>a. a\<lparr>ac_ias := ias mm\<rparr>) a;
          a = acc (tas_valid mm) V_tas (\<lambda>a. a\<lparr>ac_tas := tas mm\<rparr>) a;
          a = acc (mach_valid mm) V_mach (\<lambda>a. a\<lparr>ac_mach := mach mm\<rparr>) a;
          a = acc (baro_rate_valid mm) V_baro_rate (\<lambda>a. a\<lparr>ac_baro_rate := baro_rate mm\<rparr>) a
      in acc (geom_rate_valid mm) V_geom_rate (\<lambda>a. a\<lparr>ac_geom_rate := geom_rate mm\<rparr>) a)"

text \<open>A C string ends at its first zero byte.\<close>

definition c_str :: "u8 list \<Rightarrow> u8 list" where
  "c_str s = takeWhile (\<lambda>b. b \<noteq> 0) s"

definition update_status :: "u64 \<Rightarrow> modesMessage \<Rightarrow> aircraft \<Rightarrow> aircraft" where
  "update_status now mm a =
     (let a = accept now (source mm)
                (airground mm \<noteq> AG_INVALID \<and>
                 (airground mm \<noteq> AG_UNCERTAIN \<or> \<not> trackDataFresh now (valid a V_airground)))
                V_airground (\<lambda>a. a\<lparr>ac_airground := airground mm\<rparr>) a
      in accept now (source mm) (callsign_valid mm) V_callsign
           (\<lambda>a. (if c_str (ac_callsign a) \<noteq> c_str (callsign mm) then a\<lparr>ac_callsign_matched := False\<rparr> else a)
                \<lparr>ac_callsign := callsign mm\<rparr>) a)"

definition on_nav :: "(aircraft_nav \<Rightarrow> aircraft_nav) \<Rightarrow> aircraft \<Rightarrow> aircraft" where
  "on_nav f a = a\<lparr>ac_nav := f (ac_nav a)\<rparr>"

definition update_nav :: "u64 \<Rightarrow> modesMessage \<Rightarrow> aircraft \<Rightarrow> aircraft" where
  "update_nav now mm a =
     (let acc = accept now (source mm); n = nav mm;
          a = acc (mcp_altitude_valid n) V_nav_altitude_mcp (on_nav (\<lambda>x. x\<lparr>ac_nav_altitude_mcp := mcp_altitude n\<rparr>)) a;
          a = acc (fms_altitude_valid n) V_nav_altitude_fms (on_nav (\<lambda>x. x\<lparr>ac_nav_altitude_fms := fms_altitude n\<rparr>)) a;
          a = acc (altitude_source n \<noteq> NAV_ALT_INVALID) V_nav_altitude_src
                (on_nav (\<lambda>x. x\<lparr>ac_nav_altitude_src := altitude_source n\<rparr>)) a;
          a = acc (nav_heading_valid n) V_nav_heading (on_nav (\<lambda>x. x\<lparr>ac_nav_heading := nav_heading n\<rparr>)) a;
          a = acc (nav_modes_valid n) V_nav_modes (on_nav (\<lambda>x. x\<lparr>ac_nav_modes := nav_modes n\<rparr>)) a
      in acc (qnh_valid n) V_nav_qnh (on_nav (\<lambda>x. x\<lparr>ac_nav_qnh := qnh n\<rparr>)) a)"


text \<open>The new half of a CPR pair, and whether it was accepted (\<^verbatim>\<open>cpr_new\<close>).\<close>

definition update_cpr :: "u64 \<Rightarrow> modesMessage \<Rightarrow> aircraft \<Rightarrow> aircraft \<times> bool" where
  "update_cpr now mm a =
     (if cpr_valid mm then
        let i = (if cpr_odd mm then V_cpr_odd else V_cpr_even)
        in case accept_data now (valid a i) (source mm) of
             None \<Rightarrow> (a, False)
           | Some v \<Rightarrow>
               let a = a\<lparr>valid := (valid a)(i := v)\<rparr>;
                   (nic, rc) = compute_nic_rc_from_message now mm a;
                   half = \<lparr>ch_type = cpr_type mm, ch_lat = cpr_lat mm, ch_lon = cpr_lon mm, ch_nic = nic, ch_rc = rc\<rparr>
               in (if cpr_odd mm then a\<lparr>cpr_odd_half := half\<rparr> else a\<lparr>cpr_even_half := half\<rparr>, True)
      else (a, False))"

text \<open>The accuracy fields of the aircraft are bit fields; a store keeps the bits that fit.\<close>

definition on_accuracy :: "(aircraft_accuracy \<Rightarrow> aircraft_accuracy) \<Rightarrow> aircraft \<Rightarrow> aircraft" where
  "on_accuracy f a = a\<lparr>ac_accuracy := f (ac_accuracy a)\<rparr>"

definition update_accuracy :: "u64 \<Rightarrow> modesMessage \<Rightarrow> aircraft \<Rightarrow> aircraft" where
  "update_accuracy now mm a =
     (let acc = accept now (source mm); y = accuracy mm;
          a = acc (sda_valid y) V_sda (on_accuracy (\<lambda>x. x\<lparr>ac_sda := take_bit 2 (sda y)\<rparr>)) a;
          a = acc (nic_a_valid y) V_nic_a (on_accuracy (\<lambda>x. x\<lparr>ac_nic_a := take_bit 1 (nic_a y)\<rparr>)) a;
          a = acc (nic_c_valid y) V_nic_c (on_accuracy (\<lambda>x. x\<lparr>ac_nic_c := take_bit 1 (nic_c y)\<rparr>)) a;
          a = acc (nic_baro_valid y) V_nic_baro (on_accuracy (\<lambda>x. x\<lparr>ac_nic_baro := take_bit 1 (nic_baro y)\<rparr>)) a;
          a = acc (nac_p_valid y) V_nac_p (on_accuracy (\<lambda>x. x\<lparr>ac_nac_p := take_bit 4 (nac_p y)\<rparr>)) a;
          a = acc (nac_v_valid y) V_nac_v (on_accuracy (\<lambda>x. x\<lparr>ac_nac_v := take_bit 3 (nac_v y)\<rparr>)) a;
          a = acc (sil_type y \<noteq> SIL_INVALID) V_sil
                (on_accuracy (\<lambda>x. let x = x\<lparr>ac_sil := take_bit 2 (sil y)\<rparr>
                   in if ac_sil_type x = SIL_INVALID \<or> sil_type y \<noteq> SIL_UNKNOWN
                      then x\<lparr>ac_sil_type := sil_type y\<rparr> else x)) a;
          a = acc (gva_valid y) V_gva (on_accuracy (\<lambda>x. x\<lparr>ac_gva := take_bit 2 (gva y)\<rparr>)) a
      in acc (sda_valid y) V_sda (on_accuracy (\<lambda>x. x\<lparr>ac_sda := take_bit 2 (sda y)\<rparr>)) a)"

definition on_weather :: "(aircraft_weather \<Rightarrow> aircraft_weather) \<Rightarrow> aircraft \<Rightarrow> aircraft" where
  "on_weather f a = a\<lparr>ac_weather := f (ac_weather a)\<rparr>"

definition update_weather :: "u64 \<Rightarrow> modesMessage \<Rightarrow> aircraft \<Rightarrow> aircraft" where
  "update_weather now mm a =
     (let acc = accept now (source mm);
          a = acc (mrar_source_valid mm) V_mrar_source (on_weather (\<lambda>x. x\<lparr>ac_mrar_source := mrar_source mm\<rparr>)) a;
          a = acc (wind_valid mm) V_wind
                (on_weather (\<lambda>x. x\<lparr>ac_wind_speed := wind_speed mm, ac_wind_dir := wind_dir mm\<rparr>)) a;
          a = acc (temperature_valid mm) V_temperature (on_weather (\<lambda>x. x\<lparr>ac_temperature := temperature mm\<rparr>)) a;
          a = acc (pressure_valid mm) V_pressure (on_weather (\<lambda>x. x\<lparr>ac_pressure := pressure mm\<rparr>)) a;
          a = acc (turbulence_valid mm) V_turbulence (on_weather (\<lambda>x. x\<lparr>ac_turbulence := turbulence mm\<rparr>)) a
      in acc (humidity_valid mm) V_humidity (on_weather (\<lambda>x. x\<lparr>ac_humidity := humidity mm\<rparr>)) a)"

definition derive_altitude_geom :: "u64 \<Rightarrow> aircraft \<Rightarrow> aircraft" where
  "derive_altitude_geom now a =
     (let v = valid a in
      if compare_validity now (v V_altitude_baro) (v V_altitude_geom) > 0
         \<and> compare_validity now (v V_geom_delta) (v V_altitude_geom) > 0
      then a\<lparr>ac_altitude_geom := ac_altitude_baro a + ac_geom_delta a,
             valid := v(V_altitude_geom :=
               combine_validity (v V_altitude_geom) (v V_altitude_baro) (v V_geom_delta))\<rparr>
      else a)"

text \<open>Everything that follows the decision to trust the message, for the aircraft it is about.\<close>

definition update_aircraft ::
  "track_env \<Rightarrow> u64 \<Rightarrow> modesMessage \<Rightarrow> aircraft \<Rightarrow> track_stats \<Rightarrow> modesMessage \<times> aircraft \<times> track_stats" where
  "update_aircraft E now mm a st =
     (let (a, version) = update_version mm a;
          mm = fill_v0_accuracy version mm;
          a = update_altitude_squawk now mm a;
          a = update_heading now mm a;
          mm = select_gs version mm;
          a = update_motion now mm a;
          a = update_status now mm a;
          a = update_nav now mm a;
          (a, cpr_new) = update_cpr now mm a;
          a = update_accuracy now mm a;
          a = update_weather now mm a;
          a = derive_altitude_geom now a
      in if cpr_new then updatePosition E now mm a st else (mm, a, st))"

definition find_or_create :: "modesMessage \<Rightarrow> tracker \<Rightarrow> aircraft \<times> tracker" where
  "find_or_create mm T =
     (case trackFindAircraft (addr mm) (aircrafts T) of
        Some a \<Rightarrow> (a, T)
      | None \<Rightarrow> let (a, st) = trackCreateAircraft mm (tstats T)
                in (a, T\<lparr>aircrafts := a # aircrafts T, tstats := st\<rparr>))"

definition trackUpdateFromMessage ::
  "track_env \<Rightarrow> modesMessage \<Rightarrow> tracker \<Rightarrow> tracker \<times> modesMessage \<times> aircraft option" where
  "trackUpdateFromMessage E mm T =
     (if msgtype mm = 32 then
        let i = unat (modeAToIndex (squawk mm))
        in (T\<lparr>modeAC_count := (modeAC_count T)[i := modeAC_count T ! i + 1]\<rparr>, mm, None)
      else if addr mm = 0 then (T, mm, None)
      else
        let T = T\<lparr>messageNow := sysTimestampMsg mm\<rparr>;
            (a, T) = find_or_create mm T;
            a = count_message (messageNow T) mm a
        in if \<not> reliable mm \<and> \<not> ac_reliable a then
             let a = a\<lparr>ac_discarded := ac_discarded a + 1\<rparr>
             in (T\<lparr>aircrafts := store_aircraft a (aircrafts T)\<rparr>, mm, Some a)
           else
             let (mm, a, st) = update_aircraft E (messageNow T) mm a (tstats T)
             in (T\<lparr>aircrafts := store_aircraft a (aircrafts T), tstats := st\<rparr>, mm, Some a))"

subsection \<open>Periodic updates\<close>

definition code_heard :: "tracker \<Rightarrow> nat \<Rightarrow> bool" where
  "code_heard T i \<longleftrightarrow> modeAC_count T ! i - modeAC_lastcount T ! i \<ge> TRACK_MODEAC_MIN_MESSAGES"

definition mark_match :: "nat \<Rightarrow> u32 \<Rightarrow> u32 list \<Rightarrow> u32 list" where
  "mark_match i ad m = m[i := (if m ! i \<noteq> 0 then 0xFFFFFFFF else ad)]"

definition match_mode_a :: "tracker \<Rightarrow> aircraft \<times> u32 list \<Rightarrow> aircraft \<times> u32 list" where
  "match_mode_a T = (\<lambda>(a, m).
     if trackDataValid (messageNow T) (valid a V_squawk) then
       let i = unat (modeAToIndex (ac_squawk a))
       in if code_heard T i then (a\<lparr>modeA_hit := True\<rparr>, mark_match i (ac_addr a) m) else (a, m)
     else (a, m))"

definition match_altitude :: "track_env \<Rightarrow> tracker \<Rightarrow> int \<Rightarrow> aircraft \<times> u32 list \<Rightarrow> aircraft \<times> u32 list" where
  "match_altitude E T modeC = (\<lambda>(a, m).
     let modeA = modeCToModeA (t_ac E) modeC; i = unat (modeAToIndex modeA)
     in if modeA \<noteq> 0 \<and> code_heard T i then (a\<lparr>modeC_hit := True\<rparr>, mark_match i (ac_addr a) m) else (a, m))"

definition match_mode_c :: "track_env \<Rightarrow> tracker \<Rightarrow> aircraft \<times> u32 list \<Rightarrow> aircraft \<times> u32 list" where
  "match_mode_c E T = (\<lambda>(a, m).
     if trackDataValid (messageNow T) (valid a V_altitude_baro) then
       let modeC = hundreds (ac_altitude_baro a)
       in match_altitude E T (modeC - 1) (match_altitude E T (modeC + 1) (match_altitude E T modeC (a, m)))
     else (a, m))"

definition match_aircraft :: "track_env \<Rightarrow> u64 \<Rightarrow> tracker \<Rightarrow> aircraft \<Rightarrow> u32 list \<Rightarrow> aircraft \<times> u32 list" where
  "match_aircraft E now T a m =
     (if now - ac_seen a > 5000 then (a, m) else match_mode_c E T (match_mode_a T (a, m)))"

fun match_all :: "track_env \<Rightarrow> u64 \<Rightarrow> tracker \<Rightarrow> aircraft list \<Rightarrow> u32 list \<Rightarrow> aircraft list \<times> u32 list" where
  "match_all E now T [] m = ([], m)"
| "match_all E now T (a # as) m =
     (let (a, m) = match_aircraft E now T a m; (as, m) = match_all E now T as m in (a # as, m))"

text \<open>One entry of the tables: count, last count, match and age become count, last count and age.\<close>

definition age_code :: "u32 \<Rightarrow> u32 \<Rightarrow> u32 \<Rightarrow> u32 \<Rightarrow> u32 \<times> u32 \<times> u32" where
  "age_code count lastcount match age =
     (if count = 0 then (count, lastcount, age)
      else if count - lastcount < TRACK_MODEAC_MIN_MESSAGES then
        if age + 1 > 15 then (0, 0, 0) else (count, count, age + 1)
      else (count, count, if match \<noteq> 0 then 10 else 0))"

definition trackMatchAC :: "track_env \<Rightarrow> u64 \<Rightarrow> tracker \<Rightarrow> tracker" where
  "trackMatchAC E now T =
     (let (as, m) = match_all E now T (aircrafts T) (replicate 4096 0);
          r = List.map (\<lambda>i. age_code (modeAC_count T ! i) (modeAC_lastcount T ! i) (m ! i) (modeAC_age T ! i)) [0..<4096]
      in T\<lparr>aircrafts := as, modeAC_match := m, modeAC_count := List.map fst r,
           modeAC_lastcount := List.map (fst \<circ> snd) r, modeAC_age := List.map (snd \<circ> snd) r\<rparr>)"

definition is_stale :: "u64 \<Rightarrow> aircraft \<Rightarrow> bool" where
  "is_stale now a \<longleftrightarrow> now - ac_seen a > TRACK_AIRCRAFT_TTL
     \<or> \<not> ac_reliable a \<and> now - ac_seen a > TRACK_AIRCRAFT_UNRELIABLE_TTL"

definition expire_data :: "u64 \<Rightarrow> data_validity \<Rightarrow> data_validity" where
  "expire_data now v =
     (if v_source v \<noteq> SOURCE_INVALID \<and> now \<ge> expires v then v\<lparr>v_source := SOURCE_INVALID\<rparr> else v)"

definition count_removed :: "aircraft \<Rightarrow> track_stats \<Rightarrow> track_stats" where
  "count_removed a st =
     (let st = (if ac_messages a = 1 then st\<lparr>single_message_aircraft := single_message_aircraft st + 1\<rparr> else st)
      in if \<not> ac_reliable a then st\<lparr>unreliable_aircraft := unreliable_aircraft st + 1\<rparr> else st)"

fun remove_stale :: "u64 \<Rightarrow> aircraft list \<Rightarrow> track_stats \<Rightarrow> aircraft list \<times> track_stats" where
  "remove_stale now [] st = ([], st)"
| "remove_stale now (a # as) st =
     (if is_stale now a then remove_stale now as (count_removed a st)
      else let (as, st) = remove_stale now as st
           in (a\<lparr>valid := (\<lambda>i. expire_data now (valid a i))\<rparr> # as, st))"

definition trackRemoveStaleAircraft :: "u64 \<Rightarrow> tracker \<Rightarrow> tracker" where
  "trackRemoveStaleAircraft now T =
     (let (as, st) = remove_stale now (aircrafts T) (tstats T) in T\<lparr>aircrafts := as, tstats := st\<rparr>)"

definition trackPeriodicUpdate :: "track_env \<Rightarrow> u64 \<Rightarrow> tracker \<Rightarrow> tracker" where
  "trackPeriodicUpdate E now T =
     (if now \<ge> next_update T then
        trackMatchAC E now (trackRemoveStaleAircraft now (T\<lparr>next_update := now + 1000\<rparr>))
      else T)"

definition tracker_start :: "track_stats \<Rightarrow> tracker" where
  "tracker_start st = \<lparr>aircrafts = [], modeAC_count = replicate 4096 0, modeAC_lastcount = replicate 4096 0,
     modeAC_match = replicate 4096 0, modeAC_age = replicate 4096 0, messageNow = 0, next_update = 0, tstats = st\<rparr>"

end
