(* ===== verification/TrackCorrect.thy ===== *)
theory TrackCorrect
  imports Track
begin

text \<open>
  Theorems about tracking. What a message does to an aircraft is a chain of acceptances, each of which
  changes one validity record and the data it describes. A relation between aircraft that every link of
  the chain establishes is established by the whole chain: the locale \<open>acceptance\<close> proves this once,
  and the trust, ranking and shape arguments are its interpretations.
\<close>

subsection \<open>The shape of an aircraft\<close>

text \<open>The widths of the bit fields and the sizes of the arrays.\<close>

definition accuracy_shape :: "aircraft_accuracy \<Rightarrow> bool" where
  "accuracy_shape x \<longleftrightarrow> ac_nic_a x < 2 \<and> ac_nic_c x < 2 \<and> ac_nic_baro x < 2 \<and> ac_nac_p x < 16
     \<and> ac_nac_v x < 8 \<and> ac_sil x < 4 \<and> ac_gva x < 4 \<and> ac_sda x < 4"

definition intervals_ok :: "aircraft \<Rightarrow> bool" where
  "intervals_ok a \<longleftrightarrow> (\<forall>i. stale_interval (valid a i) \<le> 60000)"

definition aircraft_shape :: "aircraft \<Rightarrow> bool" where
  "aircraft_shape a \<longleftrightarrow> length (ac_signalLevel a) = 8 \<and> ac_signalNext a < 8 \<and> length (ac_callsign a) = 9
     \<and> accuracy_shape (ac_accuracy a) \<and> ch_nic (cpr_odd_half a) \<le> 11 \<and> ch_nic (cpr_even_half a) \<le> 11
     \<and> pos_nic a \<le> 11 \<and> intervals_ok a"

definition identity :: "aircraft \<Rightarrow> u32 \<times> u64 \<times> int \<times> bool \<times> int \<times> int \<times> int" where
  "identity a = (ac_addr a, ac_seen a, ac_messages a, ac_reliable a, ac_reliableDF11 a, ac_reliableDF17 a, ac_discarded a)"

definition located :: "aircraft \<Rightarrow> rat \<times> rat \<times> u32 \<times> u32" where
  "located a = (ac_lat a, ac_lon a, pos_nic a, pos_rc a)"

text \<open>A change of data: neither the validity records nor the bookkeeping nor the position are touched.\<close>

definition data_change :: "modesMessage \<Rightarrow> aircraft \<Rightarrow> aircraft \<Rightarrow> bool" where
  "data_change mm a b \<longleftrightarrow> valid b = valid a \<and> identity b = identity a \<and> located b = located a
     \<and> (length (callsign mm) = 9 \<and> aircraft_shape a \<longrightarrow> aircraft_shape b)"

lemma accuracy_widths [simp]:
  "(x :: u32) mod 2 < 2" "take_bit 2 x < 4" "take_bit 3 x < 8" "take_bit 4 x < 16"
  using take_bit_nat_less_exp [of 2 "unat x"]
    take_bit_nat_less_exp [of 3 "unat x"] take_bit_nat_less_exp [of 4 "unat x"]
  by (simp_all add: word_less_nat_alt unsigned_take_bit_eq unat_mod)

lemma compute_nic_bound: "compute_nic tc ver na nb nc \<le> 11"
  by (simp add: compute_nic_def)

lemma nic_from_message_bound: "fst (compute_nic_rc_from_message now mm a) \<le> 11"
  by (simp add: compute_nic_rc_from_message_def Let_def compute_nic_bound)

lemma data_change_refl [simp]: "data_change mm a a"
  by (simp add: data_change_def)

lemmas data_change_defs = data_change_def identity_def located_def aircraft_shape_def intervals_ok_def accuracy_shape_def
  on_nav_def on_accuracy_def on_weather_def

subsection \<open>The chain of acceptances\<close>

locale acceptance =
  fixes now :: u64 and mm0 :: modesMessage and R :: "aircraft \<Rightarrow> aircraft \<Rightarrow> bool"
  assumes trans: "R a b \<Longrightarrow> R b c \<Longrightarrow> R a c"
    and change: "data_change mm0 a b \<Longrightarrow> R a b"
    and accepted: "i \<noteq> V_position \<Longrightarrow> accept_data now (valid a i) (source mm0) = Some v \<Longrightarrow> R a (a\<lparr>valid := (valid a)(i := v)\<rparr>)"
begin

lemma refl: "R a a"
  by (rule change) simp

lemma accept_R:
  assumes "src = source mm0" and "i \<noteq> V_position" and "\<And>b. data_change mm0 b (store b)" and "R a b"
  shows "R a (accept now src present i store b)"
proof -
  have "R b (accept now src present i store b)"
    using accepted [OF assms(2), of b] trans [OF accepted [OF assms(2)] change [OF assms(3)]] refl assms(1)
    by (auto simp: accept_def split: option.splits)
  with assms(4) trans show ?thesis by blast
qed

lemma update_altitude_squawk_R:
  "source mm = source mm0 \<Longrightarrow> R a b \<Longrightarrow> R a (update_altitude_squawk now mm b)"
  unfolding update_altitude_squawk_def Let_def
  by (intro accept_R; simp add: data_change_defs)

lemma update_heading_R:
  "source mm = source mm0 \<Longrightarrow> R a b \<Longrightarrow> R a (update_heading now mm b)"
  by (auto simp: update_heading_def data_change_defs split: heading_type_t.split intro!: accept_R)

lemma update_motion_R:
  "source mm = source mm0 \<Longrightarrow> R a b \<Longrightarrow> R a (update_motion now mm b)"
  unfolding update_motion_def Let_def
  by (intro accept_R; simp add: data_change_defs)

lemma update_status_R:
  "source mm = source mm0 \<Longrightarrow> callsign mm = callsign mm0 \<Longrightarrow> R a b \<Longrightarrow> R a (update_status now mm b)"
  unfolding update_status_def Let_def
  by (intro accept_R; simp add: data_change_defs)

lemma update_nav_R:
  "source mm = source mm0 \<Longrightarrow> R a b \<Longrightarrow> R a (update_nav now mm b)"
  unfolding update_nav_def Let_def
  by (intro accept_R; simp add: data_change_defs)

lemma update_accuracy_R:
  "source mm = source mm0 \<Longrightarrow> R a b \<Longrightarrow> R a (update_accuracy now mm b)"
  unfolding update_accuracy_def Let_def
  by (intro accept_R; simp add: data_change_defs)

lemma update_weather_R:
  "source mm = source mm0 \<Longrightarrow> R a b \<Longrightarrow> R a (update_weather now mm b)"
  unfolding update_weather_def Let_def
  by (intro accept_R; simp add: data_change_defs)

lemma update_version_R: "R a (fst (update_version mm a))"
proof -
  have if_R: "R a (if p then f b else b)" if "R a b" and "data_change mm0 b (f b)" for p f and b :: aircraft
    using that trans change by auto
  have set_R: "R a (set_message_version (source mm) v b)" if "R a b" for v b
    by (rule trans [OF that change]) (cases "source mm"; simp add: set_message_version_def data_change_defs)
  then show ?thesis unfolding update_version_def Let_def fst_conv
    by (intro set_R if_R refl; simp add: data_change_defs)
qed

lemma update_cpr_R:
  assumes "source mm = source mm0" and "R a b"
  shows "R a (fst (update_cpr now mm b))"
proof (cases "cpr_valid mm")
  case True
  let ?i = "if cpr_odd mm then V_cpr_odd else V_cpr_even"
  show ?thesis
  proof (cases "accept_data now (valid b ?i) (source mm)")
    case None
    then show ?thesis using True assms(2) by (simp add: update_cpr_def Let_def)
  next
    case (Some v)
    let ?b = "b\<lparr>valid := (valid b)(?i := v)\<rparr>"
    have "R b ?b" using accepted Some assms(1) by simp
    moreover have "R ?b (fst (update_cpr now mm b))"
      using True Some nic_from_message_bound [of now mm ?b]
      by (intro change) (auto simp: update_cpr_def Let_def split_beta data_change_defs)
    ultimately show ?thesis using assms(2) trans by blast
  qed
qed (simp add: update_cpr_def assms(2))

end

subsection \<open>The chain as a whole\<close>

lemma fill_v0_accuracy_keeps [simp]:
  "source (fill_v0_accuracy v mm) = source mm" "callsign (fill_v0_accuracy v mm) = callsign mm"
  "cpr_type (fill_v0_accuracy v mm) = cpr_type mm"
  by (simp_all add: fill_v0_accuracy_def Let_def split: option.split)

lemma select_gs_keeps [simp]:
  "source (select_gs v mm) = source mm" "callsign (select_gs v mm) = callsign mm"
  "cpr_type (select_gs v mm) = cpr_type mm"
  by (simp_all add: select_gs_def)

text \<open>The message and the aircraft at the point where the position is updated, and whether it is.\<close>

definition prepared :: "modesMessage \<Rightarrow> aircraft \<Rightarrow> modesMessage" where
  "prepared mm a = (let v = snd (update_version mm a) in select_gs v (fill_v0_accuracy v mm))"

definition with_cpr :: "u64 \<Rightarrow> modesMessage \<Rightarrow> aircraft \<Rightarrow> aircraft \<times> bool" where
  "with_cpr now mm a =
     (let (a', v) = update_version mm a; mm' = fill_v0_accuracy v mm; mm = prepared mm a
      in update_cpr now mm (update_nav now mm (update_status now mm (update_motion now mm
           (update_heading now mm' (update_altitude_squawk now mm' a'))))))"

definition all_accepted :: "u64 \<Rightarrow> modesMessage \<Rightarrow> aircraft \<Rightarrow> aircraft" where
  "all_accepted now mm a =
     (let m = prepared mm a in update_weather now m (update_accuracy now m (fst (with_cpr now mm a))))"

definition before_position :: "u64 \<Rightarrow> modesMessage \<Rightarrow> aircraft \<Rightarrow> aircraft" where
  "before_position now mm a = derive_altitude_geom now (all_accepted now mm a)"

lemma prepared_keeps [simp]:
  "source (prepared mm a) = source mm" "cpr_type (prepared mm a) = cpr_type mm"
  "callsign (prepared mm a) = callsign mm"
  by (simp_all add: prepared_def Let_def)

lemma update_aircraft_eq:
  "update_aircraft E now mm a st =
    (if snd (with_cpr now mm a) then updatePosition E now (prepared mm a) (before_position now mm a) st
     else (prepared mm a, before_position now mm a, st))"
  by (simp add: update_aircraft_def before_position_def all_accepted_def with_cpr_def prepared_def Let_def split_beta)

context acceptance
begin

lemma all_accepted_R: "R a (all_accepted now mm0 a)"
proof -
  have "R a (fst (with_cpr now mm0 a))"
    unfolding with_cpr_def Let_def split_beta
    by (intro update_cpr_R update_nav_R update_status_R update_motion_R update_heading_R
        update_altitude_squawk_R update_version_R) simp_all
  then show ?thesis unfolding all_accepted_def Let_def
    by (intro update_weather_R update_accuracy_R) simp_all
qed

end

text \<open>Where the derived altitude keeps the relation too, so does the whole chain.\<close>

locale derivation = acceptance +
  assumes derived: "R a (derive_altitude_geom now a)"
begin

lemma before_position_R: "R a (before_position now mm0 a)"
  unfolding before_position_def using all_accepted_R derived trans by blast

end

lemma no_wrap: "now < now + d" if "(now :: u64) < 2 ^ 63" "0 < d" "d \<le> 60000"
  using that by (simp add: word_less_nat_alt word_le_nat_alt unat_word_ariths)

lemma accept_data_Some:
  assumes "accept_data now d src = Some v"
  shows "v_source v = src" "updated v = now" "stale_interval v = stale_interval d"
    "stale v = now + (if stale_interval d \<noteq> 0 then stale_interval d else 60000)"
    "updated d \<le> now" "now < stale d \<Longrightarrow> v_source d \<le> src"
  using assms by (auto simp: accept_data_def split: if_splits)

lemma accept_data_ranks:
  assumes "accept_data now d src = Some v" "now < 2 ^ 63" "stale_interval d \<le> 60000"
  shows "stale_interval v \<le> 60000" "now < stale v" "now < stale d \<Longrightarrow> v_source d \<le> v_source v"
  using accept_data_Some [OF assms(1)] assms(2,3) no_wrap [OF assms(2), of "stale_interval d"] no_wrap [OF assms(2), of 60000]
  by (auto simp: word_gt_0)

text \<open>The chain leaves the bookkeeping and the position alone.\<close>

lemma derive_altitude_geom_keeps [simp]:
  "identity (derive_altitude_geom now a) = identity a" "located (derive_altitude_geom now a) = located a"
  by (simp_all add: derive_altitude_geom_def Let_def data_change_defs)

lemma derive_altitude_geom_shape: "aircraft_shape a \<Longrightarrow> aircraft_shape (derive_altitude_geom now a)"
  by (auto simp: derive_altitude_geom_def Let_def aircraft_shape_def intervals_ok_def combine_validity_def)

lemma derive_altitude_geom_others:
  "i \<noteq> V_altitude_geom \<Longrightarrow> valid (derive_altitude_geom now a) i = valid a i"
  by (simp add: derive_altitude_geom_def Let_def)

interpretation bookkeeping: derivation now mm
    "\<lambda>a b. identity b = identity a \<and> located b = located a \<and> valid b V_position = valid a V_position" for now mm
  by unfold_locales (simp_all add: data_change_def derive_altitude_geom_others, simp_all add: identity_def located_def)

interpretation shaped: derivation now mm "\<lambda>a b. length (callsign mm) = 9 \<and> aircraft_shape a \<longrightarrow> aircraft_shape b" for now mm
proof unfold_locales
  show "length (callsign mm) = 9 \<and> aircraft_shape a \<longrightarrow> aircraft_shape (a\<lparr>valid := (valid a)(i := v)\<rparr>)"
    if "accept_data now (valid a i) (source mm) = Some v" for a i v
    using accept_data_Some(3) [OF that] by (auto simp: aircraft_shape_def intervals_ok_def)
qed (simp_all add: data_change_def derive_altitude_geom_shape)

text \<open>While an item is fresh, its source is never replaced by a lesser one.\<close>

definition keeps_rank :: "u64 \<Rightarrow> aircraft \<Rightarrow> aircraft \<Rightarrow> bool" where
  "keeps_rank now a b \<longleftrightarrow> (now < 2 ^ 63 \<and> intervals_ok a \<longrightarrow> intervals_ok b \<and>
     (\<forall>i. now < stale (valid a i) \<longrightarrow> now < stale (valid b i) \<and> v_source (valid a i) \<le> v_source (valid b i)))"

interpretation ranking: acceptance now mm "keeps_rank now" for now mm
proof unfold_locales
  show "keeps_rank now a c" if "keeps_rank now a b" "keeps_rank now b c" for a b c
    using that unfolding keeps_rank_def by (meson order_trans)
  show "keeps_rank now a b" if "data_change mm a b" for a b
    using that by (simp add: keeps_rank_def data_change_def intervals_ok_def)
  show "keeps_rank now a (a\<lparr>valid := (valid a)(i := v)\<rparr>)"
    if "accept_data now (valid a i) (source mm) = Some v" for a i v
    using accept_data_ranks [OF that] by (auto simp: keeps_rank_def intervals_ok_def)
qed


subsection \<open>The position\<close>

definition discard_position :: "aircraft \<Rightarrow> aircraft" where
  "discard_position a = set_source V_position SOURCE_INVALID (set_source V_cpr_even SOURCE_INVALID
     (set_source V_cpr_odd SOURCE_INVALID a))"

definition place :: "data_validity \<Rightarrow> decoded_position \<Rightarrow> aircraft \<Rightarrow> aircraft" where
  "place v p a = a\<lparr>valid := (valid a)(V_position := v), ac_lat := d_lat p, ac_lon := d_lon p,
     pos_nic := d_nic p, pos_rc := d_rc p\<rparr>"

definition decodes :: "track_env \<Rightarrow> u64 \<Rightarrow> aircraft \<Rightarrow> modesMessage \<Rightarrow> decoded_position \<Rightarrow> bool" where
  "decodes E now a mm p \<longleftrightarrow>
     (\<exists>st st'. doGlobalCPR E now a mm st = (Inr p, st') \<or> doLocalCPR E now a mm st = (Inr p, st'))"

lemma position_from_local_cases:
  assumes "position_from_local E now mm a st = (mm', b, st')"
  obtains "b = a" | v p where "accept_data now (valid a V_position) (source mm) = Some v"
    "b = place v p a" "decodes E now a mm p"
proof -
  obtain r st1 where r: "doLocalCPR E now a mm st = (r, st1)" by force
  show thesis
  proof (cases r)
    case (Inl e)
    then show thesis using assms r that(1) by (simp add: position_from_local_def)
  next
    case (Inr p)
    then have d: "decodes E now a mm p" using r by (auto simp: decodes_def)
    show thesis
      using assms r Inr that(1) that(2) [OF _ _ d]
      by (auto simp: position_from_local_def accept_position_def store_position_def place_def split: option.splits)
  qed
qed

lemma updatePosition_cases:
  assumes "updatePosition E now mm a st = (mm', b, st')"
  obtains "b = a" | "b = discard_position a"
    | v p where "accept_data now (valid a V_position) (source mm) = Some v" "b = place v p a" "decodes E now a mm p"
proof (cases "global_pair now a (max_elapsed_for mm)")
  case False
  then show thesis
    using assms that by (auto simp: updatePosition_def Let_def elim!: position_from_local_cases split: if_splits)
next
  case True
  let ?st = "if cpr_type mm = CPR_SURFACE then st\<lparr>cpr_surface := cpr_surface st + 1\<rparr> else st\<lparr>cpr_airborne := cpr_airborne st + 1\<rparr>"
  obtain r st1 where r: "doGlobalCPR E now a mm ?st = (r, st1)" by force
  show thesis
  proof (cases r)
    case (Inl e)
    show thesis
      using assms that True r Inl
      by (auto simp: updatePosition_def discard_position_def elim!: position_from_local_cases split: if_splits)
  next
    case (Inr p)
    then have d: "decodes E now a mm p" using r by (auto simp: decodes_def)
    show thesis
      using assms that(1) that(3) [OF _ _ d] True r Inr
      by (auto simp: updatePosition_def accept_position_def store_position_def place_def split: option.splits)
  qed
qed

lemma doGlobalCPR_Inr:
  assumes "doGlobalCPR E now a mm st = (Inr p, st')"
  shows "d_nic p = min (ch_nic (cpr_even_half a)) (ch_nic (cpr_odd_half a))"
    and "maxRange E > 0 \<and> user_latlon_valid E \<Longrightarrow>
      greatcircle (t_libm E) (fUserLat E) (fUserLon E) (d_lat p) (d_lon p) \<le> maxRange E"
    and "source mm = SOURCE_MLAT \<or> \<not> needs_speed_check now a (d_nic p) (d_rc p)
      \<or> speed_check E now a (d_lat p) (d_lon p) (cpr_type mm = CPR_SURFACE)"
  using assms unfolding doGlobalCPR_def Let_def
  by (auto simp: min_def split: sum.splits prod.splits if_split_asm)

lemma doLocalCPR_Inr:
  assumes "doLocalCPR E now a mm st = (Inr p, st')"
  obtains reflat reflon limit where
    "local_reference E now a (cpr_type mm = CPR_SURFACE)
       (ch_nic (if cpr_odd mm then cpr_odd_half a else cpr_even_half a))
       (ch_rc (if cpr_odd mm then cpr_odd_half a else cpr_even_half a)) = Some (reflat, reflon, limit, d_nic p, d_rc p)"
    "limit > 0 \<Longrightarrow> greatcircle (t_libm E) reflat reflon (d_lat p) (d_lon p) \<le> limit"
    "\<not> needs_speed_check now a (d_nic p) (d_rc p)
       \<or> speed_check E now a (d_lat p) (d_lon p) (cpr_type mm = CPR_SURFACE)"
  using assms unfolding doLocalCPR_def Let_def
  by (auto simp: not_less split: option.splits sum.splits prod.splits if_split_asm)

lemma local_reference_nic:
  "local_reference E now a surface nic rc = Some (la, lo, limit, nic', rc') \<Longrightarrow> nic' \<le> nic"
  by (auto simp: local_reference_def split: if_splits)

lemma decodes_nic_bound:
  assumes "decodes E now a mm p" "aircraft_shape a"
  shows "d_nic p \<le> 11"
  using assms unfolding decodes_def aircraft_shape_def
  by (auto simp: doGlobalCPR_Inr(1) min_le_iff_disj elim!: doLocalCPR_Inr dest!: local_reference_nic split: if_splits)

lemma range_bucket_bound: "range_bucket mr metres < RANGE_BUCKET_COUNT"
  by (auto simp: range_bucket_def Let_def RANGE_BUCKET_COUNT_def)


subsection \<open>The aircraft list\<close>

lemma trackFindAircraft_SomeD:
  "trackFindAircraft ad as = Some a \<Longrightarrow> a \<in> set as \<and> ac_addr a = ad"
  by (induction as) (auto split: if_splits)

lemma trackFindAircraft_None: "trackFindAircraft ad as = None \<longleftrightarrow> ad \<notin> ac_addr ` set as"
  by (induction as) auto

lemma addresses_store [simp]: "List.map ac_addr (store_aircraft a as) = List.map ac_addr as"
  by (induction as) auto

lemma store_aircraft_memberD: "x \<in> set (store_aircraft a as) \<Longrightarrow> x = a \<or> x \<in> set as"
  by (induction as) (auto split: if_splits)

lemma find_store:
  "trackFindAircraft ad (store_aircraft a as) =
     (if ad = ac_addr a \<and> ad \<in> ac_addr ` set as then Some a else trackFindAircraft ad as)"
  by (induction as) auto

subsection \<open>Well-formed trackers\<close>

definition aircraft_wf :: "aircraft \<Rightarrow> bool" where
  "aircraft_wf a \<longleftrightarrow> ac_addr a \<noteq> 0 \<and> aircraft_shape a \<and> 1 \<le> ac_messages a
     \<and> 0 \<le> ac_reliableDF11 a \<and> 0 \<le> ac_reliableDF17 a \<and> 0 \<le> ac_discarded a \<and> ac_discarded a \<le> ac_messages a"

definition tracker_wf :: "tracker \<Rightarrow> bool" where
  "tracker_wf T \<longleftrightarrow> distinct (List.map ac_addr (aircrafts T)) \<and> (\<forall>a\<in>set (aircrafts T). aircraft_wf a)
     \<and> length (modeAC_count T) = 4096 \<and> length (modeAC_lastcount T) = 4096 \<and> length (modeAC_match T) = 4096
     \<and> length (modeAC_age T) = 4096 \<and> length (range_histogram (tstats T)) = RANGE_BUCKET_COUNT"

lemma identity_fields:
  "identity b = identity a \<Longrightarrow> ac_addr b = ac_addr a \<and> ac_seen b = ac_seen a \<and> ac_messages b = ac_messages a
     \<and> ac_reliable b = ac_reliable a \<and> ac_reliableDF11 b = ac_reliableDF11 a
     \<and> ac_reliableDF17 b = ac_reliableDF17 a \<and> ac_discarded b = ac_discarded a"
  by (simp add: identity_def)

lemma identity_place [simp]: "identity (place v p a) = identity a"
  by (simp add: place_def identity_def)

lemma discard_position_keeps [simp]:
  "identity (discard_position a) = identity a" "located (discard_position a) = located a"
  by (simp_all add: discard_position_def set_source_def data_change_defs)

lemma discard_position_shape: "aircraft_shape a \<Longrightarrow> aircraft_shape (discard_position a)"
  by (simp add: discard_position_def set_source_def data_change_defs)

lemma update_aircraft_identity:
  assumes "update_aircraft E now mm a st = (mm', b, st')"
  shows "identity b = identity a"
  using assms bookkeeping.before_position_R [of now mm a]
  by (auto simp: update_aircraft_eq elim!: updatePosition_cases split: if_splits)

lemma place_shape:
  "aircraft_shape a \<Longrightarrow> d_nic p \<le> 11 \<Longrightarrow> accept_data now (valid a V_position) src = Some v \<Longrightarrow> aircraft_shape (place v p a)"
  by (auto simp: place_def aircraft_shape_def intervals_ok_def dest: accept_data_Some(3))

lemma update_aircraft_shape:
  assumes "update_aircraft E now mm a st = (mm', b, st')" "length (callsign mm) = 9" "aircraft_shape a"
  shows "aircraft_shape b"
  using assms shaped.before_position_R [of mm a now]
  by (auto simp: update_aircraft_eq elim!: updatePosition_cases split: if_splits
      intro: place_shape decodes_nic_bound discard_position_shape)

lemma histogram_length:
  "length (range_histogram (update_range_histogram E lat lon st)) = length (range_histogram st)"
  by (simp add: update_range_histogram_def Let_def)

lemma doGlobalCPR_histogram:
  "range_histogram (snd (doGlobalCPR E now a mm st)) = range_histogram st"
  unfolding doGlobalCPR_def Let_def by (simp split: sum.split prod.split)

lemma doLocalCPR_histogram:
  "range_histogram (snd (doLocalCPR E now a mm st)) = range_histogram st"
  unfolding doLocalCPR_def Let_def by (simp split: sum.split prod.split option.split)

lemma position_from_local_histogram:
  assumes "position_from_local E now mm a st = (mm', b, st')"
  shows "length (range_histogram st') = length (range_histogram st)"
proof -
  obtain r st1 where r: "doLocalCPR E now a mm st = (r, st1)" by force
  then have "range_histogram st1 = range_histogram st" using doLocalCPR_histogram [of E now a mm st] by simp
  then show ?thesis
    using assms r by (auto simp: position_from_local_def store_position_def histogram_length split: sum.splits option.splits)
qed

lemma updatePosition_histogram:
  assumes "updatePosition E now mm a st = (mm', b, st')"
  shows "length (range_histogram st') = length (range_histogram st)"
proof -
  let ?st = "if cpr_type mm = CPR_SURFACE then st\<lparr>cpr_surface := cpr_surface st + 1\<rparr> else st\<lparr>cpr_airborne := cpr_airborne st + 1\<rparr>"
  obtain r st1 where r: "doGlobalCPR E now a mm ?st = (r, st1)" by force
  then have "range_histogram st1 = range_histogram st" using doGlobalCPR_histogram [of E now a mm ?st] by simp
  then show ?thesis
    using assms r unfolding updatePosition_def Let_def
    by (auto simp: store_position_def histogram_length split: sum.splits option.splits if_splits
        dest!: position_from_local_histogram)
qed

lemma update_aircraft_histogram:
  assumes "update_aircraft E now mm a st = (mm', b, st')"
  shows "length (range_histogram st') = length (range_histogram st)"
  using assms by (auto simp: update_aircraft_eq dest!: updatePosition_histogram split: if_splits)


subsection \<open>One message\<close>

lemma count_message_counts:
  "ac_addr (count_message now mm a) = ac_addr a" "valid (count_message now mm a) = valid a"
  "located (count_message now mm a) = located a" "ac_seen (count_message now mm a) = now"
  "ac_messages (count_message now mm a) = ac_messages a + 1"
  "ac_reliableDF11 (count_message now mm a) = ac_reliableDF11 a + (if msgtype mm = 11 \<and> reliable mm then 1 else 0)"
  "ac_reliableDF17 (count_message now mm a) = ac_reliableDF17 a + (if msgtype mm = 17 \<and> reliable mm then 1 else 0)"
  "ac_discarded (count_message now mm a) = ac_discarded a"
  by (simp_all add: count_message_def Let_def located_def)

lemma count_message_reliable:
  "ac_reliable (count_message now mm a) \<longleftrightarrow> ac_reliable a
     \<or> ac_reliableDF11 (count_message now mm a) \<ge> 3 \<or> ac_reliableDF17 (count_message now mm a) \<ge> 2
     \<or> ac_messages (count_message now mm a) \<ge> 5"
  by (simp add: count_message_def Let_def TRACK_RELIABLE_DF11_MESSAGES_def TRACK_RELIABLE_DF17_MESSAGES_def
      TRACK_RELIABLE_ANY_MESSAGES_def)

lemma count_message_shape: "aircraft_shape a \<Longrightarrow> aircraft_shape (count_message now mm a)"
  by (simp add: count_message_def Let_def aircraft_shape_def intervals_ok_def)

lemma trackCreateAircraft_shape:
  assumes "trackCreateAircraft mm st = (a, st')"
  shows "aircraft_shape a" "ac_addr a = addr mm" "ac_messages a = 0" "ac_reliableDF11 a = 0"
    "ac_reliableDF17 a = 0" "ac_discarded a = 0" "\<not> ac_reliable a" "intervals_ok a"
    "v_source (valid a i) = SOURCE_INVALID" "range_histogram st' = range_histogram st"
  using assms
  by (auto simp: trackCreateAircraft_def zeroAircraft_def aircraft_shape_def accuracy_shape_def zero_cpr_def
      intervals_ok_def stale_seconds_def)

definition code_tables :: "tracker \<Rightarrow> (u32 list \<times> u32 list) \<times> (u32 list \<times> u32 list)" where
  "code_tables T = ((modeAC_count T, modeAC_lastcount T), (modeAC_match T, modeAC_age T))"

lemma find_or_create:
  assumes "find_or_create mm T = (a, T1)"
  shows "ac_addr a = addr mm" "a \<in> set (aircrafts T1)"
    "trackFindAircraft ad (aircrafts T1) = (if ad = addr mm then Some a else trackFindAircraft ad (aircrafts T))"
    "trackFindAircraft (addr mm) (aircrafts T) = Some a \<and> T1 = T
     \<or> (\<exists>st. trackFindAircraft (addr mm) (aircrafts T) = None \<and> trackCreateAircraft mm (tstats T) = (a, st)
           \<and> T1 = T\<lparr>aircrafts := a # aircrafts T, tstats := st\<rparr>)"
  using assms trackCreateAircraft_shape(2) [of mm "tstats T"] trackFindAircraft_SomeD [of "addr mm" "aircrafts T"]
  by (auto simp: find_or_create_def split: option.splits prod.splits)

lemma trackUpdate_tracked:
  assumes "msgtype mm \<noteq> 32" "addr mm \<noteq> 0" "trackUpdateFromMessage E mm T = (T', mm', r)"
  obtains a T1 b where
    "find_or_create mm (T\<lparr>messageNow := sysTimestampMsg mm\<rparr>) = (a, T1)" "r = Some b"
    "aircrafts T' = store_aircraft b (aircrafts T1)"
    "code_tables T' = code_tables T1"
    "\<not> reliable mm \<and> \<not> ac_reliable (count_message (sysTimestampMsg mm) mm a)
       \<and> b = (count_message (sysTimestampMsg mm) mm a)\<lparr>ac_discarded := ac_discarded a + 1\<rparr> \<and> tstats T' = tstats T1
     \<or> (reliable mm \<or> ac_reliable (count_message (sysTimestampMsg mm) mm a))
       \<and> update_aircraft E (sysTimestampMsg mm) mm (count_message (sysTimestampMsg mm) mm a) (tstats T1) = (mm', b, tstats T')"
proof -
  let ?T = "T\<lparr>messageNow := sysTimestampMsg mm\<rparr>"
  obtain a T1 where f: "find_or_create mm ?T = (a, T1)" by force
  have n: "messageNow T1 = sysTimestampMsg mm" using find_or_create(4) [OF f] by auto
  let ?a = "count_message (sysTimestampMsg mm) mm a"
  obtain mm1 b st where u: "update_aircraft E (sysTimestampMsg mm) mm ?a (tstats T1) = (mm1, b, st)"
    by (metis prod_cases3)
  show thesis
  proof (cases "\<not> reliable mm \<and> \<not> ac_reliable ?a")
    case True
    then show thesis
      using assms f n by (intro that [OF f]) (auto simp: trackUpdateFromMessage_def Let_def count_message_counts code_tables_def)
  next
    case False
    then show thesis
      using assms f n u by (intro that [OF f]) (auto simp: trackUpdateFromMessage_def Let_def code_tables_def)
  qed
qed

lemma trackUpdate_identity:
  assumes "msgtype mm \<noteq> 32" "addr mm \<noteq> 0" "trackUpdateFromMessage E mm T = (T', mm', r)"
    and "find_or_create mm (T\<lparr>messageNow := sysTimestampMsg mm\<rparr>) = (a, T1)"
  obtains b where "r = Some b" "aircrafts T' = store_aircraft b (aircrafts T1)"
    "ac_addr b = addr mm" "ac_seen b = sysTimestampMsg mm" "ac_messages b = ac_messages a + 1"
    "ac_reliableDF11 b = ac_reliableDF11 a + (if msgtype mm = 11 \<and> reliable mm then 1 else 0)"
    "ac_reliableDF17 b = ac_reliableDF17 a + (if msgtype mm = 17 \<and> reliable mm then 1 else 0)"
    "ac_reliable b \<longleftrightarrow> ac_reliable a \<or> ac_reliableDF11 b \<ge> 3 \<or> ac_reliableDF17 b \<ge> 2 \<or> ac_messages b \<ge> 5"
    "ac_discarded b = ac_discarded a + (if reliable mm \<or> ac_reliable b then 0 else 1)"
    "length (callsign mm) = 9 \<Longrightarrow> aircraft_shape a \<Longrightarrow> aircraft_shape b"
    "code_tables T' = code_tables T1"
    "length (range_histogram (tstats T')) = length (range_histogram (tstats T1))"
proof -
  let ?c = "count_message (sysTimestampMsg mm) mm a"
  let ?b = "if reliable mm \<or> ac_reliable ?c then ?c else ?c\<lparr>ac_discarded := ac_discarded a + 1\<rparr>"
  obtain a' T2 b where t: "find_or_create mm (T\<lparr>messageNow := sysTimestampMsg mm\<rparr>) = (a', T2)" "r = Some b"
    "aircrafts T' = store_aircraft b (aircrafts T2)" "code_tables T' = code_tables T2"
    "\<not> reliable mm \<and> \<not> ac_reliable (count_message (sysTimestampMsg mm) mm a')
       \<and> b = (count_message (sysTimestampMsg mm) mm a')\<lparr>ac_discarded := ac_discarded a' + 1\<rparr> \<and> tstats T' = tstats T2
     \<or> (reliable mm \<or> ac_reliable (count_message (sysTimestampMsg mm) mm a'))
       \<and> update_aircraft E (sysTimestampMsg mm) mm (count_message (sysTimestampMsg mm) mm a') (tstats T2) = (mm', b, tstats T')"
    by (rule trackUpdate_tracked [OF assms(1-3)])
  have same: "a' = a" "T2 = T1" using t(1) assms(4) by simp_all
  then have b: "r = Some b" "aircrafts T' = store_aircraft b (aircrafts T1)" using t(2,3) by simp_all
  have "identity b = identity ?b" using t(5) update_aircraft_identity unfolding same by auto
  note id = identity_fields [OF this]
  have f: "ac_addr b = ac_addr ?c" "ac_seen b = ac_seen ?c" "ac_messages b = ac_messages ?c"
    "ac_reliableDF11 b = ac_reliableDF11 ?c" "ac_reliableDF17 b = ac_reliableDF17 ?c" "ac_reliable b = ac_reliable ?c"
    using id by (cases "reliable mm \<or> ac_reliable ?c"; simp)+
  have d: "ac_discarded b = ac_discarded a + (if reliable mm \<or> ac_reliable ?c then 0 else 1)"
    using id by (cases "reliable mm \<or> ac_reliable ?c") (simp_all add: count_message_counts)
  have sh: "aircraft_shape b" if "length (callsign mm) = 9" "aircraft_shape a"
  proof -
    have c: "aircraft_shape ?c" using that(2) by (rule count_message_shape)
    then have "aircraft_shape (?c\<lparr>ac_discarded := ac_discarded a + 1\<rparr>)"
      by (simp add: aircraft_shape_def intervals_ok_def)
    with t(5) c update_aircraft_shape [OF _ that(1)] show ?thesis unfolding same by blast
  qed
  have h: "length (range_histogram (tstats T')) = length (range_histogram (tstats T1))"
    using t(5) update_aircraft_histogram unfolding same by auto
  show thesis
    using find_or_create(1) [OF assms(4)] count_message_reliable [of "sysTimestampMsg mm" mm a] d sh h t(4)
    by (intro that [OF b]) (simp_all only: f count_message_counts same)
qed

subsection \<open>Well-formedness is preserved\<close>

lemma aircraft_wf_create:
  "trackCreateAircraft mm st = (a, st') \<Longrightarrow> addr mm \<noteq> 0 \<Longrightarrow> aircraft_shape a \<and> ac_addr a \<noteq> 0 \<and> 0 \<le> ac_messages a
     \<and> 0 \<le> ac_reliableDF11 a \<and> 0 \<le> ac_reliableDF17 a \<and> 0 \<le> ac_discarded a \<and> ac_discarded a \<le> ac_messages a"
  by (simp add: trackCreateAircraft_shape)

lemma tracker_wf_message:
  assumes "tracker_wf T" "length (callsign mm) = 9"
  shows "tracker_wf (fst (trackUpdateFromMessage E mm T))"
proof (cases "msgtype mm = 32 \<or> addr mm = 0")
  case True
  then show ?thesis using assms(1) by (auto simp: trackUpdateFromMessage_def tracker_wf_def Let_def)
next
  case False
  obtain T' mm' r where u: "trackUpdateFromMessage E mm T = (T', mm', r)" by (metis prod_cases3)
  obtain a T1 where f: "find_or_create mm (T\<lparr>messageNow := sysTimestampMsg mm\<rparr>) = (a, T1)" by force
  obtain b where b: "aircrafts T' = store_aircraft b (aircrafts T1)" "ac_addr b = addr mm"
    "ac_messages b = ac_messages a + 1"
    "ac_reliableDF11 b = ac_reliableDF11 a + (if msgtype mm = 11 \<and> reliable mm then 1 else 0)"
    "ac_reliableDF17 b = ac_reliableDF17 a + (if msgtype mm = 17 \<and> reliable mm then 1 else 0)"
    "ac_discarded b = ac_discarded a + (if reliable mm \<or> ac_reliable b then 0 else 1)"
    "aircraft_shape a \<Longrightarrow> aircraft_shape b"
    "code_tables T' = code_tables T1"
    "length (range_histogram (tstats T')) = length (range_histogram (tstats T1))"
    using trackUpdate_identity [OF _ _ u f] False assms(2) by metis
  have start: "aircraft_shape a \<and> ac_addr a \<noteq> 0 \<and> 0 \<le> ac_messages a \<and> 0 \<le> ac_reliableDF11 a
      \<and> 0 \<le> ac_reliableDF17 a \<and> 0 \<le> ac_discarded a \<and> ac_discarded a \<le> ac_messages a"
    using find_or_create(4) [OF f] False assms(1) aircraft_wf_create
    by (auto simp: tracker_wf_def aircraft_wf_def dest!: trackFindAircraft_SomeD)
  then have wf: "aircraft_wf b"
    using b(2-7) False by (auto simp: aircraft_wf_def)
  have others: "aircraft_wf x" if "x \<in> set (aircrafts T')" for x
  proof -
    have "x = b \<or> x \<in> set (aircrafts T)"
      using that find_or_create(4) [OF f] b(1,2) find_or_create(1) [OF f]
      by (auto dest: store_aircraft_memberD split: if_splits)
    then show ?thesis using wf assms(1) by (auto simp: tracker_wf_def)
  qed
  have "distinct (List.map ac_addr (aircrafts T1))"
    using find_or_create(4) [OF f] assms(1) find_or_create(1) [OF f] trackFindAircraft_None
    by (auto simp: tracker_wf_def)
  moreover have "code_tables T' = code_tables T"
    "length (range_histogram (tstats T')) = length (range_histogram (tstats T))"
    using b(8,9) find_or_create(4) [OF f] trackCreateAircraft_shape(10) by (auto simp: code_tables_def)
  ultimately show ?thesis using others assms(1) b(1) by (simp add: tracker_wf_def u code_tables_def)
qed


lemma match_altitude_keeps:
  assumes "match_altitude E T modeC (a, m) = (b, m')"
  shows "identity b = identity a" "aircraft_shape b = aircraft_shape a" "length m' = length m"
  using assms by (auto simp: match_altitude_def Let_def mark_match_def data_change_defs split: if_splits)

lemma match_aircraft_keeps:
  assumes "match_aircraft E now T a m = (b, m')"
  shows "identity b = identity a \<and> aircraft_shape b = aircraft_shape a \<and> length m' = length m"
proof -
  obtain a1 m1 where 1: "match_mode_a T (a, m) = (a1, m1)" by force
  then have k1: "identity a1 = identity a" "aircraft_shape a1 = aircraft_shape a" "length m1 = length m"
    by (auto simp: match_mode_a_def Let_def mark_match_def data_change_defs split: if_splits)
  let ?c = "hundreds (ac_altitude_baro a1)"
  obtain a2 m2 where 2: "match_altitude E T ?c (a1, m1) = (a2, m2)" by force
  obtain a3 m3 where 3: "match_altitude E T (?c + 1) (a2, m2) = (a3, m3)" by force
  obtain a4 m4 where 4: "match_altitude E T (?c - 1) (a3, m3) = (a4, m4)" by force
  have "(b, m') = (a, m) \<or> (b, m') = (a1, m1) \<or> (b, m') = (a4, m4)"
    using assms by (auto simp: match_aircraft_def match_mode_c_def 1 2 3 4 split: if_splits)
  then show ?thesis
    using k1 match_altitude_keeps [OF 2] match_altitude_keeps [OF 3] match_altitude_keeps [OF 4] by auto
qed

lemma match_all_keeps:
  "match_all E now T as m = (bs, m') \<Longrightarrow>
     List.map (\<lambda>a. (identity a, aircraft_shape a)) bs = List.map (\<lambda>a. (identity a, aircraft_shape a)) as
     \<and> length m' = length m"
proof (induction as arbitrary: m bs m')
  case (Cons a as)
  then show ?case
    by (auto simp: Let_def split: prod.splits dest!: match_aircraft_keeps)
qed simp

definition expired :: "u64 \<Rightarrow> aircraft \<Rightarrow> aircraft" where
  "expired now a = a\<lparr>valid := (\<lambda>i. expire_data now (valid a i))\<rparr>"

lemma remove_stale_aircrafts:
  "fst (remove_stale now as st) = List.map (expired now) (List.filter (\<lambda>a. \<not> is_stale now a) as)"
  by (induction as arbitrary: st) (auto simp: expired_def Let_def split_beta)

lemma remove_stale_histogram: "range_histogram (snd (remove_stale now as st)) = range_histogram st"
  by (induction as arbitrary: st) (auto simp: Let_def split_beta count_removed_def)

lemma stale_interval_expire [simp]: "stale_interval (expire_data now v) = stale_interval v"
  by (simp add: expire_data_def)

lemma expired_keeps [simp]: "identity (expired now a) = identity a" "aircraft_shape (expired now a) = aircraft_shape a"
  by (simp_all add: expired_def data_change_defs)

lemma trackPeriodicUpdate_aircrafts:
  assumes "next_update T \<le> now"
  obtains m where "match_all E now (trackRemoveStaleAircraft now (T\<lparr>next_update := now + 1000\<rparr>))
      (List.map (expired now) (List.filter (\<lambda>a. \<not> is_stale now a) (aircrafts T))) (replicate 4096 0)
    = (aircrafts (trackPeriodicUpdate E now T), m)"
    "modeAC_match (trackPeriodicUpdate E now T) = m"
    "length (modeAC_count (trackPeriodicUpdate E now T)) = 4096"
    "length (modeAC_lastcount (trackPeriodicUpdate E now T)) = 4096"
    "length (modeAC_age (trackPeriodicUpdate E now T)) = 4096"
    "range_histogram (tstats (trackPeriodicUpdate E now T)) = range_histogram (tstats T)"
proof -
  let ?T = "trackRemoveStaleAircraft now (T\<lparr>next_update := now + 1000\<rparr>)"
  have T: "aircrafts ?T = List.map (expired now) (List.filter (\<lambda>a. \<not> is_stale now a) (aircrafts T))"
    "range_histogram (tstats ?T) = range_histogram (tstats T)"
    using remove_stale_aircrafts [of now "aircrafts T" "tstats T"] remove_stale_histogram [of now "aircrafts T" "tstats T"]
    by (simp_all add: trackRemoveStaleAircraft_def split_beta)
  obtain as m where m: "match_all E now ?T (aircrafts ?T) (replicate 4096 0) = (as, m)" by force
  show thesis
    using assms m T by (intro that [of m]) (simp_all add: trackPeriodicUpdate_def trackMatchAC_def Let_def)
qed

lemma identity_wf: "identity b = identity a \<Longrightarrow> aircraft_shape b = aircraft_shape a \<Longrightarrow> aircraft_wf b = aircraft_wf a"
  using identity_fields [of b a] by (simp add: aircraft_wf_def)

lemma tracker_wf_periodic:
  assumes "tracker_wf T"
  shows "tracker_wf (trackPeriodicUpdate E now T)"
proof (cases "next_update T \<le> now")
  case False
  then show ?thesis using assms by (simp add: trackPeriodicUpdate_def)
next
  case True
  let ?kept = "List.filter (\<lambda>a. \<not> is_stale now a) (aircrafts T)"
  let ?T = "trackPeriodicUpdate E now T"
  obtain m where m: "match_all E now (trackRemoveStaleAircraft now (T\<lparr>next_update := now + 1000\<rparr>))
      (List.map (expired now) ?kept) (replicate 4096 0) = (aircrafts ?T, m)"
    "modeAC_match ?T = m" "length (modeAC_count ?T) = 4096" "length (modeAC_lastcount ?T) = 4096"
    "length (modeAC_age ?T) = 4096" "range_histogram (tstats ?T) = range_histogram (tstats T)"
    by (rule trackPeriodicUpdate_aircrafts [OF True])
  have k: "List.map (\<lambda>a. (identity a, aircraft_shape a)) (aircrafts ?T) = List.map (\<lambda>a. (identity a, aircraft_shape a)) ?kept"
    and l: "length m = 4096"
    using match_all_keeps [OF m(1)] by (simp_all add: comp_def)
  have "List.map ac_addr (aircrafts ?T) = List.map ac_addr ?kept"
    using arg_cong [OF k, of "List.map (\<lambda>x. fst (fst x))"] by (simp add: comp_def identity_def)
  moreover have "distinct (List.map ac_addr ?kept)"
    using assms by (simp add: tracker_wf_def distinct_map_filter)
  moreover have "aircraft_wf b" if "b \<in> set (aircrafts ?T)" for b
  proof -
    have "(identity b, aircraft_shape b) \<in> set (List.map (\<lambda>a. (identity a, aircraft_shape a)) ?kept)"
      using that k by (metis (no_types, lifting) image_eqI list.set_map)
    then obtain a where a: "a \<in> set (aircrafts T)" and "identity b = identity a" "aircraft_shape b = aircraft_shape a" by auto
    from identity_wf [OF this(2,3)] a assms show ?thesis by (simp add: tracker_wf_def)
  qed
  ultimately show ?thesis using m l assms by (auto simp: tracker_wf_def)
qed

text \<open>The states that a sequence of messages and periodic updates leads to.\<close>

inductive track_reachable :: "track_env \<Rightarrow> tracker \<Rightarrow> bool" for E where
  start: "length (range_histogram st) = RANGE_BUCKET_COUNT \<Longrightarrow> track_reachable E (tracker_start st)"
| message: "track_reachable E T \<Longrightarrow> length (callsign mm) = 9 \<Longrightarrow>
    track_reachable E (fst (trackUpdateFromMessage E mm T))"
| periodic: "track_reachable E T \<Longrightarrow> track_reachable E (trackPeriodicUpdate E now T)"

lemma reachable_wf: "track_reachable E T \<Longrightarrow> tracker_wf T"
proof (induction rule: track_reachable.induct)
  case (start st)
  then show ?case by (simp add: tracker_wf_def tracker_start_def)
qed (simp_all add: tracker_wf_message tracker_wf_periodic)


subsection \<open>Examples\<close>

definition example_libm :: double_libm where
  "example_libm = \<lparr>m_sqrtf = (\<lambda>x. x), m_tan = (\<lambda>x. x), m_atan2 = (\<lambda>y x. 0), m_sin = (\<lambda>x. 0), m_cos = (\<lambda>x. 1), m_acos = (\<lambda>x. 0), m_sqrt = (\<lambda>x. x)\<rparr>"

definition example_env :: track_env where
  "example_env = \<lparr>fUserLat = 0, fUserLon = 0, user_latlon_valid = True, maxRange = 300000, stats_range_histo = False,
     t_libm = example_libm, t_ac = mode_ac_start\<rparr>"

definition example_stats :: track_stats where
  "example_stats = \<lparr>unique_aircraft = 0, single_message_aircraft = 0, unreliable_aircraft = 0, cpr_surface = 0,
     cpr_airborne = 0, cpr_global_ok = 0, cpr_global_bad = 0, cpr_global_skipped = 0, cpr_global_range_checks = 0,
     cpr_global_speed_checks = 0, cpr_local_ok = 0, cpr_local_skipped = 0, cpr_local_range_checks = 0,
     cpr_local_speed_checks = 0, range_histogram = replicate RANGE_BUCKET_COUNT 0\<rparr>"


text \<open>An aircraft of which an operational status message has been received, and its next position message.\<close>

definition example_aircraft :: aircraft where
  "example_aircraft = zeroAircraft\<lparr>ac_addr := 0x4840D6, ac_messages := 1, adsb_version := 2, ac_seen := 1000, ac_lon := 1\<rparr>"

definition example_tracker :: tracker where
  "example_tracker = (tracker_start example_stats)\<lparr>aircrafts := [example_aircraft]\<rparr>"

definition example_position :: modesMessage where
  "example_position = zeroMessage\<lparr>msgtype := 17, addr := 0x4840D6, reliable := True, source := SOURCE_ADSB,
     sysTimestampMsg := 2000, metype := 11, cpr_valid := True, cpr_type := CPR_AIRBORNE\<rparr>"

lemmas zero_defs = zeroMessage_def zero_raw_def zero_accuracy_def zero_opstatus_def zero_nav_def example_position_def

lemma accept_absent [simp]: "accept now src False i f a = a"
  by (simp add: accept_def)

lemma example_fields:
  "msgtype example_position = 17" "addr example_position = 0x4840D6" "reliable example_position" "source example_position = SOURCE_ADSB"
  "sysTimestampMsg example_position = 2000" "\<not> signalLevel example_position > 0"
  by (simp_all add: zero_defs)

lemma example_stages:
  "update_altitude_squawk now example_position a = a" "update_heading now example_position a = a"
  "select_gs v example_position = example_position" "update_motion now example_position a = a"
  "update_status now example_position a = a" "update_nav now example_position a = a"
  "update_accuracy now example_position a = a" "update_weather now example_position a = a"
  by (simp_all add: update_altitude_squawk_def update_heading_def select_gs_def update_motion_def update_status_def
     update_nav_def update_accuracy_def update_weather_def Let_def zero_defs)

definition example_counted :: aircraft where
  "example_counted = example_aircraft\<lparr>ac_seen := 2000, ac_messages := 2, ac_reliableDF17 := 1\<rparr>"

lemma example_count: "count_message 2000 example_position example_aircraft = example_counted"
  by (simp add: count_message_def Let_def example_fields example_counted_def example_aircraft_def zeroAircraft_def
     TRACK_RELIABLE_DF11_MESSAGES_def TRACK_RELIABLE_DF17_MESSAGES_def TRACK_RELIABLE_ANY_MESSAGES_def)

lemma example_version: "update_version example_position example_counted = (example_counted, 2)"
  by (simp add: update_version_def zero_defs message_version_def set_message_version_def Let_def
    example_counted_def example_aircraft_def zeroAircraft_def)

lemma example_v0: "fill_v0_accuracy 2 example_position = example_position"
  by (simp add: fill_v0_accuracy_def Let_def)

definition example_half :: aircraft where
  "example_half = example_counted\<lparr>valid := (valid example_counted)(V_cpr_even := \<lparr>stale_interval = 0, expire_interval = 0,
      v_source = SOURCE_ADSB, updated = 2000, stale = 62000, expires = 72000\<rparr>),
    cpr_even_half := \<lparr>ch_type = CPR_AIRBORNE, ch_lat = 0, ch_lon = 0, ch_nic = 8, ch_rc = 186\<rparr>\<rparr>"

lemma example_cpr: "update_cpr 2000 example_position example_counted = (example_half, True)"
  by (simp add: update_cpr_def Let_def zero_defs accept_data_def less_datasource_t_def compute_nic_rc_from_message_def
     trackDataValid_def compute_nic_def compute_rc_def example_half_def
    example_counted_def example_aircraft_def zeroAircraft_def)

lemma example_derive: "derive_altitude_geom now example_half = example_half"
  by (simp add: derive_altitude_geom_def Let_def compare_validity_def example_half_def
    example_counted_def example_aircraft_def zeroAircraft_def)

lemma example_decode: "\<exists>lat lon. decodeCPRrelative 0 0 0 0 False False = Inr (lat, lon) \<and> lon \<noteq> 1"
proof -
  have "case decodeCPRrelative 0 0 0 0 False False of Inl _ \<Rightarrow> False | Inr (lat, lon) \<Rightarrow> lon \<noteq> 1" by code_simp
  then show ?thesis by (auto split: sum.splits)
qed

lemma example_update:
  "update_aircraft example_env 2000 example_position example_counted st = updatePosition example_env 2000 example_position example_half st"
  by (simp add: update_aircraft_def Let_def example_version example_v0 example_stages example_cpr example_derive)

lemma example_distance: "greatcircle example_libm a b c d = 0"
  by (simp add: greatcircle_def haversine_def law_of_cosines_def example_libm_def Let_def)

lemma example_half_items:
  "v_source (valid example_half V_cpr_odd) = SOURCE_INVALID" "v_source (valid example_half V_position) = SOURCE_INVALID"
  "updated (valid example_half V_position) = 0" "cpr_even_half example_half = \<lparr>ch_type = CPR_AIRBORNE, ch_lat = 0, ch_lon = 0, ch_nic = 8, ch_rc = 186\<rparr>"
  "ac_lat example_half = 0" "ac_lon example_half = 1" "ac_addr example_half = 0x4840D6"
  by (simp_all add: example_half_def example_counted_def example_aircraft_def zeroAircraft_def)

lemma example_cpr_fields:
  "cpr_type example_position = CPR_AIRBORNE" "\<not> cpr_odd example_position" "cpr_lat example_position = 0" "cpr_lon example_position = 0"
  by (simp_all add: zero_defs)

lemma example_position_update:
  assumes "decodeCPRrelative 0 0 0 0 False False = Inr (lat, lon)"
  shows "\<exists>mm b st'. updatePosition example_env 2000 example_position example_half st = (mm, b, st') \<and> ac_lon b = lon \<and> ac_addr b = 0x4840D6"
  using assms
  by (simp add: updatePosition_def global_pair_def position_from_local_def doLocalCPR_def local_reference_def trackDataValid_def
    example_half_items example_cpr_fields example_env_def example_fields example_distance accept_position_def accept_data_def store_position_def Let_def
    needs_speed_check_def less_datasource_t_def)

lemma example_placed: "\<exists>b. trackFindAircraft 0x4840D6 (aircrafts (fst (trackUpdateFromMessage example_env example_position example_tracker))) = Some b
    \<and> ac_lon b \<noteq> 1"
proof -
  obtain lat lon where d: "decodeCPRrelative 0 0 0 0 False False = Inr (lat, lon)" "lon \<noteq> 1" using example_decode by blast
  obtain mm b st' where u: "updatePosition example_env 2000 example_position example_half example_stats = (mm, b, st')" "ac_lon b = lon" "ac_addr b = 0x4840D6"
    using example_position_update [OF d(1)] by blast
  have a: "ac_addr example_aircraft = 0x4840D6" by (simp add: example_aircraft_def)
  have "find_or_create example_position (example_tracker\<lparr>messageNow := 2000\<rparr>) = (example_aircraft, example_tracker\<lparr>messageNow := 2000\<rparr>)"
    by (simp add: find_or_create_def example_fields example_tracker_def a)
  then show ?thesis using d(2) u
    by (simp add: trackUpdateFromMessage_def example_fields example_count example_update Let_def example_tracker_def tracker_start_def a)
qed

text \<open>A surveillance reply with an identity code, received directly and by multilateration.\<close>

definition example_reply :: "datasource_t \<Rightarrow> u32 \<Rightarrow> modesMessage" where
  "example_reply src code = zeroMessage\<lparr>msgtype := 5, addr := 0x4840D6, reliable := True, source := src,
     sysTimestampMsg := 2000, squawk_valid := True, squawk := code\<rparr>"

lemma example_reply_fields:
  "msgtype (example_reply src code) = 5" "addr (example_reply src code) = 0x4840D6" "reliable (example_reply src code)"
  "source (example_reply src code) = src" "sysTimestampMsg (example_reply src code) = 2000"
  "\<not> signalLevel (example_reply src code) > 0" "callsign (example_reply src code) = replicate 9 0"
  by (simp_all add: zero_defs example_reply_def)

lemma example_reply_absent:
  "\<not> heading_valid (example_reply src code)" "\<not> gs_valid (example_reply src code)" "\<not> track_rate_valid (example_reply src code)"
  "\<not> roll_valid (example_reply src code)" "\<not> ias_valid (example_reply src code)" "\<not> tas_valid (example_reply src code)"
  "\<not> mach_valid (example_reply src code)" "\<not> baro_rate_valid (example_reply src code)" "\<not> geom_rate_valid (example_reply src code)"
  "airground (example_reply src code) = AG_INVALID" "\<not> callsign_valid (example_reply src code)" "\<not> cpr_valid (example_reply src code)"
  "nav (example_reply src code) = zero_nav" "accuracy (example_reply src code) = zero_accuracy"
  "\<not> mrar_source_valid (example_reply src code)" "\<not> wind_valid (example_reply src code)" "\<not> temperature_valid (example_reply src code)"
  "\<not> pressure_valid (example_reply src code)" "\<not> turbulence_valid (example_reply src code)" "\<not> humidity_valid (example_reply src code)"
  by (simp_all add: example_reply_def zeroMessage_def)

lemma example_reply_stages:
  "update_heading now (example_reply src code) a = a" "select_gs v (example_reply src code) = example_reply src code"
  "update_motion now (example_reply src code) a = a" "update_status now (example_reply src code) a = a"
  "update_nav now (example_reply src code) a = a" "update_cpr now (example_reply src code) a = (a, False)"
  "update_accuracy now (example_reply src code) a = a" "update_weather now (example_reply src code) a = a"
  "fill_v0_accuracy v (example_reply src code) = example_reply src code"
  by (simp_all add: update_heading_def select_gs_def update_motion_def update_status_def fill_v0_accuracy_def
     compute_v0_nacp_def compute_v0_sil_def update_nav_def update_cpr_def update_accuracy_def update_weather_def
     Let_def example_reply_absent example_reply_fields zero_nav_def zero_accuracy_def)

lemma example_reply_squawk:
  "update_altitude_squawk now (example_reply src code) a = accept now src True V_squawk
     (\<lambda>a. (if code \<noteq> ac_squawk a then a\<lparr>modeA_hit := False\<rparr> else a)\<lparr>ac_squawk := code\<rparr>) a"
  by (simp add: update_altitude_squawk_def Let_def zero_defs example_reply_def cong: if_cong)

definition example_start :: tracker where
  "example_start = fst (trackUpdateFromMessage example_env (example_reply SOURCE_MODE_S 0x2000) (tracker_start example_stats))"

lemma example_start_reachable: "track_reachable example_env example_start"
  unfolding example_start_def
  by (intro track_reachable.message track_reachable.start)
    (simp_all add: example_stats_def example_reply_fields)

lemma example_start_aircraft:
  "\<exists>a. trackFindAircraft 0x4840D6 (aircrafts example_start) = Some a \<and> stale (valid a V_squawk) = 17000
     \<and> v_source (valid a V_squawk) = SOURCE_MODE_S"
proof -
  let ?mm = "example_reply SOURCE_MODE_S 0x2000"
  obtain a st where c: "trackCreateAircraft ?mm example_stats = (a, st)" by force
  then have a: "ac_addr a = 0x4840D6" "valid a V_squawk = \<lparr>stale_interval = 15000, expire_interval = 70000, v_source = SOURCE_INVALID, updated = 0, stale = 0, expires = 0\<rparr>"
    "updated (valid a V_altitude_baro) = 0" "updated (valid a V_altitude_geom) = 0"
    "v_source (valid a V_altitude_baro) = SOURCE_INVALID" "v_source (valid a V_altitude_geom) = SOURCE_INVALID"
    by (auto simp: trackCreateAircraft_def zeroAircraft_def stale_seconds_def example_reply_fields)
  let ?a = "count_message 2000 ?mm a"
  let ?v = "\<lparr>stale_interval = 15000, expire_interval = 70000, v_source = SOURCE_MODE_S, updated = 2000, stale = 17000, expires = 72000\<rparr>"
  obtain a1 version where 1: "update_version ?mm ?a = (a1, version)" by force
  then have v: "valid a1 = valid a" "ac_addr a1 = 0x4840D6"
    using a(1) by (auto simp: update_version_def Let_def set_message_version_def example_reply_fields count_message_counts)
  let ?b = "update_altitude_squawk 2000 ?mm a1"
  have b: "valid ?b = (valid a)(V_squawk := ?v)" "ac_addr ?b = 0x4840D6"
    using a(2) v by (auto simp: example_reply_squawk accept_def accept_data_def less_datasource_t_def)
  then have d: "derive_altitude_geom 2000 ?b = ?b"
    using a(3-6) by (simp add: derive_altitude_geom_def compare_validity_def Let_def)
  have "update_aircraft example_env 2000 ?mm ?a st = (?mm, ?b, st)"
    by (simp add: update_aircraft_def 1 example_reply_stages d Let_def)
  moreover have "find_or_create ?mm (tracker_start example_stats\<lparr>messageNow := 2000\<rparr>) =
      (a, tracker_start example_stats\<lparr>messageNow := 2000, aircrafts := [a], tstats := st\<rparr>)"
    using c by (simp add: find_or_create_def tracker_start_def)
  ultimately have "aircrafts example_start = [?b]"
    by (simp add: example_start_def trackUpdateFromMessage_def example_reply_fields a(1) b(2))
  then show ?thesis using b by simp
qed

text \<open>
  C32. Type: every reachable tracker is well formed. No two aircraft share an address, none has the junk
  address 0; the ring of signal levels, the call sign and every bit field keep their size; and the
  indices that messages compute stay inside the Mode A/C tables and the range histogram.
\<close>

theorem track_state_typed:
  assumes "track_reachable E T"
  shows "distinct (List.map ac_addr (aircrafts T)) \<and> 0 \<notin> ac_addr ` set (aircrafts T)
    \<and> (\<forall>a. a \<in> set (aircrafts T) \<longrightarrow> length (ac_signalLevel a) = 8 \<and> ac_signalNext a < 8 \<and> length (ac_callsign a) = 9
          \<and> accuracy_shape (ac_accuracy a) \<and> pos_nic a \<le> 11 \<and> 1 \<le> ac_messages a \<and> ac_discarded a \<le> ac_messages a)
    \<and> unat (modeAToIndex code) < length (modeAC_count T) \<and> range_bucket mr metres < length (range_histogram (tstats T))"
proof -
  have "unat (modeAToIndex code) < 4096"
    using modeAToIndex_less by (simp add: word_less_nat_alt)
  then show ?thesis
    using reachable_wf [OF assms] range_bucket_bound
    by (auto simp: tracker_wf_def aircraft_wf_def aircraft_shape_def)
qed

theorem track_state_typed_witness:
  "distinct (List.map ac_addr (aircrafts example_start)) \<and> 0 \<notin> ac_addr ` set (aircrafts example_start)"
  using track_state_typed [OF example_start_reachable] by simp

subsection \<open>Sources\<close>

lemma compare_validity_pos:
  assumes "compare_validity now lhs rhs > 0" "now < stale rhs"
  shows "v_source rhs \<le> v_source lhs"
  using assms by (auto simp: compare_validity_def split: if_splits)

lemma derive_altitude_geom_rank:
  assumes "now < stale (valid a i)"
  shows "v_source (valid a i) \<le> v_source (valid (derive_altitude_geom now a) i)"
  using assms compare_validity_pos [of now "valid a V_altitude_baro" "valid a V_altitude_geom"]
    compare_validity_pos [of now "valid a V_geom_delta" "valid a V_altitude_geom"]
  by (auto simp: derive_altitude_geom_def Let_def combine_validity_def)

lemma updatePosition_rank:
  assumes "updatePosition E now mm a st = (mm', b, st')" "now < stale (valid a i)"
  shows "v_source (valid a i) \<le> v_source (valid b i)
    \<or> i \<in> {V_cpr_odd, V_cpr_even, V_position} \<and> v_source (valid b i) = SOURCE_INVALID"
  using assms(1)
proof (cases rule: updatePosition_cases)
  case (3 v p)
  then show ?thesis using accept_data_Some [OF 3(1)] assms(2) by (auto simp: place_def)
qed (auto simp: discard_position_def set_source_def)


lemma update_aircraft_rank:
  assumes "update_aircraft E now mm a st = (mm', b, st')" "now < 2 ^ 63" "intervals_ok a" "now < stale (valid a i)"
  shows "v_source (valid a i) \<le> v_source (valid b i)
    \<or> i \<in> {V_cpr_odd, V_cpr_even, V_position} \<and> v_source (valid b i) = SOURCE_INVALID"
proof -
  let ?c = "all_accepted now mm a" and ?d = "before_position now mm a"
  have c: "now < stale (valid ?c i)" "v_source (valid a i) \<le> v_source (valid ?c i)"
    using ranking.all_accepted_R [of now a mm] assms(2-4) by (auto simp: keeps_rank_def)
  have d: "v_source (valid a i) \<le> v_source (valid ?d i)"
    using derive_altitude_geom_rank [OF c(1)] c(2) by (simp add: before_position_def)
  show ?thesis
  proof (cases "snd (with_cpr now mm a)")
    case False
    then show ?thesis using assms(1) d by (simp add: update_aircraft_eq)
  next
    case True
    then have u: "updatePosition E now (prepared mm a) ?d st = (mm', b, st')" using assms(1) by (simp add: update_aircraft_eq)
    show ?thesis
    proof (cases "i = V_altitude_geom")
      case True
      from u show ?thesis
        by (cases rule: updatePosition_cases) (use d True in \<open>auto simp: place_def discard_position_def set_source_def\<close>)
    next
      case False
      then have "now < stale (valid ?d i)" using c(1) derive_altitude_geom_others by (simp add: before_position_def)
      from updatePosition_rank [OF u this] d show ?thesis by auto
    qed
  qed
qed

text \<open>What a message does to the aircraft that has some address.\<close>

lemma trackUpdate_find:
  assumes "trackFindAircraft ad (aircrafts T) = Some a" "trackUpdateFromMessage E mm T = (T', mm', r)"
  obtains "trackFindAircraft ad (aircrafts T') = Some a"
  | b where "trackFindAircraft ad (aircrafts T') = Some b" "ad = addr mm" "r = Some b" "msgtype mm \<noteq> 32"
      "\<not> reliable mm" "\<not> ac_reliable (count_message (sysTimestampMsg mm) mm a)"
      "b = (count_message (sysTimestampMsg mm) mm a)\<lparr>ac_discarded := ac_discarded a + 1\<rparr>"
  | b where "trackFindAircraft ad (aircrafts T') = Some b" "ad = addr mm" "r = Some b" "msgtype mm \<noteq> 32"
      "reliable mm \<or> ac_reliable (count_message (sysTimestampMsg mm) mm a)"
      "update_aircraft E (sysTimestampMsg mm) mm (count_message (sysTimestampMsg mm) mm a) (tstats T) = (mm', b, tstats T')"
proof (cases "msgtype mm = 32 \<or> addr mm = 0")
  case True
  then have "aircrafts T' = aircrafts T"
    using assms(2) by (cases "msgtype mm = 32") (auto simp: trackUpdateFromMessage_def Let_def)
  then show thesis using assms(1) that(1) by simp
next
  case False
  obtain a' T1 b where t: "find_or_create mm (T\<lparr>messageNow := sysTimestampMsg mm\<rparr>) = (a', T1)" "r = Some b"
    "aircrafts T' = store_aircraft b (aircrafts T1)"
    "\<not> reliable mm \<and> \<not> ac_reliable (count_message (sysTimestampMsg mm) mm a')
       \<and> b = (count_message (sysTimestampMsg mm) mm a')\<lparr>ac_discarded := ac_discarded a' + 1\<rparr> \<and> tstats T' = tstats T1
     \<or> (reliable mm \<or> ac_reliable (count_message (sysTimestampMsg mm) mm a'))
       \<and> update_aircraft E (sysTimestampMsg mm) mm (count_message (sysTimestampMsg mm) mm a') (tstats T1) = (mm', b, tstats T')"
    using trackUpdate_tracked [OF _ _ assms(2)] False by metis
  have addr: "ac_addr b = addr mm"
    using trackUpdate_identity [OF _ _ assms(2) t(1)] False t(2) by (metis option.inject)
  have T1: "trackFindAircraft ad (aircrafts T1) = (if ad = addr mm then Some a' else Some a)"
    using find_or_create(3) [OF t(1), of ad] assms(1) by simp
  have f: "trackFindAircraft ad (aircrafts T') = (if ad = addr mm then Some b else Some a)"
  proof -
    have "addr mm \<in> ac_addr ` set (aircrafts T1)" using find_or_create(1,2) [OF t(1)] by force
    then show ?thesis using T1 unfolding t(3) find_store addr by simp
  qed
  show thesis
  proof (cases "ad = addr mm")
    case True
    then have e: "a' = a" "tstats T1 = tstats T" using find_or_create(4) [OF t(1)] assms(1) by auto
    have b: "trackFindAircraft ad (aircrafts T') = Some b" using f True by simp
    have m: "msgtype mm \<noteq> 32" using False by simp
    from t(4) [unfolded e] show thesis
    proof (elim disjE conjE, goal_cases)
      case 1
      from that(2) [OF b True t(2) m 1(1,2,3)] show ?case .
    next
      case 2
      from that(3) [OF b True t(2) m _ 2(1)] 2(2) show ?case by simp
    next
      case 3
      from that(3) [OF b True t(2) m _ 3(1)] 3(2) show ?case by simp
    qed
  qed (use f that(1) in simp)
qed

text \<open>
  C30. Safety: no message replaces a fresh value by one from a lesser source. For every address and every
  item of data, while the item is fresh its source only ever rises; the CPR halves and the position
  may instead be invalidated, when a decoded position turns out to be implausible.
\<close>

theorem track_no_source_downgrade:
  assumes "track_reachable E T" "trackFindAircraft ad (aircrafts T) = Some a"
    and "sysTimestampMsg mm < 2 ^ 63" "sysTimestampMsg mm < stale (valid a i)"
  shows "\<exists>b. trackFindAircraft ad (aircrafts (fst (trackUpdateFromMessage E mm T))) = Some b \<and>
    (v_source (valid a i) \<le> v_source (valid b i)
     \<or> i \<in> {V_cpr_odd, V_cpr_even, V_position} \<and> v_source (valid b i) = SOURCE_INVALID)"
proof -
  obtain T' mm' r where u: "trackUpdateFromMessage E mm T = (T', mm', r)" by (metis prod_cases3)
  let ?c = "count_message (sysTimestampMsg mm) mm a"
  have "aircraft_wf a" using reachable_wf [OF assms(1)] trackFindAircraft_SomeD [OF assms(2)] by (simp add: tracker_wf_def)
  then have c: "intervals_ok ?c" "sysTimestampMsg mm < stale (valid ?c i)"
    using assms(4) by (simp_all add: aircraft_wf_def aircraft_shape_def intervals_ok_def count_message_counts)
  from assms(2) u show ?thesis
  proof (cases rule: trackUpdate_find)
    case (3 b)
    then show ?thesis using update_aircraft_rank [OF 3(6) assms(3) c] by (simp add: u count_message_counts)
  qed (auto simp: u count_message_counts)
qed


theorem track_no_source_downgrade_witness:
  "\<exists>b. trackFindAircraft 0x4840D6 (aircrafts (fst (trackUpdateFromMessage example_env (example_reply SOURCE_MLAT 0x7700) example_start)))
     = Some b \<and> SOURCE_MODE_S \<le> v_source (valid b V_squawk)"
proof -
  obtain a where a: "trackFindAircraft 0x4840D6 (aircrafts example_start) = Some a" "stale (valid a V_squawk) = 17000"
    "v_source (valid a V_squawk) = SOURCE_MODE_S"
    using example_start_aircraft by blast
  show ?thesis
    using track_no_source_downgrade [OF example_start_reachable a(1), of "example_reply SOURCE_MLAT 0x7700" V_squawk] a(2,3)
    by (simp add: example_reply_fields)
qed

subsection \<open>Positions\<close>

lemma f64_pos: "0 < x \<Longrightarrow> 0 < f64 x"
  using fround_pos_bounds(1) [of x 53] by (simp add: f64_def) (meson less_le_trans zero_less_power_int zero_less_numeral)

lemma local_reference_limit:
  assumes "local_reference E now a surface nic rc = Some (reflat, reflon, limit, nic', rc')" "0 < maxRange E"
  shows "0 < limit"
    and "trackDataValid now (valid a V_position) \<and> (reflat, reflon, limit) = (ac_lat a, ac_lon a, 50000)
      \<or> (reflat, reflon) = (fUserLat E, fUserLon E) \<and> limit \<le> maxRange E"
proof -
  have half: "f64 (1852 * 360 - maxRange E) \<le> maxRange E \<and> 0 < f64 (1852 * 360 - maxRange E)"
    if "\<not> maxRange E \<le> 1852 * 180" "maxRange E < 1852 * 360"
    using that f64_mono [of "1852 * 360 - maxRange E" "1852 * 180"] f64_of_int [of "1852 * 180"]
      f64_pos [of "1852 * 360 - maxRange E"] by simp
  show "0 < limit"
    "trackDataValid now (valid a V_position) \<and> (reflat, reflon, limit) = (ac_lat a, ac_lon a, 50000)
      \<or> (reflat, reflon) = (fUserLat E, fUserLon E) \<and> limit \<le> maxRange E"
    using assms half by (auto simp: local_reference_def split: if_splits)
qed

lemma decodes_plausible:
  assumes "decodes E now a mm p"
  shows "user_latlon_valid E \<Longrightarrow> 0 < maxRange E \<Longrightarrow> greatcircle (t_libm E) (fUserLat E) (fUserLon E) (d_lat p) (d_lon p) \<le> maxRange E
      \<or> trackDataValid now (valid a V_position) \<and> greatcircle (t_libm E) (ac_lat a) (ac_lon a) (d_lat p) (d_lon p) \<le> 50000"
    and "source mm = SOURCE_MLAT \<or> \<not> needs_speed_check now a (d_nic p) (d_rc p)
      \<or> speed_check E now a (d_lat p) (d_lon p) (cpr_type mm = CPR_SURFACE)"
proof -
  consider st st' where "doGlobalCPR E now a mm st = (Inr p, st')" | st st' where "doLocalCPR E now a mm st = (Inr p, st')"
    using assms(1) by (auto simp: decodes_def)
  then show "greatcircle (t_libm E) (fUserLat E) (fUserLon E) (d_lat p) (d_lon p) \<le> maxRange E
      \<or> trackDataValid now (valid a V_position) \<and> greatcircle (t_libm E) (ac_lat a) (ac_lon a) (d_lat p) (d_lon p) \<le> 50000"
    if "user_latlon_valid E" "0 < maxRange E"
  proof cases
    case 1
    then show ?thesis using doGlobalCPR_Inr(2) that by blast
  next
    case 2
    then show ?thesis
    proof (rule doLocalCPR_Inr)
      fix reflat reflon limit
      assume l: "local_reference E now a (cpr_type mm = CPR_SURFACE)
          (ch_nic (if cpr_odd mm then cpr_odd_half a else cpr_even_half a))
          (ch_rc (if cpr_odd mm then cpr_odd_half a else cpr_even_half a)) = Some (reflat, reflon, limit, d_nic p, d_rc p)"
        and b: "0 < limit \<Longrightarrow> greatcircle (t_libm E) reflat reflon (d_lat p) (d_lon p) \<le> limit"
      show ?thesis using b local_reference_limit [OF l that(2)] by auto
    qed
  qed
  show "source mm = SOURCE_MLAT \<or> \<not> needs_speed_check now a (d_nic p) (d_rc p)
      \<or> speed_check E now a (d_lat p) (d_lon p) (cpr_type mm = CPR_SURFACE)"
    using assms(1) doGlobalCPR_Inr(3) doLocalCPR_Inr unfolding decodes_def by metis
qed

text \<open>
  C31. Safety: a position is only replaced by a plausible one. Where the location of the receiver is
  known and a maximum range is set, the new position is within that range or within 50 km of a
  valid previous position. Where the previous position is valid and the new one has neither a better
  NIC nor a better containment radius, and the message does not come from multilateration, the
  distance between the two is one that the aircraft can have covered in the time since, at its speed
  with the allowances of the code.
\<close>

theorem track_position_plausible:
  assumes "trackFindAircraft ad (aircrafts T) = Some a"
    and "trackFindAircraft ad (aircrafts (fst (trackUpdateFromMessage E mm T))) = Some b"
    and "(ac_lat b, ac_lon b) \<noteq> (ac_lat a, ac_lon a)"
  shows "(let now = sysTimestampMsg mm; dist = greatcircle (t_libm E);
              c = before_position now mm (count_message now mm a); v = valid a V_position
     in (user_latlon_valid E \<and> 0 < maxRange E \<longrightarrow>
           dist (fUserLat E) (fUserLon E) (ac_lat b) (ac_lon b) \<le> maxRange E
         \<or> trackDataValid now v \<and> dist (ac_lat a) (ac_lon a) (ac_lat b) (ac_lon b) \<le> 50000)
      \<and> (source mm = SOURCE_MLAT \<or> \<not> trackDataValid now v \<or> pos_nic a < pos_nic b
         \<or> rcIsWorse (sint (pos_rc a)) (sint (pos_rc b))
         \<or> dist (ac_lat a) (ac_lon a) (ac_lat b) (ac_lon b)
             \<le> speed_range (trackDataAge now v) (assumed_speed now c (cpr_type mm = CPR_SURFACE)) (cpr_type mm = CPR_SURFACE)))"
proof -
  obtain T' mm' r where u: "trackUpdateFromMessage E mm T = (T', mm', r)" by (metis prod_cases3)
  let ?now = "sysTimestampMsg mm" and ?c = "count_message (sysTimestampMsg mm) mm a"
  let ?d = "before_position ?now mm ?c"
  have d: "located ?d = located a" "valid ?d V_position = valid a V_position"
    using bookkeeping.before_position_R [of ?now mm ?c] by (simp_all add: count_message_counts)
  have b: "trackFindAircraft ad (aircrafts T') = Some b" using assms(2) by (simp add: u)
  obtain v p where v: "b = place v p ?d" "decodes E ?now ?d (prepared mm ?c) p"
    using assms(1) u
  proof (cases rule: trackUpdate_find)
    case (3 b')
    then have "if snd (with_cpr ?now mm ?c) then updatePosition E ?now (prepared mm ?c) ?d (tstats T) = (mm', b, tstats T')
        else b = ?d" using b by (simp add: update_aircraft_eq split: if_splits)
    then show thesis
      using that d assms(3) by (auto simp: located_def discard_position_def set_source_def
          elim!: updatePosition_cases split: if_splits)
  qed (use b assms(3) count_message_counts(3) in \<open>auto simp: located_def\<close>)
  have eq: "ac_lat ?d = ac_lat a" "ac_lon ?d = ac_lon a" "pos_nic ?d = pos_nic a" "pos_rc ?d = pos_rc a"
    "ac_lat b = d_lat p" "ac_lon b = d_lon p" "pos_nic b = d_nic p" "pos_rc b = d_rc p"
    using d(1) v(1) by (simp_all add: located_def place_def)
  show ?thesis
    using decodes_plausible [OF v(2)] unfolding Let_def eq
    by (auto simp: needs_speed_check_def speed_check_def d(2) eq not_le)
qed


theorem track_position_plausible_witness:
  "\<exists>b. trackFindAircraft 0x4840D6 (aircrafts (fst (trackUpdateFromMessage example_env example_position example_tracker))) = Some b
     \<and> ac_lon b \<noteq> 1 \<and> (greatcircle example_libm 0 0 (ac_lat b) (ac_lon b) \<le> 300000
       \<or> trackDataValid 2000 (valid example_aircraft V_position) \<and> greatcircle example_libm 0 1 (ac_lat b) (ac_lon b) \<le> 50000)"
proof -
  obtain b where b: "trackFindAircraft 0x4840D6 (aircrafts (fst (trackUpdateFromMessage example_env example_position example_tracker))) = Some b"
    "ac_lon b \<noteq> 1" using example_placed by blast
  have a: "trackFindAircraft 0x4840D6 (aircrafts example_tracker) = Some example_aircraft" "ac_lat example_aircraft = 0" "ac_lon example_aircraft = 1"
    by (simp_all add: example_tracker_def example_aircraft_def zeroAircraft_def)
  show ?thesis
    using track_position_plausible [OF a(1) b(1)] a b by (simp add: example_env_def example_fields Let_def)
qed

subsection \<open>Trust\<close>













subsection \<open>Removal\<close>

lemma unat_diff_wrap: "unat ((a :: u64) - b) = (if b \<le> a then unat a - unat b else unat a + 2 ^ 64 - unat b)"
proof (cases "b \<le> a")
  case False
  then have "unat a < unat b" "unat b < 2 ^ 64" using unsigned_less [of b] by (simp_all add: word_less_nat_alt not_le)
  then show ?thesis using False by (simp add: unat_sub_if_size word_size word_le_nat_alt)
qed (simp add: unat_sub)

definition lifetime :: "aircraft \<Rightarrow> nat" where
  "lifetime a = (if ac_reliable a then 300000 else 60000)"

lemma is_stale_iff:
  assumes "now < 2 ^ 63" "ac_seen a < 2 ^ 63"
  shows "is_stale now a \<longleftrightarrow> now < ac_seen a \<or> unat now - unat (ac_seen a) > lifetime a"
proof -
  have "unat now < 2 ^ 63" "unat (ac_seen a) < 2 ^ 63" using assms by (simp_all add: word_less_nat_alt)
  then show ?thesis
    by (auto simp: is_stale_def lifetime_def word_less_nat_alt word_le_nat_alt unat_diff_wrap
        TRACK_AIRCRAFT_TTL_def TRACK_AIRCRAFT_UNRELIABLE_TTL_def)
qed

lemma match_altitude_valid [simp]: "valid (fst (match_altitude E T modeC x)) = valid (fst x)"
  by (cases x) (simp add: match_altitude_def Let_def)

lemma match_mode_a_valid [simp]: "valid (fst (match_mode_a T x)) = valid (fst x)"
  by (cases x) (simp add: match_mode_a_def Let_def)

lemma match_mode_c_valid [simp]: "valid (fst (match_mode_c E T x)) = valid (fst x)"
  by (cases x) (simp add: match_mode_c_def Let_def)

lemma match_aircraft_valid: "match_aircraft E now T a m = (b, m') \<Longrightarrow> valid b = valid a"
  unfolding match_aircraft_def by (metis fst_conv match_mode_a_valid match_mode_c_valid)

lemma match_all_valid: "match_all E now T as m = (bs, m') \<Longrightarrow> List.map valid bs = List.map valid as"
  by (induction as arbitrary: m bs m') (auto simp: Let_def split: prod.splits dest: match_aircraft_valid)

text \<open>
  C34. Liveness: a periodic update keeps exactly the aircraft heard within five minutes, or within one
  minute where the aircraft is not yet trusted, and leaves no expired data behind. The unsigned age
  makes an aircraft whose last message carries a later time than the clock, as after the clock has been
  set back, the oldest of all: it is removed at once.
\<close>

theorem track_periodic_keeps:
  assumes "next_update T \<le> now" "now < 2 ^ 63" "\<forall>a\<in>set (aircrafts T). ac_seen a < 2 ^ 63"
  shows "List.map ac_addr (aircrafts (trackPeriodicUpdate E now T)) = List.map ac_addr
      (List.filter (\<lambda>a. ac_seen a \<le> now \<and> unat now - unat (ac_seen a) \<le> (if ac_reliable a then 300000 else 60000)) (aircrafts T))
    \<and> (\<forall>b i. b \<in> set (aircrafts (trackPeriodicUpdate E now T)) \<longrightarrow> v_source (valid b i) = SOURCE_INVALID \<or> now < expires (valid b i))"
proof -
  let ?T = "trackPeriodicUpdate E now T"
  let ?kept = "List.filter (\<lambda>a. \<not> is_stale now a) (aircrafts T)"
  obtain m where m: "match_all E now (trackRemoveStaleAircraft now (T\<lparr>next_update := now + 1000\<rparr>))
      (List.map (expired now) ?kept) (replicate 4096 0) = (aircrafts ?T, m)"
    by (rule trackPeriodicUpdate_aircrafts [OF assms(1)])
  have "List.map ac_addr (aircrafts ?T) = List.map ac_addr ?kept"
    using arg_cong [OF conjunct1 [OF match_all_keeps [OF m]], of "List.map (\<lambda>x. fst (fst x))"] by (simp add: comp_def identity_def expired_def)
  moreover have "?kept = List.filter (\<lambda>a. ac_seen a \<le> now \<and> unat now - unat (ac_seen a) \<le> (if ac_reliable a then 300000 else 60000)) (aircrafts T)"
    using assms(2,3) by (intro filter_cong) (auto simp: is_stale_iff lifetime_def not_less)
  moreover have "v_source (valid b i) = SOURCE_INVALID \<or> now < expires (valid b i)" if "b \<in> set (aircrafts ?T)" for b i
  proof -
    have "valid b \<in> set (List.map valid (List.map (expired now) ?kept))"
      using that match_all_valid [OF m] by (metis image_eqI list.set_map)
    then show ?thesis by (auto simp: expired_def expire_data_def)
  qed
  ultimately show ?thesis by auto
qed

definition example_old :: tracker where
  "example_old = example_tracker\<lparr>aircrafts :=
     [example_aircraft\<lparr>ac_addr := 1, ac_seen := 500000, ac_reliable := True\<rparr>,
      example_aircraft\<lparr>ac_addr := 2, ac_seen := 350000\<rparr>,
      example_aircraft\<lparr>ac_addr := 3, ac_seen := 330000\<rparr>,
      example_aircraft\<lparr>ac_addr := 4, ac_seen := 330000, ac_reliable := True\<rparr>]\<rparr>"

theorem track_periodic_keeps_witness:
  "List.map ac_addr (aircrafts (trackPeriodicUpdate example_env 400000 example_old)) = [2, 4]"
proof -
  have "\<not> ac_reliable example_aircraft" by (simp add: example_aircraft_def zeroAircraft_def)
  then show ?thesis
    using track_periodic_keeps [of example_old 400000 example_env]
    by (simp add: example_old_def example_tracker_def tracker_start_def)
qed

subsection \<open>Integrity and derived altitude\<close>

text \<open>The containment radius in metres that a navigation integrity category promises (DO-260B table 2-14).\<close>

definition nic_radius :: "u32 \<Rightarrow> u32 option" where
  "nic_radius nic = map_of [(11, 8), (10, 25), (9, 75), (8, 186), (7, 371), (6, 1112), (5, 1852), (4, 3704),
     (3, 7408), (2, 14816), (1, 37040)] nic"

definition consistent :: "u32 \<Rightarrow> u32 \<Rightarrow> bool" where
  "consistent nic rc \<longleftrightarrow> (case nic_radius nic of None \<Rightarrow> rc = 0
     | Some r \<Rightarrow> rc \<le> r \<and> (rc = 0 \<or> (\<forall>r'. nic_radius (nic + 1) = Some r' \<longrightarrow> r' < rc)))"

lemma nic_pairs:
  "consistent 11 8" "consistent 10 25" "consistent 9 75" "consistent 8 186" "consistent 7 371" "consistent 6 556"
  "consistent 6 926" "consistent 6 1111" "consistent 6 1112" "consistent 6 0" "consistent 5 1852" "consistent 4 3704"
  "consistent 3 7408" "consistent 2 14816" "consistent 1 37040" "consistent 0 0"
  by (simp_all add: consistent_def nic_radius_def)

text \<open>
  Functional correctness: the integrity category and the containment radius derived from a position
  message agree for every type code and combination of supplement bits, with one exception: for type
  code 16 before ADS-B version 2, where a version 1 message with NIC supplement A gets the category 2
  of an 8 NM radius together with a radius of 4 NM.
\<close>

theorem nic_rc_consistent:
  "(tc \<noteq> 16 \<or> version = 2 \<longrightarrow> consistent (compute_nic tc version a b c) (compute_rc tc version a b c))
   \<and> compute_nic 16 1 True False c = 2 \<and> compute_rc 16 1 True False c = 7408 \<and> \<not> consistent 2 7408"
  by (cases a; cases b; cases c; cases "version = 2"; cases "version = 1")
    (simp_all add: compute_nic_def compute_rc_def nic_pairs RC_UNKNOWN_def consistent_def [of 2 7408] nic_radius_def)


theorem nic_rc_consistent_witness:
  "consistent 9 75 \<and> compute_nic 11 2 True True False = 9 \<and> compute_rc 11 2 True True False = 75"
  using nic_rc_consistent [of 11 2 True True False] by (simp add: compute_nic_def compute_rc_def)

text \<open>
  Error: a geometric altitude is computed from a difference that has expired. Once the difference
  to the barometric altitude has been dropped as too old, a new barometric altitude is still combined with
  it, and the result is presented as valid, with the source and the age of the barometric altitude alone.
\<close>

theorem expired_difference_used:
  assumes "v_source (valid a V_geom_delta) = SOURCE_INVALID" "v_source (valid a V_altitude_geom) = SOURCE_INVALID"
    and "updated (valid a V_altitude_geom) < updated (valid a V_geom_delta)"
    and "trackDataFresh now (valid a V_altitude_baro)" "now < expires (valid a V_altitude_baro)"
  shows "(let b = derive_altitude_geom now a in \<not> trackDataValid now (valid b V_geom_delta)
    \<and> trackDataValid now (valid b V_altitude_geom) \<and> ac_altitude_geom b = ac_altitude_baro a + ac_geom_delta a
    \<and> updated (valid b V_altitude_geom) = updated (valid a V_altitude_baro))"
  using assms
  by (cases "v_source (valid a V_altitude_baro)")
    (auto simp: derive_altitude_geom_def compare_validity_def combine_validity_def trackDataValid_def trackDataFresh_def
      less_datasource_t_def Let_def)

text \<open>The difference arrives, expires, and an altitude arrives after that.\<close>

definition example_expired :: aircraft where
  "example_expired =
     accept 90000 SOURCE_ADSB True V_altitude_baro (\<lambda>a. a\<lparr>ac_altitude_baro := 30000\<rparr>)
       (expired 80000 (accept 5000 SOURCE_ADSB True V_geom_delta (\<lambda>a. a\<lparr>ac_geom_delta := 500\<rparr>) example_aircraft))"

theorem expired_difference_used_witness:
  "let b = derive_altitude_geom 90000 example_expired in \<not> trackDataValid 90000 (valid b V_geom_delta)
    \<and> trackDataValid 90000 (valid b V_altitude_geom) \<and> ac_altitude_geom b = 30500"
proof -
  have "ac_altitude_baro example_expired = 30000" "ac_geom_delta example_expired = 500"
    "v_source (valid example_expired V_geom_delta) = SOURCE_INVALID" "v_source (valid example_expired V_altitude_geom) = SOURCE_INVALID"
    "updated (valid example_expired V_altitude_geom) < updated (valid example_expired V_geom_delta)"
    "trackDataFresh 90000 (valid example_expired V_altitude_baro)" "90000 < expires (valid example_expired V_altitude_baro)"
    by (simp_all add: example_expired_def accept_def accept_data_def expired_def expire_data_def trackDataFresh_def
      example_aircraft_def zeroAircraft_def less_datasource_t_def)
  then show ?thesis using expired_difference_used [of example_expired 90000] by (simp add: Let_def)
qed

end
