(* ===== verification/Asterix.thy ===== *)
theory Asterix
  imports Track
begin

text \<open>
  ASTERIX category 021 reports: \<^verbatim>\<open>src/airnav_asterix.c\<close>. A packet has ten FSPEC bytes and a field for
  every field reference number (FRN); a setter looks its item up in the table loaded from the
  category specification, marks the FRN in the FSPEC and fills a freshly allocated buffer;
  \<open>asterix_SendCat21Packet\<close> concatenates what is in use. Allocated memory starts with the arbitrary
  contents \<open>junk\<close>; reads and writes outside an array or a buffer are the value \<open>None\<close>.
  The JSON parser and the socket are outside the model.
\<close>

subsection \<open>Packets\<close>

definition MAX_CAT21_ITEMS :: nat where "MAX_CAT21_ITEMS = 100"
definition MAX_CAT21_FSPEC_BYTES :: nat where "MAX_CAT21_FSPEC_BYTES = 10"

text \<open>An entry of the item table \<^verbatim>\<open>cat21items\<close>, and a field of a packet.\<close>

record item_def =
  it_id :: string
  it_size :: u32

record cat21_field =
  in_use :: bool
  f_size :: u32
  f_data :: "u8 list option"

record fspec_byte_def =
  fspec_byte :: u8
  fspec_byte_inuse :: bool

record cat21_packet =
  fspec :: "fspec_byte_def list"
  packet_fields :: "cat21_field list"

definition prepareAsterixPacket_cat21 :: "nat \<Rightarrow> nat \<Rightarrow> cat21_packet" where
  "prepareAsterixPacket_cat21 max_fspec_bytes max_items =
     \<lparr>fspec = replicate max_fspec_bytes \<lparr>fspec_byte = 0, fspec_byte_inuse = False\<rparr>,
      packet_fields = replicate max_items \<lparr>in_use = False, f_size = 0, f_data = None\<rparr>\<rparr>"

subsection \<open>Bits\<close>

definition asterix_set_bit :: "nat \<Rightarrow> u8 \<Rightarrow> u8" where
  "asterix_set_bit position number = number OR push_bit position 1"

definition asterix_clear_bit :: "nat \<Rightarrow> u8 \<Rightarrow> u8" where
  "asterix_clear_bit position number = number AND NOT (push_bit position 1)"

definition asterix_get_bit :: "nat \<Rightarrow> u8 \<Rightarrow> bool" where
  "asterix_get_bit b number \<longleftrightarrow> drop_bit b number AND 1 = 1"

definition set_bit_if :: "bool \<Rightarrow> nat \<Rightarrow> u8 \<Rightarrow> u8" where
  "set_bit_if p position number = (if p then asterix_set_bit position number else number)"

definition write_bit :: "bool \<Rightarrow> nat \<Rightarrow> u8 \<Rightarrow> u8" where
  "write_bit p position number = (if p then asterix_set_bit position number else asterix_clear_bit position number)"

subsection \<open>The field specification\<close>

text \<open>The index of an item, which is its FRN; \<open>None\<close> stands for \<^verbatim>\<open>-1\<close>.\<close>

fun getItemIdx :: "item_def list \<Rightarrow> string \<Rightarrow> nat option" where
  "getItemIdx [] item_id = None"
| "getItemIdx (t # toc) item_id =
     (if it_id t = item_id then Some 0 else map_option Suc (getItemIdx toc item_id))"

definition map2bit :: "nat \<Rightarrow> nat" where
  "map2bit item = (if 1 \<le> item \<and> item \<le> 7 then 8 - item else 0)"

definition mark_byte :: "(u8 \<Rightarrow> u8) \<Rightarrow> bool \<Rightarrow> fspec_byte_def \<Rightarrow> fspec_byte_def" where
  "mark_byte f used x = x\<lparr>fspec_byte := f (fspec_byte x), fspec_byte_inuse := used\<rparr>"

definition asterix_set_byte_inuse :: "nat \<Rightarrow> fspec_byte_def list \<Rightarrow> fspec_byte_def list option" where
  "asterix_set_byte_inuse n fs = do {
     x \<leftarrow> arr_get fs n;
     Some (List.map (mark_byte (asterix_set_bit 0) True) (take n fs)
           @ x\<lparr>fspec_byte_inuse := True\<rparr> # drop (Suc n) fs) }"

definition set_frn_inuse :: "nat \<Rightarrow> cat21_packet \<Rightarrow> cat21_packet option" where
  "set_frn_inuse frn p =
     (let b_number = frn div 7; b_number = (if frn mod 7 > 0 then b_number + 1 else b_number)
      in if b_number = 0 then None
         else do {
           x \<leftarrow> arr_get (fspec p) (b_number - 1);
           fs \<leftarrow> arr_set (fspec p) (b_number - 1)
                  (x\<lparr>fspec_byte := asterix_set_bit (map2bit (frn - (b_number - 1) * 7)) (fspec_byte x)\<rparr>);
           fs \<leftarrow> asterix_set_byte_inuse (b_number - 1) fs;
           Some (p\<lparr>fspec := fs\<rparr>) })"

subsection \<open>Fields\<close>

type_synonym junk = "nat \<Rightarrow> u8"

definition c_malloc :: "junk \<Rightarrow> u32 \<Rightarrow> u8 list" where
  "c_malloc junk n = List.map junk [0..<unat n]"

text \<open>Writes at the start of a buffer.\<close>

definition put_bytes_at_start :: "u8 list \<Rightarrow> u8 list \<Rightarrow> u8 list option" where
  "put_bytes_at_start bytes buf =
     (if length bytes \<le> length buf then Some (bytes @ drop (length bytes) buf) else None)"

text \<open>
  What all setters share: the look-up, the FSPEC, the field and its buffer. A null packet or an
  unknown item gives \<^verbatim>\<open>-1\<close>. The buffer has the size of the item unless the setter names its own.
\<close>

definition set_field :: "junk \<Rightarrow> item_def list \<Rightarrow> string \<Rightarrow> u32 option \<Rightarrow> u8 list \<Rightarrow> cat21_packet option
    \<Rightarrow> (int \<times> cat21_packet option) option" where
  "set_field junk toc item_id alloc bytes packet =
     (case packet of None \<Rightarrow> Some (-1, None)
      | Some p \<Rightarrow>
          case getItemIdx toc item_id of None \<Rightarrow> Some (-1, Some p)
          | Some idx \<Rightarrow> do {
              p \<leftarrow> set_frn_inuse idx p;
              t \<leftarrow> arr_get toc idx;
              buf \<leftarrow> put_bytes_at_start bytes (c_malloc junk (case alloc of None \<Rightarrow> it_size t | Some n \<Rightarrow> n));
              fs \<leftarrow> arr_set (packet_fields p) idx \<lparr>in_use = True, f_size = it_size t, f_data = Some buf\<rparr>;
              Some (1, Some (p\<lparr>packet_fields := fs\<rparr>)) })"

text \<open>Big-endian bytes of 16, 24 and 32 bits.\<close>

definition be16 :: "16 word \<Rightarrow> u8 list" where
  "be16 w = [ucast (drop_bit 8 w), ucast w]"

definition be24 :: "u32 \<Rightarrow> u8 list" where
  "be24 w = [ucast (drop_bit 16 w), ucast (drop_bit 8 w), ucast w]"

definition be32 :: "u32 \<Rightarrow> u8 list" where
  "be32 w = [ucast (drop_bit 24 w), ucast (drop_bit 16 w), ucast (drop_bit 8 w), ucast w]"

text \<open>A change of the first byte.\<close>

definition on_first :: "(u8 \<Rightarrow> u8) \<Rightarrow> u8 list \<Rightarrow> u8 list" where
  "on_first f bytes = (case bytes of [] \<Rightarrow> [] | b # bs \<Rightarrow> f b # bs)"

text \<open>Conversion of a floating-point number to \<^verbatim>\<open>short\<close>: the integer part, reduced to 16 bits.\<close>

definition to_short :: "rat \<Rightarrow> 16 word" where
  "to_short x = word_of_int (truncate_rat x)"

subsection \<open>The setters\<close>

type_synonym setter = "cat21_packet option \<Rightarrow> (int \<times> cat21_packet option) option"

definition cat021_setAircraftOperStatus :: "junk \<Rightarrow> item_def list \<Rightarrow> u8 \<Rightarrow> u8 \<Rightarrow> u8 \<Rightarrow> u8 \<Rightarrow> u8 \<Rightarrow> u8 \<Rightarrow> u8 \<Rightarrow> setter" where
  "cat021_setAircraftOperStatus junk toc ra tc ts arv cdtia ntcas sa =
     set_field junk toc ''I021/008'' None
       [set_bit_if (sa = 1) 0 (set_bit_if (ntcas = 1) 1 (set_bit_if (cdtia = 1) 2 (set_bit_if (arv = 1) 3
         (set_bit_if (ts = 1) 4 (set_bit_if (asterix_get_bit 1 tc) 6 (set_bit_if (asterix_get_bit 0 tc) 5
           (set_bit_if (ra = 1) 7 0)))))))]"

definition cat021_setDataSourceSACSIC :: "junk \<Rightarrow> item_def list \<Rightarrow> u32 \<Rightarrow> u32 \<Rightarrow> setter" where
  "cat021_setDataSourceSACSIC junk toc SAC SIC packet =
     (if SAC > 0 \<and> SIC > 0 then set_field junk toc ''I021/010'' (Some 2) [ucast SAC, ucast SIC] packet
      else Some (-1, packet))"

definition cat021_setServiceId :: "junk \<Rightarrow> item_def list \<Rightarrow> u32 \<Rightarrow> setter" where
  "cat021_setServiceId junk toc SID packet =
     (if SID > 0 then set_field junk toc ''I021/015'' (Some 1) [ucast SID] packet else Some (-1, packet))"

definition cat021_setServiveManagement :: "junk \<Rightarrow> item_def list \<Rightarrow> u8 \<Rightarrow> setter" where
  "cat021_setServiveManagement junk toc sid = set_field junk toc ''I021/016'' None [sid]"

definition cat021_setEmitterCat :: "junk \<Rightarrow> item_def list \<Rightarrow> u8 \<Rightarrow> setter" where
  "cat021_setEmitterCat junk toc cat = set_field junk toc ''I021/020'' None [cat]"

definition cat021_setMode3A :: "junk \<Rightarrow> item_def list \<Rightarrow> u8 \<Rightarrow> u8 \<Rightarrow> setter" where
  "cat021_setMode3A junk toc mode3a_0 mode3a_1 = set_field junk toc ''I021/070'' None [mode3a_0, mode3a_1]"

text \<open>Times of day are sent in units of 1/128 second.\<close>

definition cat021_setTimeAplicabilityPosition :: "junk \<Rightarrow> item_def list \<Rightarrow> u32 \<Rightarrow> setter" where
  "cat021_setTimeAplicabilityPosition junk toc time = set_field junk toc ''I021/071'' None (be24 (time * 128))"

definition cat021_setTimeAplicabilityVelocity :: "junk \<Rightarrow> item_def list \<Rightarrow> u32 \<Rightarrow> setter" where
  "cat021_setTimeAplicabilityVelocity junk toc time = set_field junk toc ''I021/072'' None (be24 (time * 128))"

definition cat021_setTimeMsgRcptPos :: "junk \<Rightarrow> item_def list \<Rightarrow> u32 \<Rightarrow> setter" where
  "cat021_setTimeMsgRcptPos junk toc time = set_field junk toc ''I021/073'' None (be24 (time * 128))"

definition precise_time :: "u8 \<Rightarrow> u32 \<Rightarrow> u8 list" where
  "precise_time fsi time =
     (let r = f32 (f64 (f32 (of_nat (unat time)) / f64 (9313 / 10000)))
      in on_first (\<lambda>b. write_bit (asterix_get_bit 1 fsi) 7 (write_bit (asterix_get_bit 0 fsi) 6 b))
           (be32 (word_of_int (truncate_rat r))))"

definition cat021_setTimeMsgRcptPosPrecision :: "junk \<Rightarrow> item_def list \<Rightarrow> u8 \<Rightarrow> u32 \<Rightarrow> setter" where
  "cat021_setTimeMsgRcptPosPrecision junk toc fsi time = set_field junk toc ''I021/074'' None (precise_time fsi time)"

definition cat021_setTimeMsgRcptVel :: "junk \<Rightarrow> item_def list \<Rightarrow> u32 \<Rightarrow> setter" where
  "cat021_setTimeMsgRcptVel junk toc time = set_field junk toc ''I021/075'' None (be24 (time * 128))"

definition cat021_setTimeMsgRcptVelPrecision :: "junk \<Rightarrow> item_def list \<Rightarrow> u8 \<Rightarrow> u32 \<Rightarrow> setter" where
  "cat021_setTimeMsgRcptVelPrecision junk toc fsi time = set_field junk toc ''I021/076'' None (precise_time fsi time)"

definition cat021_setTimeASTERIXReport :: "junk \<Rightarrow> item_def list \<Rightarrow> u32 \<Rightarrow> setter" where
  "cat021_setTimeASTERIXReport junk toc time = set_field junk toc ''I021/077'' None (be24 (time * 128))"

definition cat021_setTargetAddress :: "junk \<Rightarrow> item_def list \<Rightarrow> u8 \<Rightarrow> u8 \<Rightarrow> u8 \<Rightarrow> setter" where
  "cat021_setTargetAddress junk toc address_0 address_1 address_2 =
     set_field junk toc ''I021/080'' None [address_0, address_1, address_2]"

text \<open>A coordinate as a fixed-point number with 180 degrees at \<open>2 ^ n\<close>.\<close>

definition fixed_point :: "nat \<Rightarrow> rat \<Rightarrow> u32" where
  "fixed_point n coordinate =
     (let weight = f32 (f64 (180 / 2 ^ n))
      in word_of_int (truncate_rat (f64 (1 / 2 + f64 (coordinate / weight)))))"

definition cat021_setPosWGS84 :: "junk \<Rightarrow> item_def list \<Rightarrow> rat \<Rightarrow> rat \<Rightarrow> setter" where
  "cat021_setPosWGS84 junk toc lat lon =
     set_field junk toc ''I021/130'' None (be24 (fixed_point 23 lat) @ be24 (fixed_point 23 lon))"

definition cat021_setPosWGS84Precision :: "junk \<Rightarrow> item_def list \<Rightarrow> rat \<Rightarrow> rat \<Rightarrow> setter" where
  "cat021_setPosWGS84Precision junk toc lat lon =
     set_field junk toc ''I021/131'' None (be32 (fixed_point 30 lat) @ be32 (fixed_point 30 lon))"

definition cat021_setMessageAmplitude :: "junk \<Rightarrow> item_def list \<Rightarrow> u8 \<Rightarrow> setter" where
  "cat021_setMessageAmplitude junk toc msg_amp = set_field junk toc ''I021/132'' None [msg_amp]"

definition cat021_setGeometricHeight :: "junk \<Rightarrow> item_def list \<Rightarrow> 16 word \<Rightarrow> setter" where
  "cat021_setGeometricHeight junk toc height =
     set_field junk toc ''I021/140'' None (be16 (to_short (f64 (of_int (sint height) / (625 / 100)))))"

definition cat021_setFlightLevel :: "junk \<Rightarrow> item_def list \<Rightarrow> int \<Rightarrow> setter" where
  "cat021_setFlightLevel junk toc flevel packet =
     (if flevel > 0 then
        set_field junk toc ''I021/145'' None (be16 (to_short (f64 (f32 (of_int flevel) / (1 / 4))))) packet
      else Some (-1, packet))"

definition cat021_setSelectedAltitude :: "junk \<Rightarrow> item_def list \<Rightarrow> u8 \<Rightarrow> u8 \<Rightarrow> 16 word \<Rightarrow> setter" where
  "cat021_setSelectedAltitude junk toc sas src level =
     set_field junk toc ''I021/146'' None
       (on_first (\<lambda>b. set_bit_if (asterix_get_bit 1 src) 6 (set_bit_if (asterix_get_bit 0 src) 5 (set_bit_if (sas = 1) 7 b)))
         (be16 (to_short (f32 (of_int (sint level) / 25)))))"

definition cat021_setFinalStateSelectedAltitude :: "junk \<Rightarrow> item_def list \<Rightarrow> u8 \<Rightarrow> u8 \<Rightarrow> u8 \<Rightarrow> 16 word \<Rightarrow> setter" where
  "cat021_setFinalStateSelectedAltitude junk toc mv ah am altitude =
     set_field junk toc ''I021/148'' None
       (on_first (\<lambda>b. set_bit_if (am = 1) 5 (set_bit_if (ah = 1) 6 (set_bit_if (mv = 1) 7 b)))
         (be16 (to_short (f32 (of_int (sint altitude) / 25)))))"

text \<open>A 16-bit value whose top bit is a flag.\<close>

definition flagged16 :: "bool \<Rightarrow> 16 word \<Rightarrow> u8 list" where
  "flagged16 flag w = on_first (write_bit flag 7) (be16 w)"

definition cat021_setAirSpeed :: "junk \<Rightarrow> item_def list \<Rightarrow> u32 \<Rightarrow> 16 word \<Rightarrow> setter" where
  "cat021_setAirSpeed junk toc speed_type speed = set_field junk toc ''I021/150'' None (flagged16 (speed_type = 1) speed)"

definition cat021_setTrueAirSpeed :: "junk \<Rightarrow> item_def list \<Rightarrow> u32 \<Rightarrow> 16 word \<Rightarrow> setter" where
  "cat021_setTrueAirSpeed junk toc re speed = set_field junk toc ''I021/151'' None (flagged16 (re = 1) speed)"

definition cat021_setMagneticHeading :: "junk \<Rightarrow> item_def list \<Rightarrow> rat \<Rightarrow> setter" where
  "cat021_setMagneticHeading junk toc degrees =
     set_field junk toc ''I021/152'' None (be16 (to_short (f32 (f32 (degrees * 65536) / 360))))"

definition cat021_setBaroVertRate :: "junk \<Rightarrow> item_def list \<Rightarrow> u32 \<Rightarrow> 16 word \<Rightarrow> setter" where
  "cat021_setBaroVertRate junk toc re rate = set_field junk toc ''I021/155'' None (flagged16 (re = 1) rate)"

definition cat021_setGeoVertRate :: "junk \<Rightarrow> item_def list \<Rightarrow> u32 \<Rightarrow> 16 word \<Rightarrow> setter" where
  "cat021_setGeoVertRate junk toc re rate = set_field junk toc ''I021/157'' None (flagged16 (re = 1) rate)"

definition cat021_setAirborneVector :: "junk \<Rightarrow> item_def list \<Rightarrow> u8 \<Rightarrow> 16 word \<Rightarrow> 16 word \<Rightarrow> setter" where
  "cat021_setAirborneVector junk toc re gspeed track_angle =
     set_field junk toc ''I021/160'' None
       (flagged16 (re = 1) (to_short (f64 (of_int (sint gspeed) / f64 (22 / 100))))
        @ be16 (word_of_int (sint track_angle * 65536 sdiv 360)))"

definition cat021_setTrackNumber :: "junk \<Rightarrow> item_def list \<Rightarrow> 16 word \<Rightarrow> setter" where
  "cat021_setTrackNumber junk toc track_no = set_field junk toc ''I021/161'' None (be16 track_no)"

definition cat021_setTrackAngleRate :: "junk \<Rightarrow> item_def list \<Rightarrow> rat \<Rightarrow> setter" where
  "cat021_setTrackAngleRate junk toc rate = set_field junk toc ''I021/165'' None (be16 (to_short (f32 (rate * 32))))"

text \<open>The six low bits of each of eight characters, most significant bit first.\<close>

definition pack_bit :: "u8 list \<Rightarrow> nat \<times> nat \<Rightarrow> u8 list \<times> nat \<times> nat \<Rightarrow> u8 list \<times> nat \<times> nat" where
  "pack_bit tid = (\<lambda>(i, b) (data, idx_byte, idx_bit).
     (if asterix_get_bit b (tid ! i) then data[idx_byte := asterix_set_bit idx_bit (data ! idx_byte)] else data,
      if idx_bit = 0 then idx_byte + 1 else idx_byte,
      if idx_bit = 0 then 7 else idx_bit - 1))"

definition target_id_bits :: "(nat \<times> nat) list" where
  "target_id_bits = concat (List.map (\<lambda>i. List.map (\<lambda>b. (i, b)) [5, 4, 3, 2, 1, 0]) [0..<8])"

definition pack_target_id :: "u8 list \<Rightarrow> u8 list" where
  "pack_target_id tid = fst (fold (pack_bit tid) target_id_bits (replicate 6 0, 0, 7))"

definition cat021_setTargetId :: "junk \<Rightarrow> item_def list \<Rightarrow> u8 list \<Rightarrow> setter" where
  "cat021_setTargetId junk toc tid = set_field junk toc ''I021/170'' None (pack_target_id tid)"

definition cat021_setTargetStatus :: "junk \<Rightarrow> item_def list \<Rightarrow> u8 \<Rightarrow> u8 \<Rightarrow> u8 \<Rightarrow> u8 \<Rightarrow> u8 \<Rightarrow> setter" where
  "cat021_setTargetStatus junk toc icf lnav me ps ss =
     set_field junk toc ''I021/200'' None
       [set_bit_if (asterix_get_bit 1 ss) 1 (set_bit_if (asterix_get_bit 0 ss) 0
         (set_bit_if (asterix_get_bit 2 ps) 4 (set_bit_if (asterix_get_bit 1 ps) 3 (set_bit_if (asterix_get_bit 0 ps) 2
           (set_bit_if (me = 1) 5 (set_bit_if (lnav = 1) 6 (set_bit_if (icf = 1) 7 0)))))))]"

definition cat021_setMOPSVersion :: "junk \<Rightarrow> item_def list \<Rightarrow> u8 \<Rightarrow> u8 \<Rightarrow> u8 \<Rightarrow> setter" where
  "cat021_setMOPSVersion junk toc vns vn ltt =
     set_field junk toc ''I021/210'' None
       [set_bit_if (asterix_get_bit 2 ltt) 2 (set_bit_if (asterix_get_bit 1 ltt) 1 (set_bit_if (asterix_get_bit 0 ltt) 0
         (set_bit_if (asterix_get_bit 2 vn) 5 (set_bit_if (asterix_get_bit 1 vn) 4 (set_bit_if (asterix_get_bit 0 vn) 3
           (set_bit_if (vns = 1) 6 0))))))]"

definition cat021_setRollAngle :: "junk \<Rightarrow> item_def list \<Rightarrow> rat \<Rightarrow> setter" where
  "cat021_setRollAngle junk toc angle = set_field junk toc ''I021/230'' None (be16 (to_short (f32 (angle * 100))))"

definition cat021_setReceiverID :: "junk \<Rightarrow> item_def list \<Rightarrow> u8 \<Rightarrow> setter" where
  "cat021_setReceiverID junk toc rec_id = set_field junk toc ''I021/400'' None [rec_id]"

subsection \<open>Sending\<close>

text \<open>The bytes of a field: as many as its size says, from its buffer.\<close>

definition field_bytes :: "cat21_field \<Rightarrow> u8 list option" where
  "field_bytes f =
     (if in_use f then
        case f_data f of None \<Rightarrow> (if f_size f = 0 then Some [] else None)
        | Some buf \<Rightarrow> if unat (f_size f) \<le> length buf then Some (take (unat (f_size f)) buf) else None
      else Some [])"

fun all_field_bytes :: "cat21_field list \<Rightarrow> u8 list option" where
  "all_field_bytes [] = Some []"
| "all_field_bytes (f # fs) = do { b \<leftarrow> field_bytes f; bs \<leftarrow> all_field_bytes fs; Some (b @ bs) }"

definition fspec_bytes :: "cat21_packet \<Rightarrow> u8 list" where
  "fspec_bytes p = List.map fspec_byte (List.filter fspec_byte_inuse (fspec p))"

definition cat21_data :: "cat21_packet \<Rightarrow> u8 list option" where
  "cat21_data p = do {
     body \<leftarrow> all_field_bytes (packet_fields p);
     let datalen = 3 + (length body + length (fspec_bytes p));
     Some ([21, 0, of_nat datalen] @ fspec_bytes p @ body) }"

text \<open>The result, and the datagram handed to \<^verbatim>\<open>sendto\<close>, which returns \<open>sent\<close>.\<close>

definition asterix_SendCat21Packet :: "int \<Rightarrow> int \<Rightarrow> cat21_packet \<Rightarrow> (int \<times> u8 list option) option" where
  "asterix_SendCat21Packet asterix_socket sent p =
     (if asterix_socket < 0 then Some (0, None)
      else do {
        data_out \<leftarrow> cat21_data p;
        Some (if sent < 0 then 0 else 1, Some data_out) })"

subsection \<open>The category specification\<close>

text \<open>
  The table is filled from the items of a JSON file, each an identifier, an FRN and a length, the
  numbers as \<^verbatim>\<open>atoi\<close> reads them. An FRN outside the table or an identifier that does not fit into
  its ten characters writes outside the array.
\<close>

definition clear_items :: "item_def list \<Rightarrow> item_def list" where
  "clear_items toc = List.map (\<lambda>t. t\<lparr>it_id := [CHR 0x0A]\<rparr>) toc"

fun load_items :: "(string \<times> int \<times> int) list \<Rightarrow> item_def list \<Rightarrow> item_def list option" where
  "load_items [] toc = Some toc"
| "load_items ((str_id, int_frn, int_size) # items) toc = do {
     c_assert (0 \<le> int_frn \<and> length str_id < 10);
     toc \<leftarrow> arr_set toc (nat int_frn) \<lparr>it_id = str_id, it_size = word_of_int int_size\<rparr>;
     load_items items toc }"

definition loadCat21Specs :: "(string \<times> int \<times> int) list \<Rightarrow> item_def list \<Rightarrow> item_def list option" where
  "loadCat21Specs items toc = load_items items (clear_items toc)"

text \<open>The table before anything is loaded: a zeroed global array.\<close>

definition cat21items_start :: "item_def list" where
  "cat21items_start = replicate MAX_CAT21_ITEMS \<lparr>it_id = [], it_size = 0\<rparr>"

end
