(* ===== verification/AsterixCorrect.thy ===== *)
theory AsterixCorrect
  imports Asterix
begin

text \<open>
  The reports are readable: a reader that follows the category specification recovers from the
  datagram exactly the fields that were set, whatever setters were called in whatever order. The
  reader below is the reference, it is not part of the program.
\<close>

subsection \<open>A reader of category 021 reports\<close>

text \<open>Seven FRNs in a byte, most significant bit first; the last bit announces another byte.\<close>

definition frns_of_byte :: "nat \<Rightarrow> u8 \<Rightarrow> nat list" where
  "frns_of_byte base x = List.filter (\<lambda>f. bit x (base + 8 - f)) [base + 1..<base + 8]"

fun read_fspec :: "nat \<Rightarrow> u8 list \<Rightarrow> (nat list \<times> u8 list) option" where
  "read_fspec base [] = None"
| "read_fspec base (x # xs) =
     (if bit x 0 then map_option (\<lambda>(fs, rest). (frns_of_byte base x @ fs, rest)) (read_fspec (base + 7) xs)
      else Some (frns_of_byte base x, xs))"

fun read_items :: "item_def list \<Rightarrow> nat list \<Rightarrow> u8 list \<Rightarrow> (nat \<times> u8 list) list option" where
  "read_items toc [] bytes = (if bytes = [] then Some [] else None)"
| "read_items toc (f # fs) bytes =
     (let n = unat (it_size (toc ! f))
      in if n \<le> length bytes then map_option (Cons (f, take n bytes)) (read_items toc fs (drop n bytes)) else None)"

definition read_cat21 :: "item_def list \<Rightarrow> u8 list \<Rightarrow> (nat \<times> u8 list) list option" where
  "read_cat21 toc bytes =
     (case bytes of
        cat # hi # lo # rest \<Rightarrow>
          if cat = 21 \<and> 256 * unat hi + unat lo = length bytes then do {
            (frns, body) \<leftarrow> read_fspec 0 rest;
            read_items toc frns body }
          else None
      | _ \<Rightarrow> None)"

subsection \<open>The field specification\<close>

text \<open>The FSPEC shows a set of FRNs: its first \<open>k\<close> bytes are in use and chained.\<close>

definition fspec_chain :: "nat set \<Rightarrow> nat \<Rightarrow> fspec_byte_def list \<Rightarrow> bool" where
  "fspec_chain D k fs \<longleftrightarrow> length fs = 10 \<and> k \<le> 10 \<and> D \<subseteq> {1..7 * k}
     \<and> (\<forall>i<10. fspec_byte_inuse (fs ! i) = (i < k) \<and> bit (fspec_byte (fs ! i)) 0 = (Suc i < k)
          \<and> (\<forall>j\<in>{1..7}. bit (fspec_byte (fs ! i)) (8 - j) = (7 * i + j \<in> D)))"

lemma fspec_chain_start:
  "fspec_chain {} 0 (fspec (prepareAsterixPacket_cat21 MAX_CAT21_FSPEC_BYTES n))"
  by (simp add: fspec_chain_def prepareAsterixPacket_cat21_def MAX_CAT21_FSPEC_BYTES_def)

lemma frns_of_byte_chain:
  assumes "fspec_chain D k fs" "i < 10"
  shows "frns_of_byte (7 * i) (fspec_byte (fs ! i)) = List.filter (\<lambda>f. f \<in> D) [7 * i + 1..<7 * i + 8]"
  unfolding frns_of_byte_def
proof (rule filter_cong [OF HOL.refl])
  fix f assume "f \<in> set [7 * i + 1..<7 * i + 8]"
  then obtain j where "j \<in> {1..7}" "f = 7 * i + j" by (auto simp: Suc_le_eq intro!: that [of "f - 7 * i"])
  then show "bit (fspec_byte (fs ! i)) (7 * i + 8 - f) = (f \<in> D)"
    using assms by (simp add: fspec_chain_def)
qed

lemma read_fspec_chain:
  assumes "fspec_chain D k fs" "i < k"
  shows "read_fspec (7 * i) (List.map fspec_byte (drop i (take k fs)) @ rest)
    = Some (List.filter (\<lambda>f. f \<in> D) [7 * i + 1..<7 * k + 1], rest)"
  using assms(2)
proof (induction "k - i" arbitrary: i)
  case (Suc n)
  have k: "k \<le> 10" "length fs = 10" using assms(1) by (simp_all add: fspec_chain_def)
  have d: "drop i (take k fs) = fs ! i # drop (Suc i) (take k fs)"
    using Suc.prems k by (simp add: Cons_nth_drop_Suc [symmetric])
  have fx: "bit (fspec_byte (fs ! i)) 0 = (Suc i < k)" using assms(1) Suc.prems k by (simp add: fspec_chain_def)
  have here: "frns_of_byte (7 * i) (fspec_byte (fs ! i)) = List.filter (\<lambda>f. f \<in> D) [7 * i + 1..<7 * i + 8]"
    using frns_of_byte_chain [OF assms(1)] Suc.prems k by simp
  show ?case
  proof (cases "Suc i < k")
    case True
    have "[7 * i + 1..<7 * k + 1] = [7 * i + 1..<7 * i + 8] @ [7 * i + 8..<7 * k + 1]"
      using upt_add_eq_append [of "7 * i + 1" "7 * i + 8" "7 * k - 7 * i - 7"] True by simp
    moreover have "read_fspec (7 * i + 7) (List.map fspec_byte (drop (Suc i) (take k fs)) @ rest) =
        Some (List.filter (\<lambda>f. f \<in> D) [7 * i + 8..<7 * k + 1], rest)"
      using Suc.hyps(1) [of "Suc i"] Suc.hyps(2) True by (simp add: add.commute)
    ultimately show ?thesis using True unfolding d by (simp add: fx here del: upt_Suc)
  next
    case False
    then have "k = Suc i" using Suc.prems by simp
    then show ?thesis unfolding d by (simp add: fx here add.commute)
  qed
qed simp


lemma bit_set_bit: "pos < 8 \<Longrightarrow> bit (asterix_set_bit pos x) n \<longleftrightarrow> bit x n \<or> n = pos"
  by (auto simp: asterix_set_bit_def bit_or_iff bit_exp_iff)

lemma frn_position:
  assumes "1 \<le> f"
  shows "(if f mod 7 > 0 then f div 7 + 1 else f div 7) = Suc ((f - 1) div 7)"
    and "f - 7 * ((f - 1) div 7) \<in> {1..7}"
proof -
  obtain g where g: "f = Suc g" using assms by (cases f) auto
  show "(if f mod 7 > 0 then f div 7 + 1 else f div 7) = Suc ((f - 1) div 7)" by (simp add: g div_Suc mod_Suc)
  have "Suc g - 7 * (g div 7) = Suc (g mod 7)" by presburger
  then show "f - 7 * ((f - 1) div 7) \<in> {1..7}" unfolding g by simp
qed

text \<open>The bytes after an FRN has been marked.\<close>

lemma set_frn_inuse_bytes:
  assumes "length (fspec p) = 10" "1 \<le> f" "f \<le> 70"
  defines "b \<equiv> (f - 1) div 7"
  obtains fs where "set_frn_inuse f p = Some (p\<lparr>fspec := fs\<rparr>)" "length fs = 10"
    "\<And>i. i < 10 \<Longrightarrow> fs ! i =
       (if i < b then mark_byte (asterix_set_bit 0) True (fspec p ! i)
        else if i = b then mark_byte (asterix_set_bit (8 - (f - 7 * b))) True (fspec p ! i)
        else fspec p ! i)"
proof -
  have b: "b < 10" using assms(2,3) unfolding b_def by linarith
  have j: "f - 7 * b \<in> {1..7}" using frn_position(2) [OF assms(2)] by (simp add: b_def)
  have n: "(if f mod 7 > 0 then f div 7 + 1 else f div 7) = Suc b" using frn_position(1) [OF assms(2)] by (simp add: b_def)
  let ?x = "(fspec p ! b)\<lparr>fspec_byte := asterix_set_bit (8 - (f - 7 * b)) (fspec_byte (fspec p ! b))\<rparr>"
  let ?fs = "List.map (mark_byte (asterix_set_bit 0) True) (take b (fspec p)) @ ?x\<lparr>fspec_byte_inuse := True\<rparr> # drop (Suc b) (fspec p)"
  show thesis
  proof (rule that [of ?fs])
    show "set_frn_inuse f p = Some (p\<lparr>fspec := ?fs\<rparr>)"
      using b assms(1) j unfolding set_frn_inuse_def Let_def n
      by (simp add: asterix_set_byte_inuse_def map2bit_def mult.commute)
    show "length ?fs = 10" using b assms(1) by simp
    show "?fs ! i = (if i < b then mark_byte (asterix_set_bit 0) True (fspec p ! i)
        else if i = b then mark_byte (asterix_set_bit (8 - (f - 7 * b))) True (fspec p ! i)
        else fspec p ! i)" if "i < 10" for i
      using b assms(1) that by (auto simp: nth_append mark_byte_def nth_Cons')
  qed
qed

lemma set_frn_inuse_chain:
  assumes "fspec_chain D k (fspec p)" "1 \<le> f" "f \<le> 70"
  obtains fs k' where "set_frn_inuse f p = Some (p\<lparr>fspec := fs\<rparr>)" "fspec_chain (insert f D) k' fs"
proof -
  let ?b = "(f - 1) div 7"
  let ?k = "max k (Suc ?b)"
  have len: "length (fspec p) = 10" using assms(1) by (simp add: fspec_chain_def)
  obtain fs where fs: "set_frn_inuse f p = Some (p\<lparr>fspec := fs\<rparr>)" "length fs = 10"
    "\<And>i. i < 10 \<Longrightarrow> fs ! i =
       (if i < ?b then mark_byte (asterix_set_bit 0) True (fspec p ! i)
        else if i = ?b then mark_byte (asterix_set_bit (8 - (f - 7 * ?b))) True (fspec p ! i)
        else fspec p ! i)"
    using set_frn_inuse_bytes [OF len assms(2,3)] by blast
  have b: "?b < 10" using assms(2,3) by linarith
  obtain j where j: "j \<in> {1..7}" "f = 7 * ?b + j"
    using frn_position(2) [OF assms(2)] by (metis add_diff_inverse_nat atLeastAtMost_iff diff_is_0_eq' less_le_not_le linorder_le_less_linear not_one_le_zero)
  have e: "8 - (f - 7 * ?b) = 8 - j" using j(2) by linarith
  have same: "7 * i + j' = f \<longleftrightarrow> i = ?b \<and> 8 - j' = 8 - j" if "j' \<in> {1..7}" for i j'
  proof
    assume eq: "7 * i + j' = f"
    then have "?b = i" using that by auto
    then show "i = ?b \<and> 8 - j' = 8 - j" using j(2) eq by auto
  next
    assume "i = ?b \<and> 8 - j' = 8 - j"
    moreover from this have "j' = j" using that j(1) by auto
    ultimately show "7 * i + j' = f" using j(2) by simp
  qed
  have "fspec_chain (insert f D) ?k fs"
    unfolding fspec_chain_def
  proof (intro conjI allI impI ballI)
    show "insert f D \<subseteq> {1..7 * ?k}" using assms(1) j by (auto simp: fspec_chain_def max_def)
    fix i :: nat assume i: "i < 10"
    have old: "fspec_byte_inuse (fspec p ! i) = (i < k)" "bit (fspec_byte (fspec p ! i)) 0 = (Suc i < k)"
      "\<And>j. j \<in> {1..7} \<Longrightarrow> bit (fspec_byte (fspec p ! i)) (8 - j) = (7 * i + j \<in> D)"
      using assms(1) i by (simp_all add: fspec_chain_def)
    show "fspec_byte_inuse (fs ! i) = (i < ?k)" "bit (fspec_byte (fs ! i)) 0 = (Suc i < ?k)"
      using old(1,2) fs(3) [OF i, unfolded e] j(1) by (auto simp: mark_byte_def bit_set_bit)
    fix j' :: nat assume j': "j' \<in> {1..7}"
    show "bit (fspec_byte (fs ! i)) (8 - j') = (7 * i + j' \<in> insert f D)"
      using old(3) [OF j'] fs(3) [OF i, unfolded e] j' j(1) same [OF j'] by (auto simp: mark_byte_def bit_set_bit)
  qed (use b assms(1) fs(2) in \<open>auto simp: fspec_chain_def\<close>)
  with fs(1) show thesis by (rule that)
qed


subsection \<open>What a packet reports\<close>

definition packet_reports :: "item_def list \<Rightarrow> (nat \<rightharpoonup> u8 list) \<Rightarrow> cat21_packet \<Rightarrow> bool" where
  "packet_reports toc m p \<longleftrightarrow> (\<exists>k. fspec_chain (dom m) k (fspec p)) \<and> length (packet_fields p) = 100
     \<and> (\<forall>f<100. case m f of None \<Rightarrow> \<not> in_use (packet_fields p ! f)
         | Some b \<Rightarrow> packet_fields p ! f = \<lparr>in_use = True, f_size = it_size (toc ! f), f_data = Some b\<rparr>
             \<and> unat (it_size (toc ! f)) = length b)"

lemma packet_reports_start:
  "packet_reports toc Map.empty (prepareAsterixPacket_cat21 MAX_CAT21_FSPEC_BYTES MAX_CAT21_ITEMS)"
  using fspec_chain_start
  by (auto simp: packet_reports_def prepareAsterixPacket_cat21_def MAX_CAT21_ITEMS_def)

definition item_fits :: "item_def list \<Rightarrow> string \<Rightarrow> u8 list \<Rightarrow> nat \<Rightarrow> bool" where
  "item_fits toc item_id bytes f \<longleftrightarrow> getItemIdx toc item_id = Some f \<and> 1 \<le> f \<and> f \<le> 70
     \<and> unat (it_size (toc ! f)) = length bytes"

lemma set_field_reports:
  assumes "packet_reports toc m p" "length toc = MAX_CAT21_ITEMS" "item_fits toc item_id bytes f"
    and "alloc = None \<or> alloc = Some (of_nat (length bytes))" "length bytes < 2 ^ 32"
  shows "\<exists>p'. set_field junk toc item_id alloc bytes (Some p) = Some (1, Some p') \<and> packet_reports toc (m(f \<mapsto> bytes)) p'"
proof -
  have f: "getItemIdx toc item_id = Some f" "1 \<le> f" "f \<le> 70" "unat (it_size (toc ! f)) = length bytes"
    using assms(3) by (simp_all add: item_fits_def)
  obtain k where k: "fspec_chain (dom m) k (fspec p)" using assms(1) by (auto simp: packet_reports_def)
  obtain fs k' where fs: "set_frn_inuse f p = Some (p\<lparr>fspec := fs\<rparr>)" "fspec_chain (insert f (dom m)) k' fs"
    by (rule set_frn_inuse_chain [OF k f(2,3)])
  have buf: "put_bytes_at_start bytes (c_malloc junk (case alloc of None \<Rightarrow> it_size (toc ! f) | Some n \<Rightarrow> n)) = Some bytes"
    using assms(4,5) f(4) by (auto simp: put_bytes_at_start_def c_malloc_def unat_of_nat)
  let ?fields = "(packet_fields p)[f := \<lparr>in_use = True, f_size = it_size (toc ! f), f_data = Some bytes\<rparr>]"
  have "set_field junk toc item_id alloc bytes (Some p) = Some (1, Some (p\<lparr>fspec := fs, packet_fields := ?fields\<rparr>))"
    using f(1,3) fs(1) buf assms(1,2) by (simp add: set_field_def MAX_CAT21_ITEMS_def packet_reports_def)
  moreover have "packet_reports toc (m(f \<mapsto> bytes)) (p\<lparr>fspec := fs, packet_fields := ?fields\<rparr>)"
    using assms(1) fs(2) f by (auto simp: packet_reports_def nth_list_update split: option.split)
  ultimately show ?thesis by blast
qed

subsection \<open>Reading a report back\<close>

lemma all_field_bytes_concat:
  "(\<And>i. i < length fs \<Longrightarrow> field_bytes (fs ! i) = Some (bs i)) \<Longrightarrow>
     all_field_bytes fs = Some (concat (List.map bs [0..<length fs]))"
proof (induction fs arbitrary: bs)
  case (Cons f fs)
  have "all_field_bytes fs = Some (concat (List.map (\<lambda>i. bs (Suc i)) [0..<length fs]))"
    using Cons.IH [of "\<lambda>i. bs (Suc i)"] Cons.prems by fastforce
  moreover have "field_bytes f = Some (bs 0)" using Cons.prems [of 0] by simp
  moreover have "[0..<length (f # fs)] = 0 # List.map Suc [0..<length fs]" by (simp add: map_Suc_upt upt_conv_Cons del: upt_Suc)
  ultimately show ?case by (simp del: upt_Suc add: comp_def)
qed simp

lemma filter_prefix:
  assumes "k \<le> length xs" "\<And>i. i < length xs \<Longrightarrow> P (xs ! i) = (i < k)"
  shows "List.filter P xs = take k xs"
proof -
  have "List.filter P (take k xs) = take k xs" using assms by (intro filter_True) (auto simp: in_set_conv_nth)
  moreover have "List.filter P (drop k xs) = []" using assms by (intro filter_False) (auto simp: in_set_conv_nth)
  ultimately show ?thesis by (metis append_Nil2 append_take_drop_id filter_append)
qed

lemma fspec_bytes_chain: "fspec_chain D k (fspec p) \<Longrightarrow> fspec_bytes p = List.map fspec_byte (take k (fspec p))"
  unfolding fspec_bytes_def by (subst filter_prefix [of k]) (auto simp: fspec_chain_def)

lemma read_items_concat:
  "(\<And>f. f \<in> set fs \<Longrightarrow> unat (it_size (toc ! f)) = length (b f)) \<Longrightarrow>
     read_items toc fs (concat (List.map b fs)) = Some (List.map (\<lambda>f. (f, b f)) fs)"
  by (induction fs) (auto simp: Let_def)

lemma frns_in_order:
  assumes "D \<subseteq> {1..7 * k}" "k \<le> 10"
  shows "List.filter (\<lambda>f. f \<in> D) [7 * 0 + 1..<7 * k + 1] = List.filter (\<lambda>f. f \<in> D) [0..<100]"
proof -
  have "[0..<100] = [0..<1] @ [1..<7 * k + 1] @ [7 * k + 1..<100]"
    using assms(2) upt_add_eq_append [of 0 1 99] upt_add_eq_append [of 1 "7 * k + 1" "99 - 7 * k"] by simp
  moreover have "List.filter (\<lambda>f. f \<in> D) [0..<1] = []" "List.filter (\<lambda>f. f \<in> D) [7 * k + 1..<100] = []"
    using assms(1) by (auto intro!: filter_False simp del: upt_Suc)
  ultimately show ?thesis by (simp del: upt_Suc)
qed

lemma packet_reports_body:
  assumes "packet_reports toc m p"
  shows "all_field_bytes (packet_fields p) = Some (concat (List.map (\<lambda>f. the (m f)) (List.filter (\<lambda>f. f \<in> dom m) [0..<100])))"
proof -
  let ?b = "\<lambda>f. case m f of None \<Rightarrow> [] | Some b \<Rightarrow> b"
  have "field_bytes (packet_fields p ! f) = Some (?b f)" if "f < 100" for f
    using assms that by (cases "m f") (auto simp: packet_reports_def field_bytes_def dest!: spec [of _ f])
  then have "all_field_bytes (packet_fields p) = Some (concat (List.map ?b [0..<100]))"
    using all_field_bytes_concat [of "packet_fields p" ?b] assms by (simp add: packet_reports_def)
  moreover have "concat (List.map ?b xs) = concat (List.map (\<lambda>f. the (m f)) (List.filter (\<lambda>f. f \<in> dom m) xs))" for xs
    by (induction xs) (auto split: option.split)
  ultimately show ?thesis by simp
qed

lemma packet_reports_data: "packet_reports toc m p \<Longrightarrow> \<exists>bytes. cat21_data p = Some bytes"
  by (simp add: cat21_data_def packet_reports_body)

lemma read_report:
  assumes "packet_reports toc m p" "dom m \<noteq> {}" "cat21_data p = Some bytes" "length bytes < 256"
  shows "read_cat21 toc bytes = Some (List.map (\<lambda>f. (f, the (m f))) (List.filter (\<lambda>f. f \<in> dom m) [0..<100]))"
proof -
  let ?D = "List.filter (\<lambda>f. f \<in> dom m) [0..<100]"
  obtain k where k: "fspec_chain (dom m) k (fspec p)" using assms(1) by (auto simp: packet_reports_def)
  then have D: "dom m \<subseteq> {1..7 * k}" "k \<le> 10" by (simp_all add: fspec_chain_def)
  then have "0 < k" using assms(2) by (cases k) auto
  note body = packet_reports_body [OF assms(1)]
  let ?body = "concat (List.map (\<lambda>f. the (m f)) ?D)" and ?fspec = "List.map fspec_byte (take k (fspec p))"
  define n :: u8 where "n = of_nat (3 + (length ?body + length ?fspec))"
  have bytes: "bytes = [21, 0, n] @ ?fspec @ ?body"
    using assms(3) body unfolding cat21_data_def fspec_bytes_chain [OF k] n_def by simp
  then have len: "length bytes = 3 + (length ?body + length ?fspec)" by simp
  then have n: "unat n = length bytes" using assms(4) unfolding n_def by (simp only: unat_of_nat) simp
  have "read_fspec 0 (?fspec @ ?body) = Some (?D, ?body)"
    using read_fspec_chain [OF k \<open>0 < k\<close>, of ?body] frns_in_order [OF D] by simp
  moreover have "read_items toc ?D ?body = Some (List.map (\<lambda>f. (f, the (m f))) ?D)"
    using assms(1) by (intro read_items_concat) (auto simp: packet_reports_def dest!: spec)
  ultimately show ?thesis
    using n len unfolding bytes by (simp add: read_cat21_def)
qed


subsection \<open>The calls of a report\<close>

text \<open>Every setter with the item it sets and the content it gives it.\<close>

inductive cat21_call :: "junk \<Rightarrow> item_def list \<Rightarrow> setter \<Rightarrow> string \<Rightarrow> u8 list \<Rightarrow> bool" for junk toc where
  oper_status: "cat21_call junk toc (cat021_setAircraftOperStatus junk toc ra tc ts arv cdtia ntcas sa)
      ''I021/008'' ([set_bit_if (sa = 1) 0 (set_bit_if (ntcas = 1) 1 (set_bit_if (cdtia = 1) 2 (set_bit_if (arv = 1) 3
         (set_bit_if (ts = 1) 4 (set_bit_if (asterix_get_bit 1 tc) 6 (set_bit_if (asterix_get_bit 0 tc) 5
           (set_bit_if (ra = 1) 7 0)))))))])"
| source_id: "SAC > 0 \<Longrightarrow> SIC > 0 \<Longrightarrow> cat21_call junk toc (cat021_setDataSourceSACSIC junk toc SAC SIC)
      ''I021/010'' ([ucast SAC, ucast SIC])"
| service_id: "SID > 0 \<Longrightarrow> cat21_call junk toc (cat021_setServiceId junk toc SID)
      ''I021/015'' ([ucast SID])"
| service_management: "cat21_call junk toc (cat021_setServiveManagement junk toc sid)
      ''I021/016'' ([sid])"
| emitter_category: "cat21_call junk toc (cat021_setEmitterCat junk toc cat)
      ''I021/020'' ([cat])"
| mode_3a: "cat21_call junk toc (cat021_setMode3A junk toc x y)
      ''I021/070'' ([x, y])"
| time_position: "cat21_call junk toc (cat021_setTimeAplicabilityPosition junk toc t)
      ''I021/071'' (be24 (t * 128))"
| time_velocity: "cat21_call junk toc (cat021_setTimeAplicabilityVelocity junk toc t)
      ''I021/072'' (be24 (t * 128))"
| received_position: "cat21_call junk toc (cat021_setTimeMsgRcptPos junk toc t)
      ''I021/073'' (be24 (t * 128))"
| received_position_precise: "cat21_call junk toc (cat021_setTimeMsgRcptPosPrecision junk toc fsi t)
      ''I021/074'' (precise_time fsi t)"
| received_velocity: "cat21_call junk toc (cat021_setTimeMsgRcptVel junk toc t)
      ''I021/075'' (be24 (t * 128))"
| received_velocity_precise: "cat21_call junk toc (cat021_setTimeMsgRcptVelPrecision junk toc fsi t)
      ''I021/076'' (precise_time fsi t)"
| report_time: "cat21_call junk toc (cat021_setTimeASTERIXReport junk toc t)
      ''I021/077'' (be24 (t * 128))"
| target_address: "cat21_call junk toc (cat021_setTargetAddress junk toc x y z)
      ''I021/080'' ([x, y, z])"
| position: "cat21_call junk toc (cat021_setPosWGS84 junk toc lat lon)
      ''I021/130'' (be24 (fixed_point 23 lat) @ be24 (fixed_point 23 lon))"
| position_precise: "cat21_call junk toc (cat021_setPosWGS84Precision junk toc lat lon)
      ''I021/131'' (be32 (fixed_point 30 lat) @ be32 (fixed_point 30 lon))"
| amplitude: "cat21_call junk toc (cat021_setMessageAmplitude junk toc amp)
      ''I021/132'' ([amp])"
| geometric_height: "cat21_call junk toc (cat021_setGeometricHeight junk toc h)
      ''I021/140'' (be16 (to_short (f64 (of_int (sint h) / (625 / 100)))))"
| flight_level: "fl > 0 \<Longrightarrow> cat21_call junk toc (cat021_setFlightLevel junk toc fl)
      ''I021/145'' (be16 (to_short (f64 (f32 (of_int fl) / (1 / 4)))))"
| selected_altitude: "cat21_call junk toc (cat021_setSelectedAltitude junk toc sas src level)
      ''I021/146'' (on_first (\<lambda>b. set_bit_if (asterix_get_bit 1 src) 6 (set_bit_if (asterix_get_bit 0 src) 5 (set_bit_if (sas = 1) 7 b)))
         (be16 (to_short (f32 (of_int (sint level) / 25)))))"
| final_altitude: "cat21_call junk toc (cat021_setFinalStateSelectedAltitude junk toc mv ah am alt)
      ''I021/148'' (on_first (\<lambda>b. set_bit_if (am = 1) 5 (set_bit_if (ah = 1) 6 (set_bit_if (mv = 1) 7 b)))
         (be16 (to_short (f32 (of_int (sint alt) / 25)))))"
| air_speed: "cat21_call junk toc (cat021_setAirSpeed junk toc ty w)
      ''I021/150'' (flagged16 (ty = 1) w)"
| true_air_speed: "cat21_call junk toc (cat021_setTrueAirSpeed junk toc re w)
      ''I021/151'' (flagged16 (re = 1) w)"
| magnetic_heading: "cat21_call junk toc (cat021_setMagneticHeading junk toc h)
      ''I021/152'' (be16 (to_short (f32 (f32 (h * 65536) / 360))))"
| baro_rate: "cat21_call junk toc (cat021_setBaroVertRate junk toc re w)
      ''I021/155'' (flagged16 (re = 1) w)"
| geom_rate: "cat21_call junk toc (cat021_setGeoVertRate junk toc re w)
      ''I021/157'' (flagged16 (re = 1) w)"
| ground_vector: "cat21_call junk toc (cat021_setAirborneVector junk toc re8 gspeed ta)
      ''I021/160'' (flagged16 (re8 = 1) (to_short (f64 (of_int (sint gspeed) / f64 (22 / 100))))
         @ be16 (word_of_int (sint ta * 65536 sdiv 360)))"
| track_number: "cat21_call junk toc (cat021_setTrackNumber junk toc w)
      ''I021/161'' (be16 w)"
| angle_rate: "cat21_call junk toc (cat021_setTrackAngleRate junk toc r)
      ''I021/165'' (be16 (to_short (f32 (r * 32))))"
| target_id: "cat21_call junk toc (cat021_setTargetId junk toc tid)
      ''I021/170'' (pack_target_id tid)"
| target_status: "cat21_call junk toc (cat021_setTargetStatus junk toc icf lnav me ps ss)
      ''I021/200'' ([set_bit_if (asterix_get_bit 1 ss) 1 (set_bit_if (asterix_get_bit 0 ss) 0
         (set_bit_if (asterix_get_bit 2 ps) 4 (set_bit_if (asterix_get_bit 1 ps) 3 (set_bit_if (asterix_get_bit 0 ps) 2
           (set_bit_if (me = 1) 5 (set_bit_if (lnav = 1) 6 (set_bit_if (icf = 1) 7 0)))))))])"
| mops_version: "cat21_call junk toc (cat021_setMOPSVersion junk toc vns vn ltt)
      ''I021/210'' ([set_bit_if (asterix_get_bit 2 ltt) 2 (set_bit_if (asterix_get_bit 1 ltt) 1 (set_bit_if (asterix_get_bit 0 ltt) 0
         (set_bit_if (asterix_get_bit 2 vn) 5 (set_bit_if (asterix_get_bit 1 vn) 4 (set_bit_if (asterix_get_bit 0 vn) 3
           (set_bit_if (vns = 1) 6 0))))))])"
| roll_angle: "cat21_call junk toc (cat021_setRollAngle junk toc r)
      ''I021/230'' (be16 (to_short (f32 (r * 100))))"
| receiver_id: "cat21_call junk toc (cat021_setReceiverID junk toc rec)
      ''I021/400'' ([rec])"

lemma length_pack [simp]: "length (pack_target_id tid) = 6"
proof -
  have "length (fst (fold (pack_bit tid) xs d)) = length (fst d)" for xs d
    by (induction xs arbitrary: d) (auto simp: pack_bit_def split: prod.splits)
  then show ?thesis by (simp add: pack_target_id_def)
qed

lemma length_contents [simp]:
  "length (be16 w) = 2" "length (be24 v) = 3" "length (be32 v) = 4" "length (flagged16 b w) = 2"
  "length (on_first g xs) = length xs" "length (precise_time fsi t) = 4"
proof -
  show *: "length (on_first g xs) = length xs" for g xs by (simp add: on_first_def split: list.split)
  show "length (be16 w) = 2" "length (be24 v) = 3" "length (be32 v) = 4" by (simp_all add: be16_def be24_def be32_def)
  then show "length (flagged16 b w) = 2" "length (precise_time fsi t) = 4"
    by (simp_all add: flagged16_def precise_time_def * be16_def be32_def Let_def)
qed

lemma cat21_call_set_field:
  assumes "cat21_call junk toc s item_id bytes"
  shows "\<exists>alloc. (alloc = None \<or> alloc = Some (of_nat (length bytes))) \<and> length bytes < 2 ^ 32
    \<and> s packet = set_field junk toc item_id alloc bytes packet"
  using assms
proof (cases rule: cat21_call.cases)
  case (source_id SAC SIC)
  then show ?thesis by (intro exI [of _ "Some 2"]) (simp add: cat021_setDataSourceSACSIC_def)
next
  case (service_id SID)
  then show ?thesis by (intro exI [of _ "Some 1"]) (simp add: cat021_setServiceId_def)
qed (rule exI [of _ None]; simp add: cat021_setAircraftOperStatus_def cat021_setServiveManagement_def cat021_setEmitterCat_def
    cat021_setMode3A_def cat021_setTimeAplicabilityPosition_def cat021_setTimeAplicabilityVelocity_def
    cat021_setTimeMsgRcptPos_def cat021_setTimeMsgRcptPosPrecision_def cat021_setTimeMsgRcptVel_def
    cat021_setTimeMsgRcptVelPrecision_def cat021_setTimeASTERIXReport_def cat021_setTargetAddress_def
    cat021_setPosWGS84_def cat021_setPosWGS84Precision_def cat021_setMessageAmplitude_def cat021_setGeometricHeight_def
    cat021_setFlightLevel_def cat021_setSelectedAltitude_def cat021_setFinalStateSelectedAltitude_def cat021_setAirSpeed_def
    cat021_setTrueAirSpeed_def cat021_setMagneticHeading_def cat021_setBaroVertRate_def cat021_setGeoVertRate_def
    cat021_setAirborneVector_def cat021_setTrackNumber_def cat021_setTrackAngleRate_def cat021_setTargetId_def
    cat021_setTargetStatus_def cat021_setMOPSVersion_def cat021_setRollAngle_def cat021_setReceiverID_def)+

fun run_setters :: "setter list \<Rightarrow> cat21_packet option \<Rightarrow> cat21_packet option option" where
  "run_setters [] packet = Some packet"
| "run_setters (s # ss) packet = do { (result, packet) \<leftarrow> s packet; run_setters ss packet }"

text \<open>The last content given to an FRN.\<close>

definition last_contents :: "item_def list \<Rightarrow> (setter \<times> string \<times> u8 list) list \<Rightarrow> nat \<rightharpoonup> u8 list" where
  "last_contents toc calls = map_of (rev (List.map (\<lambda>(s, item_id, b). (the (getItemIdx toc item_id), b)) calls))"

lemma run_setters_reports:
  assumes "packet_reports toc m p" "length toc = MAX_CAT21_ITEMS"
    and "\<forall>(s, item_id, b)\<in>set calls. cat21_call junk toc s item_id b \<and> (\<exists>f. item_fits toc item_id b f)"
  shows "\<exists>p'. run_setters (List.map fst calls) (Some p) = Some (Some p')
    \<and> packet_reports toc (m ++ last_contents toc calls) p'"
  using assms
proof (induction calls arbitrary: m p)
  case (Cons call calls)
  obtain s item_id b where call: "call = (s, item_id, b)" by (cases call)
  with Cons.prems(3) obtain f where f: "cat21_call junk toc s item_id b" "item_fits toc item_id b f" by auto
  from cat21_call_set_field [OF f(1)] obtain alloc where
    a: "alloc = None \<or> alloc = Some (of_nat (length b))" "length b < 2 ^ 32" "s (Some p) = set_field junk toc item_id alloc b (Some p)"
    by blast
  from set_field_reports [OF Cons.prems(1,2) f(2) a(1,2)] obtain p1 where
    p1: "s (Some p) = Some (1, Some p1)" "packet_reports toc (m(f \<mapsto> b)) p1" using a(3) by auto
  have "\<forall>(s, item_id, b)\<in>set calls. cat21_call junk toc s item_id b \<and> (\<exists>f. item_fits toc item_id b f)"
    using Cons.prems(3) by simp
  from Cons.IH [OF p1(2) Cons.prems(2) this] obtain p' where
    p': "run_setters (List.map fst calls) (Some p1) = Some (Some p')"
    "packet_reports toc (m(f \<mapsto> b) ++ last_contents toc calls) p'" by blast
  have "m(f \<mapsto> b) ++ last_contents toc calls = m ++ last_contents toc (call # calls)"
    using f(2) by (auto simp: last_contents_def call item_fits_def map_add_def fun_eq_iff split: option.split)
  with p' p1(1) show ?case by (simp add: call)
qed (simp add: last_contents_def)

text \<open>
  C35. Round trip: every report can be read back. Whatever setters are called on a fresh packet, in
  whatever order and however often, the datagram of \<^verbatim>\<open>asterix_SendCat21Packet\<close> is, for a reader that
  follows the category specification, the list of the items set, in the order of their FRNs, each
  with the content given last. The specification must number the items from 1 to 70 and give each
  the length its setter writes; the report must fit into 255 bytes.
\<close>

theorem cat21_report_roundtrip:
  assumes "length toc = MAX_CAT21_ITEMS" "calls \<noteq> []"
    and "\<forall>(s, item_id, b)\<in>set calls. cat21_call junk toc s item_id b \<and> (\<exists>f. item_fits toc item_id b f)"
  shows "\<exists>p bytes. run_setters (List.map fst calls) (Some (prepareAsterixPacket_cat21 MAX_CAT21_FSPEC_BYTES MAX_CAT21_ITEMS)) = Some (Some p)
    \<and> asterix_SendCat21Packet 3 (int (length bytes)) p = Some (1, Some bytes)
    \<and> (length bytes < 256 \<longrightarrow> read_cat21 toc bytes = Some (List.map (\<lambda>f. (f, the (last_contents toc calls f)))
          (List.filter (\<lambda>f. f \<in> dom (last_contents toc calls)) [0..<100])))"
proof -
  obtain p where p: "run_setters (List.map fst calls) (Some (prepareAsterixPacket_cat21 MAX_CAT21_FSPEC_BYTES MAX_CAT21_ITEMS)) = Some (Some p)"
    "packet_reports toc (last_contents toc calls) p"
    using run_setters_reports [OF packet_reports_start assms(1,3)] by auto
  have dom: "dom (last_contents toc calls) \<noteq> {}"
    using assms(2) by (cases calls) (auto simp: last_contents_def dom_map_of_conv_image_fst)
  obtain bytes where bytes: "cat21_data p = Some bytes"
    using packet_reports_data [OF p(2)] by blast
  show ?thesis
    using p(1) bytes read_report [OF p(2) dom bytes] by (auto simp: asterix_SendCat21Packet_def)
qed

text \<open>An address and an emitter category, with the FRNs 11 and 5.\<close>

definition demo_toc :: "item_def list" where
  "demo_toc = cat21items_start[11 := \<lparr>it_id = ''I021/080'', it_size = 3\<rparr>, 5 := \<lparr>it_id = ''I021/020'', it_size = 1\<rparr>]"

lemma demo_toc_simps:
  "length demo_toc = MAX_CAT21_ITEMS"
  "item_fits demo_toc ''I021/080'' [b0, b1, b2] 11" "item_fits demo_toc ''I021/020'' [c] 5"
proof -
  show "length demo_toc = MAX_CAT21_ITEMS" by (simp add: demo_toc_def cat21items_start_def)
  have "getItemIdx demo_toc ''I021/080'' = Some 11" "getItemIdx demo_toc ''I021/020'' = Some 5" by code_simp+
  then show "item_fits demo_toc ''I021/080'' [b0, b1, b2] 11" "item_fits demo_toc ''I021/020'' [c] 5"
    by (simp_all add: item_fits_def demo_toc_def cat21items_start_def MAX_CAT21_ITEMS_def)
qed

theorem cat21_report_roundtrip_witness:
  "\<exists>p bytes. run_setters [cat021_setTargetAddress (\<lambda>_. 0) demo_toc 0x4B 0x17 0xFD, cat021_setEmitterCat (\<lambda>_. 0) demo_toc 3]
      (Some (prepareAsterixPacket_cat21 MAX_CAT21_FSPEC_BYTES MAX_CAT21_ITEMS)) = Some (Some p)
    \<and> asterix_SendCat21Packet 3 (int (length bytes)) p = Some (1, Some bytes)
    \<and> (length bytes < 256 \<longrightarrow> read_cat21 demo_toc bytes = Some [(5, [3]), (11, [0x4B, 0x17, 0xFD])])"
proof -
  let ?calls = "[(cat021_setTargetAddress (\<lambda>_. 0) demo_toc 0x4B 0x17 0xFD, ''I021/080'', [0x4B, 0x17, 0xFD :: u8]),
    (cat021_setEmitterCat (\<lambda>_. 0) demo_toc 3, ''I021/020'', [3])]"
  have last: "last_contents demo_toc ?calls = [11 \<mapsto> [0x4B, 0x17, 0xFD], 5 \<mapsto> [3]]"
    using demo_toc_simps(2,3) by (simp add: last_contents_def item_fits_def)
  have "List.filter (\<lambda>f. f = 5 \<or> f = 11) [0..<100] = [5, 11 :: nat]" by code_simp
  then have "List.filter (\<lambda>f. f \<in> dom [11 \<mapsto> [0x4B, 0x17, 0xFD :: u8], 5 \<mapsto> [3]]) [0..<100] = [5, 11]" by simp
  moreover have "\<forall>(s, item_id, b)\<in>set ?calls. cat21_call (\<lambda>_. 0) demo_toc s item_id b \<and> (\<exists>f. item_fits demo_toc item_id b f)"
    by (auto intro: cat21_call.intros exI [of _ 11] exI [of _ 5] demo_toc_simps(2,3))
  ultimately show ?thesis
    using cat21_report_roundtrip [OF demo_toc_simps(1), of ?calls "\<lambda>_. 0"] unfolding last by simp
qed

subsection \<open>Target identification\<close>

lemma asterix_get_bit_iff: "asterix_get_bit b x \<longleftrightarrow> bit x b"
  by (simp add: asterix_get_bit_def and_one_eq bit_iff_odd_drop_bit odd_iff_mod_2_eq_one)

lemma msg_bit_Suc: "msg_bit data (Suc k) = bit (data ! (k div 8)) (7 - k mod 8)"
  by (simp add: msg_bit_def)

text \<open>Packing copies bits: from position \<open>k\<close> on, one bit for each pair.\<close>

lemma pack_bits:
  assumes "fold (pack_bit tid) xs (data, k div 8, 7 - k mod 8) = (d, st)"
    and "k + length xs \<le> 8 * length data" "\<forall>i\<ge>k. i < 8 * length data \<longrightarrow> \<not> msg_bit data (Suc i)"
    and "i < k + length xs"
  shows "msg_bit d (Suc i) = (if i < k then msg_bit data (Suc i)
      else bit (tid ! fst (xs ! (i - k))) (snd (xs ! (i - k))))"
  using assms
proof (induction xs arbitrary: data k)
  case (Cons x xs)
  obtain c b where x: "x = (c, b)" by (cases x)
  define data' where "data' = (if bit (tid ! c) b then data[k div 8 := asterix_set_bit (7 - k mod 8) (data ! (k div 8))] else data)"
  have step: "pack_bit tid x (data, k div 8, 7 - k mod 8) = (data', Suc k div 8, 7 - Suc k mod 8)"
    unfolding x pack_bit_def data'_def asterix_get_bit_iff
    by (auto simp: div_Suc mod_Suc)
  have k: "k div 8 < length data" using Cons.prems(2) by simp
  have bits: "msg_bit data' (Suc i) = (if i = k then bit (tid ! c) b else msg_bit data (Suc i))" if "i < 8 * length data" for i
  proof -
    have "a = b \<longleftrightarrow> 7 - a = 7 - b" if "a < 8" "b < 8" for a b :: nat using that by arith
    from this [of "i mod 8" "k mod 8"] have "i mod 8 = k mod 8 \<longleftrightarrow> 7 - i mod 8 = 7 - k mod 8" by simp
    moreover have "i = k \<longleftrightarrow> i div 8 = k div 8 \<and> i mod 8 = k mod 8"
      by (metis div_mult_mod_eq)
    ultimately have "i = k \<longleftrightarrow> i div 8 = k div 8 \<and> 7 - i mod 8 = 7 - k mod 8" by simp
    then show ?thesis
      using k Cons.prems(2,3) that by (auto simp: msg_bit_Suc data'_def nth_list_update bit_set_bit)
  qed
  have len: "length data' = length data" by (simp add: data'_def)
  have "msg_bit d (Suc i) = (if i < Suc k then msg_bit data' (Suc i) else bit (tid ! fst (xs ! (i - Suc k))) (snd (xs ! (i - Suc k))))"
    by (rule Cons.IH) (use Cons.prems bits step len in auto)
  then show ?case
    using bits [of i] Cons.prems(2,4) x by (cases "i = k") (auto simp: nth_Cons' less_Suc_eq)
qed simp

lemma pack_order:
  "k < 48 \<Longrightarrow> target_id_bits ! k = (k div 6, 5 - k mod 6 :: nat)"
proof -
  have "\<forall>k\<in>set [0..<48]. target_id_bits ! k = (k div 6, 5 - k mod 6 :: nat)"
    by code_simp
  then show "k < 48 \<Longrightarrow> ?thesis" by simp
qed

lemma ais_charset_low: "c < 64 \<Longrightarrow> take_bit 6 (ais_charset ! c) = (of_nat c :: u8)"
proof -
  have "\<forall>c\<in>set [0..<64]. take_bit 6 (ais_charset ! c) = (of_nat c :: u8)" by code_simp
  then show "c < 64 \<Longrightarrow> ?thesis" by simp
qed

lemma ident_chars_bit:
  assumes "length m = 7" "i < 8" "b < 6"
  shows "bit (ident_chars m ! i) b \<longleftrightarrow> msg_bit m (14 + 6 * i - b)"
proof -
  let ?c = "getbits m (9 + 6 * i) (14 + 6 * i)"
  have c: "unat ?c < 64" using unat_getbits_less [of "9 + 6 * i" "14 + 6 * i" m] by simp
  have "bit (ident_chars m ! i) b \<longleftrightarrow> bit (take_bit 6 (ais_charset ! unat ?c)) b"
    using assms by (simp add: ident_chars_def bit_take_bit_iff)
  also have "\<dots> \<longleftrightarrow> bit ?c b"
    unfolding ais_charset_low [OF c] using assms(3) by (simp add: bit_simps)
  also have "\<dots> \<longleftrightarrow> msg_bit m (14 + 6 * i - b)"
    using assms(3) by (subst bit_getbits) auto
  finally show ?thesis .
qed

text \<open>
  Round trip: the identification of a Comm-B BDS 2,0 reply is sent as it was received. The decoder
  turns the six-bit codes of the message into characters, the ASTERIX setter turns characters into
  six-bit codes; one undoes the other for every message.
\<close>

theorem target_id_roundtrip:
  assumes "length m = 7"
  shows "pack_target_id (ident_chars m) = tl m"
proof -
  let ?d = "pack_target_id (ident_chars m)"
  obtain st where st: "fold (pack_bit (ident_chars m)) target_id_bits (replicate 6 0, 0, 7) = (?d, st)"
    unfolding pack_target_id_def by (metis prod.collapse)
  have "length target_id_bits = 48" by code_simp
  then have d: "msg_bit ?d (Suc k) = msg_bit m (k + 9)" if "k < 48" for k
  proof -
    have e: "14 + 6 * (k div 6) - (5 - k mod 6) = k + 9"
    proof -
      have "k mod 6 < 6" "6 * (k div 6) + k mod 6 = k" by simp_all
      then show ?thesis by arith
    qed
    have "msg_bit ?d (Suc k) = bit (ident_chars m ! (k div 6)) (5 - k mod 6)"
      using pack_bits [of "ident_chars m" target_id_bits "replicate 6 0" 0 ?d st k] st \<open>length target_id_bits = 48\<close> that
      by (simp add: pack_order msg_bit_Suc del: upt_rec_numeral)
    also have "\<dots> = msg_bit m (k + 9)"
      using ident_chars_bit [OF assms, of "k div 6" "5 - k mod 6"] that e by auto
    finally show ?thesis .
  qed
  show ?thesis
  proof (rule nth_equalityI)
    show "length ?d = length (tl m)" using assms by simp
    fix i assume "i < length ?d"
    then have i: "i < 6" by simp
    show "?d ! i = tl m ! i"
    proof (rule bit_word_eqI)
      fix j assume "j < LENGTH(8)"
      then have j: "j < 8" by simp
      then obtain r where r: "j = 7 - r" "r < 8" by (intro that [of "7 - j"]) auto
      define k where "k = 8 * i + r"
      have k: "k < 48" "k div 8 = i" "7 - k mod 8 = j" "(k + 8) div 8 = Suc i" "7 - (k + 8) mod 8 = j"
        using i r by (auto simp: k_def mod_add_eq [symmetric])
      show "bit (?d ! i) j = bit (tl m ! i) j"
        using d [OF k(1)] k assms i msg_bit_Suc [of ?d k] msg_bit_Suc [of m "k + 8"]
        by (simp add: nth_tl add.commute)
    qed
  qed
qed

theorem target_id_roundtrip_witness:
  "pack_target_id (ident_chars [0x20, 0x2C, 0xC3, 0x71, 0xC3, 0x2C, 0xE0]) = [0x2C, 0xC3, 0x71, 0xC3, 0x2C, 0xE0]"
  using target_id_roundtrip [of "[0x20, 0x2C, 0xC3, 0x71, 0xC3, 0x2C, 0xE0]"] by simp

subsection \<open>Coordinates\<close>

lemma fixed_point_value:
  assumes "\<bar>c\<bar> \<le> 180" "1 \<le> n" "n \<le> 30"
  defines "x \<equiv> c * 2 ^ n / 180"
  obtains y where "fixed_point n c = word_of_int (truncate_rat y)" "\<bar>y - (x + 1 / 2)\<bar> \<le> 1 / 2 ^ 22"
    "\<bar>y\<bar> \<le> 2 ^ 30 + 1"
proof -
  have "f32 (f64 (180 / 2 ^ n)) = 180 / 2 ^ n"
  proof -
    have "fits 53 (of_int 180 / 2 ^ n)" "fits 24 (of_int 180 / 2 ^ n)" by (rule fits_scaled, simp)+
    then show ?thesis by (simp only: of_int_numeral f32_exact f64_exact)
  qed
  then have v: "fixed_point n c = word_of_int (truncate_rat (f64 (1 / 2 + f64 x)))"
    unfolding fixed_point_def Let_def x_def by (simp only: divide_divide_eq_right)
  have x: "\<bar>x\<bar> \<le> 2 ^ 30"
  proof -
    have "\<bar>x\<bar> = \<bar>c\<bar> / 180 * 2 ^ n" by (simp add: x_def abs_mult)
    also have "\<dots> \<le> 1 * 2 ^ 30" using assms(1,3) by (intro mult_mono power_increasing) auto
    finally show ?thesis by simp
  qed
  have a: "\<bar>f64 x - x\<bar> \<le> 1 / 2 ^ 23"
  proof -
    have "\<bar>x\<bar> < 2 ^ 31" using x by simp
    from f64_error [OF this] show ?thesis by (simp add: power_int_def power_one_over)
  qed
  moreover have "(1 :: rat) / 2 ^ 23 \<le> 1" by simp
  ultimately have b: "\<bar>1 / 2 + f64 x\<bar> < 2 ^ 31" using x unfolding abs_le_iff abs_less_iff by simp
  have c: "\<bar>f64 (1 / 2 + f64 x) - (1 / 2 + f64 x)\<bar> \<le> 1 / 2 ^ 23"
    using f64_error [OF b] by (simp add: power_int_def power_one_over)
  have gen: "\<bar>z - (x + 1 / 2)\<bar> \<le> 2 * e \<and> \<bar>z\<bar> \<le> K + 1"
    if "\<bar>z - (1 / 2 + w)\<bar> \<le> e" "\<bar>w - x\<bar> \<le> e" "\<bar>x\<bar> \<le> K" "e \<le> 1 / 4" for z w x e K :: rat
    using that unfolding abs_le_iff by (intro conjI; linarith)
  show ?thesis
    using gen [OF c a x] by (intro that [OF v]) simp_all
qed

text \<open>
  C36. Rounding of the coordinates. Half a unit of the fixed-point format is added before a conversion
  that truncates towards zero. So a positive coordinate is sent within half a unit, a coordinate
  less than one unit below zero is sent as zero, and below that the value sent is between half a
  unit and one and a half units too large; each up to the rounding of the \<^verbatim>\<open>double\<close> operations, which is at
  most 2 to the power of -22 units.
\<close>

theorem fixed_point_rounding:
  assumes "\<bar>c\<bar> \<le> 180" "1 \<le> n" "n \<le> 30"
  shows "(0 \<le> c \<longrightarrow> \<bar>of_int (sint (fixed_point n c)) - c * 2 ^ n / 180\<bar> \<le> 1 / 2 + 1 / 2 ^ 22)
    \<and> (- 180 / 2 ^ n < c \<and> c < 0 \<longrightarrow> fixed_point n c = 0)
    \<and> (c \<le> - 180 / 2 ^ n \<longrightarrow> 1 / 2 - 1 / 2 ^ 22 \<le> of_int (sint (fixed_point n c)) - c * 2 ^ n / 180
          \<and> of_int (sint (fixed_point n c)) - c * 2 ^ n / 180 \<le> 3 / 2 + 1 / 2 ^ 22)"
proof -
  obtain y where y: "fixed_point n c = word_of_int (truncate_rat y)" "\<bar>y - (c * 2 ^ n / 180 + 1 / 2)\<bar> \<le> 1 / 2 ^ 22"
    "\<bar>y\<bar> \<le> 2 ^ 30 + 1" by (rule fixed_point_value [OF assms])
  have "- (2 ^ 31) \<le> truncate_rat y \<and> truncate_rat y < 2 ^ 31"
    using y(3) unfolding truncate_rat_def by (auto; linarith)
  then have v: "sint (fixed_point n c) = truncate_rat y"
    unfolding y(1) by (simp add: sint_sbintrunc' signed_take_bit_int_eq_self)
  have up: "0 \<le> y \<Longrightarrow> of_int (truncate_rat y) \<le> y \<and> y < of_int (truncate_rat y) + 1"
    and down: "y < 0 \<Longrightarrow> y \<le> of_int (truncate_rat y) \<and> of_int (truncate_rat y) < y + 1"
    unfolding truncate_rat_def by (auto; linarith)+
  show ?thesis
  proof (intro conjI impI)
    assume "0 \<le> c"
    then have "0 \<le> c * 2 ^ n / 180" by simp
    with up y(2) show "\<bar>of_int (sint (fixed_point n c)) - c * 2 ^ n / 180\<bar> \<le> 1 / 2 + 1 / 2 ^ 22"
      unfolding v abs_le_iff by (auto; linarith)
  next
    assume "- 180 / 2 ^ n < c \<and> c < 0"
    then have "- 1 < c * 2 ^ n / 180" "c * 2 ^ n / 180 < 0" by (simp_all add: field_simps mult_neg_pos)
    moreover have "(1 :: rat) / 2 ^ 22 < 1 / 4" by simp
    ultimately have "- 1 < y" "y < 1" using y(2) unfolding abs_le_iff by linarith+
    then have "truncate_rat y = 0" unfolding truncate_rat_def by (auto simp: floor_eq_iff ceiling_eq_iff)
    then show "fixed_point n c = 0" using y(1) by simp
  next
    assume "c \<le> - 180 / 2 ^ n"
    then have "c * 2 ^ n / 180 \<le> - 1" by (simp add: field_simps)
    moreover have "y - (c * 2 ^ n / 180 + 1 / 2) \<le> 1 / 2 ^ 22" using y(2) unfolding abs_le_iff by simp
    moreover have "(1 :: rat) / 2 ^ 22 < 1 / 4" by simp
    ultimately have "y < 0" by linarith
    from down [OF this] y(2) show "1 / 2 - 1 / 2 ^ 22 \<le> of_int (sint (fixed_point n c)) - c * 2 ^ n / 180"
      "of_int (sint (fixed_point n c)) - c * 2 ^ n / 180 \<le> 3 / 2 + 1 / 2 ^ 22"
      unfolding v abs_le_iff by linarith+
  qed
qed

theorem fixed_point_rounding_witness:
  "\<bar>of_int (sint (fixed_point 23 45)) - 45 * 2 ^ 23 / 180\<bar> \<le> (1 / 2 + 1 / 2 ^ 22 :: rat)
    \<and> fixed_point 23 (- 1 / 2 ^ 17) = 0
    \<and> 1 / 2 - 1 / 2 ^ 22 \<le> (of_int (sint (fixed_point 30 (- 74))) - (- 74) * 2 ^ 30 / 180 :: rat)"
  using fixed_point_rounding [of 45 23] fixed_point_rounding [of "- 1 / 2 ^ 17" 23] fixed_point_rounding [of "- 74" 30] by simp

end
