(* ===== verification/ServerLink.thy ===== *)
theory ServerLink
  imports Prelude
begin

text \<open>
  The link to the feeder's server: \<^verbatim>\<open>net_send_packet\<close>, \<^verbatim>\<open>net_thread_WaitCmds\<close> and
  \<^verbatim>\<open>net_force_disconnect\<close> of \<^verbatim>\<open>src/airnav_net.c\<close> and \<^verbatim>\<open>proccess_packet\<close> of
  \<^verbatim>\<open>src/airnav_proc_packets.c\<close>. A packet travels as two start bytes, a two-byte size, a type byte and
  a payload; the receiver takes one byte at a time. The socket is the list of results of
  \<^verbatim>\<open>send\<close>, and the bytes the kernel accepted; an access outside the buffer is the value \<open>None\<close>.
\<close>

subsection \<open>Sending\<close>

definition TXSTART0 :: u8 where "TXSTART0 = 0x7E"
definition TXSTART1 :: u8 where "TXSTART1 = 0x23"

datatype message_type =
    AUTH_FEEDER | SERVER_REPLY_STATUS | PINGPONG | FLIGHT_PACKET | SYSINFO | CLIENT_STATS | SK_REQUEST | CTR_CMD

definition message_code :: "message_type \<Rightarrow> u8" where
  "message_code t = (case t of AUTH_FEEDER \<Rightarrow> 1 | SERVER_REPLY_STATUS \<Rightarrow> 2 | PINGPONG \<Rightarrow> 3 | FLIGHT_PACKET \<Rightarrow> 4
     | SYSINFO \<Rightarrow> 5 | CLIENT_STATS \<Rightarrow> 6 | SK_REQUEST \<Rightarrow> 7 | CTR_CMD \<Rightarrow> 8)"

record prepared_packet =
  pp_buf :: "u8 list"
  pp_len :: u32
  pp_type :: message_type

record server_link =
  airnav_socket :: int
  airnav_com_inited :: int
  global_data_sent :: u64
  packets_total :: int
  packets_last :: int
  wire :: "u8 list"

definition net_force_disconnect :: "server_link \<Rightarrow> server_link" where
  "net_force_disconnect s = s\<lparr>airnav_socket := -1, airnav_com_inited := 0\<rparr>"

text \<open>One call of \<^verbatim>\<open>send\<close> that returns \<open>n\<close>: the kernel takes the first \<open>n\<close> bytes, or refuses.\<close>

definition send_bytes :: "u8 list \<Rightarrow> int \<Rightarrow> server_link \<Rightarrow> server_link" where
  "send_bytes bytes n s = (if n > -1 then s\<lparr>wire := wire s @ take (nat n) bytes\<rparr> else s)"

text \<open>
  The four pieces of a packet, each with the result of its \<^verbatim>\<open>send\<close>. The first failure closes the
  connection; a piece that was taken in part counts as sent.
\<close>

definition packet_size_bytes :: "u32 \<Rightarrow> u8 list" where
  "packet_size_bytes len = [ucast (drop_bit 8 (len + 1)), ucast ((len + 1) AND 0x00ff)]"

definition packet_pieces :: "prepared_packet \<Rightarrow> u8 list list" where
  "packet_pieces p =
     [[TXSTART0, TXSTART1], packet_size_bytes (pp_len p), [message_code (pp_type p)], take (unat (pp_len p)) (pp_buf p)]"

fun send_pieces :: "(u8 list \<times> int) list \<Rightarrow> int \<Rightarrow> server_link \<Rightarrow> int option \<times> server_link" where
  "send_pieces [] total_sent s = (Some total_sent, s)"
| "send_pieces ((bytes, sent_size) # ps) total_sent s =
     (if sent_size > -1 then send_pieces ps (total_sent + sent_size) (send_bytes bytes sent_size s)
      else (None, net_force_disconnect s))"

definition net_send_packet :: "int list \<Rightarrow> prepared_packet \<Rightarrow> server_link \<Rightarrow> (int \<times> server_link) option" where
  "net_send_packet results packet s = do {
     c_assert (unat (pp_len packet) \<le> length (pp_buf packet));
     Some (case send_pieces (zip (packet_pieces packet) results) 0 s of
        (None, s) \<Rightarrow> (-1, s)
      | (Some total_sent, s) \<Rightarrow>
          (1, s\<lparr>global_data_sent := global_data_sent s + word_of_int total_sent,
                packets_total := packets_total s + 1, packets_last := packets_last s + 1\<rparr>)) }"

subsection \<open>Receiving\<close>

definition BUFFLEN :: nat where "BUFFLEN = 4096"

record receiver =
  rx_buf :: "u8 list"
  buf_idx :: nat
  packet_size :: "16 word"
  bytes_garbage :: u64
  data_received :: u64

definition rx_start :: receiver where
  "rx_start = \<lparr>rx_buf = replicate BUFFLEN 0, buf_idx = 0, packet_size = 0, bytes_garbage = 0, data_received = 0\<rparr>"

definition clear_buffer :: "receiver \<Rightarrow> receiver" where
  "clear_buffer r = r\<lparr>rx_buf := replicate BUFFLEN 0, buf_idx := 0\<rparr>"

text \<open>The size field, after the fourth byte. Only the low 16 bits of the two bytes matter.\<close>

definition read_size :: "receiver \<Rightarrow> receiver option" where
  "read_size r =
     (if buf_idx r = 4 then do {
        hi \<leftarrow> arr_get (rx_buf r) (buf_idx r - 2);
        lo \<leftarrow> arr_get (rx_buf r) (buf_idx r - 1);
        let temp_size = (push_bit 8 (ucast hi) OR ucast lo :: 16 word);
        if temp_size \<le> 2 then
          Some (clear_buffer (r\<lparr>bytes_garbage := bytes_garbage r + of_nat (buf_idx r) - 1\<rparr>))
        else Some (r\<lparr>packet_size := temp_size\<rparr>) }
      else Some r)"

text \<open>The packet is complete: it is handed over and the buffer starts afresh.\<close>

definition take_packet :: "receiver \<Rightarrow> (receiver \<times> u8 list option) option" where
  "take_packet r =
     (if buf_idx r > 6 \<and> int (unat (packet_size r)) = int (buf_idx r) - 4 then do {
        c_assert (unat (packet_size r) + 4 \<le> length (rx_buf r));
        Some ((clear_buffer r)\<lparr>packet_size := 0\<rparr>, Some (take (unat (packet_size r) + 4) (rx_buf r))) }
      else Some (r, None))"

text \<open>Outside a packet: look for the start bytes at the end of the buffer.\<close>

definition search_start :: "receiver \<Rightarrow> receiver option" where
  "search_start r = do {
     c1 \<leftarrow> arr_get (rx_buf r) (buf_idx r - 1);
     c0 \<leftarrow> arr_get (rx_buf r) (buf_idx r - 2);
     if c1 = TXSTART1 \<and> c0 = TXSTART0 then do {
       let r = (if buf_idx r - 2 > 0 then r\<lparr>bytes_garbage := bytes_garbage r + of_nat (buf_idx r - 2)\<rparr> else r);
       let r = clear_buffer r;
       Some (r\<lparr>buf_idx := 2, rx_buf := (rx_buf r)[0 := TXSTART0, 1 := TXSTART1]\<rparr>) }
     else Some r }"

definition store_byte :: "u8 \<Rightarrow> receiver \<Rightarrow> (receiver \<times> u8 list option) option" where
  "store_byte c r = do {
     buf \<leftarrow> arr_set (rx_buf r) (buf_idx r) c;
     let r = r\<lparr>rx_buf := buf, buf_idx := buf_idx r + 1\<rparr>;
     if buf_idx r \<ge> 2 then do {
       b0 \<leftarrow> arr_get (rx_buf r) 0;
       b1 \<leftarrow> arr_get (rx_buf r) 1;
       if b0 = TXSTART0 \<and> b1 = TXSTART1 then read_size r \<bind> take_packet
       else map_option (\<lambda>r. (r, None)) (search_start r) }
     else Some (r, None) }"

text \<open>
  A pass of the loop with data on the socket: the first call of \<^verbatim>\<open>recv\<close> only looks, and \<open>input\<close> is
  what the second one returns, unless the buffer is full, when it is not made. A full buffer or a
  failing \<^verbatim>\<open>recv\<close> clears the state; the flag says that the byte was taken from the socket.
\<close>

definition receive_pass :: "u8 option \<Rightarrow> receiver \<Rightarrow> (receiver \<times> bool \<times> u8 list option) option" where
  "receive_pass input r =
     (let r = r\<lparr>data_received := data_received r + 1\<rparr>
      in case (if buf_idx r < BUFFLEN then input else None) of
           Some c \<Rightarrow> map_option (\<lambda>(r, p). (r, True, p)) (store_byte c r)
         | None \<Rightarrow> Some ((clear_buffer r)\<lparr>packet_size := 0\<rparr>, False, None))"

text \<open>A stream of bytes: a byte that was not taken is offered again to the cleared buffer.\<close>

definition receive_byte :: "u8 \<Rightarrow> receiver \<Rightarrow> (receiver \<times> u8 list option) option" where
  "receive_byte c r = do {
     (r, taken, p) \<leftarrow> receive_pass (Some c) r;
     if taken then Some (r, p)
     else map_option (\<lambda>(r, _, p). (r, p)) (receive_pass (Some c) r) }"

fun receive_stream :: "u8 list \<Rightarrow> receiver \<Rightarrow> (receiver \<times> u8 list list) option" where
  "receive_stream [] r = Some (r, [])"
| "receive_stream (c # cs) r = do {
     (r, p) \<leftarrow> receive_byte c r;
     (r, ps) \<leftarrow> receive_stream cs r;
     Some (r, (case p of None \<Rightarrow> [] | Some p \<Rightarrow> [p]) @ ps) }"

text \<open>What becomes of a packet of \<open>p_size\<close> bytes: its type selects the handler of the rest.\<close>

datatype dispatched =
    ServerReplyPacket "u8 list"
  | CtrCmdPacket "u8 list"
  | NotIdentified

definition proccess_packet :: "u8 list \<Rightarrow> 16 word \<Rightarrow> dispatched option" where
  "proccess_packet packet p_size = do {
     type \<leftarrow> arr_get packet 4;
     c_assert (5 \<le> unat p_size \<and> unat p_size \<le> length packet);
     let data_buf = drop 5 (take (unat p_size) packet);
     Some (if type = message_code SERVER_REPLY_STATUS then ServerReplyPacket data_buf
           else if type = message_code CTR_CMD then CtrCmdPacket data_buf
           else NotIdentified) }"

end
