(* ===== verification/Feeder.thy ===== *)
theory Feeder
  imports Asterix ServerLink
begin

text \<open>
  The feeder: \<^verbatim>\<open>airnav_prepareData\<close> and \<^verbatim>\<open>airnav_threadSendData\<close> of \<^verbatim>\<open>src/airnav_main.c\<close>,
  \<^verbatim>\<open>net_preparePacket_v2\<close> of \<^verbatim>\<open>src/airnav_net.c\<close>, \<^verbatim>\<open>sendMultipleFlights\<close> of
  \<^verbatim>\<open>src/airnav_proc_packets.c\<close>, \<^verbatim>\<open>mlat_check_is_mlat\<close> of \<^verbatim>\<open>src/airnav_mlat.c\<close> and
  \<^verbatim>\<open>uat_store978data\<close> of \<^verbatim>\<open>src/airnav_uat.c\<close>. Every three seconds each tracked aircraft is turned
  into a report that holds what has changed or has not been reported for a while. The clocks, the
  C library's functions, the magnetic declination and the packing of protobuf messages are arguments.
\<close>

subsection \<open>Data\<close>

text \<open>
  A value \<^verbatim>\<open>rpisrv_emitted_x\<close> with its \<^verbatim>\<open>rpisrv_emitted_x_time\<close>, and the part of
  \<^verbatim>\<open>struct airnav_emitted_t\<close> that is in use.
\<close>

record 'a emitted_item =
  em_value :: 'a
  em_time :: int

record emitted =
  em_altitude_baro :: "int emitted_item"
  em_altitude_geom :: "int emitted_item"
  em_baro_rate :: "int emitted_item"
  em_geom_rate :: "int emitted_item"
  em_mag_heading :: "rat emitted_item"
  em_gs :: "rat emitted_item"
  em_ias :: "u32 emitted_item"
  em_nav_altitude_mcp :: "u32 emitted_item"
  em_nav_altitude_fms :: "u32 emitted_item"
  em_nav_modes :: "u32 emitted_item"
  em_nav_qnh :: "rat emitted_item"
  em_callsign :: "u8 list emitted_item"
  em_squawk :: "u32 emitted_item"
  em_pos_nic :: "u32 emitted_item"
  em_nac_p :: "u32 emitted_item"
  em_nac_v :: "u32 emitted_item"
  em_sil :: "u32 emitted_item"
  em_nic_baro :: "u32 emitted_item"
  em_airborne :: "int emitted_item"
  em_wind :: "(16 word \<times> 16 word) emitted_item"
  em_temperature :: "16 word emitted_item"

text \<open>
  \<^verbatim>\<open>struct p_data\<close>: a field with its \<^verbatim>\<open>_set\<close> flag is an option. Fields that are neither
  written nor read by the modelled code are left out.
\<close>

record nav_flags =
  pn_autopilot :: bool
  pn_vnav :: bool
  pn_alt_hold :: bool
  pn_aproach :: bool
  pn_lnav :: bool
  pn_tcas :: bool

record p_data =
  pd_cmd :: int
  pd_timestp :: u64
  pd_modes_addr :: "u32 option"
  pd_callsign :: "u8 list option"
  pd_altitude :: "int option"
  pd_altitude_geo :: "int option"
  pd_position :: "(rat \<times> rat) option"
  pd_heading :: "16 word option"
  pd_gnd_speed :: "16 word option"
  pd_ias :: "16 word option"
  pd_vert_rate :: "16 word option"
  pd_squawk :: "16 word option"
  pd_airborne :: "bool option"
  pd_extra_flags :: "u32 option"
  pd_is_mlat :: bool
  pd_is_978 :: bool
  pd_nav_altitude_fms :: "u32 option"
  pd_nav_altitude_mcp :: "u32 option"
  pd_nav_qnh :: "int option"
  pd_nav_heading :: "int option"
  pd_nav_modes :: nav_flags
  pd_wind :: "(16 word \<times> 16 word) option"
  pd_temperature :: "int option"
  pd_pos_nic :: "u32 option"
  pd_nic_baro :: "u8 option"
  pd_nac_p :: "u32 option"
  pd_nac_v :: "u32 option"
  pd_sil :: "(u32 \<times> sil_type_t) option"

text \<open>
  A new report. The function does not initialise \<^verbatim>\<open>altitude_geo_set\<close> and \<^verbatim>\<open>altitude_geo\<close>, whose
  contents are the argument, and it sets the autopilot flag.
\<close>

definition net_preparePacket_v2 :: "int option \<Rightarrow> p_data" where
  "net_preparePacket_v2 junk_altitude_geo = \<lparr>pd_cmd = 0, pd_timestp = 0, pd_modes_addr = None, pd_callsign = None,
     pd_altitude = None, pd_altitude_geo = junk_altitude_geo, pd_position = None, pd_heading = None,
     pd_gnd_speed = None, pd_ias = None, pd_vert_rate = None, pd_squawk = None, pd_airborne = None,
     pd_extra_flags = None, pd_is_mlat = False, pd_is_978 = False, pd_nav_altitude_fms = None,
     pd_nav_altitude_mcp = None, pd_nav_qnh = None, pd_nav_heading = None,
     pd_nav_modes = \<lparr>pn_autopilot = True, pn_vnav = False, pn_alt_hold = False, pn_aproach = False,
        pn_lnav = False, pn_tcas = False\<rparr>,
     pd_wind = None, pd_temperature = None, pd_pos_nic = None, pd_nic_baro = None, pd_nac_p = None,
     pd_nac_v = None, pd_sil = None\<rparr>"

definition AIRNAV_MAX_ITEM_AGE :: u64 where "AIRNAV_MAX_ITEM_AGE = 3000"
definition MAX_TIME_FIELD_ALTITUDE :: int where "MAX_TIME_FIELD_ALTITUDE = 60"
definition MAX_TIME_FIELD_MAG_HEADING :: int where "MAX_TIME_FIELD_MAG_HEADING = 60"
definition MAX_TIME_FIELD_GS :: int where "MAX_TIME_FIELD_GS = 60"
definition MAX_TIME_FIELD_GEOM_RATE :: int where "MAX_TIME_FIELD_GEOM_RATE = 60"
definition MAX_TIME_FIELD_BARO_RATE :: int where "MAX_TIME_FIELD_BARO_RATE = 60"
definition MAX_TIME_FIELD_SQUAWKE :: int where "MAX_TIME_FIELD_SQUAWKE = 120"
definition MAX_TIME_FIELD_IAS :: int where "MAX_TIME_FIELD_IAS = 60"
definition MAX_TIME_FIELD_CALLSIGN :: int where "MAX_TIME_FIELD_CALLSIGN = 60"
definition MAX_TIME_FIELD_NAV_MODES :: int where "MAX_TIME_FIELD_NAV_MODES = 180"
definition MAX_TIME_FIELD_AIRBORNE :: int where "MAX_TIME_FIELD_AIRBORNE = 180"
definition MAX_TIME_FIELD_WIND :: int where "MAX_TIME_FIELD_WIND = 180"
definition MAX_TIME_FIELD_TEMPERATURE :: int where "MAX_TIME_FIELD_TEMPERATURE = 180"
definition MAX_TIME_FIELD_NAV_QNH :: int where "MAX_TIME_FIELD_NAV_QNH = 180"
definition MAX_TIME_FIELD_NAV_ALT_FMS :: int where "MAX_TIME_FIELD_NAV_ALT_FMS = 180"
definition MAX_TIME_FIELD_NAV_ALT_MCP :: int where "MAX_TIME_FIELD_NAV_ALT_MCP = 180"
definition MAX_TIME_FIELD_POS_NIC :: int where "MAX_TIME_FIELD_POS_NIC = 180"
definition MAX_TIME_FIELD_NAC_P :: int where "MAX_TIME_FIELD_NAC_P = 180"
definition MAX_TIME_FIELD_NAC_V :: int where "MAX_TIME_FIELD_NAC_V = 180"
definition MAX_TIME_FIELD_NIC_BARO :: int where "MAX_TIME_FIELD_NIC_BARO = 180"
definition MAX_TIME_FIELD_SIL :: int where "MAX_TIME_FIELD_SIL = 180"

text \<open>A new aircraft has emitted nothing: the structure is zeroed.\<close>

definition emitted_start :: emitted where
  "emitted_start = (let z = \<lparr>em_value = 0, em_time = 0\<rparr>; u = \<lparr>em_value = 0, em_time = 0\<rparr>; q = \<lparr>em_value = 0, em_time = 0\<rparr>
     in \<lparr>em_altitude_baro = z, em_altitude_geom = z, em_baro_rate = z, em_geom_rate = z, em_mag_heading = q,
         em_gs = q, em_ias = u, em_nav_altitude_mcp = u, em_nav_altitude_fms = u, em_nav_modes = u, em_nav_qnh = q,
         em_callsign = \<lparr>em_value = [], em_time = 0\<rparr>, em_squawk = u, em_pos_nic = u, em_nac_p = u, em_nac_v = u,
         em_sil = u, em_nic_baro = u, em_airborne = z, em_wind = \<lparr>em_value = (0, 0), em_time = 0\<rparr>,
         em_temperature = \<lparr>em_value = 0, em_time = 0\<rparr>\<rparr>)"

text \<open>
  What the code reads besides the aircraft: \<^verbatim>\<open>mstime()\<close>, \<^verbatim>\<open>tv.tv_sec\<close> and \<^verbatim>\<open>messageNow()\<close>, the
  configuration, and, when ASTERIX is enabled and its specification loaded, the item table.
\<close>

record weather_libm =
  w_pow :: "rat \<Rightarrow> rat \<Rightarrow> rat"
  w_exp :: "rat \<Rightarrow> rat"
  w_sin :: "rat \<Rightarrow> rat"
  w_cos :: "rat \<Rightarrow> rat"
  w_atan :: "rat \<Rightarrow> rat"
  w_declination :: "rat \<Rightarrow> rat \<Rightarrow> rat \<Rightarrow> rat"

record asterix_config =
  ax_junk :: junk
  ax_items :: "item_def list"
  ax_sac :: u32
  ax_sic :: u32
  ax_sid :: "u32 option"

record feeder_env =
  fe_now :: u64
  fe_tv_sec :: int
  fe_messageNow :: u64
  fe_use_gnss :: bool
  fe_asterix :: "asterix_config option"
  fe_libm :: weather_libm
  fe_junk_geo :: "int option"

text \<open>The work on one aircraft: what was emitted before, the two reports, \<^verbatim>\<open>send\<close> and the ASTERIX packet.\<close>

record prep =
  em :: emitted
  acf :: p_data
  acf2 :: p_data
  send_it :: bool
  ast :: "cat21_packet option"

definition set_both :: "(p_data \<Rightarrow> p_data) \<Rightarrow> prep \<Rightarrow> prep" where
  "set_both f p = p\<lparr>acf := f (acf p), acf2 := f (acf2 p), send_it := True\<rparr>"

definition is_valid :: "feeder_env \<Rightarrow> aircraft \<Rightarrow> item \<Rightarrow> bool" where
  "is_valid E b i = trackDataValid (fe_messageNow E) (valid b i)"

definition is_recent :: "feeder_env \<Rightarrow> aircraft \<Rightarrow> item \<Rightarrow> bool" where
  "is_recent E b i \<longleftrightarrow> trackDataAge (fe_messageNow E) (valid b i) \<le> AIRNAV_MAX_ITEM_AGE"

text \<open>
  The test before a field is reported: the interval has passed, the value has changed, or the
  report is forced. The result is the new value of the emitted item.
\<close>

definition throttle :: "feeder_env \<Rightarrow> int \<Rightarrow> bool \<Rightarrow> 'a \<Rightarrow> 'a emitted_item \<Rightarrow> 'a emitted_item option" where
  "throttle E max_time force v e =
     (if fe_tv_sec E - em_time e \<ge> max_time \<or> em_value e \<noteq> v \<or> force
      then Some \<lparr>em_value = v, em_time = fe_tv_sec E\<rparr> else None)"

text \<open>A setter of the ASTERIX packet, called when ASTERIX is in use; its result is ignored.\<close>

definition asterix_do :: "feeder_env \<Rightarrow> (junk \<Rightarrow> item_def list \<Rightarrow> setter) \<Rightarrow> prep \<Rightarrow> prep option" where
  "asterix_do E f p =
     (case fe_asterix E of None \<Rightarrow> Some p
      | Some c \<Rightarrow> map_option (\<lambda>(result, packet). p\<lparr>ast := packet\<rparr>) (f (ax_junk c) (ax_items c) (ast p)))"

subsection \<open>Address and forced reports\<close>

definition start_asterix :: "feeder_env \<Rightarrow> prep \<Rightarrow> prep option" where
  "start_asterix E p =
     (case fe_asterix E of None \<Rightarrow> Some p
      | Some c \<Rightarrow> do {
          let p = p\<lparr>ast := Some (prepareAsterixPacket_cat21 MAX_CAT21_FSPEC_BYTES MAX_CAT21_ITEMS)\<rparr>;
          p \<leftarrow> asterix_do E (\<lambda>junk toc. cat021_setDataSourceSACSIC junk toc (ax_sac c) (ax_sic c)) p;
          case ax_sid c of None \<Rightarrow> Some p
          | Some sid \<Rightarrow> asterix_do E (\<lambda>junk toc. cat021_setServiceId junk toc sid) p })"

definition non_icao_aircraft :: "aircraft \<Rightarrow> bool" where
  "non_icao_aircraft b \<longleftrightarrow> ac_addr b AND MODES_NON_ICAO_ADDRESS \<noteq> 0"

text \<open>
  The address. With ASTERIX disabled the packet is a null pointer, which the setter refuses.
\<close>

definition report_address :: "feeder_env \<Rightarrow> aircraft \<Rightarrow> prep \<Rightarrow> prep option" where
  "report_address E b p =
     (if non_icao_aircraft b then Some p
      else asterix_do E (\<lambda>junk toc. cat021_setTargetAddress junk toc (ucast (drop_bit 16 (ac_addr b)))
               (ucast (drop_bit 8 (ac_addr b))) (ucast (ac_addr b AND 0xff)))
             (p\<lparr>acf := (acf p)\<lparr>pd_modes_addr := Some (ac_addr b)\<rparr>, acf2 := (acf2 p)\<lparr>pd_modes_addr := Some (ac_addr b)\<rparr>\<rparr>))"

definition below :: "feeder_env \<Rightarrow> aircraft \<Rightarrow> int \<Rightarrow> bool" where
  "below E b limit =
     (if is_valid E b V_altitude_geom \<and> ac_altitude_geom b \<le> limit then True
      else is_valid E b V_altitude_baro \<and> ac_altitude_baro b \<le> limit)"

definition on_ground :: "feeder_env \<Rightarrow> aircraft \<Rightarrow> bool" where
  "on_ground E b \<longleftrightarrow> is_valid E b V_airground \<and> ac_airground b = AG_GROUND
     \<and> v_source (valid b V_airground) \<ge> SOURCE_MODE_S_CHECKED"

definition force_send :: "feeder_env \<Rightarrow> aircraft \<Rightarrow> bool" where
  "force_send E b \<longleftrightarrow> \<not> non_icao_aircraft b \<and>
     (is_valid E b V_gs \<and> ac_gs b \<le> 50
      \<or> below E b 3000
      \<or> on_ground E b
      \<or> (if is_valid E b V_geom_rate \<and> ac_geom_rate b \<ge> 1000 then below E b 10000
         else is_valid E b V_baro_rate \<and> ac_baro_rate b \<ge> 1000 \<and> below E b 10000))"


subsection \<open>The fields of a report\<close>

text \<open>Strings up to their terminating zero.\<close>

definition string_until_nul :: "u8 list \<Rightarrow> u8 list" where
  "string_until_nul = takeWhile (\<lambda>c. c \<noteq> 0)"

definition report_callsign :: "feeder_env \<Rightarrow> aircraft \<Rightarrow> prep \<Rightarrow> prep option" where
  "report_callsign E b p =
     (let callsign = string_until_nul (ac_callsign b)
      in if is_recent E b V_callsign then
           case throttle E MAX_TIME_FIELD_CALLSIGN (force_send E b) callsign (em_callsign (em p)) of
             None \<Rightarrow> Some p
           | Some e \<Rightarrow>
               asterix_do E (\<lambda>junk toc. cat021_setTargetId junk toc (ac_callsign b))
                 (p\<lparr>em := (em p)\<lparr>em_callsign := e\<rparr>, acf := (acf p)\<lparr>pd_callsign := Some callsign\<rparr>,
                    acf2 := (acf2 p)\<lparr>pd_callsign := Some callsign\<rparr>\<rparr>)
         else Some p)"

definition report_airborne :: "feeder_env \<Rightarrow> aircraft \<Rightarrow> int \<Rightarrow> prep \<Rightarrow> prep" where
  "report_airborne E b airborne p =
     (case throttle E MAX_TIME_FIELD_AIRBORNE (force_send E b) airborne (em_airborne (em p)) of
        None \<Rightarrow> p
      | Some e \<Rightarrow> p\<lparr>em := (em p)\<lparr>em_airborne := e\<rparr>, acf := (acf p)\<lparr>pd_airborne := Some (airborne = 1)\<rparr>,
                    acf2 := (acf2 p)\<lparr>pd_airborne := Some (airborne = 1)\<rparr>\<rparr>)"

definition report_ground :: "feeder_env \<Rightarrow> aircraft \<Rightarrow> prep \<Rightarrow> prep" where
  "report_ground E b p =
     (case throttle E MAX_TIME_FIELD_AIRBORNE (force_send E b) 0 (em_airborne (em p)) of
        None \<Rightarrow> p
      | Some e \<Rightarrow> set_both (pd_airborne_update (\<lambda>_. Some False)) (p\<lparr>em := (em p)\<lparr>em_airborne := e\<rparr>\<rparr>))"

definition report_altitude_geom :: "feeder_env \<Rightarrow> aircraft \<Rightarrow> prep \<Rightarrow> prep option" where
  "report_altitude_geom E b p =
     (if fe_use_gnss E \<and> is_valid E b V_altitude_geom \<and> is_recent E b V_altitude_geom then
        let p = (case throttle E MAX_TIME_FIELD_ALTITUDE (force_send E b) (ac_altitude_geom b) (em_altitude_geom (em p)) of
                   None \<Rightarrow> p
                 | Some e \<Rightarrow>
                     let p = p\<lparr>em := (em p)\<lparr>em_altitude_geom := e\<rparr>\<rparr>;
                         p = (if ac_altitude_geom b > 0 then report_airborne E b 1 p else p)
                     in set_both (pd_altitude_geo_update (\<lambda>_. Some (ac_altitude_geom b))) p)
        in asterix_do E (\<lambda>junk toc. cat021_setGeometricHeight junk toc (word_of_int (ac_altitude_geom b sdiv 100))) p
      else Some p)"

definition report_altitude_baro :: "feeder_env \<Rightarrow> aircraft \<Rightarrow> prep \<Rightarrow> prep option" where
  "report_altitude_baro E b p =
     (if is_valid E b V_altitude_baro \<and> is_recent E b V_altitude_baro then
        let p = (case throttle E MAX_TIME_FIELD_ALTITUDE (force_send E b) (ac_altitude_baro b) (em_altitude_baro (em p)) of
                   None \<Rightarrow> p
                 | Some e \<Rightarrow>
                     let p = p\<lparr>em := (em p)\<lparr>em_altitude_baro := e\<rparr>\<rparr>;
                         p = (if ac_altitude_baro b > 0 then report_airborne E b 1 p else p)
                     in set_both (pd_altitude_update (\<lambda>_. Some (ac_altitude_baro b))) p)
        in asterix_do E (\<lambda>junk toc. cat021_setFlightLevel junk toc (ac_altitude_baro b sdiv 100)) p
      else Some p)"

definition report_altitudes :: "feeder_env \<Rightarrow> aircraft \<Rightarrow> prep \<Rightarrow> prep option" where
  "report_altitudes E b p =
     (if on_ground E b then Some (report_ground E b p)
      else report_altitude_geom E b p \<bind> report_altitude_baro E b)"

definition report_position :: "feeder_env \<Rightarrow> aircraft \<Rightarrow> prep \<Rightarrow> prep option" where
  "report_position E b p =
     (if is_recent E b V_position \<and> is_valid E b V_position then
        let p = set_both (pd_position_update (\<lambda>_. Some (ac_lat b, ac_lon b))) p;
            p = (case throttle E MAX_TIME_FIELD_POS_NIC (force_send E b) (pos_nic b) (em_pos_nic (em p)) of
                   None \<Rightarrow> p
                 | Some e \<Rightarrow> p\<lparr>em := (em p)\<lparr>em_pos_nic := e\<rparr>, acf := (acf p)\<lparr>pd_pos_nic := Some (pos_nic b)\<rparr>\<rparr>)
        in asterix_do E (\<lambda>junk toc. cat021_setPosWGS84Precision junk toc (ac_lat b) (ac_lon b)) p
      else Some p)"

text \<open>The heading is stored in tens of degrees; the stored value is updated before the validity is looked at.\<close>

definition report_heading :: "feeder_env \<Rightarrow> aircraft \<Rightarrow> prep \<Rightarrow> prep option" where
  "report_heading E b p =
     (let tens = f32 (ac_mag_heading b / 10)
      in if is_recent E b V_mag_heading then
           let p = (case throttle E MAX_TIME_FIELD_MAG_HEADING False tens (em_mag_heading (em p)) of
                      None \<Rightarrow> p
                    | Some e \<Rightarrow>
                        let p = p\<lparr>em := (em p)\<lparr>em_mag_heading := e\<rparr>\<rparr>
                        in if is_valid E b V_mag_heading then set_both (pd_heading_update (\<lambda>_. Some (to_short tens))) p else p)
           in asterix_do E (\<lambda>junk toc. cat021_setMagneticHeading junk toc (ac_mag_heading b)) p
         else Some p)"

definition report_tas :: "feeder_env \<Rightarrow> aircraft \<Rightarrow> prep \<Rightarrow> prep option" where
  "report_tas E b p =
     (if is_recent E b V_tas \<and> is_valid E b V_tas
      then asterix_do E (\<lambda>junk toc. cat021_setTrueAirSpeed junk toc 0 (ucast (ac_tas b))) p
      else Some p)"

definition report_gs :: "feeder_env \<Rightarrow> aircraft \<Rightarrow> prep \<Rightarrow> prep" where
  "report_gs E b p =
     (let tens = f32 (ac_gs b / 10)
      in if is_recent E b V_gs then
           case throttle E MAX_TIME_FIELD_GS (force_send E b) tens (em_gs (em p)) of
             None \<Rightarrow> p
           | Some e \<Rightarrow>
               let p = p\<lparr>em := (em p)\<lparr>em_gs := e\<rparr>\<rparr>
               in if is_valid E b V_gs then set_both (pd_gnd_speed_update (\<lambda>_. Some (to_short tens))) p else p
         else p)"

definition report_geom_rate :: "feeder_env \<Rightarrow> aircraft \<Rightarrow> prep \<Rightarrow> prep" where
  "report_geom_rate E b p =
     (let tens = ac_geom_rate b sdiv 10
      in if is_recent E b V_geom_rate then
           case throttle E MAX_TIME_FIELD_GEOM_RATE (force_send E b) tens (em_geom_rate (em p)) of
             None \<Rightarrow> p
           | Some e \<Rightarrow> set_both (pd_vert_rate_update (\<lambda>_. Some (word_of_int tens))) (p\<lparr>em := (em p)\<lparr>em_geom_rate := e\<rparr>\<rparr>)
         else p)"

definition report_baro_rate :: "feeder_env \<Rightarrow> aircraft \<Rightarrow> prep \<Rightarrow> prep" where
  "report_baro_rate E b p =
     (let tens = ac_baro_rate b sdiv 10
      in if is_recent E b V_baro_rate then
           case throttle E MAX_TIME_FIELD_BARO_RATE (force_send E b) tens (em_baro_rate (em p)) of
             None \<Rightarrow> p
           | Some e \<Rightarrow> set_both (pd_vert_rate_update (\<lambda>_. Some (word_of_int tens))) (p\<lparr>em := (em p)\<lparr>em_baro_rate := e\<rparr>\<rparr>)
         else p)"

definition report_vert_rate :: "feeder_env \<Rightarrow> aircraft \<Rightarrow> prep \<Rightarrow> prep" where
  "report_vert_rate E b p =
     (if fe_use_gnss E \<and> is_valid E b V_geom_rate then report_geom_rate E b p
      else if is_valid E b V_baro_rate then report_baro_rate E b p
      else p)"

text \<open>The squawk: the test subtracts the squawk itself from the clock, not the time it was reported.\<close>

definition report_squawk :: "feeder_env \<Rightarrow> aircraft \<Rightarrow> prep \<Rightarrow> prep" where
  "report_squawk E b p =
     (if is_recent E b V_squawk \<and> is_valid E b V_squawk then
        if fe_tv_sec E - uint (em_value (em_squawk (em p))) \<ge> MAX_TIME_FIELD_SQUAWKE
             \<or> em_value (em_squawk (em p)) \<noteq> ac_squawk b
        then set_both (pd_squawk_update (\<lambda>_. Some (ucast (ac_squawk b))))
               (p\<lparr>em := (em p)\<lparr>em_squawk := \<lparr>em_value = ac_squawk b, em_time = fe_tv_sec E\<rparr>\<rparr>\<rparr>)
        else p
      else p)"

definition report_ias :: "feeder_env \<Rightarrow> aircraft \<Rightarrow> prep \<Rightarrow> prep" where
  "report_ias E b p =
     (let tens = ac_ias b div 10
      in if is_recent E b V_ias then
           case throttle E MAX_TIME_FIELD_IAS False tens (em_ias (em p)) of
             None \<Rightarrow> p
           | Some e \<Rightarrow> set_both (pd_ias_update (\<lambda>_. Some (ucast tens))) (p\<lparr>em := (em p)\<lparr>em_ias := e\<rparr>\<rparr>)
         else p)"

definition mlat_items :: "item list" where
  "mlat_items = [V_callsign, V_altitude_baro, V_altitude_geom, V_gs, V_ias, V_tas, V_mach, V_track, V_track_rate,
     V_roll, V_mag_heading, V_true_heading, V_baro_rate, V_geom_rate, V_squawk, V_emergency, V_nav_qnh,
     V_nav_altitude_mcp, V_nav_altitude_fms, V_nav_heading, V_nav_modes, V_position, V_nic_baro, V_nac_p,
     V_nac_v, V_sil, V_gva, V_sda]"

definition mlat_check_is_mlat :: "aircraft \<Rightarrow> bool" where
  "mlat_check_is_mlat a = list_ex (\<lambda>i. v_source (valid a i) = SOURCE_MLAT) mlat_items"

definition report_mlat :: "aircraft \<Rightarrow> prep \<Rightarrow> prep" where
  "report_mlat b p = (if mlat_check_is_mlat b then p\<lparr>acf := (acf p)\<lparr>pd_is_mlat := True\<rparr>\<rparr> else p)"

subsection \<open>Navigation\<close>

definition add_flags :: "u32 \<Rightarrow> nav_flags \<Rightarrow> nav_flags" where
  "add_flags m f = \<lparr>
     pn_autopilot = (pn_autopilot f \<or> m AND NAV_MODE_AUTOPILOT \<noteq> 0),
     pn_vnav = (pn_vnav f \<or> m AND NAV_MODE_VNAV \<noteq> 0),
     pn_alt_hold = (pn_alt_hold f \<or> m AND NAV_MODE_ALT_HOLD \<noteq> 0),
     pn_aproach = (pn_aproach f \<or> m AND NAV_MODE_APPROACH \<noteq> 0),
     pn_lnav = (pn_lnav f \<or> m AND NAV_MODE_LNAV \<noteq> 0),
     pn_tcas = (pn_tcas f \<or> m AND NAV_MODE_TCAS \<noteq> 0)\<rparr>"

definition report_nav_modes :: "feeder_env \<Rightarrow> aircraft \<Rightarrow> prep \<Rightarrow> prep" where
  "report_nav_modes E b p =
     (let m = ac_nav_modes (ac_nav b)
      in if is_recent E b V_nav_modes then
           case throttle E MAX_TIME_FIELD_NAV_MODES False m (em_nav_modes (em p)) of
             None \<Rightarrow> p
           | Some e \<Rightarrow> p\<lparr>em := (em p)\<lparr>em_nav_modes := e\<rparr>, acf := (acf p)\<lparr>pd_nav_modes := add_flags m (pd_nav_modes (acf p))\<rparr>\<rparr>
         else p)"

definition report_fms :: "feeder_env \<Rightarrow> aircraft \<Rightarrow> prep \<Rightarrow> prep" where
  "report_fms E b p =
     (let alt = ac_nav_altitude_fms (ac_nav b)
      in if is_recent E b V_nav_altitude_fms \<and> alt \<ge> 1000 then
           case throttle E MAX_TIME_FIELD_NAV_ALT_FMS False alt (em_nav_altitude_fms (em p)) of
             None \<Rightarrow> p
           | Some e \<Rightarrow> p\<lparr>em := (em p)\<lparr>em_nav_altitude_fms := e\<rparr>, acf := (acf p)\<lparr>pd_nav_altitude_fms := Some alt\<rparr>\<rparr>
         else p)"

definition report_mcp :: "feeder_env \<Rightarrow> aircraft \<Rightarrow> prep \<Rightarrow> prep" where
  "report_mcp E b p =
     (let alt = ac_nav_altitude_mcp (ac_nav b)
      in if is_recent E b V_nav_altitude_mcp \<and> alt \<ge> 1000 then
           case throttle E MAX_TIME_FIELD_NAV_ALT_MCP False alt (em_nav_altitude_mcp (em p)) of
             None \<Rightarrow> p
           | Some e \<Rightarrow> p\<lparr>em := (em p)\<lparr>em_nav_altitude_mcp := e\<rparr>, acf := (acf p)\<lparr>pd_nav_altitude_mcp := Some alt\<rparr>\<rparr>
         else p)"

definition set_bit :: "nat \<Rightarrow> u32 \<Rightarrow> u32" where
  "set_bit position number = number OR push_bit position 1"

definition report_altitude_src :: "feeder_env \<Rightarrow> aircraft \<Rightarrow> prep \<Rightarrow> prep" where
  "report_altitude_src E b p =
     (if is_recent E b V_nav_altitude_src then
        case ac_nav_altitude_src (ac_nav b) of
          NAV_ALT_AIRCRAFT \<Rightarrow> p\<lparr>acf := (acf p)\<lparr>pd_extra_flags := Some (set_bit 7 0)\<rparr>\<rparr>
        | NAV_ALT_MCP \<Rightarrow> p\<lparr>acf := (acf p)\<lparr>pd_extra_flags := Some (set_bit 8 0)\<rparr>\<rparr>
        | NAV_ALT_FMS \<Rightarrow> p\<lparr>acf := (acf p)\<lparr>pd_extra_flags := Some (set_bit 9 0)\<rparr>\<rparr>
        | _ \<Rightarrow> p
      else p)"

definition report_qnh :: "feeder_env \<Rightarrow> aircraft \<Rightarrow> prep \<Rightarrow> prep" where
  "report_qnh E b p =
     (let qnh = ac_nav_qnh (ac_nav b)
      in if is_recent E b V_nav_qnh then
           case throttle E MAX_TIME_FIELD_NAV_QNH False qnh (em_nav_qnh (em p)) of
             None \<Rightarrow> p
           | Some e \<Rightarrow> p\<lparr>em := (em p)\<lparr>em_nav_qnh := e\<rparr>, acf := (acf p)\<lparr>pd_nav_qnh := Some (truncate_rat qnh)\<rparr>\<rparr>
         else p)"

definition report_nav_heading :: "feeder_env \<Rightarrow> aircraft \<Rightarrow> prep \<Rightarrow> prep" where
  "report_nav_heading E b p =
     (let h = truncate_rat (ac_nav_heading (ac_nav b))
      in if is_recent E b V_nav_heading \<and> h \<noteq> 0 then p\<lparr>acf := (acf p)\<lparr>pd_nav_heading := Some h\<rparr>\<rparr> else p)"

subsection \<open>Accuracy\<close>

definition set_acf :: "(p_data \<Rightarrow> p_data) \<Rightarrow> prep \<Rightarrow> prep" where
  "set_acf f p = p\<lparr>acf := f (acf p), send_it := True\<rparr>"

definition report_nic_baro :: "feeder_env \<Rightarrow> aircraft \<Rightarrow> prep \<Rightarrow> prep" where
  "report_nic_baro E b p =
     (let v = ac_nic_baro (ac_accuracy b)
      in if is_valid E b V_nic_baro then
           case throttle E MAX_TIME_FIELD_NIC_BARO (force_send E b) v (em_nic_baro (em p)) of
             None \<Rightarrow> p
           | Some e \<Rightarrow> set_acf (pd_nic_baro_update (\<lambda>_. Some (ucast v))) (p\<lparr>em := (em p)\<lparr>em_nic_baro := e\<rparr>\<rparr>)
         else p)"

definition report_nac_p :: "feeder_env \<Rightarrow> aircraft \<Rightarrow> prep \<Rightarrow> prep" where
  "report_nac_p E b p =
     (let v = ac_nac_p (ac_accuracy b)
      in if is_valid E b V_nac_p then
           case throttle E MAX_TIME_FIELD_NAC_P (force_send E b) v (em_nac_p (em p)) of
             None \<Rightarrow> p
           | Some e \<Rightarrow> set_acf (pd_nac_p_update (\<lambda>_. Some v)) (p\<lparr>em := (em p)\<lparr>em_nac_p := e\<rparr>\<rparr>)
         else p)"

definition report_nac_v :: "feeder_env \<Rightarrow> aircraft \<Rightarrow> prep \<Rightarrow> prep" where
  "report_nac_v E b p =
     (let v = ac_nac_v (ac_accuracy b)
      in if is_valid E b V_nac_v then
           case throttle E MAX_TIME_FIELD_NAC_V (force_send E b) v (em_nac_v (em p)) of
             None \<Rightarrow> p
           | Some e \<Rightarrow> set_acf (pd_nac_v_update (\<lambda>_. Some v)) (p\<lparr>em := (em p)\<lparr>em_nac_v := e\<rparr>\<rparr>)
         else p)"

definition report_sil :: "feeder_env \<Rightarrow> aircraft \<Rightarrow> prep \<Rightarrow> prep" where
  "report_sil E b p =
     (let v = ac_sil (ac_accuracy b)
      in if is_valid E b V_sil then
           case throttle E MAX_TIME_FIELD_SIL (force_send E b) v (em_sil (em p)) of
             None \<Rightarrow> p
           | Some e \<Rightarrow> set_acf (pd_sil_update (\<lambda>_. Some (v, ac_sil_type (ac_accuracy b)))) (p\<lparr>em := (em p)\<lparr>em_sil := e\<rparr>\<rparr>)
         else p)"


subsection \<open>Weather\<close>

text \<open>
  Temperature and wind from Mach number, air speeds and altitude. A division by zero, whose
  infinite result the model's numbers do not have, is the value \<open>None\<close>.
\<close>

definition c_div :: "rat \<Rightarrow> rat \<Rightarrow> rat option" where
  "c_div x y = (if y = 0 then None else Some (f64 (x / y)))"

definition FEET_TO_M :: "rat \<Rightarrow> rat" where "FEET_TO_M ft = f64 (ft * f64 (3048 / 10000))"
definition KNOT_TO_MS :: "rat \<Rightarrow> rat" where "KNOT_TO_MS kts = f64 (kts * f64 (514444 / 1000000))"
definition KELVIN_TO_C :: "rat \<Rightarrow> rat" where "KELVIN_TO_C k = f64 (k - f64 (27315 / 100))"
definition TO_DEGREES :: "rat \<Rightarrow> rat" where "TO_DEGREES r = f64 (f64 (r * 180) / M_PI)"
definition TO_RADIANS :: "rat \<Rightarrow> rat" where "TO_RADIANS d = f64 (f64 (M_PI * d) / 180)"
definition STRATOSPHERE_BASE_HEIGHT :: rat where "STRATOSPHERE_BASE_HEIGHT = 11000"

definition air_pressure :: "weather_libm \<Rightarrow> rat \<Rightarrow> rat" where
  "air_pressure L altMeters =
     (if altMeters < STRATOSPHERE_BASE_HEIGHT then
        f32 (w_pow L (f64 (101325 * f64 (1 + f64 (f64 (- f64 (65 / 10000) * altMeters) / f64 (28815 / 100)))))
                     (f64 (- f64 (981 / 100) / f64 (- f64 (65 / 10000) * f64 (28705 / 100)))))
      else
        f32 (f64 (22632 * w_exp L (- f64 (f64 (f64 (981 / 100) * f32 (altMeters - STRATOSPHERE_BASE_HEIGHT))
                                          / f64 (f64 (28705 / 100) * f64 (21665 / 100)))))))"

definition air_temperature :: "weather_libm \<Rightarrow> aircraft \<Rightarrow> rat option" where
  "air_temperature L b =
     (let altMeters = f32 (FEET_TO_M (f32 (of_int (ac_altitude_baro b))));
          vtasMs = f32 (KNOT_TO_MS (f32 (of_nat (unat (ac_tas b)))));
          viasMs = f32 (KNOT_TO_MS (f32 (of_nat (unat (ac_ias b)))));
          temp = (if ac_mach b < f64 (3 / 10)
                  then c_div (f64 (w_pow L vtasMs 2 * air_pressure L altMeters))
                         (f64 (f64 (w_pow L viasMs 2 * f32 (1225 / 1000)) * f32 (28705287 / 100000)))
                  else c_div (f64 (w_pow L vtasMs 2 * f32 (28815 / 100)))
                         (f64 (w_pow L (ac_mach b) 2 * w_pow L (f32 (340293988 / 1000000)) 2)))
      in map_option (\<lambda>temp. f32 (KELVIN_TO_C (f32 temp))) temp)"

text \<open>
  The wind. The macro in \<^verbatim>\<open>(short) MS_TO_KNOT(windSpeed)\<close> has no parentheses: the cast applies to
  the speed in metres per second.
\<close>

definition wind :: "weather_libm \<Rightarrow> aircraft \<Rightarrow> rat \<times> rat \<Rightarrow> (16 word \<times> 16 word) option" where
  "wind L b = (\<lambda>(magLat, magLon). do {
     let altMeters = f32 (FEET_TO_M (f32 (of_int (ac_altitude_baro b))));
     let vtasMs = f32 (KNOT_TO_MS (f32 (of_nat (unat (ac_tas b)))));
     let declination = w_declination L (f64 (altMeters / 1000)) magLat magLon;
     let realHeading = f64 (ac_mag_heading b + declination);
     let realHeading = (if realHeading < 0 then f64 (360 + realHeading)
                        else if realHeading > 360 then f64 (realHeading - 360) else realHeading);
     let groundSpeedMs = KNOT_TO_MS (ac_gs b);
     let gsX = f64 (w_sin L (TO_RADIANS (ac_track b)) * groundSpeedMs);
     let gsY = f64 (w_cos L (TO_RADIANS (ac_track b)) * groundSpeedMs);
     let vtasX = f64 (w_sin L (TO_RADIANS realHeading) * vtasMs);
     let vtasY = f64 (w_cos L (TO_RADIANS realHeading) * vtasMs);
     quotient \<leftarrow> c_div (f64 (gsX - vtasX)) (f64 (gsY - vtasY));
     let windHeadingRadians = w_atan L quotient;
     windSpeed \<leftarrow> c_div (f64 (gsX - vtasX)) (w_sin L windHeadingRadians);
     let windHeading = TO_DEGREES windHeadingRadians;
     let (windSpeed, windHeading) =
       (if windSpeed < 0 then
          (- windSpeed, let h = f64 (windHeading + 180) in if h > 360 then f64 (360 - h) else h)
        else (windSpeed, windHeading));
     Some (to_short (f64 (windHeading / 10)),
           to_short (f64 (of_int (sint (to_short windSpeed)) * f64 (19438444924406 / 10000000000000)))) })"

definition report_temperature :: "feeder_env \<Rightarrow> rat \<Rightarrow> prep \<Rightarrow> prep" where
  "report_temperature E tempC p =
     (let v = to_short tempC
      in case throttle E MAX_TIME_FIELD_TEMPERATURE False v (em_temperature (em p)) of
           None \<Rightarrow> p
         | Some e \<Rightarrow> set_acf (pd_temperature_update (\<lambda>_. Some (sint v))) (p\<lparr>em := (em p)\<lparr>em_temperature := e\<rparr>\<rparr>))"

definition report_wind :: "feeder_env \<Rightarrow> 16 word \<times> 16 word \<Rightarrow> prep \<Rightarrow> prep" where
  "report_wind E v p =
     (case throttle E MAX_TIME_FIELD_WIND False v (em_wind (em p)) of
        None \<Rightarrow> p
      | Some e \<Rightarrow> set_acf (pd_wind_update (\<lambda>_. Some v)) (p\<lparr>em := (em p)\<lparr>em_wind := e\<rparr>\<rparr>))"

definition report_weather :: "feeder_env \<Rightarrow> aircraft \<Rightarrow> prep \<Rightarrow> prep option" where
  "report_weather E b p =
     (if is_valid E b V_mach \<and> is_valid E b V_ias \<and> is_valid E b V_altitude_baro \<and> is_valid E b V_tas then
        case (pd_altitude (acf p), pd_position (acf p), pd_heading (acf p)) of
          (Some _, Some position, Some _) \<Rightarrow> do {
            tempC \<leftarrow> air_temperature (fe_libm E) b;
            let p = report_temperature E tempC p;
            v \<leftarrow> wind (fe_libm E) b position;
            Some (report_wind E v p) }
        | _ \<Rightarrow> Some p
      else Some p)"

subsection \<open>One aircraft, one round\<close>

definition new_report :: "feeder_env \<Rightarrow> p_data" where
  "new_report E = net_preparePacket_v2 (fe_junk_geo E)"

definition report_head :: "feeder_env \<Rightarrow> aircraft \<Rightarrow> prep \<Rightarrow> prep option" where
  "report_head E b p = do {
     p \<leftarrow> start_asterix E p;
     p \<leftarrow> report_address E b p;
     Some (p\<lparr>acf := (acf p)\<lparr>pd_timestp := fe_now E\<rparr>, acf2 := (acf2 p)\<lparr>pd_timestp := fe_now E\<rparr>\<rparr>) }"

definition report_motion :: "feeder_env \<Rightarrow> aircraft \<Rightarrow> prep \<Rightarrow> prep" where
  "report_motion E b p = report_mlat b (report_ias E b (report_squawk E b (report_vert_rate E b (report_gs E b p))))"

definition report_navigation :: "feeder_env \<Rightarrow> aircraft \<Rightarrow> prep \<Rightarrow> prep" where
  "report_navigation E b p =
     report_nav_heading E b (report_qnh E b (report_altitude_src E b (report_mcp E b (report_fms E b (report_nav_modes E b p)))))"

definition report_accuracy :: "feeder_env \<Rightarrow> aircraft \<Rightarrow> prep \<Rightarrow> prep" where
  "report_accuracy E b p = report_sil E b (report_nac_v E b (report_nac_p E b (report_nic_baro E b p)))"

definition prepare_aircraft :: "feeder_env \<Rightarrow> aircraft \<Rightarrow> emitted \<Rightarrow> prep option" where
  "prepare_aircraft E b e = do {
     p \<leftarrow> report_head E b \<lparr>em = e, acf = new_report E, acf2 = new_report E, send_it = False, ast = None\<rparr>;
     p \<leftarrow> report_callsign E b p;
     p \<leftarrow> report_altitudes E b p;
     p \<leftarrow> report_position E b p;
     p \<leftarrow> report_heading E b p;
     p \<leftarrow> report_tas E b p;
     p \<leftarrow> report_weather E b p;
     Some (report_accuracy E b (report_navigation E b (report_motion E b p))) }"

text \<open>
  The lists of reports, newest first, the datagrams sent, and the counters; \<open>prepare_one\<close> is the body
  of the loop over the aircraft. The result of \<^verbatim>\<open>asterix_SendCat21Packet\<close> is ignored.
\<close>

record feeder =
  flist :: "p_data list"
  flist2 :: "p_data list"
  packet_cache_count :: int
  currently_tracked_flights :: int
  datagrams :: "u8 list list"

definition finish_report :: "feeder_env \<Rightarrow> int \<Rightarrow> prep \<Rightarrow> feeder \<Rightarrow> feeder option" where
  "finish_report E asterix_socket p s =
     (if send_it p then do {
        let s = s\<lparr>packet_cache_count := packet_cache_count s + 1,
                  flist := (acf p)\<lparr>pd_cmd := 5\<rparr> # flist s, flist2 := (acf2 p)\<lparr>pd_cmd := 5\<rparr> # flist2 s\<rparr>;
        case (fe_asterix E, ast p) of
          (Some _, Some packet) \<Rightarrow> do {
            (_, sent) \<leftarrow> asterix_SendCat21Packet asterix_socket 0 packet;
            Some (case sent of None \<Rightarrow> s | Some d \<Rightarrow> s\<lparr>datagrams := datagrams s @ [d]\<rparr>) }
        | _ \<Rightarrow> Some s }
      else Some s)"

definition prepare_one :: "feeder_env \<Rightarrow> int \<Rightarrow> aircraft \<Rightarrow> emitted \<Rightarrow> feeder \<Rightarrow> (emitted \<times> feeder) option" where
  "prepare_one E asterix_socket b e s = do {
     p \<leftarrow> prepare_aircraft E b e;
     s \<leftarrow> finish_report E asterix_socket p s;
     Some (em p, if non_icao_aircraft b then s else s\<lparr>currently_tracked_flights := currently_tracked_flights s + 1\<rparr>) }"

text \<open>A round over the aircraft list; every aircraft comes with the clocks read for it.\<close>

fun prepare_all :: "int \<Rightarrow> (feeder_env \<times> aircraft \<times> emitted) list \<Rightarrow> feeder \<Rightarrow> (emitted list \<times> feeder) option" where
  "prepare_all asterix_socket [] s = Some ([], s)"
| "prepare_all asterix_socket ((E, b, e) # bs) s = do {
     (e, s) \<leftarrow> prepare_one E asterix_socket b e s;
     (es, s) \<leftarrow> prepare_all asterix_socket bs s;
     Some (e # es, s) }"

definition airnav_prepareData :: "int \<Rightarrow> (feeder_env \<times> aircraft \<times> emitted) list \<Rightarrow> feeder \<Rightarrow> (emitted list \<times> feeder) option" where
  "airnav_prepareData asterix_socket bs s = prepare_all asterix_socket bs (s\<lparr>currently_tracked_flights := 0\<rparr>)"

subsection \<open>Sending the reports\<close>

text \<open>The protobuf message for one report: what \<^verbatim>\<open>sendMultipleFlights\<close> copies.\<close>

record flight_data =
  fd_addr :: u32
  fd_callsign :: "u8 list option"
  fd_altitude :: "int option"
  fd_altitude_geo :: "int option"
  fd_latitude :: "rat option"
  fd_longitude :: "rat option"
  fd_heading :: "int option"
  fd_gnd_speed :: "int option"
  fd_ias :: "int option"
  fd_vert_rate :: "int option"
  fd_squawk :: "int option"
  fd_airborne :: "bool option"
  fd_is_978 :: "bool option"
  fd_is_mlat :: "bool option"
  fd_nav_altitude_fms :: "u32 option"
  fd_nav_altitude_mcp :: "u32 option"
  fd_nav_qnh :: "int option"
  fd_wind_dir :: "int option"
  fd_wind_speed :: "int option"
  fd_temperature :: "int option"
  fd_pos_nic :: "u32 option"
  fd_nic_baro :: "u8 option"
  fd_nac_p :: "u32 option"
  fd_nac_v :: "u32 option"
  fd_sil :: "u32 option"
  fd_sil_type :: "sil_type_t option"

definition flight_of :: "p_data \<Rightarrow> flight_data" where
  "flight_of d = \<lparr>
     fd_addr = (case pd_modes_addr d of None \<Rightarrow> 0 | Some a \<Rightarrow> a),
     fd_callsign = pd_callsign d, fd_altitude = pd_altitude d, fd_altitude_geo = pd_altitude_geo d,
     fd_latitude = map_option fst (pd_position d), fd_longitude = map_option snd (pd_position d),
     fd_heading = map_option sint (pd_heading d), fd_gnd_speed = map_option sint (pd_gnd_speed d),
     fd_ias = map_option sint (pd_ias d), fd_vert_rate = map_option sint (pd_vert_rate d),
     fd_squawk = map_option sint (pd_squawk d), fd_airborne = pd_airborne d,
     fd_is_978 = (if pd_is_978 d then Some True else None), fd_is_mlat = (if pd_is_mlat d then Some True else None),
     fd_nav_altitude_fms = pd_nav_altitude_fms d, fd_nav_altitude_mcp = pd_nav_altitude_mcp d,
     fd_nav_qnh = pd_nav_qnh d, fd_wind_dir = map_option (sint \<circ> fst) (pd_wind d),
     fd_wind_speed = map_option (sint \<circ> snd) (pd_wind d), fd_temperature = pd_temperature d,
     fd_pos_nic = pd_pos_nic d, fd_nic_baro = pd_nic_baro d, fd_nac_p = pd_nac_p d, fd_nac_v = pd_nac_v d,
     fd_sil = map_option fst (pd_sil d), fd_sil_type = map_option snd (pd_sil d)\<rparr>"

text \<open>
  A packet with all flights. Packing is the argument \<open>pack\<close>, the results of the four calls of
  \<^verbatim>\<open>send\<close> are \<open>results\<close>. The number of flights given must be the length of the list.
\<close>

definition sendMultipleFlights :: "(flight_data list \<Rightarrow> u8 list) \<Rightarrow> int list \<Rightarrow> p_data list \<Rightarrow> nat \<Rightarrow> server_link \<Rightarrow> server_link option" where
  "sendMultipleFlights pack results flights qtd l = do {
     c_assert (length flights = qtd);
     let buf = pack (List.map flight_of flights);
     if airnav_com_inited l = 1 then do {
       (r, l) \<leftarrow> net_send_packet results \<lparr>pp_buf = buf, pp_len = of_nat (length buf), pp_type = FLIGHT_PACKET\<rparr> l;
       let n = int (length flights);
       Some (if r = 1 then
               let k = (if n > 1 then n - 1 else n)
               in l\<lparr>packets_total := packets_total l + k, packets_last := packets_last l + k\<rparr>
             else l) }
     else Some l }"

text \<open>A pass of the sending thread: it takes the whole list.\<close>

definition airnav_threadSendData :: "(flight_data list \<Rightarrow> u8 list) \<Rightarrow> int list \<Rightarrow> feeder \<times> server_link \<Rightarrow> (feeder \<times> server_link) option" where
  "airnav_threadSendData pack results = (\<lambda>(s, l).
     let local_list = flist s; s = s\<lparr>flist := [], packet_cache_count := 0\<rparr>
     in if local_list = [] then Some (s, l)
        else map_option (Pair s) (sendMultipleFlights pack results local_list (length local_list) l))"

subsection \<open>Reports of the 978 MHz receiver\<close>

text \<open>The members of a JSON object that are used, each present when it has the expected type.\<close>

record uat_json =
  uj_address :: "int option"
  uj_position :: "(rat \<times> rat) option"
  uj_ground_speed :: "int option"
  uj_true_track :: "rat option"
  uj_vertical_velocity_geometric :: "int option"
  uj_vertical_velocity_barometric :: "int option"

definition uat_report :: "u64 \<Rightarrow> int option \<Rightarrow> uat_json \<Rightarrow> p_data" where
  "uat_report now junk j =
     (net_preparePacket_v2 junk)\<lparr>pd_timestp := now, pd_cmd := 5, pd_is_978 := True,
        pd_modes_addr := map_option word_of_int (uj_address j),
        pd_position := uj_position j,
        pd_gnd_speed := map_option (\<lambda>v. word_of_int (v sdiv 10)) (uj_ground_speed j),
        pd_heading := map_option (\<lambda>v. to_short (f64 (v / 10))) (uj_true_track j),
        pd_vert_rate := (case uj_vertical_velocity_barometric j of
            Some v \<Rightarrow> Some (word_of_int (v sdiv 10))
          | None \<Rightarrow> map_option (\<lambda>v. word_of_int (v sdiv 10)) (uj_vertical_velocity_geometric j))\<rparr>"

definition uat_store978data :: "u64 \<Rightarrow> int option \<Rightarrow> uat_json option \<Rightarrow> feeder \<Rightarrow> feeder" where
  "uat_store978data now junk json s =
     (case json of None \<Rightarrow> s
      | Some j \<Rightarrow>
          if uj_address j \<noteq> None \<or> uj_position j \<noteq> None \<or> uj_ground_speed j \<noteq> None \<or> uj_true_track j \<noteq> None
               \<or> uj_vertical_velocity_geometric j \<noteq> None \<or> uj_vertical_velocity_barometric j \<noteq> None
          then s\<lparr>flist := uat_report now junk j # flist s\<rparr> else s)"

end
