(* ===== verification/ServerLinkCorrect.thy ===== *)
theory ServerLinkCorrect
  imports ServerLink
begin

text \<open>
  The receiver of the server link collects bytes in a list; the buffer, its index and the
  remembered size are an implementation of it. What the sender writes is what the receiver hands
  over, also after noise, with one exception at the end of the buffer.
\<close>

subsection \<open>The receiver as a list of bytes\<close>

definition size_field :: "u8 list \<Rightarrow> nat" where
  "size_field w = 256 * unat (w ! 2) + unat (w ! 3)"

definition starts_packet :: "u8 list \<Rightarrow> bool" where
  "starts_packet w \<longleftrightarrow> take 2 w = [TXSTART0, TXSTART1]"

definition ends_with_start :: "u8 list \<Rightarrow> bool" where
  "ends_with_start w \<longleftrightarrow> drop (length w - 2) w = [TXSTART0, TXSTART1]"

definition collect :: "u8 \<Rightarrow> u8 list \<Rightarrow> u8 list \<times> u8 list option" where
  "collect c w =
     (let w = (if length w = BUFFLEN then [] else w) @ [c]
      in if starts_packet w then
           if length w = 4 \<and> size_field w \<le> 2 then ([], None)
           else if 7 \<le> length w \<and> length w = size_field w + 4 then ([], Some w)
           else (w, None)
         else if ends_with_start w then ([TXSTART0, TXSTART1], None)
         else (w, None))"

fun collect_all :: "u8 list \<Rightarrow> u8 list \<Rightarrow> u8 list \<times> u8 list list" where
  "collect_all [] w = (w, [])"
| "collect_all (c # cs) w =
     (let (w, p) = collect c w; (w, ps) = collect_all cs w
      in (w, (case p of None \<Rightarrow> [] | Some p \<Rightarrow> [p]) @ ps))"

definition holds :: "receiver \<Rightarrow> u8 list \<Rightarrow> bool" where
  "holds r w \<longleftrightarrow> length w \<le> BUFFLEN \<and> rx_buf r = w @ replicate (BUFFLEN - length w) 0 \<and> buf_idx r = length w
     \<and> (starts_packet w \<and> 4 \<le> length w \<longrightarrow> unat (packet_size r) = size_field w)"

lemma holds_start: "holds rx_start []"
  by (simp add: holds_def rx_start_def starts_packet_def)

lemma size_field_word:
  "unat (push_bit 8 (ucast (hi :: u8)) OR ucast (lo :: u8) :: 16 word) = 256 * unat hi + unat lo"
proof -
  have b: "unat hi < 2 ^ 8" "unat lo < 2 ^ 8" using unsigned_less [of hi] unsigned_less [of lo] by simp_all
  then have "take_bit 16 (push_bit 8 (unat hi)) = push_bit 8 (unat hi)" "take_bit 16 (unat lo) = unat lo"
    "take_bit 16 (unat hi) = unat hi"
    by (intro take_bit_nat_eq_self; simp add: push_bit_eq_mult)+
  then have "unat (push_bit 8 (ucast hi) OR ucast lo :: 16 word) = push_bit 8 (unat hi) OR unat lo"
    by (simp add: unsigned_or_eq unsigned_push_bit_eq unsigned_ucast_eq)
  also have "\<dots> = push_bit 8 (unat hi) + unat lo"
    by (rule disjunctive_add [symmetric]) (use b in \<open>auto simp: bit_simps nat_take_bit_eq dest: bit_imp_le_length\<close>)
  finally show ?thesis by (simp add: push_bit_eq_mult)
qed

lemma starts_packet_Cons: "starts_packet w \<longleftrightarrow> 2 \<le> length w \<and> w ! 0 = TXSTART0 \<and> w ! 1 = TXSTART1"
  by (cases w; cases "tl w") (auto simp: starts_packet_def)

lemma ends_with_start_append: "ends_with_start w \<longleftrightarrow> (\<exists>v. w = v @ [TXSTART0, TXSTART1])"
proof
  assume "ends_with_start w"
  then show "\<exists>v. w = v @ [TXSTART0, TXSTART1]"
    unfolding ends_with_start_def by (metis append_take_drop_id)
qed (auto simp: ends_with_start_def)

lemma ends_with_start_nth:
  "ends_with_start w \<longleftrightarrow> 2 \<le> length w \<and> w ! (length w - 2) = TXSTART0 \<and> w ! (length w - 1) = TXSTART1"
proof
  assume r: "2 \<le> length w \<and> w ! (length w - 2) = TXSTART0 \<and> w ! (length w - 1) = TXSTART1"
  then show "ends_with_start w"
    unfolding ends_with_start_def
    by (intro nth_equalityI) (auto simp: less_Suc_eq nth_append numeral_2_eq_2 Suc_diff_Suc)
qed (auto simp: ends_with_start_append nth_append)

text \<open>One byte stored: the buffer holds the byte list, and the three branches agree.\<close>

lemma store_byte_collect:
  assumes "holds r w" "length w < BUFFLEN"
  shows "\<exists>r'. store_byte c r = Some (r', snd (collect c w)) \<and> holds r' (fst (collect c w))"
proof -
  define v where "v = w @ [c]"
  define b where "b = v @ replicate (BUFFLEN - length v) 0"
  have len: "length v = length w + 1" "length v \<le> BUFFLEN" "length b = BUFFLEN"
    using assms(2) by (simp_all add: v_def b_def)
  have buf: "(rx_buf r)[buf_idx r := c] = b" and idx: "buf_idx r = length w"
  proof -
    have "replicate (BUFFLEN - length w) (0 :: u8) = 0 # replicate (BUFFLEN - length v) 0"
      using assms(2) len(1) by (simp add: replicate_Suc [symmetric] Suc_diff_Suc del: replicate_Suc)
    then show "(rx_buf r)[buf_idx r := c] = b" using assms(1) by (simp add: holds_def b_def v_def)
    show "buf_idx r = length w" using assms(1) by (simp add: holds_def)
  qed
  have nth: "b ! i = v ! i" if "i < length v" for i using that by (simp add: b_def nth_append)
  define r1 where "r1 = r\<lparr>rx_buf := b, buf_idx := length v\<rparr>"
  have r1: "rx_buf r1 = b" "buf_idx r1 = length v" "packet_size r1 = packet_size r" by (simp_all add: r1_def)
  have in_buf: "buf_idx r < length (rx_buf r)" using assms by (auto simp: holds_def)
  have store: "store_byte c r =
     (if 2 \<le> length v then
        if starts_packet v then read_size r1 \<bind> take_packet
        else map_option (\<lambda>r. (r, None)) (search_start r1)
      else Some (r1, None))"
  proof -
    have set: "arr_set (rx_buf r) (buf_idx r) c = Some b" using in_buf buf by simp
    have r: "r\<lparr>rx_buf := b, buf_idx := buf_idx r + 1\<rparr> = r1" using idx len(1) by (simp add: r1_def)
    have "2 \<le> length v \<Longrightarrow> b ! 0 = v ! 0 \<and> b ! 1 = v ! 1"
      by (intro conjI nth) linarith+
    then show ?thesis
      using len(3) unfolding store_byte_def set bind.simps r Let_def r1 starts_packet_Cons
      by (cases "2 \<le> length v") (auto simp: BUFFLEN_def)
  qed
  have coll: "collect c w =
      (if starts_packet v then
         if length v = 4 \<and> size_field v \<le> 2 then ([], None)
         else if 7 \<le> length v \<and> length v = size_field v + 4 then ([], Some v)
         else (v, None)
       else if ends_with_start v then ([TXSTART0, TXSTART1], None)
       else (v, None))"
    using assms(2) by (simp add: collect_def v_def Let_def)
  have empty: "holds (clear_buffer x) []" "holds ((clear_buffer x)\<lparr>packet_size := 0\<rparr>) []" for x
    by (simp_all add: holds_def clear_buffer_def starts_packet_def)
  show ?thesis
  proof (cases "starts_packet v")
    case True
    then have two: "2 \<le> length v" by (simp add: starts_packet_Cons)
    have size: "length v > 4 \<Longrightarrow> unat (packet_size r) = size_field v"
    proof -
      assume l: "length v > 4"
      then have "starts_packet w" "size_field w = size_field v"
        using True by (auto simp: starts_packet_def size_field_def v_def nth_append)
      then show ?thesis using assms(1) l len(1) by (simp add: holds_def)
    qed
    then have "length v > 4 \<Longrightarrow> uint (packet_size r) = int (size_field v)" by (metis of_nat_unat)
    note size = size this
    show ?thesis
    proof (cases "length v = 4")
      case four: True
      let ?t = "push_bit 8 (ucast (v ! 2)) OR ucast (v ! 3) :: 16 word"
      have t: "unat ?t = size_field v" unfolding size_field_def by (rule size_field_word)
      then have "?t \<le> 2 \<longleftrightarrow> size_field v \<le> 2" by (simp add: word_le_nat_alt)
      then have "read_size r1 \<bind> take_packet =
          (if size_field v \<le> 2 then Some (clear_buffer (r1\<lparr>bytes_garbage := bytes_garbage r1 + of_nat (buf_idx r1) - 1\<rparr>), None)
           else Some (r1\<lparr>packet_size := ?t\<rparr>, None))"
        using four r1 len(3) nth [of 2] nth [of 3]
        by (simp add: read_size_def take_packet_def c_simps clear_buffer_def Let_def BUFFLEN_def)
      then show ?thesis
        unfolding store coll using True two four empty t len r1
        by (auto simp: holds_def b_def clear_buffer_def starts_packet_def)
    next
      case False
      have "read_size r1 \<bind> take_packet =
          (if 7 \<le> length v \<and> length v = size_field v + 4 then Some ((clear_buffer r1)\<lparr>packet_size := 0\<rparr>, Some v) else Some (r1, None))"
        using False r1 len size b_def BUFFLEN_def by (auto simp: read_size_def take_packet_def c_simps)
      then show ?thesis
        unfolding store coll using True two False empty size len r1
        by (auto simp: holds_def b_def)
    qed
  next
    case False
    show ?thesis
    proof (cases "2 \<le> length v")
      case True
      have "search_start r1 = (if ends_with_start v
          then Some ((clear_buffer (if length v - 2 > 0 then r1\<lparr>bytes_garbage := bytes_garbage r1 + of_nat (length v - 2)\<rparr> else r1))
              \<lparr>buf_idx := 2, rx_buf := (replicate BUFFLEN 0)[0 := TXSTART0, 1 := TXSTART1]\<rparr>)
          else Some r1)"
        using True r1 len nth [of "length v - 1"] nth [of "length v - 2"]
        by (auto simp: search_start_def ends_with_start_nth c_simps clear_buffer_def Let_def)
      moreover have "(replicate BUFFLEN (0 :: u8))[0 := TXSTART0, 1 := TXSTART1] = [TXSTART0, TXSTART1] @ replicate (BUFFLEN - 2) 0"
        by (simp add: BUFFLEN_def numeral_eq_Suc)
      ultimately show ?thesis
        unfolding store coll using True False len r1 by (auto simp: holds_def b_def BUFFLEN_def)
    next
      case short: False
      then have "\<not> ends_with_start v" by (simp add: ends_with_start_nth)
      then show ?thesis
        unfolding store coll using short False len r1 by (auto simp: holds_def b_def)
    qed
  qed
qed


lemma receive_byte_collect:
  assumes "holds r w"
  shows "\<exists>r'. receive_byte c r = Some (r', snd (collect c w)) \<and> holds r' (fst (collect c w))"
proof -
  have more: "holds (r\<lparr>data_received := n\<rparr>) w" if "holds r w" for r w n using that by (simp add: holds_def)
  have pass: "\<exists>r'. receive_pass (Some c) r = Some (r', True, snd (collect c w)) \<and> holds r' (fst (collect c w))"
    if h: "holds r w" and l: "length w < BUFFLEN" for r w
  proof -
    have "buf_idx r < BUFFLEN" using h l by (simp add: holds_def)
    with store_byte_collect [OF more [OF h, of "data_received r + 1"] l, of c] show ?thesis
      by (auto simp: receive_pass_def)
  qed
  show ?thesis
  proof (cases "length w < BUFFLEN")
    case True
    from pass [OF assms this] show ?thesis by (auto simp: receive_byte_def)
  next
    case False
    then have full: "length w = BUFFLEN" "buf_idx r = BUFFLEN" using assms by (simp_all add: holds_def)
    obtain r1 where r1: "receive_pass (Some c) r = Some (r1, False, None)" "holds r1 []"
      using full by (simp add: receive_pass_def holds_def clear_buffer_def starts_packet_def)
    moreover have "collect c w = collect c []" using full by (simp add: collect_def BUFFLEN_def)
    ultimately show ?thesis using pass [OF r1(2)] by (auto simp: receive_byte_def BUFFLEN_def)
  qed
qed

lemma receiver_implements_collector:
  assumes "holds r w"
  shows "\<exists>r'. receive_stream cs r = Some (r', snd (collect_all cs w)) \<and> holds r' (fst (collect_all cs w))"
  using assms
proof (induction cs arbitrary: r w)
  case (Cons c cs)
  from receive_byte_collect [OF Cons.prems, of c] obtain r1 where
    r1: "receive_byte c r = Some (r1, snd (collect c w))" "holds r1 (fst (collect c w))" by blast
  from Cons.IH [OF r1(2)] r1(1) show ?case by (auto split: prod.split)
qed simp

text \<open>
  C13. Refinement: the receiver with its fixed buffer, index and remembered size implements the
  collector of byte lists, on every stream, without an access outside the buffer.
\<close>

theorem receiver_refines_collector:
  assumes "holds r w"
  shows "\<exists>r'. receive_stream cs r = Some (r', snd (collect_all cs w)) \<and> holds r' (fst (collect_all cs w))"
  using assms by (rule receiver_implements_collector)

theorem receiver_refines_collector_witness:
  "\<exists>r'. receive_stream [0x41, 0x7E, 0x23, 0, 3, 2, 8, 9] rx_start = Some (r', [[0x7E, 0x23, 0, 3, 2, 8, 9]]) \<and> holds r' []"
proof -
  have "collect_all [0x41, 0x7E, 0x23, 0, 3, 2, 8, 9] [] = ([], [[0x7E, 0x23, 0, 3, 2, 8, 9]])"
    by code_simp
  with receiver_refines_collector [OF holds_start, of "[0x41, 0x7E, 0x23, 0, 3, 2, 8, 9]"] show ?thesis by simp
qed

subsection \<open>What is handed over\<close>

definition well_framed :: "u8 list \<Rightarrow> bool" where
  "well_framed p \<longleftrightarrow> starts_packet p \<and> 7 \<le> length p \<and> length p \<le> BUFFLEN \<and> length p = size_field p + 4"

lemma collect_all_well_framed:
  "length w \<le> BUFFLEN \<Longrightarrow> length (fst (collect_all cs w)) \<le> BUFFLEN \<and> (\<forall>p\<in>set (snd (collect_all cs w)). well_framed p)"
proof (induction cs arbitrary: w)
  case (Cons c cs)
  have "length (fst (collect c w)) \<le> BUFFLEN \<and> (\<forall>p. snd (collect c w) = Some p \<longrightarrow> well_framed p)"
    using Cons.prems by (auto simp: collect_def well_framed_def Let_def BUFFLEN_def)
  with Cons.IH [of "fst (collect c w)"] show ?case by (auto split: prod.split option.split)
qed simp

text \<open>
  C15. Safety: whatever bytes the server or an attacker sends, no access of the receiver is outside its
  buffer, every packet it hands over is framed as its size field says, and
  \<^verbatim>\<open>proccess_packet\<close> finds a type and at least two bytes of data in it.
\<close>

theorem receiver_safe:
  "\<exists>r' ps. receive_stream cs rx_start = Some (r', ps)
     \<and> (\<forall>p\<in>set ps. well_framed p \<and> (\<exists>d. proccess_packet p (of_nat (length p)) = Some d
          \<and> (case d of ServerReplyPacket b \<Rightarrow> 2 \<le> length b | CtrCmdPacket b \<Rightarrow> 2 \<le> length b | NotIdentified \<Rightarrow> True)))"
proof -
  obtain r' where r': "receive_stream cs rx_start = Some (r', snd (collect_all cs []))"
    using receiver_implements_collector [OF holds_start] by blast
  have "\<exists>d. proccess_packet p (of_nat (length p)) = Some d
      \<and> (case d of ServerReplyPacket b \<Rightarrow> 2 \<le> length b | CtrCmdPacket b \<Rightarrow> 2 \<le> length b | NotIdentified \<Rightarrow> True)"
    if "well_framed p" for p
  proof -
    from that have p: "7 \<le> length p" "length p \<le> 4096" by (simp_all add: well_framed_def BUFFLEN_def)
    then have "unat (of_nat (length p) :: 16 word) = length p" by (simp add: unat_of_nat)
    with p show ?thesis by (auto simp: proccess_packet_def Let_def c_simps)
  qed
  with r' collect_all_well_framed [of "[]" cs] show ?thesis by (auto simp: BUFFLEN_def)
qed

theorem receiver_safe_witness:
  "\<exists>r'. receive_stream [0x41, 0x7E, 0x23, 0, 3, 2, 8, 9] rx_start = Some (r', [[0x7E, 0x23, 0, 3, 2, 8, 9]])
     \<and> well_framed [0x7E, 0x23, 0, 3, 2, 8, 9]"
proof -
  have "collect_all [0x41, 0x7E, 0x23, 0, 3, 2, 8, 9] [] = ([], [[0x7E, 0x23, 0, 3, 2, 8, 9]])"
    by code_simp
  then have "\<exists>r'. receive_stream [0x41, 0x7E, 0x23, 0, 3, 2, 8, 9] rx_start = Some (r', [[0x7E, 0x23, 0, 3, 2, 8, 9]])"
    using receiver_implements_collector [OF holds_start, of "[0x41, 0x7E, 0x23, 0, 3, 2, 8, 9]"] by auto
  with receiver_safe [of "[0x41, 0x7E, 0x23, 0, 3, 2, 8, 9]"] show ?thesis by auto
qed


subsection \<open>From the sender to the receiver\<close>

definition frame :: "prepared_packet \<Rightarrow> u8 list" where
  "frame p = concat (packet_pieces p)"

text \<open>A packet the receiver can take: two to 4091 bytes of data.\<close>

definition sendable :: "prepared_packet \<Rightarrow> bool" where
  "sendable p \<longleftrightarrow> unat (pp_len p) = length (pp_buf p) \<and> 2 \<le> length (pp_buf p) \<and> length (pp_buf p) + 5 \<le> BUFFLEN"

text \<open>Bytes without the start sequence.\<close>

definition quiet :: "u8 list \<Rightarrow> bool" where
  "quiet g \<longleftrightarrow> (\<forall>i\<in>set [0..<length g - 1]. \<not> (g ! i = TXSTART0 \<and> g ! Suc i = TXSTART1))"

lemma quiet_def': "quiet g \<longleftrightarrow> (\<forall>i. Suc i < length g \<longrightarrow> \<not> (g ! i = TXSTART0 \<and> g ! Suc i = TXSTART1))"
  by (auto simp: quiet_def less_diff_conv)

lemma collect_all_append:
  "collect_all (cs @ ds) w =
     (fst (collect_all ds (fst (collect_all cs w))), snd (collect_all cs w) @ snd (collect_all ds (fst (collect_all cs w))))"
  by (induction cs arbitrary: w) (auto split: prod.split option.split)

lemma quiet_prefix: "quiet (a @ b) \<Longrightarrow> quiet a"
  unfolding quiet_def'
proof (intro allI impI)
  fix i assume q: "\<forall>i. Suc i < length (a @ b) \<longrightarrow> \<not> ((a @ b) ! i = TXSTART0 \<and> (a @ b) ! Suc i = TXSTART1)" and i: "Suc i < length a"
  then have "(a @ b) ! i = a ! i" "(a @ b) ! Suc i = a ! Suc i" by (simp_all add: nth_append)
  with q [rule_format, of i] i show "\<not> (a ! i = TXSTART0 \<and> a ! Suc i = TXSTART1)" by simp
qed

lemma quiet_not_start: "quiet w \<Longrightarrow> \<not> starts_packet w \<and> \<not> ends_with_start w"
proof -
  assume q: "quiet w"
  have "Suc (length w - 2) = length w - 1" if "2 \<le> length w" using that by simp
  then show ?thesis
    using q [unfolded quiet_def', rule_format, of 0] q [unfolded quiet_def', rule_format, of "length w - 2"]
    by (auto simp: starts_packet_Cons ends_with_start_nth)
qed

lemma collect_all_quiet:
  "quiet (w @ g) \<Longrightarrow> length w + length g \<le> BUFFLEN \<Longrightarrow> collect_all g w = (w @ g, [])"
proof (induction g arbitrary: w)
  case (Cons c g)
  have "quiet (w @ [c])" using Cons.prems(1) quiet_prefix [of "w @ [c]" g] by simp
  from quiet_not_start [OF this] have "collect c w = (w @ [c], None)"
    using Cons.prems(2) by (simp add: collect_def Let_def)
  with Cons.IH [of "w @ [c]"] Cons.prems show ?case by simp
qed simp

lemma collect_all_start:
  assumes "quiet w" "length w + 2 \<le> BUFFLEN"
  shows "collect_all [TXSTART0, TXSTART1] w = ([TXSTART0, TXSTART1], [])"
proof -
  have ne: "TXSTART0 \<noteq> TXSTART1" by (simp add: TXSTART0_def TXSTART1_def)
  have q: "quiet (w @ [TXSTART0])" using assms(1) ne by (auto simp: quiet_def' nth_append less_Suc_eq)
  have 1: "collect TXSTART0 w = (w @ [TXSTART0], None)"
    using quiet_not_start [OF q] assms(2) by (simp add: collect_def Let_def)
  have "collect TXSTART1 (w @ [TXSTART0]) = ([TXSTART0, TXSTART1], None)"
  proof (cases w)
    case Nil
    then show ?thesis by (simp add: collect_def Let_def starts_packet_def BUFFLEN_def)
  next
    case (Cons a v)
    have "\<not> starts_packet (w @ [TXSTART0, TXSTART1])"
      using quiet_not_start [OF q] ne Cons by (cases v) (auto simp: starts_packet_def)
    then show ?thesis
      using assms(2) by (simp add: collect_def Let_def ends_with_start_append)
  qed
  with 1 show ?thesis by simp
qed

lemma collect_all_inside:
  assumes "starts_packet w" "4 \<le> length w" "length w + length cs < size_field w + 4" "size_field w + 4 \<le> BUFFLEN"
  shows "collect_all cs w = (w @ cs, [])"
  using assms
proof (induction cs arbitrary: w)
  case (Cons c cs)
  have s: "starts_packet (w @ [c])" "size_field (w @ [c]) = size_field w"
    using Cons.prems(1,2) by (auto simp: starts_packet_def size_field_def nth_append)
  then have "collect c w = (w @ [c], None)"
    using Cons.prems(2-4) by (simp add: collect_def Let_def)
  with Cons.IH [of "w @ [c]"] Cons.prems s show ?case by simp
qed simp

lemma packet_parts:
  assumes "sendable p"
  shows "frame p = [TXSTART0, TXSTART1] @ packet_size_bytes (pp_len p) @ [message_code (pp_type p)] @ pp_buf p"
    and "length (frame p) = length (pp_buf p) + 5" "starts_packet (frame p)"
    and "size_field (frame p) = length (pp_buf p) + 1"
proof -
  show f: "frame p = [TXSTART0, TXSTART1] @ packet_size_bytes (pp_len p) @ [message_code (pp_type p)] @ pp_buf p"
    using assms by (simp add: frame_def packet_pieces_def sendable_def)
  show "length (frame p) = length (pp_buf p) + 5" "starts_packet (frame p)"
    by (simp_all add: f packet_size_bytes_def starts_packet_def)
  define x where "x = pp_len p + 1"
  define n where "n = length (pp_buf p) + 1"
  have n: "n < 2 ^ 16" using assms by (simp add: sendable_def BUFFLEN_def n_def)
  have "of_nat (unat (pp_len p)) = pp_len p" by simp
  moreover have "unat (pp_len p) = length (pp_buf p)" using assms by (simp add: sendable_def)
  ultimately have "x = of_nat n" by (simp only: x_def n_def of_nat_add of_nat_1)
  then have x: "unat x = n" using n by (simp add: unat_of_nat)
  have "unat (ucast (drop_bit 8 x) :: u8) = n div 256"
    using n unfolding unsigned_ucast_eq unsigned_drop_bit_eq x
    by (simp add: drop_bit_eq_div take_bit_eq_mod div_less_iff_less_mult)
  moreover have "unat (ucast (x AND 0xff) :: u8) = n mod 256"
  proof -
    have "x AND 0xff = take_bit 8 x" by (simp add: take_bit_eq_mask mask_eq_exp_minus_1)
    then show ?thesis by (simp only: unsigned_ucast_eq unsigned_take_bit_eq x) (simp add: take_bit_eq_mod)
  qed
  ultimately show "size_field (frame p) = length (pp_buf p) + 1"
    by (simp add: f size_field_def packet_size_bytes_def n_def flip: x_def)
qed


lemma collect_all_frame:
  assumes "sendable p" "quiet w" "length w + 2 \<le> BUFFLEN"
  shows "collect_all (frame p) w = ([], [frame p])"
proof -
  let ?h = "[TXSTART0, TXSTART1] @ packet_size_bytes (pp_len p)"
  note f = packet_parts [OF assms(1)]
  have len: "2 \<le> length (pp_buf p)" "length (pp_buf p) + 5 \<le> BUFFLEN" using assms(1) by (simp_all add: sendable_def)
  obtain a b where ab: "packet_size_bytes (pp_len p) = [a, b]" by (simp add: packet_size_bytes_def)
  obtain body c where body: "[message_code (pp_type p)] @ pp_buf p = body @ [c]"
    using len(1) by (metis append_butlast_last_id append_is_Nil_conv not_Cons_self2)
  have fr: "frame p = [TXSTART0, TXSTART1] @ [a, b] @ body @ [c]" using f(1) ab body by simp
  have size: "size_field (?h @ xs) = length (pp_buf p) + 1" for xs
    using f(4) by (simp add: f(1) size_field_def ab)
  have bl: "length body = length (pp_buf p)" using arg_cong [OF body, of length] by simp
  have "collect_all [a, b] [TXSTART0, TXSTART1] = (?h, [])"
    using size [of "[]"] len by (simp add: collect_def Let_def ab starts_packet_def BUFFLEN_def)
  moreover have "collect_all body ?h = (?h @ body, [])"
    by (rule collect_all_inside) (use size [of "[]"] bl len in \<open>simp_all add: ab starts_packet_def\<close>)
  moreover have "collect_all [c] (?h @ body) = ([], [?h @ body @ [c]])"
    using size [of "body @ [c]"] bl len by (simp add: collect_def Let_def ab starts_packet_def)
  ultimately show ?thesis
    unfolding fr collect_all_append collect_all_start [OF assms(2,3)] fst_conv snd_conv by (simp add: ab del: collect_all.simps)
qed

lemma collect_all_frames:
  "\<forall>p\<in>set ps. sendable p \<Longrightarrow> collect_all (concat (List.map frame ps)) [] = ([], List.map frame ps)"
  by (induction ps) (simp_all add: collect_all_append collect_all_frame quiet_def' BUFFLEN_def)

definition send_fully :: "prepared_packet \<Rightarrow> server_link \<Rightarrow> server_link option" where
  "send_fully p s = map_option snd (net_send_packet [2, 2, 1, int (unat (pp_len p))] p s)"


fun send_all :: "prepared_packet list \<Rightarrow> server_link \<Rightarrow> server_link option" where
  "send_all [] s = Some s"
| "send_all (p # ps) s = send_fully p s \<bind> send_all ps"

lemma frame_pieces:
  "sendable p \<Longrightarrow> unat (pp_len p) = length (pp_buf p) \<and> take (unat (pp_len p)) (pp_buf p) = pp_buf p
     \<and> length (packet_size_bytes (pp_len p)) = 2"
  by (simp add: sendable_def packet_size_bytes_def)

lemma send_fully_wire:
  "sendable p \<Longrightarrow> \<exists>s'. send_fully p s = Some s' \<and> wire s' = wire s @ frame p"
  using frame_pieces [of p] packet_parts(1) [of p]
  by (simp add: send_fully_def net_send_packet_def packet_pieces_def send_bytes_def c_simps)

lemma send_all_wire:
  "\<forall>p\<in>set ps. sendable p \<Longrightarrow> \<exists>s'. send_all ps s = Some s' \<and> wire s' = wire s @ concat (List.map frame ps)"
proof (induction ps arbitrary: s)
  case (Cons p ps)
  from send_fully_wire [of p s] Cons.prems obtain s1 where "send_fully p s = Some s1" "wire s1 = wire s @ frame p" by auto
  with Cons.IH [of s1] Cons.prems show ?case by auto
qed simp

text \<open>
  C14. Round trip over the link. Packets written with \<^verbatim>\<open>net_send_packet\<close> are handed over by the
  receiver, each once and in order, also when bytes without the start sequence came first.
\<close>

theorem link_roundtrip:
  assumes "\<forall>p\<in>set ps. sendable p" "quiet (wire s)" "length (wire s) + 2 \<le> BUFFLEN"
  shows "\<exists>s' r'. send_all ps s = Some s'
    \<and> receive_stream (wire s') rx_start = Some (r', List.map frame ps)
    \<and> (\<forall>p\<in>set ps. proccess_packet (frame p) (of_nat (length (frame p))) =
          Some (case pp_type p of SERVER_REPLY_STATUS \<Rightarrow> ServerReplyPacket (pp_buf p) | CTR_CMD \<Rightarrow> CtrCmdPacket (pp_buf p)
                | _ \<Rightarrow> NotIdentified))"
proof -
  obtain s' where s': "send_all ps s = Some s'" "wire s' = wire s @ concat (List.map frame ps)"
    using send_all_wire [OF assms(1)] by blast
  have "snd (collect_all (wire s') []) = List.map frame ps"
  proof (cases ps)
    case Nil
    then show ?thesis using collect_all_quiet [of "[]" "wire s"] assms(2,3) s'(2) by simp
  next
    case (Cons p qs)
    then show ?thesis
      using collect_all_quiet [of "[]" "wire s"] collect_all_frame [of p "wire s"] collect_all_frames [of qs] assms s'(2)
      by (simp add: collect_all_append)
  qed
  then have "\<exists>r'. receive_stream (wire s') rx_start = Some (r', List.map frame ps)"
    using receiver_implements_collector [OF holds_start, of "wire s'"] by auto
  moreover have "proccess_packet (frame p) (of_nat (length (frame p))) =
      Some (case pp_type p of SERVER_REPLY_STATUS \<Rightarrow> ServerReplyPacket (pp_buf p) | CTR_CMD \<Rightarrow> CtrCmdPacket (pp_buf p)
            | _ \<Rightarrow> NotIdentified)" if "sendable p" for p
  proof -
    have "length (frame p) \<le> 4096" using that packet_parts(2) [OF that] by (simp add: sendable_def BUFFLEN_def)
    then have "unat (of_nat (length (frame p)) :: 16 word) = length (frame p)" by (simp add: unat_of_nat)
    then show ?thesis
      using packet_parts(1,2) [OF that]
      by (simp add: proccess_packet_def packet_size_bytes_def c_simps Let_def message_code_def split: message_type.split)
  qed
  ultimately show ?thesis using s'(1) assms(1) by blast
qed

definition link_idle :: server_link where
  "link_idle = \<lparr>airnav_socket = 3, airnav_com_inited = 1, global_data_sent = 0, packets_total = 0, packets_last = 0, wire = []\<rparr>"

theorem link_roundtrip_witness:
  "\<exists>s' r'. send_all [\<lparr>pp_buf = [8, 1], pp_len = 2, pp_type = CTR_CMD\<rparr>] (link_idle\<lparr>wire := [0x7E, 0x41]\<rparr>) = Some s'
    \<and> receive_stream (wire s') rx_start = Some (r', [[0x7E, 0x23, 0, 3, 8, 8, 1]])
    \<and> proccess_packet [0x7E, 0x23, 0, 3, 8, 8, 1] 7 = Some (CtrCmdPacket [8, 1])"
proof -
  let ?p = "\<lparr>pp_buf = [8, 1], pp_len = 2, pp_type = CTR_CMD\<rparr>"
  have "sendable ?p" "quiet [0x7E, 0x41]" "frame ?p = [0x7E, 0x23, 0, 3, 8, 8, 1]"
    by (simp_all add: sendable_def BUFFLEN_def quiet_def' TXSTART1_def TXSTART0_def frame_def packet_pieces_def
        packet_size_bytes_def message_code_def)
  then show ?thesis
    using link_roundtrip [of "[?p]" "link_idle\<lparr>wire := [0x7E, 0x41]\<rparr>"] by (simp add: BUFFLEN_def)
qed


text \<open>
  C39. Loss of synchronisation at the end of the buffer. When the first of the two start bytes is the
  last byte that fits into the buffer, the buffer is cleared before the second arrives, and
  the packet is lost although nothing was wrong with it.
\<close>

theorem start_across_buffer_end_lost:
  assumes "sendable p" "quiet (tl (frame p))" "TXSTART0 \<notin> set g" "length g = BUFFLEN - 1"
  shows "\<exists>r'. receive_stream (g @ frame p) rx_start = Some (r', [])"
proof -
  have g: "quiet (g @ [TXSTART0])"
    unfolding quiet_def' using assms(3) by (auto simp: nth_append TXSTART0_def TXSTART1_def) (metis Suc_lessD nth_mem)
  obtain rest where fr: "frame p = [TXSTART0] @ rest" "rest = TXSTART1 # tl rest" "length rest \<le> BUFFLEN" "rest = tl (frame p)"
    using packet_parts(1,2) [OF assms(1)] assms(1) by (simp add: sendable_def)
  have "collect_all (g @ [TXSTART0]) [] = (g @ [TXSTART0], [])"
    using collect_all_quiet [of "[]" "g @ [TXSTART0]"] g assms(4) by (simp add: BUFFLEN_def)
  moreover have "collect_all rest (g @ [TXSTART0]) = collect_all rest []"
    using fr(2) assms(4) by (cases rest) (simp_all add: collect_def BUFFLEN_def)
  moreover have "collect_all rest [] = (rest, [])"
    using collect_all_quiet [of "[]" rest] assms(2) fr(3,4) by simp
  ultimately have "snd (collect_all (g @ frame p) []) = []"
    unfolding fr(1) using collect_all_append [of "g @ [TXSTART0]" rest "[]"] by (simp del: collect_all.simps)
  then show ?thesis
    using receiver_implements_collector [OF holds_start, of "g @ frame p"] by auto
qed

theorem start_across_buffer_end_lost_witness:
  "\<exists>r'. receive_stream (replicate 4095 0 @ [0x7E, 0x23, 0, 3, 8, 8, 1]) rx_start = Some (r', [])"
proof -
  let ?p = "\<lparr>pp_buf = [8, 1], pp_len = 2, pp_type = CTR_CMD\<rparr>"
  have "quiet [0x23, 0, 3, 8, 8, 1]" by code_simp
  moreover have "sendable ?p" "frame ?p = [0x7E, 0x23, 0, 3, 8, 8, 1]"
    by (simp_all add: sendable_def BUFFLEN_def TXSTART1_def TXSTART0_def frame_def packet_pieces_def
        packet_size_bytes_def message_code_def)
  ultimately show ?thesis
    using start_across_buffer_end_lost [of ?p "replicate 4095 0"] by (simp add: BUFFLEN_def TXSTART0_def)
qed




end
