(* ===== verification/FeederCorrect.thy ===== *)
theory FeederCorrect
  imports Feeder ServerLinkCorrect
begin

text \<open>
  What the feeder reports. A view of the work on an aircraft is an emitted item with
  its field of the report; every step keeps the views of the others, so what becomes of a field is
  what its step does to it. The lemmas \<open>prepare_due\<close> and \<open>prepare_further\<close> are the results for a whole round.
\<close>

named_theorems report_kept

subsection \<open>Each step changes only its own fields\<close>

lemma asterix_doD: "asterix_do E f p = Some q \<Longrightarrow> \<exists>k. q = p\<lparr>ast := k\<rparr>"
  by (rule exI [of _ "ast q"]) (auto simp: asterix_do_def split: option.splits)

lemmas step_defs = Let_def set_both_def set_acf_def

definition v_callsign where "v_callsign p = (em_callsign (em p), pd_callsign (acf p))"
definition v_altitude where "v_altitude p = (em_altitude_baro (em p), pd_altitude (acf p))"
definition v_geo where "v_geo p = (em_altitude_geom (em p), pd_altitude_geo (acf p))"
definition v_position where "v_position p = (em_pos_nic (em p), pd_pos_nic (acf p))"
definition v_heading where "v_heading p = (em_mag_heading (em p), pd_heading (acf p))"
definition v_gs where "v_gs p = (em_gs (em p), pd_gnd_speed (acf p))"
definition v_ias where "v_ias p = (em_ias (em p), pd_ias (acf p))"
definition v_squawk where "v_squawk p = (em_squawk (em p), pd_squawk (acf p))"
definition v_nic where "v_nic p = (em_nic_baro (em p), pd_nic_baro (acf p))"
definition v_addr where "v_addr p = pd_modes_addr (acf p)"
definition v_place where "v_place p = pd_position (acf p)"
definition v_rate where "v_rate p = (em_geom_rate (em p), em_baro_rate (em p), pd_vert_rate (acf p))"
definition v_airborne where "v_airborne p = (em_airborne (em p), pd_airborne (acf p))"
definition v_weather where "v_weather p = (em_temperature (em p), em_wind (em p), pd_temperature (acf p), pd_wind (acf p))"
definition v_navigation where
  "v_navigation p = (em_nav_modes (em p), em_nav_altitude_fms (em p), em_nav_altitude_mcp (em p), em_nav_qnh (em p),
     pd_nav_modes (acf p), pd_nav_altitude_fms (acf p), pd_nav_altitude_mcp (acf p), pd_nav_qnh (acf p))"
definition v_accuracy where
  "v_accuracy p = (em_nac_p (em p), em_nac_v (em p), em_sil (em p), pd_nac_p (acf p), pd_nac_v (acf p), pd_sil (acf p))"

lemmas view_defs = v_callsign_def v_altitude_def v_geo_def v_position_def v_place_def v_heading_def v_gs_def v_ias_def v_squawk_def v_nic_def v_addr_def
  v_rate_def v_airborne_def v_weather_def v_navigation_def v_accuracy_def

lemma report_gs_kept [report_kept]:
  "v_callsign (report_gs E b p) = v_callsign p" "v_altitude (report_gs E b p) = v_altitude p"
  "v_geo (report_gs E b p) = v_geo p" "v_position (report_gs E b p) = v_position p"
  "v_place (report_gs E b p) = v_place p" "v_heading (report_gs E b p) = v_heading p"
  "v_ias (report_gs E b p) = v_ias p" "v_squawk (report_gs E b p) = v_squawk p" "v_nic (report_gs E b p) = v_nic p"
  "v_addr (report_gs E b p) = v_addr p"
  "v_rate (report_gs E b p) = v_rate p" "v_airborne (report_gs E b p) = v_airborne p"
  "v_weather (report_gs E b p) = v_weather p" "v_navigation (report_gs E b p) = v_navigation p" "v_accuracy (report_gs E b p) = v_accuracy p"
  by (simp_all add: report_gs_def view_defs step_defs split: option.split)

lemma report_geom_rate_kept [report_kept]:
  "v_callsign (report_geom_rate E b p) = v_callsign p" "v_altitude (report_geom_rate E b p) = v_altitude p"
  "v_geo (report_geom_rate E b p) = v_geo p" "v_position (report_geom_rate E b p) = v_position p"
  "v_place (report_geom_rate E b p) = v_place p" "v_heading (report_geom_rate E b p) = v_heading p"
  "v_gs (report_geom_rate E b p) = v_gs p" "v_ias (report_geom_rate E b p) = v_ias p"
  "v_squawk (report_geom_rate E b p) = v_squawk p" "v_nic (report_geom_rate E b p) = v_nic p"
  "v_addr (report_geom_rate E b p) = v_addr p"
  "v_airborne (report_geom_rate E b p) = v_airborne p" "v_weather (report_geom_rate E b p) = v_weather p"
  "v_navigation (report_geom_rate E b p) = v_navigation p" "v_accuracy (report_geom_rate E b p) = v_accuracy p"
  by (simp_all add: report_geom_rate_def view_defs step_defs split: option.split)

lemma report_baro_rate_kept [report_kept]:
  "v_callsign (report_baro_rate E b p) = v_callsign p" "v_altitude (report_baro_rate E b p) = v_altitude p"
  "v_geo (report_baro_rate E b p) = v_geo p" "v_position (report_baro_rate E b p) = v_position p"
  "v_place (report_baro_rate E b p) = v_place p" "v_heading (report_baro_rate E b p) = v_heading p"
  "v_gs (report_baro_rate E b p) = v_gs p" "v_ias (report_baro_rate E b p) = v_ias p"
  "v_squawk (report_baro_rate E b p) = v_squawk p" "v_nic (report_baro_rate E b p) = v_nic p"
  "v_addr (report_baro_rate E b p) = v_addr p"
  "v_airborne (report_baro_rate E b p) = v_airborne p" "v_weather (report_baro_rate E b p) = v_weather p"
  "v_navigation (report_baro_rate E b p) = v_navigation p" "v_accuracy (report_baro_rate E b p) = v_accuracy p"
  by (simp_all add: report_baro_rate_def view_defs step_defs split: option.split)

lemma report_vert_rate_kept [report_kept]:
  "v_callsign (report_vert_rate E b p) = v_callsign p" "v_altitude (report_vert_rate E b p) = v_altitude p"
  "v_geo (report_vert_rate E b p) = v_geo p" "v_position (report_vert_rate E b p) = v_position p"
  "v_place (report_vert_rate E b p) = v_place p" "v_heading (report_vert_rate E b p) = v_heading p"
  "v_gs (report_vert_rate E b p) = v_gs p" "v_ias (report_vert_rate E b p) = v_ias p"
  "v_squawk (report_vert_rate E b p) = v_squawk p" "v_nic (report_vert_rate E b p) = v_nic p"
  "v_addr (report_vert_rate E b p) = v_addr p"
  "v_airborne (report_vert_rate E b p) = v_airborne p" "v_weather (report_vert_rate E b p) = v_weather p"
  "v_navigation (report_vert_rate E b p) = v_navigation p" "v_accuracy (report_vert_rate E b p) = v_accuracy p"
  by (simp_all add: report_vert_rate_def report_kept)

lemma report_squawk_kept [report_kept]:
  "v_callsign (report_squawk E b p) = v_callsign p" "v_altitude (report_squawk E b p) = v_altitude p"
  "v_geo (report_squawk E b p) = v_geo p" "v_position (report_squawk E b p) = v_position p"
  "v_place (report_squawk E b p) = v_place p" "v_heading (report_squawk E b p) = v_heading p"
  "v_gs (report_squawk E b p) = v_gs p" "v_ias (report_squawk E b p) = v_ias p"
  "v_nic (report_squawk E b p) = v_nic p" "v_addr (report_squawk E b p) = v_addr p"
  "v_rate (report_squawk E b p) = v_rate p" "v_airborne (report_squawk E b p) = v_airborne p"
  "v_weather (report_squawk E b p) = v_weather p" "v_navigation (report_squawk E b p) = v_navigation p" "v_accuracy (report_squawk E b p) = v_accuracy p"
  by (simp_all add: report_squawk_def view_defs step_defs split: option.split)

lemma report_ias_kept [report_kept]:
  "v_callsign (report_ias E b p) = v_callsign p" "v_altitude (report_ias E b p) = v_altitude p"
  "v_geo (report_ias E b p) = v_geo p" "v_position (report_ias E b p) = v_position p"
  "v_place (report_ias E b p) = v_place p" "v_heading (report_ias E b p) = v_heading p"
  "v_gs (report_ias E b p) = v_gs p" "v_squawk (report_ias E b p) = v_squawk p" "v_nic (report_ias E b p) = v_nic p"
  "v_addr (report_ias E b p) = v_addr p"
  "v_rate (report_ias E b p) = v_rate p" "v_airborne (report_ias E b p) = v_airborne p"
  "v_weather (report_ias E b p) = v_weather p" "v_navigation (report_ias E b p) = v_navigation p" "v_accuracy (report_ias E b p) = v_accuracy p"
  by (simp_all add: report_ias_def view_defs step_defs split: option.split)

lemma report_mlat_kept [report_kept]:
  "v_callsign (report_mlat b p) = v_callsign p" "v_altitude (report_mlat b p) = v_altitude p"
  "v_geo (report_mlat b p) = v_geo p" "v_position (report_mlat b p) = v_position p"
  "v_place (report_mlat b p) = v_place p" "v_heading (report_mlat b p) = v_heading p"
  "v_gs (report_mlat b p) = v_gs p" "v_ias (report_mlat b p) = v_ias p" "v_squawk (report_mlat b p) = v_squawk p"
  "v_nic (report_mlat b p) = v_nic p" "v_addr (report_mlat b p) = v_addr p"
  "v_rate (report_mlat b p) = v_rate p" "v_airborne (report_mlat b p) = v_airborne p"
  "v_weather (report_mlat b p) = v_weather p" "v_navigation (report_mlat b p) = v_navigation p" "v_accuracy (report_mlat b p) = v_accuracy p"
  by (simp_all add: report_mlat_def view_defs step_defs split: option.split)

lemma report_nav_modes_kept [report_kept]:
  "v_callsign (report_nav_modes E b p) = v_callsign p" "v_altitude (report_nav_modes E b p) = v_altitude p"
  "v_geo (report_nav_modes E b p) = v_geo p" "v_position (report_nav_modes E b p) = v_position p"
  "v_place (report_nav_modes E b p) = v_place p" "v_heading (report_nav_modes E b p) = v_heading p"
  "v_gs (report_nav_modes E b p) = v_gs p" "v_ias (report_nav_modes E b p) = v_ias p"
  "v_squawk (report_nav_modes E b p) = v_squawk p" "v_nic (report_nav_modes E b p) = v_nic p"
  "v_addr (report_nav_modes E b p) = v_addr p"
  "v_rate (report_nav_modes E b p) = v_rate p" "v_airborne (report_nav_modes E b p) = v_airborne p"
  "v_weather (report_nav_modes E b p) = v_weather p" "v_accuracy (report_nav_modes E b p) = v_accuracy p"
  by (simp_all add: report_nav_modes_def view_defs step_defs split: option.split)

lemma report_fms_kept [report_kept]:
  "v_callsign (report_fms E b p) = v_callsign p" "v_altitude (report_fms E b p) = v_altitude p"
  "v_geo (report_fms E b p) = v_geo p" "v_position (report_fms E b p) = v_position p"
  "v_place (report_fms E b p) = v_place p" "v_heading (report_fms E b p) = v_heading p"
  "v_gs (report_fms E b p) = v_gs p" "v_ias (report_fms E b p) = v_ias p" "v_squawk (report_fms E b p) = v_squawk p"
  "v_nic (report_fms E b p) = v_nic p" "v_addr (report_fms E b p) = v_addr p"
  "v_rate (report_fms E b p) = v_rate p" "v_airborne (report_fms E b p) = v_airborne p"
  "v_weather (report_fms E b p) = v_weather p" "v_accuracy (report_fms E b p) = v_accuracy p"
  by (simp_all add: report_fms_def view_defs step_defs split: option.split)

lemma report_mcp_kept [report_kept]:
  "v_callsign (report_mcp E b p) = v_callsign p" "v_altitude (report_mcp E b p) = v_altitude p"
  "v_geo (report_mcp E b p) = v_geo p" "v_position (report_mcp E b p) = v_position p"
  "v_place (report_mcp E b p) = v_place p" "v_heading (report_mcp E b p) = v_heading p"
  "v_gs (report_mcp E b p) = v_gs p" "v_ias (report_mcp E b p) = v_ias p" "v_squawk (report_mcp E b p) = v_squawk p"
  "v_nic (report_mcp E b p) = v_nic p" "v_addr (report_mcp E b p) = v_addr p"
  "v_rate (report_mcp E b p) = v_rate p" "v_airborne (report_mcp E b p) = v_airborne p"
  "v_weather (report_mcp E b p) = v_weather p" "v_accuracy (report_mcp E b p) = v_accuracy p"
  by (simp_all add: report_mcp_def view_defs step_defs split: option.split)

lemma report_altitude_src_kept [report_kept]:
  "v_callsign (report_altitude_src E b p) = v_callsign p" "v_altitude (report_altitude_src E b p) = v_altitude p"
  "v_geo (report_altitude_src E b p) = v_geo p" "v_position (report_altitude_src E b p) = v_position p"
  "v_place (report_altitude_src E b p) = v_place p" "v_heading (report_altitude_src E b p) = v_heading p"
  "v_gs (report_altitude_src E b p) = v_gs p" "v_ias (report_altitude_src E b p) = v_ias p"
  "v_squawk (report_altitude_src E b p) = v_squawk p" "v_nic (report_altitude_src E b p) = v_nic p"
  "v_addr (report_altitude_src E b p) = v_addr p"
  "v_rate (report_altitude_src E b p) = v_rate p" "v_airborne (report_altitude_src E b p) = v_airborne p"
  "v_weather (report_altitude_src E b p) = v_weather p" "v_navigation (report_altitude_src E b p) = v_navigation p" "v_accuracy (report_altitude_src E b p) = v_accuracy p"
  by (simp_all add: report_altitude_src_def view_defs step_defs split: option.split nav_altitude_source_t.split)

lemma report_qnh_kept [report_kept]:
  "v_callsign (report_qnh E b p) = v_callsign p" "v_altitude (report_qnh E b p) = v_altitude p"
  "v_geo (report_qnh E b p) = v_geo p" "v_position (report_qnh E b p) = v_position p"
  "v_place (report_qnh E b p) = v_place p" "v_heading (report_qnh E b p) = v_heading p"
  "v_gs (report_qnh E b p) = v_gs p" "v_ias (report_qnh E b p) = v_ias p" "v_squawk (report_qnh E b p) = v_squawk p"
  "v_nic (report_qnh E b p) = v_nic p" "v_addr (report_qnh E b p) = v_addr p"
  "v_rate (report_qnh E b p) = v_rate p" "v_airborne (report_qnh E b p) = v_airborne p"
  "v_weather (report_qnh E b p) = v_weather p" "v_accuracy (report_qnh E b p) = v_accuracy p"
  by (simp_all add: report_qnh_def view_defs step_defs split: option.split)

lemma report_nav_heading_kept [report_kept]:
  "v_callsign (report_nav_heading E b p) = v_callsign p" "v_altitude (report_nav_heading E b p) = v_altitude p"
  "v_geo (report_nav_heading E b p) = v_geo p" "v_position (report_nav_heading E b p) = v_position p"
  "v_place (report_nav_heading E b p) = v_place p" "v_heading (report_nav_heading E b p) = v_heading p"
  "v_gs (report_nav_heading E b p) = v_gs p" "v_ias (report_nav_heading E b p) = v_ias p"
  "v_squawk (report_nav_heading E b p) = v_squawk p" "v_nic (report_nav_heading E b p) = v_nic p"
  "v_addr (report_nav_heading E b p) = v_addr p"
  "v_rate (report_nav_heading E b p) = v_rate p" "v_airborne (report_nav_heading E b p) = v_airborne p"
  "v_weather (report_nav_heading E b p) = v_weather p" "v_navigation (report_nav_heading E b p) = v_navigation p" "v_accuracy (report_nav_heading E b p) = v_accuracy p"
  by (simp_all add: report_nav_heading_def view_defs step_defs split: option.split)

lemma report_nic_baro_kept [report_kept]:
  "v_callsign (report_nic_baro E b p) = v_callsign p" "v_altitude (report_nic_baro E b p) = v_altitude p"
  "v_geo (report_nic_baro E b p) = v_geo p" "v_position (report_nic_baro E b p) = v_position p"
  "v_place (report_nic_baro E b p) = v_place p" "v_heading (report_nic_baro E b p) = v_heading p"
  "v_gs (report_nic_baro E b p) = v_gs p" "v_ias (report_nic_baro E b p) = v_ias p"
  "v_squawk (report_nic_baro E b p) = v_squawk p" "v_addr (report_nic_baro E b p) = v_addr p"
  "v_rate (report_nic_baro E b p) = v_rate p" "v_airborne (report_nic_baro E b p) = v_airborne p"
  "v_weather (report_nic_baro E b p) = v_weather p" "v_navigation (report_nic_baro E b p) = v_navigation p" "v_accuracy (report_nic_baro E b p) = v_accuracy p"
  by (simp_all add: report_nic_baro_def view_defs step_defs split: option.split)

lemma report_nac_p_kept [report_kept]:
  "v_callsign (report_nac_p E b p) = v_callsign p" "v_altitude (report_nac_p E b p) = v_altitude p"
  "v_geo (report_nac_p E b p) = v_geo p" "v_position (report_nac_p E b p) = v_position p"
  "v_place (report_nac_p E b p) = v_place p" "v_heading (report_nac_p E b p) = v_heading p"
  "v_gs (report_nac_p E b p) = v_gs p" "v_ias (report_nac_p E b p) = v_ias p"
  "v_squawk (report_nac_p E b p) = v_squawk p" "v_nic (report_nac_p E b p) = v_nic p"
  "v_addr (report_nac_p E b p) = v_addr p"
  "v_rate (report_nac_p E b p) = v_rate p" "v_airborne (report_nac_p E b p) = v_airborne p"
  "v_weather (report_nac_p E b p) = v_weather p" "v_navigation (report_nac_p E b p) = v_navigation p"
  by (simp_all add: report_nac_p_def view_defs step_defs split: option.split)

lemma report_nac_v_kept [report_kept]:
  "v_callsign (report_nac_v E b p) = v_callsign p" "v_altitude (report_nac_v E b p) = v_altitude p"
  "v_geo (report_nac_v E b p) = v_geo p" "v_position (report_nac_v E b p) = v_position p"
  "v_place (report_nac_v E b p) = v_place p" "v_heading (report_nac_v E b p) = v_heading p"
  "v_gs (report_nac_v E b p) = v_gs p" "v_ias (report_nac_v E b p) = v_ias p"
  "v_squawk (report_nac_v E b p) = v_squawk p" "v_nic (report_nac_v E b p) = v_nic p"
  "v_addr (report_nac_v E b p) = v_addr p"
  "v_rate (report_nac_v E b p) = v_rate p" "v_airborne (report_nac_v E b p) = v_airborne p"
  "v_weather (report_nac_v E b p) = v_weather p" "v_navigation (report_nac_v E b p) = v_navigation p"
  by (simp_all add: report_nac_v_def view_defs step_defs split: option.split)

lemma report_sil_kept [report_kept]:
  "v_callsign (report_sil E b p) = v_callsign p" "v_altitude (report_sil E b p) = v_altitude p"
  "v_geo (report_sil E b p) = v_geo p" "v_position (report_sil E b p) = v_position p"
  "v_place (report_sil E b p) = v_place p" "v_heading (report_sil E b p) = v_heading p"
  "v_gs (report_sil E b p) = v_gs p" "v_ias (report_sil E b p) = v_ias p" "v_squawk (report_sil E b p) = v_squawk p"
  "v_nic (report_sil E b p) = v_nic p" "v_addr (report_sil E b p) = v_addr p"
  "v_rate (report_sil E b p) = v_rate p" "v_airborne (report_sil E b p) = v_airborne p"
  "v_weather (report_sil E b p) = v_weather p" "v_navigation (report_sil E b p) = v_navigation p"
  by (simp_all add: report_sil_def view_defs step_defs split: option.split)

lemma report_airborne_kept [report_kept]:
  "v_callsign (report_airborne E b i p) = v_callsign p" "v_altitude (report_airborne E b i p) = v_altitude p"
  "v_geo (report_airborne E b i p) = v_geo p" "v_position (report_airborne E b i p) = v_position p"
  "v_place (report_airborne E b i p) = v_place p" "v_heading (report_airborne E b i p) = v_heading p"
  "v_gs (report_airborne E b i p) = v_gs p" "v_ias (report_airborne E b i p) = v_ias p"
  "v_squawk (report_airborne E b i p) = v_squawk p" "v_nic (report_airborne E b i p) = v_nic p"
  "v_addr (report_airborne E b i p) = v_addr p"
  "v_rate (report_airborne E b i p) = v_rate p" "v_weather (report_airborne E b i p) = v_weather p"
  "v_navigation (report_airborne E b i p) = v_navigation p" "v_accuracy (report_airborne E b i p) = v_accuracy p"
  by (simp_all add: report_airborne_def view_defs step_defs split: option.split)

lemma report_ground_kept [report_kept]:
  "v_callsign (report_ground E b p) = v_callsign p" "v_altitude (report_ground E b p) = v_altitude p"
  "v_geo (report_ground E b p) = v_geo p" "v_position (report_ground E b p) = v_position p"
  "v_place (report_ground E b p) = v_place p" "v_heading (report_ground E b p) = v_heading p"
  "v_gs (report_ground E b p) = v_gs p" "v_ias (report_ground E b p) = v_ias p"
  "v_squawk (report_ground E b p) = v_squawk p" "v_nic (report_ground E b p) = v_nic p"
  "v_addr (report_ground E b p) = v_addr p"
  "v_rate (report_ground E b p) = v_rate p" "v_weather (report_ground E b p) = v_weather p"
  "v_navigation (report_ground E b p) = v_navigation p" "v_accuracy (report_ground E b p) = v_accuracy p"
  by (simp_all add: report_ground_def view_defs step_defs split: option.split)

lemma report_temperature_kept [report_kept]:
  "v_callsign (report_temperature E t p) = v_callsign p" "v_altitude (report_temperature E t p) = v_altitude p"
  "v_geo (report_temperature E t p) = v_geo p" "v_position (report_temperature E t p) = v_position p"
  "v_place (report_temperature E t p) = v_place p" "v_heading (report_temperature E t p) = v_heading p"
  "v_gs (report_temperature E t p) = v_gs p" "v_ias (report_temperature E t p) = v_ias p"
  "v_squawk (report_temperature E t p) = v_squawk p" "v_nic (report_temperature E t p) = v_nic p"
  "v_addr (report_temperature E t p) = v_addr p"
  "v_rate (report_temperature E t p) = v_rate p" "v_airborne (report_temperature E t p) = v_airborne p"
  "v_navigation (report_temperature E t p) = v_navigation p" "v_accuracy (report_temperature E t p) = v_accuracy p"
  by (simp_all add: report_temperature_def view_defs step_defs split: option.split)

lemma report_wind_kept [report_kept]:
  "v_callsign (report_wind E w p) = v_callsign p" "v_altitude (report_wind E w p) = v_altitude p"
  "v_geo (report_wind E w p) = v_geo p" "v_position (report_wind E w p) = v_position p"
  "v_place (report_wind E w p) = v_place p" "v_heading (report_wind E w p) = v_heading p"
  "v_gs (report_wind E w p) = v_gs p" "v_ias (report_wind E w p) = v_ias p"
  "v_squawk (report_wind E w p) = v_squawk p" "v_nic (report_wind E w p) = v_nic p"
  "v_addr (report_wind E w p) = v_addr p"
  "v_rate (report_wind E w p) = v_rate p" "v_airborne (report_wind E w p) = v_airborne p"
  "v_navigation (report_wind E w p) = v_navigation p" "v_accuracy (report_wind E w p) = v_accuracy p"
  by (simp_all add: report_wind_def view_defs step_defs split: option.split)

lemma report_callsign_kept:
  "report_callsign E b p = Some q \<Longrightarrow>
   v_altitude q = v_altitude p \<and> v_geo q = v_geo p \<and> v_position q = v_position p \<and>
   v_place q = v_place p \<and> v_heading q = v_heading p \<and> v_gs q = v_gs p \<and> v_ias q = v_ias p \<and>
   v_squawk q = v_squawk p \<and> v_nic q = v_nic p \<and> v_addr q = v_addr p \<and>
   v_rate q = v_rate p \<and> v_airborne q = v_airborne p \<and> v_weather q = v_weather p \<and> v_navigation q = v_navigation p \<and> v_accuracy q = v_accuracy p"
  by (auto simp: report_callsign_def view_defs step_defs Option.bind_eq_Some_conv dest!: asterix_doD split: option.splits if_splits prod.splits)

lemma report_altitude_geom_kept:
  "report_altitude_geom E b p = Some q \<Longrightarrow>
   v_callsign q = v_callsign p \<and> v_altitude q = v_altitude p \<and> v_position q = v_position p \<and>
   v_place q = v_place p \<and> v_heading q = v_heading p \<and> v_gs q = v_gs p \<and> v_ias q = v_ias p \<and>
   v_squawk q = v_squawk p \<and> v_nic q = v_nic p \<and> v_addr q = v_addr p \<and>
   v_rate q = v_rate p \<and> v_weather q = v_weather p \<and> v_navigation q = v_navigation p \<and> v_accuracy q = v_accuracy p"
  by (auto simp: report_altitude_geom_def report_airborne_def view_defs step_defs Option.bind_eq_Some_conv dest!: asterix_doD split: option.splits if_splits prod.splits)

lemma report_altitude_baro_kept:
  "report_altitude_baro E b p = Some q \<Longrightarrow>
   v_callsign q = v_callsign p \<and> v_geo q = v_geo p \<and> v_position q = v_position p \<and>
   v_place q = v_place p \<and> v_heading q = v_heading p \<and> v_gs q = v_gs p \<and> v_ias q = v_ias p \<and>
   v_squawk q = v_squawk p \<and> v_nic q = v_nic p \<and> v_addr q = v_addr p \<and>
   v_rate q = v_rate p \<and> v_weather q = v_weather p \<and> v_navigation q = v_navigation p \<and> v_accuracy q = v_accuracy p"
  by (auto simp: report_altitude_baro_def report_airborne_def view_defs step_defs Option.bind_eq_Some_conv dest!: asterix_doD split: option.splits if_splits prod.splits)

lemma report_position_kept:
  "report_position E b p = Some q \<Longrightarrow>
   v_callsign q = v_callsign p \<and> v_altitude q = v_altitude p \<and> v_geo q = v_geo p \<and>
   v_heading q = v_heading p \<and> v_gs q = v_gs p \<and> v_ias q = v_ias p \<and> v_squawk q = v_squawk p \<and>
   v_nic q = v_nic p \<and> v_addr q = v_addr p \<and>
   v_rate q = v_rate p \<and> v_airborne q = v_airborne p \<and> v_weather q = v_weather p \<and> v_navigation q = v_navigation p \<and> v_accuracy q = v_accuracy p"
  by (auto simp: report_position_def view_defs step_defs Option.bind_eq_Some_conv dest!: asterix_doD split: option.splits if_splits prod.splits)

lemma report_heading_kept:
  "report_heading E b p = Some q \<Longrightarrow>
   v_callsign q = v_callsign p \<and> v_altitude q = v_altitude p \<and> v_geo q = v_geo p \<and>
   v_position q = v_position p \<and> v_place q = v_place p \<and> v_gs q = v_gs p \<and> v_ias q = v_ias p \<and>
   v_squawk q = v_squawk p \<and> v_nic q = v_nic p \<and> v_addr q = v_addr p \<and>
   v_rate q = v_rate p \<and> v_airborne q = v_airborne p \<and> v_weather q = v_weather p \<and> v_navigation q = v_navigation p \<and> v_accuracy q = v_accuracy p"
  by (auto simp: report_heading_def view_defs step_defs Option.bind_eq_Some_conv dest!: asterix_doD split: option.splits if_splits prod.splits)

lemma report_tas_kept:
  "report_tas E b p = Some q \<Longrightarrow>
   v_callsign q = v_callsign p \<and> v_altitude q = v_altitude p \<and> v_geo q = v_geo p \<and>
   v_position q = v_position p \<and> v_place q = v_place p \<and> v_heading q = v_heading p \<and>
   v_gs q = v_gs p \<and> v_ias q = v_ias p \<and> v_squawk q = v_squawk p \<and> v_nic q = v_nic p \<and>
   v_addr q = v_addr p \<and>
   v_rate q = v_rate p \<and> v_airborne q = v_airborne p \<and> v_weather q = v_weather p \<and> v_navigation q = v_navigation p \<and> v_accuracy q = v_accuracy p"
  by (auto simp: report_tas_def view_defs step_defs Option.bind_eq_Some_conv dest!: asterix_doD split: option.splits if_splits prod.splits)

lemma report_weather_kept:
  "report_weather E b p = Some q \<Longrightarrow>
   v_callsign q = v_callsign p \<and> v_altitude q = v_altitude p \<and> v_geo q = v_geo p \<and>
   v_position q = v_position p \<and> v_place q = v_place p \<and> v_heading q = v_heading p \<and>
   v_gs q = v_gs p \<and> v_ias q = v_ias p \<and> v_squawk q = v_squawk p \<and> v_nic q = v_nic p \<and>
   v_addr q = v_addr p \<and>
   v_rate q = v_rate p \<and> v_airborne q = v_airborne p \<and> v_navigation q = v_navigation p \<and> v_accuracy q = v_accuracy p"
  by (auto simp: report_weather_def Let_def report_kept Option.bind_eq_Some_conv split: option.splits if_splits)

lemma start_asterixD: "start_asterix E p = Some q \<Longrightarrow> \<exists>k. q = p\<lparr>ast := k\<rparr>"
  by (rule exI [of _ "ast q"]) (auto simp: start_asterix_def Option.bind_eq_Some_conv dest!: asterix_doD split: option.splits)

lemma report_head_frame:
  "report_head E b p = Some q \<Longrightarrow>
   \<exists>k. q = p\<lparr>acf := (acf p)\<lparr>pd_modes_addr := if non_icao_aircraft b then pd_modes_addr (acf p) else Some (ac_addr b), pd_timestp := fe_now E\<rparr>,
     acf2 := (acf2 p)\<lparr>pd_modes_addr := if non_icao_aircraft b then pd_modes_addr (acf2 p) else Some (ac_addr b), pd_timestp := fe_now E\<rparr>,
     ast := k\<rparr>"
proof -
  assume "report_head E b p = Some q"
  then obtain p1 p2 where p1: "start_asterix E p = Some p1" and p2: "report_address E b p1 = Some p2"
    and q: "q = p2\<lparr>acf := (acf p2)\<lparr>pd_timestp := fe_now E\<rparr>, acf2 := (acf2 p2)\<lparr>pd_timestp := fe_now E\<rparr>\<rparr>"
    by (auto simp: report_head_def Option.bind_eq_Some_conv)
  obtain k1 where k1: "p1 = p\<lparr>ast := k1\<rparr>" using start_asterixD [OF p1] by blast
  show ?thesis
  proof (cases "non_icao_aircraft b")
    case True
    then have "p2 = p1" using p2 by (simp add: report_address_def)
    then show ?thesis unfolding q using k1 True by (intro exI [of _ k1]) simp
  next
    case False
    then obtain k2 where "p2 = p1\<lparr>acf := (acf p1)\<lparr>pd_modes_addr := Some (ac_addr b)\<rparr>,
        acf2 := (acf2 p1)\<lparr>pd_modes_addr := Some (ac_addr b)\<rparr>, ast := k2\<rparr>"
      using p2 by (auto simp: report_address_def dest: asterix_doD)
    then show ?thesis unfolding q using k1 False by (intro exI [of _ k2]) simp
  qed
qed

subsection \<open>What becomes of a field\<close>

text \<open>
  A field with an interval is left alone, and not reported, or it was due: the test of its interval let it
  pass, and the time of its report is remembered.
\<close>

definition due :: "feeder_env \<Rightarrow> int \<Rightarrow> bool \<Rightarrow> 'v \<Rightarrow> 'v emitted_item \<Rightarrow> 'v emitted_item \<Rightarrow> 'r option \<Rightarrow> bool" where
  "due E max_time force v e e' r \<longleftrightarrow> e' = e \<and> r = None \<or> throttle E max_time force v e = Some e'"

lemma callsign_due:
  "report_callsign E b p = Some q \<Longrightarrow> pd_callsign (acf p) = None \<Longrightarrow>
   due E 60 (force_send E b) (string_until_nul (ac_callsign b))
     (em_callsign (em p)) (em_callsign (em q)) (pd_callsign (acf q))"
  by (auto simp: report_callsign_def due_def MAX_TIME_FIELD_CALLSIGN_def Let_def dest!: asterix_doD
      split: option.splits if_splits)

lemma altitude_baro_due:
  assumes "report_altitudes E b p = Some q" "pd_altitude (acf p) = None"
  shows "due E 60 (force_send E b) (ac_altitude_baro b) (em_altitude_baro (em p)) (em_altitude_baro (em q)) (pd_altitude (acf q))"
proof (cases "on_ground E b")
  case True
  then show ?thesis
    using assms by (auto simp: report_altitudes_def report_ground_def due_def set_both_def split: option.splits)
next
  case False
  then obtain p1 where p1: "report_altitude_geom E b p = Some p1" "report_altitude_baro E b p1 = Some q"
    using assms(1) by (auto simp: report_altitudes_def Option.bind_eq_Some_conv)
  have "em_altitude_baro (em p1) = em_altitude_baro (em p)" "pd_altitude (acf p1) = None"
    using report_altitude_geom_kept [OF p1(1)] assms(2) by (simp_all add: view_defs)
  then show ?thesis
    using p1(2) False
    by (auto simp: report_altitude_baro_def report_airborne_def due_def set_both_def MAX_TIME_FIELD_ALTITUDE_def Let_def
        dest!: asterix_doD split: option.splits if_splits)
qed

lemma altitude_geom_due:
  assumes "report_altitudes E b p = Some q"
  shows "v_geo q = v_geo p \<or> throttle E 60 (force_send E b) (ac_altitude_geom b) (em_altitude_geom (em p)) = Some (em_altitude_geom (em q))"
proof (cases "on_ground E b")
  case True
  then show ?thesis using assms by (auto simp: report_altitudes_def report_kept)
next
  case False
  then obtain p1 where p1: "report_altitude_geom E b p = Some p1" "report_altitude_baro E b p1 = Some q"
    using assms by (auto simp: report_altitudes_def Option.bind_eq_Some_conv)
  have "v_geo q = v_geo p1" using report_altitude_baro_kept [OF p1(2)] by simp
  then show ?thesis
    using p1(1) by (auto simp: report_altitude_geom_def report_airborne_def v_geo_def set_both_def MAX_TIME_FIELD_ALTITUDE_def Let_def
        dest!: asterix_doD split: option.splits if_splits)
qed

lemma position_due:
  assumes "report_position E b p = Some q" "pd_pos_nic (acf p) = None" "pd_position (acf p) = None"
  shows "due E 180 (force_send E b) (pos_nic b)
     (em_pos_nic (em p)) (em_pos_nic (em q)) (pd_pos_nic (acf q))"
    and "pd_position (acf q) = (if is_recent E b V_position \<and> is_valid E b V_position then Some (ac_lat b, ac_lon b) else None)"
  using assms by (auto simp: report_position_def due_def set_both_def MAX_TIME_FIELD_POS_NIC_def Let_def
      dest!: asterix_doD split: option.splits if_splits)

lemma heading_due:
  assumes "report_heading E b p = Some q" "pd_heading (acf p) = None"
  shows "due E 60 False (f32 (ac_mag_heading b / 10))
     (em_mag_heading (em p)) (em_mag_heading (em q)) (pd_heading (acf q))"
  using assms by (auto simp: report_heading_def due_def set_both_def MAX_TIME_FIELD_MAG_HEADING_def Let_def
      dest!: asterix_doD split: option.splits if_splits)

lemma gs_due:
  assumes "pd_gnd_speed (acf p) = None"
  shows "due E 60 (force_send E b) (f32 (ac_gs b / 10))
     (em_gs (em p)) (em_gs (em (report_gs E b p))) (pd_gnd_speed (acf (report_gs E b p)))"
  using assms by (auto simp: report_gs_def due_def set_both_def MAX_TIME_FIELD_GS_def Let_def split: option.splits if_splits)

lemma ias_due:
  assumes "pd_ias (acf p) = None"
  shows "due E 60 False (ac_ias b div 10)
     (em_ias (em p)) (em_ias (em (report_ias E b p))) (pd_ias (acf (report_ias E b p)))"
  using assms by (auto simp: report_ias_def due_def set_both_def MAX_TIME_FIELD_IAS_def Let_def split: option.splits if_splits)


lemma nic_due:
  assumes "pd_nic_baro (acf p) = None"
  shows "due E 180 (force_send E b) (ac_nic_baro (ac_accuracy b))
     (em_nic_baro (em p)) (em_nic_baro (em (report_nic_baro E b p))) (pd_nic_baro (acf (report_nic_baro E b p)))"
  using assms by (auto simp: report_nic_baro_def set_acf_def due_def MAX_TIME_FIELD_NIC_BARO_def Let_def
      split: option.splits if_splits)

lemma squawk_outcome:
  assumes "pd_squawk (acf p) = None"
  shows "pd_squawk (acf (report_squawk E b p)) =
      (if is_recent E b V_squawk \<and> is_valid E b V_squawk
            \<and> (fe_tv_sec E - uint (em_value (em_squawk (em p))) \<ge> 120 \<or> em_value (em_squawk (em p)) \<noteq> ac_squawk b)
       then Some (ucast (ac_squawk b)) else None)"
    and "em_value (em_squawk (em (report_squawk E b p))) =
      (if is_recent E b V_squawk \<and> is_valid E b V_squawk then ac_squawk b else em_value (em_squawk (em p)))"
  using assms by (auto simp: report_squawk_def set_both_def MAX_TIME_FIELD_SQUAWKE_def)

subsection \<open>A whole report\<close>

lemma new_report_simps [simp]:
  "pd_callsign (new_report E) = None" "pd_altitude (new_report E) = None" "pd_altitude_geo (new_report E) = fe_junk_geo E"
  "pd_position (new_report E) = None" "pd_heading (new_report E) = None" "pd_gnd_speed (new_report E) = None"
  "pd_ias (new_report E) = None" "pd_squawk (new_report E) = None" "pd_pos_nic (new_report E) = None"
  "pd_nic_baro (new_report E) = None" "pd_modes_addr (new_report E) = None"
  "pd_vert_rate (new_report E) = None" "pd_airborne (new_report E) = None" "pd_temperature (new_report E) = None"
  "pd_wind (new_report E) = None" "pd_nav_altitude_fms (new_report E) = None" "pd_nav_altitude_mcp (new_report E) = None"
  "pd_nav_qnh (new_report E) = None" "pd_nac_p (new_report E) = None" "pd_nac_v (new_report E) = None" "pd_sil (new_report E) = None"
  by (simp_all add: new_report_def net_preparePacket_v2_def)

lemma prepare_chain:
  assumes "prepare_aircraft E b e = Some p"
  obtains p1 p2 p3 p4 p5 p6 p7 where
    "em p1 = e" "acf p1 = (new_report E)\<lparr>pd_modes_addr := if non_icao_aircraft b then None else Some (ac_addr b), pd_timestp := fe_now E\<rparr>"
    "report_callsign E b p1 = Some p2" "report_altitudes E b p2 = Some p3" "report_position E b p3 = Some p4"
    "report_heading E b p4 = Some p5" "report_tas E b p5 = Some p6" "report_weather E b p6 = Some p7"
    "p = report_accuracy E b (report_navigation E b (report_motion E b p7))"
proof -
  obtain p1 p2 p3 p4 p5 p6 p7 where s:
    "report_head E b \<lparr>em = e, acf = new_report E, acf2 = new_report E, send_it = False, ast = None\<rparr> = Some p1"
    "report_callsign E b p1 = Some p2" "report_altitudes E b p2 = Some p3" "report_position E b p3 = Some p4"
    "report_heading E b p4 = Some p5" "report_tas E b p5 = Some p6" "report_weather E b p6 = Some p7"
    "p = report_accuracy E b (report_navigation E b (report_motion E b p7))"
    using assms by (auto simp: prepare_aircraft_def Option.bind_eq_Some_conv)
  from report_head_frame [OF s(1)] have "em p1 = e"
    "acf p1 = (new_report E)\<lparr>pd_modes_addr := if non_icao_aircraft b then None else Some (ac_addr b), pd_timestp := fe_now E\<rparr>" by auto
  from that [OF this s(2-8)] show ?thesis .
qed

lemma report_altitudes_kept:
  assumes "report_altitudes E b p = Some q"
  shows "v_callsign q = v_callsign p \<and> v_position q = v_position p \<and> v_place q = v_place p \<and> v_heading q = v_heading p
    \<and> v_gs q = v_gs p \<and> v_ias q = v_ias p \<and> v_squawk q = v_squawk p \<and> v_nic q = v_nic p \<and> v_addr q = v_addr p \<and>
   v_rate q = v_rate p \<and> v_weather q = v_weather p \<and> v_navigation q = v_navigation p \<and> v_accuracy q = v_accuracy p"
proof (cases "on_ground E b")
  case False
  then show ?thesis
    using assms report_altitude_geom_kept report_altitude_baro_kept
    by (fastforce simp: report_altitudes_def Option.bind_eq_Some_conv)
qed (use assms in \<open>auto simp: report_altitudes_def report_kept\<close>)

lemmas tail_defs = report_accuracy_def report_navigation_def report_motion_def

text \<open>A whole round.\<close>

lemma prepare_due:
  assumes prep: "prepare_aircraft E b e = Some p"
  shows "due E 60 (force_send E b) (string_until_nul (ac_callsign b))
      (em_callsign e) (em_callsign (em p)) (pd_callsign (acf p))"
    and "due E 60 (force_send E b) (ac_altitude_baro b) (em_altitude_baro e) (em_altitude_baro (em p)) (pd_altitude (acf p))"
    and "due E 60 (force_send E b) (ac_altitude_geom b) (em_altitude_geom e) (em_altitude_geom (em p))
      (if fe_junk_geo E = None then pd_altitude_geo (acf p) else None)"
    and "due E 180 (force_send E b) (pos_nic b)
      (em_pos_nic e) (em_pos_nic (em p)) (pd_pos_nic (acf p))"
    and "pd_position (acf p) = (if is_recent E b V_position \<and> is_valid E b V_position then Some (ac_lat b, ac_lon b) else None)"
    and "due E 60 False (f32 (ac_mag_heading b / 10))
      (em_mag_heading e) (em_mag_heading (em p)) (pd_heading (acf p))"
    and "due E 60 (force_send E b) (f32 (ac_gs b / 10))
      (em_gs e) (em_gs (em p)) (pd_gnd_speed (acf p))"
    and "due E 60 False (ac_ias b div 10)
      (em_ias e) (em_ias (em p)) (pd_ias (acf p))"
    and "due E 180 (force_send E b) (ac_nic_baro (ac_accuracy b))
      (em_nic_baro e) (em_nic_baro (em p)) (pd_nic_baro (acf p))"
    and "pd_squawk (acf p) =
      (if is_recent E b V_squawk \<and> is_valid E b V_squawk
            \<and> (fe_tv_sec E - uint (em_value (em_squawk e)) \<ge> 120 \<or> em_value (em_squawk e) \<noteq> ac_squawk b)
       then Some (ucast (ac_squawk b)) else None)"
    and "em_value (em_squawk (em p)) =
      (if is_recent E b V_squawk \<and> is_valid E b V_squawk then ac_squawk b else em_value (em_squawk e))"
    and "pd_modes_addr (acf p) = (if non_icao_aircraft b then None else Some (ac_addr b))"
proof -
  obtain p1 p2 p3 p4 p5 p6 p7 where s:
    "em p1 = e" "acf p1 = (new_report E)\<lparr>pd_modes_addr := if non_icao_aircraft b then None else Some (ac_addr b), pd_timestp := fe_now E\<rparr>"
    "report_callsign E b p1 = Some p2" "report_altitudes E b p2 = Some p3" "report_position E b p3 = Some p4"
    "report_heading E b p4 = Some p5" "report_tas E b p5 = Some p6" "report_weather E b p6 = Some p7"
    "p = report_accuracy E b (report_navigation E b (report_motion E b p7))"
    by (rule prepare_chain [OF prep])
  note k = report_callsign_kept [OF s(3)] report_altitudes_kept [OF s(4)] report_position_kept [OF s(5)]
    report_heading_kept [OF s(6)] report_tas_kept [OF s(7)] report_weather_kept [OF s(8)]
  have v: "v_callsign p = v_callsign p2" "v_altitude p = v_altitude p3" "v_geo p = v_geo p3" "v_position p = v_position p4"
    "v_place p = v_place p4" "v_heading p = v_heading p5" "v_addr p = v_addr p1"
    "v_gs p = v_gs (report_gs E b p7)"
    "v_squawk p = v_squawk (report_squawk E b (report_vert_rate E b (report_gs E b p7)))"
    "v_ias p = v_ias (report_ias E b (report_squawk E b (report_vert_rate E b (report_gs E b p7))))"
    "v_nic p = v_nic (report_nic_baro E b (report_navigation E b (report_motion E b p7)))"
    using k by (simp_all add: s(9) tail_defs report_kept)
  have w: "v_altitude p2 = v_altitude p1" "v_geo p2 = v_geo p1" "v_position p3 = v_position p1" "v_place p3 = v_place p1"
    "v_heading p4 = v_heading p1" "v_gs p7 = v_gs p1"
    "v_squawk (report_vert_rate E b (report_gs E b p7)) = v_squawk p1"
    "v_ias (report_squawk E b (report_vert_rate E b (report_gs E b p7))) = v_ias p1"
    "v_nic (report_navigation E b (report_motion E b p7)) = v_nic p1"
    using k by (simp_all add: tail_defs report_kept)
  note vw = v [unfolded view_defs] w [unfolded view_defs]
  show "due E 60 (force_send E b) (string_until_nul (ac_callsign b))
      (em_callsign e) (em_callsign (em p)) (pd_callsign (acf p))"
    using callsign_due [OF s(3)] vw(1) s(1,2) by simp
  show "due E 60 (force_send E b) (ac_altitude_baro b) (em_altitude_baro e) (em_altitude_baro (em p)) (pd_altitude (acf p))"
    using altitude_baro_due [OF s(4)] vw(2,12) s(1,2) by simp
  show "due E 60 (force_send E b) (ac_altitude_geom b) (em_altitude_geom e) (em_altitude_geom (em p))
      (if fe_junk_geo E = None then pd_altitude_geo (acf p) else None)"
    using altitude_geom_due [OF s(4)] v(3) w(2) s(1,2) by (auto simp: due_def v_geo_def)
  show "due E 180 (force_send E b) (pos_nic b)
      (em_pos_nic e) (em_pos_nic (em p)) (pd_pos_nic (acf p))"
    and "pd_position (acf p) = (if is_recent E b V_position \<and> is_valid E b V_position then Some (ac_lat b, ac_lon b) else None)"
    using position_due [OF s(5)] vw(4,5,14,15) s(1,2) by simp_all
  show "due E 60 False (f32 (ac_mag_heading b / 10))
      (em_mag_heading e) (em_mag_heading (em p)) (pd_heading (acf p))"
    using heading_due [OF s(6)] vw(6,16) s(1,2) by simp
  show "due E 60 (force_send E b) (f32 (ac_gs b / 10))
      (em_gs e) (em_gs (em p)) (pd_gnd_speed (acf p))"
    using gs_due [of p7 E b] vw(8,17) s(1,2) by simp
  show "due E 60 False (ac_ias b div 10)
      (em_ias e) (em_ias (em p)) (pd_ias (acf p))"
    using ias_due [of "report_squawk E b (report_vert_rate E b (report_gs E b p7))" E b] vw(10,19) s(1,2) by simp
  show "due E 180 (force_send E b) (ac_nic_baro (ac_accuracy b))
      (em_nic_baro e) (em_nic_baro (em p)) (pd_nic_baro (acf p))"
    using nic_due [of "report_navigation E b (report_motion E b p7)" E b] vw(11,20) s(1,2) by simp
  show "pd_squawk (acf p) =
      (if is_recent E b V_squawk \<and> is_valid E b V_squawk
            \<and> (fe_tv_sec E - uint (em_value (em_squawk e)) \<ge> 120 \<or> em_value (em_squawk e) \<noteq> ac_squawk b)
       then Some (ucast (ac_squawk b)) else None)"
    and "em_value (em_squawk (em p)) =
      (if is_recent E b V_squawk \<and> is_valid E b V_squawk then ac_squawk b else em_value (em_squawk e))"
    using squawk_outcome [of "report_vert_rate E b (report_gs E b p7)" E b] vw(9,18) s(1,2) by simp_all
  show "pd_modes_addr (acf p) = (if non_icao_aircraft b then None else Some (ac_addr b))"
    using vw(7) s(2) by simp
qed


subsection \<open>Rates, navigation, accuracy and weather\<close>

definition geom_rate_used :: "feeder_env \<Rightarrow> aircraft \<Rightarrow> bool" where
  "geom_rate_used E b \<longleftrightarrow> fe_use_gnss E \<and> is_valid E b V_geom_rate"

lemma vert_rate_due:
  assumes "pd_vert_rate (acf p) = None"
  shows "due E 60 (force_send E b) (ac_geom_rate b sdiv 10) (em_geom_rate (em p)) (em_geom_rate (em (report_vert_rate E b p)))
      (if geom_rate_used E b then pd_vert_rate (acf (report_vert_rate E b p)) else None)"
    and "due E 60 (force_send E b) (ac_baro_rate b sdiv 10) (em_baro_rate (em p)) (em_baro_rate (em (report_vert_rate E b p)))
      (if geom_rate_used E b then None else pd_vert_rate (acf (report_vert_rate E b p)))"
  using assms
  by (auto simp: report_vert_rate_def report_geom_rate_def report_baro_rate_def due_def set_both_def geom_rate_used_def Let_def
      MAX_TIME_FIELD_GEOM_RATE_def MAX_TIME_FIELD_BARO_RATE_def split: option.splits if_splits)

text \<open>The airborne flag may be set twice in a round, for both altitudes, to the same value.\<close>

definition ground_flag :: "feeder_env \<Rightarrow> aircraft \<Rightarrow> int" where
  "ground_flag E b = (if on_ground E b then 0 else 1)"

lemma throttle_again:
  assumes "throttle E m f v e = Some e'" "throttle E m f v e' = Some e''"
  shows "e'' = e'"
  using assms by (auto simp: throttle_def split: if_splits)

lemma altitude_airborne:
  assumes "report_altitude_geom E b p = Some q \<or> report_altitude_baro E b p = Some q"
  shows "v_airborne q = v_airborne p \<or> v_airborne q = v_airborne (report_airborne E b 1 p)"
  using assms
  by (auto simp: report_altitude_geom_def report_altitude_baro_def report_airborne_def v_airborne_def set_both_def Let_def
      dest!: asterix_doD split: option.splits if_splits)

lemma airborne_due:
  assumes "report_altitudes E b p = Some q" "pd_airborne (acf p) = None"
  shows "due E 180 (force_send E b) (ground_flag E b) (em_airborne (em p)) (em_airborne (em q)) (pd_airborne (acf q))"
proof (cases "on_ground E b")
  case True
  then show ?thesis
    using assms by (auto simp: report_altitudes_def report_ground_def due_def ground_flag_def set_both_def MAX_TIME_FIELD_AIRBORNE_def
        split: option.splits)
next
  case False
  then obtain p1 where p1: "report_altitude_geom E b p = Some p1" "report_altitude_baro E b p1 = Some q"
    using assms(1) by (auto simp: report_altitudes_def Option.bind_eq_Some_conv)
  have step: "v_airborne y = v_airborne x \<or> throttle E 180 (force_send E b) 1 (em_airborne (em x)) = Some (em_airborne (em y))"
    if "v_airborne y = v_airborne x \<or> v_airborne y = v_airborne (report_airborne E b 1 x)" for x y :: prep
    using that by (auto simp: v_airborne_def report_airborne_def MAX_TIME_FIELD_AIRBORNE_def split: option.splits)
  have "v_airborne p1 = v_airborne p \<or> throttle E 180 (force_send E b) 1 (em_airborne (em p)) = Some (em_airborne (em p1))"
    "v_airborne q = v_airborne p1 \<or> throttle E 180 (force_send E b) 1 (em_airborne (em p1)) = Some (em_airborne (em q))"
    using step altitude_airborne p1 by blast+
  then show ?thesis
    using assms(2) False throttle_again [of E 180 "force_send E b" 1 "em_airborne (em p)" "em_airborne (em p1)" "em_airborne (em q)"]
    by (auto simp: due_def ground_flag_def v_airborne_def)
qed

text \<open>Navigation. A report has navigation flags when they are not those of a new report.\<close>

definition reported_flags :: "p_data \<Rightarrow> nav_flags option" where
  "reported_flags d = (if pd_nav_modes d = pd_nav_modes (net_preparePacket_v2 None) then None else Some (pd_nav_modes d))"

lemmas navigation_defs = report_nav_modes_def report_fms_def report_mcp_def report_altitude_src_def report_qnh_def report_nav_heading_def

definition v_modes where "v_modes p = (em_nav_modes (em p), pd_nav_modes (acf p))"
definition v_fms where "v_fms p = (em_nav_altitude_fms (em p), pd_nav_altitude_fms (acf p))"
definition v_mcp where "v_mcp p = (em_nav_altitude_mcp (em p), pd_nav_altitude_mcp (acf p))"
definition v_qnh where "v_qnh p = (em_nav_qnh (em p), pd_nav_qnh (acf p))"

lemmas navigation_views = v_modes_def v_fms_def v_mcp_def v_qnh_def

lemma navigation_kept:
  "v_modes (report_fms E b p) = v_modes p" "v_modes (report_mcp E b p) = v_modes p" "v_modes (report_altitude_src E b p) = v_modes p"
  "v_modes (report_qnh E b p) = v_modes p" "v_modes (report_nav_heading E b p) = v_modes p"
  "v_fms (report_nav_modes E b p) = v_fms p" "v_fms (report_mcp E b p) = v_fms p" "v_fms (report_altitude_src E b p) = v_fms p"
  "v_fms (report_qnh E b p) = v_fms p" "v_fms (report_nav_heading E b p) = v_fms p"
  "v_mcp (report_nav_modes E b p) = v_mcp p" "v_mcp (report_fms E b p) = v_mcp p" "v_mcp (report_altitude_src E b p) = v_mcp p"
  "v_mcp (report_qnh E b p) = v_mcp p" "v_mcp (report_nav_heading E b p) = v_mcp p"
  "v_qnh (report_nav_modes E b p) = v_qnh p" "v_qnh (report_fms E b p) = v_qnh p" "v_qnh (report_mcp E b p) = v_qnh p"
  "v_qnh (report_altitude_src E b p) = v_qnh p" "v_qnh (report_nav_heading E b p) = v_qnh p"
  by (simp_all add: navigation_defs navigation_views Let_def split: option.split nav_altitude_source_t.split)

lemma modes_due:
  "pd_nav_modes (acf p) = pd_nav_modes (net_preparePacket_v2 None) \<Longrightarrow>
   due E 180 False (ac_nav_modes (ac_nav b)) (em_nav_modes (em p)) (em_nav_modes (em (report_nav_modes E b p)))
     (reported_flags (acf (report_nav_modes E b p)))"
  by (auto simp: report_nav_modes_def due_def reported_flags_def MAX_TIME_FIELD_NAV_MODES_def Let_def split: option.split)

lemma fms_due:
  "pd_nav_altitude_fms (acf p) = None \<Longrightarrow>
   due E 180 False (ac_nav_altitude_fms (ac_nav b)) (em_nav_altitude_fms (em p)) (em_nav_altitude_fms (em (report_fms E b p)))
     (pd_nav_altitude_fms (acf (report_fms E b p)))"
  by (auto simp: report_fms_def due_def MAX_TIME_FIELD_NAV_ALT_FMS_def Let_def split: option.split)

lemma mcp_due:
  "pd_nav_altitude_mcp (acf p) = None \<Longrightarrow>
   due E 180 False (ac_nav_altitude_mcp (ac_nav b)) (em_nav_altitude_mcp (em p)) (em_nav_altitude_mcp (em (report_mcp E b p)))
     (pd_nav_altitude_mcp (acf (report_mcp E b p)))"
  by (auto simp: report_mcp_def due_def MAX_TIME_FIELD_NAV_ALT_MCP_def Let_def split: option.split)

lemma qnh_due:
  "pd_nav_qnh (acf p) = None \<Longrightarrow>
   due E 180 False (ac_nav_qnh (ac_nav b)) (em_nav_qnh (em p)) (em_nav_qnh (em (report_qnh E b p))) (pd_nav_qnh (acf (report_qnh E b p)))"
  by (auto simp: report_qnh_def due_def MAX_TIME_FIELD_NAV_QNH_def Let_def split: option.split)

lemma navigation_due:
  fixes E b p
  defines "q \<equiv> report_navigation E b p"
  assumes "pd_nav_modes (acf p) = pd_nav_modes (net_preparePacket_v2 None)" "pd_nav_altitude_fms (acf p) = None"
    "pd_nav_altitude_mcp (acf p) = None" "pd_nav_qnh (acf p) = None"
  shows "due E 180 False (ac_nav_modes (ac_nav b)) (em_nav_modes (em p)) (em_nav_modes (em q)) (reported_flags (acf q))"
    "due E 180 False (ac_nav_altitude_fms (ac_nav b)) (em_nav_altitude_fms (em p)) (em_nav_altitude_fms (em q)) (pd_nav_altitude_fms (acf q))"
    "due E 180 False (ac_nav_altitude_mcp (ac_nav b)) (em_nav_altitude_mcp (em p)) (em_nav_altitude_mcp (em q)) (pd_nav_altitude_mcp (acf q))"
    "due E 180 False (ac_nav_qnh (ac_nav b)) (em_nav_qnh (em p)) (em_nav_qnh (em q)) (pd_nav_qnh (acf q))"
proof -
  define p1 where "p1 = report_nav_modes E b p"
  define p2 where "p2 = report_fms E b p1"
  define p4 where "p4 = report_altitude_src E b (report_mcp E b p2)"
  have q: "v_modes q = v_modes p1" "v_fms q = v_fms p2" "v_mcp q = v_mcp (report_mcp E b p2)" "v_qnh q = v_qnh (report_qnh E b p4)"
    and p: "v_fms p1 = v_fms p" "v_mcp p2 = v_mcp p" "v_qnh p4 = v_qnh p"
    by (simp_all add: q_def report_navigation_def p1_def p2_def p4_def navigation_kept)
  note views = q [unfolded navigation_views] p [unfolded navigation_views]
  show "due E 180 False (ac_nav_modes (ac_nav b)) (em_nav_modes (em p)) (em_nav_modes (em q)) (reported_flags (acf q))"
  proof -
    have "reported_flags (acf q) = reported_flags (acf p1)" using views(1) by (simp add: reported_flags_def)
    then show ?thesis using modes_due [OF assms(2), of E b, folded p1_def] views(1) by simp
  qed
  show "due E 180 False (ac_nav_altitude_fms (ac_nav b)) (em_nav_altitude_fms (em p)) (em_nav_altitude_fms (em q)) (pd_nav_altitude_fms (acf q))"
    using fms_due [of p1 E b, folded p2_def] views(2,5) assms(3) by simp
  show "due E 180 False (ac_nav_altitude_mcp (ac_nav b)) (em_nav_altitude_mcp (em p)) (em_nav_altitude_mcp (em q)) (pd_nav_altitude_mcp (acf q))"
    using mcp_due [of p2 E b] views(3,6) assms(4) by simp
  show "due E 180 False (ac_nav_qnh (ac_nav b)) (em_nav_qnh (em p)) (em_nav_qnh (em q)) (pd_nav_qnh (acf q))"
    using qnh_due [of p4 E b] views(4,7) assms(5) by simp
qed

text \<open>Accuracy.\<close>

lemma accuracy_due:
  fixes E b p
  defines "q \<equiv> report_accuracy E b p"
  assumes "pd_nac_p (acf p) = None" "pd_nac_v (acf p) = None" "pd_sil (acf p) = None"
  shows "due E 180 (force_send E b) (ac_nac_p (ac_accuracy b)) (em_nac_p (em p)) (em_nac_p (em q)) (pd_nac_p (acf q))"
    "due E 180 (force_send E b) (ac_nac_v (ac_accuracy b)) (em_nac_v (em p)) (em_nac_v (em q)) (pd_nac_v (acf q))"
    "due E 180 (force_send E b) (ac_sil (ac_accuracy b)) (em_sil (em p)) (em_sil (em q)) (pd_sil (acf q))"
proof -
  define p1 where "p1 = report_nic_baro E b p"
  define p2 where "p2 = report_nac_p E b p1"
  define p3 where "p3 = report_nac_v E b p2"
  have q: "q = report_sil E b p3" by (simp add: q_def report_accuracy_def p1_def p2_def p3_def)
  have 1: "v_accuracy p1 = v_accuracy p" by (simp add: p1_def report_kept)
  note first = 1 [unfolded v_accuracy_def]
  have 2: "due E 180 (force_send E b) (ac_nac_p (ac_accuracy b)) (em_nac_p (em p1)) (em_nac_p (em p2)) (pd_nac_p (acf p2))
    \<and> em_nac_v (em p2) = em_nac_v (em p1) \<and> em_sil (em p2) = em_sil (em p1) \<and> pd_nac_v (acf p2) = None \<and> pd_sil (acf p2) = None"
    using first assms(2-4) by (auto simp: p2_def report_nac_p_def due_def set_acf_def MAX_TIME_FIELD_NAC_P_def Let_def split: option.split)
  have 3: "due E 180 (force_send E b) (ac_nac_v (ac_accuracy b)) (em_nac_v (em p2)) (em_nac_v (em p3)) (pd_nac_v (acf p3))
    \<and> em_nac_p (em p3) = em_nac_p (em p2) \<and> em_sil (em p3) = em_sil (em p2) \<and> pd_nac_p (acf p3) = pd_nac_p (acf p2) \<and> pd_sil (acf p3) = None"
    using 2 by (auto simp: p3_def report_nac_v_def due_def set_acf_def MAX_TIME_FIELD_NAC_V_def Let_def split: option.split)
  have 4: "due E 180 (force_send E b) (ac_sil (ac_accuracy b)) (em_sil (em p3)) (em_sil (em q)) (pd_sil (acf q))
    \<and> em_nac_p (em q) = em_nac_p (em p3) \<and> em_nac_v (em q) = em_nac_v (em p3) \<and> pd_nac_p (acf q) = pd_nac_p (acf p3) \<and> pd_nac_v (acf q) = pd_nac_v (acf p3)"
    using 3 by (auto simp: q report_sil_def due_def set_acf_def MAX_TIME_FIELD_SIL_def Let_def split: option.split)
  show "due E 180 (force_send E b) (ac_nac_p (ac_accuracy b)) (em_nac_p (em p)) (em_nac_p (em q)) (pd_nac_p (acf q))"
    "due E 180 (force_send E b) (ac_nac_v (ac_accuracy b)) (em_nac_v (em p)) (em_nac_v (em q)) (pd_nac_v (acf q))"
    "due E 180 (force_send E b) (ac_sil (ac_accuracy b)) (em_sil (em p)) (em_sil (em q)) (pd_sil (acf q))"
    using first 2 3 4 by simp_all
qed

text \<open>Weather. The values are those of the functions, which succeed when they are called.\<close>

definition temperature_value :: "feeder_env \<Rightarrow> aircraft \<Rightarrow> 16 word" where
  "temperature_value E b = (case air_temperature (fe_libm E) b of None \<Rightarrow> 0 | Some t \<Rightarrow> to_short t)"

definition wind_value :: "feeder_env \<Rightarrow> aircraft \<Rightarrow> 16 word \<times> 16 word" where
  "wind_value E b = (case wind (fe_libm E) b (ac_lat b, ac_lon b) of None \<Rightarrow> (0, 0) | Some v \<Rightarrow> v)"

lemma weather_due:
  assumes "report_weather E b p = Some q" "pd_temperature (acf p) = None" "pd_wind (acf p) = None"
    and "\<forall>place. pd_position (acf p) = Some place \<longrightarrow> place = (ac_lat b, ac_lon b)"
  shows "due E 180 False (temperature_value E b) (em_temperature (em p)) (em_temperature (em q)) (pd_temperature (acf q))"
    "due E 180 False (wind_value E b) (em_wind (em p)) (em_wind (em q)) (pd_wind (acf q))"
  using assms
  by (auto simp: report_weather_def report_temperature_def report_wind_def due_def set_acf_def temperature_value_def wind_value_def
      MAX_TIME_FIELD_TEMPERATURE_def MAX_TIME_FIELD_WIND_def Let_def Option.bind_eq_Some_conv split: option.splits if_splits)

text \<open>A whole round, for these fields.\<close>

lemma prepare_further:
  assumes prep: "prepare_aircraft E b e = Some p"
  shows "due E 60 (force_send E b) (ac_geom_rate b sdiv 10) (em_geom_rate e) (em_geom_rate (em p))
      (if geom_rate_used E b then pd_vert_rate (acf p) else None)"
    and "due E 60 (force_send E b) (ac_baro_rate b sdiv 10) (em_baro_rate e) (em_baro_rate (em p))
      (if geom_rate_used E b then None else pd_vert_rate (acf p))"
    and "due E 180 (force_send E b) (ground_flag E b) (em_airborne e) (em_airborne (em p)) (pd_airborne (acf p))"
    and "due E 180 False (ac_nav_modes (ac_nav b)) (em_nav_modes e) (em_nav_modes (em p)) (reported_flags (acf p))"
    and "due E 180 False (ac_nav_altitude_fms (ac_nav b)) (em_nav_altitude_fms e) (em_nav_altitude_fms (em p)) (pd_nav_altitude_fms (acf p))"
    and "due E 180 False (ac_nav_altitude_mcp (ac_nav b)) (em_nav_altitude_mcp e) (em_nav_altitude_mcp (em p)) (pd_nav_altitude_mcp (acf p))"
    and "due E 180 False (ac_nav_qnh (ac_nav b)) (em_nav_qnh e) (em_nav_qnh (em p)) (pd_nav_qnh (acf p))"
    and "due E 180 (force_send E b) (ac_nac_p (ac_accuracy b)) (em_nac_p e) (em_nac_p (em p)) (pd_nac_p (acf p))"
    and "due E 180 (force_send E b) (ac_nac_v (ac_accuracy b)) (em_nac_v e) (em_nac_v (em p)) (pd_nac_v (acf p))"
    and "due E 180 (force_send E b) (ac_sil (ac_accuracy b)) (em_sil e) (em_sil (em p)) (pd_sil (acf p))"
    and "due E 180 False (temperature_value E b) (em_temperature e) (em_temperature (em p)) (pd_temperature (acf p))"
    and "due E 180 False (wind_value E b) (em_wind e) (em_wind (em p)) (pd_wind (acf p))"
proof -
  obtain p1 p2 p3 p4 p5 p6 p7 where s:
    "em p1 = e" "acf p1 = (new_report E)\<lparr>pd_modes_addr := if non_icao_aircraft b then None else Some (ac_addr b), pd_timestp := fe_now E\<rparr>"
    "report_callsign E b p1 = Some p2" "report_altitudes E b p2 = Some p3" "report_position E b p3 = Some p4"
    "report_heading E b p4 = Some p5" "report_tas E b p5 = Some p6" "report_weather E b p6 = Some p7"
    "p = report_accuracy E b (report_navigation E b (report_motion E b p7))"
    by (rule prepare_chain [OF prep])
  note k = report_callsign_kept [OF s(3)] report_altitudes_kept [OF s(4)] report_position_kept [OF s(5)]
    report_heading_kept [OF s(6)] report_tas_kept [OF s(7)] report_weather_kept [OF s(8)]
  let ?gs = "report_gs E b p7" and ?motion = "report_motion E b p7"
  let ?nav = "report_navigation E b ?motion"
  have v: "v_rate p = v_rate (report_vert_rate E b ?gs)" "v_airborne p = v_airborne p3" "v_weather p = v_weather p7"
    "v_navigation p = v_navigation ?nav"
    using k by (simp_all add: s(9) tail_defs report_kept)
  have w: "v_rate ?gs = v_rate p1" "v_airborne p2 = v_airborne p1" "v_weather p6 = v_weather p1"
    "v_navigation ?motion = v_navigation p1" "v_accuracy ?nav = v_accuracy p1" "v_place p6 = v_place p4" "v_place p3 = v_place p1"
    "v_position p3 = v_position p1"
    using k by (simp_all add: s(9) tail_defs report_kept)
  note views = v [unfolded view_defs] w [unfolded view_defs]
  show "due E 60 (force_send E b) (ac_geom_rate b sdiv 10) (em_geom_rate e) (em_geom_rate (em p))
      (if geom_rate_used E b then pd_vert_rate (acf p) else None)"
    "due E 60 (force_send E b) (ac_baro_rate b sdiv 10) (em_baro_rate e) (em_baro_rate (em p))
      (if geom_rate_used E b then None else pd_vert_rate (acf p))"
    using vert_rate_due [of ?gs E b] views(1,5) s(1,2) by (simp_all split: if_splits)
  show "due E 180 (force_send E b) (ground_flag E b) (em_airborne e) (em_airborne (em p)) (pd_airborne (acf p))"
    using airborne_due [OF s(4)] views(2,6) s(1,2) by simp
  have nav: "pd_nav_modes (acf ?motion) = pd_nav_modes (net_preparePacket_v2 None)" "pd_nav_altitude_fms (acf ?motion) = None"
    "pd_nav_altitude_mcp (acf ?motion) = None" "pd_nav_qnh (acf ?motion) = None"
    using views(8) s(2) by (simp_all add: new_report_def net_preparePacket_v2_def)
  have flags: "reported_flags (acf p) = reported_flags (acf ?nav)" using views(4) by (simp add: reported_flags_def)
  show "due E 180 False (ac_nav_modes (ac_nav b)) (em_nav_modes e) (em_nav_modes (em p)) (reported_flags (acf p))"
    "due E 180 False (ac_nav_altitude_fms (ac_nav b)) (em_nav_altitude_fms e) (em_nav_altitude_fms (em p)) (pd_nav_altitude_fms (acf p))"
    "due E 180 False (ac_nav_altitude_mcp (ac_nav b)) (em_nav_altitude_mcp e) (em_nav_altitude_mcp (em p)) (pd_nav_altitude_mcp (acf p))"
    "due E 180 False (ac_nav_qnh (ac_nav b)) (em_nav_qnh e) (em_nav_qnh (em p)) (pd_nav_qnh (acf p))"
    using navigation_due [OF nav, of E b] views(4,8) s(1) flags by simp_all
  show "due E 180 (force_send E b) (ac_nac_p (ac_accuracy b)) (em_nac_p e) (em_nac_p (em p)) (pd_nac_p (acf p))"
    "due E 180 (force_send E b) (ac_nac_v (ac_accuracy b)) (em_nac_v e) (em_nac_v (em p)) (pd_nac_v (acf p))"
    "due E 180 (force_send E b) (ac_sil (ac_accuracy b)) (em_sil e) (em_sil (em p)) (pd_sil (acf p))"
    using accuracy_due [of ?nav E b] views(9) s(1,2) by (simp_all add: s(9))
  have place: "\<forall>place. pd_position (acf p6) = Some place \<longrightarrow> place = (ac_lat b, ac_lon b)"
    using position_due(2) [OF s(5)] views(10-12) s(2) by (simp split: if_splits)
  show "due E 180 False (temperature_value E b) (em_temperature e) (em_temperature (em p)) (pd_temperature (acf p))"
    "due E 180 False (wind_value E b) (em_wind e) (em_wind (em p)) (pd_wind (acf p))"
    using weather_due [OF s(8) _ _ place] views(3,7) s(1,2) by simp_all
qed

end
