(* ===== verification/FeederTruth.thy ===== *)
theory FeederTruth
  imports FeederCorrect
begin

text \<open>
  What a report says of the aircraft, field by field, and that every step of its preparation keeps to it.
\<close>

subsection \<open>A true report\<close>

definition fresh :: "feeder_env \<Rightarrow> aircraft \<Rightarrow> item \<Rightarrow> bool" where
  "fresh E b i \<longleftrightarrow> is_valid E b i \<and> is_recent E b i"

definition reports :: "'r option \<Rightarrow> ('r \<Rightarrow> bool) \<Rightarrow> bool" where
  "reports r P = (case r of None \<Rightarrow> True | Some v \<Rightarrow> P v)"

lemma reports_simps [simp]: "reports None P" "reports (Some v) P = P v"
  by (simp_all add: reports_def)

text \<open>Address, identity and state of the flight.\<close>

definition true_identity :: "feeder_env \<Rightarrow> aircraft \<Rightarrow> p_data \<Rightarrow> bool" where
  "true_identity E b d \<longleftrightarrow>
     pd_modes_addr d = (if non_icao_aircraft b then None else Some (ac_addr b)) \<and> pd_timestp d = fe_now E
   \<and> reports (pd_callsign d) (\<lambda>v. is_recent E b V_callsign \<and> v = string_until_nul (ac_callsign b))
   \<and> reports (pd_squawk d) (\<lambda>v. fresh E b V_squawk \<and> v = ucast (ac_squawk b))
   \<and> reports (pd_airborne d) (\<lambda>v.
        if v then \<not> on_ground E b \<and> (fe_use_gnss E \<and> fresh E b V_altitude_geom \<and> ac_altitude_geom b > 0
                                   \<or> fresh E b V_altitude_baro \<and> ac_altitude_baro b > 0)
        else on_ground E b)
   \<and> (pd_is_mlat d \<longrightarrow> mlat_check_is_mlat b) \<and> \<not> pd_is_978 d"

text \<open>Place and motion. The geometric altitude is what the stack held if the code does not set it.\<close>

definition true_motion :: "feeder_env \<Rightarrow> aircraft \<Rightarrow> p_data \<Rightarrow> bool" where
  "true_motion E b d \<longleftrightarrow>
     reports (pd_altitude d) (\<lambda>v. \<not> on_ground E b \<and> fresh E b V_altitude_baro \<and> v = ac_altitude_baro b)
   \<and> (pd_altitude_geo d = fe_junk_geo E \<or> reports (pd_altitude_geo d) (\<lambda>v.
        \<not> on_ground E b \<and> fe_use_gnss E \<and> fresh E b V_altitude_geom \<and> v = ac_altitude_geom b))
   \<and> reports (pd_position d) (\<lambda>v. fresh E b V_position \<and> v = (ac_lat b, ac_lon b))
   \<and> reports (pd_pos_nic d) (\<lambda>v. pd_position d \<noteq> None \<and> v = pos_nic b)
   \<and> reports (pd_heading d) (\<lambda>v. fresh E b V_mag_heading \<and> v = to_short (f32 (ac_mag_heading b / 10)))
   \<and> reports (pd_gnd_speed d) (\<lambda>v. fresh E b V_gs \<and> v = to_short (f32 (ac_gs b / 10)))
   \<and> reports (pd_ias d) (\<lambda>v. is_recent E b V_ias \<and> v = ucast (ac_ias b div 10))
   \<and> reports (pd_vert_rate d) (\<lambda>v.
        if fe_use_gnss E \<and> is_valid E b V_geom_rate
        then is_recent E b V_geom_rate \<and> v = word_of_int (ac_geom_rate b sdiv 10)
        else fresh E b V_baro_rate \<and> v = word_of_int (ac_baro_rate b sdiv 10))"

text \<open>The settings of the autopilot. Its flag is set in every report.\<close>

definition no_nav_flags :: nav_flags where
  "no_nav_flags = \<lparr>pn_autopilot = True, pn_vnav = False, pn_alt_hold = False, pn_aproach = False, pn_lnav = False, pn_tcas = False\<rparr>"

definition true_navigation :: "feeder_env \<Rightarrow> aircraft \<Rightarrow> p_data \<Rightarrow> bool" where
  "true_navigation E b d \<longleftrightarrow>
     (pd_nav_modes d = no_nav_flags
      \<or> is_recent E b V_nav_modes \<and> pd_nav_modes d = add_flags (ac_nav_modes (ac_nav b)) no_nav_flags)
   \<and> reports (pd_nav_altitude_fms d) (\<lambda>v. is_recent E b V_nav_altitude_fms \<and> 1000 \<le> v \<and> v = ac_nav_altitude_fms (ac_nav b))
   \<and> reports (pd_nav_altitude_mcp d) (\<lambda>v. is_recent E b V_nav_altitude_mcp \<and> 1000 \<le> v \<and> v = ac_nav_altitude_mcp (ac_nav b))
   \<and> reports (pd_extra_flags d) (\<lambda>v. is_recent E b V_nav_altitude_src
        \<and> (case ac_nav_altitude_src (ac_nav b) of
             NAV_ALT_AIRCRAFT \<Rightarrow> v = 2 ^ 7 | NAV_ALT_MCP \<Rightarrow> v = 2 ^ 8 | NAV_ALT_FMS \<Rightarrow> v = 2 ^ 9 | _ \<Rightarrow> False))
   \<and> reports (pd_nav_qnh d) (\<lambda>v. is_recent E b V_nav_qnh \<and> v = truncate_rat (ac_nav_qnh (ac_nav b)))
   \<and> reports (pd_nav_heading d) (\<lambda>v. is_recent E b V_nav_heading \<and> v \<noteq> 0 \<and> v = truncate_rat (ac_nav_heading (ac_nav b)))"

definition true_accuracy :: "feeder_env \<Rightarrow> aircraft \<Rightarrow> p_data \<Rightarrow> bool" where
  "true_accuracy E b d \<longleftrightarrow>
     reports (pd_nic_baro d) (\<lambda>v. is_valid E b V_nic_baro \<and> v = ucast (ac_nic_baro (ac_accuracy b)))
   \<and> reports (pd_nac_p d) (\<lambda>v. is_valid E b V_nac_p \<and> v = ac_nac_p (ac_accuracy b))
   \<and> reports (pd_nac_v d) (\<lambda>v. is_valid E b V_nac_v \<and> v = ac_nac_v (ac_accuracy b))
   \<and> reports (pd_sil d) (\<lambda>v. is_valid E b V_sil \<and> v = (ac_sil (ac_accuracy b), ac_sil_type (ac_accuracy b)))"

text \<open>Temperature and wind are computed when what they rest on is valid, and altitude, position and heading are reported.\<close>

definition weather_due :: "feeder_env \<Rightarrow> aircraft \<Rightarrow> p_data \<Rightarrow> bool" where
  "weather_due E b d \<longleftrightarrow> is_valid E b V_mach \<and> is_valid E b V_ias \<and> is_valid E b V_altitude_baro \<and> is_valid E b V_tas
     \<and> pd_altitude d \<noteq> None \<and> pd_position d \<noteq> None \<and> pd_heading d \<noteq> None"

definition true_weather :: "feeder_env \<Rightarrow> aircraft \<Rightarrow> p_data \<Rightarrow> bool" where
  "true_weather E b d \<longleftrightarrow>
     reports (pd_temperature d) (\<lambda>v. weather_due E b d
        \<and> map_option (\<lambda>t. sint (to_short t)) (air_temperature (fe_libm E) b) = Some v)
   \<and> reports (pd_wind d) (\<lambda>v. weather_due E b d \<and> wind (fe_libm E) b (ac_lat b, ac_lon b) = Some v)"

definition truthful :: "feeder_env \<Rightarrow> aircraft \<Rightarrow> p_data \<Rightarrow> bool" where
  "truthful E b d \<longleftrightarrow> true_identity E b d \<and> true_motion E b d \<and> true_navigation E b d \<and> true_accuracy E b d \<and> true_weather E b d"

subsection \<open>Setting a field keeps a report true\<close>

named_theorems update_truth
named_theorems truth

lemmas truth_defs = truthful_def true_identity_def true_motion_def true_navigation_def true_accuracy_def true_weather_def

lemma identity_update [update_truth]:
  "truthful E b d \<Longrightarrow> is_recent E b V_callsign \<Longrightarrow> truthful E b (d\<lparr>pd_callsign := Some (string_until_nul (ac_callsign b))\<rparr>)"
  "truthful E b d \<Longrightarrow> fresh E b V_squawk \<Longrightarrow> truthful E b (d\<lparr>pd_squawk := Some (ucast (ac_squawk b))\<rparr>)"
  "truthful E b d \<Longrightarrow> on_ground E b \<Longrightarrow> truthful E b (d\<lparr>pd_airborne := Some False\<rparr>)"
  "truthful E b d \<Longrightarrow> \<not> on_ground E b \<Longrightarrow> fe_use_gnss E \<and> fresh E b V_altitude_geom \<and> ac_altitude_geom b > 0
      \<or> fresh E b V_altitude_baro \<and> ac_altitude_baro b > 0 \<Longrightarrow> truthful E b (d\<lparr>pd_airborne := Some True\<rparr>)"
  "truthful E b d \<Longrightarrow> mlat_check_is_mlat b \<Longrightarrow> truthful E b (d\<lparr>pd_is_mlat := True\<rparr>)"
  by (simp_all add: truth_defs weather_due_def)

lemma weather_update:
  "true_weather E b d \<Longrightarrow> true_weather E b (d\<lparr>pd_altitude := Some x\<rparr>)"
  "true_weather E b d \<Longrightarrow> true_weather E b (d\<lparr>pd_position := Some y\<rparr>)"
  "true_weather E b d \<Longrightarrow> true_weather E b (d\<lparr>pd_heading := Some z\<rparr>)"
  by (cases "pd_temperature d"; cases "pd_wind d"; simp add: true_weather_def weather_due_def)+

lemmas still_defs = truthful_def true_identity_def true_motion_def true_navigation_def true_accuracy_def

lemma altitude_update [update_truth]:
  "truthful E b d \<Longrightarrow> \<not> on_ground E b \<Longrightarrow> fresh E b V_altitude_baro \<Longrightarrow> truthful E b (d\<lparr>pd_altitude := Some (ac_altitude_baro b)\<rparr>)"
  by (simp add: still_defs weather_update)

lemma position_update [update_truth]:
  "truthful E b d \<Longrightarrow> fresh E b V_position \<Longrightarrow> truthful E b (d\<lparr>pd_position := Some (ac_lat b, ac_lon b)\<rparr>)"
  by (cases "pd_pos_nic d"; simp add: still_defs weather_update)

lemma heading_update [update_truth]:
  "truthful E b d \<Longrightarrow> fresh E b V_mag_heading \<Longrightarrow> truthful E b (d\<lparr>pd_heading := Some (to_short (f32 (ac_mag_heading b / 10)))\<rparr>)"
  by (simp add: still_defs weather_update)

lemma speed_update [update_truth]:
  "truthful E b d \<Longrightarrow> \<not> on_ground E b \<Longrightarrow> fe_use_gnss E \<Longrightarrow> fresh E b V_altitude_geom \<Longrightarrow>
     truthful E b (d\<lparr>pd_altitude_geo := Some (ac_altitude_geom b)\<rparr>)"
  "truthful E b d \<Longrightarrow> pd_position d \<noteq> None \<Longrightarrow> truthful E b (d\<lparr>pd_pos_nic := Some (pos_nic b)\<rparr>)"
  "truthful E b d \<Longrightarrow> fresh E b V_gs \<Longrightarrow> truthful E b (d\<lparr>pd_gnd_speed := Some (to_short (f32 (ac_gs b / 10)))\<rparr>)"
  "truthful E b d \<Longrightarrow> is_recent E b V_ias \<Longrightarrow> truthful E b (d\<lparr>pd_ias := Some (ucast (ac_ias b div 10))\<rparr>)"
  "truthful E b d \<Longrightarrow> fe_use_gnss E \<and> is_valid E b V_geom_rate \<Longrightarrow> is_recent E b V_geom_rate \<Longrightarrow>
     truthful E b (d\<lparr>pd_vert_rate := Some (word_of_int (ac_geom_rate b sdiv 10))\<rparr>)"
  "truthful E b d \<Longrightarrow> \<not> (fe_use_gnss E \<and> is_valid E b V_geom_rate) \<Longrightarrow> fresh E b V_baro_rate \<Longrightarrow>
     truthful E b (d\<lparr>pd_vert_rate := Some (word_of_int (ac_baro_rate b sdiv 10))\<rparr>)"
  by (simp_all only: simp_thms if_False if_True truth_defs, simp_all add: weather_due_def)

lemma add_flags_again: "add_flags m (add_flags m f) = add_flags m f"
  by (simp add: add_flags_def)

lemma flags_update [update_truth]:
  "truthful E b d \<Longrightarrow> is_recent E b V_nav_modes \<Longrightarrow>
     truthful E b (d\<lparr>pd_nav_modes := add_flags (ac_nav_modes (ac_nav b)) (pd_nav_modes d)\<rparr>)"
  by (cases "pd_nav_modes d = no_nav_flags") (simp_all add: truth_defs weather_due_def add_flags_again)

lemma navigation_update [update_truth]:
  "truthful E b d \<Longrightarrow> is_recent E b V_nav_altitude_fms \<Longrightarrow> 1000 \<le> ac_nav_altitude_fms (ac_nav b) \<Longrightarrow>
     truthful E b (d\<lparr>pd_nav_altitude_fms := Some (ac_nav_altitude_fms (ac_nav b))\<rparr>)"
  "truthful E b d \<Longrightarrow> is_recent E b V_nav_altitude_mcp \<Longrightarrow> 1000 \<le> ac_nav_altitude_mcp (ac_nav b) \<Longrightarrow>
     truthful E b (d\<lparr>pd_nav_altitude_mcp := Some (ac_nav_altitude_mcp (ac_nav b))\<rparr>)"
  "truthful E b d \<Longrightarrow> is_recent E b V_nav_qnh \<Longrightarrow> truthful E b (d\<lparr>pd_nav_qnh := Some (truncate_rat (ac_nav_qnh (ac_nav b)))\<rparr>)"
  "truthful E b d \<Longrightarrow> is_recent E b V_nav_heading \<Longrightarrow> truncate_rat (ac_nav_heading (ac_nav b)) \<noteq> 0 \<Longrightarrow>
     truthful E b (d\<lparr>pd_nav_heading := Some (truncate_rat (ac_nav_heading (ac_nav b)))\<rparr>)"
  by (simp_all add: truth_defs weather_due_def)

lemma altitude_src_update [update_truth]:
  assumes "truthful E b d" "is_recent E b V_nav_altitude_src"
  shows "ac_nav_altitude_src (ac_nav b) = NAV_ALT_AIRCRAFT \<Longrightarrow> truthful E b (d\<lparr>pd_extra_flags := Some (set_bit 7 0)\<rparr>)"
    "ac_nav_altitude_src (ac_nav b) = NAV_ALT_MCP \<Longrightarrow> truthful E b (d\<lparr>pd_extra_flags := Some (set_bit 8 0)\<rparr>)"
    "ac_nav_altitude_src (ac_nav b) = NAV_ALT_FMS \<Longrightarrow> truthful E b (d\<lparr>pd_extra_flags := Some (set_bit 9 0)\<rparr>)"
  using assms by (simp_all add: truth_defs weather_due_def set_bit_def push_bit_eq_mult)

lemma accuracy_update [update_truth]:
  "truthful E b d \<Longrightarrow> is_valid E b V_nic_baro \<Longrightarrow> truthful E b (d\<lparr>pd_nic_baro := Some (ucast (ac_nic_baro (ac_accuracy b)))\<rparr>)"
  "truthful E b d \<Longrightarrow> is_valid E b V_nac_p \<Longrightarrow> truthful E b (d\<lparr>pd_nac_p := Some (ac_nac_p (ac_accuracy b))\<rparr>)"
  "truthful E b d \<Longrightarrow> is_valid E b V_nac_v \<Longrightarrow> truthful E b (d\<lparr>pd_nac_v := Some (ac_nac_v (ac_accuracy b))\<rparr>)"
  "truthful E b d \<Longrightarrow> is_valid E b V_sil \<Longrightarrow>
     truthful E b (d\<lparr>pd_sil := Some (ac_sil (ac_accuracy b), ac_sil_type (ac_accuracy b))\<rparr>)"
  by (simp_all add: truth_defs weather_due_def)

lemma measured_update [update_truth]:
  "truthful E b d \<Longrightarrow> weather_due E b d \<Longrightarrow> air_temperature (fe_libm E) b = Some t \<Longrightarrow>
     truthful E b (d\<lparr>pd_temperature := Some (sint (to_short t))\<rparr>)"
  "truthful E b d \<Longrightarrow> weather_due E b d \<Longrightarrow> wind (fe_libm E) b (ac_lat b, ac_lon b) = Some v \<Longrightarrow> truthful E b (d\<lparr>pd_wind := Some v\<rparr>)"
  by (simp_all add: truth_defs weather_due_def)

subsection \<open>Every step keeps the reports true\<close>

definition both_truthful :: "feeder_env \<Rightarrow> aircraft \<Rightarrow> prep \<Rightarrow> bool" where
  "both_truthful E b p \<longleftrightarrow> truthful E b (acf p) \<and> truthful E b (acf2 p)"

lemma asterix_do_reports: "asterix_do E f p = Some q \<Longrightarrow> em q = em p \<and> acf q = acf p \<and> acf2 q = acf2 p \<and> send_it q = send_it p"
  by (auto simp: asterix_do_def split: option.splits)

lemma new_report_true:
  "truthful E b ((new_report E)\<lparr>pd_modes_addr := if non_icao_aircraft b then None else Some (ac_addr b), pd_timestp := fe_now E\<rparr>)"
  by (simp add: truth_defs new_report_def net_preparePacket_v2_def no_nav_flags_def)

lemmas step_truth = both_truthful_def set_both_def set_acf_def Let_def update_truth fresh_def

lemma motion_step_truth [truth]:
  assumes "both_truthful E b p"
  shows "both_truthful E b (report_gs E b p)" "both_truthful E b (report_vert_rate E b p)" "both_truthful E b (report_squawk E b p)"
    "both_truthful E b (report_ias E b p)" "both_truthful E b (report_mlat b p)"
  using assms
  by (simp_all add: report_gs_def report_vert_rate_def report_geom_rate_def report_baro_rate_def report_squawk_def report_ias_def
      report_mlat_def step_truth split: option.split)

lemma accuracy_step_truth [truth]:
  assumes "both_truthful E b p"
  shows "both_truthful E b (report_nic_baro E b p)" "both_truthful E b (report_nac_p E b p)" "both_truthful E b (report_nac_v E b p)"
    "both_truthful E b (report_sil E b p)"
  using assms by (simp_all add: report_nic_baro_def report_nac_p_def report_nac_v_def report_sil_def step_truth split: option.split)

lemma navigation_step_truth [truth]:
  assumes "both_truthful E b p"
  shows "both_truthful E b (report_fms E b p)" "both_truthful E b (report_mcp E b p)" "both_truthful E b (report_qnh E b p)"
    "both_truthful E b (report_nav_heading E b p)" "both_truthful E b (report_altitude_src E b p)"
    "both_truthful E b (report_nav_modes E b p)"
  using assms by (simp_all add: report_fms_def report_mcp_def report_qnh_def report_nav_heading_def report_altitude_src_def
      report_nav_modes_def step_truth       split: option.split nav_altitude_source_t.split)

lemma airborne_step_truth [truth]:
  assumes "both_truthful E b p"
  shows "on_ground E b \<Longrightarrow> both_truthful E b (report_ground E b p)"
    "\<not> on_ground E b \<Longrightarrow> fe_use_gnss E \<and> fresh E b V_altitude_geom \<and> ac_altitude_geom b > 0
      \<or> fresh E b V_altitude_baro \<and> ac_altitude_baro b > 0 \<Longrightarrow> both_truthful E b (report_airborne E b 1 p)"
  using assms by (simp_all add: report_ground_def report_airborne_def both_truthful_def set_both_def update_truth split: option.split)

lemma both_truthful_cong: "acf q = acf p \<and> acf2 q = acf2 p \<Longrightarrow> both_truthful E b q = both_truthful E b p"
  by (simp add: both_truthful_def)

lemma asterix_truth: "asterix_do E f p = Some q \<Longrightarrow> both_truthful E b p \<Longrightarrow> both_truthful E b q"
  using asterix_do_reports both_truthful_cong by metis

lemma set_both_truth:
  "both_truthful E b p \<Longrightarrow> (\<And>d. truthful E b d \<Longrightarrow> truthful E b (f d)) \<Longrightarrow> both_truthful E b (set_both f p)"
  by (simp add: both_truthful_def set_both_def)

lemma em_truth [simp]: "both_truthful E b (p\<lparr>em := e\<rparr>) = both_truthful E b p"
  by (simp add: both_truthful_def)

lemma callsign_truth: "report_callsign E b p = Some q \<Longrightarrow> both_truthful E b p \<Longrightarrow> both_truthful E b q"
  by (auto simp: report_callsign_def Let_def both_truthful_def update_truth split: option.splits if_splits dest!: asterix_do_reports)

lemma altitude_geom_truth:
  assumes "report_altitude_geom E b p = Some q" "\<not> on_ground E b" "both_truthful E b p"
  shows "both_truthful E b q"
proof (cases "fe_use_gnss E \<and> fresh E b V_altitude_geom")
  case True
  have "both_truthful E b (set_both (pd_altitude_geo_update (\<lambda>_. Some (ac_altitude_geom b))) p')" if "both_truthful E b p'" for p'
    by (rule set_both_truth [OF that]) (use assms(2) True update_truth in auto)
  then show ?thesis
    using assms True airborne_step_truth(2) [of E b] asterix_truth
    by (auto simp: report_altitude_geom_def Let_def fresh_def split: option.splits if_splits)
qed (use assms in \<open>auto simp: report_altitude_geom_def fresh_def\<close>)

lemma altitude_baro_truth:
  assumes "report_altitude_baro E b p = Some q" "\<not> on_ground E b" "both_truthful E b p"
  shows "both_truthful E b q"
proof (cases "fresh E b V_altitude_baro")
  case True
  have "both_truthful E b (set_both (pd_altitude_update (\<lambda>_. Some (ac_altitude_baro b))) p')" if "both_truthful E b p'" for p'
    by (rule set_both_truth [OF that]) (use assms(2) True update_truth in auto)
  then show ?thesis
    using assms True airborne_step_truth(2) [of E b] asterix_truth
    by (auto simp: report_altitude_baro_def Let_def fresh_def split: option.splits if_splits)
qed (use assms in \<open>auto simp: report_altitude_baro_def fresh_def\<close>)

lemma altitudes_truth: "report_altitudes E b p = Some q \<Longrightarrow> both_truthful E b p \<Longrightarrow> both_truthful E b q"
  using altitude_geom_truth altitude_baro_truth airborne_step_truth(1)
  by (fastforce simp: report_altitudes_def Option.bind_eq_Some_conv split: if_splits)

lemma position_truth:
  assumes "report_position E b p = Some q" "both_truthful E b p"
  shows "both_truthful E b q"
proof (cases "fresh E b V_position")
  case True
  have "both_truthful E b (set_both (pd_position_update (\<lambda>_. Some (ac_lat b, ac_lon b))) p)"
    by (rule set_both_truth [OF assms(2)]) (use True update_truth in auto)
  then show ?thesis
    using assms(1) True
    by (auto simp: report_position_def Let_def fresh_def both_truthful_def set_both_def update_truth
        split: option.splits if_splits dest!: asterix_do_reports)
qed (use assms in \<open>auto simp: report_position_def fresh_def\<close>)

lemma heading_truth:
  assumes "report_heading E b p = Some q" "both_truthful E b p"
  shows "both_truthful E b q"
proof -
  have "both_truthful E b (set_both (pd_heading_update (\<lambda>_. Some (to_short (f32 (ac_mag_heading b / 10))))) (p\<lparr>em := e\<rparr>))"
    if "is_valid E b V_mag_heading" "is_recent E b V_mag_heading" for e
    by (rule set_both_truth) (use that assms(2) update_truth in \<open>auto simp: fresh_def\<close>)
  then show ?thesis
    using assms by (auto simp: report_heading_def Let_def split: option.splits if_splits dest: asterix_truth)
qed

lemma tas_truth: "report_tas E b p = Some q \<Longrightarrow> both_truthful E b p \<Longrightarrow> both_truthful E b q"
  by (auto simp: report_tas_def split: if_splits dest: asterix_truth)

lemma weather_truth:
  assumes "report_weather E b p = Some q" "both_truthful E b p"
  shows "both_truthful E b q"
proof (cases "weather_due E b (acf p)")
  case True
  then obtain alt lat lon head where s: "pd_altitude (acf p) = Some alt" "pd_position (acf p) = Some (lat, lon)" "pd_heading (acf p) = Some head"
    by (auto simp: weather_due_def)
  have place: "lat = ac_lat b" "lon = ac_lon b"
    using assms(2) s(2) by (simp_all add: both_truthful_def truthful_def true_motion_def)
  obtain t v where tv: "air_temperature (fe_libm E) b = Some t" "wind (fe_libm E) b (ac_lat b, ac_lon b) = Some v"
    "q = report_wind E v (report_temperature E t p)"
    using assms(1) True s by (auto simp: report_weather_def weather_due_def place Option.bind_eq_Some_conv)
  have t: "both_truthful E b (report_temperature E t p)" "weather_due E b (acf (report_temperature E t p))"
    using assms(2) tv(1) True
    by (auto simp: report_temperature_def both_truthful_def set_acf_def Let_def update_truth weather_due_def split: option.split)
  then show ?thesis
    using tv by (auto simp: report_wind_def both_truthful_def set_acf_def update_truth split: option.split)
next
  case False
  then have "q = p" using assms(1) by (auto simp: report_weather_def weather_due_def split: option.splits if_splits)
  then show ?thesis using assms(2) by simp
qed

lemma head_truth:
  assumes "report_head E b \<lparr>em = e, acf = new_report E, acf2 = new_report E, send_it = False, ast = None\<rparr> = Some p"
  shows "both_truthful E b p"
  using report_head_frame [OF assms] new_report_true [of E b] by (auto simp: both_truthful_def)

text \<open>A whole report.\<close>

lemma prepare_truthful:
  assumes "prepare_aircraft E b e = Some p"
  shows "both_truthful E b p"
proof -
  obtain p1 p2 p3 p4 p5 p6 p7 where s:
    "report_head E b \<lparr>em = e, acf = new_report E, acf2 = new_report E, send_it = False, ast = None\<rparr> = Some p1"
    "report_callsign E b p1 = Some p2" "report_altitudes E b p2 = Some p3" "report_position E b p3 = Some p4"
    "report_heading E b p4 = Some p5" "report_tas E b p5 = Some p6" "report_weather E b p6 = Some p7"
    "p = report_accuracy E b (report_navigation E b (report_motion E b p7))"
    using assms by (auto simp: prepare_aircraft_def Option.bind_eq_Some_conv)
  have "both_truthful E b p7"
    using s(1-7) head_truth callsign_truth altitudes_truth position_truth heading_truth tas_truth weather_truth by metis
  then show ?thesis unfolding s(8) tail_defs by (intro truth)
qed

end
