(* ===== verification/FeederRounds.thy ===== *)
theory FeederRounds
  imports FeederTruth
begin

text \<open>
  How often the feeder reports, and what reaches the server. A field of the report that is throttled
  obeys the locale \<open>throttled_field\<close>, whose conclusion bounds the rate of its reports; the locale is
  interpreted for the fields of \<open>prepare_aircraft\<close>.
\<close>

subsection \<open>A sample\<close>

definition sample_libm :: weather_libm where
  "sample_libm = \<lparr>w_pow = (\<lambda>x y. 1), w_exp = (\<lambda>x. 1), w_sin = (\<lambda>x. 1), w_cos = (\<lambda>x. 1), w_atan = (\<lambda>x. 1),
     w_declination = (\<lambda>alt lat lon. 0)\<rparr>"

definition sample_env :: "int \<Rightarrow> feeder_env" where
  "sample_env t = \<lparr>fe_now = 5000, fe_tv_sec = t, fe_messageNow = 5000, fe_use_gnss = True, fe_asterix = None,
     fe_libm = sample_libm, fe_junk_geo = None\<rparr>"

definition sample_aircraft :: "item list \<Rightarrow> u32 \<Rightarrow> aircraft" where
  "sample_aircraft known a = zeroAircraft\<lparr>ac_addr := a, ac_callsign := [0x41, 0x42, 0x43, 0, 0, 0, 0, 0, 0],
     ac_altitude_baro := 35000, ac_squawk := 0x7700, ac_lat := 50, ac_lon := 7,
     valid := (\<lambda>i. if i \<in> set known
                   then \<lparr>stale_interval = 60000, expire_interval = 70000, v_source = SOURCE_ADSB, updated = 4000,
                          stale = 64000, expires = 74000\<rparr>
                   else valid zeroAircraft i)\<rparr>"

definition sample_rounds :: "(feeder_env \<times> aircraft) list" where
  "sample_rounds = List.map (\<lambda>t. (sample_env t, sample_aircraft [V_callsign, V_altitude_baro, V_squawk] 0x4840D6)) [200000, 200030, 200060]"

subsection \<open>The rate of reports\<close>

text \<open>The rounds of one aircraft, each with its clocks and the data of that moment.\<close>

fun rounds :: "(feeder_env \<times> aircraft) list \<Rightarrow> emitted \<Rightarrow> p_data list option" where
  "rounds [] e = Some []"
| "rounds ((E, b) # xs) e = do {
     p \<leftarrow> prepare_aircraft E b e;
     ds \<leftarrow> rounds xs (em p);
     Some (acf p # ds) }"

lemma length_rounds: "rounds xs e = Some ds \<Longrightarrow> length ds = length xs"
  by (induction xs e arbitrary: ds rule: rounds.induct) (auto simp: Option.bind_eq_Some_conv)

text \<open>
  Reports of a field are spaced: if it is in the reports of rounds \<open>i\<close> and \<open>j\<close>, the value has not
  changed in between, nothing forced the report and the clock was not set back, then the two are
  at least \<open>max_time\<close> seconds apart.
\<close>

definition clock :: "(feeder_env \<times> aircraft) list \<Rightarrow> nat \<Rightarrow> int" where
  "clock xs i = fe_tv_sec (fst (xs ! i))"

definition at_round :: "(feeder_env \<Rightarrow> aircraft \<Rightarrow> 'v) \<Rightarrow> (feeder_env \<times> aircraft) list \<Rightarrow> nat \<Rightarrow> 'v" where
  "at_round f xs k = f (fst (xs ! k)) (snd (xs ! k))"

definition spaced :: "(feeder_env \<times> aircraft) list \<Rightarrow> p_data list \<Rightarrow> (feeder_env \<Rightarrow> aircraft \<Rightarrow> p_data \<Rightarrow> 'r option)
    \<Rightarrow> (feeder_env \<Rightarrow> aircraft \<Rightarrow> 'v) \<Rightarrow> (feeder_env \<Rightarrow> aircraft \<Rightarrow> bool) \<Rightarrow> int \<Rightarrow> bool" where
  "spaced xs ds field val forced max_time \<longleftrightarrow>
     (\<forall>i j. i < j \<and> j < length xs \<and> at_round field xs i (ds ! i) \<noteq> None \<and> at_round field xs j (ds ! j) \<noteq> None
        \<and> (\<forall>k. i < k \<and> k \<le> j \<longrightarrow> at_round val xs k = at_round val xs i \<and> \<not> at_round forced xs k \<and> clock xs i \<le> clock xs k)
      \<longrightarrow> max_time \<le> clock xs j - clock xs i)"

lemma at_round_simps [simp]: "at_round f ((E, b) # xs) 0 = f E b" "at_round f (x # xs) (Suc k) = at_round f xs k"
  by (simp_all add: at_round_def)

lemma clock_simps [simp]: "clock ((E, b) # xs) 0 = fe_tv_sec E" "clock (x # xs) (Suc k) = clock xs k"
  by (simp_all add: clock_def)

text \<open>What is the same from one round to a later one can be shown for the rounds after the first.\<close>

lemma all_later: "(\<forall>k. 0 < k \<and> k \<le> Suc j \<longrightarrow> P k) \<longleftrightarrow> (\<forall>k\<le>j. P (Suc k))"
  by (metis Suc_le_mono gr0_conv_Suc zero_less_Suc)

lemma throttle_Some: "throttle E m f v e = Some x \<longleftrightarrow>
    x = \<lparr>em_value = v, em_time = fe_tv_sec E\<rparr> \<and> (fe_tv_sec E - em_time e \<ge> m \<or> em_value e \<noteq> v \<or> f)"
  by (auto simp: throttle_def)

text \<open>What a step promises about a throttled field, and what follows for the rounds.\<close>

locale throttled_field =
  fixes item :: "emitted \<Rightarrow> 'v emitted_item" and field :: "feeder_env \<Rightarrow> aircraft \<Rightarrow> p_data \<Rightarrow> 'r option"
    and val :: "feeder_env \<Rightarrow> aircraft \<Rightarrow> 'v" and forced :: "feeder_env \<Rightarrow> aircraft \<Rightarrow> bool" and max_time :: int
  assumes round: "prepare_aircraft E b e = Some p \<Longrightarrow> due E max_time (forced E b) (val E b) (item e) (item (em p)) (field E b (acf p))"
begin

lemma keeps_time:
  assumes "prepare_aircraft E b e = Some p" "em_value (item e) = val E b" "t \<le> em_time (item e)" "t \<le> fe_tv_sec E"
  shows "em_value (item (em p)) = val E b" "t \<le> em_time (item (em p))"
  using round [OF assms(1)] assms(2-4) by (auto simp: due_def throttle_Some)

lemma reported_not_before:
  assumes "prepare_aircraft E b e = Some p" "em_value (item e) = val E b" "\<not> forced E b" "field E b (acf p) \<noteq> None"
  shows "max_time \<le> fe_tv_sec E - em_time (item e)"
  using round [OF assms(1)] assms(2-4) by (auto simp: due_def throttle_Some)

lemma reported_remembers:
  assumes "prepare_aircraft E b e = Some p" "field E b (acf p) \<noteq> None"
  shows "item (em p) = \<lparr>em_value = val E b, em_time = fe_tv_sec E\<rparr>"
  using round [OF assms(1)] assms(2) by (auto simp: due_def throttle_Some)

lemma not_repeated_before:
  assumes "rounds xs e = Some ds" "j < length xs" "at_round field xs j (ds ! j) \<noteq> None"
    and "em_value (item e) = v" "t \<le> em_time (item e)"
    and "\<forall>k\<le>j. at_round val xs k = v \<and> \<not> at_round forced xs k \<and> t \<le> clock xs k"
  shows "max_time \<le> clock xs j - t"
  using assms
proof (induction xs e arbitrary: ds j rule: rounds.induct)
  case (2 E b xs e)
  from "2.prems"(1) obtain p rest where p: "prepare_aircraft E b e = Some p" "rounds xs (em p) = Some rest" "ds = acf p # rest"
    by (auto simp: Option.bind_eq_Some_conv)
  have now: "val E b = v" "\<not> forced E b" "t \<le> fe_tv_sec E" using "2.prems"(6) by (auto dest: spec [of _ 0])
  show ?case
  proof (cases j)
    case 0
    then show ?thesis using reported_not_before [OF p(1)] "2.prems"(3-5) now p(3) by simp
  next
    case (Suc i)
    have "max_time \<le> clock xs i - t"
    proof (rule "2.IH" [OF p(1,2)])
      show "i < length xs" "at_round field xs i (rest ! i) \<noteq> None" using "2.prems"(2,3) Suc p(3) by simp_all
      show "em_value (item (em p)) = v" "t \<le> em_time (item (em p))" using keeps_time [OF p(1)] "2.prems"(4,5) now by simp_all
      show "\<forall>k\<le>i. at_round val xs k = v \<and> \<not> at_round forced xs k \<and> t \<le> clock xs k"
        using "2.prems"(6) Suc by (auto dest: spec [of _ "Suc _"])
    qed
    then show ?thesis using Suc by simp
  qed
qed simp

lemma spaced_reports:
  assumes "rounds xs e = Some ds"
  shows "spaced xs ds field val forced max_time"
  unfolding spaced_def
proof (intro allI impI, elim conjE)
  fix i j
  assume ij: "i < j" "j < length xs" "at_round field xs i (ds ! i) \<noteq> None" "at_round field xs j (ds ! j) \<noteq> None"
    and quiet: "\<forall>k. i < k \<and> k \<le> j \<longrightarrow> at_round val xs k = at_round val xs i \<and> \<not> at_round forced xs k \<and> clock xs i \<le> clock xs k"
  show "max_time \<le> clock xs j - clock xs i"
    using assms ij quiet
  proof (induction xs e arbitrary: ds i j rule: rounds.induct)
    case (2 E b xs e)
    from "2.prems"(1) obtain p rest where p: "prepare_aircraft E b e = Some p" "rounds xs (em p) = Some rest" "ds = acf p # rest"
      by (auto simp: Option.bind_eq_Some_conv)
    from "2.prems"(2) obtain j' where j': "j = Suc j'" by (cases j) auto
    show ?case
    proof (cases i)
      case 0
      have "item (em p) = \<lparr>em_value = val E b, em_time = fe_tv_sec E\<rparr>"
        using reported_remembers [OF p(1)] "2.prems"(4) p(3) 0 by simp
      moreover have "\<forall>k\<le>j'. at_round val xs k = val E b \<and> \<not> at_round forced xs k \<and> fe_tv_sec E \<le> clock xs k"
        using "2.prems"(6) unfolding 0 j' all_later by simp
      ultimately have "max_time \<le> clock xs j' - fe_tv_sec E"
        using "2.prems"(3,5) p j' by (intro not_repeated_before [OF p(2)]) auto
      then show ?thesis using 0 j' by simp
    next
      case (Suc i')
      have "max_time \<le> clock xs j' - clock xs i'"
        by (rule "2.IH" [OF p(1,2)]) (use "2.prems" Suc j' p(3) in \<open>auto dest: spec [of _ "Suc _"]\<close>)
      then show ?thesis using Suc j' by simp
    qed
  qed simp
qed

end


text \<open>
  The interpretations, and the spacing of the reports of every field they cover. The vertical rate has two
  intervals, one for each source. The geometric altitude is taken as reported only if its flag, which a
  new report does not initialise, was clear.
\<close>

definition only :: "(p_data \<Rightarrow> 'r option) \<Rightarrow> feeder_env \<Rightarrow> aircraft \<Rightarrow> p_data \<Rightarrow> 'r option" where
  "only field E b d = field d"

definition altitude_geo_set :: "feeder_env \<Rightarrow> aircraft \<Rightarrow> p_data \<Rightarrow> int option" where
  "altitude_geo_set E b d = (if fe_junk_geo E = None then pd_altitude_geo d else None)"

definition geom_rate_reported :: "feeder_env \<Rightarrow> aircraft \<Rightarrow> p_data \<Rightarrow> 16 word option" where
  "geom_rate_reported E b d = (if geom_rate_used E b then pd_vert_rate d else None)"

definition baro_rate_reported :: "feeder_env \<Rightarrow> aircraft \<Rightarrow> p_data \<Rightarrow> 16 word option" where
  "baro_rate_reported E b d = (if geom_rate_used E b then None else pd_vert_rate d)"

definition never :: "feeder_env \<Rightarrow> aircraft \<Rightarrow> bool" where
  "never E b \<longleftrightarrow> False"

lemmas reported_defs = only_def altitude_geo_set_def geom_rate_reported_def baro_rate_reported_def never_def

interpretation callsign: throttled_field em_callsign "only pd_callsign" "\<lambda>_ b. string_until_nul (ac_callsign b)" force_send 60
  by unfold_locales (simp add: prepare_due(1) reported_defs)

interpretation altitude: throttled_field em_altitude_baro "only pd_altitude" "\<lambda>_. ac_altitude_baro" force_send 60
  by unfold_locales (simp add: prepare_due(2) reported_defs)

interpretation altitude_geo: throttled_field em_altitude_geom altitude_geo_set "\<lambda>_. ac_altitude_geom" force_send 60
  by unfold_locales (simp add: prepare_due(3) reported_defs)

interpretation gnd_speed: throttled_field em_gs "only pd_gnd_speed" "\<lambda>_ b. f32 (ac_gs b / 10)" force_send 60
  by unfold_locales (simp add: prepare_due(7) reported_defs)

interpretation geom_rate: throttled_field em_geom_rate geom_rate_reported "\<lambda>_ b. ac_geom_rate b sdiv 10" force_send 60
  by unfold_locales (simp add: prepare_further(1) reported_defs)

interpretation baro_rate: throttled_field em_baro_rate baro_rate_reported "\<lambda>_ b. ac_baro_rate b sdiv 10" force_send 60
  by unfold_locales (simp add: prepare_further(2) reported_defs)

interpretation heading: throttled_field em_mag_heading "only pd_heading" "\<lambda>_ b. f32 (ac_mag_heading b / 10)" never 60
  by unfold_locales (simp add: prepare_due(6) reported_defs)

interpretation air_speed: throttled_field em_ias "only pd_ias" "\<lambda>_ b. ac_ias b div 10" never 60
  by unfold_locales (simp add: prepare_due(8) reported_defs)

interpretation nic: throttled_field em_pos_nic "only pd_pos_nic" "\<lambda>_. pos_nic" force_send 180
  by unfold_locales (simp add: prepare_due(4) reported_defs)

interpretation airborne: throttled_field em_airborne "only pd_airborne" ground_flag force_send 180
  by unfold_locales (simp add: prepare_further(3) reported_defs)

interpretation baro_nic: throttled_field em_nic_baro "only pd_nic_baro" "\<lambda>_ b. ac_nic_baro (ac_accuracy b)" force_send 180
  by unfold_locales (simp add: prepare_due(9) reported_defs)

interpretation nac_pos: throttled_field em_nac_p "only pd_nac_p" "\<lambda>_ b. ac_nac_p (ac_accuracy b)" force_send 180
  by unfold_locales (simp add: prepare_further(8) reported_defs)

interpretation nac_vel: throttled_field em_nac_v "only pd_nac_v" "\<lambda>_ b. ac_nac_v (ac_accuracy b)" force_send 180
  by unfold_locales (simp add: prepare_further(9) reported_defs)

interpretation integrity: throttled_field em_sil "only pd_sil" "\<lambda>_ b. ac_sil (ac_accuracy b)" force_send 180
  by unfold_locales (simp add: prepare_further(10) reported_defs)

interpretation modes: throttled_field em_nav_modes "only reported_flags" "\<lambda>_ b. ac_nav_modes (ac_nav b)" never 180
  by unfold_locales (simp add: prepare_further(4) reported_defs)

interpretation fms: throttled_field em_nav_altitude_fms "only pd_nav_altitude_fms" "\<lambda>_ b. ac_nav_altitude_fms (ac_nav b)" never 180
  by unfold_locales (simp add: prepare_further(5) reported_defs)

interpretation mcp: throttled_field em_nav_altitude_mcp "only pd_nav_altitude_mcp" "\<lambda>_ b. ac_nav_altitude_mcp (ac_nav b)" never 180
  by unfold_locales (simp add: prepare_further(6) reported_defs)

interpretation qnh: throttled_field em_nav_qnh "only pd_nav_qnh" "\<lambda>_ b. ac_nav_qnh (ac_nav b)" never 180
  by unfold_locales (simp add: prepare_further(7) reported_defs)

interpretation temperature: throttled_field em_temperature "only pd_temperature" temperature_value never 180
  by unfold_locales (simp add: prepare_further(11) reported_defs)

interpretation wind_field: throttled_field em_wind "only pd_wind" wind_value never 180
  by unfold_locales (simp add: prepare_further(12) reported_defs)

lemmas field_spacing =
  callsign.spaced_reports altitude.spaced_reports altitude_geo.spaced_reports gnd_speed.spaced_reports geom_rate.spaced_reports
  baro_rate.spaced_reports heading.spaced_reports air_speed.spaced_reports nic.spaced_reports airborne.spaced_reports
  baro_nic.spaced_reports nac_pos.spaced_reports nac_vel.spaced_reports integrity.spaced_reports modes.spaced_reports
  fms.spaced_reports mcp.spaced_reports qnh.spaced_reports temperature.spaced_reports wind_field.spaced_reports

text \<open>
  C5. Rate of reports. Over any number of rounds, whatever messages arrive between them, two reports of a
  field are at least its interval apart if its value has not changed and the clock was not set back
  in between, and if nothing in between forced a report. The interval is 60 seconds for the callsign,
  the altitudes, ground speed, vertical rate, heading and air speed, and 180 seconds for the category of
  the position, the airborne state, the other accuracy categories, navigation flags, selected altitudes,
  pressure setting, temperature and wind. Reports of heading, air speed, navigation and weather are
  never forced, those of the others when an aircraft with an ICAO address is low, slow, climbing below
  10000 feet or on the ground. These are all the fields for which the code has an interval, except the
  squawk; the position itself, the selected heading and the source of the selected altitude have none.
\<close>

theorem feeder_fields_spaced:
  assumes "rounds xs e = Some ds"
  shows "spaced xs ds (only pd_callsign) (\<lambda>_ b. string_until_nul (ac_callsign b)) force_send 60
    \<and> spaced xs ds (only pd_altitude) (\<lambda>_. ac_altitude_baro) force_send 60
    \<and> spaced xs ds altitude_geo_set (\<lambda>_. ac_altitude_geom) force_send 60
    \<and> spaced xs ds (only pd_gnd_speed) (\<lambda>_ b. f32 (ac_gs b / 10)) force_send 60
    \<and> spaced xs ds geom_rate_reported (\<lambda>_ b. ac_geom_rate b sdiv 10) force_send 60
    \<and> spaced xs ds baro_rate_reported (\<lambda>_ b. ac_baro_rate b sdiv 10) force_send 60
    \<and> spaced xs ds (only pd_heading) (\<lambda>_ b. f32 (ac_mag_heading b / 10)) never 60
    \<and> spaced xs ds (only pd_ias) (\<lambda>_ b. ac_ias b div 10) never 60
    \<and> spaced xs ds (only pd_pos_nic) (\<lambda>_. pos_nic) force_send 180
    \<and> spaced xs ds (only pd_airborne) ground_flag force_send 180
    \<and> spaced xs ds (only pd_nic_baro) (\<lambda>_ b. ac_nic_baro (ac_accuracy b)) force_send 180
    \<and> spaced xs ds (only pd_nac_p) (\<lambda>_ b. ac_nac_p (ac_accuracy b)) force_send 180
    \<and> spaced xs ds (only pd_nac_v) (\<lambda>_ b. ac_nac_v (ac_accuracy b)) force_send 180
    \<and> spaced xs ds (only pd_sil) (\<lambda>_ b. ac_sil (ac_accuracy b)) force_send 180
    \<and> spaced xs ds (only reported_flags) (\<lambda>_ b. ac_nav_modes (ac_nav b)) never 180
    \<and> spaced xs ds (only pd_nav_altitude_fms) (\<lambda>_ b. ac_nav_altitude_fms (ac_nav b)) never 180
    \<and> spaced xs ds (only pd_nav_altitude_mcp) (\<lambda>_ b. ac_nav_altitude_mcp (ac_nav b)) never 180
    \<and> spaced xs ds (only pd_nav_qnh) (\<lambda>_ b. ac_nav_qnh (ac_nav b)) never 180
    \<and> spaced xs ds (only pd_temperature) temperature_value never 180
    \<and> spaced xs ds (only pd_wind) wind_value never 180"
  by (intro conjI) (rule field_spacing [OF assms])+

theorem feeder_fields_spaced_witness:
  "\<exists>ds. List.map pd_altitude ds = [Some 35000, None, Some 35000]
     \<and> spaced sample_rounds ds (only pd_altitude) (\<lambda>_. ac_altitude_baro) force_send 60"
proof -
  have "map_option (List.map pd_altitude) (rounds sample_rounds emitted_start) = Some [Some 35000, None, Some 35000]"
    by code_simp
  then obtain ds where ds: "rounds sample_rounds emitted_start = Some ds" "List.map pd_altitude ds = [Some 35000, None, Some 35000]"
    by auto
  show ?thesis by (rule exI [of _ ds]) (use feeder_fields_spaced [OF ds(1)] ds(2) in simp)
qed

subsection \<open>What a report says\<close>

text \<open>
  C6. A report is true: every field it holds, of both copies of the report, passed the tests of validity
  and age the code asks for, and is the value of the aircraft in the unit of the protocol, as written
  out in the definitions of \<open>FeederTruth\<close>. Most fields have been valid and updated within the last three
  seconds; callsign, air speed and the navigation settings are only tested for their age, the
  accuracies only for validity. A geometric altitude may also be what the stack held.
\<close>

theorem report_sound:
  assumes "prepare_aircraft E b e = Some p"
  shows "truthful E b (acf p) \<and> truthful E b (acf2 p)"
  using prepare_truthful [OF assms] by (simp add: both_truthful_def)

theorem report_sound_witness:
  "\<exists>p. prepare_aircraft (sample_env 200000) (sample_aircraft [V_position] 0x4840D6) emitted_start = Some p
     \<and> pd_position (acf p) = Some (50, 7) \<and> fresh (sample_env 200000) (sample_aircraft [V_position] 0x4840D6) V_position"
proof -
  let ?E = "sample_env 200000" and ?b = "sample_aircraft [V_position] 0x4840D6"
  have "map_option (\<lambda>p. pd_position (acf p)) (prepare_aircraft ?E ?b emitted_start) = Some (Some (50, 7))" by code_simp
  then obtain p where p: "prepare_aircraft ?E ?b emitted_start = Some p" "pd_position (acf p) = Some (50, 7)" by auto
  have "fresh ?E ?b V_position"
    using report_sound [OF p(1)] p(2) by (simp add: truthful_def true_motion_def)
  with p show ?thesis by blast
qed

text \<open>
  C37. Error: the squawk is not throttled. The test subtracts the squawk, not the time of its last
  report, from the clock, so with any clock of this century every report holds it.
\<close>

theorem squawk_always_repeated:
  assumes "rounds xs e = Some ds" "uint (em_value (em_squawk e)) \<le> 0xFFFF"
    and "\<forall>(E, b)\<in>set xs. fresh E b V_squawk \<and> uint (ac_squawk b) \<le> 0xFFFF \<and> 100000 \<le> fe_tv_sec E"
  shows "\<forall>i<length xs. pd_squawk (ds ! i) = Some (ucast (ac_squawk (snd (xs ! i))))"
  using assms
proof (induction xs e arbitrary: ds rule: rounds.induct)
  case (2 E b xs e)
  from "2.prems"(1) obtain p rest where p: "prepare_aircraft E b e = Some p" "rounds xs (em p) = Some rest" "ds = acf p # rest"
    by (auto simp: Option.bind_eq_Some_conv)
  have b: "fresh E b V_squawk" "uint (ac_squawk b) \<le> 0xFFFF" "100000 \<le> fe_tv_sec E" using "2.prems"(3) by auto
  have now: "pd_squawk (acf p) = Some (ucast (ac_squawk b))" "uint (em_value (em_squawk (em p))) \<le> 0xFFFF"
    using prepare_due(10,11) [OF p(1)] b "2.prems"(2) by (auto simp: fresh_def)
  have rest: "\<forall>i<length xs. pd_squawk (rest ! i) = Some (ucast (ac_squawk (snd (xs ! i))))"
    by (rule "2.IH" [OF p(1,2) now(2)]) (use "2.prems"(3) in auto)
  show ?case using now(1) rest by (auto simp: p(3) less_Suc_eq_0_disj)
qed simp

theorem squawk_always_repeated_witness:
  "\<exists>ds. rounds sample_rounds emitted_start = Some ds \<and> (\<forall>i<3. pd_squawk (ds ! i) = Some 0x7700)"
proof -
  have "map_option (List.map pd_altitude) (rounds sample_rounds emitted_start) = Some [Some 35000, None, Some 35000]"
    by code_simp
  then obtain ds where ds: "rounds sample_rounds emitted_start = Some ds" by auto
  have "\<forall>(E, b)\<in>set sample_rounds. fresh E b V_squawk \<and> uint (ac_squawk b) \<le> 0xFFFF \<and> 100000 \<le> fe_tv_sec E"
    by code_simp
  moreover have "uint (em_value (em_squawk emitted_start)) \<le> 0xFFFF" by code_simp
  ultimately have "\<forall>i<length sample_rounds. pd_squawk (ds ! i) = Some (ucast (ac_squawk (snd (sample_rounds ! i))))"
    using squawk_always_repeated [OF ds] by blast
  moreover have "\<forall>i\<in>set [0..<3]. ac_squawk (snd (sample_rounds ! i)) = 0x7700" by code_simp
  moreover have "length sample_rounds = 3" by (simp add: sample_rounds_def)
  ultimately show ?thesis using ds by simp
qed

subsection \<open>Who is reported\<close>

named_theorems sent_kept

lemma set_both_sent [sent_kept]: "send_it (set_both f p)" "send_it (set_acf f p)"
  by (simp_all add: set_both_def set_acf_def)

lemma motion_sent [sent_kept]:
  "send_it p \<Longrightarrow> send_it (report_temperature E t p)" "send_it p \<Longrightarrow> send_it (report_wind E v p)"
  "send_it p \<Longrightarrow> send_it (report_gs E b p)" "send_it p \<Longrightarrow> send_it (report_geom_rate E b p)"
  "send_it p \<Longrightarrow> send_it (report_baro_rate E b p)" "send_it p \<Longrightarrow> send_it (report_squawk E b p)"
  "send_it p \<Longrightarrow> send_it (report_ias E b p)" "send_it p \<Longrightarrow> send_it (report_mlat b p)"
  by (auto simp: report_temperature_def report_wind_def report_gs_def report_geom_rate_def report_baro_rate_def
      report_squawk_def report_ias_def report_mlat_def Let_def sent_kept split: option.split)

lemma vert_rate_sent [sent_kept]: "send_it p \<Longrightarrow> send_it (report_vert_rate E b p)"
  by (simp add: report_vert_rate_def sent_kept)

lemma navigation_sent [sent_kept]:
  "send_it p \<Longrightarrow> send_it (report_nav_modes E b p)" "send_it p \<Longrightarrow> send_it (report_fms E b p)"
  "send_it p \<Longrightarrow> send_it (report_mcp E b p)" "send_it p \<Longrightarrow> send_it (report_altitude_src E b p)"
  "send_it p \<Longrightarrow> send_it (report_qnh E b p)" "send_it p \<Longrightarrow> send_it (report_nav_heading E b p)"
       apply (simp add: report_nav_modes_def Let_def split: option.split)
      apply (simp add: report_fms_def Let_def split: option.split)
     apply (simp add: report_mcp_def Let_def split: option.split)
    apply (cases "ac_nav_altitude_src (ac_nav b)"; simp add: report_altitude_src_def)
   apply (simp add: report_qnh_def Let_def split: option.split)
  apply (simp add: report_nav_heading_def Let_def)
  done

lemma accuracy_sent [sent_kept]:
  "send_it p \<Longrightarrow> send_it (report_nic_baro E b p)" "send_it p \<Longrightarrow> send_it (report_nac_p E b p)"
  "send_it p \<Longrightarrow> send_it (report_nac_v E b p)" "send_it p \<Longrightarrow> send_it (report_sil E b p)"
  by (auto simp: report_nic_baro_def report_nac_p_def report_nac_v_def report_sil_def Let_def sent_kept split: option.split)

lemma air_sent [sent_kept]:
  "report_heading E b p = Some q \<Longrightarrow> send_it p \<Longrightarrow> send_it q" "report_tas E b p = Some q \<Longrightarrow> send_it p \<Longrightarrow> send_it q"
  "report_weather E b p = Some q \<Longrightarrow> send_it p \<Longrightarrow> send_it q"
    apply (auto simp: report_heading_def Let_def sent_kept dest!: asterix_doD split: option.splits if_splits)[1]
   apply (auto simp: report_tas_def dest!: asterix_doD split: if_splits)[1]
  apply (auto simp: report_weather_def Let_def sent_kept Option.bind_eq_Some_conv split: option.splits if_splits)[1]
  done

lemma report_position_sent: "report_position E b p = Some q \<Longrightarrow> fresh E b V_position \<Longrightarrow> send_it q"
  by (auto simp: report_position_def fresh_def Let_def set_both_def dest!: asterix_doD split: option.splits)

lemma prepare_aircraft_sent:
  assumes "prepare_aircraft E b e = Some p" "fresh E b V_position"
  shows "send_it p"
proof -
  obtain p1 p2 p3 p4 p5 p6 p7 where s:
    "em p1 = e" "acf p1 = (new_report E)\<lparr>pd_modes_addr := if non_icao_aircraft b then None else Some (ac_addr b), pd_timestp := fe_now E\<rparr>"
    "report_callsign E b p1 = Some p2" "report_altitudes E b p2 = Some p3" "report_position E b p3 = Some p4"
    "report_heading E b p4 = Some p5" "report_tas E b p5 = Some p6" "report_weather E b p6 = Some p7"
    "p = report_accuracy E b (report_navigation E b (report_motion E b p7))"
    by (rule prepare_chain [OF assms(1)])
  have "send_it p4" by (rule report_position_sent [OF s(5) assms(2)])
  then have "send_it p7" using air_sent(1) [OF s(6)] air_sent(2) [OF s(7)] air_sent(3) [OF s(8)] by simp
  then show ?thesis by (simp add: s(9) tail_defs sent_kept)
qed

subsection \<open>The list of reports\<close>

text \<open>What one aircraft adds to the list.\<close>

lemma prepare_one_flist:
  assumes "prepare_one E sock b e s = Some (e', s')"
  obtains p where "prepare_aircraft E b e = Some p" "e' = em p"
    "flist s' = (if send_it p then [(acf p)\<lparr>pd_cmd := 5\<rparr>] else []) @ flist s"
proof -
  from assms obtain p s1 where p: "prepare_aircraft E b e = Some p" "finish_report E sock p s = Some s1" "e' = em p"
    "flist s' = flist s1"
    by (auto simp: prepare_one_def Option.bind_eq_Some_conv split: if_splits)
  have "flist s1 = (if send_it p then [(acf p)\<lparr>pd_cmd := 5\<rparr>] else []) @ flist s"
    using p(2) by (auto simp: finish_report_def Let_def Option.bind_eq_Some_conv split: if_splits option.splits)
  with that [OF p(1,3)] p(4) show ?thesis by simp
qed

text \<open>The report of an aircraft with a fresh position.\<close>

definition reports_position :: "aircraft \<Rightarrow> p_data \<Rightarrow> bool" where
  "reports_position b d \<longleftrightarrow> pd_modes_addr d = (if non_icao_aircraft b then None else Some (ac_addr b))
     \<and> pd_position d = Some (ac_lat b, ac_lon b)"

lemma prepare_all_position:
  "prepare_all sock bs s = Some (es, s') \<Longrightarrow>
   (\<forall>(E, b, e)\<in>set bs. fresh E b V_position \<longrightarrow> (\<exists>d\<in>set (flist s'). reports_position b d))
   \<and> set (flist s) \<subseteq> set (flist s')"
proof (induction sock bs s arbitrary: es s' rule: prepare_all.induct)
  case (2 sock E b e bs s)
  from "2.prems" obtain e1 s1 es1 where s1: "prepare_one E sock b e s = Some (e1, s1)" "prepare_all sock bs s1 = Some (es1, s')"
    by (auto simp: Option.bind_eq_Some_conv)
  obtain p where p: "prepare_aircraft E b e = Some p" "flist s1 = (if send_it p then [(acf p)\<lparr>pd_cmd := 5\<rparr>] else []) @ flist s"
    by (rule prepare_one_flist [OF s1(1)])
  have IH: "\<forall>(E, b, e)\<in>set bs. fresh E b V_position \<longrightarrow> (\<exists>d\<in>set (flist s'). reports_position b d)"
    "set (flist s1) \<subseteq> set (flist s')"
    using "2.IH" [OF s1(1) refl s1(2)] by simp_all
  have "\<exists>d\<in>set (flist s'). reports_position b d" if "fresh E b V_position"
  proof (rule bexI)
    show "reports_position b ((acf p)\<lparr>pd_cmd := 5\<rparr>)"
      using prepare_due(5,12) [OF p(1)] that by (simp add: reports_position_def fresh_def)
    show "(acf p)\<lparr>pd_cmd := 5\<rparr> \<in> set (flist s')"
      using prepare_aircraft_sent [OF p(1) that] p(2) IH(2) by simp
  qed
  then show ?case using IH p(2) by auto
qed simp


subsection \<open>From the aircraft to the server\<close>

text \<open>All four pieces of the packet are taken by the socket.\<close>

definition all_taken :: "u8 list \<Rightarrow> int list" where
  "all_taken buf = [2, 2, 1, int (length buf)]"

definition flight_packet :: "u8 list \<Rightarrow> prepared_packet" where
  "flight_packet buf = \<lparr>pp_buf = buf, pp_len = of_nat (length buf), pp_type = FLIGHT_PACKET\<rparr>"

definition fits_packet :: "u8 list \<Rightarrow> bool" where
  "fits_packet buf \<longleftrightarrow> 2 \<le> length buf \<and> length buf + 5 \<le> BUFFLEN"

lemma flight_packet_sendable: "fits_packet buf \<Longrightarrow> sendable (flight_packet buf)"
  by (simp add: fits_packet_def sendable_def flight_packet_def BUFFLEN_def unat_of_nat)

lemma net_send_all_taken:
  assumes "fits_packet buf"
  obtains l' where "net_send_packet (all_taken buf) (flight_packet buf) l = Some (1, l')" "wire l' = wire l @ frame (flight_packet buf)"
    "packets_total l' = packets_total l + 1"
  using frame_pieces [OF flight_packet_sendable [OF assms]] packet_parts(1) [OF flight_packet_sendable [OF assms]]
  by (simp add: net_send_packet_def packet_pieces_def send_bytes_def c_simps all_taken_def flight_packet_def)

lemma thread_sends:
  assumes "flist s \<noteq> []" "airnav_com_inited l = 1" "fits_packet (pack (List.map flight_of (flist s)))"
  obtains s2 l2 where
    "airnav_threadSendData pack (all_taken (pack (List.map flight_of (flist s)))) (s, l) = Some (s2, l2)"
    "flist s2 = []" "wire l2 = wire l @ frame (flight_packet (pack (List.map flight_of (flist s))))"
    "packets_total l2 = packets_total l + (if length (flist s) = 1 then 2 else int (length (flist s)))"
proof -
  obtain l' where l': "net_send_packet (all_taken (pack (List.map flight_of (flist s)))) (flight_packet (pack (List.map flight_of (flist s)))) l = Some (1, l')"
    "wire l' = wire l @ frame (flight_packet (pack (List.map flight_of (flist s))))" "packets_total l' = packets_total l + 1"
    by (rule net_send_all_taken [OF assms(3)])
  define k where "k = (if int (length (flist s)) > 1 then int (length (flist s)) - 1 else int (length (flist s)))"
  let ?l2 = "l'\<lparr>packets_total := packets_total l' + k, packets_last := packets_last l' + k\<rparr>"
  have "airnav_threadSendData pack (all_taken (pack (List.map flight_of (flist s)))) (s, l)
      = Some (s\<lparr>flist := [], packet_cache_count := 0\<rparr>, ?l2)"
    using assms(1,2) l'(1) by (simp add: airnav_threadSendData_def sendMultipleFlights_def c_simps flight_packet_def k_def Let_def)
  moreover have "1 + k = (if length (flist s) = 1 then 2 else int (length (flist s)))"
    using assms(1) by (cases "flist s") (auto simp: k_def)
  ultimately show ?thesis
    using that [of "s\<lparr>flist := [], packet_cache_count := 0\<rparr>" ?l2] l'(2,3) by simp
qed

text \<open>
  Error: a packet with one flight is counted twice. The call that writes the packet counts it,
  and the caller adds the number of flights less that one, but not when there is only one flight.
\<close>

theorem flights_counted:
  assumes "flist s \<noteq> []" "airnav_com_inited l = 1" "fits_packet (pack (List.map flight_of (flist s)))"
  shows "\<exists>s2 l2. airnav_threadSendData pack (all_taken (pack (List.map flight_of (flist s)))) (s, l) = Some (s2, l2)
    \<and> packets_total l2 - packets_total l = (if length (flist s) = 1 then 2 else int (length (flist s)))"
proof -
  obtain s2 l2 where "airnav_threadSendData pack (all_taken (pack (List.map flight_of (flist s)))) (s, l) = Some (s2, l2)"
    "packets_total l2 = packets_total l + (if length (flist s) = 1 then 2 else int (length (flist s)))"
    by (rule thread_sends [where pack = pack, OF assms])
  then show ?thesis by simp
qed

definition sample_feeder :: feeder where
  "sample_feeder = \<lparr>flist = [], flist2 = [], packet_cache_count = 0, currently_tracked_flights = 0, datagrams = []\<rparr>"

theorem flights_counted_witness:
  "\<exists>s2 l2. airnav_threadSendData (\<lambda>_. [8, 1]) (all_taken [8, 1]) (sample_feeder\<lparr>flist := [net_preparePacket_v2 None]\<rparr>, link_idle) = Some (s2, l2)
     \<and> packets_total l2 = 2"
  using flights_counted [of "sample_feeder\<lparr>flist := [net_preparePacket_v2 None]\<rparr>" link_idle "\<lambda>_. [8, 1]"]
  by (simp add: link_idle_def fits_packet_def BUFFLEN_def)

text \<open>
  C4. Composition. A round over the aircraft is followed by a pass of the sending thread over a link that is
  up, idle and takes all the data, and the packed reports fit into a packet. Then there is a packet on the
  wire that a receiver with the same framing hands over once, and whose payload unpacks to a list of
  flights with, for every aircraft that had a fresh position, this position, and with it the address of
  the aircraft if it is an ICAO address and the address 0 if not. Packing and unpacking of protobuf
  messages are parameters that undo each other on this list.
\<close>

theorem positions_reach_server:
  assumes "airnav_prepareData sock bs s = Some (es, s1)" "flist s1 \<noteq> []"
    and "airnav_com_inited l = 1" "quiet (wire l)" "length (wire l) + 2 \<le> BUFFLEN"
    and "fits_packet (pack (List.map flight_of (flist s1)))"
    and "unpack (pack (List.map flight_of (flist s1))) = Some (List.map flight_of (flist s1))"
  shows "\<exists>s2 l2 r packet fs.
      airnav_threadSendData pack (all_taken (pack (List.map flight_of (flist s1)))) (s1, l) = Some (s2, l2) \<and> flist s2 = []
    \<and> receive_stream (wire l2) rx_start = Some (r, [packet]) \<and> packet ! 4 = message_code FLIGHT_PACKET
    \<and> unpack (drop 5 packet) = Some fs
    \<and> (\<forall>(E, b, e)\<in>set bs. fresh E b V_position \<longrightarrow>
          (\<exists>f\<in>set fs. fd_addr f = (if non_icao_aircraft b then 0 else ac_addr b)
             \<and> fd_latitude f = Some (ac_lat b) \<and> fd_longitude f = Some (ac_lon b)))"
proof -
  let ?buf = "pack (List.map flight_of (flist s1))" and ?fs = "List.map flight_of (flist s1)"
  let ?packet = "frame (flight_packet ?buf)"
  obtain s2 l2 where sent: "airnav_threadSendData pack (all_taken ?buf) (s1, l) = Some (s2, l2)" "flist s2 = []"
    "wire l2 = wire l @ ?packet"
    by (rule thread_sends [where pack = pack, OF assms(2,3,6)])
  note ok = flight_packet_sendable [OF assms(6)]
  have "collect_all (wire l2) [] = ([], [?packet])"
    using collect_all_quiet [of "[]" "wire l"] collect_all_frame [OF ok assms(4,5)] assms(4,5) sent(3)
    by (simp add: collect_all_append)
  then obtain r where "receive_stream (wire l2) rx_start = Some (r, [?packet])"
    using receiver_implements_collector [OF holds_start, of "wire l2"] by auto
  moreover have "?packet ! 4 = message_code FLIGHT_PACKET" "drop 5 ?packet = ?buf"
    using packet_parts(1) [OF ok] by (simp_all add: flight_packet_def packet_size_bytes_def)
  moreover have "\<exists>f\<in>set ?fs. fd_addr f = (if non_icao_aircraft b then 0 else ac_addr b)
      \<and> fd_latitude f = Some (ac_lat b) \<and> fd_longitude f = Some (ac_lon b)"
    if "(E, b, e) \<in> set bs" "fresh E b V_position" for E b e
  proof -
    have "\<exists>d\<in>set (flist s1). reports_position b d"
      using prepare_all_position [OF assms(1) [unfolded airnav_prepareData_def]] that by auto
    then show ?thesis by (force simp: reports_position_def flight_of_def split: if_splits)
  qed
  ultimately show ?thesis using sent(1,2) assms(7) by (intro exI conjI) (assumption | force)+
qed


text \<open>A packing that keeps the address and whole degrees.\<close>

definition sample_pack :: "flight_data list \<Rightarrow> u8 list" where
  "sample_pack fs = concat (List.map (\<lambda>f. [ucast (drop_bit 16 (fd_addr f)), ucast (drop_bit 8 (fd_addr f)), ucast (fd_addr f),
     word_of_int \<lfloor>the (fd_latitude f)\<rfloor>, word_of_int \<lfloor>the (fd_longitude f)\<rfloor>]) fs)"

definition sample_flight :: "u32 \<Rightarrow> rat \<Rightarrow> rat \<Rightarrow> flight_data" where
  "sample_flight a lat lon = (flight_of (net_preparePacket_v2 None))\<lparr>fd_addr := a, fd_latitude := Some lat, fd_longitude := Some lon,
     fd_pos_nic := Some 0\<rparr>"

fun sample_unpack :: "u8 list \<Rightarrow> flight_data list option" where
  "sample_unpack [] = Some []"
| "sample_unpack (a # b # c # lat # lon # rest) = map_option
     ((#) (sample_flight (push_bit 16 (ucast a) OR push_bit 8 (ucast b) OR ucast c) (of_int (uint lat)) (of_int (uint lon))))
     (sample_unpack rest)"
| "sample_unpack _ = None"

definition sample_round :: "(feeder_env \<times> aircraft \<times> emitted) list" where
  "sample_round = [(sample_env 200000, sample_aircraft [V_position] 0x4840D6, emitted_start),
                   (sample_env 200000, sample_aircraft [V_position] 0x1000001, emitted_start)]"

theorem positions_reach_server_witness:
  "\<exists>(l2 :: server_link) r packet fs. receive_stream (wire l2) rx_start = Some (r, [packet]) \<and> sample_unpack (drop 5 packet) = Some fs
     \<and> (\<exists>f\<in>set fs. fd_addr f = 0x4840D6 \<and> fd_latitude f = Some 50 \<and> fd_longitude f = Some 7)
     \<and> (\<exists>f\<in>set fs. fd_addr f = 0 \<and> fd_latitude f = Some 50 \<and> fd_longitude f = Some 7)"
proof -
  have "map_option (\<lambda>(es, s). List.map flight_of (flist s)) (airnav_prepareData 0 sample_round sample_feeder)
      = Some [sample_flight 0 50 7, sample_flight 0x4840D6 50 7]"
    by code_simp
  then obtain es s1 where s1: "airnav_prepareData 0 sample_round sample_feeder = Some (es, s1)"
    "List.map flight_of (flist s1) = [sample_flight 0 50 7, sample_flight 0x4840D6 50 7]"
    by auto
  have ok: "fits_packet (sample_pack (List.map flight_of (flist s1)))"
    by (simp add: s1(2) fits_packet_def sample_pack_def BUFFLEN_def)
  have unpacks: "sample_unpack (sample_pack (List.map flight_of (flist s1))) = Some (List.map flight_of (flist s1))"
    unfolding s1(2) by code_simp
  have link: "flist s1 \<noteq> []" "airnav_com_inited link_idle = 1" "quiet (wire link_idle)" "length (wire link_idle) + 2 \<le> BUFFLEN"
    using s1(2) by (auto simp: link_idle_def quiet_def BUFFLEN_def)
  obtain s2 l2 r packet fs where "flist (s2 :: feeder) = []" and *: "receive_stream (wire (l2 :: server_link)) rx_start = Some (r, [packet])"
    "sample_unpack (drop 5 packet) = Some fs"
    "\<forall>(E, b, e)\<in>set sample_round. fresh E b V_position \<longrightarrow>
       (\<exists>f\<in>set fs. fd_addr f = (if non_icao_aircraft b then 0 else ac_addr b) \<and> fd_latitude f = Some (ac_lat b) \<and> fd_longitude f = Some (ac_lon b))"
    using positions_reach_server [where pack = sample_pack and unpack = sample_unpack, OF s1(1) link ok unpacks]
    by blast
  have "List.map (\<lambda>(E, b, e). (fresh E b V_position, if non_icao_aircraft b then 0 else ac_addr b, ac_lat b, ac_lon b)) sample_round
      = [(True, 0x4840D6, 50, 7), (True, 0, 50, 7)]"
    by code_simp
  then have "\<exists>f\<in>set fs. fd_addr f = 0x4840D6 \<and> fd_latitude f = Some 50 \<and> fd_longitude f = Some 7"
    "\<exists>f\<in>set fs. fd_addr f = 0 \<and> fd_latitude f = Some 50 \<and> fd_longitude f = Some 7"
    using *(3) unfolding sample_round_def by auto
  then show ?thesis using *(1,2) by blast
qed

end
