(* ===== verification/Spec2Isabelle.thy ===== *)
theory Spec2Isabelle
  imports DemodAC Radio NetFraming TrackCorrect AsterixCorrect FeederRounds
begin

text \<open>
  A verification library for this ADS-B feeder, a fork of dump1090 with a client that reports aircraft
  to a server. It follows a message from the samples of the radio, or from the bytes of a network
  connection, to the aircraft it updates and to the packet in which the aircraft is reported.

  \<^bold>\<open>How the program works.\<close> A receiver thread fills sample buffers and queues them
  (\<^verbatim>\<open>src/fifo.c\<close>). The main thread demodulates each one (\<^verbatim>\<open>src/demod_2400.c\<close>): it looks for preambles,
  slices 7 or 14 bytes at five phases, scores them and hands the best to \<^verbatim>\<open>decodeModesMessage\<close>
  (\<^verbatim>\<open>src/mode_s.c\<close>). Scoring (\<^verbatim>\<open>scoreModesMessage\<close>) tries to correct the message (\<^verbatim>\<open>correctMessage\<close>, with the CRC
  and the error tables of \<^verbatim>\<open>src/crc.c\<close>) and asks the ICAO filter (\<^verbatim>\<open>src/icao_filter.c\<close>) whether the address
  was seen lately; decoding extracts the fields, with the extended squitter decoders of the same file
  for DF17 and DF18 and the Comm-B decoders of \<^verbatim>\<open>src/comm_b.c\<close> for DF20 and DF21, and teaches the filter
  the addresses of clean messages. Mode A/C replies are found by the same demodulator and decoded by
  \<^verbatim>\<open>src/mode_ac.c\<close>, whose tables also serve the Gillham coded altitudes of Mode S. The demodulated samples
  and the messages heard in them also drive the gain of the tuner (\<^verbatim>\<open>src/adaptive.c\<close>).

  Messages also arrive over the network (\<^verbatim>\<open>src/net_io.c\<close>), which splits the bytes of its clients into
  messages and writes messages to other clients. Every message updates the state of an aircraft
  (\<^verbatim>\<open>src/track.c\<close>, with the positions of \<^verbatim>\<open>src/cpr.c\<close>). Once a second the feeder goes through the aircraft
  (\<^verbatim>\<open>airnav_prepareData\<close> in \<^verbatim>\<open>src/airnav_main.c\<close>), decides which fields are due, and queues a report, which
  another thread packs (\<^verbatim>\<open>src/airnav_proc_packets.c\<close>) and sends (\<^verbatim>\<open>net_send_packet\<close> in
  \<^verbatim>\<open>src/airnav_net.c\<close>), while a third thread collects the packets of the server from the same
  connection. Reports are also encoded as ASTERIX category 021 (\<^verbatim>\<open>src/airnav_asterix.c\<close>).

  \<^bold>\<open>Theories.\<close>
  \<^item> \<open>Prelude\<close>: machine words, the option monad of runs that may fault, checked array accesses.
    \<open>Fp\<close>: the rounding of C's \<^verbatim>\<open>float\<close> and \<^verbatim>\<open>double\<close> operations, on rational numbers. \<open>Types\<close>: the enumerations
    and \<^verbatim>\<open>struct modesMessage\<close> of \<^verbatim>\<open>src/dump1090.h\<close>. \<open>Bits\<close>: \<^verbatim>\<open>getbit\<close> and \<^verbatim>\<open>getbits\<close> of \<^verbatim>\<open>src/mode_s.h\<close>.
  \<^item> \<open>Crc\<close>, \<open>CrcTables\<close>: \<^verbatim>\<open>src/crc.c\<close>. The first has the definitions and the checksum as polynomial
    arithmetic over GF(2), the second what the error tables contain and what a correction does.
  \<^item> \<open>IcaoFilter\<close>: \<^verbatim>\<open>src/icao_filter.c\<close>; the two hash tables refine a set of addresses, stated as
    the locale \<open>address_filter\<close> and interpreted on the code's model.
  \<^item> \<open>ModeAC\<close>: \<^verbatim>\<open>src/mode_ac.c\<close>; both tables and their agreement with the Gillham code.
  \<^item> \<open>CommB\<close>: \<^verbatim>\<open>src/comm_b.c\<close>, each register decoder split into parsing and storing.
  \<^item> \<open>ModeSFields\<close>, \<open>Squitter\<close>, \<open>ModeS\<close>, \<open>ModeSCorrect\<close>: \<^verbatim>\<open>src/mode_s.c\<close>; the field decoders, the extended
    squitter, the message as a whole, and the theorems about the latter.
  \<^item> \<open>Fifo\<close>: \<^verbatim>\<open>src/fifo.c\<close>, on an explicit heap of linked buffers, refining a pool of buffers and a queue;
    the locale \<open>fallible_queue\<close> is the contract between the two threads.
  \<^item> \<open>Demod\<close>: \<^verbatim>\<open>src/demod_2400.c\<close>. \<open>DemodSlice\<close>: what slicing recovers from noisy samples. \<open>DemodCorrect\<close>: the
    search as a whole ends and stays in bounds, and what it does with a message. \<open>DemodHeard\<close>: the
    theorems about a buffer. \<open>DemodAC\<close>: the search for Mode A/C replies.
  \<^item> \<open>Adaptive\<close>: \<^verbatim>\<open>src/adaptive.c\<close> and the gain functions of \<^verbatim>\<open>src/sdr.c\<close> and \<^verbatim>\<open>src/sdr_rtlsdr.c\<close>.
    \<open>AdaptiveCorrect\<close>: its invariant and what each step keeps. \<open>AdaptiveGain\<close>: initialisation, the cutting
    of the samples into buffers, the measured noise. \<open>Radio\<close>: the demodulator and the gain control together.
  \<^item> \<open>Cpr\<close>: \<^verbatim>\<open>src/cpr.c\<close>. \<open>Track\<close>, \<open>TrackCorrect\<close>: \<^verbatim>\<open>src/track.c\<close>; the second chains the updates of an aircraft
    through the locales \<open>acceptance\<close> and \<open>derivation\<close>.
  \<^item> \<open>NetIo\<close>: services, clients, write buffers and output of \<^verbatim>\<open>src/net_io.c\<close>. \<open>NetRead\<close>: its input side.
    \<open>NetFraming\<close>: the framing theorem, for every handler that meets the locale \<open>frame_handler\<close>.
  \<^item> \<open>Asterix\<close>, \<open>AsterixCorrect\<close>: \<^verbatim>\<open>src/airnav_asterix.c\<close>.
  \<^item> \<open>Feeder\<close>: the preparation of reports, \<^verbatim>\<open>airnav_prepareData\<close> and \<^verbatim>\<open>airnav_threadSendData\<close>, the reports of the
    978 MHz receiver, and \<^verbatim>\<open>sendMultipleFlights\<close>. \<open>FeederCorrect\<close>: which steps
    leave a field alone, and when it is due. \<open>FeederTruth\<close>: what each field of a report says of the aircraft.
    \<open>FeederRounds\<close>: sequences of rounds; the locale \<open>throttled_field\<close> bounds how often a field is reported
    and is interpreted for every field with an interval except the squawk.
  \<^item> \<open>ServerLink\<close>, \<open>ServerLinkCorrect\<close>: sending and receiving packets in \<^verbatim>\<open>src/airnav_net.c\<close>.

  \<^bold>\<open>Conventions.\<close>
  \<^item> A C function is a definition of the same name; long ones are split into consecutive pieces.
  \<^item> A failed \<^verbatim>\<open>assert\<close> and an access outside an array are the value \<open>None\<close>, so a theorem that
    concludes \<open>Some\<close> says that neither happens.
  \<^item> File-scope and static state is a record passed along. The clock, the contents of uninitialised
    memory, the configuration in \<^verbatim>\<open>Modes\<close>, the results of system calls, and the C library's
    functions (\<^verbatim>\<open>sqrt\<close>, \<^verbatim>\<open>tan\<close>, \<^verbatim>\<open>atan2\<close>, \<^verbatim>\<open>atof\<close> and the like) are arguments. Calls into a component that is
    not modelled are recorded as events.
  \<^item> Floating point values are rationals; every operation is followed by the rounding of its type.
    Infinities, NaNs and signed zeros do not occur in the modelled expressions.
  \<^item> \<^verbatim>\<open>qsort\<close> is a stable sort by key and \<^verbatim>\<open>bsearch\<close> the usual bisection: tables without equal keys
    make the choice immaterial, and where keys may be equal the code discards all of them.
  \<^item> Loops are recursive functions with termination proofs. Three have an argument that counts rounds:
    \<open>combinations_loop\<close>, where it is the number of rounds of the code's own loop; \<open>demod_loop\<close> and
    \<open>ac_search\<close>, where it is the number of samples, which is enough because the position advances in
    every round; running out of it is a fault, and \<open>demodulate2400_safe\<close> shows that it does not happen.
    \<open>subblock_loop\<close>, which does not end when the block length is zero, is a partial function;
    \<open>subblock_loop_total\<close> shows that it ends in every state the initialisation leads to.

  \<^bold>\<open>What the theorems show.\<close>
  \<^item> The checksum is the CRC and corrections are sound, and complete for one bit (C1 to C3); the table
    construction overruns its array in one case (C16). A corrected message has a valid checksum (C22)
    and only clean messages reach the filter, whether they were scored before or not (C23). The filter is
    total and stays inside its tables (C17), and keeps an address for its time to live (C18).
  \<^item> Every field of a report passed its tests of validity and age and is the state of the aircraft (C6); the
    fields with an interval, but for the squawk, are not reported more often unless they change or are
    forced (C5), and the interval of the squawk has no effect (C37). Fresh positions come back out of the
    packet that reaches the server, with the address of the aircraft if it has an ICAO address (C4).
  \<^item> The demodulator is safe on any samples (C9), recovers a message from noisy samples (C8), and hears
    a transmission in a silent buffer (C7); a Mode A reply inherits an altitude (C40).
  \<^item> Demodulating buffers and controlling the gain from them never faults (C10); the samples between
    messages can be cut into buffers in any way without changing the gain control (C11), and the noise it measures is the
    configured percentile of the samples of a block (C12).
  \<^item> The receiver of the server link refines a machine that collects one packet at a time (C13), reads
    back what \<^verbatim>\<open>net_send_packet\<close> writes (C14) and is safe on any bytes (C15); a partial send is taken for
    a success (C38), and a start sequence across the end of the buffer is lost (C39).
  \<^item> The Mode A/C tables are mutually inverse (C19), the Comm-B choice is the unique best score (C20),
    the extended squitter keeps addresses consistent (C21).
  \<^item> The buffer queue refines a pool and a queue and wakes whoever waits (C24, C25).
  \<^item> Airborne positions come back through encoding and decoding (C26). Tracking never replaces fresh data
    by a lesser source (C30), keeps positions within range and reach, where the code checks them (C31) and its state well-formed (C32), trusts an
    aircraft after a number of messages (C33), and forgets exactly the stale ones (C34).
  \<^item> The network layer keeps its counts and buffers (C27), splits a stream into the messages that were
    written whatever the pieces it arrives in (C29), and dereferences a null service in one case (C28).
  \<^item> ASTERIX reports can be read back (C35), with coordinates rounded to the nearest unit
    when positive and upwards when negative (C36).

  \<^bold>\<open>Not modelled.\<close> The opening and streaming of the radios, sockets, threads, timers, child processes and
  files, of which the model sees results and events; the printing of messages (\<^verbatim>\<open>displayModesMessage\<close>), the
  text and JSON outputs and the terminal view, which format data through \<^verbatim>\<open>snprintf\<close>; the conversion of raw
  samples and the signal processing kernels; the status and authentication packets and the commands
  of the server, whose encoding is generated code; the magnetic model; and the bundled
  third-party code (\<^verbatim>\<open>cpu_features\<close>, \<^verbatim>\<open>starch\<close>).
\<close>

end
